(* ===== verification/Prelude.thy ===== *)
theory Prelude
  imports Complex_Main
begin

unbundle bit_operations_syntax

text \<open>
  Shared vocabulary of the development: the exceptions Python code raises, the result type of a
  fallible pure function (\<open>py_error + 'a\<close>), the state-and-exception monad in which code that
  mutates an object is written, its weakest-precondition calculus, and the arithmetic facts about
  powers of two and shapes that several components share.
\<close>

section \<open>Exceptions and results\<close>

text \<open>
  One constructor per exception class that the modelled code raises.  Messages are left out: no
  modelled code reads them.
\<close>

datatype py_error =
    ValueError | TypeError | AssertionError | RuntimeError | AttributeError | IndexError | KeyError
  | NotImplementedError | IncompatibleTypeErrorImpl | ZeroDivisionError | OutOfResources
  | CompileTimeAssertionFailure | FileNotFoundError | RecursionError | OtherException | OSError | UnboundLocalError | NameError
  | UnsupportedLanguageConstruct

type_synonym 'a result = "py_error + 'a"

named_theorems wp_rules
  \<open>weakest-precondition rules of the monad's combinators, as rewrite rules\<close>

named_theorems shape_simps
  \<open>facts about block shapes and numbers of elements\<close>

definition bind_r :: "'a result \<Rightarrow> ('a \<Rightarrow> 'b result) \<Rightarrow> 'b result" where
  "bind_r r f = (case r of Inl e \<Rightarrow> Inl e | Inr x \<Rightarrow> f x)"

lemma bind_r_simps [simp]:
  "bind_r (Inl e) f = Inl e"
  "bind_r (Inr x) f = f x"
  by (simp_all add: bind_r_def)

lemma bind_r_eq_Inr_iff: "bind_r r f = Inr y \<longleftrightarrow> (\<exists>x. r = Inr x \<and> f x = Inr y)"
  by (cases r) simp_all

lemma bind_r_eq_Inl_iff: "bind_r r f = Inl e \<longleftrightarrow> r = Inl e \<or> (\<exists>x. r = Inr x \<and> f x = Inl e)"
  by (cases r) simp_all

definition check_r :: "bool \<Rightarrow> py_error \<Rightarrow> unit result" where
  "check_r c e = (if c then Inr () else Inl e)"

lemma check_r_eq_Inr_iff [simp]: "check_r c e = Inr u \<longleftrightarrow> c"
  by (simp add: check_r_def)

lemma check_r_eq_Inl_iff [simp]: "check_r c e = Inl e' \<longleftrightarrow> \<not> c \<and> e' = e"
  by (auto simp: check_r_def)

fun map_r :: "('a \<Rightarrow> 'b result) \<Rightarrow> 'a list \<Rightarrow> 'b list result" where
  "map_r f [] = Inr []"
| "map_r f (x # xs) = bind_r (f x) (\<lambda>y. bind_r (map_r f xs) (\<lambda>ys. Inr (y # ys)))"

lemma map_r_length: "map_r f xs = Inr ys \<Longrightarrow> length ys = length xs"
  by (induction xs arbitrary: ys) (auto simp: bind_r_eq_Inr_iff)

text \<open>
  \<open>returns P r\<close>: if \<open>r\<close> is a value, it satisfies \<open>P\<close>.  Its introduction rules follow the
  control flow of the function that computes \<open>r\<close>, one subgoal per branch.
\<close>

definition returns :: "('a \<Rightarrow> bool) \<Rightarrow> 'a result \<Rightarrow> bool" where
  "returns P r \<longleftrightarrow> (\<forall>x. r = Inr x \<longrightarrow> P x)"

named_theorems returns_rules \<open>introduction rules for \<open>returns\<close>\<close>

lemma returns_Inr [returns_rules]: "P x \<Longrightarrow> returns P (Inr x)"
  by (simp add: returns_def)

lemma returns_Inl [returns_rules]: "returns P (Inl e)"
  by (simp add: returns_def)

lemma returns_if [returns_rules]:
  "(c \<Longrightarrow> returns P r) \<Longrightarrow> (\<not> c \<Longrightarrow> returns P r') \<Longrightarrow> returns P (if c then r else r')"
  by simp

lemma returns_bind_r [returns_rules]:
  "(\<And>x. r = Inr x \<Longrightarrow> returns P (f x)) \<Longrightarrow> returns P (bind_r r f)"
  by (cases r) (simp_all add: returns_def)

lemma returns_case_option [returns_rules]:
  "(x = None \<Longrightarrow> returns P r) \<Longrightarrow> (\<And>y. x = Some y \<Longrightarrow> returns P (f y)) \<Longrightarrow>
     returns P (case x of None \<Rightarrow> r | Some y \<Rightarrow> f y)"
  by (cases x) simp_all

lemma returns_Let [returns_rules]: "returns P (f x) \<Longrightarrow> returns P (Let x f)"
  by simp

lemma returnsD: "returns P r \<Longrightarrow> r = Inr x \<Longrightarrow> P x"
  by (simp add: returns_def)

lemma returnsI: "(\<And>x. r = Inr x \<Longrightarrow> P x) \<Longrightarrow> returns P r"
  by (simp add: returns_def)

section \<open>The state and exception monad\<close>

text \<open>
  A method that mutates an object of state type \<open>'s\<close> and may raise.  An exception aborts the
  computation, so the state at that point is dropped: nothing in the modelled code catches an
  exception and goes on with a half-updated object.
\<close>

type_synonym ('s, 'a) M = "'s \<Rightarrow> py_error + 'a \<times> 's"

definition return :: "'a \<Rightarrow> ('s, 'a) M" where
  "return x = (\<lambda>s. Inr (x, s))"

definition raise :: "py_error \<Rightarrow> ('s, 'a) M" where
  "raise e = (\<lambda>s. Inl e)"

definition bind :: "('s, 'a) M \<Rightarrow> ('a \<Rightarrow> ('s, 'b) M) \<Rightarrow> ('s, 'b) M" where
  "bind m f = (\<lambda>s. case m s of Inl e \<Rightarrow> Inl e | Inr (x, s') \<Rightarrow> f x s')"

definition lift_r :: "'a result \<Rightarrow> ('s, 'a) M" where
  "lift_r r = (\<lambda>s. case r of Inl e \<Rightarrow> Inl e | Inr x \<Rightarrow> Inr (x, s))"

definition check :: "bool \<Rightarrow> py_error \<Rightarrow> ('s, unit) M" where
  "check c e = (if c then return () else raise e)"

definition get_s :: "('s, 's) M" where
  "get_s = (\<lambda>s. Inr (s, s))"

definition put_s :: "'s \<Rightarrow> ('s, unit) M" where
  "put_s s' = (\<lambda>s. Inr ((), s'))"

fun map_m :: "('a \<Rightarrow> ('s, 'b) M) \<Rightarrow> 'a list \<Rightarrow> ('s, 'b list) M" where
  "map_m f [] = return []"
| "map_m f (x # xs) = bind (f x) (\<lambda>y. bind (map_m f xs) (\<lambda>ys. return (y # ys)))"

fun fold_m :: "('a \<Rightarrow> 'b \<Rightarrow> ('s, 'b) M) \<Rightarrow> 'a list \<Rightarrow> 'b \<Rightarrow> ('s, 'b) M" where
  "fold_m f [] z = return z"
| "fold_m f (x # xs) z = bind (f x z) (fold_m f xs)"

lemmas m_defs = return_def raise_def bind_def lift_r_def check_def get_s_def put_s_def

lemma bind_return [simp]: "bind (return x) f = f x"
  by (simp add: m_defs)

lemma bind_raise [simp]: "bind (raise e) f = raise e"
  by (simp add: m_defs)

lemma bind_return_right [simp]: "bind m return = m"
  by (rule ext) (auto simp: m_defs split: sum.splits)

lemma bind_assoc: "bind (bind m f) g = bind m (\<lambda>x. bind (f x) g)"
  by (rule ext) (auto simp: m_defs split: sum.splits)

lemma lift_r_simps [simp]:
  "lift_r (Inl e) = raise e"
  "lift_r (Inr x) = return x"
  by (simp_all add: m_defs)

lemma check_simps [simp]:
  "check True e = return ()"
  "check False e = raise e"
  by (simp_all add: check_def)

lemma return_apply: "return x s = Inr (x, s)"
  by (simp add: return_def)

lemma bind_apply_Inr_iff:
  "bind m f s = Inr (y, s'') \<longleftrightarrow> (\<exists>x s'. m s = Inr (x, s') \<and> f x s' = Inr (y, s''))"
  by (auto simp: bind_def split: sum.splits)

text \<open>Rewrite rules that execute a computation from a given state, call by call.\<close>

named_theorems run_simps \<open>conditional rewrite rules that execute a computation\<close>

lemma bind_run [run_simps]: "m s = Inr (x, s') \<Longrightarrow> bind m f s = f x s'"
  by (simp add: bind_def)

text \<open>Instances for truth values, which the simplifier would not match otherwise.\<close>

lemma bind_run_bool [run_simps]:
  "m s = Inr (True, s') \<Longrightarrow> bind m f s = f True s'"
  "m s = Inr (False, s') \<Longrightarrow> bind m f s = f False s'"
  by (simp_all add: bind_def)

lemma bind_run_error [run_simps]: "m s = Inl e \<Longrightarrow> bind m f s = Inl e"
  by (simp add: bind_def)

lemma basic_runs [run_simps]:
  "return x s = Inr (x, s)" "raise e s = Inl e" "get_s s = Inr (s, s)" "put_s s' s = Inr ((), s')"
  by (simp_all add: m_defs)

text \<open>What a computation that returned has done.\<close>

lemma basic_Inr:
  "return x s = Inr (y, s') \<longleftrightarrow> y = x \<and> s' = s"
  "lift_r r s = Inr (y, s') \<longleftrightarrow> r = Inr y \<and> s' = s"
  "check c e s = Inr (u, s') \<longleftrightarrow> c \<and> s' = s"
  "get_s s = Inr (t, s') \<longleftrightarrow> t = s \<and> s' = s"
  "put_s t s = Inr (u, s') \<longleftrightarrow> s' = t"
  "raise e s \<noteq> Inr z"
  by (auto simp: m_defs split: sum.splits)

lemmas run_Inr = bind_apply_Inr_iff basic_Inr

text \<open>Congruence rules that follow the control flow, to compare two runs of the same code.\<close>

named_theorems m_congs \<open>branch-by-branch congruence rules of the monad\<close>

lemma bind_cong_run:
  "(\<And>s. m s = m' s) \<Longrightarrow> (\<And>s x s'. m' s = Inr (x, s') \<Longrightarrow> f x s' = g x s') \<Longrightarrow> bind m f = bind m' g"
  by (rule ext) (auto simp: bind_def split: sum.splits)

lemma bind_cong_cont [m_congs]: "(\<And>x. f x = g x) \<Longrightarrow> bind m f = bind m g"
  by (rule arg_cong [where f = "bind m"]) (rule ext)

lemma lift_r_bind_cong [m_congs]: "(\<And>x. r = Inr x \<Longrightarrow> f x = g x) \<Longrightarrow> bind (lift_r r) f = bind (lift_r r) g"
  by (cases r) simp_all

lemma if_branch_cong [m_congs]:
  "(c \<Longrightarrow> m = m') \<Longrightarrow> (\<not> c \<Longrightarrow> n = n') \<Longrightarrow> (if c then m else n) = (if c then m' else n')"
  by simp

lemma case_prod_branch_cong [m_congs]:
  "(\<And>x y. p = (x, y) \<Longrightarrow> f x y = g x y) \<Longrightarrow> (case p of (x, y) \<Rightarrow> f x y) = (case p of (x, y) \<Rightarrow> g x y)"
  by (cases p) simp

section \<open>Weakest preconditions\<close>

text \<open>
  \<open>wp m Q s\<close>: if \<open>m\<close> started in \<open>s\<close> returns, the returned value and state satisfy \<open>Q\<close>.
\<close>

definition wp :: "('s, 'a) M \<Rightarrow> ('a \<Rightarrow> 's \<Rightarrow> bool) \<Rightarrow> 's \<Rightarrow> bool" where
  "wp m Q s = (case m s of Inl e \<Rightarrow> True | Inr (x, s') \<Rightarrow> Q x s')"

lemma wp_return [wp_rules]: "wp (return x) Q s = Q x s"
  by (simp add: wp_def m_defs)

lemma wp_raise [wp_rules]: "wp (raise e) Q s = True"
  by (simp add: wp_def m_defs)

lemma wp_bind [wp_rules]: "wp (bind m f) Q s = wp m (\<lambda>x. wp (f x) Q) s"
  by (auto simp: wp_def bind_def split: sum.splits)

lemma wp_lift_r [wp_rules]: "wp (lift_r r) Q s = (case r of Inl e \<Rightarrow> True | Inr x \<Rightarrow> Q x s)"
  by (auto simp: wp_def m_defs split: sum.splits)

lemma wp_check [wp_rules]: "wp (check c e) Q s = (c \<longrightarrow> Q () s)"
  by (auto simp: wp_def m_defs)

lemma wp_get_s [wp_rules]: "wp get_s Q s = Q s s"
  by (simp add: wp_def m_defs)

lemma wp_put_s [wp_rules]: "wp (put_s s') Q s = Q () s'"
  by (simp add: wp_def m_defs)

lemma wp_if [wp_rules]:
  "wp (if c then m else m') Q s = ((c \<longrightarrow> wp m Q s) \<and> (\<not> c \<longrightarrow> wp m' Q s))"
  by simp

lemma wp_mono: "wp m Q s \<Longrightarrow> (\<And>x s'. Q x s' \<Longrightarrow> R x s') \<Longrightarrow> wp m R s"
  by (auto simp: wp_def split: sum.splits)

lemma wp_conj: "wp m Q s \<Longrightarrow> wp m R s \<Longrightarrow> wp m (\<lambda>x s'. Q x s' \<and> R x s') s"
  by (auto simp: wp_def split: sum.splits)

lemma wp_Inr: "wp m Q s \<Longrightarrow> m s = Inr (x, s') \<Longrightarrow> Q x s'"
  by (simp add: wp_def)

lemma wp_I: "(\<And>x s'. m s = Inr (x, s') \<Longrightarrow> Q x s') \<Longrightarrow> wp m Q s"
  by (auto simp: wp_def split: sum.splits)

section \<open>Powers of two\<close>

lemma and_half: "((x::int) AND y) div 2 = (x div 2) AND (y div 2)"
  by (subst and_int_rec) simp

lemma and_minus_1_pow2: "((2::int) ^ k) AND (2 ^ k - 1) = 0"
proof (rule bit_eqI)
  fix n
  show "bit (((2::int) ^ k) AND (2 ^ k - 1)) n = bit (0::int) n"
    by (simp add: bit_and_iff bit_exp_iff bit_mask_iff flip: mask_eq_exp_minus_1)
qed

lemma and_neg_neg: "(x::int) < 0 \<Longrightarrow> y < 0 \<Longrightarrow> x AND y \<noteq> 0"
  by (metis and_negative_int_iff less_irrefl)

lemma and_minus_1_zero_pow2:
  "0 < (x::int) \<Longrightarrow> x AND (x - 1) = 0 \<Longrightarrow> \<exists>k. x = 2 ^ k"
proof (induction "nat x" arbitrary: x rule: less_induct)
  case less
  show ?case
  proof (cases "even x")
    case True
    then obtain y where y: "x = 2 * y" by (elim evenE)
    then have "(x - 1) div 2 = y - 1" by simp
    then have "y AND (y - 1) = 0"
      using and_half [of x "x - 1"] less.prems y by simp
    moreover have "0 < y" "nat y < nat x" using y less.prems by auto
    ultimately obtain k where "y = 2 ^ k" using less.hyps by blast
    then have "x = 2 ^ Suc k" using y by simp
    then show ?thesis by blast
  next
    case False
    then obtain y where y: "x = 2 * y + 1" by (elim oddE)
    then have "y = 0"
      using and_half [of x "x - 1"] less.prems by simp
    then have "x = 2 ^ 0" using y by simp
    then show ?thesis by blast
  qed
qed

end
