(* ===== verification/Dtype.thy ===== *)
theory Dtype
  imports Prelude
begin

text \<open>
  The type objects of the Triton front end: \<open>python/triton/language/core.py\<close> (classes \<open>dtype\<close>,
  \<open>pointer_type\<close>, \<open>block_type\<close>, \<open>function_type\<close> and the module's scalar types) and
  \<open>python/triton/language/_utils.py\<close> (the block shape check), with the MLIR types that
  \<open>to_ir\<close> asks the builder for (\<open>python/src/ir.cc\<close>, the \<open>get_*_ty\<close> methods).

  A \<open>dtype\<close> object is determined by its name, so the class is an enumeration of the names the
  constructor accepts.  \<open>pointer_type\<close> and \<open>block_type\<close> are subclasses of \<open>dtype\<close>: the type
  \<open>ty\<close> below is what a variable of static type \<open>dtype\<close> may hold.  Reading an attribute that
  the object does not have (\<open>int_bitwidth\<close> of a float, say) is the error \<open>AttributeError\<close>.
\<close>

section \<open>Scalar types\<close>

datatype dtype =
    Void | Int1
  | Int8 | Int16 | Int32 | Int64
  | UInt8 | UInt16 | UInt32 | UInt64
  | Fp8e4b15 | Fp8e4nv | Fp8e4b8 | Fp8e5 | Fp8e5b16
  | Fp16 | Bf16 | Fp32 | Fp64

datatype ty = Dt dtype | Ptr ty int bool | Block ty "int list"

datatype signedness = SIGNED | UNSIGNED

datatype type_kind = BOOLEAN | INTEGRAL | FLOATING

fun kind_value :: "type_kind \<Rightarrow> int" where
  "kind_value BOOLEAN = 0"
| "kind_value INTEGRAL = 1"
| "kind_value FLOATING = 2"

fun dtype_name :: "dtype \<Rightarrow> string" where
  "dtype_name Void = ''void''"
| "dtype_name Int1 = ''int1''"
| "dtype_name Int8 = ''int8''"
| "dtype_name Int16 = ''int16''"
| "dtype_name Int32 = ''int32''"
| "dtype_name Int64 = ''int64''"
| "dtype_name UInt8 = ''uint8''"
| "dtype_name UInt16 = ''uint16''"
| "dtype_name UInt32 = ''uint32''"
| "dtype_name UInt64 = ''uint64''"
| "dtype_name Fp8e4b15 = ''fp8e4b15''"
| "dtype_name Fp8e4nv = ''fp8e4nv''"
| "dtype_name Fp8e4b8 = ''fp8e4b8''"
| "dtype_name Fp8e5 = ''fp8e5''"
| "dtype_name Fp8e5b16 = ''fp8e5b16''"
| "dtype_name Fp16 = ''fp16''"
| "dtype_name Bf16 = ''bf16''"
| "dtype_name Fp32 = ''fp32''"
| "dtype_name Fp64 = ''fp64''"

definition SINT_TYPES :: "dtype list" where
  "SINT_TYPES = [Int8, Int16, Int32, Int64]"

definition UINT_TYPES :: "dtype list" where
  "UINT_TYPES = [Int1, UInt8, UInt16, UInt32, UInt64]"

definition FP_TYPES :: "dtype list" where
  "FP_TYPES = [Fp8e4b15, Fp8e4nv, Fp8e4b8, Fp8e5, Fp8e5b16, Fp16, Bf16, Fp32, Fp64]"

definition STANDARD_FP_TYPES :: "dtype list" where
  "STANDARD_FP_TYPES = [Fp16, Bf16, Fp32, Fp64]"

definition OTHER_TYPES :: "dtype list" where
  "OTHER_TYPES = [Void]"

text \<open>The attributes that \<open>dtype.__init__\<close> sets from the name.\<close>

fun dtype_bits :: "dtype \<Rightarrow> int" where
  "dtype_bits Void = 0"
| "dtype_bits Int1 = 1"
| "dtype_bits Int8 = 8"
| "dtype_bits Int16 = 16"
| "dtype_bits Int32 = 32"
| "dtype_bits Int64 = 64"
| "dtype_bits UInt8 = 8"
| "dtype_bits UInt16 = 16"
| "dtype_bits UInt32 = 32"
| "dtype_bits UInt64 = 64"
| "dtype_bits Fp8e4b15 = 8"
| "dtype_bits Fp8e4nv = 8"
| "dtype_bits Fp8e4b8 = 8"
| "dtype_bits Fp8e5 = 8"
| "dtype_bits Fp8e5b16 = 8"
| "dtype_bits Fp16 = 16"
| "dtype_bits Bf16 = 16"
| "dtype_bits Fp32 = 32"
| "dtype_bits Fp64 = 64"

fun primitive_bitwidth :: "ty \<Rightarrow> int result" where
  "primitive_bitwidth (Dt d) = Inr (dtype_bits d)"
| "primitive_bitwidth _ = Inl AttributeError"

definition int_bitwidth :: "ty \<Rightarrow> int result" where
  "int_bitwidth t = (case t of
     Dt d \<Rightarrow> if d \<in> set SINT_TYPES \<or> d \<in> set UINT_TYPES then Inr (dtype_bits d) else Inl AttributeError
   | _ \<Rightarrow> Inl AttributeError)"

definition int_signedness :: "ty \<Rightarrow> signedness result" where
  "int_signedness t = (case t of
     Dt d \<Rightarrow> if d \<in> set SINT_TYPES then Inr SIGNED
             else if d \<in> set UINT_TYPES then Inr UNSIGNED else Inl AttributeError
   | _ \<Rightarrow> Inl AttributeError)"

fun fp_mantissa_width :: "ty \<Rightarrow> int result" where
  "fp_mantissa_width (Dt Fp8e4b15) = Inr 3"
| "fp_mantissa_width (Dt Fp8e4nv) = Inr 3"
| "fp_mantissa_width (Dt Fp8e4b8) = Inr 3"
| "fp_mantissa_width (Dt Fp8e5) = Inr 2"
| "fp_mantissa_width (Dt Fp8e5b16) = Inr 2"
| "fp_mantissa_width (Dt Fp16) = Inr 10"
| "fp_mantissa_width (Dt Bf16) = Inr 7"
| "fp_mantissa_width (Dt Fp32) = Inr 23"
| "fp_mantissa_width (Dt Fp64) = Inr 52"
| "fp_mantissa_width _ = Inl AttributeError"

fun exponent_bias :: "ty \<Rightarrow> int result" where
  "exponent_bias (Dt Fp8e4b15) = Inr 15"
| "exponent_bias (Dt Fp8e4nv) = Inr 7"
| "exponent_bias (Dt Fp8e4b8) = Inr 8"
| "exponent_bias (Dt Fp8e5) = Inr 15"
| "exponent_bias (Dt Fp8e5b16) = Inr 16"
| "exponent_bias (Dt Fp16) = Inr 15"
| "exponent_bias (Dt Bf16) = Inr 127"
| "exponent_bias (Dt Fp32) = Inr 127"
| "exponent_bias (Dt Fp64) = Inr 1023"
| "exponent_bias _ = Inl AttributeError"

text \<open>
  Predicates.  \<open>is_fp8\<close> is the substring test \<open>'fp8' in self.name\<close>, and the name of a pointer or a
  block contains the name of its element type, so the test looks through both.
\<close>

fun is_fp8 :: "ty \<Rightarrow> bool" where
  "is_fp8 (Dt d) = (d \<in> {Fp8e4b15, Fp8e4nv, Fp8e4b8, Fp8e5, Fp8e5b16})"
| "is_fp8 (Ptr e _ _) = is_fp8 e"
| "is_fp8 (Block e _) = is_fp8 e"

definition is_fp8e4b15 :: "ty \<Rightarrow> bool" where "is_fp8e4b15 t = (t = Dt Fp8e4b15)"
definition is_fp16 :: "ty \<Rightarrow> bool" where "is_fp16 t = (t = Dt Fp16)"
definition is_bf16 :: "ty \<Rightarrow> bool" where "is_bf16 t = (t = Dt Bf16)"
definition is_fp32 :: "ty \<Rightarrow> bool" where "is_fp32 t = (t = Dt Fp32)"
definition is_fp64 :: "ty \<Rightarrow> bool" where "is_fp64 t = (t = Dt Fp64)"
definition is_int1 :: "ty \<Rightarrow> bool" where "is_int1 t = (t = Dt Int1)"
definition is_bool :: "ty \<Rightarrow> bool" where "is_bool t = is_int1 t"

definition is_floating :: "ty \<Rightarrow> bool" where
  "is_floating t = (case t of Dt d \<Rightarrow> d \<in> set FP_TYPES | _ \<Rightarrow> False)"

definition is_standard_floating :: "ty \<Rightarrow> bool" where
  "is_standard_floating t = (case t of Dt d \<Rightarrow> d \<in> set STANDARD_FP_TYPES | _ \<Rightarrow> False)"

definition is_int_signed :: "ty \<Rightarrow> bool" where
  "is_int_signed t = (case t of Dt d \<Rightarrow> d \<in> set SINT_TYPES | _ \<Rightarrow> False)"

definition is_int_unsigned :: "ty \<Rightarrow> bool" where
  "is_int_unsigned t = (case t of Dt d \<Rightarrow> d \<in> set UINT_TYPES | _ \<Rightarrow> False)"

definition is_int :: "ty \<Rightarrow> bool" where
  "is_int t = (case t of Dt d \<Rightarrow> d \<in> set (SINT_TYPES @ UINT_TYPES) | _ \<Rightarrow> False)"

fun is_ptr :: "ty \<Rightarrow> bool" where
  "is_ptr (Ptr _ _ _) = True"
| "is_ptr _ = False"

fun is_block :: "ty \<Rightarrow> bool" where
  "is_block (Block _ _) = True"
| "is_block _ = False"

fun is_const :: "ty \<Rightarrow> bool" where
  "is_const (Ptr _ _ c) = c"
| "is_const _ = False"

fun scalar :: "ty \<Rightarrow> ty" where
  "scalar (Block e _) = e"
| "scalar t = t"

fun element_ty :: "ty \<Rightarrow> ty result" where
  "element_ty (Ptr e _ _) = Inr e"
| "element_ty (Block e _) = Inr e"
| "element_ty (Dt _) = Inl AttributeError"

definition kind :: "ty \<Rightarrow> type_kind result" where
  "kind t = (if is_bool t then Inr BOOLEAN
             else if is_int t then Inr INTEGRAL
             else if is_floating t then Inr FLOATING
             else Inl AssertionError)"

definition get_int_max_value :: "ty \<Rightarrow> int result" where
  "get_int_max_value t =
     (if is_int_signed t then bind_r (int_bitwidth t) (\<lambda>w. Inr (2 ^ (nat (w - 1)) - 1))
      else if is_int_unsigned t then bind_r (int_bitwidth t) (\<lambda>w. Inr (2 ^ nat w - 1))
      else Inl AssertionError)"

definition get_int_min_value :: "ty \<Rightarrow> int result" where
  "get_int_min_value t =
     (if is_int_signed t then bind_r (int_bitwidth t) (\<lambda>w. Inr (- (2 ^ (nat (w - 1)))))
      else if is_int_unsigned t then Inr 0
      else Inl AssertionError)"

definition get_int_dtype :: "int \<Rightarrow> bool \<Rightarrow> ty result" where
  "get_int_dtype bitwidth is_signed =
     (if bitwidth = 1 then Inr (Dt Int1)
      else if bitwidth = 8 \<and> is_signed then Inr (Dt Int8)
      else if bitwidth = 8 \<and> \<not> is_signed then Inr (Dt UInt8)
      else if bitwidth = 16 \<and> is_signed then Inr (Dt Int16)
      else if bitwidth = 16 \<and> \<not> is_signed then Inr (Dt UInt16)
      else if bitwidth = 32 \<and> is_signed then Inr (Dt Int32)
      else if bitwidth = 32 \<and> \<not> is_signed then Inr (Dt UInt32)
      else if bitwidth = 64 \<and> is_signed then Inr (Dt Int64)
      else if bitwidth = 64 \<and> \<not> is_signed then Inr (Dt UInt64)
      else Inl ValueError)"

section \<open>Names\<close>

definition is_dtype :: "string \<Rightarrow> bool" where
  "is_dtype type_str =
     (type_str \<in> set (map dtype_name (SINT_TYPES @ UINT_TYPES @ FP_TYPES @ OTHER_TYPES)))"

definition dtype_init :: "string \<Rightarrow> ty result" where
  "dtype_init name =
     (case find (\<lambda>d. dtype_name d = name) (SINT_TYPES @ UINT_TYPES @ FP_TYPES @ OTHER_TYPES) of
        Some d \<Rightarrow> Inr (Dt d)
      | None \<Rightarrow> Inl AssertionError)"

definition codegen_name :: "dtype \<Rightarrow> string" where
  "codegen_name d =
     (let name = dtype_name d
      in if take 2 name = ''fp'' then ''float'' @ drop 2 name
         else if take 2 name = ''bf'' then ''bfloat'' @ drop 2 name
         else name)"

text \<open>The module-level names of \<open>core.py\<close> that are bound to scalar types.\<close>

definition scalar_types :: "(string \<times> dtype) list" where
  "scalar_types =
    [(''void'', Void), (''int1'', Int1), (''int8'', Int8), (''int16'', Int16), (''int32'', Int32),
     (''int64'', Int64), (''uint8'', UInt8), (''uint16'', UInt16), (''uint32'', UInt32),
     (''uint64'', UInt64), (''float8e5'', Fp8e5), (''float8e5b16'', Fp8e5b16),
     (''float8e4nv'', Fp8e4nv), (''float8e4b8'', Fp8e4b8), (''float8e4b15'', Fp8e4b15),
     (''float16'', Fp16), (''bfloat16'', Bf16), (''float32'', Fp32), (''float64'', Fp64)]"

section \<open>Block shapes\<close>

definition TRITON_MAX_TENSOR_NUMEL :: int where
  "TRITON_MAX_TENSOR_NUMEL = 1048576"

definition is_power_of_two :: "int \<Rightarrow> bool" where
  "is_power_of_two x = (x AND (x - 1) = 0)"

fun validate_block_shape_loop :: "int \<Rightarrow> int list \<Rightarrow> int result" where
  "validate_block_shape_loop numel [] = Inr numel"
| "validate_block_shape_loop numel (d # shape) =
     (if \<not> is_power_of_two d then Inl ValueError
      else validate_block_shape_loop (numel * d) shape)"

definition validate_block_shape :: "int list \<Rightarrow> int result" where
  "validate_block_shape shape =
     bind_r (validate_block_shape_loop 1 shape) (\<lambda>numel.
       if numel > TRITON_MAX_TENSOR_NUMEL then Inl ValueError else Inr numel)"

definition block_type :: "ty \<Rightarrow> int list \<Rightarrow> ty result" where
  "block_type element shape =
     (if shape = [] then Inl TypeError
      else bind_r (validate_block_shape shape) (\<lambda>numel. Inr (Block element shape)))"

fun get_block_shapes :: "ty \<Rightarrow> int list result" where
  "get_block_shapes (Block _ shape) = Inr shape"
| "get_block_shapes _ = Inl AttributeError"

section \<open>MLIR types\<close>

datatype irty =
    IRNone | IRInt int
  | IRF8E4M3FN | IRF8E4M3FNUZ | IRF8E5M2 | IRF8E5M2FNUZ | IRF16 | IRBF16 | IRF32 | IRF64
  | IRPtr irty int | IRTensor irty "int list"

record options =
  sanitize_overflow :: bool
  debug :: bool
  supported_fp8_dtypes :: "dtype list"
  allowed_dot_input_precisions :: "string list"
  default_dot_input_precision :: string
  max_num_imprecise_acc_default :: int

fun dtype_ir :: "dtype \<Rightarrow> irty" where
  "dtype_ir Void = IRNone"
| "dtype_ir Int1 = IRInt 1"
| "dtype_ir Int8 = IRInt 8"
| "dtype_ir UInt8 = IRInt 8"
| "dtype_ir Int16 = IRInt 16"
| "dtype_ir UInt16 = IRInt 16"
| "dtype_ir Int32 = IRInt 32"
| "dtype_ir UInt32 = IRInt 32"
| "dtype_ir Int64 = IRInt 64"
| "dtype_ir UInt64 = IRInt 64"
| "dtype_ir Fp8e5 = IRF8E5M2"
| "dtype_ir Fp8e5b16 = IRF8E5M2FNUZ"
| "dtype_ir Fp8e4nv = IRF8E4M3FN"
| "dtype_ir Fp8e4b8 = IRF8E4M3FNUZ"
| "dtype_ir Fp8e4b15 = IRInt 8"
| "dtype_ir Fp16 = IRF16"
| "dtype_ir Bf16 = IRBF16"
| "dtype_ir Fp32 = IRF32"
| "dtype_ir Fp64 = IRF64"

fun to_ir :: "'z options_scheme \<Rightarrow> ty \<Rightarrow> irty result" where
  "to_ir opts (Dt d) =
     (if take 3 (dtype_name d) = ''fp8'' \<and> d \<notin> set (supported_fp8_dtypes opts) then Inl ValueError
      else Inr (dtype_ir d))"
| "to_ir opts (Ptr e address_space c) = bind_r (to_ir opts e) (\<lambda>r. Inr (IRPtr r address_space))"
| "to_ir opts (Block e shape) = bind_r (to_ir opts e) (\<lambda>r. Inr (IRTensor r shape))"

record function_type =
  ret_types :: "ty list"
  param_types :: "ty list"

definition function_to_ir :: "'z options_scheme \<Rightarrow> function_type \<Rightarrow> (irty list \<times> irty list) result" where
  "function_to_ir opts f =
     bind_r (map_r (to_ir opts) (param_types f)) (\<lambda>ir_param_types.
     bind_r (map_r (to_ir opts) (ret_types f)) (\<lambda>ir_ret_types.
     Inr (ir_param_types, ir_ret_types)))"

text \<open>The MLIR type that \<open>to_ir\<close> yields when the target supports the type.\<close>

fun ir_of :: "ty \<Rightarrow> irty" where
  "ir_of (Dt d) = dtype_ir d"
| "ir_of (Ptr e address_space _) = IRPtr (ir_of e) address_space"
| "ir_of (Block e shape) = IRTensor (ir_of e) shape"

section \<open>Facts about the type tables\<close>

lemmas type_list_defs = SINT_TYPES_def UINT_TYPES_def FP_TYPES_def STANDARD_FP_TYPES_def OTHER_TYPES_def

lemmas type_pred_defs =
  is_floating_def is_standard_floating_def is_int_signed_def is_int_unsigned_def is_int_def
  is_bool_def is_int1_def is_fp8e4b15_def is_fp16_def is_bf16_def is_fp32_def is_fp64_def

lemmas type_attr_defs = int_bitwidth_def int_signedness_def kind_def

lemmas dtype_tables = type_list_defs type_pred_defs type_attr_defs

lemma scalar_of_nonblock [simp]: "\<not> is_block t \<Longrightarrow> scalar t = t"
  by (cases t) simp_all

lemma is_block_iff: "is_block t \<longleftrightarrow> (\<exists>e sh. t = Block e sh)"
  by (cases t) simp_all

lemma is_ptr_iff: "is_ptr t \<longleftrightarrow> (\<exists>e a c. t = Ptr e a c)"
  by (cases t) simp_all

lemma nonblock_nonptr_iff: "\<not> is_block t \<Longrightarrow> \<not> is_ptr t \<Longrightarrow> \<exists>d. t = Dt d"
  by (cases t) simp_all

lemma is_int_dt: "is_int t \<Longrightarrow> \<exists>d. t = Dt d"
  by (cases t) (simp_all add: is_int_def)

lemma is_floating_dt: "is_floating t \<Longrightarrow> \<exists>d. t = Dt d"
  by (cases t) (simp_all add: is_floating_def)

lemma is_int_split: "is_int t \<longleftrightarrow> is_int_signed t \<or> is_int_unsigned t"
  by (cases t) (simp_all add: type_pred_defs)

lemma int_not_floating: "is_int t \<Longrightarrow> \<not> is_floating t"
  by (cases t) (auto simp: dtype_tables)

lemma standard_floating_iff: "is_standard_floating t \<longleftrightarrow> is_floating t \<and> \<not> is_fp8 t"
proof (cases t)
  case (Dt d)
  then show ?thesis by (cases d) (simp_all add: dtype_tables)
qed (simp_all add: dtype_tables)

lemma is_bool_int: "is_bool t \<Longrightarrow> is_int t"
  by (auto simp: dtype_tables)

lemma dtype_name_inj: "dtype_name d = dtype_name d' \<longleftrightarrow> d = d'"
  by (cases d; cases d'; simp)

lemma is_int_attrs:
  "is_int t \<Longrightarrow> \<exists>w. int_bitwidth t = Inr w \<and> primitive_bitwidth t = Inr w \<and> w \<in> {1, 8, 16, 32, 64}"
proof -
  assume "is_int t"
  then obtain d where t: "t = Dt d" using is_int_dt by blast
  with \<open>is_int t\<close> show ?thesis by (cases d) (simp_all add: dtype_tables)
qed

lemma is_int_signedness: "is_int t \<Longrightarrow> int_signedness t = Inr (if is_int_signed t then SIGNED else UNSIGNED)"
  by (cases t) (auto simp: dtype_tables)

lemma is_int_kind: "is_int t \<Longrightarrow> kind t = Inr (if is_bool t then BOOLEAN else INTEGRAL)"
  by (simp add: kind_def)

lemma is_floating_kind: "is_floating t \<Longrightarrow> kind t = Inr FLOATING"
  using int_not_floating is_bool_int by (auto simp: kind_def)

text \<open>An integer type is determined by its width and signedness.\<close>

lemma int_type_eqI:
  assumes "is_int a" "is_int b" "int_bitwidth a = int_bitwidth b" "int_signedness a = int_signedness b"
  shows "a = b"
proof -
  obtain d e where "a = Dt d" "b = Dt e" using assms(1,2) is_int_dt by blast
  then show ?thesis using assms by (cases d; cases e) (simp_all add: dtype_tables)
qed

section \<open>Facts about shapes\<close>

definition numel_of :: "int list \<Rightarrow> int" where
  "numel_of shape = prod_list shape"

definition valid_shape :: "int list \<Rightarrow> bool" where
  "valid_shape shape \<longleftrightarrow>
     shape \<noteq> [] \<and> (\<forall>d \<in> set shape. is_power_of_two d) \<and> numel_of shape \<le> TRITON_MAX_TENSOR_NUMEL"

lemma is_power_of_two_iff: "is_power_of_two x \<longleftrightarrow> x = 0 \<or> (\<exists>k. x = 2 ^ k)"
proof
  assume x: "is_power_of_two x"
  show "x = 0 \<or> (\<exists>k. x = 2 ^ k)"
  proof (cases "0 < x")
    case True
    then show ?thesis using x and_minus_1_zero_pow2 by (simp add: is_power_of_two_def)
  next
    case False
    then show ?thesis using x and_neg_neg [of x "x - 1"] by (cases "x = 0") (auto simp: is_power_of_two_def)
  qed
next
  assume "x = 0 \<or> (\<exists>k. x = 2 ^ k)"
  then show "is_power_of_two x" by (auto simp: is_power_of_two_def and_minus_1_pow2)
qed

lemma validate_block_shape_loop_eq:
  "validate_block_shape_loop n shape =
     (if \<forall>d \<in> set shape. is_power_of_two d then Inr (n * numel_of shape) else Inl ValueError)"
  by (induction shape arbitrary: n) (auto simp: numel_of_def ac_simps)

lemma block_type_eq_Inr_iff:
  "block_type e shape = Inr t \<longleftrightarrow> valid_shape shape \<and> t = Block e shape"
  by (auto simp: block_type_def validate_block_shape_def validate_block_shape_loop_eq valid_shape_def)

lemma valid_shape_nonneg: "valid_shape shape \<Longrightarrow> d \<in> set shape \<Longrightarrow> 0 \<le> d"
  by (auto simp: valid_shape_def is_power_of_two_iff)

lemma to_ir_ir_of: "to_ir opts t = Inr r \<Longrightarrow> r = ir_of t"
  by (induction opts t arbitrary: r rule: to_ir.induct) (auto simp: bind_r_eq_Inr_iff split: if_splits)

text \<open>\<open>to_ir\<close> only fails on an fp8 type the target does not support.\<close>

fun supported :: "'z options_scheme \<Rightarrow> ty \<Rightarrow> bool" where
  "supported opts (Dt d) = (\<not> is_fp8 (Dt d) \<or> d \<in> set (supported_fp8_dtypes opts))"
| "supported opts (Ptr e _ _) = supported opts e"
| "supported opts (Block e _) = supported opts e"

lemma to_ir_eq: "to_ir opts t = (if supported opts t then Inr (ir_of t) else Inl ValueError)"
proof (induction opts t rule: to_ir.induct)
  case (1 opts d)
  then show ?case by (cases d) simp_all
qed simp_all

end
