(* ===== verification/Builder.thy ===== *)
theory Builder
  imports Dtype
begin

text \<open>
  The IR builder the front end drives (class \<open>TritonOpBuilder\<close> and its Python methods
  \<open>create_*\<close> and \<open>get_*\<close> in \<open>python/src/ir.cc\<close>) and the tensors of
  \<open>python/triton/language/core.py\<close>.

  The builder appends operations to a block.  Its state is the list of the types of the SSA values
  created so far (a value is its index in that list) and the log of operations in the order they
  were created, each with its results.  \<open>result_types\<close> gives the result types a \<open>create_*\<close>
  method computes; \<open>op_ok\<close> is the MLIR verifier: the operand constraints of the \<open>tt\<close> operations
  in \<open>include/triton/Dialect/Triton/IR/TritonOps.td\<close> and the documented ones of the \<open>arith\<close>
  dialect.  A builder state is well formed when every operation of its log verifies.
\<close>

section \<open>Operations\<close>

datatype rounding_mode = RTZ | RTNE
datatype cache_modifier = CACHE_NONE | CA | CG | CV | WB | CS | WT
datatype eviction_policy = EVICT_NORMAL | EVICT_FIRST | EVICT_LAST
datatype padding_option = PAD_ZERO | PAD_NAN
datatype mem_semantic = ACQUIRE | RELEASE | ACQUIRE_RELEASE | RELAXED
datatype mem_sync_scope = SCOPE_GPU | SCOPE_CTA | SCOPE_SYSTEM
datatype atomic_op = AT_AND | AT_OR | AT_XOR | AT_ADD | AT_FADD | AT_MAX | AT_MIN | AT_UMAX | AT_UMIN | AT_XCHG
datatype propagate_nan = NAN_NONE | NAN_ALL
datatype input_precision = TF32 | TF32x3 | IEEE
datatype f8f6f4_type = E4M3 | E5M2 | E2M3 | E3M2 | E2M1

text \<open>
  A Python float: a finite double is the rational it stands for (the sign of zero is not kept: no
  modelled code distinguishes the two zeros).
\<close>

datatype pyfloat = PyNaN | PyInf bool | PyFin rat

datatype number = NInt int | NBool bool | NFloat pyfloat

datatype binop =
    B_fadd | B_fsub | B_fmul | B_fdiv | B_frem
  | B_add | B_sub | B_mul | B_sdiv | B_udiv | B_srem | B_urem
  | B_and | B_or | B_xor | B_shl | B_lshr | B_ashr
  | B_minimumf | B_minnumf | B_maximumf | B_maxnumf
  | B_minsi | B_minui | B_maxsi | B_maxui

datatype cmpop =
    C_fcmpOGT | C_fcmpOGE | C_fcmpOLT | C_fcmpOLE | C_fcmpOEQ | C_fcmpUNE
  | C_icmpSGT | C_icmpSGE | C_icmpSLT | C_icmpSLE | C_icmpUGT | C_icmpUGE | C_icmpULT | C_icmpULE
  | C_icmpEQ | C_icmpNE

datatype castop =
    K_fp_to_fp "rounding_mode option" | K_bitcast | K_si_to_fp | K_ui_to_fp | K_fp_to_si | K_fp_to_ui
  | K_fp_ext | K_fp_trunc | K_int_cast bool | K_ptr_to_int | K_int_to_ptr

datatype (plugins only: code) op =
    GetProgramId int | GetNumPrograms int
  | Constant irty number | NullValue irty | AllOnes irty
  | Bin binop nat nat | Cmp cmpop nat nat | AddPtr nat nat | CastOp castop nat irty
  | Splat nat "int list" | Broadcast nat "int list" | ExpandDims nat int
  | Reshape nat "int list" bool | Trans nat "int list" | Cat nat nat | Join nat nat | Split nat
  | MakeRange int int | Select nat nat nat | ClampF nat nat nat propagate_nan
  | Load nat cache_modifier eviction_policy bool
  | MaskedLoad nat nat "nat option" cache_modifier eviction_policy bool
  | TensorPointerLoad nat "int list" "padding_option option" cache_modifier eviction_policy bool
  | Store nat nat cache_modifier eviction_policy
  | MaskedStore nat nat nat cache_modifier eviction_policy
  | TensorPointerStore nat nat "int list" cache_modifier eviction_policy
  | DescriptorLoad nat "nat list" irty cache_modifier eviction_policy
  | DescriptorStore nat nat "nat list"
  | TensormapCreate nat nat "nat list" "nat list" "nat list" "nat list" int int int int
  | TensormapFenceproxyAcquire nat
  | AtomicCas nat nat nat mem_semantic mem_sync_scope
  | AtomicRmw atomic_op nat nat nat mem_semantic mem_sync_scope
  | DotOp nat nat nat input_precision int
  | DotScaledOp nat nat f8f6f4_type nat "nat option" f8f6f4_type nat
  | Reduce "nat list" int | Scan "nat list" int bool
  | Histogram nat int
  | Barrier | Timestamp | Print string bool "nat list" "bool list" | Assert nat string | Assume nat
  | MakeBlockPtr nat "nat list" "nat list" "nat list" "int list" "int list"
  | Advance nat "nat list"

section \<open>Result types\<close>

fun ir_elem :: "irty \<Rightarrow> irty" where
  "ir_elem (IRTensor e _) = e"
| "ir_elem t = t"

fun ir_shape :: "irty \<Rightarrow> int list" where
  "ir_shape (IRTensor _ sh) = sh"
| "ir_shape _ = []"

fun ir_is_tensor :: "irty \<Rightarrow> bool" where
  "ir_is_tensor (IRTensor _ _) = True"
| "ir_is_tensor _ = False"

text \<open>The type with the shape of the first argument and the given element type.\<close>

fun ir_like :: "irty \<Rightarrow> irty \<Rightarrow> irty" where
  "ir_like (IRTensor _ sh) e = IRTensor e sh"
| "ir_like _ e = e"

fun ir_pointee :: "irty \<Rightarrow> irty" where
  "ir_pointee (IRPtr e _) = e"
| "ir_pointee (IRTensor (IRPtr e _) sh) = IRTensor e sh"
| "ir_pointee t = IRNone"

definition insert_at :: "nat \<Rightarrow> 'a \<Rightarrow> 'a list \<Rightarrow> 'a list" where
  "insert_at i x xs = take i xs @ x # drop i xs"

definition remove_at :: "nat \<Rightarrow> 'a list \<Rightarrow> 'a list" where
  "remove_at i xs = take i xs @ drop (Suc i) xs"

text \<open>A reduction along the only axis of a one-dimensional tensor yields a scalar.\<close>

definition ir_reduced :: "int \<Rightarrow> irty \<Rightarrow> irty" where
  "ir_reduced axis t =
     (let sh = remove_at (nat axis) (ir_shape t)
      in if sh = [] then ir_elem t else IRTensor (ir_elem t) sh)"

primrec result_types :: "irty list \<Rightarrow> op \<Rightarrow> irty list" where
  "result_types vt (GetProgramId axis) = [IRInt 32]"
| "result_types vt (GetNumPrograms axis) = [IRInt 32]"
| "result_types vt (Constant t v) = [t]"
| "result_types vt (NullValue t) = [t]"
| "result_types vt (AllOnes t) = [t]"
| "result_types vt (Bin b l r) = [vt ! l]"
| "result_types vt (Cmp c l r) = [ir_like (vt ! l) (IRInt 1)]"
| "result_types vt (AddPtr p i) = [vt ! p]"
| "result_types vt (CastOp k h t) = [t]"
| "result_types vt (Splat h sh) = [IRTensor (vt ! h) sh]"
| "result_types vt (Broadcast h sh) = [IRTensor (ir_elem (vt ! h)) sh]"
| "result_types vt (ExpandDims h axis) =
     [IRTensor (ir_elem (vt ! h)) (insert_at (nat axis) 1 (ir_shape (vt ! h)))]"
| "result_types vt (Reshape h sh reorder) = [IRTensor (ir_elem (vt ! h)) sh]"
| "result_types vt (Trans h dims) =
     [IRTensor (ir_elem (vt ! h)) (map (\<lambda>d. ir_shape (vt ! h) ! nat d) dims)]"
| "result_types vt (Cat l r) =
     [IRTensor (ir_elem (vt ! l)) [hd (ir_shape (vt ! l)) + hd (ir_shape (vt ! r))]]"
| "result_types vt (Join l r) = [IRTensor (ir_elem (vt ! l)) (ir_shape (vt ! l) @ [2])]"
| "result_types vt (Split h) =
     replicate 2 (IRTensor (ir_elem (vt ! h)) (butlast (ir_shape (vt ! h))))"
| "result_types vt (MakeRange start end) = [IRTensor (IRInt 32) [end - start]]"
| "result_types vt (Select c x y) = [vt ! x]"
| "result_types vt (ClampF x lo hi p) = [vt ! x]"
| "result_types vt (Load p c e v) = [ir_pointee (vt ! p)]"
| "result_types vt (MaskedLoad p m other c e v) = [ir_pointee (vt ! p)]"
| "result_types vt (TensorPointerLoad p bc pad c e v) = [ir_pointee (vt ! p)]"
| "result_types vt (DescriptorLoad p is t c e) = [t]"
| "result_types vt (AtomicCas p cmp v sem scope) = [ir_pointee (vt ! p)]"
| "result_types vt (AtomicRmw rmw p v m sem scope) = [ir_pointee (vt ! p)]"
| "result_types vt (DotOp a b c prec imprecise) = [vt ! c]"
| "result_types vt (DotScaledOp a sa fa b sb fb c) = [vt ! c]"
| "result_types vt (Reduce hs axis) = map (\<lambda>h. ir_reduced axis (vt ! h)) hs"
| "result_types vt (Scan hs axis reverse) = map (\<lambda>h. vt ! h) hs"
| "result_types vt (Histogram h bins) = [IRTensor (IRInt 32) [bins]]"
| "result_types vt Timestamp = [IRInt 64]"
| "result_types vt (MakeBlockPtr base shape strides offsets block_shape order) =
     [IRPtr (IRTensor (ir_pointee (vt ! base)) block_shape) 1]"
| "result_types vt (Advance p offsets) = [vt ! p]"
| "result_types vt (Store x0 x1 x2 x3) = []"
| "result_types vt (MaskedStore x0 x1 x2 x3 x4) = []"
| "result_types vt (TensorPointerStore x0 x1 x2 x3 x4) = []"
| "result_types vt (DescriptorStore x0 x1 x2) = []"
| "result_types vt (TensormapCreate x0 x1 x2 x3 x4 x5 x6 x7 x8 x9) = []"
| "result_types vt (TensormapFenceproxyAcquire x0) = []"
| "result_types vt Barrier = []"
| "result_types vt (Print x0 x1 x2 x3) = []"
| "result_types vt (Assert x0 x1) = []"
| "result_types vt (Assume x0) = []"

section \<open>The verifier\<close>

fun ir_float :: "irty \<Rightarrow> bool" where
  "ir_float t = (t \<in> {IRF8E4M3FN, IRF8E4M3FNUZ, IRF8E5M2, IRF8E5M2FNUZ, IRF16, IRBF16, IRF32, IRF64})"

fun ir_int :: "irty \<Rightarrow> bool" where
  "ir_int (IRInt w) = (w \<in> {1, 8, 16, 32, 64})"
| "ir_int _ = False"

fun ir_ptr :: "irty \<Rightarrow> bool" where
  "ir_ptr (IRPtr _ _) = True"
| "ir_ptr _ = False"

fun ir_width :: "irty \<Rightarrow> int" where
  "ir_width (IRInt w) = w"
| "ir_width IRF8E4M3FN = 8"
| "ir_width IRF8E4M3FNUZ = 8"
| "ir_width IRF8E5M2 = 8"
| "ir_width IRF8E5M2FNUZ = 8"
| "ir_width IRF16 = 16"
| "ir_width IRBF16 = 16"
| "ir_width IRF32 = 32"
| "ir_width IRF64 = 64"
| "ir_width _ = 0"

definition same_ir_shape :: "irty \<Rightarrow> irty \<Rightarrow> bool" where
  "same_ir_shape t u \<longleftrightarrow> ir_is_tensor t = ir_is_tensor u \<and> ir_shape t = ir_shape u"

fun binop_float :: "binop \<Rightarrow> bool" where
  "binop_float b = (b \<in> {B_fadd, B_fsub, B_fmul, B_fdiv, B_frem, B_minimumf, B_minnumf, B_maximumf, B_maxnumf})"

fun cmpop_float :: "cmpop \<Rightarrow> bool" where
  "cmpop_float c = (c \<in> {C_fcmpOGT, C_fcmpOGE, C_fcmpOLT, C_fcmpOLE, C_fcmpOEQ, C_fcmpUNE})"

text \<open>Which element types each cast operation accepts.\<close>

fun cast_ok :: "castop \<Rightarrow> irty \<Rightarrow> irty \<Rightarrow> bool" where
  "cast_ok (K_fp_to_fp r) t u =
     (ir_is_tensor t \<and> ir_float (ir_elem t) \<and> ir_float (ir_elem u) \<and>
      (ir_width (ir_elem u) < ir_width (ir_elem t) \<longrightarrow> r \<noteq> None))"
| "cast_ok K_bitcast t u =
     ((ir_ptr (ir_elem t) \<and> ir_ptr (ir_elem u)) \<or>
      ((ir_int (ir_elem t) \<or> ir_float (ir_elem t)) \<and> (ir_int (ir_elem u) \<or> ir_float (ir_elem u)) \<and>
       ir_width (ir_elem t) = ir_width (ir_elem u)))"
| "cast_ok K_si_to_fp t u = (ir_int (ir_elem t) \<and> ir_float (ir_elem u))"
| "cast_ok K_ui_to_fp t u = (ir_int (ir_elem t) \<and> ir_float (ir_elem u))"
| "cast_ok K_fp_to_si t u = (ir_float (ir_elem t) \<and> ir_int (ir_elem u))"
| "cast_ok K_fp_to_ui t u = (ir_float (ir_elem t) \<and> ir_int (ir_elem u))"
| "cast_ok K_fp_ext t u = (ir_float (ir_elem t) \<and> ir_float (ir_elem u) \<and> ir_width (ir_elem t) < ir_width (ir_elem u))"
| "cast_ok K_fp_trunc t u = (ir_float (ir_elem t) \<and> ir_float (ir_elem u) \<and> ir_width (ir_elem u) < ir_width (ir_elem t))"
| "cast_ok (K_int_cast sign_extend) t u = (ir_int (ir_elem t) \<and> ir_int (ir_elem u))"
| "cast_ok K_ptr_to_int t u = (ir_ptr (ir_elem t) \<and> ir_elem u = IRInt 64)"
| "cast_ok K_int_to_ptr t u = (ir_elem t = IRInt 64 \<and> ir_ptr (ir_elem u))"

definition pointer_like :: "irty \<Rightarrow> irty" where
  "pointer_like t = ir_like t (IRPtr (ir_elem t) 1)"

primrec op_operands :: "op \<Rightarrow> nat list" where
  "op_operands (Bin b l r) = [l, r]"
| "op_operands (Cmp c l r) = [l, r]"
| "op_operands (AddPtr p i) = [p, i]"
| "op_operands (CastOp k h t) = [h]"
| "op_operands (Splat h sh) = [h]"
| "op_operands (Broadcast h sh) = [h]"
| "op_operands (ExpandDims h axis) = [h]"
| "op_operands (Reshape h sh reorder) = [h]"
| "op_operands (Trans h dims) = [h]"
| "op_operands (Cat l r) = [l, r]"
| "op_operands (Join l r) = [l, r]"
| "op_operands (Split h) = [h]"
| "op_operands (Select c x y) = [c, x, y]"
| "op_operands (ClampF x lo hi p) = [x, lo, hi]"
| "op_operands (Load p c e v) = [p]"
| "op_operands (MaskedLoad p m other c e v) = [p, m] @ (case other of None \<Rightarrow> [] | Some h \<Rightarrow> [h])"
| "op_operands (TensorPointerLoad p bc pad c e v) = [p]"
| "op_operands (Store p v c e) = [p, v]"
| "op_operands (MaskedStore p v m c e) = [p, v, m]"
| "op_operands (TensorPointerStore p v bc c e) = [p, v]"
| "op_operands (DescriptorLoad p is t c e) = p # is"
| "op_operands (DescriptorStore p v is) = p # v # is"
| "op_operands (TensormapCreate p g bd gd gs es et il sw fm) = p # g # bd @ gd @ gs @ es"
| "op_operands (TensormapFenceproxyAcquire p) = [p]"
| "op_operands (AtomicCas p c v sem scope) = [p, c, v]"
| "op_operands (AtomicRmw rmw p v m sem scope) = [p, v, m]"
| "op_operands (DotOp a b c prec imprecise) = [a, b, c]"
| "op_operands (DotScaledOp a sa fa b sb fb c) = [a, sa, b] @ (case sb of None \<Rightarrow> [] | Some h \<Rightarrow> [h]) @ [c]"
| "op_operands (Reduce hs axis) = hs"
| "op_operands (Scan hs axis reverse) = hs"
| "op_operands (Histogram h bins) = [h]"
| "op_operands (Print prefix hex hs signs) = hs"
| "op_operands (Assert c msg) = [c]"
| "op_operands (Assume c) = [c]"
| "op_operands (MakeBlockPtr base shape strides offsets block_shape order) = base # shape @ strides @ offsets"
| "op_operands (Advance p offsets) = p # offsets"
| "op_operands (GetProgramId x0) = []"
| "op_operands (GetNumPrograms x0) = []"
| "op_operands (Constant x0 x1) = []"
| "op_operands (NullValue x0) = []"
| "op_operands (AllOnes x0) = []"
| "op_operands (MakeRange x0 x1) = []"
| "op_operands Barrier = []"
| "op_operands Timestamp = []"

primrec op_types_ok :: "irty list \<Rightarrow> op \<Rightarrow> bool" where
  "op_types_ok vt (GetProgramId axis) = (0 \<le> axis \<and> axis < 3)"
| "op_types_ok vt (GetNumPrograms axis) = (0 \<le> axis \<and> axis < 3)"
| "op_types_ok vt (Constant t v) = (ir_int t \<or> ir_float t)"
| "op_types_ok vt (NullValue t) = (ir_int t \<or> ir_float t)"
| "op_types_ok vt (AllOnes t) = ir_int t"
| "op_types_ok vt (Bin b l r) =
     (vt ! l = vt ! r \<and> (if binop_float b then ir_float (ir_elem (vt ! l)) else ir_int (ir_elem (vt ! l))))"
| "op_types_ok vt (Cmp c l r) =
     (vt ! l = vt ! r \<and> (if cmpop_float c then ir_float (ir_elem (vt ! l)) else ir_int (ir_elem (vt ! l))))"
| "op_types_ok vt (AddPtr p i) =
     (ir_ptr (ir_elem (vt ! p)) \<and> ir_int (ir_elem (vt ! i)) \<and> same_ir_shape (vt ! p) (vt ! i))"
| "op_types_ok vt (CastOp k h t) = (cast_ok k (vt ! h) t \<and> same_ir_shape (vt ! h) t)"
| "op_types_ok vt (Splat h sh) = (\<not> ir_is_tensor (vt ! h))"
| "op_types_ok vt (Broadcast h sh) =
     (ir_is_tensor (vt ! h) \<and> list_all2 (\<lambda>d e. d = 1 \<or> d = e) (ir_shape (vt ! h)) sh)"
| "op_types_ok vt (ExpandDims h axis) =
     (ir_is_tensor (vt ! h) \<and> 0 \<le> axis \<and> axis \<le> int (length (ir_shape (vt ! h))))"
| "op_types_ok vt (Reshape h sh reorder) =
     (ir_is_tensor (vt ! h) \<and> numel_of (ir_shape (vt ! h)) = numel_of sh)"
| "op_types_ok vt (Trans h dims) =
     (ir_is_tensor (vt ! h) \<and> sort dims = map int [0..<length (ir_shape (vt ! h))])"
| "op_types_ok vt (Cat l r) =
     (vt ! l = vt ! r \<and> ir_is_tensor (vt ! l) \<and> length (ir_shape (vt ! l)) = 1)"
| "op_types_ok vt (Join l r) = (vt ! l = vt ! r \<and> ir_is_tensor (vt ! l))"
| "op_types_ok vt (Split h) =
     (ir_is_tensor (vt ! h) \<and> ir_shape (vt ! h) \<noteq> [] \<and> last (ir_shape (vt ! h)) = 2)"
| "op_types_ok vt (MakeRange start end) = (start \<le> end)"
| "op_types_ok vt (Select c x y) =
     (vt ! x = vt ! y \<and> ir_elem (vt ! c) = IRInt 1 \<and> (ir_is_tensor (vt ! c) \<longrightarrow> same_ir_shape (vt ! c) (vt ! x)))"
| "op_types_ok vt (ClampF x lo hi p) = (vt ! x = vt ! lo \<and> vt ! x = vt ! hi \<and> ir_float (ir_elem (vt ! x)))"
| "op_types_ok vt (Load p c e v) = ir_ptr (ir_elem (vt ! p))"
| "op_types_ok vt (MaskedLoad p m other c e v) =
     (ir_ptr (ir_elem (vt ! p)) \<and> vt ! m = ir_like (vt ! p) (IRInt 1) \<and>
      (case other of None \<Rightarrow> True | Some h \<Rightarrow> vt ! h = ir_pointee (vt ! p)))"
| "op_types_ok vt (TensorPointerLoad p bc pad c e v) =
     (ir_ptr (vt ! p) \<and> ir_is_tensor (ir_pointee (vt ! p)))"
| "op_types_ok vt (Store p v c e) = (ir_ptr (ir_elem (vt ! p)) \<and> vt ! v = ir_pointee (vt ! p))"
| "op_types_ok vt (MaskedStore p v m c e) =
     (ir_ptr (ir_elem (vt ! p)) \<and> vt ! v = ir_pointee (vt ! p) \<and> vt ! m = ir_like (vt ! p) (IRInt 1))"
| "op_types_ok vt (TensorPointerStore p v bc c e) =
     (ir_ptr (vt ! p) \<and> ir_is_tensor (ir_pointee (vt ! p)) \<and> vt ! v = ir_pointee (vt ! p))"
| "op_types_ok vt (AtomicCas p cmp v sem scope) =
     (ir_ptr (ir_elem (vt ! p)) \<and> same_ir_shape (vt ! p) (vt ! v) \<and> same_ir_shape (vt ! p) (vt ! cmp))"
| "op_types_ok vt (AtomicRmw rmw p v m sem scope) =
     (vt ! p = pointer_like (vt ! v) \<and> vt ! m = ir_like (vt ! v) (IRInt 1) \<and>
      (ir_int (ir_elem (vt ! v)) \<or> ir_float (ir_elem (vt ! v))))"
| "op_types_ok vt (DotOp a b c prec imprecise) =
     (ir_is_tensor (vt ! a) \<and> ir_is_tensor (vt ! b) \<and> ir_is_tensor (vt ! c) \<and>
      ir_width (ir_elem (vt ! a)) = ir_width (ir_elem (vt ! b)))"
| "op_types_ok vt (Reduce hs axis) =
     (hs \<noteq> [] \<and> 0 \<le> axis \<and>
      (\<forall>h \<in> set hs. ir_is_tensor (vt ! h) \<and> ir_shape (vt ! h) = ir_shape (vt ! hd hs) \<and>
                    axis < int (length (ir_shape (vt ! h)))))"
| "op_types_ok vt (Scan hs axis reverse) =
     (hs \<noteq> [] \<and> 0 \<le> axis \<and>
      (\<forall>h \<in> set hs. ir_is_tensor (vt ! h) \<and> ir_shape (vt ! h) = ir_shape (vt ! hd hs) \<and>
                    axis < int (length (ir_shape (vt ! h)))))"
| "op_types_ok vt (Histogram h bins) = (ir_is_tensor (vt ! h) \<and> ir_int (ir_elem (vt ! h)))"
| "op_types_ok vt (Assert c msg) = (ir_elem (vt ! c) = IRInt 1)"
| "op_types_ok vt (MakeBlockPtr base shape strides offsets block_shape order) =
     (ir_ptr (vt ! base) \<and>
      (\<forall>h \<in> set shape. vt ! h = IRInt 64) \<and> (\<forall>h \<in> set strides. vt ! h = IRInt 64) \<and>
      (\<forall>h \<in> set offsets. vt ! h = IRInt 32) \<and>
      length shape = length block_shape \<and> length strides = length block_shape \<and>
      length offsets = length block_shape \<and> length order = length block_shape)"
| "op_types_ok vt (Advance p offsets) = (ir_ptr (vt ! p) \<and> (\<forall>h \<in> set offsets. vt ! h = IRInt 32))"
| "op_types_ok vt (DescriptorLoad x0 x1 x2 x3 x4) = True"
| "op_types_ok vt (DescriptorStore x0 x1 x2) = True"
| "op_types_ok vt (TensormapCreate x0 x1 x2 x3 x4 x5 x6 x7 x8 x9) = True"
| "op_types_ok vt (TensormapFenceproxyAcquire x0) = True"
| "op_types_ok vt (DotScaledOp x0 x1 x2 x3 x4 x5 x6) = True"
| "op_types_ok vt Barrier = True"
| "op_types_ok vt Timestamp = True"
| "op_types_ok vt (Print x0 x1 x2 x3) = True"
| "op_types_ok vt (Assume x0) = True"

definition op_ok :: "irty list \<Rightarrow> op \<Rightarrow> bool" where
  "op_ok vt p \<longleftrightarrow> (\<forall>h \<in> set (op_operands p). h < length vt) \<and> op_types_ok vt p"

section \<open>Builder state\<close>

record bstate =
  vtys :: "irty list"
  insts :: "(op \<times> nat list) list"

type_synonym 'a B = "(bstate, 'a) M"

definition emit :: "op \<Rightarrow> nat list B" where
  "emit p = (\<lambda>s.
     let rs = result_types (vtys s) p;
         hs = [length (vtys s)..<length (vtys s) + length rs]
     in Inr (hs, s\<lparr>vtys := vtys s @ rs, insts := insts s @ [(p, hs)]\<rparr>))"

definition create :: "op \<Rightarrow> nat B" where
  "create p = bind (emit p) (\<lambda>hs. return (hd hs))"

definition create_void :: "op \<Rightarrow> unit B" where
  "create_void p = bind (emit p) (\<lambda>_. return ())"

section \<open>Tensors\<close>

record tensor =
  handle :: nat
  ttype :: ty

definition tensor_shape :: "tensor \<Rightarrow> int list" where
  "tensor_shape t = (case ttype t of Block e sh \<Rightarrow> sh | _ \<Rightarrow> [])"

definition tensor_numel :: "tensor \<Rightarrow> int" where
  "tensor_numel t = prod_list (tensor_shape t)"

definition tensor_dtype :: "tensor \<Rightarrow> ty" where
  "tensor_dtype t = scalar (ttype t)"

definition create_tensor :: "op \<Rightarrow> ty \<Rightarrow> tensor B" where
  "create_tensor p t = bind (create p) (\<lambda>h. return \<lparr>handle = h, ttype = t\<rparr>)"

section \<open>Growth and well-formedness\<close>

text \<open>
  \<open>grows s s'\<close>: the builder only appended to \<open>s\<close>, so every value of \<open>s\<close> still has its type.
\<close>

definition grows :: "bstate \<Rightarrow> bstate \<Rightarrow> bool" where
  "grows s s' \<longleftrightarrow> (\<exists>vt. vtys s' = vtys s @ vt) \<and> (\<exists>log. insts s' = insts s @ log)"

definition wf_bstate :: "bstate \<Rightarrow> bool" where
  "wf_bstate s \<longleftrightarrow> (\<forall>(p, hs) \<in> set (insts s). op_ok (vtys s) p)"

fun wf_ty :: "ty \<Rightarrow> bool" where
  "wf_ty (Dt d) = (d \<noteq> Void)"
| "wf_ty (Ptr e _ _) = wf_ty e"
| "wf_ty (Block e sh) = (\<not> is_block e \<and> wf_ty e \<and> valid_shape sh)"

text \<open>A tensor is the value its Python type says it is.\<close>

definition tensor_ok :: "bstate \<Rightarrow> tensor \<Rightarrow> bool" where
  "tensor_ok s t \<longleftrightarrow>
     handle t < length (vtys s) \<and> vtys s ! handle t = ir_of (ttype t) \<and> wf_ty (ttype t)"

lemma grows_code [code]:
  "grows s s' \<longleftrightarrow> take (length (vtys s)) (vtys s') = vtys s \<and> take (length (insts s)) (insts s') = insts s"
  unfolding grows_def by (metis append_eq_conv_conj append_take_drop_id)

lemma grows_refl [simp, intro]: "grows s s"
  by (simp add: grows_def)

lemma grows_trans [trans]: "grows s s' \<Longrightarrow> grows s' s'' \<Longrightarrow> grows s s''"
  by (fastforce simp: grows_def)

lemma grows_nth: "grows s s' \<Longrightarrow> h < length (vtys s) \<Longrightarrow> vtys s' ! h = vtys s ! h"
  by (auto simp: grows_def nth_append)

lemma grows_length: "grows s s' \<Longrightarrow> length (vtys s) \<le> length (vtys s')"
  by (auto simp: grows_def)

lemma tensor_ok_grows: "tensor_ok s t \<Longrightarrow> grows s s' \<Longrightarrow> tensor_ok s' t"
  by (auto simp: tensor_ok_def grows_nth dest: grows_length)

text \<open>The verifier only looks at the types of the operands.\<close>

lemma op_types_ok_cong:
  "(\<And>h. h \<in> set (op_operands p) \<Longrightarrow> vt ! h = vt' ! h) \<Longrightarrow> op_types_ok vt p = op_types_ok vt' p"
proof (induction p)
  case (Reduce hs axis)
  then show ?case by (cases hs) auto
next
  case (Scan hs axis r)
  then show ?case by (cases hs) auto
qed (auto split: option.splits)

lemma op_ok_append: "op_ok vt p \<Longrightarrow> op_ok (vt @ rs) p"
  unfolding op_ok_def
  by (metis (mono_tags, lifting) length_append nth_append op_types_ok_cong trans_less_add1)

section \<open>Soundness judgement\<close>

text \<open>
  \<open>sound m Q s\<close>: run on a well-formed builder state \<open>s\<close>, \<open>m\<close> only appends operations, each of
  which verifies, and what it returns satisfies \<open>Q\<close>.
\<close>

definition sound :: "'a B \<Rightarrow> ('a \<Rightarrow> bstate \<Rightarrow> bool) \<Rightarrow> bstate \<Rightarrow> bool" where
  "sound m Q s \<longleftrightarrow> (wf_bstate s \<longrightarrow> wp m (\<lambda>x s'. wf_bstate s' \<and> grows s s' \<and> Q x s') s)"

named_theorems sound_rules \<open>introduction rules of the soundness judgement\<close>

lemma soundI:
  "(\<And>x s'. wf_bstate s \<Longrightarrow> m s = Inr (x, s') \<Longrightarrow> wf_bstate s' \<and> grows s s' \<and> Q x s') \<Longrightarrow> sound m Q s"
  by (auto simp: sound_def intro: wp_I)

lemma soundD:
  "sound m Q s \<Longrightarrow> wf_bstate s \<Longrightarrow> m s = Inr (x, s') \<Longrightarrow> wf_bstate s' \<and> grows s s' \<and> Q x s'"
  by (auto simp: sound_def wp_def)

lemma sound_return [sound_rules]: "Q x s \<Longrightarrow> sound (return x) Q s"
  by (simp add: sound_def wp_rules)

lemma sound_raise [sound_rules]: "sound (raise e) Q s"
  by (simp add: sound_def wp_rules)

lemma sound_conseq: "sound m R s \<Longrightarrow> (\<And>x s'. grows s s' \<Longrightarrow> R x s' \<Longrightarrow> Q x s') \<Longrightarrow> sound m Q s"
  by (auto simp: sound_def elim: wp_mono)

lemma sound_bind:
  assumes "sound m R s" and "\<And>x s'. grows s s' \<Longrightarrow> R x s' \<Longrightarrow> sound (f x) Q s'"
  shows "sound (bind m f) Q s"
proof (rule soundI)
  fix y s2
  assume wf: "wf_bstate s" and run: "bind m f s = Inr (y, s2)"
  then obtain x s1 where m: "m s = Inr (x, s1)" and f: "f x s1 = Inr (y, s2)"
    by (auto simp: bind_apply_Inr_iff)
  from soundD [OF assms(1) wf m] have s1: "wf_bstate s1" "grows s s1" "R x s1" by auto
  from soundD [OF assms(2) [OF s1(2,3)] s1(1) f] show "wf_bstate s2 \<and> grows s s2 \<and> Q y s2"
    using s1(2) by (auto intro: grows_trans)
qed

lemma sound_lift_r_bind [sound_rules]:
  "(\<And>x. r = Inr x \<Longrightarrow> sound (f x) Q s) \<Longrightarrow> sound (bind (lift_r r) f) Q s"
  by (cases r) (auto intro: sound_raise)

lemma sound_lift_r [sound_rules]: "(\<And>x. r = Inr x \<Longrightarrow> Q x s) \<Longrightarrow> sound (lift_r r) Q s"
  by (cases r) (auto intro: sound_raise sound_return)

lemma sound_check_bind [sound_rules]:
  "(c \<Longrightarrow> sound (f ()) Q s) \<Longrightarrow> sound (bind (check c e) f) Q s"
  by (cases c) (auto intro: sound_raise)

lemma sound_if [sound_rules]:
  "(c \<Longrightarrow> sound m Q s) \<Longrightarrow> (\<not> c \<Longrightarrow> sound m' Q s) \<Longrightarrow> sound (if c then m else m') Q s"
  by simp

lemma emit_sound:
  assumes "op_ok (vtys s) p"
    and "\<And>s'. grows s s' \<Longrightarrow> vtys s' = vtys s @ result_types (vtys s) p \<Longrightarrow>
           Q [length (vtys s)..<length (vtys s) + length (result_types (vtys s) p)] s'"
  shows "sound (emit p) Q s"
proof (rule soundI)
  fix hs s'
  assume wf: "wf_bstate s" and run: "emit p s = Inr (hs, s')"
  let ?rs = "result_types (vtys s) p"
  from run have s': "vtys s' = vtys s @ ?rs" "insts s' = insts s @ [(p, hs)]"
    and hs: "hs = [length (vtys s)..<length (vtys s) + length ?rs]"
    by (auto simp: emit_def Let_def)
  then have "grows s s'" by (simp add: grows_def)
  moreover have "wf_bstate s'"
    using wf assms(1) s' by (auto simp: wf_bstate_def intro: op_ok_append)
  ultimately show "wf_bstate s' \<and> grows s s' \<and> Q hs s'"
    using assms(2) s' hs by blast
qed

lemma create_void_sound [sound_rules]:
  "op_ok (vtys s) p \<Longrightarrow> (\<And>s'. grows s s' \<Longrightarrow> Q () s') \<Longrightarrow> sound (create_void p) Q s"
  unfolding create_void_def
  by (rule sound_bind, rule emit_sound [where Q = "\<lambda>_ s'. grows s s'"]) (auto intro: sound_return)

lemma create_sound:
  assumes "op_ok (vtys s) p" "result_types (vtys s) p = [r]"
    and "\<And>s' h. grows s s' \<Longrightarrow> h < length (vtys s') \<Longrightarrow> vtys s' ! h = r \<Longrightarrow> Q h s'"
  shows "sound (create p) Q s"
  unfolding create_def
proof (rule sound_bind)
  show "sound (emit p) (\<lambda>hs s'. hs = [length (vtys s)] \<and> vtys s' = vtys s @ [r]) s"
    by (rule emit_sound) (simp_all add: assms(1,2))
next
  fix hs s'
  assume "grows s s'" "hs = [length (vtys s)] \<and> vtys s' = vtys s @ [r]"
  then show "sound (return (hd hs)) Q s'" by (auto intro!: sound_return assms(3))
qed

lemma create_tensor_sound:
  assumes "op_ok (vtys s) p" "result_types (vtys s) p = [ir_of t]" "wf_ty t"
    and "\<And>s' x. grows s s' \<Longrightarrow> tensor_ok s' x \<Longrightarrow> ttype x = t \<Longrightarrow> Q x s'"
  shows "sound (create_tensor p t) Q s"
  unfolding create_tensor_def
proof (rule sound_bind)
  show "sound (create p) (\<lambda>h s'. grows s s' \<and> h < length (vtys s') \<and> vtys s' ! h = ir_of t) s"
    by (rule create_sound [OF assms(1,2)]) auto
next
  fix h s'
  assume "grows s s'" and "grows s s' \<and> h < length (vtys s') \<and> vtys s' ! h = ir_of t"
  then show "sound (return \<lparr>handle = h, ttype = t\<rparr>) Q s'"
    by (auto intro!: sound_return assms(4) simp: tensor_ok_def assms(3))
qed

end
