(* ===== verification/Semantic_Types.thy ===== *)
theory Semantic_Types
  imports Builder
begin

text \<open>
  The implicit conversion rules of \<open>python/triton/language/semantic.py\<close>: which type a binary
  operator computes in (\<open>integer_promote_impl\<close>, \<open>computation_type_impl\<close>) and which operand types it
  refuses (\<open>check_ptr_type_impl\<close>).  Integer promotion is shown to be the maximum of a linear order
  (width first, unsigned above signed), hence associative, commutative and idempotent.
\<close>

section \<open>Definitions\<close>

definition integer_promote_impl :: "ty \<Rightarrow> ty \<Rightarrow> ty result" where
  "integer_promote_impl a_ty b_ty =
     bind_r (int_bitwidth a_ty) (\<lambda>a_rank.
     bind_r (int_bitwidth b_ty) (\<lambda>b_rank.
     bind_r (int_signedness a_ty) (\<lambda>a_sn.
     bind_r (int_signedness b_ty) (\<lambda>b_sn.
     if a_sn = b_sn then Inr (if a_rank > b_rank then a_ty else b_ty)
     else if a_sn = UNSIGNED then Inr (if a_rank \<ge> b_rank then a_ty else b_ty)
     else if b_sn = UNSIGNED then Inr (if b_rank \<ge> a_rank then b_ty else a_ty)
     else Inl TypeError))))"

text \<open>
  Step 0 of \<open>computation_type_impl\<close>: a Python number whose kind is not above the tensor's does not
  take part in the promotion.  \<open>None\<close> means that the rules below decide.
\<close>

definition scalar_operand_type :: "ty \<Rightarrow> bool \<Rightarrow> ty \<Rightarrow> bool \<Rightarrow> bool \<Rightarrow> ty option result" where
  "scalar_operand_type a_ty a_is_scalar b_ty b_is_scalar div_or_mod =
     (if a_is_scalar \<noteq> b_is_scalar then
        let (scalar_ty, tensor_ty) = (if a_is_scalar then (a_ty, b_ty) else (b_ty, a_ty)) in
        bind_r (kind scalar_ty) (\<lambda>ks.
        bind_r (kind tensor_ty) (\<lambda>kt.
        if kind_value ks \<le> kind_value kt then
          (if div_or_mod \<and> tensor_ty \<in> {Dt Fp16, Dt Bf16} then Inr (Some (Dt Fp32))
           else Inr (Some tensor_ty))
        else Inr None))
      else Inr None)"

definition computation_type_impl :: "ty \<Rightarrow> bool \<Rightarrow> ty \<Rightarrow> bool \<Rightarrow> bool \<Rightarrow> ty result" where
  "computation_type_impl a_ty a_is_scalar b_ty b_is_scalar div_or_mod =
     bind_r (scalar_operand_type a_ty a_is_scalar b_ty b_is_scalar div_or_mod) (\<lambda>early.
     case early of Some t \<Rightarrow> Inr t
     | None \<Rightarrow>
       if is_fp64 a_ty \<or> is_fp64 b_ty then Inr (Dt Fp64)
       else if is_fp32 a_ty \<or> is_fp32 b_ty then Inr (Dt Fp32)
       else if is_fp16 a_ty \<or> is_fp16 b_ty then
         (if div_or_mod then Inr (Dt Fp32) else Inr (Dt Fp16))
       else if is_bf16 a_ty \<and> is_bf16 b_ty then
         (if div_or_mod then Inr (Dt Fp32) else Inr (Dt Bf16))
       else if is_bf16 a_ty \<or> is_bf16 b_ty then Inr (Dt Fp32)
       else if is_fp8 a_ty \<and> is_fp8 b_ty then Inr (if a_ty = b_ty then a_ty else Dt Fp16)
       else if \<not> is_int a_ty \<or> \<not> is_int b_ty then Inl TypeError
       else
         bind_r (int_signedness a_ty) (\<lambda>a_sn.
         bind_r (int_signedness b_ty) (\<lambda>b_sn.
         if div_or_mod \<and> a_sn \<noteq> b_sn then Inl TypeError
         else integer_promote_impl a_ty b_ty)))"

definition check_ptr_type_impl :: "ty \<Rightarrow> ty \<Rightarrow> bool \<Rightarrow> unit result" where
  "check_ptr_type_impl type_a type_b allow_ptr_a =
     (if is_ptr type_a then
        if \<not> allow_ptr_a then Inl IncompatibleTypeErrorImpl
        else if is_ptr type_b \<and> type_a \<noteq> type_b then Inl IncompatibleTypeErrorImpl
        else if is_floating type_b then Inl IncompatibleTypeErrorImpl
        else Inr ()
      else Inr ())"

section \<open>Integer promotion is a maximum\<close>

text \<open>The rank of an integer type in the order that the C rules describe.\<close>

definition int_rank :: "ty \<Rightarrow> int" where
  "int_rank t = (case t of Dt d \<Rightarrow> 2 * dtype_bits d + (if d \<in> set UINT_TYPES then 1 else 0) | _ \<Rightarrow> 0)"

definition int_max :: "ty \<Rightarrow> ty \<Rightarrow> ty" where
  "int_max a b = (if int_rank a > int_rank b then a else b)"

lemma int_rank_inj:
  assumes "is_int a" "is_int b" "int_rank a = int_rank b" shows "a = b"
proof -
  obtain d e where "a = Dt d" "b = Dt e" using assms(1,2) is_int_dt by blast
  then show ?thesis using assms by (cases d; cases e) (simp_all add: dtype_tables int_rank_def)
qed

lemma integer_promote_impl_eq:
  assumes "is_int a" "is_int b" shows "integer_promote_impl a b = Inr (int_max a b)"
proof -
  obtain d e where "a = Dt d" "b = Dt e" using assms is_int_dt by blast
  then show ?thesis using assms
    by (cases d; cases e) (simp_all add: integer_promote_impl_def dtype_tables int_rank_def int_max_def)
qed

lemma int_max_is_int: "is_int a \<Longrightarrow> is_int b \<Longrightarrow> is_int (int_max a b)"
  by (simp add: int_max_def)

lemma int_max_idem [simp]: "int_max a a = a"
  by (simp add: int_max_def)

lemma int_max_commute: "is_int a \<Longrightarrow> is_int b \<Longrightarrow> int_max a b = int_max b a"
  using int_rank_inj [of a b] by (auto simp: int_max_def)

lemma int_max_assoc: "int_max (int_max a b) c = int_max a (int_max b c)"
  by (simp add: int_max_def)

lemma int_max_upper: "int_rank a \<le> int_rank (int_max a b) \<and> int_rank b \<le> int_rank (int_max a b)"
  by (simp add: int_max_def)

section \<open>The computation type\<close>

lemma computation_type_self:
  "is_int t \<or> is_floating t \<Longrightarrow> computation_type_impl t False t False False = Inr t"
proof -
  assume t: "is_int t \<or> is_floating t"
  then obtain d where "t = Dt d" using is_int_dt is_floating_dt by blast
  with t show ?thesis
    by (cases d) (simp_all add: computation_type_impl_def scalar_operand_type_def
        integer_promote_impl_def dtype_tables)
qed

text \<open>The computation type is a number type: never a pointer, a block or void.\<close>

lemma kind_number: "kind t = Inr k \<Longrightarrow> is_int t \<or> is_floating t"
  by (auto simp: kind_def is_bool_int split: if_splits)

lemma is_fp8_floating: "is_fp8 t \<Longrightarrow> \<not> is_ptr t \<Longrightarrow> \<not> is_block t \<Longrightarrow> is_floating t"
  by (cases t) (auto simp: dtype_tables)

lemma fp_floating [simp]:
  "is_floating (Dt Fp64)" "is_floating (Dt Fp32)" "is_floating (Dt Fp16)" "is_floating (Dt Bf16)"
  by (simp_all add: dtype_tables)

lemma scalar_operand_number:
  "scalar_operand_type a sa b sb dm = Inr (Some t) \<Longrightarrow> is_int t \<or> is_floating t"
  by (auto simp: scalar_operand_type_def bind_r_eq_Inr_iff dest: kind_number split: if_splits)

lemma computation_type_number:
  assumes "computation_type_impl a a_is_scalar b b_is_scalar div_or_mod = Inr t"
    and "\<not> is_ptr a" "\<not> is_ptr b" "\<not> is_block a" "\<not> is_block b"
  shows "is_int t \<or> is_floating t"
proof -
  have "returns (\<lambda>t. is_int t \<or> is_floating t)
     (computation_type_impl a a_is_scalar b b_is_scalar div_or_mod)"
    unfolding computation_type_impl_def
    by (intro returns_rules)
      (auto simp: integer_promote_impl_eq int_max_is_int is_fp8_floating assms(2-5)
        dest: scalar_operand_number intro: returnsI)
  then show ?thesis using assms(1) by (rule returnsD)
qed

lemma computation_type_dt:
  assumes "computation_type_impl a a_is_scalar b b_is_scalar div_or_mod = Inr t"
    and "\<not> is_ptr a" "\<not> is_ptr b" "\<not> is_block a" "\<not> is_block b"
  shows "\<not> is_ptr t" "\<not> is_block t" "wf_ty t"
  using computation_type_number [OF assms]
  by (cases t; auto simp: dtype_tables)+

end
