(* ===== verification/Promotion.thy ===== *)
theory Promotion
  imports Semantic_Types "HOL-Library.Multiset"
begin

text \<open>
  Integer promotion as a semilattice: the interface that a chain of binary operators relies on, its
  interpretation on \<open>integer_promote_impl\<close> of \<open>semantic.py\<close>, and the symmetry of
  \<open>computation_type_impl\<close>.
\<close>

section \<open>The interface of a promotion\<close>

text \<open>The type of a chain of binary operators, from left to right.\<close>

fun join_chain :: "('a \<Rightarrow> 'a \<Rightarrow> 'a result) \<Rightarrow> 'a \<Rightarrow> 'a list \<Rightarrow> 'a result" where
  "join_chain join a [] = Inr a"
| "join_chain join a (x # xs) = bind_r (join a x) (\<lambda>t. join_chain join t xs)"

text \<open>What a chain of operators relies on: promotion is total on the types of a class, and commutative,
  associative and idempotent there.\<close>

locale promotion =
  fixes P :: "'a \<Rightarrow> bool" and join :: "'a \<Rightarrow> 'a \<Rightarrow> 'a result"
  assumes total: "P a \<Longrightarrow> P b \<Longrightarrow> \<exists>c. join a b = Inr c \<and> P c"
    and commute: "P a \<Longrightarrow> P b \<Longrightarrow> join a b = join b a"
    and assoc: "P a \<Longrightarrow> P b \<Longrightarrow> P c \<Longrightarrow> bind_r (join a b) (\<lambda>d. join d c) = bind_r (join b c) (join a)"
    and idem: "P a \<Longrightarrow> join a a = Inr a"
begin

lemma chain_total: "P a \<Longrightarrow> \<forall>x \<in> set xs. P x \<Longrightarrow> \<exists>c. join_chain join a xs = Inr c \<and> P c"
proof (induction xs arbitrary: a)
  case (Cons x xs)
  then obtain c where "join a x = Inr c" "P c" using total [of a x] by auto
  with Cons show ?case by simp
qed simp

lemma chain_swap:
  assumes "P a" "P x" "P y"
  shows "join_chain join a (x # y # xs) = join_chain join a (y # x # xs)"
proof -
  obtain c where c: "join a x = Inr c" "P c" using total assms by blast
  obtain d where d: "join a y = Inr d" "P d" using total assms by blast
  have "join c y = bind_r (join x y) (join a)" using assoc [OF assms(1-3)] c by simp
  also have "\<dots> = bind_r (join y x) (join a)" using commute assms by simp
  also have "\<dots> = join d x" using assoc [OF assms(1,3,2)] d by simp
  finally show ?thesis using c d by simp
qed

lemma chain_front:
  "P a \<Longrightarrow> \<forall>x \<in> set (us @ z # vs). P x \<Longrightarrow> join_chain join a (us @ z # vs) = join_chain join a (z # us @ vs)"
proof (induction us arbitrary: a)
  case (Cons u us)
  then obtain c where c: "join a u = Inr c" "P c" using total [of a u] by auto
  then have "join_chain join a ((u # us) @ z # vs) = join_chain join c (z # us @ vs)"
    using Cons.IH [OF c(2)] Cons.prems by simp
  also have "\<dots> = join_chain join a (u # z # us @ vs)" using c by simp
  also have "\<dots> = join_chain join a (z # u # us @ vs)" using Cons.prems by (intro chain_swap) auto
  finally show ?case by simp
qed simp

lemma chain_permute:
  assumes "mset xs = mset ys" "P a" "\<forall>x \<in> set xs. P x"
  shows "join_chain join a xs = join_chain join a ys"
  using assms
proof (induction xs arbitrary: a ys)
  case (Cons x xs)
  then have "x \<in> set ys" by (metis list.set_intros(1) set_mset_mset)
  then obtain us vs where ys: "ys = us @ x # vs" by (auto simp: in_set_conv_decomp)
  then have m: "mset xs = mset (us @ vs)" using Cons.prems(1) by simp
  have P: "\<forall>y \<in> set ys. P y" using Cons.prems(1,3) by (metis set_mset_mset)
  obtain c where c: "join a x = Inr c" "P c" using Cons.prems total [of a x] by auto
  have "join_chain join a ys = join_chain join a (x # us @ vs)"
    unfolding ys using Cons.prems(2) P ys by (intro chain_front) auto
  then show ?case using c Cons.IH [OF m c(2)] Cons.prems(3) by simp
qed simp

lemma chain_reorder:
  assumes "mset (a # xs) = mset (b # ys)" "\<forall>x \<in> set (a # xs). P x"
  shows "join_chain join a xs = join_chain join b ys"
proof (cases "a = b")
  case True
  then show ?thesis using chain_permute [of xs ys a] assms by simp
next
  case False
  have P: "P a" "\<forall>x \<in> set xs. P x" using assms(2) by simp_all
  have m: "add_mset a (mset xs) = add_mset b (mset ys)" using assms(1) by simp
  then obtain zs where xs: "mset xs = mset (b # zs)" and ys: "mset ys = mset (a # zs)"
    using False by (auto simp: add_eq_conv_ex) (metis ex_mset)
  have Pb: "P b" and Pz: "\<forall>x \<in> set (a # zs). P x" using P xs
    by (metis insert_iff list.set(2) set_mset_mset, metis insert_iff list.set(2) set_mset_mset)
  have Py: "\<forall>x \<in> set ys. P x" using Pz ys by (metis set_mset_mset)
  have "join_chain join a xs = join_chain join a (b # zs)" by (rule chain_permute [OF xs P])
  also have "\<dots> = join_chain join b (a # zs)" using commute [OF P(1) Pb] by simp
  also have "\<dots> = join_chain join b ys" by (rule chain_permute [OF ys Pb Py, symmetric])
  finally show ?thesis .
qed

end

interpretation int_promotion: promotion is_int integer_promote_impl
  by unfold_locales
    (auto simp: integer_promote_impl_eq int_max_is_int int_max_commute int_max_assoc)

section \<open>The order of the operands does not matter\<close>

lemma scalar_operand_type_sym: "scalar_operand_type a sa b sb dm = scalar_operand_type b sb a sa dm"
  by (cases sa; cases sb) (simp_all add: scalar_operand_type_def)

lemma int_rules_sym:
  assumes "is_int a" "is_int b"
  shows "bind_r (int_signedness a) (\<lambda>x. bind_r (int_signedness b) (\<lambda>y.
       if dm \<and> x \<noteq> y then Inl TypeError else integer_promote_impl a b)) =
     bind_r (int_signedness b) (\<lambda>x. bind_r (int_signedness a) (\<lambda>y.
       if dm \<and> x \<noteq> y then Inl TypeError else integer_promote_impl b a))"
  using assms by (simp add: is_int_signedness integer_promote_impl_eq int_max_commute)

lemma computation_type_sym: "computation_type_impl a sa b sb dm = computation_type_impl b sb a sa dm"
  unfolding computation_type_impl_def scalar_operand_type_sym [of a sa b]
  by (intro arg_cong [where f = "bind_r _"] ext) (auto simp: int_rules_sym split: option.split)

section \<open>Implicit conversion rules\<close>

text \<open>C8: on integer types \<open>integer_promote_impl\<close> never fails and yields the least upper bound of the
  two types in the order width first, unsigned above signed.\<close>

theorem integer_promotion_join:
  assumes "is_int a" "is_int b"
  shows "\<exists>c. integer_promote_impl a b = Inr c \<and> c \<in> {a, b} \<and> int_rank a \<le> int_rank c \<and> int_rank b \<le> int_rank c \<and>
     (\<forall>d. is_int d \<longrightarrow> int_rank a \<le> int_rank d \<longrightarrow> int_rank b \<le> int_rank d \<longrightarrow> integer_promote_impl c d = Inr d)"
proof (intro exI conjI allI impI)
  show "integer_promote_impl a b = Inr (int_max a b)" by (rule integer_promote_impl_eq [OF assms])
  show "int_max a b \<in> {a, b}" by (simp add: int_max_def)
  show "int_rank a \<le> int_rank (int_max a b)" "int_rank b \<le> int_rank (int_max a b)" using int_max_upper by auto
  show "integer_promote_impl (int_max a b) d = Inr d"
    if "is_int d" "int_rank a \<le> int_rank d" "int_rank b \<le> int_rank d" for d
    using that integer_promote_impl_eq [OF int_max_is_int [OF assms] that(1)] by (simp add: int_max_def)
qed

theorem integer_promotion_join_witness:
  "\<exists>c. integer_promote_impl (Dt Int32) (Dt UInt8) = Inr c \<and> c \<in> {Dt Int32, Dt UInt8}"
  using integer_promotion_join [of "Dt Int32" "Dt UInt8"] by (auto simp: dtype_tables)

text \<open>C9: the type of a chain of operators on integer types depends only on which types occur in it and
  how often, not on their order, whichever of them comes first; and promotion never fails along it.\<close>

theorem promotion_order_irrelevant:
  assumes "mset (a # xs) = mset (b # ys)" "\<forall>x \<in> set (a # xs). is_int x"
  shows "join_chain integer_promote_impl a xs = join_chain integer_promote_impl b ys \<and>
     \<not> isl (join_chain integer_promote_impl a xs)"
proof -
  have "is_int a" "\<forall>x \<in> set xs. is_int x" using assms(2) by simp_all
  from int_promotion.chain_total [OF this] int_promotion.chain_reorder [OF assms] show ?thesis by auto
qed

theorem promotion_order_irrelevant_witness:
  "join_chain integer_promote_impl (Dt Int8) [Dt Int32, Dt UInt32] = join_chain integer_promote_impl (Dt UInt32) [Dt Int8, Dt Int32]"
  using promotion_order_irrelevant [of "Dt Int8" "[Dt Int32, Dt UInt32]" "Dt UInt32" "[Dt Int8, Dt Int32]"]
  by (simp add: dtype_tables)

text \<open>The type a binary operator computes in, or its refusal, is the same for the operands in the
  other order, for every pair of types and whichever of the operands are Python numbers.\<close>

theorem computation_type_symmetric:
  "computation_type_impl a a_is_scalar b b_is_scalar div_or_mod = computation_type_impl b b_is_scalar a a_is_scalar div_or_mod"
  by (rule computation_type_sym)

end
