(* ===== verification/Semantic_Cast.thy ===== *)
theory Semantic_Cast
  imports Semantic_Types
begin

text \<open>
  Conversions in \<open>python/triton/language/semantic.py\<close>: Python values to tensors (\<open>to_tensor\<close>,
  \<open>full\<close>, \<open>splat\<close>), implicit broadcasting (\<open>broadcast_impl_value\<close>, \<open>broadcast_impl_shape\<close>), the
  operand check of every binary operator (\<open>binary_op_type_checking_impl\<close>), \<open>bitcast\<close> and \<open>cast\<close>.

  In the source \<open>cast\<close>, \<open>full\<close>, \<open>to_tensor\<close>, \<open>binary_op_type_checking_impl\<close> and \<open>not_equal\<close> call
  each other.  Here each of them takes the function that its calls of \<open>cast\<close> go to, and
  \<open>cast_depth n\<close> is \<open>cast\<close> with room for \<open>n\<close> nested calls, running out of room being Python's
  \<open>RecursionError\<close>.  Three nested calls are enough for every input: \<open>cast\<close> satisfies the
  recursive equation of the source and never raises \<open>RecursionError\<close> itself.
\<close>

section \<open>The builder the front end sees\<close>

text \<open>
  The target's options, and the functions the target installs in \<open>builder.codegen_fns\<close> (code of the
  backends, so parameters here; \<open>None\<close> where the target installs none).
\<close>

record builder = options +
  convert_custom_types :: "(tensor \<Rightarrow> ty \<Rightarrow> rounding_mode option \<Rightarrow> tensor B) option"
  min_dot_size :: "(ty \<Rightarrow> ty \<Rightarrow> int \<times> int \<times> int) option"

datatype pyval = VNum number | VConstexpr pyval | VTensor tensor | VOther

type_synonym cast_fn = "tensor \<Rightarrow> ty \<Rightarrow> string option \<Rightarrow> tensor B"

fun as_tensor :: "pyval \<Rightarrow> tensor result" where
  "as_tensor (VTensor t) = Inr t"
| "as_tensor _ = Inl AttributeError"

fun is_number :: "pyval \<Rightarrow> bool" where
  "is_number (VNum _) = True"
| "is_number _ = False"

fun number_is_zero :: "number \<Rightarrow> bool" where
  "number_is_zero (NInt i) = (i = 0)"
| "number_is_zero (NBool v) = (\<not> v)"
| "number_is_zero (NFloat (PyFin r)) = (r = 0)"
| "number_is_zero (NFloat _) = False"

fun number_is_negative :: "number \<Rightarrow> bool" where
  "number_is_negative (NInt i) = (i < 0)"
| "number_is_negative (NBool v) = False"
| "number_is_negative (NFloat (PyFin r)) = (r < 0)"
| "number_is_negative (NFloat (PyInf neg)) = neg"
| "number_is_negative (NFloat PyNaN) = False"

fun number_as_int :: "number \<Rightarrow> int option" where
  "number_as_int (NInt i) = Some i"
| "number_as_int (NBool v) = Some (if v then 1 else 0)"
| "number_as_int (NFloat _) = None"

fun negative_number :: "pyval \<Rightarrow> bool" where
  "negative_number (VNum n) = number_is_negative n"
| "negative_number _ = False"

section \<open>Constants\<close>

definition get_null_value :: "irty \<Rightarrow> nat B" where
  "get_null_value t = (if ir_float t \<or> ir_int t then create (NullValue t) else raise RuntimeError)"

definition get_all_ones_value :: "irty \<Rightarrow> nat B" where
  "get_all_ones_value t = (if ir_int t then create (AllOnes t) else raise RuntimeError)"

text \<open>
  \<open>getattr(builder, f"get_{dtype.name}")(value)\<close>: the builder has such a method for the integer
  types and the standard floating types only, and its argument conversion refuses a float where an
  integer is wanted and an integer outside \<open>int64_t\<close> (\<open>uint64_t\<close> for unsigned types).
\<close>

definition get_value_fn :: "ty \<Rightarrow> number \<Rightarrow> nat B" where
  "get_value_fn t n = (case t of
     Dt d \<Rightarrow>
       if d = Int1 then create (Constant (IRInt 1) (NBool (\<not> number_is_zero n)))
       else if d \<in> set SINT_TYPES then
         (case number_as_int n of
            Some i \<Rightarrow> bind (check (- (2 ^ 63) \<le> i \<and> i < 2 ^ 63) TypeError) (\<lambda>_. create (Constant (dtype_ir d) n))
          | None \<Rightarrow> raise TypeError)
       else if d \<in> set UINT_TYPES then
         (case number_as_int n of
            Some i \<Rightarrow> bind (check (0 \<le> i \<and> i < 2 ^ 64) TypeError) (\<lambda>_. create (Constant (dtype_ir d) n))
          | None \<Rightarrow> raise TypeError)
       else if d \<in> set STANDARD_FP_TYPES then create (Constant (dtype_ir d) n)
       else raise AttributeError
   | _ \<Rightarrow> raise AttributeError)"

definition null_tensor :: "builder \<Rightarrow> ty \<Rightarrow> tensor B" where
  "null_tensor b t =
     bind (lift_r (to_ir b t)) (\<lambda>r.
     bind (get_null_value r) (\<lambda>h.
     return \<lparr>handle = h, ttype = t\<rparr>))"

section \<open>Splat, full, to_tensor\<close>

definition splat :: "builder \<Rightarrow> tensor \<Rightarrow> int list \<Rightarrow> tensor B" where
  "splat b value shape =
     bind (check (\<not> is_block (ttype value)) AssertionError) (\<lambda>_.
     if shape = [] then return value
     else
       bind (lift_r (block_type (tensor_dtype value) shape)) (\<lambda>ret_ty.
       create_tensor (Splat (handle value) shape) ret_ty))"

definition full_with :: "cast_fn \<Rightarrow> builder \<Rightarrow> int list \<Rightarrow> pyval \<Rightarrow> ty option \<Rightarrow> tensor B" where
  "full_with cast_rec b shape value dtype =
     bind (case value of
         VTensor t \<Rightarrow>
           bind (check (tensor_numel t = 1) AssertionError) (\<lambda>_.
           case dtype of
             None \<Rightarrow> raise AttributeError
           | Some d \<Rightarrow> cast_rec t d None)
       | VNum n \<Rightarrow>
           (case dtype of
              None \<Rightarrow> raise ValueError
            | Some d \<Rightarrow>
                if number_is_zero n then null_tensor b d
                else bind (get_value_fn d n) (\<lambda>h. return \<lparr>handle = h, ttype = d\<rparr>))
       | _ \<Rightarrow> raise TypeError)
     (\<lambda>value. splat b value shape)"

definition int_constant_type :: "int \<Rightarrow> ty result" where
  "int_constant_type x =
     (if - (2 ^ 31) \<le> x \<and> x < 2 ^ 31 then Inr (Dt Int32)
      else if 2 ^ 31 \<le> x \<and> x < 2 ^ 32 then Inr (Dt UInt32)
      else if - (2 ^ 63) \<le> x \<and> x < 2 ^ 63 then Inr (Dt Int64)
      else if 2 ^ 63 \<le> x \<and> x < 2 ^ 64 then Inr (Dt UInt64)
      else Inl ValueError)"

definition min_float32 :: rat where
  "min_float32 = 1 / 2 ^ 126"

definition max_float32 :: rat where
  "max_float32 = (2 - 1 / 2 ^ 23) * 2 ^ 127"

fun float_constant_type :: "pyfloat \<Rightarrow> ty" where
  "float_constant_type PyNaN = Dt Fp32"
| "float_constant_type (PyInf neg) = Dt Fp32"
| "float_constant_type (PyFin x) =
     (if \<bar>x\<bar> = 0 \<or> min_float32 \<le> \<bar>x\<bar> \<and> \<bar>x\<bar> \<le> max_float32 then Dt Fp32 else Dt Fp64)"

fun to_tensor_with :: "cast_fn \<Rightarrow> builder \<Rightarrow> pyval \<Rightarrow> bool \<Rightarrow> pyval B" where
  "to_tensor_with cast_rec b (VNum (NBool x)) check_type =
     bind (create_tensor (Constant (IRInt 1) (NBool x)) (Dt Int1)) (\<lambda>t. return (VTensor t))"
| "to_tensor_with cast_rec b (VNum (NInt x)) check_type =
     bind (lift_r (int_constant_type x)) (\<lambda>dtype.
     bind (full_with cast_rec b [] (VNum (NInt x)) (Some dtype)) (\<lambda>t. return (VTensor t)))"
| "to_tensor_with cast_rec b (VNum (NFloat x)) check_type =
     bind (full_with cast_rec b [] (VNum (NFloat x)) (Some (float_constant_type x))) (\<lambda>t. return (VTensor t))"
| "to_tensor_with cast_rec b (VConstexpr x) check_type = to_tensor_with cast_rec b x True"
| "to_tensor_with cast_rec b (VTensor t) check_type = return (VTensor t)"
| "to_tensor_with cast_rec b VOther check_type = (if check_type then raise TypeError else return VOther)"

section \<open>Broadcasting\<close>

text \<open>The common shape of two shapes of the same rank.\<close>

fun broadcast_shape :: "int list \<Rightarrow> int list \<Rightarrow> int list result" where
  "broadcast_shape (left # lhs_shape) (right # rhs_shape) =
     bind_r (if left = 1 then Inr right
             else if right = 1 \<or> right = left then Inr left
             else Inl ValueError) (\<lambda>d.
     bind_r (broadcast_shape lhs_shape rhs_shape) (\<lambda>ds. Inr (d # ds)))"
| "broadcast_shape _ _ = Inr []"

text \<open>The loops that prepend axes of size 1: \<open>n\<close> of them.\<close>

fun prepend_axes :: "builder \<Rightarrow> nat \<Rightarrow> tensor \<Rightarrow> tensor B" where
  "prepend_axes b 0 t = return t"
| "prepend_axes b (Suc n) t =
     bind (lift_r (get_block_shapes (ttype t))) (\<lambda>shape.
     bind (lift_r (block_type (scalar (ttype t)) (1 # shape))) (\<lambda>ty.
     bind (create_tensor (ExpandDims (handle t) 0) ty) (prepend_axes b n)))"

definition broadcast_to_shape :: "builder \<Rightarrow> tensor \<Rightarrow> int list \<Rightarrow> tensor B" where
  "broadcast_to_shape b t ret_shape =
     bind (lift_r (get_block_shapes (ttype t))) (\<lambda>shape.
     if shape \<noteq> ret_shape then
       bind (lift_r (block_type (scalar (ttype t)) ret_shape)) (\<lambda>ret_ty.
       create_tensor (Broadcast (handle t) ret_shape) ret_ty)
     else return t)"

definition broadcast_impl_value :: "builder \<Rightarrow> tensor \<Rightarrow> tensor \<Rightarrow> (tensor \<times> tensor) B" where
  "broadcast_impl_value b lhs rhs =
     (if is_block (ttype lhs) \<and> \<not> is_block (ttype rhs) then
        bind (lift_r (get_block_shapes (ttype lhs))) (\<lambda>shape.
        bind (lift_r (block_type (scalar (ttype rhs)) shape)) (\<lambda>rhs_ty.
        bind (create_tensor (Splat (handle rhs) shape) rhs_ty) (\<lambda>rhs.
        return (lhs, rhs))))
      else if \<not> is_block (ttype lhs) \<and> is_block (ttype rhs) then
        bind (lift_r (get_block_shapes (ttype rhs))) (\<lambda>shape.
        bind (lift_r (block_type (scalar (ttype lhs)) shape)) (\<lambda>lhs_ty.
        bind (create_tensor (Splat (handle lhs) shape) lhs_ty) (\<lambda>lhs.
        return (lhs, rhs))))
      else if is_block (ttype lhs) \<and> is_block (ttype rhs) then
        bind (lift_r (get_block_shapes (ttype lhs))) (\<lambda>lhs_shape.
        bind (lift_r (get_block_shapes (ttype rhs))) (\<lambda>rhs_shape.
        bind (if length lhs_shape < length rhs_shape
              then prepend_axes b (length rhs_shape - length lhs_shape) lhs else return lhs) (\<lambda>lhs.
        bind (if length rhs_shape < length lhs_shape
              then prepend_axes b (length lhs_shape - length rhs_shape) rhs else return rhs) (\<lambda>rhs.
        bind (lift_r (get_block_shapes (ttype lhs))) (\<lambda>lhs_shape.
        bind (lift_r (get_block_shapes (ttype rhs))) (\<lambda>rhs_shape.
        bind (check (length rhs_shape = length lhs_shape) AssertionError) (\<lambda>_.
        bind (lift_r (broadcast_shape lhs_shape rhs_shape)) (\<lambda>ret_shape.
        bind (broadcast_to_shape b lhs ret_shape) (\<lambda>lhs.
        bind (broadcast_to_shape b rhs ret_shape) (\<lambda>rhs.
        return (lhs, rhs)))))))))))
      else return (lhs, rhs))"

text \<open>Whether a block of shape \<open>src_shape\<close> can be stretched to \<open>shape\<close>: only axes of size 1 change.\<close>

definition broadcast_impl_shape :: "builder \<Rightarrow> tensor \<Rightarrow> int list \<Rightarrow> tensor B" where
  "broadcast_impl_shape b input shape =
     (if \<not> is_block (ttype input) then
        bind (lift_r (block_type (ttype input) shape)) (\<lambda>ret_ty.
        create_tensor (Splat (handle input) shape) ret_ty)
      else
        bind (lift_r (get_block_shapes (ttype input))) (\<lambda>src_shape.
        bind (check (length src_shape = length shape) ValueError) (\<lambda>_.
        if shape = src_shape then return input
        else
          bind (check (list_all2 (\<lambda>item d. d = item \<or> item = 1) src_shape shape) ValueError) (\<lambda>_.
          bind (lift_r (block_type (scalar (ttype input)) shape)) (\<lambda>ret_ty.
          create_tensor (Broadcast (handle input) shape) ret_ty)))))"

section \<open>The operand check of binary operators\<close>

definition number_to_tensor_with :: "cast_fn \<Rightarrow> builder \<Rightarrow> pyval \<Rightarrow> pyval B" where
  "number_to_tensor_with cast_rec b x =
     (if is_number x then to_tensor_with cast_rec b x True else return x)"

text \<open>An operand in the computation type: a number is made again as a constant of that type.\<close>

definition convert_operand_with :: "cast_fn \<Rightarrow> builder \<Rightarrow> pyval \<Rightarrow> tensor \<Rightarrow> ty \<Rightarrow> tensor B" where
  "convert_operand_with cast_rec b x t ret_sca_ty =
     (if is_number x then full_with cast_rec b [] x (Some ret_sca_ty) else cast_rec t ret_sca_ty None)"

definition binary_op_type_checking_impl_with ::
  "cast_fn \<Rightarrow> builder \<Rightarrow> pyval \<Rightarrow> pyval \<Rightarrow> bool \<Rightarrow> bool \<Rightarrow> bool \<Rightarrow> bool \<Rightarrow> (tensor \<times> tensor) B" where
  "binary_op_type_checking_impl_with cast_rec b lhs rhs allow_lhs_ptr allow_rhs_ptr arithmetic_check div_or_mod =
     bind (number_to_tensor_with cast_rec b lhs) (\<lambda>lhs_v.
     bind (number_to_tensor_with cast_rec b rhs) (\<lambda>rhs_v.
     bind (lift_r (as_tensor lhs_v)) (\<lambda>lhs_t.
     bind (lift_r (as_tensor rhs_v)) (\<lambda>rhs_t.
     let lhs_sca_ty = scalar (ttype lhs_t); rhs_sca_ty = scalar (ttype rhs_t) in
     bind (lift_r (check_ptr_type_impl lhs_sca_ty rhs_sca_ty allow_lhs_ptr)) (\<lambda>_.
     bind (lift_r (check_ptr_type_impl rhs_sca_ty lhs_sca_ty allow_rhs_ptr)) (\<lambda>_.
     bind (if arithmetic_check \<and> \<not> is_ptr lhs_sca_ty \<and> \<not> is_ptr rhs_sca_ty then
             bind (lift_r (computation_type_impl lhs_sca_ty (is_number lhs) rhs_sca_ty (is_number rhs) div_or_mod))
               (\<lambda>ret_sca_ty.
             bind (check (\<not> (negative_number lhs \<and> is_int_unsigned ret_sca_ty
                            \<or> negative_number rhs \<and> is_int_unsigned ret_sca_ty)) ValueError) (\<lambda>_.
             bind (convert_operand_with cast_rec b lhs lhs_t ret_sca_ty) (\<lambda>lhs_t.
             bind (convert_operand_with cast_rec b rhs rhs_t ret_sca_ty) (\<lambda>rhs_t.
             return (lhs_t, rhs_t)))))
           else return (lhs_t, rhs_t)) (\<lambda>(lhs_t, rhs_t).
     broadcast_impl_value b lhs_t rhs_t)))))))"

definition bool_like :: "tensor \<Rightarrow> ty result" where
  "bool_like v =
     (if \<not> is_block (ttype v) then Inr (Dt Int1)
      else bind_r (get_block_shapes (ttype v)) (\<lambda>shape. block_type (Dt Int1) shape))"

definition not_equal_with :: "cast_fn \<Rightarrow> builder \<Rightarrow> pyval \<Rightarrow> pyval \<Rightarrow> tensor B" where
  "not_equal_with cast_rec b input other =
     bind (binary_op_type_checking_impl_with cast_rec b input other False False True False) (\<lambda>(input, other).
     let scalar_ty = scalar (ttype input) in
     if is_floating scalar_ty then
       bind (lift_r (bool_like input)) (create_tensor (Cmp C_fcmpUNE (handle input) (handle other)))
     else if is_int scalar_ty then
       bind (lift_r (bool_like input)) (create_tensor (Cmp C_icmpNE (handle input) (handle other)))
     else raise TypeError)"

section \<open>cast and bitcast\<close>

definition str_to_rounding_mode :: "string option \<Rightarrow> rounding_mode option result" where
  "str_to_rounding_mode mode = (case mode of
     None \<Rightarrow> Inr None
   | Some m \<Rightarrow>
       if m = ''rtne'' then Inr (Some RTNE)
       else if m = ''rtz'' then Inr (Some RTZ)
       else Inl ValueError)"

text \<open>
  The rounding mode of a conversion: round to nearest even unless the caller chose another, and only
  for a conversion between float types that loses bits.  The second component is
  \<open>use_custom_rounding\<close>.
\<close>

definition cast_rounding :: "ty \<Rightarrow> ty \<Rightarrow> rounding_mode option \<Rightarrow> (rounding_mode option \<times> bool) result" where
  "cast_rounding src_sca_ty dst_sca_ty mode =
     bind_r (if is_floating dst_sca_ty \<and> is_floating src_sca_ty then
               bind_r (primitive_bitwidth dst_sca_ty) (\<lambda>dst_bits.
               bind_r (primitive_bitwidth src_sca_ty) (\<lambda>src_bits. Inr (dst_bits < src_bits)))
             else Inr False) (\<lambda>truncating.
     if truncating then
       (case mode of
          None \<Rightarrow> Inr (Some RTNE, False)
        | Some m \<Rightarrow> Inr (Some m, m \<noteq> RTNE))
     else if mode \<noteq> None then Inl ValueError
     else Inr (mode, False))"

text \<open>The type a tensor of type \<open>src_ty\<close> has after a conversion to \<open>dst_ty\<close>: its shape is kept.\<close>

definition lift_dst_type :: "ty \<Rightarrow> ty \<Rightarrow> ty result" where
  "lift_dst_type src_ty dst_ty =
     (if is_block src_ty
      then bind_r (get_block_shapes src_ty) (\<lambda>shape. block_type (scalar dst_ty) shape)
      else Inr dst_ty)"

definition cast_op :: "builder \<Rightarrow> castop \<Rightarrow> tensor \<Rightarrow> ty \<Rightarrow> tensor B" where
  "cast_op b k input dst_ty =
     bind (lift_r (to_ir b dst_ty)) (\<lambda>r. create_tensor (CastOp k (handle input) r) dst_ty)"

definition both_floating_bits :: "ty \<Rightarrow> ty \<Rightarrow> (int \<Rightarrow> int \<Rightarrow> bool) \<Rightarrow> bool" where
  "both_floating_bits src dst rel =
     (is_floating src \<and> is_floating dst \<and>
      (case (primitive_bitwidth src, primitive_bitwidth dst) of
         (Inr s, Inr d) \<Rightarrow> rel s d
       | _ \<Rightarrow> False))"

definition cast_step :: "builder \<Rightarrow> cast_fn \<Rightarrow> cast_fn" where
  "cast_step b cast_rec input dst_ty fp_downcast_rounding =
    bind (lift_r (lift_dst_type (ttype input) dst_ty)) (\<lambda>dst_ty.
    if ttype input = dst_ty then return input
    else
      let src_sca_ty = scalar (ttype input); dst_sca_ty = scalar dst_ty in
      bind (lift_r (str_to_rounding_mode fp_downcast_rounding)) (\<lambda>mode.
      bind (lift_r (cast_rounding src_sca_ty dst_sca_ty mode)) (\<lambda>(rounding, use_custom_rounding).
      if is_fp8e4b15 src_sca_ty \<or> is_fp8e4b15 dst_sca_ty then
        (case convert_custom_types b of
           None \<Rightarrow> raise AssertionError
         | Some convert \<Rightarrow> convert input dst_ty rounding)
      else if (is_fp8 src_sca_ty \<and> is_floating dst_sca_ty) \<or> (is_floating src_sca_ty \<and> is_fp8 dst_sca_ty)
              \<or> use_custom_rounding then
        cast_op b (K_fp_to_fp rounding) input dst_ty
      else if (is_fp16 src_sca_ty \<and> \<not> is_fp32 dst_sca_ty) \<or> (is_bf16 src_sca_ty \<and> \<not> is_fp32 dst_sca_ty) then
        bind (cast_rec input (Dt Fp32) None) (\<lambda>y. cast_rec y dst_sca_ty None)
      else if both_floating_bits src_sca_ty dst_sca_ty (\<lambda>s d. s > d) then
        cast_op b K_fp_trunc input dst_ty
      else if both_floating_bits src_sca_ty dst_sca_ty (\<lambda>s d. s < d) then
        cast_op b K_fp_ext input dst_ty
      else if is_int src_sca_ty \<and> is_int dst_sca_ty \<and>
              (int_bitwidth src_sca_ty \<noteq> int_bitwidth dst_sca_ty \<or>
               int_signedness src_sca_ty \<noteq> int_signedness dst_sca_ty) then
        (let sign_extend = is_int_signed src_sca_ty \<and> \<not> is_bool src_sca_ty in
         if is_bool dst_sca_ty then
           bind (null_tensor b (tensor_dtype input)) (\<lambda>zero.
           not_equal_with cast_rec b (VTensor input) (VTensor zero))
         else cast_op b (K_int_cast sign_extend) input dst_ty)
      else if is_standard_floating src_sca_ty \<and> is_int dst_sca_ty then
        (if is_bool dst_sca_ty then
           bind (null_tensor b (tensor_dtype input)) (\<lambda>zero.
           not_equal_with cast_rec b (VTensor input) (VTensor zero))
         else if is_int_signed dst_sca_ty then cast_op b K_fp_to_si input dst_ty
         else cast_op b K_fp_to_ui input dst_ty)
      else if is_int src_sca_ty \<and> is_standard_floating dst_sca_ty then
        (if is_bool src_sca_ty \<or> \<not> is_int_signed src_sca_ty then cast_op b K_ui_to_fp input dst_ty
         else cast_op b K_si_to_fp input dst_ty)
      else if is_ptr src_sca_ty \<and> is_int dst_sca_ty \<and> int_bitwidth dst_sca_ty = Inr 64 then
        cast_op b K_ptr_to_int input dst_ty
      else if is_ptr src_sca_ty \<and> is_int dst_sca_ty \<and> int_bitwidth dst_sca_ty = Inr 1 then
        bind (cast_rec input (Dt Int64) None) (\<lambda>y.
        bind (create_tensor (Constant (IRInt 64) (NInt 0)) (Dt Int64)) (\<lambda>zero.
        not_equal_with cast_rec b (VTensor y) (VTensor zero)))
      else if is_int src_sca_ty \<and> is_ptr dst_sca_ty then cast_op b K_int_to_ptr input dst_ty
      else if is_ptr src_sca_ty \<and> is_ptr dst_sca_ty then cast_op b K_bitcast input dst_ty
      else raise AssertionError)))"

fun cast_depth :: "nat \<Rightarrow> builder \<Rightarrow> cast_fn" where
  "cast_depth 0 b = (\<lambda>input dst_ty fp_downcast_rounding. raise RecursionError)"
| "cast_depth (Suc n) b = cast_step b (cast_depth n b)"

definition cast :: "builder \<Rightarrow> cast_fn" where
  "cast b = cast_depth 3 b"

definition bitcast :: "builder \<Rightarrow> tensor \<Rightarrow> ty \<Rightarrow> tensor B" where
  "bitcast b input dst_ty =
     bind (lift_r (lift_dst_type (ttype input) dst_ty)) (\<lambda>dst_ty.
     if ttype input = dst_ty then return input
     else
       let src_sca_ty = scalar (ttype input); dst_sca_ty = scalar dst_ty in
       if is_ptr src_sca_ty \<or> is_ptr dst_sca_ty then cast b input dst_ty None
       else
         bind (lift_r (primitive_bitwidth src_sca_ty)) (\<lambda>src_bits.
         bind (lift_r (primitive_bitwidth dst_sca_ty)) (\<lambda>dst_bits.
         bind (check (src_bits = dst_bits) ValueError) (\<lambda>_.
         cast_op b K_bitcast input dst_ty))))"

definition full :: "builder \<Rightarrow> int list \<Rightarrow> pyval \<Rightarrow> ty option \<Rightarrow> tensor B" where
  "full b = full_with (cast b) b"

definition to_tensor :: "builder \<Rightarrow> pyval \<Rightarrow> bool \<Rightarrow> pyval B" where
  "to_tensor b = to_tensor_with (cast b) b"

definition binary_op_type_checking_impl ::
  "builder \<Rightarrow> pyval \<Rightarrow> pyval \<Rightarrow> bool \<Rightarrow> bool \<Rightarrow> bool \<Rightarrow> bool \<Rightarrow> (tensor \<times> tensor) B" where
  "binary_op_type_checking_impl b = binary_op_type_checking_impl_with (cast b) b"

definition not_equal :: "builder \<Rightarrow> pyval \<Rightarrow> pyval \<Rightarrow> tensor B" where
  "not_equal b = not_equal_with (cast b) b"

section \<open>cast terminates and satisfies the source's recursive equation\<close>

text \<open>The conversion to the type the tensor already has makes no call.\<close>

lemma cast_step_same:
  assumes "scalar (ttype x) = ty" "\<not> is_block ty"
  shows "cast_step b f x ty r = bind (lift_r (lift_dst_type (ttype x) ty)) (\<lambda>_. return x)"
proof (cases "ttype x")
  case (Block e shape)
  have *: "block_type e shape = Inr t \<Longrightarrow> t = Block e shape" for t
    by (simp add: block_type_eq_Inr_iff)
  show ?thesis using assms Block *
    by (cases "block_type e shape") (simp_all add: cast_step_def lift_dst_type_def)
qed (use assms in \<open>simp_all add: cast_step_def lift_dst_type_def\<close>)

text \<open>Comparing two tensors of the same number type converts each to the type it has.\<close>

lemma not_equal_with_cong:
  assumes "scalar (ttype x) = t" "scalar (ttype y) = t" "is_int t \<or> is_floating t"
    and "\<And>z. scalar (ttype z) = t \<Longrightarrow> f z t None = g z t None"
  shows "not_equal_with f b (VTensor x) (VTensor y) = not_equal_with g b (VTensor x) (VTensor y)"
  using assms
  by (simp add: not_equal_with_def binary_op_type_checking_impl_with_def number_to_tensor_with_def
      convert_operand_with_def Let_def computation_type_self bind_assoc)

lemma null_tensor_type: "null_tensor b t s = Inr (x, s') \<Longrightarrow> ttype x = t"
  by (auto simp: null_tensor_def bind_apply_Inr_iff return_apply)

lemma create_tensor_type: "create_tensor p t s = Inr (x, s') \<Longrightarrow> ttype x = t"
  by (auto simp: create_tensor_def bind_apply_Inr_iff return_apply)

lemma cast_op_type: "cast_op b k x t s = Inr (y, s') \<Longrightarrow> ttype y = t"
  by (auto simp: cast_op_def bind_apply_Inr_iff dest: create_tensor_type)

lemma scalar_lift_dst_type:
  "lift_dst_type src dst = Inr t \<Longrightarrow> \<not> is_block dst \<Longrightarrow> scalar t = dst"
  by (auto simp: lift_dst_type_def bind_r_eq_Inr_iff block_type_eq_Inr_iff split: if_splits)

lemma number_not_block: "is_int t \<or> is_floating t \<Longrightarrow> \<not> is_block t"
  by (cases t) (simp_all add: dtype_tables)

text \<open>The calls that \<open>cast\<close> makes: each is a conversion of one of these kinds.\<close>

definition is_half :: "tensor \<Rightarrow> bool" where
  "is_half x \<longleftrightarrow> is_fp16 (scalar (ttype x)) \<or> is_bf16 (scalar (ttype x))"

definition agree_same :: "cast_fn \<Rightarrow> cast_fn \<Rightarrow> bool" where
  "agree_same f g \<longleftrightarrow> (\<forall>x t. scalar (ttype x) = t \<and> \<not> is_block t \<longrightarrow> f x t None = g x t None)"

definition agree_half :: "cast_fn \<Rightarrow> cast_fn \<Rightarrow> bool" where
  "agree_half f g \<longleftrightarrow> (\<forall>x. is_half x \<longrightarrow> f x (Dt Fp32) None = g x (Dt Fp32) None \<and>
        (\<forall>s y s'. g x (Dt Fp32) None s = Inr (y, s') \<longrightarrow> is_fp32 (scalar (ttype y))))"

definition agree_single :: "cast_fn \<Rightarrow> cast_fn \<Rightarrow> bool" where
  "agree_single f g \<longleftrightarrow> (\<forall>x d. is_fp32 (scalar (ttype x)) \<longrightarrow> f x d None = g x d None)"

definition agree_ptr :: "cast_fn \<Rightarrow> cast_fn \<Rightarrow> bool" where
  "agree_ptr f g \<longleftrightarrow> (\<forall>x. is_ptr (scalar (ttype x)) \<longrightarrow> f x (Dt Int64) None = g x (Dt Int64) None \<and>
        (\<forall>s y s'. g x (Dt Int64) None s = Inr (y, s') \<longrightarrow> scalar (ttype y) = Dt Int64))"

lemma agree_sameD: "agree_same f g \<Longrightarrow> scalar (ttype x) = t \<Longrightarrow> \<not> is_block t \<Longrightarrow> f x t None = g x t None"
  by (auto simp: agree_same_def)

lemma agree_halfD:
  "agree_half f g \<Longrightarrow> is_half x \<Longrightarrow> f x (Dt Fp32) None = g x (Dt Fp32) None"
  "agree_half f g \<Longrightarrow> is_half x \<Longrightarrow> g x (Dt Fp32) None s = Inr (y, s') \<Longrightarrow> is_fp32 (scalar (ttype y))"
  unfolding agree_half_def by blast+

lemma agree_ptrD:
  "agree_ptr f g \<Longrightarrow> is_ptr (scalar (ttype x)) \<Longrightarrow> f x (Dt Int64) None = g x (Dt Int64) None"
  "agree_ptr f g \<Longrightarrow> is_ptr (scalar (ttype x)) \<Longrightarrow> g x (Dt Int64) None s = Inr (y, s') \<Longrightarrow>
     scalar (ttype y) = Dt Int64"
  unfolding agree_ptr_def by blast+

lemma cmp_cong:
  assumes "agree_same f g" "scalar (ttype x) = t" "scalar (ttype y) = t" "is_int t \<or> is_floating t"
  shows "not_equal_with f b (VTensor x) (VTensor y) = not_equal_with g b (VTensor x) (VTensor y)"
  using assms(2-4) by (rule not_equal_with_cong) (rule agree_sameD [OF assms(1)], simp, simp add: assms(4) number_not_block)

lemma zero_cong:
  assumes "agree_same f g" "is_int (scalar (ttype x)) \<or> is_floating (scalar (ttype x))"
  shows "bind (null_tensor b (tensor_dtype x)) (\<lambda>zero. not_equal_with f b (VTensor x) (VTensor zero)) =
         bind (null_tensor b (tensor_dtype x)) (\<lambda>zero. not_equal_with g b (VTensor x) (VTensor zero))"
proof (rule bind_cong_run [OF refl])
  fix s z s'
  assume "null_tensor b (tensor_dtype x) s = Inr (z, s')"
  then have "scalar (ttype z) = scalar (ttype x)"
    by (simp add: null_tensor_type tensor_dtype_def number_not_block [OF assms(2)])
  then show "not_equal_with f b (VTensor x) (VTensor z) s' = not_equal_with g b (VTensor x) (VTensor z) s'"
    by (simp add: cmp_cong [OF assms(1) refl _ assms(2)])
qed

lemma via32_cong:
  assumes "agree_half f g" "agree_single f g" "is_half x"
  shows "bind (f x (Dt Fp32) None) (\<lambda>y. f y d None) = bind (g x (Dt Fp32) None) (\<lambda>y. g y d None)"
proof (rule bind_cong_run)
  show "f x (Dt Fp32) None s = g x (Dt Fp32) None s" for s
    by (simp add: agree_halfD(1) [OF assms(1,3)])
  show "f y d None s' = g y d None s'" if "g x (Dt Fp32) None s = Inr (y, s')" for s y s'
    using agree_halfD(2) [OF assms(1,3) that] assms(2) by (simp add: agree_single_def)
qed

lemma ptr_bool_cong:
  assumes "agree_same f g" "agree_ptr f g" "is_ptr (scalar (ttype x))"
  shows "bind (f x (Dt Int64) None) (\<lambda>y. bind (create_tensor p (Dt Int64))
           (\<lambda>zero. not_equal_with f b (VTensor y) (VTensor zero))) =
         bind (g x (Dt Int64) None) (\<lambda>y. bind (create_tensor p (Dt Int64))
           (\<lambda>zero. not_equal_with g b (VTensor y) (VTensor zero)))"
proof (rule bind_cong_run)
  fix s y s'
  assume "g x (Dt Int64) None s = Inr (y, s')"
  then have y: "scalar (ttype y) = Dt Int64" by (rule agree_ptrD(2) [OF assms(2,3)])
  have "bind (create_tensor p (Dt Int64)) (\<lambda>zero. not_equal_with f b (VTensor y) (VTensor zero)) =
        bind (create_tensor p (Dt Int64)) (\<lambda>zero. not_equal_with g b (VTensor y) (VTensor zero))"
  proof (rule bind_cong_run [OF refl])
    fix s z s'
    assume "create_tensor p (Dt Int64) s = Inr (z, s')"
    then have "scalar (ttype z) = Dt Int64" by (simp add: create_tensor_type)
    then show "not_equal_with f b (VTensor y) (VTensor z) s' = not_equal_with g b (VTensor y) (VTensor z) s'"
      using cmp_cong [OF assms(1) y] by (simp add: dtype_tables)
  qed
  then show "bind (create_tensor p (Dt Int64)) (\<lambda>zero. not_equal_with f b (VTensor y) (VTensor zero)) s' =
        bind (create_tensor p (Dt Int64)) (\<lambda>zero. not_equal_with g b (VTensor y) (VTensor zero)) s'" by simp
qed (simp add: agree_ptrD(1) [OF assms(2,3)])

lemma cast_step_cong:
  assumes "agree_same f g" "agree_half f g" "agree_single f g" "agree_ptr f g"
  shows "cast_step b f x ty r = cast_step b g x ty r"
  unfolding cast_step_def Let_def
  by (intro m_congs refl zero_cong [OF assms(1)] via32_cong [OF assms(2,3)] ptr_bool_cong [OF assms(1,4)])
    (simp_all add: standard_floating_iff is_half_def; blast)+

text \<open>The four kinds of inner calls do not depend on what they call, up to two levels.\<close>

lemma agree_same_step: "agree_same (cast_step b f) (cast_step b g)"
  by (simp add: agree_same_def cast_step_same)

lemma cast_step_half:
  "is_half x \<Longrightarrow> cast_step b f x (Dt Fp32) None =
     bind (lift_r (lift_dst_type (ttype x) (Dt Fp32))) (\<lambda>t. cast_op b K_fp_ext x t)"
  unfolding cast_step_def Let_def
  by (rule lift_r_bind_cong, drule scalar_lift_dst_type)
    (auto simp: is_half_def str_to_rounding_mode_def cast_rounding_def both_floating_bits_def dtype_tables)

lemma cast_step_ptr:
  "is_ptr (scalar (ttype x)) \<Longrightarrow> cast_step b f x (Dt Int64) None =
     bind (lift_r (lift_dst_type (ttype x) (Dt Int64))) (\<lambda>t. cast_op b K_ptr_to_int x t)"
  unfolding cast_step_def Let_def
  by (rule lift_r_bind_cong, drule scalar_lift_dst_type)
    (auto simp: is_ptr_iff str_to_rounding_mode_def cast_rounding_def both_floating_bits_def dtype_tables)

lemma cast_step_type:
  assumes "cast_step b f x t None = bind (lift_r (lift_dst_type (ttype x) t)) (\<lambda>t. cast_op b k x t)"
    and "\<not> is_block t" "cast_step b f x t None s = Inr (y, s')"
  shows "scalar (ttype y) = t"
  using assms(2,3) unfolding assms(1)
  by (cases "lift_dst_type (ttype x) t") (auto dest!: cast_op_type dest: scalar_lift_dst_type simp: bind_apply_Inr_iff raise_def)

lemma agree_half_step: "agree_half (cast_step b f) (cast_step b g)"
  unfolding agree_half_def
  using cast_step_half cast_step_type [OF cast_step_half]
  by (metis is_block.simps(2) is_fp32_def)

lemma agree_ptr_step: "agree_ptr (cast_step b f) (cast_step b g)"
  unfolding agree_ptr_def
  using cast_step_ptr cast_step_type [OF cast_step_ptr]
  by (metis is_block.simps(2))

lemma agree_single_step: "agree_same f g \<Longrightarrow> agree_single (cast_step b f) (cast_step b g)"
  unfolding agree_single_def cast_step_def Let_def
  by (intro allI impI m_congs refl zero_cong)
    (auto simp: is_fp16_def is_bf16_def is_fp32_def is_fp64_def standard_floating_iff dtype_tables)

theorem cast_unfold: "cast b x ty r = cast_step b (cast b) x ty r"
proof -
  have "cast_step b (cast_depth 2 b) x ty r = cast_step b (cast_depth 3 b) x ty r"
    unfolding numeral_2_eq_2 numeral_3_eq_3 cast_depth.simps
    by (intro cast_step_cong agree_same_step agree_half_step agree_single_step agree_ptr_step)
  then show ?thesis by (simp add: cast_def numeral_3_eq_3 numeral_2_eq_2)
qed

end
