(* ===== verification/Semantic_Cast_Sound.thy ===== *)
theory Semantic_Cast_Sound
  imports Semantic_Cast
begin

text \<open>
  Soundness of the conversions of \<open>semantic.py\<close>: run on a well-formed builder state, \<open>cast\<close>,
  the broadcasts and the operand check of binary operators emit only operations the verifier
  accepts, and the tensors they return have the promised types.
\<close>

section \<open>IR types of front-end types\<close>

text \<open>The type with element type \<open>e\<close> and the shape of \<open>src\<close>.\<close>

fun like_ty :: "ty \<Rightarrow> ty \<Rightarrow> ty" where
  "like_ty (Block _ sh) e = Block e sh"
| "like_ty _ e = e"

lemma scalar_like_ty [simp]: "\<not> is_block e \<Longrightarrow> scalar (like_ty t e) = e"
  by (cases t) simp_all

lemma is_block_like_ty [simp]: "\<not> is_block e \<Longrightarrow> is_block (like_ty t e) = is_block t"
  by (cases t) simp_all

lemma like_ty_like_ty [simp]: "\<not> is_block e \<Longrightarrow> like_ty (like_ty t e) e' = like_ty t e'"
  by (cases t; cases e) simp_all

lemma like_ty_scalar [simp]: "like_ty t (scalar t) = t"
  by (cases t) simp_all

lemma wf_scalar: "wf_ty t \<Longrightarrow> wf_ty (scalar t) \<and> \<not> is_block (scalar t)"
  by (cases t) simp_all

lemma wf_like_ty: "wf_ty t \<Longrightarrow> wf_ty e \<Longrightarrow> \<not> is_block e \<Longrightarrow> wf_ty (like_ty t e)"
  by (cases t) simp_all

lemma ir_of_nonblock: "\<not> is_block e \<Longrightarrow> \<not> ir_is_tensor (ir_of e)"
proof (cases e)
  case (Dt d)
  then show ?thesis by (cases d) simp_all
qed simp_all

lemma ir_elem_nontensor [simp]: "\<not> ir_is_tensor t \<Longrightarrow> ir_elem t = t"
  by (cases t) simp_all

lemma dtype_ir_nontensor [simp]: "\<not> ir_is_tensor (dtype_ir d)"
  by (cases d) simp_all

lemma ir_elem_of: "wf_ty t \<Longrightarrow> ir_elem (ir_of t) = ir_of (scalar t)"
  using ir_of_nonblock by (cases t) auto

lemma ir_is_tensor_of [simp]: "ir_is_tensor (ir_of t) = is_block t"
proof (cases t)
  case (Dt d)
  then show ?thesis by (cases d) simp_all
qed simp_all

lemma ir_like_nontensor [simp]: "\<not> ir_is_tensor t \<Longrightarrow> ir_like t e = e"
  by (cases t) simp_all

lemma ir_of_like_ty: "ir_of (like_ty t e) = ir_like (ir_of t) (ir_of e)"
  by (cases t) simp_all

lemma ir_shape_nontensor [simp]: "\<not> ir_is_tensor t \<Longrightarrow> ir_shape t = []"
  by (cases t) simp_all

lemma same_ir_shape_like_ty: "\<not> is_block e \<Longrightarrow> same_ir_shape (ir_of t) (ir_of (like_ty t e))"
  by (cases t) (simp_all add: same_ir_shape_def)

lemma ir_int_of: "is_int t \<Longrightarrow> ir_int (ir_of t)"
proof (cases t)
  case (Dt d)
  then show "is_int t \<Longrightarrow> ?thesis" by (cases d) (simp_all add: dtype_tables)
qed (simp_all add: dtype_tables)

lemma ir_float_of: "is_floating t \<Longrightarrow> \<not> is_fp8e4b15 t \<Longrightarrow> ir_float (ir_of t)"
proof (cases t)
  case (Dt d)
  then show "is_floating t \<Longrightarrow> \<not> is_fp8e4b15 t \<Longrightarrow> ?thesis" by (cases d) (simp_all add: dtype_tables)
qed (simp_all add: dtype_tables)

lemma ir_ptr_of: "is_ptr t \<Longrightarrow> ir_ptr (ir_of t)"
  by (cases t) simp_all

lemma ir_width_of: "primitive_bitwidth t = Inr w \<Longrightarrow> ir_width (ir_of t) = w"
proof (cases t)
  case (Dt d)
  then show "primitive_bitwidth t = Inr w \<Longrightarrow> ?thesis" by (cases d) simp_all
qed simp_all

lemma ir_int_64: "is_int t \<Longrightarrow> int_bitwidth t = Inr 64 \<Longrightarrow> ir_of t = IRInt 64"
proof (cases t)
  case (Dt d)
  then show "is_int t \<Longrightarrow> int_bitwidth t = Inr 64 \<Longrightarrow> ?thesis" by (cases d) (simp_all add: dtype_tables)
qed (simp_all add: dtype_tables)

lemmas ir_of_rules = ir_int_of ir_float_of ir_ptr_of ir_width_of ir_int_64

lemma lift_dst_type_wf:
  "wf_ty src \<Longrightarrow> \<not> is_block dst \<Longrightarrow> lift_dst_type src dst = Inr (like_ty src dst)"
proof (cases src)
  case (Block e sh)
  then show "wf_ty src \<Longrightarrow> \<not> is_block dst \<Longrightarrow> ?thesis"
    using block_type_eq_Inr_iff [of dst sh "Block dst sh"] by (simp add: lift_dst_type_def)
qed (simp_all add: lift_dst_type_def)

lemma bool_like_wf: "wf_ty (ttype v) \<Longrightarrow> bool_like v = Inr (like_ty (ttype v) (Dt Int1))"
  using lift_dst_type_wf [of "ttype v" "Dt Int1"]
  by (cases "ttype v") (simp_all add: bool_like_def lift_dst_type_def)

lemma tensor_okD:
  "tensor_ok s x \<Longrightarrow> handle x < length (vtys s)"
  "tensor_ok s x \<Longrightarrow> vtys s ! handle x = ir_of (ttype x)"
  "tensor_ok s x \<Longrightarrow> wf_ty (ttype x)"
  by (simp_all add: tensor_ok_def)

text \<open>A tensor of a given type in the current builder state.\<close>

definition has_type :: "ty \<Rightarrow> tensor \<Rightarrow> bstate \<Rightarrow> bool" where
  "has_type t x s \<longleftrightarrow> tensor_ok s x \<and> ttype x = t"

lemma has_type_grows: "has_type t x s \<Longrightarrow> grows s s' \<Longrightarrow> has_type t x s'"
  by (auto simp: has_type_def tensor_ok_grows)

lemma has_type_self: "tensor_ok s x \<Longrightarrow> has_type (ttype x) x s"
  by (simp add: has_type_def)

lemma create_has_type:
  "op_ok (vtys s) p \<Longrightarrow> result_types (vtys s) p = [ir_of t] \<Longrightarrow> wf_ty t \<Longrightarrow>
     sound (create_tensor p t) (has_type t) s"
  by (rule create_tensor_sound) (simp_all add: has_type_def)

section \<open>cast\<close>

lemma cast_op_sound:
  assumes "tensor_ok s x" "cast_ok k (ir_of (ttype x)) (ir_of t)" "same_ir_shape (ir_of (ttype x)) (ir_of t)" "wf_ty t"
  shows "sound (cast_op b k x t) (has_type t) s"
  unfolding cast_op_def using assms
  by (intro sound_rules create_has_type)
    (auto simp: op_ok_def tensor_ok_def dest: to_ir_ir_of)

text \<open>
  When a conversion is supported by the operations it is translated to.  The fp8 formats convert
  only inside blocks, \<open>fp8e4b15\<close> by target code only, and pointers to and from 64-bit integers.
\<close>

definition castable :: "ty \<Rightarrow> ty \<Rightarrow> bool" where
  "castable src dst \<longleftrightarrow>
     wf_ty dst \<and> \<not> is_block dst \<and>
     (scalar src = dst \<or>
      (let s = scalar src in
       \<not> is_fp8e4b15 s \<and> \<not> is_fp8e4b15 dst \<and>
       (is_ptr s \<longrightarrow> \<not> is_floating dst) \<and>
       (is_ptr dst \<longrightarrow> \<not> is_floating s \<and> (is_int s \<longrightarrow> int_bitwidth s = Inr 64)) \<and>
       (is_fp8 s \<and> is_floating dst \<or> is_floating s \<and> is_fp8 dst \<longrightarrow> is_block src)))"

definition cast_sound_fn :: "cast_fn \<Rightarrow> bool" where
  "cast_sound_fn f \<longleftrightarrow>
     (\<forall>x t s. tensor_ok s x \<longrightarrow> castable (ttype x) t \<longrightarrow> sound (f x t None) (has_type (like_ty (ttype x) t)) s)"

lemma cast_sound_fnD:
  "cast_sound_fn f \<Longrightarrow> tensor_ok s x \<Longrightarrow> castable (ttype x) t \<Longrightarrow>
     sound (f x t None) (has_type (like_ty (ttype x) t)) s"
  by (simp add: cast_sound_fn_def)

lemma castable_same: "wf_ty src \<Longrightarrow> castable src (scalar src)"
  by (cases src) (simp_all add: castable_def)

section \<open>Numbers\<close>

lemma null_tensor_sound: "sound (null_tensor b t) (has_type t) s"
proof -
  have "sound (get_null_value r) (\<lambda>h s'. has_type t \<lparr>handle = h, ttype = t\<rparr> s') s" if "to_ir b t = Inr r" for r
  proof -
    have r: "r = ir_of t" using to_ir_ir_of [OF that] .
    show ?thesis
    proof (cases "ir_float r \<or> ir_int r")
      case True
      have "wf_ty t" using True unfolding r by (cases t) auto
      then show ?thesis using True unfolding get_null_value_def
        by (auto simp: op_ok_def has_type_def tensor_ok_def r intro!: create_sound)
    qed (auto simp: get_null_value_def intro: sound_raise)
  qed
  then show ?thesis unfolding null_tensor_def
    by (auto intro!: sound_lift_r_bind sound_return intro: sound_bind)
qed

lemma get_value_fn_sound: "sound (get_value_fn t n) (\<lambda>h s'. has_type t \<lparr>handle = h, ttype = t\<rparr> s') s"
proof (cases t)
  case (Dt d)
  have *: "sound (create (Constant (dtype_ir d) v)) (\<lambda>h s'. has_type t \<lparr>handle = h, ttype = t\<rparr> s') s"
    if "ir_int (dtype_ir d) \<or> ir_float (dtype_ir d)" "d \<noteq> Void" for v
    using that Dt by (auto intro!: create_sound simp: op_ok_def has_type_def tensor_ok_def)
  show ?thesis
    unfolding Dt get_value_fn_def ty.case
    by (intro sound_if sound_raise; (cases "number_as_int n")?; (simp only: option.case)?;
        (intro sound_raise sound_check_bind)?)
      (use * Dt in \<open>auto simp: type_list_defs\<close>)
qed (simp_all add: get_value_fn_def sound_raise)

lemma full_number_sound:
  "sound (full_with f b [] (VNum n) (Some t)) (has_type t) s"
proof -
  have "sound (if number_is_zero n then null_tensor b t
               else bind (get_value_fn t n) (\<lambda>h. return \<lparr>handle = h, ttype = t\<rparr>)) (has_type t) s"
    by (intro sound_if null_tensor_sound sound_bind [OF get_value_fn_sound] sound_return)
  then show ?thesis unfolding full_with_def pyval.case option.case splat_def
    by (rule sound_bind) (auto intro!: sound_check_bind sound_return)
qed

lemma splat_sound:
  assumes "tensor_ok s x"
  shows "sound (splat b x shape) (has_type (if shape = [] then ttype x else Block (ttype x) shape)) s"
  unfolding splat_def using assms
  by (intro sound_check_bind sound_if sound_return sound_lift_r_bind)
    (auto simp: has_type_def block_type_eq_Inr_iff tensor_dtype_def tensor_ok_def op_ok_def
      intro!: create_tensor_sound)

section \<open>Broadcasting\<close>

lemma get_block_shapes_eq: "get_block_shapes t = Inr sh \<longleftrightarrow> (\<exists>e. t = Block e sh)"
  by (cases t) auto

lemma prepend_axes_sound:
  assumes "tensor_ok s x" "ttype x = Block e sh"
  shows "sound (prepend_axes b n x) (has_type (Block e (replicate n 1 @ sh))) s"
  using assms
proof (induction n arbitrary: x s sh)
  case 0
  then show ?case by (auto intro: sound_return simp: has_type_def)
next
  case (Suc n)
  have "sound (create_tensor (ExpandDims (handle x) 0) t) (has_type (Block e (1 # sh))) s"
    if "block_type e (1 # sh) = Inr t" for t
    using Suc.prems that
    by (auto intro!: create_has_type simp: block_type_eq_Inr_iff op_ok_def tensor_ok_def insert_at_def)
  moreover have "sound (prepend_axes b n y) (has_type (Block e (replicate (Suc n) 1 @ sh))) s'"
    if "has_type (Block e (1 # sh)) y s'" for y s'
  proof -
    have "tensor_ok s' y" "ttype y = Block e (1 # sh)" using that by (simp_all add: has_type_def)
    from Suc.IH [OF this] show ?thesis by (simp add: replicate_app_Cons_same)
  qed
  ultimately show ?case using Suc.prems(2)
    by (auto intro!: sound_bind sound_lift_r_bind)
qed

lemma broadcast_shape_len:
  "broadcast_shape l r = Inr sh \<Longrightarrow> length l = length r \<Longrightarrow>
     list_all2 (\<lambda>d e. d = 1 \<or> d = e) l sh \<and> list_all2 (\<lambda>d e. d = 1 \<or> d = e) r sh"
  by (induction l r arbitrary: sh rule: broadcast_shape.induct)
    (auto simp: bind_r_eq_Inr_iff split: if_splits)

lemma broadcast_to_shape_sound:
  assumes "tensor_ok s x" "ttype x = Block e sh" "list_all2 (\<lambda>d e. d = 1 \<or> d = e) sh ret"
  shows "sound (broadcast_to_shape b x ret) (has_type (Block e ret)) s"
  unfolding broadcast_to_shape_def using assms
  by (intro sound_lift_r_bind sound_if sound_return)
    (auto simp: has_type_def block_type_eq_Inr_iff tensor_ok_def op_ok_def intro!: create_tensor_sound)

text \<open>Two types of the same shape: the shape of a result of broadcasting.\<close>

definition same_shape :: "ty \<Rightarrow> ty \<Rightarrow> bool" where
  "same_shape t u \<longleftrightarrow> like_ty t (scalar u) = u"

lemma same_shape_refl [simp]: "same_shape t t"
  by (simp add: same_shape_def)

lemma same_shape_Block [simp]: "same_shape (Block e sh) u \<longleftrightarrow> (\<exists>e'. u = Block e' sh)"
  by (cases u) (auto simp: same_shape_def)

definition broadcast_post :: "tensor \<Rightarrow> tensor \<Rightarrow> tensor \<times> tensor \<Rightarrow> bstate \<Rightarrow> bool" where
  "broadcast_post x y p s \<longleftrightarrow>
     tensor_ok s (fst p) \<and> tensor_ok s (snd p) \<and> same_shape (ttype (fst p)) (ttype (snd p)) \<and>
     scalar (ttype (fst p)) = scalar (ttype x) \<and> scalar (ttype (snd p)) = scalar (ttype y) \<and>
     (is_block (ttype (fst p)) \<longleftrightarrow> is_block (ttype x) \<or> is_block (ttype y))"

lemma sound_block_cases:
  assumes "ttype x = Block e sh" "sound (f sh) Q s"
  shows "sound (bind (lift_r (get_block_shapes (ttype x))) f) Q s"
  using assms by simp

lemma sound_pair: "sound m (\<lambda>x s'. Q (x, y) s') s \<Longrightarrow> sound (bind m (\<lambda>x. return (x, y))) Q s"
  by (erule sound_bind) (auto intro: sound_return)

lemma prepend_if_sound:
  assumes "tensor_ok s x" "ttype x = Block e sh"
  shows "sound (if c then prepend_axes b n x else return x) (\<lambda>y s'. tensor_ok s' y \<and> (\<exists>sh'. ttype y = Block e sh')) s"
  using assms
  by (intro sound_if sound_conseq [OF prepend_axes_sound] sound_return) (auto simp: has_type_def)

lemma broadcast_blocks_sound:
  assumes x: "tensor_ok s x" "ttype x = Block e sh" and y: "tensor_ok s y" "ttype y = Block e' sh'"
  shows "sound
       (bind (lift_r (get_block_shapes (ttype x))) (\<lambda>lhs_shape.
        bind (lift_r (get_block_shapes (ttype y))) (\<lambda>rhs_shape.
        bind (check (length rhs_shape = length lhs_shape) AssertionError) (\<lambda>_.
        bind (lift_r (broadcast_shape lhs_shape rhs_shape)) (\<lambda>ret_shape.
        bind (broadcast_to_shape b x ret_shape) (\<lambda>lhs.
        bind (broadcast_to_shape b y ret_shape) (\<lambda>rhs.
        return (lhs, rhs))))))))
     (\<lambda>p s'. \<exists>sh. has_type (Block e sh) (fst p) s' \<and> has_type (Block e' sh) (snd p) s') s"
proof (intro sound_block_cases [OF x(2)] sound_block_cases [OF y(2)] sound_check_bind sound_lift_r_bind, goal_cases)
  case (1 ret)
  then have fit: "list_all2 (\<lambda>d e. d = 1 \<or> d = e) sh ret" "list_all2 (\<lambda>d e. d = 1 \<or> d = e) sh' ret"
    using broadcast_shape_len by auto
  show ?case
  proof (rule sound_bind [OF broadcast_to_shape_sound [OF x fit(1)]])
    fix x' s1 assume s1: "grows s s1" and x': "has_type (Block e ret) x' s1"
    show "sound (bind (broadcast_to_shape b y ret) (\<lambda>rhs. return (x', rhs)))
      (\<lambda>p s'. \<exists>sh. has_type (Block e sh) (fst p) s' \<and> has_type (Block e' sh) (snd p) s') s1"
      by (rule sound_bind [OF broadcast_to_shape_sound [OF tensor_ok_grows [OF y(1) s1] y(2) fit(2)]],
          rule sound_return) (use has_type_grows [OF x'] in auto)
  qed
qed

lemma broadcast_impl_value_sound:
  assumes x: "tensor_ok s x" and y: "tensor_ok s y"
  shows "sound (broadcast_impl_value b x y) (broadcast_post x y) s"
proof -
  have splat: "sound (create_tensor (Splat (handle v) sh) t) (has_type t) s"
    if "tensor_ok s v" "\<not> is_block (ttype v)" "block_type (scalar (ttype v)) sh = Inr t" for v sh t
    using that by (auto intro!: create_has_type simp: block_type_eq_Inr_iff op_ok_def tensor_ok_def)
  consider (left) "is_block (ttype x)" "\<not> is_block (ttype y)" | (right) "\<not> is_block (ttype x)" "is_block (ttype y)"
    | (both) "is_block (ttype x)" "is_block (ttype y)" | (none) "\<not> is_block (ttype x)" "\<not> is_block (ttype y)" by blast
  then show ?thesis
  proof cases
    case left
    then show ?thesis unfolding broadcast_impl_value_def using x y
      by (auto simp: get_block_shapes_eq is_block_iff block_type_eq_Inr_iff broadcast_post_def has_type_def
          intro!: sound_lift_r_bind sound_bind [OF splat] sound_return intro: tensor_ok_grows)
  next
    case right
    then show ?thesis unfolding broadcast_impl_value_def using x y
      by (auto simp: get_block_shapes_eq is_block_iff block_type_eq_Inr_iff broadcast_post_def has_type_def
          intro!: sound_lift_r_bind sound_bind [OF splat] sound_return intro: tensor_ok_grows)
  next
    case none
    then show ?thesis using x y
      by (cases "ttype x"; cases "ttype y")
        (simp_all add: broadcast_impl_value_def broadcast_post_def same_shape_def sound_return)
  next
    case both
    then obtain e sh e' sh' where t: "ttype x = Block e sh" "ttype y = Block e' sh'" by (auto simp: is_block_iff)
    have tail: "sound
       (bind (lift_r (get_block_shapes (ttype x'))) (\<lambda>lhs_shape.
        bind (lift_r (get_block_shapes (ttype y'))) (\<lambda>rhs_shape.
        bind (check (length rhs_shape = length lhs_shape) AssertionError) (\<lambda>_.
        bind (lift_r (broadcast_shape lhs_shape rhs_shape)) (\<lambda>ret_shape.
        bind (broadcast_to_shape b x' ret_shape) (\<lambda>lhs.
        bind (broadcast_to_shape b y' ret_shape) (\<lambda>rhs.
        return (lhs, rhs)))))))) (broadcast_post x y) s2"
      if "tensor_ok s2 x'" "ttype x' = Block e shx" "tensor_ok s2 y'" "ttype y' = Block e' shy" for x' y' s2 shx shy
      by (rule sound_conseq [OF broadcast_blocks_sound [OF that]])
        (use t in \<open>auto simp: broadcast_post_def has_type_def\<close>)
    show ?thesis
      unfolding broadcast_impl_value_def
      apply (simp only: both if_True if_False not_True_eq_False simp_thms)
      apply (intro sound_block_cases [OF t(1)] sound_block_cases [OF t(2)] sound_bind [OF prepend_if_sound [OF x t(1)]])
      apply (rule sound_bind [OF prepend_if_sound [OF tensor_ok_grows [OF y] t(2)]], assumption)
      using tail tensor_ok_grows by blast
  qed
qed

section \<open>The operand check\<close>

text \<open>A scalar value of a number type that is not an fp8 type.\<close>

definition plain_tensor :: "bstate \<Rightarrow> tensor \<Rightarrow> bool" where
  "plain_tensor s t \<longleftrightarrow> tensor_ok s t \<and> \<not> is_block (ttype t) \<and> \<not> is_ptr (ttype t) \<and> \<not> is_fp8 (ttype t)"

lemma to_tensor_number_sound:
  "sound (to_tensor_with f b (VNum n) c) (\<lambda>v s'. \<exists>t. v = VTensor t \<and> plain_tensor s' t) s"
proof (cases n)
  case (NBool v)
  have "sound (create_tensor (Constant (IRInt 1) (NBool v)) (Dt Int1)) (has_type (Dt Int1)) s"
    by (rule create_has_type) (simp_all add: op_ok_def)
  then show ?thesis using NBool
    by (auto intro!: sound_return elim!: sound_bind simp: has_type_def plain_tensor_def)
next
  case (NInt x)
  have "sound (full_with f b [] (VNum (NInt x)) (Some t)) (\<lambda>y s'. plain_tensor s' y) s"
    if "int_constant_type x = Inr t" for t
  proof -
    have "\<not> is_block t \<and> \<not> is_ptr t \<and> \<not> is_fp8 t"
      using that by (auto simp: int_constant_type_def split: if_splits)
    then show ?thesis
      by (intro sound_conseq [OF full_number_sound]) (auto simp: has_type_def plain_tensor_def)
  qed
  then show ?thesis using NInt
    by (auto intro!: sound_return sound_lift_r_bind elim!: sound_bind)
next
  case (NFloat x)
  have "sound (full_with f b [] (VNum (NFloat x)) (Some (float_constant_type x)))
          (\<lambda>y s'. plain_tensor s' y) s"
    by (rule sound_conseq [OF full_number_sound]) (cases x; auto simp: has_type_def plain_tensor_def)
  then show ?thesis using NFloat by (auto intro!: sound_return elim!: sound_bind)
qed

text \<open>
  The operands the arithmetic operators are used with: a number, or a tensor whose fp8 values, if
  any, are in a block and not in the \<open>fp8e4b15\<close> format (its IR type is an 8-bit integer).
\<close>

definition tensor_operand :: "bstate \<Rightarrow> tensor \<Rightarrow> bool" where
  "tensor_operand s t \<longleftrightarrow> tensor_ok s t \<and> \<not> is_fp8e4b15 (scalar (ttype t)) \<and>
     (is_fp8 (scalar (ttype t)) \<longrightarrow> is_block (ttype t))"

definition operand_ok :: "bstate \<Rightarrow> pyval \<Rightarrow> bool" where
  "operand_ok s v \<longleftrightarrow> (case v of VTensor t \<Rightarrow> tensor_operand s t | _ \<Rightarrow> True)"

lemma tensor_operand_grows: "tensor_operand s t \<Longrightarrow> grows s s' \<Longrightarrow> tensor_operand s' t"
  by (auto simp: tensor_operand_def tensor_ok_grows)

lemma operand_ok_grows: "operand_ok s v \<Longrightarrow> grows s s' \<Longrightarrow> operand_ok s' v"
  by (cases v) (auto simp: operand_ok_def tensor_operand_grows)

text \<open>What the operand check returns for arithmetic operands: two values of one type.\<close>

definition arith_post :: "tensor \<times> tensor \<Rightarrow> bstate \<Rightarrow> bool" where
  "arith_post p s \<longleftrightarrow> tensor_ok s (fst p) \<and> tensor_ok s (snd p) \<and> ttype (fst p) = ttype (snd p) \<and>
     \<not> is_fp8e4b15 (scalar (ttype (fst p))) \<and>
     (is_int (scalar (ttype (fst p))) \<or> is_floating (scalar (ttype (fst p))))"

lemma number_to_tensor_sound:
  "operand_ok s v \<Longrightarrow> sound (number_to_tensor_with f b v)
     (\<lambda>w s'. (if is_number v then \<exists>t. w = VTensor t \<and> plain_tensor s' t
              else w = v \<and> operand_ok s' v)) s"
  unfolding number_to_tensor_with_def
  by (cases v) (auto intro!: sound_return sound_conseq [OF to_tensor_number_sound])

text \<open>The computation type is fp8 only when a tensor operand already has it.\<close>

lemma computation_type_fp8:
  assumes "computation_type_impl a sa c sc dm = Inr t" "is_fp8 t" "wf_ty a" "wf_ty c"
    "\<not> is_ptr a" "\<not> is_ptr c" "\<not> is_block a" "\<not> is_block c"
  shows "(sa \<or> a = t) \<and> (sc \<or> c = t) \<and> (a = t \<or> c = t)"
proof -
  have rest: "returns (\<lambda>t. is_fp8 t \<longrightarrow> a = t \<and> c = t)
      (if is_fp64 a \<or> is_fp64 c then Inr (Dt Fp64)
       else if is_fp32 a \<or> is_fp32 c then Inr (Dt Fp32)
       else if is_fp16 a \<or> is_fp16 c then
         (if dm then Inr (Dt Fp32) else Inr (Dt Fp16))
       else if is_bf16 a \<and> is_bf16 c then
         (if dm then Inr (Dt Fp32) else Inr (Dt Bf16))
       else if is_bf16 a \<or> is_bf16 c then Inr (Dt Fp32)
       else if is_fp8 a \<and> is_fp8 c then Inr (if a = c then a else Dt Fp16)
       else if \<not> is_int a \<or> \<not> is_int c then Inl TypeError
       else
         bind_r (int_signedness a) (\<lambda>a_sn.
         bind_r (int_signedness c) (\<lambda>b_sn.
         if dm \<and> a_sn \<noteq> b_sn then Inl TypeError
         else integer_promote_impl a c)))"
    using assms(5-8)
    by (intro returns_rules)
      (auto simp: integer_promote_impl_eq int_max_def intro!: returnsI dest!: int_not_floating is_fp8_floating)
  show ?thesis
  proof (cases "scalar_operand_type a sa c sc dm")
    case (Inr early)
    show ?thesis
    proof (cases early)
      case None
      have "a = t \<and> c = t"
        using returnsD [OF rest] assms(1,2) Inr None by (simp add: computation_type_impl_def)
      then show ?thesis by simp
    next
      case (Some t')
      then have "scalar_operand_type a sa c sc dm = Inr (Some t)"
        using assms(1) Inr by (simp add: computation_type_impl_def)
      then show ?thesis
        using assms(2) by (auto simp: scalar_operand_type_def bind_r_eq_Inr_iff split: if_splits)
    qed
  qed (use assms(1) in \<open>simp add: computation_type_impl_def\<close>)
qed

lemma castable_computation_type:
  assumes "computation_type_impl (scalar a) sa (scalar c) sc dm = Inr t" "wf_ty a" "wf_ty c"
    and "\<not> is_ptr (scalar a)" "\<not> is_ptr (scalar c)"
    and "\<not> is_fp8e4b15 (scalar a)" "\<not> is_fp8e4b15 (scalar c)"
    and "is_fp8 (scalar a) \<longrightarrow> is_block a" "is_fp8 (scalar c) \<longrightarrow> is_block c"
  shows "sa \<or> castable a t" "sc \<or> castable c t" "\<not> is_fp8e4b15 t"
proof -
  have nb: "\<not> is_block (scalar a)" "\<not> is_block (scalar c)" using assms(2,3) wf_scalar by auto
  note t = computation_type_dt [OF assms(1,4,5) nb]
  have wf: "wf_ty (scalar a)" "wf_ty (scalar c)" using assms(2,3) wf_scalar by auto
  note f8 = computation_type_fp8 [OF assms(1) _ wf assms(4,5) nb]
  show e4: "\<not> is_fp8e4b15 t"
    using f8 assms(6,7) by (auto simp: is_fp8e4b15_def)
  show "sa \<or> castable a t" "sc \<or> castable c t"
    using t f8 e4 assms(4-9) by (auto simp: castable_def Let_def)
qed

lemma convert_operand_sound:
  assumes f: "cast_sound_fn f" and x: "tensor_ok s x" and c: "is_number v \<or> castable (ttype x) t"
  shows "sound (convert_operand_with f b v x t) (has_type (if is_number v then t else like_ty (ttype x) t)) s"
proof (cases "is_number v")
  case True
  then obtain n where "v = VNum n" by (cases v) auto
  then show ?thesis using full_number_sound by (simp add: convert_operand_with_def)
next
  case False
  then show ?thesis using cast_sound_fnD [OF f x] c by (simp add: convert_operand_with_def)
qed

text \<open>What is known of the pointers among the operands when the check has passed.\<close>

definition ptr_post :: "bool \<Rightarrow> bool \<Rightarrow> tensor \<times> tensor \<Rightarrow> bstate \<Rightarrow> bool" where
  "ptr_post allow_l allow_r p s \<longleftrightarrow>
     (let l = scalar (ttype (fst p)); r = scalar (ttype (snd p)) in
      tensor_ok s (fst p) \<and> tensor_ok s (snd p) \<and> same_shape (ttype (fst p)) (ttype (snd p)) \<and>
      (is_ptr l \<or> is_ptr r) \<and>
      (is_ptr l \<longrightarrow> allow_l \<and> \<not> is_floating r) \<and> (is_ptr r \<longrightarrow> allow_r \<and> \<not> is_floating l))"

definition binary_post :: "bool \<Rightarrow> bool \<Rightarrow> tensor \<times> tensor \<Rightarrow> bstate \<Rightarrow> bool" where
  "binary_post allow_l allow_r p s \<longleftrightarrow> arith_post p s \<or> ptr_post allow_l allow_r p s"

lemma binary_post_no_ptr: "binary_post False False p s \<longleftrightarrow> arith_post p s"
  by (auto simp: binary_post_def ptr_post_def Let_def)

lemma same_shape_eq: "same_shape t u \<Longrightarrow> scalar t = scalar u \<Longrightarrow> t = u"
  by (metis like_ty_scalar same_shape_def)

lemma check_ptr_type_impl_Inr:
  "check_ptr_type_impl a b c = Inr u \<longleftrightarrow> (is_ptr a \<longrightarrow> c \<and> (is_ptr b \<longrightarrow> a = b) \<and> \<not> is_floating b)"
  by (auto simp: check_ptr_type_impl_def)

lemma broadcast_arith_sound:
  assumes "tensor_ok s x" "tensor_ok s y" "scalar (ttype x) = t" "scalar (ttype y) = t"
    "is_int t \<or> is_floating t" "\<not> is_fp8e4b15 t"
  shows "sound (broadcast_impl_value b x y) (\<lambda>p s'. arith_post p s') s"
  by (rule sound_conseq [OF broadcast_impl_value_sound])
    (use assms same_shape_eq in \<open>auto simp: broadcast_post_def arith_post_def\<close>)

text \<open>What the check does with two tensors: without the arithmetic check, or with a pointer among them,
  it only brings them to one shape.\<close>

definition operand_post :: "tensor \<Rightarrow> tensor \<Rightarrow> bool \<Rightarrow> bool \<Rightarrow> bool \<Rightarrow> tensor \<times> tensor \<Rightarrow> bstate \<Rightarrow> bool" where
  "operand_post x y ac allow_l allow_r p s \<longleftrightarrow>
     (let l = scalar (ttype x); r = scalar (ttype y) in
      if ac \<and> \<not> is_ptr l \<and> \<not> is_ptr r then arith_post p s
      else tensor_ok s (fst p) \<and> tensor_ok s (snd p) \<and> same_shape (ttype (fst p)) (ttype (snd p)) \<and>
        scalar (ttype (fst p)) = l \<and> scalar (ttype (snd p)) = r \<and>
        (is_ptr l \<longrightarrow> allow_l \<and> \<not> is_floating r) \<and> (is_ptr r \<longrightarrow> allow_r \<and> \<not> is_floating l))"

lemma operand_post_binary: "operand_post x y True allow_l allow_r p s \<Longrightarrow> binary_post allow_l allow_r p s"
  by (auto simp: operand_post_def binary_post_def ptr_post_def Let_def split: if_splits)

lemma tensors_checked_sound:
  assumes f: "cast_sound_fn f"
    and x: "tensor_operand s x" and y: "tensor_operand s y"
  shows "sound
    (bind (lift_r (check_ptr_type_impl (scalar (ttype x)) (scalar (ttype y)) allow_l)) (\<lambda>_.
     bind (lift_r (check_ptr_type_impl (scalar (ttype y)) (scalar (ttype x)) allow_r)) (\<lambda>_.
     bind (if ac \<and> \<not> is_ptr (scalar (ttype x)) \<and> \<not> is_ptr (scalar (ttype y)) then
             bind (lift_r (computation_type_impl (scalar (ttype x)) (is_number lhs) (scalar (ttype y)) (is_number rhs) dm))
               (\<lambda>ret_sca_ty.
             bind (check (\<not> (negative_number lhs \<and> is_int_unsigned ret_sca_ty
                            \<or> negative_number rhs \<and> is_int_unsigned ret_sca_ty)) ValueError) (\<lambda>_.
             bind (convert_operand_with f b lhs x ret_sca_ty) (\<lambda>lhs_t.
             bind (convert_operand_with f b rhs y ret_sca_ty) (\<lambda>rhs_t.
             return (lhs_t, rhs_t)))))
           else return (x, y)) (\<lambda>(lhs_t, rhs_t).
     broadcast_impl_value b lhs_t rhs_t)))) (operand_post x y ac allow_l allow_r) s"
proof (intro sound_lift_r_bind, goal_cases)
  case (1 u v)
  have ok: "tensor_ok s x" "tensor_ok s y" "wf_ty (ttype x)" "wf_ty (ttype y)"
    using x y by (simp_all add: tensor_operand_def tensor_ok_def)
  show ?case
  proof (cases "ac \<and> \<not> is_ptr (scalar (ttype x)) \<and> \<not> is_ptr (scalar (ttype y))")
    case False
    have "sound (broadcast_impl_value b x y) (operand_post x y ac allow_l allow_r) s"
    proof (rule sound_conseq [OF broadcast_impl_value_sound [OF ok(1,2)]])
      fix p s'
      assume p: "broadcast_post x y p s'"
      then show "operand_post x y ac allow_l allow_r p s'"
        using False 1 by (auto simp: operand_post_def broadcast_post_def check_ptr_type_impl_Inr Let_def)
    qed
    then show ?thesis by (simp only: False simp_thms if_False bind_return prod.case)
  next
    case True
    have main: "sound (bind (convert_operand_with f b lhs x t) (\<lambda>lhs_t.
             bind (convert_operand_with f b rhs y t) (\<lambda>rhs_t. broadcast_impl_value b lhs_t rhs_t)))
             (operand_post x y True allow_l allow_r) s"
      if t: "computation_type_impl (scalar (ttype x)) (is_number lhs) (scalar (ttype y)) (is_number rhs) dm = Inr t" for t
    proof -
      have "is_int t \<or> is_floating t" "\<not> is_block t"
        using computation_type_number [OF t] computation_type_dt(2) [OF t] True ok(3,4) wf_scalar by auto
      moreover note c = castable_computation_type [OF t ok(3,4) True [THEN conjunct2, THEN conjunct1] True [THEN conjunct2, THEN conjunct2]]
      have c: "is_number lhs \<or> castable (ttype x) t" "is_number rhs \<or> castable (ttype y) t" "\<not> is_fp8e4b15 t"
        using c x y by (auto simp: tensor_operand_def)
      ultimately show ?thesis
        apply (intro sound_bind [OF convert_operand_sound [OF f ok(1) c(1)]])
        apply (rule sound_bind [OF convert_operand_sound [OF f tensor_ok_grows [OF ok(2)] c(2)]], assumption)
        apply (rule sound_conseq [OF broadcast_arith_sound [where t = t]])
        by (auto simp: has_type_def operand_post_def True c(3) intro: tensor_ok_grows split: if_splits)
    qed
    show ?thesis
      apply (simp only: True simp_thms if_True bind_assoc bind_return prod.case)
      apply (intro sound_lift_r_bind sound_check_bind)
      by (rule main)
  qed
qed

lemma as_tensor_bind: "bind (lift_r (as_tensor (VTensor t))) f = f t"
  by simp

text \<open>The tensor an operand stands for.\<close>

definition stands_for :: "pyval \<Rightarrow> tensor \<Rightarrow> bool" where
  "stands_for v t \<longleftrightarrow> (case v of VTensor u \<Rightarrow> t = u | VNum n \<Rightarrow> \<not> is_ptr (scalar (ttype t)) | _ \<Rightarrow> False)"

lemma stands_for_pointer: "stands_for v t \<Longrightarrow>
    is_ptr (scalar (ttype t)) = (case v of VTensor u \<Rightarrow> is_ptr (scalar (ttype u)) | _ \<Rightarrow> False)"
  by (cases v) (auto simp: stands_for_def)

lemma binary_with_operands_sound:
  assumes f: "cast_sound_fn f" and l: "operand_ok s lhs" and r: "operand_ok s rhs"
  shows "sound (binary_op_type_checking_impl_with f b lhs rhs allow_l allow_r ac dm)
     (\<lambda>p s'. \<exists>x y. stands_for lhs x \<and> stands_for rhs y \<and> operand_post x y ac allow_l allow_r p s') s"
proof -
  let ?ok = "\<lambda>v w s'. (if is_number v then \<exists>t. w = VTensor t \<and> plain_tensor s' t else w = v \<and> operand_ok s' v)"
  have operand: "tensor_operand s' t" if "?ok v w s'" "as_tensor w = Inr t" for v w s' t
    using that by (cases w; cases v)
      (auto simp: operand_ok_def plain_tensor_def tensor_operand_def is_fp8e4b15_def)
  have grow: "?ok v w s2" if "?ok v w s1" "grows s1 s2" for v w s1 s2
    using that by (auto simp: plain_tensor_def intro: tensor_ok_grows operand_ok_grows split: if_splits)
  have stands: "stands_for v t" if "?ok v w s'" "as_tensor w = Inr t" for v w s' t
    using that by (cases w; cases v) (auto simp: stands_for_def plain_tensor_def is_ptr_iff)
  show ?thesis
    unfolding binary_op_type_checking_impl_with_def Let_def
    apply (rule sound_bind [OF number_to_tensor_sound [OF l]])
    apply (rule sound_bind [OF number_to_tensor_sound [OF operand_ok_grows [OF r]]], assumption)
    apply (intro sound_lift_r_bind [of "as_tensor v" for v])
    apply (rule sound_conseq [OF tensors_checked_sound [OF f]])
    subgoal for v1 s1 v2 s2 x y by (rule operand [OF grow])
    subgoal for v1 s1 v2 s2 x y by (rule operand)
    subgoal for v1 s1 v2 s2 x y by (blast intro: stands)
    done
qed

lemma binary_with_sound:
  assumes "cast_sound_fn f" "operand_ok s lhs" "operand_ok s rhs"
  shows "sound (binary_op_type_checking_impl_with f b lhs rhs allow_l allow_r True dm) (binary_post allow_l allow_r) s"
  by (rule sound_conseq [OF binary_with_operands_sound [OF assms]]) (blast dest: operand_post_binary)

lemma cmp_sound:
  assumes "arith_post (x, y) s"
    and "if cmpop_float c then is_floating (scalar (ttype x)) else is_int (scalar (ttype x))"
  shows "sound (bind (lift_r (bool_like x)) (create_tensor (Cmp c (handle x) (handle y))))
           (has_type (like_ty (ttype x) (Dt Int1))) s"
proof -
  have ok: "tensor_ok s x" "tensor_ok s y" "ttype y = ttype x" "wf_ty (ttype x)"
    using assms(1) by (simp_all add: arith_post_def tensor_ok_def)
  have "op_ok (vtys s) (Cmp c (handle x) (handle y))"
    using assms ok tensor_okD [OF ok(1)] tensor_okD [OF ok(2)]
    by (auto simp: op_ok_def arith_post_def ir_elem_of ir_int_of ir_float_of
        simp del: ir_float.simps cmpop_float.simps split: if_splits)
  moreover have "result_types (vtys s) (Cmp c (handle x) (handle y)) = [ir_of (like_ty (ttype x) (Dt Int1))]"
    using tensor_okD [OF ok(1)] by (simp add: ir_of_like_ty)
  ultimately show ?thesis
    using ok(4) by (auto simp: bool_like_wf intro!: create_has_type wf_like_ty)
qed

text \<open>Comparing a tensor with a scalar of its element type: the shape is the tensor's.\<close>

lemma broadcast_scalar_sound:
  assumes x: "tensor_ok s x" and y: "tensor_ok s y" and t: "ttype y = scalar (ttype x)"
  shows "sound (broadcast_impl_value b x y) (\<lambda>p s'. has_type (ttype x) (fst p) s' \<and> has_type (ttype x) (snd p) s') s"
proof (cases "ttype x")
  case (Block e sh)
  have e: "ttype y = e" "\<not> is_block e" "wf_ty e"
    using Block t tensor_okD(3) [OF x] by auto
  have "sound (create_tensor (Splat (handle y) sh) u) (has_type (Block e sh)) s" if "block_type e sh = Inr u" for u
    using y e that by (auto intro!: create_has_type simp: block_type_eq_Inr_iff op_ok_def tensor_ok_def)
  then have "sound (bind (create_tensor (Splat (handle y) sh) u) (\<lambda>r. return (x, r)))
      (\<lambda>p s'. has_type (Block e sh) (fst p) s' \<and> has_type (Block e sh) (snd p) s') s" if "block_type e sh = Inr u" for u
    by (rule sound_bind [OF _ sound_return]) (use that x Block tensor_ok_grows in \<open>auto simp: has_type_def\<close>)
  then show ?thesis using Block e by (auto simp: broadcast_impl_value_def intro!: sound_lift_r_bind)
qed (use x y t in \<open>auto simp: broadcast_impl_value_def has_type_def intro!: sound_return\<close>)

lemma not_equal_with_sound:
  assumes f: "cast_sound_fn f" and x: "tensor_ok s x" and y: "tensor_ok s y"
    and t: "ttype y = scalar (ttype x)" "is_int (ttype y) \<or> is_floating (ttype y)" "\<not> is_fp8e4b15 (ttype y)"
  shows "sound (not_equal_with f b (VTensor x) (VTensor y)) (has_type (like_ty (ttype x) (Dt Int1))) s"
proof -
  let ?t = "ttype y"
  have wf: "wf_ty (ttype x)" "wf_ty ?t" "\<not> is_block ?t" "scalar ?t = ?t"
    using x y t wf_scalar [of "ttype x"] by (auto simp: tensor_ok_def)
  have nptr: "\<not> is_ptr ?t" using t(2) by (cases ?t) (simp_all add: dtype_tables)
  have cx: "sound (f x ?t None) (has_type (ttype x)) s"
    using cast_sound_fnD [OF f x castable_same [OF wf(1)]] t(1) by simp
  have cy: "sound (f y ?t None) (has_type ?t) s'" if "grows s s'" for s'
    using cast_sound_fnD [OF f tensor_ok_grows [OF y that] castable_same [OF wf(2)]] wf(3,4) by (cases ?t) auto
  have eq: "not_equal_with f b (VTensor x) (VTensor y) =
    bind (f x ?t None) (\<lambda>x. bind (f y ?t None) (\<lambda>y. bind (broadcast_impl_value b x y) (\<lambda>(input, other).
     let scalar_ty = scalar (ttype input) in
     if is_floating scalar_ty then
       bind (lift_r (bool_like input)) (create_tensor (Cmp C_fcmpUNE (handle input) (handle other)))
     else if is_int scalar_ty then
       bind (lift_r (bool_like input)) (create_tensor (Cmp C_icmpNE (handle input) (handle other)))
     else raise TypeError)))"
    using t nptr wf(4) by (simp add: not_equal_with_def binary_op_type_checking_impl_with_def number_to_tensor_with_def
      convert_operand_with_def Let_def computation_type_self bind_assoc check_ptr_type_impl_def)
  show ?thesis unfolding eq
  proof (rule sound_bind [OF cx], rule sound_bind [OF cy], assumption)
    fix x1 s1 y1 s2
    assume g: "grows s1 s2" and x1: "has_type (ttype x) x1 s1" and y1: "has_type ?t y1 s2"
    have "tensor_ok s2 x1" "tensor_ok s2 y1" "ttype y1 = scalar (ttype x1)" "ttype x1 = ttype x"
      using x1 y1 g t(1) tensor_ok_grows by (auto simp: has_type_def)
    note b = broadcast_scalar_sound [OF this(1-3)]
    show "sound (bind (broadcast_impl_value b x1 y1) (\<lambda>(input, other).
     let scalar_ty = scalar (ttype input) in
     if is_floating scalar_ty then
       bind (lift_r (bool_like input)) (create_tensor (Cmp C_fcmpUNE (handle input) (handle other)))
     else if is_int scalar_ty then
       bind (lift_r (bool_like input)) (create_tensor (Cmp C_icmpNE (handle input) (handle other)))
     else raise TypeError)) (has_type (like_ty (ttype x) (Dt Int1))) s2"
    proof (rule sound_bind [OF b], clarsimp simp only: Let_def split: prod.splits, intro sound_if sound_raise)
      fix s3 u v
      assume uv: "has_type (ttype x1) (fst (u, v)) s3" "has_type (ttype x1) (snd (u, v)) s3"
      then have post: "arith_post (u, v) s3"
        using t \<open>ttype x1 = ttype x\<close> by (simp add: arith_post_def has_type_def)
      have u: "ttype u = ttype x" using uv \<open>ttype x1 = ttype x\<close> by (simp add: has_type_def)
      show "is_floating (scalar (ttype u)) \<Longrightarrow> sound (bind (lift_r (bool_like u)) (create_tensor (Cmp C_fcmpUNE (handle u) (handle v))))
          (has_type (like_ty (ttype x) (Dt Int1))) s3"
        using cmp_sound [OF post, of C_fcmpUNE] u by simp
      show "is_int (scalar (ttype u)) \<Longrightarrow> sound (bind (lift_r (bool_like u)) (create_tensor (Cmp C_icmpNE (handle u) (handle v))))
          (has_type (like_ty (ttype x) (Dt Int1))) s3"
        using cmp_sound [OF post, of C_icmpNE] u by simp
    qed
  qed
qed

section \<open>cast is sound\<close>

lemma cast_op_like_sound:
  assumes "tensor_ok s x" "wf_ty t" "\<not> is_block t" "cast_ok k (ir_of (ttype x)) (ir_of (like_ty (ttype x) t))"
  shows "sound (cast_op b k x (like_ty (ttype x) t)) (has_type (like_ty (ttype x) t)) s"
  using assms(1,4) by (rule cast_op_sound)
    (simp_all add: same_ir_shape_like_ty assms(2,3) wf_like_ty tensor_okD(3) [OF assms(1)])

lemma ir_elem_like [simp]:
  "wf_ty t \<Longrightarrow> \<not> is_block e \<Longrightarrow> ir_elem (ir_of (like_ty t e)) = ir_of e"
  by (cases t) (simp_all add: ir_of_nonblock)

lemma zero_cmp_sound:
  assumes f: "cast_sound_fn f" and x: "tensor_ok s x"
    and t: "is_int (scalar (ttype x)) \<or> is_floating (scalar (ttype x))" "\<not> is_fp8e4b15 (scalar (ttype x))"
  shows "sound (bind (null_tensor b (tensor_dtype x)) (\<lambda>zero. not_equal_with f b (VTensor x) (VTensor zero)))
           (has_type (like_ty (ttype x) (Dt Int1))) s"
proof (rule sound_bind [OF null_tensor_sound])
  fix z s'
  assume "grows s s'" "has_type (tensor_dtype x) z s'"
  then show "sound (not_equal_with f b (VTensor x) (VTensor z)) (has_type (like_ty (ttype x) (Dt Int1))) s'"
    using t x by (intro not_equal_with_sound [OF f]) (auto simp: has_type_def tensor_dtype_def intro: tensor_ok_grows)
qed

lemma cast_rounding_Inr:
  assumes "cast_rounding s d mode = Inr (r, custom)"
  shows "is_floating s \<Longrightarrow> is_floating d \<Longrightarrow> primitive_bitwidth s = Inr m \<Longrightarrow> primitive_bitwidth d = Inr n \<Longrightarrow>
           n < m \<Longrightarrow> r \<noteq> None"
    and "custom \<Longrightarrow> is_floating s \<and> is_floating d \<and> mode \<noteq> None \<and> mode \<noteq> Some RTNE"
  using assms by (auto simp: cast_rounding_def bind_r_eq_Inr_iff split: if_splits option.splits)

lemma fp_to_fp_ok:
  assumes "cast_rounding (scalar t) d mode = Inr (r, custom)" "wf_ty t" "\<not> is_block d" "is_block t"
    and "is_floating (scalar t)" "is_floating d" "\<not> is_fp8e4b15 (scalar t)" "\<not> is_fp8e4b15 d"
  shows "cast_ok (K_fp_to_fp r) (ir_of t) (ir_of (like_ty t d))"
proof -
  obtain e e' where e: "scalar t = Dt e" "d = Dt e'" using assms(5,6) is_floating_dt by blast
  then have "ir_width (ir_of d) < ir_width (ir_of (scalar t)) \<Longrightarrow> r \<noteq> None"
    using cast_rounding_Inr(1) [OF assms(1,5,6), of "dtype_bits e" "dtype_bits e'"]
      ir_width_of [of d] ir_width_of [of "scalar t"] by simp
  then show ?thesis using assms(2-8) by (simp add: ir_elem_of ir_float_of del: ir_float.simps)
qed

lemma both_floating_bits_ir:
  "both_floating_bits s d rel \<Longrightarrow> is_floating s \<and> is_floating d \<and> rel (ir_width (ir_of s)) (ir_width (ir_of d))"
  by (auto simp: both_floating_bits_def ir_width_of split: sum.splits)

lemma int_to_ir_64: "int_bitwidth t = Inr 64 \<Longrightarrow> ir_of t = IRInt 64"
  using ir_int_64 by (cases t) (auto simp: dtype_tables split: if_splits)

lemma sound_case_prod: "(\<And>x y. p = (x, y) \<Longrightarrow> sound (f x y) Q s) \<Longrightarrow> sound (case p of (x, y) \<Rightarrow> f x y) Q s"
  by (cases p) simp

lemma cast_step_sound:
  assumes f: "cast_sound_fn f" and x: "tensor_ok s x" and c: "castable (ttype x) t"
    and r: "r = None \<or> r = Some ''rtne'' \<or> is_block (ttype x)"
  shows "sound (cast_step b f x t r) (has_type (like_ty (ttype x) t)) s"
proof (cases "scalar (ttype x) = t")
  case True
  have "\<not> is_block t" "wf_ty (ttype x)" using c x by (simp_all add: castable_def tensor_ok_def)
  then show ?thesis using True x has_type_self
    by (auto simp: cast_step_same lift_dst_type_wf intro!: sound_return)
next
  case False
  let ?s = "scalar (ttype x)"
  have wf: "wf_ty (ttype x)" "wf_ty t" "\<not> is_block t" "wf_ty ?s" "\<not> is_block ?s"
    using c x wf_scalar by (auto simp: castable_def tensor_ok_def)
  have cc: "\<not> is_fp8e4b15 ?s" "\<not> is_fp8e4b15 t" "is_ptr ?s \<longrightarrow> \<not> is_floating t"
      "is_ptr t \<longrightarrow> \<not> is_floating ?s \<and> (is_int ?s \<longrightarrow> int_bitwidth ?s = Inr 64)"
      "is_fp8 ?s \<and> is_floating t \<or> is_floating ?s \<and> is_fp8 t \<longrightarrow> is_block (ttype x)"
    using c False unfolding castable_def Let_def by blast+
  have inner: "sound (f y t' None) (has_type (like_ty (ttype y) t')) s'"
    if "tensor_ok s' y" "castable (ttype y) t'" for y t' s'
    using cast_sound_fnD [OF f that] .
  show ?thesis
    unfolding cast_step_def Let_def lift_dst_type_wf [OF wf(1,3)] lift_r_simps bind_return scalar_like_ty [OF wf(3)]
  proof (intro sound_if sound_raise sound_return sound_lift_r_bind sound_case_prod, goal_cases)
    case 1
    then show ?case using x has_type_self by metis
  next
    case (2 mode p rounding custom)
    then show ?case using cc(1,2) by blast
  next
    case (3 mode p rounding custom)
    have rc: "cast_rounding ?s t mode = Inr (rounding, custom)" using 3 by simp
    have "custom \<Longrightarrow> is_floating ?s \<and> is_floating t \<and> is_block (ttype x)"
      using cast_rounding_Inr(2) [OF rc] r 3(2) by (auto simp: str_to_rounding_mode_def)
    moreover have "is_fp8 ?s \<Longrightarrow> is_floating t \<Longrightarrow> is_floating ?s" "is_floating ?s \<Longrightarrow> is_fp8 t \<Longrightarrow> is_floating t"
      using is_fp8_floating wf(3,5) cc(3,4) by blast+
    ultimately have "is_floating ?s" "is_floating t" "is_block (ttype x)" using 3 cc(5) by blast+
    then show ?case using fp_to_fp_ok [OF rc wf(1,3)] cc(1,2) by (intro cast_op_like_sound x wf) blast
  next
    case (4 mode p rounding custom)
    then have h: "?s = Dt Fp16 \<or> ?s = Dt Bf16" by (auto simp: is_fp16_def is_bf16_def)
    then have "castable (ttype x) (Dt Fp32)" by (auto simp: castable_def Let_def is_fp8e4b15_def)
    note first = inner [OF x this]
    have nf8: "\<not> is_fp8 t" "\<not> is_ptr t" using 4 h cc(4) is_fp8_floating [of t] wf(3) by auto
    show ?case
    proof (rule sound_bind [OF first])
      fix y s1 assume "has_type (like_ty (ttype x) (Dt Fp32)) y s1"
      then have y: "tensor_ok s1 y" "ttype y = like_ty (ttype x) (Dt Fp32)" by (simp_all add: has_type_def)
      have "castable (ttype y) t"
        using wf(2,3) nf8 cc(2) by (simp add: y(2) castable_def Let_def is_fp8e4b15_def)
      then show "sound (f y t None) (has_type (like_ty (ttype x) t)) s1"
        using inner [OF y(1)] y(2) by simp
    qed
  next
    case (5 mode p rounding custom)
    then show ?case using both_floating_bits_ir [of ?s t "\<lambda>s d. s > d"] wf cc(1,2)
      by (intro cast_op_like_sound x wf) (simp add: ir_elem_of ir_float_of del: ir_float.simps)
  next
    case (6 mode p rounding custom)
    then show ?case using both_floating_bits_ir [of ?s t "\<lambda>s d. s < d"] wf cc(1,2)
      by (intro cast_op_like_sound x wf) (simp add: ir_elem_of ir_float_of del: ir_float.simps)
  next
    case (7 mode p rounding custom)
    then have "t = Dt Int1" by (simp add: is_bool_def is_int1_def)
    then show ?case using zero_cmp_sound [OF f x] 7 cc(1) by simp
  next
    case (8 mode p rounding custom)
    then show ?case using wf by (intro cast_op_like_sound x wf) (simp add: ir_elem_of ir_int_of)
  next
    case (9 mode p rounding custom)
    then have "t = Dt Int1" by (simp add: is_bool_def is_int1_def)
    then show ?case using zero_cmp_sound [OF f x] 9 cc(1) by (simp add: standard_floating_iff)
  next
    case (10 mode p rounding custom)
    then show ?case using wf cc(1)
      by (intro cast_op_like_sound x wf) (simp add: ir_elem_of ir_int_of ir_float_of standard_floating_iff del: ir_float.simps)
  next
    case (11 mode p rounding custom)
    then show ?case using wf cc(1)
      by (intro cast_op_like_sound x wf) (simp add: ir_elem_of ir_int_of ir_float_of standard_floating_iff del: ir_float.simps)
  next
    case (12 mode p rounding custom)
    then show ?case using wf cc(2)
      by (intro cast_op_like_sound x wf) (simp add: ir_elem_of ir_int_of ir_float_of standard_floating_iff del: ir_float.simps)
  next
    case (13 mode p rounding custom)
    then show ?case using wf cc(2)
      by (intro cast_op_like_sound x wf) (simp add: ir_elem_of ir_int_of ir_float_of standard_floating_iff del: ir_float.simps)
  next
    case (14 mode p rounding custom)
    then show ?case using wf by (intro cast_op_like_sound x wf) (simp add: ir_elem_of ir_ptr_of int_to_ir_64)
  next
    case (15 mode p rounding custom)
    then have t: "t = Dt Int1" and s: "is_ptr ?s" by (auto simp: dtype_tables split: ty.splits if_splits elim!: dtype_bits.elims)
    have "castable (ttype x) (Dt Int64)" using s cc(1) by (auto simp: is_ptr_iff castable_def Let_def dtype_tables)
    note first = inner [OF x this]
    show ?case
    proof (rule sound_bind [OF first])
      fix y s1 assume "has_type (like_ty (ttype x) (Dt Int64)) y s1"
      then have y: "tensor_ok s1 y" "ttype y = like_ty (ttype x) (Dt Int64)" by (simp_all add: has_type_def)
      have k: "sound (create_tensor (Constant (IRInt 64) (NInt 0)) (Dt Int64)) (has_type (Dt Int64)) s1"
        by (rule create_has_type) (simp_all add: op_ok_def)
      show "sound (bind (create_tensor (Constant (IRInt 64) (NInt 0)) (Dt Int64))
          (\<lambda>zero. not_equal_with f b (VTensor y) (VTensor zero))) (has_type (like_ty (ttype x) t)) s1"
      proof (rule sound_bind [OF k])
        fix z s2 assume g: "grows s1 s2" and z: "has_type (Dt Int64) z s2"
        have "sound (not_equal_with f b (VTensor y) (VTensor z)) (has_type (like_ty (ttype y) (Dt Int1))) s2"
          by (rule not_equal_with_sound [OF f tensor_ok_grows [OF y(1) g]])
            (use z y(2) in \<open>simp_all add: has_type_def dtype_tables\<close>)
        then show "sound (not_equal_with f b (VTensor y) (VTensor z)) (has_type (like_ty (ttype x) t)) s2"
          by (simp add: y(2) t)
      qed
    qed
  next
    case (16 mode p rounding custom)
    then show ?case using wf cc(4) by (intro cast_op_like_sound x wf) (simp add: ir_elem_of ir_ptr_of int_to_ir_64)
  next
    case (17 mode p rounding custom)
    then show ?case using wf by (intro cast_op_like_sound x wf) (simp add: ir_elem_of ir_ptr_of)
  qed
qed

lemma cast_depth_sound_fn: "cast_sound_fn (cast_depth n b)"
proof (induction n)
  case 0
  show ?case by (simp add: cast_sound_fn_def sound_raise)
next
  case (Suc n)
  then show ?case by (simp add: cast_sound_fn_def cast_step_sound)
qed

lemma cast_sound_fn: "cast_sound_fn (cast b)"
  unfolding cast_def by (rule cast_depth_sound_fn)

theorem cast_sound:
  assumes "tensor_ok s x" "castable (ttype x) t" "r = None \<or> r = Some ''rtne'' \<or> is_block (ttype x)"
  shows "sound (cast b x t r) (has_type (like_ty (ttype x) t)) s"
  by (subst cast_unfold) (rule cast_step_sound [OF cast_sound_fn assms])

theorem binary_operands_sound:
  "operand_ok s lhs \<Longrightarrow> operand_ok s rhs \<Longrightarrow>
     sound (binary_op_type_checking_impl b lhs rhs allow_l allow_r ac dm)
       (\<lambda>p s'. \<exists>x y. stands_for lhs x \<and> stands_for rhs y \<and> operand_post x y ac allow_l allow_r p s') s"
  unfolding binary_op_type_checking_impl_def by (rule binary_with_operands_sound [OF cast_sound_fn])

theorem binary_sound:
  "operand_ok s lhs \<Longrightarrow> operand_ok s rhs \<Longrightarrow>
     sound (binary_op_type_checking_impl b lhs rhs allow_l allow_r True dm) (binary_post allow_l allow_r) s"
  unfolding binary_op_type_checking_impl_def by (rule binary_with_sound [OF cast_sound_fn])

end
