(* ===== verification/Semantic_Arith.thy ===== *)
theory Semantic_Arith
  imports Semantic_Cast_Sound
begin

text \<open>
  Element-wise operations of \<open>python/triton/language/semantic.py\<close>: arithmetic with the overflow
  sanitizer, minimum, maximum and clamp, bitwise, logical and unary operators, comparisons, the
  program ids and \<open>arange\<close>; then the operator methods of class \<open>tensor\<close> in \<open>core.py\<close>.

  \<open>add\<close> and \<open>binary_op_sanitize_overflow_impl\<close> call each other in the source, the inner call with
  sanitizing off: \<open>add_impl\<close> takes the check to run on integer operands.  \<open>sub\<close> and \<open>minus\<close> call
  each other too: \<open>sub_depth\<close> bounds the nesting as \<open>cast_depth\<close> does, and two levels are enough.
\<close>

section \<open>Program ids and ranges\<close>

definition program_id :: "builder \<Rightarrow> int \<Rightarrow> tensor B" where
  "program_id b axis =
     (if axis \<notin> {0, 1, 2} then raise ValueError else create_tensor (GetProgramId axis) (Dt Int32))"

definition num_programs :: "builder \<Rightarrow> int \<Rightarrow> tensor B" where
  "num_programs b axis =
     (if axis \<notin> {0, 1, 2} then raise ValueError else create_tensor (GetNumPrograms axis) (Dt Int32))"

text \<open>\<open>start\<close> and \<open>end\<close> are \<open>None\<close> when they are not Python integers.\<close>

definition arange :: "builder \<Rightarrow> int option \<Rightarrow> int option \<Rightarrow> tensor B" where
  "arange b start end = (case (start, end) of
     (Some start, Some end) \<Rightarrow>
       let is_start_int64 = start div 2 ^ 32 \<noteq> 0; is_end_int64 = end div 2 ^ 32 \<noteq> 0 in
       if is_start_int64 \<or> is_end_int64 then raise ValueError
       else if end \<le> start then raise ValueError
       else
         let range = end - start in
         if range AND (range - 1) \<noteq> 0 then raise ValueError
         else bind (lift_r (block_type (Dt Int32) [range])) (create_tensor (MakeRange start end))
   | _ \<Rightarrow> raise ValueError)"

section \<open>Comparisons\<close>

definition greater_than :: "builder \<Rightarrow> pyval \<Rightarrow> pyval \<Rightarrow> tensor B" where
  "greater_than b input other =
     bind (binary_op_type_checking_impl b input other False False True False) (\<lambda>(input, other).
     let scalar_ty = scalar (ttype input) in
     if is_floating scalar_ty then
       bind (lift_r (bool_like input)) (create_tensor (Cmp C_fcmpOGT (handle input) (handle other)))
     else if is_int scalar_ty then
       (if is_int_signed scalar_ty then
          bind (lift_r (bool_like input)) (create_tensor (Cmp C_icmpSGT (handle input) (handle other)))
        else
          bind (lift_r (bool_like input)) (create_tensor (Cmp C_icmpUGT (handle input) (handle other))))
     else raise TypeError)"

definition greater_equal :: "builder \<Rightarrow> pyval \<Rightarrow> pyval \<Rightarrow> tensor B" where
  "greater_equal b input other =
     bind (binary_op_type_checking_impl b input other False False True False) (\<lambda>(input, other).
     let scalar_ty = scalar (ttype input) in
     if is_floating scalar_ty then
       bind (lift_r (bool_like input)) (create_tensor (Cmp C_fcmpOGE (handle input) (handle other)))
     else if is_int scalar_ty then
       (if is_int_signed scalar_ty then
          bind (lift_r (bool_like input)) (create_tensor (Cmp C_icmpSGE (handle input) (handle other)))
        else
          bind (lift_r (bool_like input)) (create_tensor (Cmp C_icmpUGE (handle input) (handle other))))
     else raise TypeError)"

definition less_than :: "builder \<Rightarrow> pyval \<Rightarrow> pyval \<Rightarrow> tensor B" where
  "less_than b input other =
     bind (binary_op_type_checking_impl b input other False False True False) (\<lambda>(input, other).
     let scalar_ty = scalar (ttype input) in
     if is_floating scalar_ty then
       bind (lift_r (bool_like input)) (create_tensor (Cmp C_fcmpOLT (handle input) (handle other)))
     else if is_int scalar_ty then
       (if is_int_signed scalar_ty then
          bind (lift_r (bool_like input)) (create_tensor (Cmp C_icmpSLT (handle input) (handle other)))
        else
          bind (lift_r (bool_like input)) (create_tensor (Cmp C_icmpULT (handle input) (handle other))))
     else raise TypeError)"

definition less_equal :: "builder \<Rightarrow> pyval \<Rightarrow> pyval \<Rightarrow> tensor B" where
  "less_equal b input other =
     bind (binary_op_type_checking_impl b input other False False True False) (\<lambda>(input, other).
     let scalar_ty = scalar (ttype input) in
     if is_floating scalar_ty then
       bind (lift_r (bool_like input)) (create_tensor (Cmp C_fcmpOLE (handle input) (handle other)))
     else if is_int scalar_ty then
       (if is_int_signed scalar_ty then
          bind (lift_r (bool_like input)) (create_tensor (Cmp C_icmpSLE (handle input) (handle other)))
        else
          bind (lift_r (bool_like input)) (create_tensor (Cmp C_icmpULE (handle input) (handle other))))
     else raise TypeError)"

definition equal_op :: "builder \<Rightarrow> pyval \<Rightarrow> pyval \<Rightarrow> tensor B" where
  "equal_op b input other =
     bind (binary_op_type_checking_impl b input other False False True False) (\<lambda>(input, other).
     let scalar_ty = scalar (ttype input) in
     if is_floating scalar_ty then
       bind (lift_r (bool_like input)) (create_tensor (Cmp C_fcmpOEQ (handle input) (handle other)))
     else if is_int scalar_ty then
       bind (lift_r (bool_like input)) (create_tensor (Cmp C_icmpEQ (handle input) (handle other)))
     else raise TypeError)"

section \<open>Bitwise operators\<close>

definition bitwise_op_type_checking_impl :: "builder \<Rightarrow> pyval \<Rightarrow> pyval \<Rightarrow> (tensor \<times> tensor) B" where
  "bitwise_op_type_checking_impl b input other =
     bind (binary_op_type_checking_impl b input other False False True False) (\<lambda>(input, other).
     let input_sca_ty = scalar (ttype input); other_sca_ty = scalar (ttype other) in
     if \<not> is_int input_sca_ty \<or> \<not> is_int other_sca_ty then raise IncompatibleTypeErrorImpl
     else
       bind (lift_r (integer_promote_impl input_sca_ty other_sca_ty)) (\<lambda>ret_sca_ty.
       bind (if ret_sca_ty \<noteq> input_sca_ty then cast b input ret_sca_ty None else return input) (\<lambda>input.
       bind (if ret_sca_ty \<noteq> other_sca_ty then cast b other ret_sca_ty None else return other) (\<lambda>other.
       return (input, other)))))"

definition and_op :: "builder \<Rightarrow> pyval \<Rightarrow> pyval \<Rightarrow> tensor B" where
  "and_op b input other =
     bind (bitwise_op_type_checking_impl b input other) (\<lambda>(input, other).
     create_tensor (Bin B_and (handle input) (handle other)) (ttype input))"

definition or_op :: "builder \<Rightarrow> pyval \<Rightarrow> pyval \<Rightarrow> tensor B" where
  "or_op b input other =
     bind (bitwise_op_type_checking_impl b input other) (\<lambda>(input, other).
     create_tensor (Bin B_or (handle input) (handle other)) (ttype input))"

definition xor_op :: "builder \<Rightarrow> pyval \<Rightarrow> pyval \<Rightarrow> tensor B" where
  "xor_op b input other =
     bind (bitwise_op_type_checking_impl b input other) (\<lambda>(input, other).
     create_tensor (Bin B_xor (handle input) (handle other)) (ttype input))"

definition lshr :: "builder \<Rightarrow> pyval \<Rightarrow> pyval \<Rightarrow> tensor B" where
  "lshr b input other =
     bind (bitwise_op_type_checking_impl b input other) (\<lambda>(input, other).
     create_tensor (Bin B_lshr (handle input) (handle other)) (ttype input))"

definition ashr :: "builder \<Rightarrow> pyval \<Rightarrow> pyval \<Rightarrow> tensor B" where
  "ashr b input other =
     bind (bitwise_op_type_checking_impl b input other) (\<lambda>(input, other).
     create_tensor (Bin B_ashr (handle input) (handle other)) (ttype input))"

definition shl :: "builder \<Rightarrow> pyval \<Rightarrow> pyval \<Rightarrow> tensor B" where
  "shl b input other =
     bind (bitwise_op_type_checking_impl b input other) (\<lambda>(input, other).
     create_tensor (Bin B_shl (handle input) (handle other)) (ttype input))"

section \<open>The overflow sanitizer\<close>

definition device_assert :: "builder \<Rightarrow> tensor \<Rightarrow> string \<Rightarrow> unit B" where
  "device_assert b cond msg =
     (if \<not> debug b then return () else create_void (Assert (handle cond) msg))"

definition decimal :: "int \<Rightarrow> string" where
  "decimal w = (if w = 1 then ''1'' else if w = 8 then ''8'' else if w = 16 then ''16'' else ''32'')"

definition binary_op_sanitize_overflow_impl ::
  "builder \<Rightarrow> (tensor \<Rightarrow> tensor \<Rightarrow> tensor B) \<Rightarrow> string \<Rightarrow> tensor \<Rightarrow> tensor \<Rightarrow> unit B" where
  "binary_op_sanitize_overflow_impl b binary_op op_name lhs rhs =
     bind (lift_r (int_bitwidth (scalar (ttype lhs)))) (\<lambda>w.
     if w \<ge> 64 \<or> \<not> sanitize_overflow b then return ()
     else
       let lhs_sca_ty = scalar (ttype lhs); rhs_sca_ty = scalar (ttype rhs) in
       bind (check (lhs_sca_ty = rhs_sca_ty) AssertionError) (\<lambda>_.
       bind (check (is_int lhs_sca_ty) AssertionError) (\<lambda>_.
       bind (cast b lhs (Dt Int64) None) (\<lambda>lhs.
       bind (cast b rhs (Dt Int64) None) (\<lambda>rhs.
       bind (binary_op lhs rhs) (\<lambda>ret.
       bind (lift_r (get_int_max_value lhs_sca_ty)) (\<lambda>max_value.
       bind (get_value_fn (Dt Int64) (NInt max_value)) (\<lambda>max_h.
       bind (lift_r (get_int_min_value lhs_sca_ty)) (\<lambda>min_value.
       bind (get_value_fn (Dt Int64) (NInt min_value)) (\<lambda>min_h.
       bind (less_equal b (VTensor ret) (VTensor \<lparr>handle = max_h, ttype = Dt Int64\<rparr>)) (\<lambda>le.
       bind (greater_equal b (VTensor ret) (VTensor \<lparr>handle = min_h, ttype = Dt Int64\<rparr>)) (\<lambda>ge.
       bind (and_op b (VTensor le) (VTensor ge)) (\<lambda>cond.
       device_assert b cond (''int'' @ decimal w @ '' overflow detected for operation '' @ op_name))))))))))))))"

section \<open>Arithmetic\<close>

type_synonym int_check = "tensor \<Rightarrow> tensor \<Rightarrow> unit B"

definition no_check :: int_check where
  "no_check = (\<lambda>_ _. return ())"

definition add_impl :: "builder \<Rightarrow> int_check \<Rightarrow> pyval \<Rightarrow> pyval \<Rightarrow> tensor B" where
  "add_impl b int_check input other =
     bind (binary_op_type_checking_impl b input other True True True False) (\<lambda>(input, other).
     if is_ptr (scalar (ttype input)) \<and> is_ptr (scalar (ttype other)) then raise TypeError
     else
       let (input, other) =
         (if is_ptr (scalar (ttype other)) \<and> \<not> is_ptr (scalar (ttype input)) then (other, input) else (input, other)) in
       let input_scalar_ty = scalar (ttype input) in
       if is_ptr input_scalar_ty then create_tensor (AddPtr (handle input) (handle other)) (ttype input)
       else if is_floating input_scalar_ty then create_tensor (Bin B_fadd (handle input) (handle other)) (ttype input)
       else if is_int input_scalar_ty then
         bind (int_check input other) (\<lambda>_. create_tensor (Bin B_add (handle input) (handle other)) (ttype input))
       else raise TypeError)"

definition add :: "builder \<Rightarrow> pyval \<Rightarrow> pyval \<Rightarrow> bool \<Rightarrow> tensor B" where
  "add b input other sanitize =
     add_impl b (if sanitize
       then binary_op_sanitize_overflow_impl b (\<lambda>l r. add_impl b no_check (VTensor l) (VTensor r)) ''add''
       else no_check) input other"

definition sub_impl :: "builder \<Rightarrow> (tensor \<Rightarrow> tensor B) \<Rightarrow> int_check \<Rightarrow> pyval \<Rightarrow> pyval \<Rightarrow> tensor B" where
  "sub_impl b minus_rec int_check input other =
     bind (binary_op_type_checking_impl b input other True False True False) (\<lambda>(input, other).
     let scalar_ty = scalar (ttype input) in
     if is_ptr scalar_ty then
       bind (minus_rec other) (\<lambda>neg. create_tensor (AddPtr (handle input) (handle neg)) (ttype input))
     else if is_floating scalar_ty then create_tensor (Bin B_fsub (handle input) (handle other)) (ttype input)
     else if is_int scalar_ty then
       bind (int_check input other) (\<lambda>_. create_tensor (Bin B_sub (handle input) (handle other)) (ttype input))
     else raise TypeError)"

definition sub_with :: "builder \<Rightarrow> (tensor \<Rightarrow> tensor B) \<Rightarrow> pyval \<Rightarrow> pyval \<Rightarrow> bool \<Rightarrow> tensor B" where
  "sub_with b minus_rec input other sanitize =
     sub_impl b minus_rec (if sanitize
       then binary_op_sanitize_overflow_impl b (\<lambda>l r. sub_impl b minus_rec no_check (VTensor l) (VTensor r)) ''sub''
       else no_check) input other"

definition minus_with :: "builder \<Rightarrow> (pyval \<Rightarrow> pyval \<Rightarrow> bool \<Rightarrow> tensor B) \<Rightarrow> tensor \<Rightarrow> tensor B" where
  "minus_with b sub_rec input =
     (let input_sca_ty = scalar (ttype input) in
      if is_ptr input_sca_ty then raise ValueError
      else bind (null_tensor b input_sca_ty) (\<lambda>zero. sub_rec (VTensor zero) (VTensor input) True))"

fun sub_depth :: "nat \<Rightarrow> builder \<Rightarrow> pyval \<Rightarrow> pyval \<Rightarrow> bool \<Rightarrow> tensor B" where
  "sub_depth 0 b = (\<lambda>input other sanitize. raise RecursionError)"
| "sub_depth (Suc n) b = sub_with b (minus_with b (sub_depth n b))"

definition sub :: "builder \<Rightarrow> pyval \<Rightarrow> pyval \<Rightarrow> bool \<Rightarrow> tensor B" where
  "sub b = sub_depth 2 b"

definition minus_op :: "builder \<Rightarrow> tensor \<Rightarrow> tensor B" where
  "minus_op b = minus_with b (sub b)"

definition mul_impl :: "builder \<Rightarrow> int_check \<Rightarrow> pyval \<Rightarrow> pyval \<Rightarrow> tensor B" where
  "mul_impl b int_check input other =
     bind (binary_op_type_checking_impl b input other False False True False) (\<lambda>(input, other).
     let scalar_ty = scalar (ttype input) in
     if is_floating scalar_ty then create_tensor (Bin B_fmul (handle input) (handle other)) (ttype input)
     else if is_int scalar_ty then
       bind (int_check input other) (\<lambda>_. create_tensor (Bin B_mul (handle input) (handle other)) (ttype input))
     else raise TypeError)"

definition mul :: "builder \<Rightarrow> pyval \<Rightarrow> pyval \<Rightarrow> bool \<Rightarrow> tensor B" where
  "mul b input other sanitize =
     mul_impl b (if sanitize
       then binary_op_sanitize_overflow_impl b (\<lambda>l r. mul_impl b no_check (VTensor l) (VTensor r)) ''mul''
       else no_check) input other"

definition truediv :: "builder \<Rightarrow> pyval \<Rightarrow> pyval \<Rightarrow> tensor B" where
  "truediv b input other =
     bind (binary_op_type_checking_impl b input other False False True True) (\<lambda>(input, other).
     let input_scalar_ty = scalar (ttype input); other_scalar_ty = scalar (ttype other) in
     bind (if is_floating input_scalar_ty \<and> is_int other_scalar_ty then
             bind (cast b other input_scalar_ty None) (\<lambda>other. return (input, other))
           else if is_int input_scalar_ty \<and> is_floating other_scalar_ty then
             bind (cast b input other_scalar_ty None) (\<lambda>input. return (input, other))
           else if is_int input_scalar_ty \<and> is_int other_scalar_ty then
             bind (cast b input (Dt Fp32) None) (\<lambda>input.
             bind (cast b other (Dt Fp32) None) (\<lambda>other. return (input, other)))
           else if is_floating input_scalar_ty \<and> is_floating other_scalar_ty then
             bind (lift_r (fp_mantissa_width input_scalar_ty)) (\<lambda>wi.
             bind (lift_r (fp_mantissa_width other_scalar_ty)) (\<lambda>wo.
             if wi > wo then bind (cast b other input_scalar_ty None) (\<lambda>other. return (input, other))
             else bind (cast b input other_scalar_ty None) (\<lambda>input. return (input, other))))
           else raise TypeError) (\<lambda>(input, other).
     create_tensor (Bin B_fdiv (handle input) (handle other)) (ttype input)))"

definition floordiv :: "builder \<Rightarrow> pyval \<Rightarrow> pyval \<Rightarrow> tensor B" where
  "floordiv b input other =
     bind (binary_op_type_checking_impl b input other False False True True) (\<lambda>(input, other).
     let input_scalar_ty = scalar (ttype input); other_scalar_ty = scalar (ttype other) in
     if is_int input_scalar_ty \<and> is_int other_scalar_ty then
       bind (lift_r (integer_promote_impl input_scalar_ty other_scalar_ty)) (\<lambda>ret_ty.
       bind (cast b input ret_ty None) (\<lambda>input.
       bind (cast b other ret_ty None) (\<lambda>other.
       if is_int_signed ret_ty then create_tensor (Bin B_sdiv (handle input) (handle other)) (ttype input)
       else create_tensor (Bin B_udiv (handle input) (handle other)) (ttype input))))
     else raise TypeError)"

definition fdiv :: "builder \<Rightarrow> pyval \<Rightarrow> pyval \<Rightarrow> tensor B" where
  "fdiv b input other =
     bind (lift_r (as_tensor input)) (\<lambda>input_t.
     bind (lift_r (as_tensor other)) (\<lambda>other_t.
     if \<not> is_floating (scalar (ttype input_t)) \<or> \<not> is_floating (scalar (ttype other_t)) then raise TypeError
     else
       bind (binary_op_type_checking_impl b input other False False False True) (\<lambda>(input, other).
       create_tensor (Bin B_fdiv (handle input) (handle other)) (ttype input))))"

definition mod_op :: "builder \<Rightarrow> pyval \<Rightarrow> pyval \<Rightarrow> tensor B" where
  "mod_op b input other =
     bind (binary_op_type_checking_impl b input other False False True True) (\<lambda>(input, other).
     let scalar_ty = scalar (ttype input); other_scalar_ty = scalar (ttype other) in
     if is_floating scalar_ty then create_tensor (Bin B_frem (handle input) (handle other)) (ttype input)
     else if is_int scalar_ty then
       bind (lift_r (int_signedness scalar_ty)) (\<lambda>sn.
       bind (lift_r (int_signedness other_scalar_ty)) (\<lambda>other_sn.
       if sn \<noteq> other_sn then raise TypeError
       else if is_int_signed scalar_ty then create_tensor (Bin B_srem (handle input) (handle other)) (ttype input)
       else create_tensor (Bin B_urem (handle input) (handle other)) (ttype input)))
     else raise TypeError)"

section \<open>Minimum, maximum, clamp\<close>

definition minimum :: "builder \<Rightarrow> pyval \<Rightarrow> pyval \<Rightarrow> propagate_nan \<Rightarrow> tensor B" where
  "minimum b x y propagate_nan =
     bind (binary_op_type_checking_impl b x y False False True False) (\<lambda>(x, y).
     let dtype = tensor_dtype x in
     if is_floating dtype then
       (case propagate_nan of
          NAN_ALL \<Rightarrow> create_tensor (Bin B_minimumf (handle x) (handle y)) (ttype x)
        | NAN_NONE \<Rightarrow> create_tensor (Bin B_minnumf (handle x) (handle y)) (ttype x))
     else if is_int_signed dtype then create_tensor (Bin B_minsi (handle x) (handle y)) (ttype x)
     else if is_int_unsigned dtype then create_tensor (Bin B_minui (handle x) (handle y)) (ttype x)
     else raise TypeError)"

definition maximum :: "builder \<Rightarrow> pyval \<Rightarrow> pyval \<Rightarrow> propagate_nan \<Rightarrow> tensor B" where
  "maximum b x y propagate_nan =
     bind (binary_op_type_checking_impl b x y False False True False) (\<lambda>(x, y).
     let dtype = tensor_dtype x in
     if is_floating dtype then
       (case propagate_nan of
          NAN_ALL \<Rightarrow> create_tensor (Bin B_maximumf (handle x) (handle y)) (ttype x)
        | NAN_NONE \<Rightarrow> create_tensor (Bin B_maxnumf (handle x) (handle y)) (ttype x))
     else if is_int_signed dtype then create_tensor (Bin B_maxsi (handle x) (handle y)) (ttype x)
     else if is_int_unsigned dtype then create_tensor (Bin B_maxui (handle x) (handle y)) (ttype x)
     else raise TypeError)"

definition clamp :: "builder \<Rightarrow> pyval \<Rightarrow> pyval \<Rightarrow> pyval \<Rightarrow> propagate_nan \<Rightarrow> tensor B" where
  "clamp b x lo hi propagate_nan =
     bind (binary_op_type_checking_impl b lo hi False False True False) (\<lambda>(lo, hi).
     bind (binary_op_type_checking_impl b x (VTensor lo) False False True False) (\<lambda>(x, lo).
     bind (binary_op_type_checking_impl b (VTensor x) (VTensor hi) False False True False) (\<lambda>(x, hi).
     if is_floating (tensor_dtype x) then
       create_tensor (ClampF (handle x) (handle lo) (handle hi) propagate_nan) (ttype x)
     else raise TypeError)))"

section \<open>Logical and unary operators\<close>

definition as_int1 :: "builder \<Rightarrow> tensor \<Rightarrow> tensor B" where
  "as_int1 b input = (if \<not> is_int1 (ttype input) then bitcast b input (Dt Int1) else return input)"

definition logical_and :: "builder \<Rightarrow> tensor \<Rightarrow> tensor \<Rightarrow> tensor B" where
  "logical_and b input other =
     bind (as_int1 b input) (\<lambda>input.
     bind (as_int1 b other) (\<lambda>other.
     and_op b (VTensor input) (VTensor other)))"

definition logical_or :: "builder \<Rightarrow> tensor \<Rightarrow> tensor \<Rightarrow> tensor B" where
  "logical_or b input other =
     bind (as_int1 b input) (\<lambda>input.
     bind (as_int1 b other) (\<lambda>other.
     or_op b (VTensor input) (VTensor other)))"

definition plus_op :: "tensor \<Rightarrow> tensor" where
  "plus_op input = input"

definition invert :: "builder \<Rightarrow> tensor \<Rightarrow> tensor B" where
  "invert b input =
     (let input_sca_ty = scalar (ttype input) in
      if is_ptr input_sca_ty \<or> is_floating input_sca_ty then raise ValueError
      else
        bind (lift_r (to_ir b input_sca_ty)) (\<lambda>r.
        bind (get_all_ones_value r) (\<lambda>h.
        xor_op b (VTensor input) (VTensor \<lparr>handle = h, ttype = input_sca_ty\<rparr>))))"

definition not_op :: "builder \<Rightarrow> tensor \<Rightarrow> tensor B" where
  "not_op b input = bind (as_int1 b input) (\<lambda>input. invert b input)"

end
