(* ===== verification/Semantic_Shape.thy ===== *)
theory Semantic_Shape
  imports Semantic_Arith
begin

text \<open>
  Shape manipulation: the functions of \<open>semantic.py\<close> (\<open>reshape\<close>, \<open>expand_dims\<close>, \<open>cat\<close>, \<open>join\<close>,
  \<open>split\<close>, \<open>permute\<close>, \<open>wrap_tensor\<close>, \<open>reduction\<close>, \<open>associative_scan\<close>, \<open>histogram\<close>, \<open>where\<close>) and
  the user-level functions of \<open>core.py\<close> that call them.  The region of a reduction or a scan is built
  by a callback inside the operation; it adds nothing to the enclosing block and is not modelled.
\<close>

section \<open>Arguments\<close>

text \<open>An argument of a user-level function: an integer, a \<open>constexpr\<close> integer, or a sequence.\<close>

datatype parg = PInt int | PConst int | PSeq "parg list"

fun constexpr_to_value :: "parg \<Rightarrow> parg" where
  "constexpr_to_value (PConst i) = PInt i"
| "constexpr_to_value v = v"

fun unwrap_iterable :: "parg list \<Rightarrow> parg list" where
  "unwrap_iterable [PSeq ys] = ys"
| "unwrap_iterable xs = xs"

fun as_int :: "parg \<Rightarrow> int result" where
  "as_int (PInt i) = Inr i"
| "as_int (PConst i) = Inr i"
| "as_int (PSeq _) = Inl TypeError"

definition shape_check_impl :: "parg list \<Rightarrow> int list result" where
  "shape_check_impl shape =
     bind_r (map_r as_int (map constexpr_to_value shape)) (\<lambda>shape.
     bind_r (validate_block_shape shape) (\<lambda>_. Inr shape))"

definition wrap_axis :: "int \<Rightarrow> int \<Rightarrow> int result" where
  "wrap_axis axis ndim =
     (if \<not> (- ndim \<le> axis \<and> axis < ndim) then Inl ValueError
      else Inr (if axis \<ge> 0 then axis else axis + ndim))"

text \<open>Python's \<open>list.insert\<close>: a negative index counts from the end, and the index is clamped.\<close>

definition py_insert :: "int \<Rightarrow> 'a \<Rightarrow> 'a list \<Rightarrow> 'a list" where
  "py_insert i x xs =
     (let n = int (length xs); j = (if i < 0 then max 0 (i + n) else min i n) in insert_at (nat j) x xs)"

section \<open>semantic.py\<close>

definition type_numel :: "ty \<Rightarrow> int result" where
  "type_numel t = bind_r (get_block_shapes t) (\<lambda>shape. Inr (numel_of shape))"

definition reshape :: "builder \<Rightarrow> tensor \<Rightarrow> int list \<Rightarrow> bool \<Rightarrow> tensor B" where
  "reshape b input dst_shape can_reorder =
     (let numel = fold (\<lambda>s n. n * s) dst_shape 1 in
      bind (lift_r (type_numel (ttype input))) (\<lambda>input_numel.
      bind (check (input_numel = numel) ValueError) (\<lambda>_.
      bind (lift_r (block_type (scalar (ttype input)) dst_shape)) (\<lambda>ret_ty.
      create_tensor (Reshape (handle input) dst_shape can_reorder) ret_ty))))"

definition expand_dims :: "builder \<Rightarrow> tensor \<Rightarrow> int \<Rightarrow> tensor B" where
  "expand_dims b input axis =
     (let dst_shape = py_insert axis 1 (tensor_shape input) in
      if \<not> is_block (ttype input) then splat b input dst_shape
      else
        bind (lift_r (block_type (scalar (ttype input)) dst_shape)) (\<lambda>ret_ty.
        create_tensor (ExpandDims (handle input) axis) ret_ty))"

definition cat :: "builder \<Rightarrow> tensor \<Rightarrow> tensor \<Rightarrow> bool \<Rightarrow> tensor B" where
  "cat b lhs rhs can_reorder =
     bind (check can_reorder AssertionError) (\<lambda>_.
     bind (check (length (tensor_shape lhs) = 1) AssertionError) (\<lambda>_.
     bind (check (tensor_shape rhs \<noteq> []) IndexError) (\<lambda>_.
     bind (lift_r (block_type (scalar (ttype lhs)) [hd (tensor_shape lhs) + hd (tensor_shape rhs)])) (\<lambda>ret_type.
     create_tensor (Cat (handle lhs) (handle rhs)) ret_type))))"

definition join :: "builder \<Rightarrow> tensor \<Rightarrow> tensor \<Rightarrow> tensor B" where
  "join b x y =
     bind (broadcast_impl_value b x y) (\<lambda>(x, y).
     let was_rank_1 = (tensor_shape x = []) in
     bind (if was_rank_1 then expand_dims b x 0 else return x) (\<lambda>x.
     bind (if was_rank_1 then expand_dims b y 0 else return y) (\<lambda>y.
     let new_shape = tensor_shape x @ [2] in
     bind (lift_r (block_type (scalar (ttype x)) new_shape)) (\<lambda>ret_type.
     bind (create_tensor (Join (handle x) (handle y)) ret_type) (\<lambda>ret.
     if was_rank_1 then reshape b ret [2] False else return ret)))))"

definition split :: "builder \<Rightarrow> tensor \<Rightarrow> (tensor \<times> tensor) B" where
  "split b x =
     bind (check (length (tensor_shape x) > 0) AssertionError) (\<lambda>_.
     bind (check (last (tensor_shape x) = 2) AssertionError) (\<lambda>_.
     let new_shape = butlast (tensor_shape x) in
     bind (lift_r (block_type (scalar (ttype x)) new_shape)) (\<lambda>ret_type.
     bind (emit (Split (handle x))) (\<lambda>hs.
     return (\<lparr>handle = hs ! 0, ttype = ret_type\<rparr>, \<lparr>handle = hs ! 1, ttype = ret_type\<rparr>)))))"

definition permute :: "builder \<Rightarrow> tensor \<Rightarrow> int list \<Rightarrow> tensor B" where
  "permute b input dims =
     bind (check (length (tensor_shape input) = length dims) ValueError) (\<lambda>_.
     bind (check (sort dims = map int [0..<length dims]) ValueError) (\<lambda>_.
     bind (lift_r (block_type (scalar (ttype input)) (map (\<lambda>d. tensor_shape input ! nat d) dims))) (\<lambda>ret_type.
     create_tensor (Trans (handle input) dims) ret_type)))"

definition where_ty :: "builder \<Rightarrow> tensor \<Rightarrow> pyval \<Rightarrow> pyval \<Rightarrow> tensor B" where
  "where_ty b condition x y =
     bind (cast b condition (Dt Int1) None) (\<lambda>condition.
     bind (binary_op_type_checking_impl b x y True True True False) (\<lambda>(x, y).
     bind (if is_block (ttype condition) then
             bind (broadcast_impl_value b condition x) (\<lambda>(condition, x).
             bind (broadcast_impl_value b x y) (\<lambda>(x, y). return (condition, x, y)))
           else
             bind (broadcast_impl_value b condition x) (\<lambda>(condition, _). return (condition, x, y)))
       (\<lambda>(condition, x, y).
     create_tensor (Select (handle condition) (handle x) (handle y)) (ttype x))))"

definition wrap_tensor :: "nat \<Rightarrow> ty \<Rightarrow> int list \<Rightarrow> tensor result" where
  "wrap_tensor x scalar_ty ret_shape =
     bind_r (if ret_shape \<noteq> [] then block_type scalar_ty ret_shape else Inr scalar_ty) (\<lambda>res_ty.
     Inr \<lparr>handle = x, ttype = res_ty\<rparr>)"

text \<open>\<open>[s for i, s in enumerate(shape) if i != axis]\<close>.\<close>

definition without_axis :: "int \<Rightarrow> 'a list \<Rightarrow> 'a list" where
  "without_axis axis shape = map snd (filter (\<lambda>(i, _). int i \<noteq> axis) (enumerate 0 shape))"

text \<open>The results of a reduction or scan, each wrapped with the scalar type of its input.\<close>

definition wrap_results :: "tensor list \<Rightarrow> int list \<Rightarrow> nat list \<Rightarrow> tensor list result" where
  "wrap_results inputs ret_shape hs =
     map_r (\<lambda>(h, t). wrap_tensor h (scalar (ttype t)) ret_shape) (zip hs inputs)"

definition reduction :: "builder \<Rightarrow> tensor list \<Rightarrow> int option \<Rightarrow> tensor list B" where
  "reduction b inputs axis =
     bind (case axis of
             None \<Rightarrow> map_m (\<lambda>t. reshape b t [tensor_numel t] True) inputs
           | Some _ \<Rightarrow> return inputs) (\<lambda>inputs.
     let axis = (case axis of None \<Rightarrow> 0 | Some a \<Rightarrow> a) in
     bind (check (inputs \<noteq> []) IndexError) (\<lambda>_.
     bind (lift_r (get_block_shapes (ttype (hd inputs)))) (\<lambda>shape.
     bind (check (axis < int (length shape)) AssertionError) (\<lambda>_.
     let ret_shape = without_axis axis shape in
     bind (check (\<forall>t \<in> set inputs. get_block_shapes (ttype t) = Inr shape) AssertionError) (\<lambda>_.
     bind (emit (Reduce (map handle inputs) axis)) (\<lambda>hs.
     lift_r (wrap_results inputs ret_shape hs)))))))"

definition associative_scan :: "builder \<Rightarrow> tensor list \<Rightarrow> int \<Rightarrow> bool \<Rightarrow> tensor list B" where
  "associative_scan b inputs axis reverse =
     bind (check (inputs \<noteq> []) IndexError) (\<lambda>_.
     bind (lift_r (get_block_shapes (ttype (hd inputs)))) (\<lambda>shape.
     let rank = int (length shape) in
     bind (check (- rank \<le> axis \<and> axis < rank) AssertionError) (\<lambda>_.
     let axis = (if axis < 0 then axis + rank else axis) in
     bind (check (\<forall>t \<in> set inputs. get_block_shapes (ttype t) = Inr shape) AssertionError) (\<lambda>_.
     bind (emit (Scan (map handle inputs) axis reverse)) (\<lambda>hs.
     lift_r (wrap_results inputs shape hs))))))"

definition histogram :: "builder \<Rightarrow> tensor \<Rightarrow> int \<Rightarrow> tensor B" where
  "histogram b input num_bins =
     bind (check (length (tensor_shape input) = 1) AssertionError) (\<lambda>_.
     bind (check (is_int (tensor_dtype input)) AssertionError) (\<lambda>_.
     bind (create (Histogram (handle input) num_bins)) (\<lambda>h.
     bind (lift_r (block_type (Dt Int32) [num_bins])) (\<lambda>ty.
     return \<lparr>handle = h, ttype = ty\<rparr>))))"

section \<open>core.py\<close>

definition core_full :: "builder \<Rightarrow> parg list \<Rightarrow> pyval \<Rightarrow> ty option \<Rightarrow> tensor B" where
  "core_full b shape value dtype =
     bind (lift_r (shape_check_impl shape)) (\<lambda>shape.
     full b shape (case value of VConstexpr v \<Rightarrow> v | _ \<Rightarrow> value) dtype)"

definition core_broadcast :: "builder \<Rightarrow> tensor \<Rightarrow> tensor \<Rightarrow> (tensor \<times> tensor) B" where
  "core_broadcast b input other = broadcast_impl_value b input other"

definition broadcast_to :: "builder \<Rightarrow> tensor \<Rightarrow> parg list \<Rightarrow> tensor B" where
  "broadcast_to b input shape =
     bind (lift_r (shape_check_impl (unwrap_iterable shape))) (\<lambda>shape.
     broadcast_impl_shape b input shape)"

text \<open>
  The dimensions of a permutation as \<open>semantic.permute\<close> sees them: with a sequence among them the
  length test or the comparison with \<open>range\<close> fails, and sorting sequences with integers raises.
\<close>

definition permute_args :: "builder \<Rightarrow> tensor \<Rightarrow> parg list \<Rightarrow> tensor B" where
  "permute_args b input dims =
     (case map_r as_int (map constexpr_to_value dims) of
        Inr ds \<Rightarrow> permute b input ds
      | Inl _ \<Rightarrow>
          if length (tensor_shape input) \<noteq> length dims then raise ValueError
          else if \<forall>d \<in> set dims. \<exists>ys. d = PSeq ys then raise ValueError
          else raise TypeError)"

definition trans_op :: "builder \<Rightarrow> tensor \<Rightarrow> parg list \<Rightarrow> tensor B" where
  "trans_op b input dims = permute_args b input (if dims = [] then [PInt 1, PInt 0] else dims)"

definition core_permute :: "builder \<Rightarrow> tensor \<Rightarrow> parg list \<Rightarrow> tensor B" where
  "core_permute b input dims = permute_args b input (unwrap_iterable dims)"

definition core_reshape :: "builder \<Rightarrow> tensor \<Rightarrow> parg list \<Rightarrow> bool \<Rightarrow> tensor B" where
  "core_reshape b input shape can_reorder =
     bind (lift_r (shape_check_impl (unwrap_iterable shape))) (\<lambda>shape.
     reshape b input shape can_reorder)"

definition view :: "builder \<Rightarrow> tensor \<Rightarrow> parg list \<Rightarrow> tensor B" where
  "view b input shape =
     bind (lift_r (shape_check_impl (unwrap_iterable shape))) (\<lambda>shape.
     reshape b input shape True)"

definition core_expand_dims :: "builder \<Rightarrow> tensor \<Rightarrow> parg \<Rightarrow> tensor B" where
  "core_expand_dims b input axis =
     (let axes = (case constexpr_to_value axis of PSeq xs \<Rightarrow> xs | v \<Rightarrow> [v]);
          new_ndim = int (length (tensor_shape input)) + int (length axes) in
      bind (lift_r (map_r (\<lambda>d. bind_r (as_int (constexpr_to_value d)) (\<lambda>i. wrap_axis i new_ndim)) axes)) (\<lambda>axes.
      bind (check (distinct axes) ValueError) (\<lambda>_.
      fold_m (\<lambda>a ret. expand_dims b ret a) (sort axes) input)))"

definition core_reduce :: "builder \<Rightarrow> tensor list \<Rightarrow> int option \<Rightarrow> bool \<Rightarrow> tensor list B" where
  "core_reduce b input axis keep_dims =
     bind (check (input \<noteq> []) IndexError) (\<lambda>_.
     bind (case axis of
             None \<Rightarrow> return None
           | Some a \<Rightarrow> bind (lift_r (wrap_axis a (int (length (tensor_shape (hd input)))))) (\<lambda>a. return (Some a))) (\<lambda>axis.
     bind (reduction b input axis) (\<lambda>ret.
     if keep_dims then
       (case axis of
          Some a \<Rightarrow> map_m (\<lambda>t. core_expand_dims b t (PInt a)) ret
        | None \<Rightarrow>
            map_m (fold_m (\<lambda>_ t. core_expand_dims b t (PInt 0)) (tensor_shape (hd input))) ret)
     else return ret)))"

definition core_split :: "builder \<Rightarrow> tensor \<Rightarrow> (tensor \<times> tensor) B" where
  "core_split b x =
     (let was_rank_1 = (length (tensor_shape x) = 1) in
      bind (if was_rank_1 then expand_dims b x 0 else return x) (\<lambda>x.
      bind (split b x) (\<lambda>(out_lhs, out_rhs).
      if was_rank_1 then
        bind (core_reduce b [out_lhs] None False) (\<lambda>l.
        bind (core_reduce b [out_rhs] None False) (\<lambda>r.
        return (hd l, hd r)))
      else return (out_lhs, out_rhs))))"

text \<open>\<open>tensor.__getitem__\<close>: a \<open>None\<close> adds an axis, a full slice keeps one, anything else is refused.\<close>

datatype index = INone | IFullSlice | IOther

fun getitem_loop :: "builder \<Rightarrow> int \<Rightarrow> index list \<Rightarrow> tensor \<Rightarrow> tensor B" where
  "getitem_loop b axis [] ret = return ret"
| "getitem_loop b axis (INone # slices) ret =
     bind (expand_dims b ret axis) (getitem_loop b (axis + 1) slices)"
| "getitem_loop b axis (IFullSlice # slices) ret = getitem_loop b (axis + 1) slices ret"
| "getitem_loop b axis (IOther # slices) ret = raise ValueError"

definition getitem :: "builder \<Rightarrow> tensor \<Rightarrow> index list \<Rightarrow> tensor B" where
  "getitem b t slices = getitem_loop b 0 slices t"

definition promote_bfloat16_to_float32 :: "builder \<Rightarrow> tensor \<Rightarrow> tensor B" where
  "promote_bfloat16_to_float32 b t =
     (if scalar (ttype t) = Dt Bf16 then cast b t (Dt Fp32) None else return t)"

text \<open>The index tensor of \<open>_reduce_with_indices\<close>: positions along the reduced axis, in the input's shape.\<close>

definition reduce_indices :: "builder \<Rightarrow> tensor \<Rightarrow> int \<Rightarrow> tensor B" where
  "reduce_indices b input axis =
     (let shape = tensor_shape input; i = (if axis < 0 then axis + int (length shape) else axis) in
      bind (check (0 \<le> i \<and> i < int (length shape)) IndexError) (\<lambda>_.
      bind (arange b (Some 0) (Some (shape ! nat i))) (\<lambda>index.
      if length shape > 1 then
        bind (core_expand_dims b index (PSeq (remove_at (nat i) (map (\<lambda>d. PConst (int d)) [0..<length shape])))) (\<lambda>index.
        broadcast_to b index (map PConst shape))
      else return index)))"

definition reduce_with_indices :: "builder \<Rightarrow> tensor \<Rightarrow> int \<Rightarrow> bool \<Rightarrow> (tensor \<times> tensor) B" where
  "reduce_with_indices b input axis keep_dims =
     bind (reduce_indices b input axis) (\<lambda>index.
     bind (core_reduce b [input, index] (Some axis) keep_dims) (\<lambda>rs.
     return (rs ! 0, rs ! 1)))"

definition core_scan :: "builder \<Rightarrow> tensor list \<Rightarrow> int \<Rightarrow> bool \<Rightarrow> tensor list B" where
  "core_scan b input axis reverse =
     bind (check (input \<noteq> []) IndexError) (\<lambda>_.
     bind (lift_r (wrap_axis axis (int (length (tensor_shape (hd input)))))) (\<lambda>axis.
     associative_scan b input axis reverse))"

end
