(* ===== verification/Semantic_Memory.thy ===== *)
theory Semantic_Memory
  imports Semantic_Shape
begin

text \<open>
  Memory operations of \<open>semantic.py\<close>: the option strings, loads and stores through scalar pointers,
  blocks of pointers and block pointers, TMA descriptors, \<open>make_block_ptr\<close> and \<open>advance\<close>; with the
  user-level \<open>load\<close> and \<open>store\<close> of \<open>core.py\<close>.
\<close>

section \<open>Option strings\<close>

text \<open>The empty string stands for an option that is not given (\<open>None\<close> and \<open>''\<close> are both false).\<close>

definition str_to_load_cache_modifier :: "string \<Rightarrow> cache_modifier result" where
  "str_to_load_cache_modifier cache =
     (if cache = '''' then Inr CACHE_NONE
      else if cache = ''.ca'' then Inr CA
      else if cache = ''.cg'' then Inr CG
      else if cache = ''.cv'' then Inr CV
      else Inl ValueError)"

definition str_to_store_cache_modifier :: "string \<Rightarrow> cache_modifier result" where
  "str_to_store_cache_modifier cache =
     (if cache = '''' then Inr CACHE_NONE
      else if cache = ''.wb'' then Inr WB
      else if cache = ''.cg'' then Inr CG
      else if cache = ''.cs'' then Inr CS
      else if cache = ''.wt'' then Inr WT
      else Inl ValueError)"

definition str_to_eviction_policy :: "string \<Rightarrow> eviction_policy result" where
  "str_to_eviction_policy eviction =
     (if eviction = '''' then Inr EVICT_NORMAL
      else if eviction = ''evict_last'' then Inr EVICT_LAST
      else if eviction = ''evict_first'' then Inr EVICT_FIRST
      else Inl ValueError)"

definition str_to_padding_option :: "string \<Rightarrow> padding_option option result" where
  "str_to_padding_option padding =
     (if padding = '''' then Inr None
      else if padding = ''zero'' then Inr (Some PAD_ZERO)
      else if padding = ''nan'' then Inr (Some PAD_NAN)
      else Inl ValueError)"

definition str_to_sem :: "string \<Rightarrow> mem_semantic result" where
  "str_to_sem sem =
     (if sem = '''' then Inr ACQUIRE_RELEASE
      else if sem = ''acquire'' then Inr ACQUIRE
      else if sem = ''release'' then Inr RELEASE
      else if sem = ''acq_rel'' then Inr ACQUIRE_RELEASE
      else if sem = ''relaxed'' then Inr RELAXED
      else Inl ValueError)"

definition str_to_scope :: "string \<Rightarrow> mem_sync_scope result" where
  "str_to_scope scope =
     (if scope = '''' then Inr SCOPE_GPU
      else if scope = ''gpu'' then Inr SCOPE_GPU
      else if scope = ''cta'' then Inr SCOPE_CTA
      else if scope = ''sys'' then Inr SCOPE_SYSTEM
      else Inl ValueError)"

section \<open>Boundary checks\<close>

text \<open>The \<open>boundary_check\<close> argument: one dimension, or a tuple of them.\<close>

datatype bcheck = BDim int | BDims "int list"

fun bcheck_given :: "bcheck \<Rightarrow> bool" where
  "bcheck_given (BDim d) = (d \<noteq> 0)"
| "bcheck_given (BDims ds) = (ds \<noteq> [])"

definition canonicalize_boundary_check :: "bcheck \<Rightarrow> int list \<Rightarrow> int list result" where
  "canonicalize_boundary_check boundary_check block_shape =
     (if bcheck_given boundary_check then
        let dims = (case boundary_check of BDim d \<Rightarrow> [d] | BDims ds \<Rightarrow> ds) in
        bind_r (check_r (\<forall>dim \<in> set dims. 0 \<le> dim \<and> dim < int (length block_shape)) AssertionError) (\<lambda>_.
        bind_r (check_r (length dims > 0) AssertionError) (\<lambda>_.
        bind_r (check_r (distinct dims) AssertionError) (\<lambda>_.
        Inr (sort dims))))
      else Inr [])"

section \<open>Loads\<close>

definition load_block_pointer ::
  "builder \<Rightarrow> tensor \<Rightarrow> tensor option \<Rightarrow> tensor option \<Rightarrow> bcheck \<Rightarrow> padding_option option \<Rightarrow>
     cache_modifier \<Rightarrow> eviction_policy \<Rightarrow> bool \<Rightarrow> tensor B" where
  "load_block_pointer b ptr msk other boundary_check padding cache eviction is_volatile =
     bind (check (msk = None \<and> other = None) ValueError) (\<lambda>_.
     bind (lift_r (bind_r (element_ty (ttype ptr)) element_ty)) (\<lambda>elt_ty.
     bind (check (elt_ty \<noteq> Dt Int1) AssertionError) (\<lambda>_.
     bind (check (\<not> (is_int elt_ty \<and> padding = Some PAD_NAN)) ValueError) (\<lambda>_.
     bind (lift_r (element_ty (ttype ptr))) (\<lambda>dst_ty.
     bind (lift_r (get_block_shapes dst_ty)) (\<lambda>shape.
     bind (lift_r (canonicalize_boundary_check boundary_check shape)) (\<lambda>dims.
     create_tensor (TensorPointerLoad (handle ptr) dims padding cache eviction is_volatile) dst_ty)))))))"

text \<open>A mask or another optional tensor, brought to the shape of a block of pointers.\<close>

definition broadcast_optional :: "builder \<Rightarrow> ty \<Rightarrow> tensor option \<Rightarrow> tensor option B" where
  "broadcast_optional b ptr_type v =
     (case v of
        None \<Rightarrow> return None
      | Some t \<Rightarrow>
          bind (lift_r (get_block_shapes ptr_type)) (\<lambda>shape.
          bind (broadcast_impl_shape b t shape) (\<lambda>t. return (Some t))))"

definition is_block_opt :: "tensor option \<Rightarrow> bool" where
  "is_block_opt v = (case v of None \<Rightarrow> False | Some t \<Rightarrow> is_block (ttype t))"

text \<open>\<open>int1\<close> values are stored as bytes: a pointer to \<open>int1\<close> is read as a pointer to \<open>int8\<close>.\<close>

definition bool_ptr_as_int8 :: "builder \<Rightarrow> tensor \<Rightarrow> (tensor \<times> ty \<times> bool) B" where
  "bool_ptr_as_int8 b ptr =
     (case scalar (ttype ptr) of
        Ptr elt_ty address_space _ \<Rightarrow>
          if elt_ty = Dt Int1 then
            bind (cast b ptr (Ptr (Dt Int8) address_space False) None) (\<lambda>ptr. return (ptr, Dt Int8, True))
          else return (ptr, elt_ty, False)
      | _ \<Rightarrow> raise AttributeError)"

definition load_legacy ::
  "builder \<Rightarrow> tensor \<Rightarrow> tensor option \<Rightarrow> tensor option \<Rightarrow> bcheck \<Rightarrow> padding_option option \<Rightarrow>
     cache_modifier \<Rightarrow> eviction_policy \<Rightarrow> bool \<Rightarrow> tensor B" where
  "load_legacy b ptr msk other boundary_check padding cache eviction is_volatile =
     bind (check (is_ptr (scalar (ttype ptr))) ValueError) (\<lambda>_.
     bind (check (\<not> (msk = None \<and> other \<noteq> None)) ValueError) (\<lambda>_.
     bind (check (\<not> (padding \<noteq> None \<or> bcheck_given boundary_check)) ValueError) (\<lambda>_.
     bind (check (is_block (ttype ptr) \<or> \<not> is_block_opt msk) ValueError) (\<lambda>_.
     bind (check (is_block (ttype ptr) \<or> \<not> is_block_opt other) ValueError) (\<lambda>_.
     bind (if is_block (ttype ptr) then broadcast_optional b (ttype ptr) msk else return msk) (\<lambda>msk.
     bind (if is_block (ttype ptr) then broadcast_optional b (ttype ptr) other else return other) (\<lambda>other.
     bind (bool_ptr_as_int8 b ptr) (\<lambda>(ptr, elt_ty, is_bool).
     bind (case other of
             None \<Rightarrow> return None
           | Some t \<Rightarrow> bind (cast b t elt_ty None) (\<lambda>t. return (Some t))) (\<lambda>other.
     bind (if is_block (ttype ptr)
           then bind (lift_r (get_block_shapes (ttype ptr))) (\<lambda>shape. lift_r (block_type elt_ty shape))
           else return elt_ty) (\<lambda>dst_ty.
     bind (case msk of
             None \<Rightarrow> create_tensor (Load (handle ptr) cache eviction is_volatile) dst_ty
           | Some m \<Rightarrow>
               create_tensor (MaskedLoad (handle ptr) (handle m) (map_option handle other) cache eviction is_volatile) dst_ty)
       (\<lambda>ret.
     if is_bool then cast b ret (Dt Int1) None else return ret)))))))))))"

fun is_block_pointer :: "ty \<Rightarrow> bool" where
  "is_block_pointer (Ptr e _ _) = is_block e"
| "is_block_pointer _ = False"

definition load ::
  "builder \<Rightarrow> tensor \<Rightarrow> tensor option \<Rightarrow> tensor option \<Rightarrow> bcheck \<Rightarrow> string \<Rightarrow> string \<Rightarrow> string \<Rightarrow> bool \<Rightarrow> tensor B" where
  "load b ptr msk other boundary_check padding_option cache_modifier eviction_policy is_volatile =
     bind (lift_r (str_to_load_cache_modifier cache_modifier)) (\<lambda>cache.
     bind (lift_r (str_to_eviction_policy eviction_policy)) (\<lambda>eviction.
     bind (lift_r (str_to_padding_option padding_option)) (\<lambda>padding.
     if is_block_pointer (ttype ptr) then
       load_block_pointer b ptr msk other boundary_check padding cache eviction is_volatile
     else load_legacy b ptr msk other boundary_check padding cache eviction is_volatile)))"

section \<open>Stores\<close>

definition store_block_pointer ::
  "builder \<Rightarrow> tensor \<Rightarrow> tensor \<Rightarrow> tensor option \<Rightarrow> bcheck \<Rightarrow> cache_modifier \<Rightarrow> eviction_policy \<Rightarrow> unit B" where
  "store_block_pointer b ptr val msk boundary_check cache eviction =
     bind (check (msk = None) ValueError) (\<lambda>_.
     bind (lift_r (bind_r (element_ty (ttype ptr)) get_block_shapes)) (\<lambda>block_shape.
     bind (if \<not> is_block (ttype val) then broadcast_impl_shape b val block_shape else return val) (\<lambda>val.
     bind (check (is_block (ttype val)) AssertionError) (\<lambda>_.
     bind (check (get_block_shapes (ttype val) = Inr block_shape) AssertionError) (\<lambda>_.
     bind (lift_r (bind_r (element_ty (ttype ptr)) element_ty)) (\<lambda>elt_ty.
     bind (check (element_ty (ttype val) = Inr elt_ty) AssertionError) (\<lambda>_.
     bind (check (elt_ty \<noteq> Dt Int1) AssertionError) (\<lambda>_.
     bind (lift_r (canonicalize_boundary_check boundary_check block_shape)) (\<lambda>dims.
     bind (cast b val elt_ty None) (\<lambda>val.
     create_void (TensorPointerStore (handle ptr) (handle val) dims cache eviction)))))))))))"

definition store_legacy ::
  "builder \<Rightarrow> tensor \<Rightarrow> tensor \<Rightarrow> tensor option \<Rightarrow> bcheck \<Rightarrow> cache_modifier \<Rightarrow> eviction_policy \<Rightarrow> unit B" where
  "store_legacy b ptr val msk boundary_check cache eviction =
     bind (check (is_ptr (scalar (ttype ptr))) ValueError) (\<lambda>_.
     bind (check (\<not> bcheck_given boundary_check) ValueError) (\<lambda>_.
     bind (check (is_block (ttype ptr) \<or> \<not> is_block (ttype val)) ValueError) (\<lambda>_.
     bind (check (is_block (ttype ptr) \<or> \<not> is_block_opt msk) ValueError) (\<lambda>_.
     bind (if is_block (ttype ptr)
           then bind (lift_r (get_block_shapes (ttype ptr))) (\<lambda>shape. broadcast_impl_shape b val shape)
           else return val) (\<lambda>val.
     bind (if is_block (ttype ptr) then broadcast_optional b (ttype ptr) msk else return msk) (\<lambda>msk.
     bind (bool_ptr_as_int8 b ptr) (\<lambda>(ptr, elt_ty, _).
     bind (cast b val elt_ty None) (\<lambda>val.
     case msk of
       None \<Rightarrow> create_void (Store (handle ptr) (handle val) cache eviction)
     | Some m \<Rightarrow>
         bind (check (is_bool (scalar (ttype m))) ValueError) (\<lambda>_.
         create_void (MaskedStore (handle ptr) (handle val) (handle m) cache eviction))))))))))"

definition store ::
  "builder \<Rightarrow> tensor \<Rightarrow> tensor \<Rightarrow> tensor option \<Rightarrow> bcheck \<Rightarrow> string \<Rightarrow> string \<Rightarrow> unit B" where
  "store b ptr val msk boundary_check cache_modifier eviction_policy =
     bind (lift_r (str_to_store_cache_modifier cache_modifier)) (\<lambda>cache.
     bind (lift_r (str_to_eviction_policy eviction_policy)) (\<lambda>eviction.
     if is_const (ttype ptr) \<or> is_const (scalar (ttype ptr)) then raise ValueError
     else if is_block_pointer (ttype ptr) then store_block_pointer b ptr val msk boundary_check cache eviction
     else store_legacy b ptr val msk boundary_check cache eviction))"

section \<open>Block pointers and descriptors\<close>

text \<open>An element of the \<open>shape\<close>, \<open>strides\<close> or \<open>offsets\<close> of a block pointer.\<close>

datatype elem = EInt int | ETensor tensor | EOther

fun convert_elem_to_ir_value :: "builder \<Rightarrow> bool \<Rightarrow> elem \<Rightarrow> nat B" where
  "convert_elem_to_ir_value b require_i64 (EInt v) =
     (if require_i64 then
        bind (check (- (2 ^ 63) \<le> v \<and> v < 2 ^ 63) AssertionError) (\<lambda>_. get_value_fn (Dt Int64) (NInt v))
      else
        bind (check (- (2 ^ 31) \<le> v \<and> v < 2 ^ 31) AssertionError) (\<lambda>_. get_value_fn (Dt Int32) (NInt v)))"
| "convert_elem_to_ir_value b require_i64 (ETensor t) =
     bind (check (tensor_numel t = 1) AssertionError) (\<lambda>_.
     bind (check (is_int (tensor_dtype t)) AssertionError) (\<lambda>_.
     if tensor_dtype t \<noteq> Dt Int64 \<and> require_i64 then
       create (CastOp (K_int_cast (is_int_signed (tensor_dtype t))) (handle t) (IRInt 64))
     else if tensor_dtype t \<noteq> Dt Int32 \<and> \<not> require_i64 then raise AssertionError
     else return (handle t)))"
| "convert_elem_to_ir_value b require_i64 EOther = raise AssertionError"

definition convert_to_ir_values :: "builder \<Rightarrow> elem list \<Rightarrow> bool \<Rightarrow> nat list B" where
  "convert_to_ir_values b list_like require_i64 = map_m (convert_elem_to_ir_value b require_i64) list_like"

definition descriptor_load :: "builder \<Rightarrow> tensor \<Rightarrow> elem list \<Rightarrow> string \<Rightarrow> string \<Rightarrow> ty \<Rightarrow> tensor B" where
  "descriptor_load b desc_ptr offsets cache_modifier eviction_policy type =
     bind (convert_to_ir_values b offsets False) (\<lambda>offsets.
     bind (lift_r (to_ir b type)) (\<lambda>r.
     bind (lift_r (str_to_load_cache_modifier cache_modifier)) (\<lambda>cache.
     bind (lift_r (str_to_eviction_policy eviction_policy)) (\<lambda>eviction.
     create_tensor (DescriptorLoad (handle desc_ptr) offsets r cache eviction) type))))"

definition descriptor_store :: "builder \<Rightarrow> tensor \<Rightarrow> tensor \<Rightarrow> elem list \<Rightarrow> unit B" where
  "descriptor_store b desc_ptr value offsets =
     bind (convert_to_ir_values b offsets False) (\<lambda>offsets.
     create_void (DescriptorStore (handle desc_ptr) (handle value) offsets))"

definition tensormap_create ::
  "builder \<Rightarrow> tensor \<Rightarrow> tensor \<Rightarrow> tensor list \<Rightarrow> tensor list \<Rightarrow> tensor list \<Rightarrow> tensor list \<Rightarrow>
     int \<Rightarrow> int \<Rightarrow> int \<Rightarrow> int \<Rightarrow> unit B" where
  "tensormap_create b desc_ptr global_address box_dim global_dim global_stride element_stride
     elem_type interleave_layout swizzle_mode fill_mode =
     bind (check (global_stride = [] \<or> tensor_dtype (hd global_stride) = Dt Int64) AssertionError) (\<lambda>_.
     create_void (TensormapCreate (handle desc_ptr) (handle global_address) (map handle box_dim)
       (map handle global_dim) (map handle global_stride) (map handle element_stride)
       elem_type interleave_layout swizzle_mode fill_mode))"

definition tensormap_fenceproxy_acquire :: "builder \<Rightarrow> tensor \<Rightarrow> unit B" where
  "tensormap_fenceproxy_acquire b desc_ptr = create_void (TensormapFenceproxyAcquire (handle desc_ptr))"

definition make_block_ptr ::
  "builder \<Rightarrow> tensor \<Rightarrow> elem list \<Rightarrow> elem list \<Rightarrow> elem list \<Rightarrow> int list \<Rightarrow> int list \<Rightarrow> tensor B" where
  "make_block_ptr b base shape strides offsets block_shape order =
     bind (convert_to_ir_values b shape True) (\<lambda>shape.
     bind (convert_to_ir_values b strides True) (\<lambda>strides.
     bind (convert_to_ir_values b offsets False) (\<lambda>offsets.
     bind (check (is_ptr (ttype base) \<and> \<not> is_block_pointer (ttype base)) ValueError) (\<lambda>_.
     bind (case ttype base of
             Ptr e address_space _ \<Rightarrow>
               if e = Dt Int1 then cast b base (Ptr (Dt Int8) address_space False) None else return base
           | _ \<Rightarrow> return base) (\<lambda>base.
     bind (check (\<forall>e \<in> set block_shape. - (2 ^ 31) \<le> e \<and> e < 2 ^ 31) AssertionError) (\<lambda>_.
     bind (check (sort order = map int [0..<length order]) AssertionError) (\<lambda>_.
     bind (check (length block_shape = length shape \<and> length block_shape = length strides \<and>
                  length block_shape = length offsets \<and> length block_shape = length order) AssertionError) (\<lambda>_.
     bind (lift_r (element_ty (ttype base))) (\<lambda>elt_ty.
     bind (lift_r (block_type elt_ty block_shape)) (\<lambda>block_ty.
     create_tensor (MakeBlockPtr (handle base) shape strides offsets block_shape order) (Ptr block_ty 1 False)))))))))))"

definition advance :: "builder \<Rightarrow> tensor \<Rightarrow> elem list \<Rightarrow> tensor B" where
  "advance b base offsets =
     bind (convert_to_ir_values b offsets False) (\<lambda>offsets.
     create_tensor (Advance (handle base) offsets) (ttype base))"

section \<open>core.py\<close>

text \<open>An optional argument of a user-level function: \<open>None\<close>, possibly in a \<open>constexpr\<close>, or a value.\<close>

definition optional_to_tensor :: "builder \<Rightarrow> pyval option \<Rightarrow> tensor option B" where
  "optional_to_tensor b v =
     (case v of
        None \<Rightarrow> return None
      | Some x \<Rightarrow>
          bind (to_tensor b (case x of VConstexpr y \<Rightarrow> y | _ \<Rightarrow> x) True) (\<lambda>w.
          bind (lift_r (as_tensor w)) (\<lambda>t. return (Some t))))"

definition core_load ::
  "builder \<Rightarrow> tensor \<Rightarrow> pyval option \<Rightarrow> pyval option \<Rightarrow> bcheck \<Rightarrow> string \<Rightarrow> string \<Rightarrow> string \<Rightarrow> bool \<Rightarrow> tensor B" where
  "core_load b pointer msk other boundary_check padding_option cache_modifier eviction_policy volatile =
     bind (optional_to_tensor b msk) (\<lambda>msk.
     bind (optional_to_tensor b other) (\<lambda>other.
     load b pointer msk other boundary_check padding_option cache_modifier eviction_policy volatile))"

definition experimental_descriptor_load :: "builder \<Rightarrow> tensor \<Rightarrow> elem list \<Rightarrow> int list \<Rightarrow> ty \<Rightarrow> tensor B" where
  "experimental_descriptor_load b desc_pointer offsets shape dtype =
     bind (lift_r (block_type dtype shape)) (\<lambda>type.
     descriptor_load b desc_pointer offsets '''' '''' type)"

definition core_store ::
  "builder \<Rightarrow> tensor \<Rightarrow> pyval \<Rightarrow> pyval option \<Rightarrow> bcheck \<Rightarrow> string \<Rightarrow> string \<Rightarrow> unit B" where
  "core_store b pointer value msk boundary_check cache_modifier eviction_policy =
     bind (to_tensor b value True) (\<lambda>value.
     bind (lift_r (as_tensor value)) (\<lambda>value.
     bind (optional_to_tensor b msk) (\<lambda>msk.
     store b pointer value msk boundary_check cache_modifier eviction_policy)))"

end
