(* ===== verification/Semantic_Arith_Sound.thy ===== *)
theory Semantic_Arith_Sound
  imports Semantic_Arith
begin

text \<open>
  Soundness of the element-wise operations: every operation they emit verifies and the tensors they
  return have the type the Python object says; and the recursive equation of \<open>sub\<close> and \<open>minus\<close>.
\<close>

section \<open>Shared lemmas\<close>

definition number_result :: "tensor \<Rightarrow> bstate \<Rightarrow> bool" where
  "number_result t s \<longleftrightarrow> tensor_ok s t \<and> \<not> is_fp8e4b15 (scalar (ttype t)) \<and>
     (is_int (scalar (ttype t)) \<or> is_floating (scalar (ttype t)))"

definition bool_result :: "tensor \<Rightarrow> bstate \<Rightarrow> bool" where
  "bool_result t s \<longleftrightarrow> tensor_ok s t \<and> scalar (ttype t) = Dt Int1"

lemma arith_postD:
  assumes "arith_post (x, y) s"
  shows "tensor_ok s x" "tensor_ok s y" "ttype y = ttype x" "\<not> is_fp8e4b15 (scalar (ttype x))"
    "is_int (scalar (ttype x)) \<or> is_floating (scalar (ttype x))"
  using assms by (auto simp: arith_post_def)

lemma arith_post_grows: "arith_post p s \<Longrightarrow> grows s s' \<Longrightarrow> arith_post p s'"
  by (auto simp: arith_post_def tensor_ok_grows)

lemma bin_sound:
  assumes "arith_post (x, y) s"
    and "if binop_float k then is_floating (scalar (ttype x)) else is_int (scalar (ttype x))"
  shows "sound (create_tensor (Bin k (handle x) (handle y)) (ttype x)) (has_type (ttype x)) s"
proof -
  note p = arith_postD [OF assms(1)]
  have "op_ok (vtys s) (Bin k (handle x) (handle y))"
    using assms(2) p tensor_okD [OF p(1)] tensor_okD [OF p(2)]
    by (auto simp: op_ok_def ir_elem_of ir_int_of ir_float_of
        simp del: ir_float.simps binop_float.simps split: if_splits)
  then show ?thesis using tensor_okD [OF p(1)] by (intro create_has_type) simp_all
qed

lemma bin_number_sound:
  assumes "arith_post (x, y) s"
    and "if binop_float k then is_floating (scalar (ttype x)) else is_int (scalar (ttype x))"
  shows "sound (create_tensor (Bin k (handle x) (handle y)) (ttype x)) number_result s"
  by (rule sound_conseq [OF bin_sound [OF assms]])
    (use arith_postD [OF assms(1)] in \<open>auto simp: has_type_def number_result_def\<close>)

lemma bool_like_sound:
  assumes "arith_post (x, y) s"
    and "if cmpop_float c then is_floating (scalar (ttype x)) else is_int (scalar (ttype x))"
  shows "sound (bind (lift_r (bool_like x)) (create_tensor (Cmp c (handle x) (handle y)))) bool_result s"
  by (rule sound_conseq [OF cmp_sound [OF assms]]) (auto simp: has_type_def bool_result_def)

lemma binary_arith_sound:
  assumes "operand_ok s lhs" "operand_ok s rhs"
    and "\<And>x y s'. grows s s' \<Longrightarrow> arith_post (x, y) s' \<Longrightarrow> sound (f (x, y)) Q s'"
  shows "sound (bind (binary_op_type_checking_impl b lhs rhs False False True dm) f) Q s"
  by (rule sound_bind [OF binary_sound [OF assms(1,2)]])
    (use assms(3) in \<open>auto simp: binary_post_no_ptr\<close>)

section \<open>Comparisons\<close>

lemma compare_body_sound:
  assumes "arith_post (x, y) s" "cmpop_float cf" "\<not> cmpop_float cs" "\<not> cmpop_float cu"
  shows "sound (let scalar_ty = scalar (ttype x) in
     if is_floating scalar_ty then
       bind (lift_r (bool_like x)) (create_tensor (Cmp cf (handle x) (handle y)))
     else if is_int scalar_ty then
       (if is_int_signed scalar_ty then
          bind (lift_r (bool_like x)) (create_tensor (Cmp cs (handle x) (handle y)))
        else
          bind (lift_r (bool_like x)) (create_tensor (Cmp cu (handle x) (handle y))))
     else raise TypeError) bool_result s"
  unfolding Let_def
  by (intro sound_if sound_raise bool_like_sound [OF assms(1)]) (use assms(2-4) in simp_all)

lemma compare_sound:
  assumes "operand_ok s x" "operand_ok s y"
  shows "sound (greater_than b x y) bool_result s" "sound (greater_equal b x y) bool_result s"
    "sound (less_than b x y) bool_result s" "sound (less_equal b x y) bool_result s"
  unfolding greater_than_def greater_equal_def less_than_def less_equal_def
  by ((rule binary_arith_sound [OF assms], unfold prod.case, rule compare_body_sound; simp)+)

lemma equality_body_sound:
  assumes "arith_post (x, y) s" "cmpop_float cf" "\<not> cmpop_float ci"
  shows "sound (let scalar_ty = scalar (ttype x) in
     if is_floating scalar_ty then
       bind (lift_r (bool_like x)) (create_tensor (Cmp cf (handle x) (handle y)))
     else if is_int scalar_ty then
       bind (lift_r (bool_like x)) (create_tensor (Cmp ci (handle x) (handle y)))
     else raise TypeError) bool_result s"
  unfolding Let_def
  by (intro sound_if sound_raise bool_like_sound [OF assms(1)]) (use assms(2-3) in simp_all)

lemma not_equal_eq: "not_equal b x y = bind (binary_op_type_checking_impl b x y False False True False)
    (\<lambda>(input, other). let scalar_ty = scalar (ttype input) in
     if is_floating scalar_ty then
       bind (lift_r (bool_like input)) (create_tensor (Cmp C_fcmpUNE (handle input) (handle other)))
     else if is_int scalar_ty then
       bind (lift_r (bool_like input)) (create_tensor (Cmp C_icmpNE (handle input) (handle other)))
     else raise TypeError)"
  by (simp add: not_equal_def not_equal_with_def binary_op_type_checking_impl_def)

lemma equality_sound:
  assumes "operand_ok s x" "operand_ok s y"
  shows "sound (equal_op b x y) bool_result s" "sound (not_equal b x y) bool_result s"
  unfolding equal_op_def not_equal_eq
  by ((rule binary_arith_sound [OF assms], unfold prod.case, rule equality_body_sound; simp)+)

section \<open>Bitwise operators\<close>

text \<open>The conversions after the check are no-ops: the operands already agree.\<close>

lemma integer_promote_impl_same: "is_int t \<Longrightarrow> integer_promote_impl t t = Inr t"
  by (simp add: integer_promote_impl_eq)

lemma bitwise_check_sound:
  assumes "operand_ok s x" "operand_ok s y"
  shows "sound (bitwise_op_type_checking_impl b x y) (\<lambda>p s'. arith_post p s' \<and> is_int (scalar (ttype (fst p)))) s"
  unfolding bitwise_op_type_checking_impl_def
proof (rule binary_arith_sound [OF assms])
  fix x y s' assume p: "arith_post (x, y) s'"
  show "sound (case (x, y) of (input, other) \<Rightarrow>
     let input_sca_ty = scalar (ttype input); other_sca_ty = scalar (ttype other) in
     if \<not> is_int input_sca_ty \<or> \<not> is_int other_sca_ty then raise IncompatibleTypeErrorImpl
     else
       bind (lift_r (integer_promote_impl input_sca_ty other_sca_ty)) (\<lambda>ret_sca_ty.
       bind (if ret_sca_ty \<noteq> input_sca_ty then cast b input ret_sca_ty None else return input) (\<lambda>input.
       bind (if ret_sca_ty \<noteq> other_sca_ty then cast b other ret_sca_ty None else return other) (\<lambda>other.
       return (input, other)))))
     (\<lambda>p s'. arith_post p s' \<and> is_int (scalar (ttype (fst p)))) s'"
    using arith_postD [OF p] p
    by (auto simp: Let_def integer_promote_impl_same sound_raise intro!: sound_return)
qed

lemma bitwise_sound:
  assumes "operand_ok s x" "operand_ok s y"
  shows "sound (and_op b x y) number_result s" "sound (or_op b x y) number_result s"
    "sound (xor_op b x y) number_result s" "sound (lshr b x y) number_result s"
    "sound (ashr b x y) number_result s" "sound (shl b x y) number_result s"
  unfolding and_op_def or_op_def xor_op_def lshr_def ashr_def shl_def
  by ((rule sound_bind [OF bitwise_check_sound [OF assms]], clarsimp, rule bin_number_sound; simp)+)

section \<open>Operands of one type keep it\<close>

lemma binary_same_eq:
  assumes "scalar (ttype x) = t" "scalar (ttype y) = t" "is_int t \<or> is_floating t"
  shows "binary_op_type_checking_impl b (VTensor x) (VTensor y) al ar True False =
     bind (cast b x t None) (\<lambda>x. bind (cast b y t None) (\<lambda>y. broadcast_impl_value b x y))"
proof -
  have "\<not> is_ptr t" using assms(3) by (cases t) (simp_all add: dtype_tables)
  then show ?thesis
    using assms by (simp add: binary_op_type_checking_impl_def binary_op_type_checking_impl_with_def
        number_to_tensor_with_def convert_operand_with_def Let_def computation_type_self bind_assoc
        check_ptr_type_impl_def)
qed

lemma binary_same_sound:
  assumes x: "tensor_operand s x" and y: "tensor_operand s y"
    and t: "scalar (ttype x) = t" "scalar (ttype y) = t" "is_int t \<or> is_floating t"
  shows "sound (binary_op_type_checking_impl b (VTensor x) (VTensor y) al ar True False)
     (\<lambda>p s'. arith_post p s' \<and> scalar (ttype (fst p)) = t) s"
proof -
  have ok: "tensor_ok s x" "tensor_ok s y" "\<not> is_fp8e4b15 t" using x y t by (auto simp: tensor_operand_def)
  have cx: "sound (cast b x t None) (has_type (ttype x)) s"
    using cast_sound [OF ok(1) castable_same [OF tensor_okD(3) [OF ok(1)]]] t(1) like_ty_scalar by metis
  have cy: "sound (cast b y t None) (has_type (ttype y)) s'" if "grows s s'" for s'
    using cast_sound [OF tensor_ok_grows [OF ok(2) that] castable_same [OF tensor_okD(3) [OF ok(2)]]] t(2)
      like_ty_scalar by metis
  show ?thesis unfolding binary_same_eq [OF t]
  proof (rule sound_bind [OF cx], rule sound_bind [OF cy], assumption)
    fix x1 s1 y1 s2
    assume "grows s1 s2" "has_type (ttype x) x1 s1" "has_type (ttype y) y1 s2"
    then have "tensor_ok s2 x1" "tensor_ok s2 y1" "ttype x1 = ttype x" "ttype y1 = ttype y"
      by (auto simp: has_type_def tensor_ok_grows)
    then show "sound (broadcast_impl_value b x1 y1) (\<lambda>p s'. arith_post p s' \<and> scalar (ttype (fst p)) = t) s2"
      using t ok(3) same_shape_eq
      by (intro sound_conseq [OF broadcast_impl_value_sound]) (auto simp: broadcast_post_def arith_post_def)
  qed
qed

lemma and_bool_sound:
  assumes "bool_result x s" "bool_result y s"
  shows "sound (and_op b (VTensor x) (VTensor y)) bool_result s"
proof -
  have "sound (bitwise_op_type_checking_impl b (VTensor x) (VTensor y))
      (\<lambda>p s'. arith_post p s' \<and> scalar (ttype (fst p)) = Dt Int1) s"
    unfolding bitwise_op_type_checking_impl_def
    apply (rule sound_bind [OF binary_same_sound [where t = "Dt Int1"]])
    using assms by (auto simp: bool_result_def tensor_operand_def is_fp8e4b15_def dtype_tables Let_def
        integer_promote_impl_def arith_post_def intro!: sound_return)
  then show ?thesis unfolding and_op_def
    by (rule sound_bind, clarsimp, intro sound_conseq [OF bin_sound])
      (auto simp: bool_result_def has_type_def dtype_tables)
qed

section \<open>The overflow sanitizer\<close>

lemma int64_sound: "sound (get_value_fn (Dt Int64) n) (\<lambda>h s'. tensor_operand s' \<lparr>handle = h, ttype = Dt Int64\<rparr>) s"
  by (rule sound_conseq [OF get_value_fn_sound]) (auto simp: has_type_def tensor_operand_def is_fp8e4b15_def)

lemma device_assert_sound:
  "bool_result c s \<Longrightarrow> sound (device_assert b c msg) (\<lambda>_ _. True) s"
  unfolding device_assert_def
  by (intro sound_if sound_return create_void_sound)
    (auto simp: op_ok_def bool_result_def tensor_ok_def ir_elem_of)

lemma castable_int: "is_int (scalar t) \<Longrightarrow> \<not> is_block u \<Longrightarrow> is_int u \<Longrightarrow> castable t u"
  using int_not_floating [of "scalar t"] int_not_floating [of u]
  by (cases "scalar t"; cases u) (auto simp: castable_def Let_def dtype_tables)

text \<open>A check may run on two values of one integer type.\<close>

definition int_check_sound :: "int_check \<Rightarrow> bool" where
  "int_check_sound c \<longleftrightarrow>
     (\<forall>x y s. arith_post (x, y) s \<longrightarrow> is_int (scalar (ttype x)) \<longrightarrow> sound (c x y) (\<lambda>_ _. True) s)"

lemma no_check_sound: "int_check_sound no_check"
  by (simp add: int_check_sound_def no_check_def sound_return)

lemma tensor_operand_int: "tensor_ok s t \<Longrightarrow> is_int (scalar (ttype t)) \<Longrightarrow> tensor_operand s t"
  using int_not_floating [of "scalar (ttype t)"] is_fp8_floating [of "scalar (ttype t)"] wf_scalar [of "ttype t"]
  by (cases "scalar (ttype t)") (auto simp: tensor_operand_def tensor_ok_def is_fp8e4b15_def dtype_tables)

lemma operand_ok_tensor [simp]: "operand_ok s (VTensor t) = tensor_operand s t"
  by (simp add: operand_ok_def)

lemma sanitize_sound:
  assumes op: "\<And>x y s. tensor_operand s x \<Longrightarrow> tensor_operand s y \<Longrightarrow> scalar (ttype x) = Dt Int64 \<Longrightarrow>
      scalar (ttype y) = Dt Int64 \<Longrightarrow> sound (op x y) (\<lambda>t s'. tensor_operand s' t) s"
  shows "int_check_sound (binary_op_sanitize_overflow_impl b op name)"
  unfolding int_check_sound_def
proof (intro allI impI)
  fix x y s assume p: "arith_post (x, y) s" and i: "is_int (scalar (ttype x))"
  note ok = arith_postD [OF p]
  have c: "castable (ttype x) (Dt Int64)" by (rule castable_int) (simp_all add: i, simp add: dtype_tables)
  have i64: "is_int (Dt Int64)" by (simp add: dtype_tables)
  have cast: "sound (cast b z (Dt Int64) None) (\<lambda>w s'. tensor_operand s' w \<and> scalar (ttype w) = Dt Int64) s'"
    if "tensor_ok s' z" "ttype z = ttype x" for z s'
    by (rule sound_conseq [OF cast_sound]) (use that c i64 tensor_operand_int in \<open>auto simp: has_type_def\<close>)
  show "sound (binary_op_sanitize_overflow_impl b op name x y) (\<lambda>_ _. True) s"
    unfolding binary_op_sanitize_overflow_impl_def Let_def
    apply (intro sound_lift_r_bind sound_if sound_return TrueI sound_check_bind)
    apply (rule sound_bind [OF cast [OF ok(1) refl]])
    apply (rule sound_bind [OF cast [OF tensor_ok_grows [OF ok(2)] ok(3)]], assumption)
    apply (rule sound_bind [OF op])
        apply (auto simp: tensor_operand_grows)[4]
    apply (intro sound_lift_r_bind)
    apply (rule sound_bind [OF int64_sound])
    apply (intro sound_lift_r_bind)
    apply (rule sound_bind [OF int64_sound])
    apply (rule sound_bind [OF compare_sound(4)])
      apply (simp add: tensor_operand_grows, meson tensor_operand_grows grows_trans)
     apply (simp add: tensor_operand_grows)
    apply (rule sound_bind [OF compare_sound(2)])
      apply (simp, meson tensor_operand_grows grows_trans)
     apply (simp add: tensor_operand_grows)
    apply (rule sound_bind [OF and_bool_sound])
      apply (simp add: bool_result_def, meson tensor_ok_grows grows_trans)
     apply assumption
    apply (rule device_assert_sound, assumption)
    done
qed

section \<open>Arithmetic\<close>

definition arith_result :: "tensor \<Rightarrow> bstate \<Rightarrow> bool" where
  "arith_result t s \<longleftrightarrow> tensor_ok s t \<and> (is_ptr (scalar (ttype t)) \<or> number_result t s)"

lemma int_bin_checked_sound:
  assumes p: "arith_post (x, y) s" and "is_int (scalar (ttype x))" "int_check_sound c" "\<not> binop_float k"
  shows "sound (bind (c x y) (\<lambda>_. create_tensor (Bin k (handle x) (handle y)) (ttype x))) number_result s"
proof (rule sound_bind)
  show "sound (c x y) (\<lambda>_ _. True) s" using assms by (auto simp: int_check_sound_def)
  show "sound (create_tensor (Bin k (handle x) (handle y)) (ttype x)) number_result s'" if "grows s s'" for s'
    by (rule bin_number_sound [OF arith_post_grows [OF p that]]) (use assms(2,4) in simp)
qed

lemma addptr_sound:
  assumes "tensor_ok s p" "tensor_ok s i" "same_shape (ttype p) (ttype i) \<or> same_shape (ttype i) (ttype p)"
    and "is_ptr (scalar (ttype p))" "\<not> is_ptr (scalar (ttype i))" "\<not> is_floating (scalar (ttype i))"
  shows "sound (create_tensor (AddPtr (handle p) (handle i)) (ttype p)) (has_type (ttype p)) s"
proof -
  have wf: "wf_ty (ttype p)" "wf_ty (ttype i)" using assms(1,2) by (simp_all add: tensor_ok_def)
  obtain d where d: "scalar (ttype i) = Dt d" "d \<noteq> Void"
    using wf_scalar [OF wf(2)] assms(5) by (cases "scalar (ttype i)") auto
  then have "is_int (scalar (ttype i))" using assms(6) by (cases d) (simp_all add: dtype_tables)
  moreover have "same_ir_shape (ir_of (ttype p)) (ir_of (ttype i))"
    using assms(3) same_ir_shape_like_ty wf_scalar [OF wf(1)] wf_scalar [OF wf(2)]
    by (metis same_ir_shape_def same_shape_def)
  ultimately have "op_ok (vtys s) (AddPtr (handle p) (handle i))"
    using assms(1,2,4) wf tensor_okD by (simp add: op_ok_def ir_elem_of ir_int_of ir_ptr_of)
  then show ?thesis using tensor_okD [OF assms(1)] by (intro create_has_type) simp_all
qed

lemma arith_resultI: "number_result t s \<Longrightarrow> arith_result t s"
  by (simp add: arith_result_def number_result_def)

lemma arith_post_no_ptr: "arith_post (x, y) s \<Longrightarrow> \<not> is_ptr (scalar (ttype x)) \<and> \<not> is_ptr (scalar (ttype y))"
  using arith_postD(3,5) [of x y s] by (cases "scalar (ttype x)") (auto simp: dtype_tables)

lemma add_impl_sound:
  assumes c: "int_check_sound c" and "operand_ok s x" "operand_ok s y"
  shows "sound (add_impl b c x y) arith_result s"
  unfolding add_impl_def
proof (rule sound_bind [OF binary_sound [OF assms(2,3)]], unfold split_paired_all prod.case)
  fix l r s'
  assume post: "binary_post True True (l, r) s'"
  show "sound (if is_ptr (scalar (ttype l)) \<and> is_ptr (scalar (ttype r)) then raise TypeError
     else
       let (input, other) = if is_ptr (scalar (ttype r)) \<and> \<not> is_ptr (scalar (ttype l)) then (r, l) else (l, r) in
       let input_scalar_ty = scalar (ttype input) in
       if is_ptr input_scalar_ty then create_tensor (AddPtr (handle input) (handle other)) (ttype input)
       else if is_floating input_scalar_ty then create_tensor (Bin B_fadd (handle input) (handle other)) (ttype input)
       else if is_int input_scalar_ty then
         bind (c input other) (\<lambda>_. create_tensor (Bin B_add (handle input) (handle other)) (ttype input))
       else raise TypeError) arith_result s'"
  proof (cases "is_ptr (scalar (ttype l)) \<or> is_ptr (scalar (ttype r))")
    case True
    then have pp: "ptr_post True True (l, r) s'"
      using post arith_post_no_ptr [of l r s'] by (auto simp: binary_post_def)
    have "sound (create_tensor (AddPtr (handle p) (handle i)) (ttype p)) arith_result s'"
      if "is_ptr (scalar (ttype p))" "\<not> is_ptr (scalar (ttype i))" "(p, i) = (l, r) \<or> (p, i) = (r, l)" for p i
      by (rule sound_conseq [OF addptr_sound])
        (use that pp in \<open>auto simp: ptr_post_def Let_def has_type_def arith_result_def\<close>)
    then show ?thesis using True by (auto intro: sound_raise)
  next
    case False
    then have p: "arith_post (l, r) s'" using post by (auto simp: binary_post_def ptr_post_def Let_def)
    have "sound (create_tensor (Bin B_fadd (handle l) (handle r)) (ttype l)) arith_result s'"
      if "is_floating (scalar (ttype l))"
      by (rule sound_conseq [OF bin_number_sound [OF p]]) (use that in \<open>auto intro: arith_resultI\<close>)
    moreover have "sound (bind (c l r) (\<lambda>_. create_tensor (Bin B_add (handle l) (handle r)) (ttype l))) arith_result s'"
      if "is_int (scalar (ttype l))"
      by (rule sound_conseq [OF int_bin_checked_sound [OF p that c]]) (auto intro: arith_resultI)
    ultimately show ?thesis using False by (auto simp: Let_def intro: sound_raise)
  qed
qed

text \<open>Of two 64-bit integer tensors the result is such a tensor: the operation the sanitizer repeats.\<close>

definition int64_result :: "tensor \<Rightarrow> bstate \<Rightarrow> bool" where
  "int64_result t s \<longleftrightarrow> tensor_ok s t \<and> scalar (ttype t) = Dt Int64"

lemma int64_result_operand: "int64_result t s \<Longrightarrow> tensor_operand s t"
  by (auto simp: int64_result_def dtype_tables intro!: tensor_operand_int)

lemma binary_int64_sound:
  assumes "tensor_operand s x" "tensor_operand s y" "scalar (ttype x) = Dt Int64" "scalar (ttype y) = Dt Int64"
  shows "sound (binary_op_type_checking_impl b (VTensor x) (VTensor y) al ar True False)
     (\<lambda>p s'. arith_post p s' \<and> scalar (ttype (fst p)) = Dt Int64) s"
  by (rule binary_same_sound [OF assms]) (simp add: dtype_tables)

lemma bin_int64_sound:
  assumes "arith_post (x, y) s" "scalar (ttype x) = Dt Int64" "\<not> binop_float k"
  shows "sound (create_tensor (Bin k (handle x) (handle y)) (ttype x)) (\<lambda>t s'. tensor_operand s' t) s"
  by (rule sound_conseq [OF bin_sound [OF assms(1)]])
    (use assms(2,3) in \<open>auto simp: has_type_def int64_result_def dtype_tables intro!: int64_result_operand\<close>)

lemma scalar_Int64 [simp]:
  "\<not> is_floating (Dt Int64)" "is_int (Dt Int64)"
  by (simp_all add: dtype_tables)

lemma op_no_check_sound:
  assumes "tensor_operand s x" "tensor_operand s y" "scalar (ttype x) = Dt Int64" "scalar (ttype y) = Dt Int64"
  shows "sound (add_impl b no_check (VTensor x) (VTensor y)) (\<lambda>t s'. tensor_operand s' t) s"
    and "sound (sub_impl b m no_check (VTensor x) (VTensor y)) (\<lambda>t s'. tensor_operand s' t) s"
    and "sound (mul_impl b no_check (VTensor x) (VTensor y)) (\<lambda>t s'. tensor_operand s' t) s"
  unfolding add_impl_def sub_impl_def mul_impl_def no_check_def bind_return
  by (rule sound_bind [OF binary_int64_sound [OF assms]],
      unfold split_paired_all prod.case fst_conv, elim conjE, frule arith_post_no_ptr,
      simp add: Let_def, rule bin_int64_sound, assumption+, simp)+

theorem add_sound:
  assumes "operand_ok s x" "operand_ok s y"
  shows "sound (add b x y sanitize) arith_result s"
  unfolding add_def using sanitize_sound [OF op_no_check_sound(1)] no_check_sound
  by (intro add_impl_sound assms) auto

lemma mul_impl_sound:
  assumes c: "int_check_sound c" and "operand_ok s x" "operand_ok s y"
  shows "sound (mul_impl b c x y) number_result s"
  unfolding mul_impl_def
  by (rule binary_arith_sound [OF assms(2,3)], unfold prod.case Let_def,
      intro sound_if sound_raise bin_number_sound int_bin_checked_sound c) simp_all

theorem mul_sound:
  assumes "operand_ok s x" "operand_ok s y"
  shows "sound (mul b x y sanitize) number_result s"
  unfolding mul_def using sanitize_sound [OF op_no_check_sound(3)] no_check_sound
  by (intro mul_impl_sound assms) auto

section \<open>Subtraction and negation\<close>

lemma is_int_scalar: "is_int t \<Longrightarrow> scalar t = t"
  using number_not_block by simp

lemma broadcast_scalar_left_sound:
  assumes x: "tensor_ok s x" and y: "tensor_ok s y" and t: "ttype x = scalar (ttype y)"
  shows "sound (broadcast_impl_value b x y) (\<lambda>p s'. has_type (ttype y) (fst p) s' \<and> has_type (ttype y) (snd p) s') s"
proof (cases "ttype y")
  case (Block e sh)
  have e: "ttype x = e" "\<not> is_block e" "wf_ty e"
    using Block t tensor_okD(3) [OF y] by auto
  have "sound (create_tensor (Splat (handle x) sh) u) (has_type (Block e sh)) s" if "block_type e sh = Inr u" for u
    using x e that by (auto intro!: create_has_type simp: block_type_eq_Inr_iff op_ok_def tensor_ok_def)
  then have "sound (bind (create_tensor (Splat (handle x) sh) u) (\<lambda>r. return (r, y)))
      (\<lambda>p s'. has_type (Block e sh) (fst p) s' \<and> has_type (Block e sh) (snd p) s') s" if "block_type e sh = Inr u" for u
    by (rule sound_bind [OF _ sound_return]) (use that y Block tensor_ok_grows in \<open>auto simp: has_type_def\<close>)
  then show ?thesis using Block e by (auto simp: broadcast_impl_value_def intro!: sound_lift_r_bind)
qed (use x y t in \<open>auto simp: broadcast_impl_value_def has_type_def intro!: sound_return\<close>)

lemma binary_scalar_left_sound:
  assumes x: "tensor_operand s x" and y: "tensor_operand s y"
    and t: "ttype x = scalar (ttype y)" "is_int (ttype x) \<or> is_floating (ttype x)"
  shows "sound (binary_op_type_checking_impl b (VTensor x) (VTensor y) al ar True False)
     (\<lambda>p s'. arith_post p s' \<and> ttype (fst p) = ttype y) s"
proof -
  let ?t = "ttype x"
  have sc: "scalar ?t = ?t" "scalar (ttype y) = ?t" using t number_not_block [OF t(2)] by simp_all
  have ok: "tensor_ok s x" "tensor_ok s y" "\<not> is_fp8e4b15 ?t" using x y sc by (auto simp: tensor_operand_def)
  have cx: "sound (cast b x ?t None) (has_type ?t) s"
    using cast_sound [OF ok(1) castable_same [OF tensor_okD(3) [OF ok(1)]]] sc like_ty_scalar by metis
  have cy: "sound (cast b y ?t None) (has_type (ttype y)) s'" if "grows s s'" for s'
    using cast_sound [OF tensor_ok_grows [OF ok(2) that] castable_same [OF tensor_okD(3) [OF ok(2)]]] sc
      like_ty_scalar by metis
  show ?thesis unfolding binary_same_eq [OF sc t(2)]
  proof (rule sound_bind [OF cx], rule sound_bind [OF cy], assumption)
    fix x1 s1 y1 s2
    assume "grows s1 s2" "has_type ?t x1 s1" "has_type (ttype y) y1 s2"
    then have "tensor_ok s2 x1" "tensor_ok s2 y1" "ttype x1 = scalar (ttype y1)" "ttype y1 = ttype y"
      using sc by (auto simp: has_type_def tensor_ok_grows)
    then show "sound (broadcast_impl_value b x1 y1) (\<lambda>p s'. arith_post p s' \<and> ttype (fst p) = ttype y) s2"
      using t(2) sc ok(3)
      by (intro sound_conseq [OF broadcast_scalar_left_sound]) (auto simp: arith_post_def has_type_def)
  qed
qed

text \<open>The check \<open>sub\<close> runs on integer operands.\<close>

definition sub_check :: "builder \<Rightarrow> (tensor \<Rightarrow> tensor B) \<Rightarrow> bool \<Rightarrow> int_check" where
  "sub_check b m sanitize = (if sanitize
     then binary_op_sanitize_overflow_impl b (\<lambda>l r. sub_impl b m no_check (VTensor l) (VTensor r)) ''sub''
     else no_check)"

lemma sub_with_eq: "sub_with b m x y sanitize = sub_impl b m (sub_check b m sanitize) x y"
  by (simp add: sub_with_def sub_check_def)

lemma sub_check_sound: "int_check_sound (sub_check b m sanitize)"
  using sanitize_sound [OF op_no_check_sound(2)] no_check_sound by (auto simp: sub_check_def)

lemma sub_zero_sound:
  assumes "tensor_operand s z" "tensor_operand s y" "ttype z = scalar (ttype y)" "is_int (ttype z)"
  shows "sound (sub_with b m (VTensor z) (VTensor y) sanitize) (has_type (ttype y)) s"
  unfolding sub_with_eq sub_impl_def
proof (rule sound_bind [OF binary_scalar_left_sound [OF assms(1-3)]], simp add: assms(4),
    unfold split_paired_all prod.case fst_conv, elim conjE)
  fix l r s' assume p: "arith_post (l, r) s'" and l: "ttype l = ttype y"
  have i: "is_int (scalar (ttype l))" using assms(3,4) l by simp
  have "\<not> is_ptr (scalar (ttype l))" using arith_post_no_ptr [OF p] by simp
  moreover have "\<not> is_floating (scalar (ttype l))" using int_not_floating [OF i] .
  moreover have "sound (bind (sub_check b m sanitize l r) (\<lambda>_. create_tensor (Bin B_sub (handle l) (handle r)) (ttype l)))
      (has_type (ttype y)) s'"
  proof (rule sound_bind)
    show "sound (sub_check b m sanitize l r) (\<lambda>_ _. True) s'"
      using sub_check_sound p i by (auto simp: int_check_sound_def)
    show "sound (create_tensor (Bin B_sub (handle l) (handle r)) (ttype l)) (has_type (ttype y)) s2" if "grows s' s2" for s2
      using bin_sound [OF arith_post_grows [OF p that], of B_sub] i l by simp
  qed
  ultimately show "sound (let scalar_ty = scalar (ttype l) in
     if is_ptr scalar_ty then
       bind (m r) (\<lambda>neg. create_tensor (AddPtr (handle l) (handle neg)) (ttype l))
     else if is_floating scalar_ty then create_tensor (Bin B_fsub (handle l) (handle r)) (ttype l)
     else if is_int scalar_ty then
       bind (sub_check b m sanitize l r) (\<lambda>_. create_tensor (Bin B_sub (handle l) (handle r)) (ttype l))
     else raise TypeError) (has_type (ttype y)) s'"
    using i by (simp add: Let_def)
qed

definition minus_sound_fn :: "(tensor \<Rightarrow> tensor B) \<Rightarrow> bool" where
  "minus_sound_fn m \<longleftrightarrow>
     (\<forall>x s. tensor_ok s x \<longrightarrow> is_int (scalar (ttype x)) \<longrightarrow> sound (m x) (has_type (ttype x)) s)"

lemma minus_with_sound: "minus_sound_fn (minus_with b (sub_depth n b))"
  unfolding minus_sound_fn_def minus_with_def Let_def
proof (intro allI impI sound_if sound_raise)
  fix x s assume x: "tensor_ok s x" and i: "is_int (scalar (ttype x))"
  show "sound (bind (null_tensor b (scalar (ttype x))) (\<lambda>zero. sub_depth n b (VTensor zero) (VTensor x) True)) (has_type (ttype x)) s"
  proof (rule sound_bind [OF null_tensor_sound])
    fix z s' assume g: "grows s s'" and z: "has_type (scalar (ttype x)) z s'"
    have "tensor_operand s' x" "tensor_operand s' z"
      using z i tensor_ok_grows [OF x g] by (auto simp: has_type_def is_int_scalar intro!: tensor_operand_int)
    then show "sound (sub_depth n b (VTensor z) (VTensor x) True) (has_type (ttype x)) s'"
      using z i by (cases n) (auto simp: has_type_def is_int_scalar intro: sound_raise sub_zero_sound)
  qed
qed

lemma sub_impl_sound:
  assumes m: "minus_sound_fn m" and c: "int_check_sound c" and "operand_ok s x" "operand_ok s y"
  shows "sound (sub_impl b m c x y) arith_result s"
  unfolding sub_impl_def
proof (rule sound_bind [OF binary_sound [OF assms(3,4)]], unfold split_paired_all prod.case)
  fix l r s'
  assume post: "binary_post True False (l, r) s'"
  show "sound (let scalar_ty = scalar (ttype l) in
     if is_ptr scalar_ty then
       bind (m r) (\<lambda>neg. create_tensor (AddPtr (handle l) (handle neg)) (ttype l))
     else if is_floating scalar_ty then create_tensor (Bin B_fsub (handle l) (handle r)) (ttype l)
     else if is_int scalar_ty then
       bind (c l r) (\<lambda>_. create_tensor (Bin B_sub (handle l) (handle r)) (ttype l))
     else raise TypeError) arith_result s'"
  proof (cases "is_ptr (scalar (ttype l)) \<or> is_ptr (scalar (ttype r))")
    case True
    then have pp: "ptr_post True False (l, r) s'"
      using post arith_post_no_ptr [of l r s'] by (auto simp: binary_post_def)
    then have ok: "tensor_ok s' l" "tensor_ok s' r" "same_shape (ttype l) (ttype r)" "is_ptr (scalar (ttype l))"
        "\<not> is_ptr (scalar (ttype r))" "\<not> is_floating (scalar (ttype r))"
      by (auto simp: ptr_post_def Let_def)
    obtain d where d: "scalar (ttype r) = Dt d" "d \<noteq> Void"
      using wf_scalar [OF tensor_okD(3) [OF ok(2)]] ok(5) by (cases "scalar (ttype r)") auto
    then have i: "is_int (scalar (ttype r))" using ok(6) by (cases d) (simp_all add: dtype_tables)
    then have "sound (m r) (has_type (ttype r)) s'" using m ok(2) by (simp add: minus_sound_fn_def)
    then have "sound (bind (m r) (\<lambda>neg. create_tensor (AddPtr (handle l) (handle neg)) (ttype l))) arith_result s'"
    proof (rule sound_bind)
      fix neg s2 assume g: "grows s' s2" and n: "has_type (ttype r) neg s2"
      show "sound (create_tensor (AddPtr (handle l) (handle neg)) (ttype l)) arith_result s2"
        by (rule sound_conseq [OF addptr_sound])
          (use n g ok tensor_ok_grows in \<open>auto simp: has_type_def arith_result_def\<close>)
    qed
    then show ?thesis using ok(4) by (simp add: Let_def)
  next
    case False
    then have p: "arith_post (l, r) s'" using post by (auto simp: binary_post_def ptr_post_def Let_def)
    have "sound (create_tensor (Bin B_fsub (handle l) (handle r)) (ttype l)) arith_result s'"
      if "is_floating (scalar (ttype l))"
      by (rule sound_conseq [OF bin_number_sound [OF p]]) (use that in \<open>auto intro: arith_resultI\<close>)
    moreover have "sound (bind (c l r) (\<lambda>_. create_tensor (Bin B_sub (handle l) (handle r)) (ttype l))) arith_result s'"
      if "is_int (scalar (ttype l))"
      by (rule sound_conseq [OF int_bin_checked_sound [OF p that c]]) (auto intro: arith_resultI)
    ultimately show ?thesis using False by (auto simp: Let_def intro: sound_raise)
  qed
qed

lemma sub_sound:
  assumes "operand_ok s x" "operand_ok s y"
  shows "sound (sub b x y sanitize) arith_result s"
  unfolding sub_def numeral_2_eq_2 sub_depth.simps(2) sub_with_eq
  using minus_with_sound [of b "Suc 0"] assms
  by (intro sub_impl_sound sub_check_sound) (auto simp: sub_with_eq [abs_def])

text \<open>\<open>sub\<close> and \<open>minus\<close> satisfy the recursive equations of the source.\<close>

lemma prepend_axes_type:
  "prepend_axes b n x s = Inr (y, s') \<Longrightarrow> scalar (ttype y) = scalar (ttype x)"
  by (induction n arbitrary: x s)
    (auto simp: return_apply bind_apply_Inr_iff lift_r_def block_type_eq_Inr_iff dest!: create_tensor_type
      split: sum.splits)

lemma broadcast_to_shape_type:
  "broadcast_to_shape b x sh s = Inr (y, s') \<Longrightarrow> scalar (ttype y) = scalar (ttype x)"
  by (auto simp: broadcast_to_shape_def return_apply bind_apply_Inr_iff lift_r_def block_type_eq_Inr_iff
      dest!: create_tensor_type split: sum.splits if_splits)

lemma bind_lift_Inr: "bind (lift_r r) f s = Inr z \<Longrightarrow> \<exists>x. r = Inr x \<and> f x s = Inr z"
  by (cases r) (auto simp: m_defs)

lemma bind_check_Inr: "bind (check c e) f s = Inr z \<Longrightarrow> c \<and> f () s = Inr z"
  by (cases c) (auto simp: m_defs)

lemma bind_Inr: "bind m f s = Inr z \<Longrightarrow> \<exists>x s'. m s = Inr (x, s') \<and> f x s' = Inr z"
  by (cases z) (auto simp: bind_apply_Inr_iff)

lemma broadcast_type:
  assumes "broadcast_impl_value b x y s = Inr ((l, r), s')"
  shows "scalar (ttype l) = scalar (ttype x)"
proof -
  have pre: "scalar (ttype x') = scalar (ttype x)"
    if "(if c then prepend_axes b n x else return x) s = Inr (x', s')" for c n x' s s'
    using that by (auto simp: return_apply dest: prepend_axes_type split: if_splits)
  show ?thesis using assms unfolding broadcast_impl_value_def
    apply (simp split: if_splits)
    subgoal by (auto dest!: bind_lift_Inr bind_Inr simp: return_apply)
    subgoal
      apply (drule bind_lift_Inr, elim exE conjE)
      apply (drule bind_lift_Inr, elim exE conjE)
      apply (drule bind_Inr, elim exE conjE)
      by (auto dest!: bind_lift_Inr bind_Inr create_tensor_type simp: return_apply block_type_eq_Inr_iff)
    subgoal
      apply (drule bind_lift_Inr, elim exE conjE)
      apply (drule bind_lift_Inr, elim exE conjE)
      apply (drule bind_Inr, elim exE conjE, drule pre)
      apply (drule bind_Inr, elim exE conjE)
      apply (drule bind_lift_Inr, elim exE conjE)
      apply (drule bind_lift_Inr, elim exE conjE)
      apply (drule bind_check_Inr, elim exE conjE)
      apply (drule bind_lift_Inr, elim exE conjE)
      apply (drule bind_Inr, elim exE conjE, drule broadcast_to_shape_type)
      apply (drule bind_Inr, elim exE conjE)
      by (simp add: return_apply)
    subgoal by (simp add: return_apply)
    done
qed

lemma sub_impl_same:
  assumes "scalar (ttype x) = t" "scalar (ttype y) = t" "is_int t \<or> is_floating t"
    and c: "\<And>l r s. is_int t \<Longrightarrow> scalar (ttype l) = t \<Longrightarrow> c l r s = c' l r s"
  shows "sub_impl b m c (VTensor x) (VTensor y) s = sub_impl b m' c' (VTensor x) (VTensor y) s"
proof -
  have nb: "\<not> is_block t" "\<not> is_ptr t"
    using number_not_block assms(3) by (simp, cases t) (auto simp: dtype_tables)
  have eq: "binary_op_type_checking_impl b (VTensor x) (VTensor y) True False True False =
      bind (lift_r (lift_dst_type (ttype x) t)) (\<lambda>_. bind (lift_r (lift_dst_type (ttype y) t)) (\<lambda>_. broadcast_impl_value b x y))"
    unfolding binary_same_eq [OF assms(1-3)]
    by (subst (1 2) cast_unfold) (simp add: cast_step_same assms(1,2) nb(1) bind_assoc)
  show ?thesis unfolding sub_impl_def
  proof (rule fun_cong [where x = s], rule bind_cong_run [OF refl], unfold split_paired_all prod.case)
    fix s l r s'
    assume "binary_op_type_checking_impl b (VTensor x) (VTensor y) True False True False s = Inr ((l, r), s')"
    then have l: "scalar (ttype l) = t"
      unfolding eq using assms(1) by (auto dest!: bind_lift_Inr dest: broadcast_type)
    have "bind (c l r) k = bind (c' l r) k" if "is_int t" for k :: "unit \<Rightarrow> tensor B"
      by (rule bind_cong_run) (simp_all add: c [OF that] l)
    then show "(let scalar_ty = scalar (ttype l) in
       if is_ptr scalar_ty then
         bind (m r) (\<lambda>neg. create_tensor (AddPtr (handle l) (handle neg)) (ttype l))
       else if is_floating scalar_ty then create_tensor (Bin B_fsub (handle l) (handle r)) (ttype l)
       else if is_int scalar_ty then
         bind (c l r) (\<lambda>_. create_tensor (Bin B_sub (handle l) (handle r)) (ttype l))
       else raise TypeError) s' =
      (let scalar_ty = scalar (ttype l) in
       if is_ptr scalar_ty then
         bind (m' r) (\<lambda>neg. create_tensor (AddPtr (handle l) (handle neg)) (ttype l))
       else if is_floating scalar_ty then create_tensor (Bin B_fsub (handle l) (handle r)) (ttype l)
       else if is_int scalar_ty then
         bind (c' l r) (\<lambda>_. create_tensor (Bin B_sub (handle l) (handle r)) (ttype l))
       else raise TypeError) s'"
      by (cases "is_int t"; simp only: Let_def l nb if_False if_True)
  qed
qed

lemma cast_int64_type:
  assumes "is_int (scalar (ttype x))" "cast b x (Dt Int64) None s = Inr (y, s')"
  shows "scalar (ttype y) = Dt Int64"
proof -
  have run: "cast_step b (cast b) x (Dt Int64) None s = Inr (y, s')"
    using assms(2) by (simp only: cast_unfold [symmetric])
  have "scalar t = Dt Int64" if "lift_dst_type (ttype x) (Dt Int64) = Inr t" for t
    using scalar_lift_dst_type [OF that] by simp
  moreover have "\<not> is_fp16 (scalar (ttype x))" "\<not> is_bf16 (scalar (ttype x))" "\<not> is_fp8e4b15 (scalar (ttype x))"
      "\<not> is_floating (scalar (ttype x))" "\<not> is_ptr (scalar (ttype x))"
    using assms(1) by (cases "scalar (ttype x)"; auto simp: dtype_tables)+
  ultimately show ?thesis
    using run unfolding cast_step_def Let_def
    apply (elim bind_lift_Inr [elim_format] exE conjE)
    apply (auto simp: return_apply assms(1) str_to_rounding_mode_def cast_rounding_def both_floating_bits_def
        standard_floating_iff is_fp8e4b15_def is_bool_def is_int1_def raise_def
        dest!: cast_op_type split: if_splits)
    done
qed

lemma sub_check_cong:
  assumes "is_int (scalar (ttype l))"
  shows "sub_check b m sanitize l r s = sub_check b m' sanitize l r s"
proof (cases sanitize)
  case True
  show ?thesis
  proof (cases "scalar (ttype l) = scalar (ttype r)")
    case eq: True
    have inner: "bind (cast b l (Dt Int64) None) (\<lambda>x. bind (cast b r (Dt Int64) None) (\<lambda>y.
         bind (sub_impl b m no_check (VTensor x) (VTensor y)) k)) =
       bind (cast b l (Dt Int64) None) (\<lambda>x. bind (cast b r (Dt Int64) None) (\<lambda>y.
         bind (sub_impl b m' no_check (VTensor x) (VTensor y)) k))" for k :: "tensor \<Rightarrow> unit B"
    proof (rule bind_cong_run [OF refl], rule fun_cong, rule bind_cong_run [OF refl])
      fix s x s1 s2 y s3
      assume x: "cast b l (Dt Int64) None s = Inr (x, s1)" and y: "cast b r (Dt Int64) None s2 = Inr (y, s3)"
      have "sub_impl b m no_check (VTensor x) (VTensor y) s = sub_impl b m' no_check (VTensor x) (VTensor y) s" for s
        by (rule sub_impl_same [where t = "Dt Int64"])
          (use cast_int64_type [OF _ x] cast_int64_type [OF _ y] assms eq in auto)
      then show "bind (sub_impl b m no_check (VTensor x) (VTensor y)) k s3 =
          bind (sub_impl b m' no_check (VTensor x) (VTensor y)) k s3"
        by (simp add: bind_def)
    qed
    show ?thesis using True
      unfolding sub_check_def binary_op_sanitize_overflow_impl_def Let_def
      by (simp only: if_True inner)
  next
    case False
    then have "bind (check (scalar (ttype l) = scalar (ttype r)) AssertionError) f = raise AssertionError"
      for f :: "unit \<Rightarrow> unit B" by simp
    then show ?thesis using True
      unfolding sub_check_def binary_op_sanitize_overflow_impl_def Let_def by (simp only: if_True)
  qed
qed (simp add: sub_check_def)

lemma null_tensor_number:
  "null_tensor b t s = Inr (z, s') \<Longrightarrow> ttype z = t \<and> (is_int t \<or> is_floating t)"
proof -
  assume run: "null_tensor b t s = Inr (z, s')"
  then obtain r where r: "to_ir b t = Inr r" "ir_float r \<or> ir_int r"
    unfolding null_tensor_def get_null_value_def
    by (elim bind_lift_Inr [elim_format] bind_Inr [elim_format] exE conjE)
      (simp add: raise_def del: ir_float.simps split: if_splits)
  then have "r = ir_of t" by (simp add: to_ir_ir_of)
  then have "is_int t \<or> is_floating t" using r(2)
  proof (cases t)
    case (Dt d)
    then show ?thesis using r(2) \<open>r = ir_of t\<close> by (cases d) (simp_all add: dtype_tables)
  qed auto
  then show ?thesis using null_tensor_type [OF run] by simp
qed

lemma minus_with_cong: "minus_with b (sub_with b m) x s = minus_with b (sub_with b m') x s"
  unfolding minus_with_def Let_def
proof (cases "is_ptr (scalar (ttype x))", simp_all only: if_True if_False simp_thms,
    rule fun_cong, rule bind_cong_run [OF refl])
  fix s z s' assume "null_tensor b (scalar (ttype x)) s = Inr (z, s')"
  then have z: "ttype z = scalar (ttype x)" "is_int (scalar (ttype x)) \<or> is_floating (scalar (ttype x))"
    by (auto dest: null_tensor_number)
  have s: "scalar (ttype z) = scalar (ttype x)" using z number_not_block by simp
  have "sub_impl b m (sub_check b m True) (VTensor z) (VTensor x) s' =
      sub_impl b m' (sub_check b m' True) (VTensor z) (VTensor x) s'"
    by (rule sub_impl_same [OF s refl z(2)]) (rule sub_check_cong, simp)
  then show "sub_with b m (VTensor z) (VTensor x) True s' = sub_with b m' (VTensor z) (VTensor x) True s'"
    by (simp add: sub_with_eq)
qed

theorem sub_unfold: "sub b x y sanitize = sub_with b (minus_op b) x y sanitize"
proof -
  have "minus_with b (sub_depth (Suc 0) b) = minus_with b (sub_depth (Suc (Suc 0)) b)"
    unfolding sub_depth.simps(2) by (intro ext) (rule minus_with_cong)
  then show ?thesis by (simp add: sub_def minus_op_def numeral_2_eq_2)
qed

lemma minus_sound: "minus_sound_fn (minus_op b)"
  unfolding minus_op_def sub_def by (rule minus_with_sound)

section \<open>Division, remainder, extrema\<close>

lemma cast_int_float_sound:
  assumes "tensor_ok s x" "is_int (scalar (ttype x))"
  shows "sound (cast b x (Dt Fp32) None) (has_type (like_ty (ttype x) (Dt Fp32))) s"
proof (rule cast_sound [OF assms(1)])
  show "castable (ttype x) (Dt Fp32)" using assms(2)
    by (cases "scalar (ttype x)") (auto simp: castable_def Let_def dtype_tables)
qed simp

lemma cast_same_sound:
  assumes "tensor_ok s x" "scalar (ttype x) = t"
  shows "sound (cast b x t None) (has_type (ttype x)) s"
  using cast_sound [OF assms(1) castable_same [OF tensor_okD(3) [OF assms(1)]]] assms(2) like_ty_scalar by metis

lemma fp_mantissa_width_floating: "is_floating t \<Longrightarrow> \<exists>w. fp_mantissa_width t = Inr w"
proof -
  assume "is_floating t"
  then obtain d where "t = Dt d" using is_floating_dt by blast
  with \<open>is_floating t\<close> show ?thesis by (cases d) (simp_all add: dtype_tables)
qed

lemma fdiv_tail_sound:
  assumes "has_type t x s" "has_type t y s" "is_floating (scalar t)" "\<not> is_fp8e4b15 (scalar t)"
  shows "sound (case (x, y) of (input, other) \<Rightarrow> create_tensor (Bin B_fdiv (handle input) (handle other)) (ttype input)) number_result s"
proof -
  have "arith_post (x, y) s" using assms by (auto simp: arith_post_def has_type_def)
  then show ?thesis using assms by (simp only: prod.case, intro bin_number_sound) (auto simp: has_type_def)
qed

theorem truediv_sound:
  assumes "operand_ok s x" "operand_ok s y"
  shows "sound (truediv b x y) number_result s"
  unfolding truediv_def Let_def
proof (rule binary_arith_sound [OF assms], unfold prod.case, rule sound_bind)
  fix l r s' assume p: "arith_post (l, r) s'"
  note ok = arith_postD [OF p]
  let ?Q = "\<lambda>p s'. \<exists>t. has_type t (fst p) s' \<and> has_type t (snd p) s' \<and> is_floating (scalar t) \<and> \<not> is_fp8e4b15 (scalar t)"
  have fl: "sound (bind (cast b r (scalar (ttype l)) None) (\<lambda>other. return (l, other))) ?Q s'"
     "sound (bind (cast b l (scalar (ttype r)) None) (\<lambda>input. return (input, r))) ?Q s'" if "is_floating (scalar (ttype l))"
    using that ok
    by (auto intro!: sound_bind [OF cast_same_sound] sound_return simp: has_type_def intro: tensor_ok_grows)
  have int: "sound (bind (cast b l (Dt Fp32) None) (\<lambda>input. bind (cast b r (Dt Fp32) None) (\<lambda>other. return (input, other)))) ?Q s'"
    if "is_int (scalar (ttype l))"
    apply (rule sound_bind [OF cast_int_float_sound [OF ok(1) that]])
    apply (rule sound_bind [OF cast_int_float_sound [OF tensor_ok_grows [OF ok(2)]]], assumption)
    using that ok(3) by (auto intro!: sound_return exI [of _ "like_ty (ttype l) (Dt Fp32)"]
        simp: is_fp8e4b15_def dest: has_type_grows)
  show "sound (if is_floating (scalar (ttype l)) \<and> is_int (scalar (ttype r)) then
             bind (cast b r (scalar (ttype l)) None) (\<lambda>other. return (l, other))
           else if is_int (scalar (ttype l)) \<and> is_floating (scalar (ttype r)) then
             bind (cast b l (scalar (ttype r)) None) (\<lambda>input. return (input, r))
           else if is_int (scalar (ttype l)) \<and> is_int (scalar (ttype r)) then
             bind (cast b l (Dt Fp32) None) (\<lambda>input.
             bind (cast b r (Dt Fp32) None) (\<lambda>other. return (input, other)))
           else if is_floating (scalar (ttype l)) \<and> is_floating (scalar (ttype r)) then
             bind (lift_r (fp_mantissa_width (scalar (ttype l)))) (\<lambda>wi.
             bind (lift_r (fp_mantissa_width (scalar (ttype r)))) (\<lambda>wo.
             if wi > wo then bind (cast b r (scalar (ttype l)) None) (\<lambda>other. return (l, other))
             else bind (cast b l (scalar (ttype r)) None) (\<lambda>input. return (input, r))))
           else raise TypeError) ?Q s'"
    by (intro sound_if sound_raise sound_lift_r_bind fl int)
      (use ok(3) int_not_floating in auto)
next
  fix q s'
  assume "\<exists>t. has_type t (fst q) s' \<and> has_type t (snd q) s' \<and> is_floating (scalar t) \<and> \<not> is_fp8e4b15 (scalar t)"
  then show "sound (case q of (input, other) \<Rightarrow> create_tensor (Bin B_fdiv (handle input) (handle other)) (ttype input)) number_result s'"
    using fdiv_tail_sound by (cases q) auto
qed

theorem floordiv_sound:
  assumes "operand_ok s x" "operand_ok s y"
  shows "sound (floordiv b x y) number_result s"
  unfolding floordiv_def Let_def
proof (rule binary_arith_sound [OF assms], unfold prod.case, intro sound_if sound_raise sound_lift_r_bind)
  fix l r s' t assume p: "arith_post (l, r) s'"
    and i: "is_int (scalar (ttype l)) \<and> is_int (scalar (ttype r))"
    and t: "integer_promote_impl (scalar (ttype l)) (scalar (ttype r)) = Inr t"
  note ok = arith_postD [OF p]
  have t: "t = scalar (ttype l)" using t ok(3) i by (simp add: integer_promote_impl_same)
  show "sound (bind (cast b l t None) (\<lambda>input. bind (cast b r t None) (\<lambda>other.
       if is_int_signed t then create_tensor (Bin B_sdiv (handle input) (handle other)) (ttype input)
       else create_tensor (Bin B_udiv (handle input) (handle other)) (ttype input)))) number_result s'"
    apply (rule sound_bind [OF cast_same_sound [OF ok(1) t [symmetric]]])
    apply (rule sound_bind [OF cast_same_sound [OF tensor_ok_grows [OF ok(2)]]], assumption, simp add: ok(3) t)
    apply (intro sound_if bin_number_sound)
    using i ok(3) by (auto simp: arith_post_def has_type_def tensor_ok_grows dest: ok(4) [THEN notE])
qed

theorem mod_sound:
  assumes "operand_ok s x" "operand_ok s y"
  shows "sound (mod_op b x y) number_result s"
  unfolding mod_op_def
  by (rule binary_arith_sound [OF assms], unfold prod.case Let_def,
      intro sound_if sound_raise sound_lift_r_bind bin_number_sound) simp_all

theorem extrema_sound:
  assumes "operand_ok s x" "operand_ok s y"
  shows "sound (minimum b x y n) number_result s" "sound (maximum b x y n) number_result s"
  unfolding minimum_def maximum_def
  by ((rule binary_arith_sound [OF assms], unfold prod.case Let_def tensor_dtype_def,
      intro sound_if sound_raise, (cases n; simp only: propagate_nan.case),
      (rule bin_number_sound; simp add: is_int_split)+)+)

text \<open>\<open>fdiv\<close> converts nothing: it needs operands of one floating type.\<close>

theorem fdiv_sound:
  assumes "tensor_operand s x" "tensor_operand s y" "scalar (ttype x) = scalar (ttype y)"
  shows "sound (fdiv b (VTensor x) (VTensor y)) number_result s"
proof -
  let ?t = "scalar (ttype x)"
  have eq: "fdiv b (VTensor x) (VTensor y) =
      (if \<not> is_floating ?t then raise TypeError
       else bind (broadcast_impl_value b x y) (\<lambda>(input, other).
         create_tensor (Bin B_fdiv (handle input) (handle other)) (ttype input)))"
  proof (cases "is_floating ?t")
    case True
    then have "\<not> is_ptr ?t" by (cases ?t) (simp_all add: dtype_tables)
    then show ?thesis using True assms(3)
      by (simp add: fdiv_def binary_op_type_checking_impl_def binary_op_type_checking_impl_with_def
          number_to_tensor_with_def check_ptr_type_impl_def Let_def)
  qed (simp add: fdiv_def)
  have ok: "tensor_ok s x" "tensor_ok s y" "\<not> is_fp8e4b15 ?t" using assms by (auto simp: tensor_operand_def)
  show ?thesis unfolding eq
    apply (intro sound_if sound_raise)
    apply (rule sound_bind [OF broadcast_impl_value_sound [OF ok(1,2)]])
    apply (unfold split_paired_all prod.case)
    apply (rule bin_number_sound)
    using ok(3) assms(3) same_shape_eq by (auto simp: broadcast_post_def arith_post_def)
qed

theorem program_id_sound:
  "sound (program_id b axis) (has_type (Dt Int32)) s" "sound (num_programs b axis) (has_type (Dt Int32)) s"
  unfolding program_id_def num_programs_def
  by (intro sound_if sound_raise create_has_type; auto simp: op_ok_def)+

theorem arange_sound:
  "sound (arange b start end) (\<lambda>t s'. \<exists>n m. start = Some n \<and> end = Some m \<and> has_type (Block (Dt Int32) [m - n]) t s') s"
  unfolding arange_def Let_def
  by (cases start; cases "end"; simp only: option.case prod.case, intro sound_if sound_raise sound_lift_r_bind)
    (auto intro!: sound_conseq [OF create_has_type] simp: op_ok_def block_type_eq_Inr_iff intro: sound_raise)

lemma number_cases: "wf_ty t \<Longrightarrow> \<not> is_block t \<Longrightarrow> is_ptr t \<or> is_int t \<or> is_floating t"
proof (cases t)
  case (Dt d)
  then show "wf_ty t \<Longrightarrow> ?thesis" by (cases d) (simp_all add: dtype_tables)
qed simp_all

lemma all_ones_sound:
  assumes "to_ir b t = Inr r"
  shows "sound (get_all_ones_value r) (\<lambda>h s'. has_type t \<lparr>handle = h, ttype = t\<rparr> s' \<and> ir_int (ir_of t)) s"
proof -
  have r: "r = ir_of t" using to_ir_ir_of [OF assms] .
  show ?thesis
  proof (cases "ir_int r")
    case True
    have "wf_ty t" using True unfolding r by (cases t) auto
    then show ?thesis using True unfolding get_all_ones_value_def
      by (auto simp: op_ok_def has_type_def tensor_ok_def r intro!: create_sound)
  qed (auto simp: get_all_ones_value_def intro: sound_raise)
qed

theorem invert_sound:
  assumes "tensor_operand s x"
  shows "sound (invert b x) number_result s"
  unfolding invert_def Let_def
proof (intro sound_if sound_raise sound_lift_r_bind)
  fix r assume r: "to_ir b (scalar (ttype x)) = Inr r" and np: "\<not> (is_ptr (scalar (ttype x)) \<or> is_floating (scalar (ttype x)))"
  have sc: "is_int (scalar (ttype x))"
    using np wf_scalar [of "ttype x"] assms number_cases [of "scalar (ttype x)"]
    by (simp add: tensor_operand_def tensor_ok_def)
  show "sound (bind (get_all_ones_value r) (\<lambda>h. xor_op b (VTensor x) (VTensor \<lparr>handle = h, ttype = scalar (ttype x)\<rparr>))) number_result s"
  proof (rule sound_bind [OF all_ones_sound [OF r]], elim conjE)
    fix h s' assume g: "grows s s'" and h: "has_type (scalar (ttype x)) \<lparr>handle = h, ttype = scalar (ttype x)\<rparr> s'"
      and i: "ir_int (ir_of (scalar (ttype x)))"
    have "tensor_operand s' \<lparr>handle = h, ttype = scalar (ttype x)\<rparr>"
      using h i sc by (auto simp: has_type_def is_int_scalar intro!: tensor_operand_int)
    then show "sound (xor_op b (VTensor x) (VTensor \<lparr>handle = h, ttype = scalar (ttype x)\<rparr>)) number_result s'"
      using tensor_operand_grows [OF assms g] by (intro bitwise_sound) simp_all
  qed
qed

end
