(* ===== verification/Semantic_Memory_Sound.thy ===== *)
theory Semantic_Memory_Sound
  imports Semantic_Memory Semantic_Arith_Sound
begin

text \<open>
  Soundness of the memory operations: loads and stores emit operations the verifier accepts, and a
  load returns a tensor of the pointee type in the shape of the pointer, \<open>int1\<close> included.
\<close>

section \<open>Broadcasting to a shape\<close>

lemma broadcast_impl_shape_sound:
  assumes x: "tensor_ok s x"
  shows "sound (broadcast_impl_shape b x shape) (has_type (Block (scalar (ttype x)) shape)) s"
proof (cases "ttype x")
  case (Block e sh)
  have wf: "wf_ty (Block e sh)" using tensor_okD(3) [OF x] Block by simp
  show ?thesis unfolding broadcast_impl_shape_def Block
  proof (simp only: is_block.simps not_True_eq_False if_False, intro sound_lift_r_bind sound_check_bind sound_if sound_return)
    fix src assume src: "get_block_shapes (Block e sh) = Inr src" and eq: "shape = src"
    then show "has_type (Block (scalar (Block e sh)) shape) x s" using x Block by (simp add: has_type_def)
  next
    fix src ret
    assume src: "get_block_shapes (Block e sh) = Inr src" and fit: "list_all2 (\<lambda>item d. d = item \<or> item = 1) src shape"
      and ret: "block_type (scalar (Block e sh)) shape = Inr ret"
    have "list_all2 (\<lambda>d e. d = 1 \<or> d = e) sh shape"
      using fit src by (auto elim!: list_all2_mono)
    then show "sound (create_tensor (Broadcast (handle x) shape) ret) (has_type (Block (scalar (Block e sh)) shape)) s"
      using ret x Block wf by (auto simp: block_type_eq_Inr_iff op_ok_def tensor_ok_def intro!: create_has_type)
  qed
qed (use x in \<open>auto simp: broadcast_impl_shape_def has_type_def block_type_eq_Inr_iff tensor_ok_def op_ok_def
      intro!: sound_lift_r_bind create_tensor_sound\<close>)

section \<open>Pointers\<close>

text \<open>A pointer to values, or a block of such pointers (not a block pointer).\<close>

definition value_ptr :: "ty \<Rightarrow> ty \<Rightarrow> bool" where
  "value_ptr t e \<longleftrightarrow> (\<exists>a c. scalar t = Ptr e a c) \<and> \<not> is_block e"

lemma ir_pointee_of: "wf_ty t \<Longrightarrow> value_ptr t e \<Longrightarrow> ir_pointee (ir_of t) = ir_of (like_ty t e)"
  by (cases t) (auto simp: value_ptr_def)

lemma value_ptr_ir: "wf_ty t \<Longrightarrow> value_ptr t e \<Longrightarrow> ir_ptr (ir_elem (ir_of t)) \<and> wf_ty e"
  using wf_scalar [of t] by (auto simp: value_ptr_def ir_elem_of)

lemma not_block_pointer: "value_ptr t e \<Longrightarrow> \<not> is_block_pointer t"
  by (cases t) (auto simp: value_ptr_def)

text \<open>The element type memory operations use: a byte for \<open>int1\<close>.\<close>

definition stored_ty :: "ty \<Rightarrow> ty" where
  "stored_ty e = (if e = Dt Int1 then Dt Int8 else e)"

lemma bool_ptr_sound:
  assumes p: "tensor_ok s ptr" "value_ptr (ttype ptr) e"
  shows "sound (bool_ptr_as_int8 b ptr) (\<lambda>(ptr', elt, flag) s'. tensor_ok s' ptr' \<and> value_ptr (ttype ptr') elt \<and>
     elt = stored_ty e \<and> flag = (e = Dt Int1) \<and> same_shape (ttype ptr) (ttype ptr')) s"
proof -
  obtain a c where sc: "scalar (ttype ptr) = Ptr e a c" using p(2) by (auto simp: value_ptr_def)
  have wf: "wf_ty (ttype ptr)" using p(1) by (simp add: tensor_ok_def)
  have "castable (ttype ptr) (Ptr (Dt Int8) a False)" if "e = Dt Int1"
    using sc that by (simp add: castable_def Let_def dtype_tables)
  then have "sound (cast b ptr (Ptr (Dt Int8) a False) None) (has_type (like_ty (ttype ptr) (Ptr (Dt Int8) a False))) s"
    if "e = Dt Int1" using that by (intro cast_sound p) simp_all
  moreover have "like_ty (ttype ptr) (Ptr e a c) = ttype ptr" using like_ty_scalar [of "ttype ptr"] sc by simp
  ultimately show ?thesis unfolding bool_ptr_as_int8_def sc ty.case
    using p sc by (auto simp: has_type_def value_ptr_def stored_ty_def same_shape_def
        intro!: sound_return exI [of Not False] elim!: sound_bind)
qed

section \<open>Loads\<close>

text \<open>What the verifier needs of the optional operands.\<close>

definition mask_ok :: "bstate \<Rightarrow> tensor option \<Rightarrow> bool" where
  "mask_ok s m \<longleftrightarrow> (\<forall>t. m = Some t \<longrightarrow> tensor_ok s t \<and> scalar (ttype t) = Dt Int1)"

definition other_ok :: "bstate \<Rightarrow> ty \<Rightarrow> tensor option \<Rightarrow> bool" where
  "other_ok s e m \<longleftrightarrow> (\<forall>t. m = Some t \<longrightarrow> tensor_ok s t \<and> castable (ttype t) (stored_ty e))"

text \<open>An optional tensor of the pointers' shape, with the given property of its element type.\<close>

definition opt_like :: "ty \<Rightarrow> (ty \<Rightarrow> bool) \<Rightarrow> tensor option \<Rightarrow> bstate \<Rightarrow> bool" where
  "opt_like p P m s \<longleftrightarrow> (\<forall>t. m = Some t \<longrightarrow> tensor_ok s t \<and> same_shape p (ttype t) \<and> P (ttype t))"

lemma opt_like_grows: "opt_like p P m s \<Longrightarrow> grows s s' \<Longrightarrow> opt_like p P m s'"
  by (auto simp: opt_like_def tensor_ok_grows)

lemma castable_block: "castable t e \<Longrightarrow> \<not> is_block t \<Longrightarrow> castable (Block t sh) e"
  by (auto simp: castable_def Let_def)

lemma castable_reshape: "castable (Block e' sh) e \<Longrightarrow> castable (Block e' sh') e"
  by (auto simp: castable_def Let_def)

lemma broadcast_optional_sound:
  assumes "is_block p" "\<And>t. m = Some t \<Longrightarrow> tensor_ok s t \<and> (\<forall>sh. P (Block (scalar (ttype t)) sh))"
  shows "sound (broadcast_optional b p m) (\<lambda>m' s'. (m' = None) = (m = None) \<and> opt_like p P m' s') s"
proof (cases m)
  case (Some t)
  then have t: "tensor_ok s t" "\<And>sh. P (Block (scalar (ttype t)) sh)" using assms(2) by auto
  show ?thesis using assms(1) Some t(2)
    by (auto simp: broadcast_optional_def is_block_iff has_type_def opt_like_def
        intro!: sound_bind [OF broadcast_impl_shape_sound [OF t(1)]] sound_return)
qed (simp add: broadcast_optional_def opt_like_def sound_return)

lemma shape_optional_sound:
  assumes "\<And>t. m = Some t \<Longrightarrow> tensor_ok s t \<and> (\<forall>sh. P (Block (scalar (ttype t)) sh)) \<and> P (ttype t)"
    and "is_block p \<or> \<not> is_block_opt m" "wf_ty p"
  shows "sound (if is_block p then broadcast_optional b p m else return m)
     (\<lambda>m' s'. (m' = None) = (m = None) \<and> opt_like p P m' s') s"
proof (intro sound_if)
  show "is_block p \<Longrightarrow> sound (broadcast_optional b p m) (\<lambda>m' s'. (m' = None) = (m = None) \<and> opt_like p P m' s') s"
    by (rule broadcast_optional_sound) (use assms(1) in auto)
  show "\<not> is_block p \<Longrightarrow> sound (return m) (\<lambda>m' s'. (m' = None) = (m = None) \<and> opt_like p P m' s') s"
    using assms by (intro sound_return) (cases p; auto simp: opt_like_def is_block_opt_def same_shape_def)
qed

lemma same_shape_like: "same_shape p t \<Longrightarrow> \<not> is_block e \<Longrightarrow> like_ty t e = like_ty p e"
  by (cases p; cases t) (auto simp: same_shape_def)

lemma same_shape_trans:
  "same_shape p q \<Longrightarrow> same_shape p t \<Longrightarrow> \<not> is_block (scalar q) \<Longrightarrow> same_shape q t"
  unfolding same_shape_def by (metis like_ty_like_ty)

lemma opt_like_transfer:
  "opt_like p P m s \<Longrightarrow> grows s s' \<Longrightarrow> same_shape p q \<Longrightarrow> \<not> is_block (scalar q) \<Longrightarrow> opt_like q P m s'"
  by (auto simp: opt_like_def intro: tensor_ok_grows same_shape_trans)

lemma mask_ir: "same_shape p t \<Longrightarrow> scalar t = Dt Int1 \<Longrightarrow> ir_of t = ir_like (ir_of p) (IRInt 1)"
  by (metis dtype_ir.simps(2) ir_of.simps(1) ir_of_like_ty same_shape_def)

lemma castable_stored:
  "castable t e \<Longrightarrow> castable (Block (scalar t) sh) e"
  by (cases t) (auto simp: castable_def Let_def)

lemma load_op_sound:
  assumes p: "tensor_ok s ptr" "value_ptr (ttype ptr) e"
    and m: "opt_like (ttype ptr) (\<lambda>t. scalar t = Dt Int1) msk s"
    and other: "\<And>t. other = Some t \<Longrightarrow> has_type (like_ty (ttype ptr) e) t s"
  shows "sound (case msk of
             None \<Rightarrow> create_tensor (Load (handle ptr) cache ev v) (like_ty (ttype ptr) e)
           | Some m \<Rightarrow> create_tensor (MaskedLoad (handle ptr) (handle m) (map_option handle other) cache ev v)
               (like_ty (ttype ptr) e)) (has_type (like_ty (ttype ptr) e)) s"
proof -
  have wf: "wf_ty (ttype ptr)" using p(1) by (simp add: tensor_ok_def)
  have e: "wf_ty e" "\<not> is_block e" "ir_ptr (ir_elem (ir_of (ttype ptr)))"
    using value_ptr_ir [OF wf p(2)] p(2) by (auto simp: value_ptr_def)
  note ty = ir_pointee_of [OF wf p(2)] wf_like_ty [OF wf e(1,2)]
  show ?thesis
  proof (cases msk)
    case None
    then show ?thesis using p e ty tensor_okD [OF p(1)] by (auto simp: op_ok_def intro!: create_has_type)
  next
    case (Some t)
    have t: "tensor_ok s t" "ir_of (ttype t) = ir_like (ir_of (ttype ptr)) (IRInt 1)"
      using m Some mask_ir by (auto simp: opt_like_def)
    then show ?thesis using p e ty tensor_okD [OF p(1)] tensor_okD [OF t(1)] other Some
      by (cases other) (auto simp: op_ok_def has_type_def tensor_ok_def intro!: create_has_type)
  qed
qed

lemma other_cast_sound:
  assumes "opt_like p (\<lambda>t. castable t e) other s" "\<not> is_block e"
  shows "sound (case other of None \<Rightarrow> return None | Some t \<Rightarrow> bind (cast b t e None) (\<lambda>t. return (Some t)))
     (\<lambda>o' s'. \<forall>t. o' = Some t \<longrightarrow> has_type (like_ty p e) t s') s"
proof (cases other)
  case (Some t)
  then have t: "tensor_ok s t" "castable (ttype t) e" "like_ty (ttype t) e = like_ty p e"
    using assms same_shape_like by (auto simp: opt_like_def)
  have "sound (cast b t e None) (has_type (like_ty p e)) s" using cast_sound [OF t(1,2)] t(3) by simp
  then show ?thesis using Some by (auto intro!: sound_return elim!: sound_bind)
qed (simp add: sound_return)

lemma dst_ty_sound:
  assumes "wf_ty p" "wf_ty e" "\<not> is_block e"
  shows "sound (if is_block p then bind (lift_r (get_block_shapes p)) (\<lambda>shape. lift_r (block_type e shape)) else return e)
     (\<lambda>t s'. t = like_ty p e) s"
  using assms by (cases p) (auto simp: block_type_eq_Inr_iff intro!: sound_lift_r sound_return)

lemma load_legacy_sound:
  assumes p: "tensor_ok s ptr" "value_ptr (ttype ptr) e" and m: "mask_ok s msk" and o: "other_ok s e other"
  shows "sound (load_legacy b ptr msk other bc pad cache ev v) (has_type (like_ty (ttype ptr) e)) s"
  unfolding load_legacy_def
proof (intro sound_check_bind)
  have wf: "wf_ty (ttype ptr)" using p(1) by (simp add: tensor_ok_def)
  have e: "\<not> is_block e" "wf_ty e" using value_ptr_ir [OF wf p(2)] p(2) by (auto simp: value_ptr_def)
  then have es: "\<not> is_block (stored_ty e)" "wf_ty (stored_ty e)" by (auto simp: stored_ty_def)
  assume mb: "is_block (ttype ptr) \<or> \<not> is_block_opt msk" and ob: "is_block (ttype ptr) \<or> \<not> is_block_opt other"
  let ?M = "\<lambda>t. scalar t = Dt Int1" and ?O = "\<lambda>t. castable t (stored_ty e)"
  have ms: "sound (if is_block (ttype ptr) then broadcast_optional b (ttype ptr) msk else return msk)
     (\<lambda>m' s'. (m' = None) = (msk = None) \<and> opt_like (ttype ptr) ?M m' s') s"
    by (rule shape_optional_sound [OF _ mb wf]) (use m in \<open>auto simp: mask_ok_def\<close>)
  have os: "sound (if is_block (ttype ptr) then broadcast_optional b (ttype ptr) other else return other)
     (\<lambda>m' s'. (m' = None) = (other = None) \<and> opt_like (ttype ptr) ?O m' s') s'" if "grows s s'" for s'
    by (rule shape_optional_sound [OF _ ob wf]) (use o that castable_stored in \<open>auto simp: other_ok_def tensor_ok_grows\<close>)
  have p': "tensor_ok s2 ptr" if "grows s s1" "grows s1 s2" for s1 s2
    using p(1) that tensor_ok_grows grows_trans by blast
  show "sound (bind (if is_block (ttype ptr) then broadcast_optional b (ttype ptr) msk else return msk) (\<lambda>msk.
     bind (if is_block (ttype ptr) then broadcast_optional b (ttype ptr) other else return other) (\<lambda>other.
     bind (bool_ptr_as_int8 b ptr) (\<lambda>(ptr, elt_ty, is_bool).
     bind (case other of
             None \<Rightarrow> return None
           | Some t \<Rightarrow> bind (cast b t elt_ty None) (\<lambda>t. return (Some t))) (\<lambda>other.
     bind (if is_block (ttype ptr)
           then bind (lift_r (get_block_shapes (ttype ptr))) (\<lambda>shape. lift_r (block_type elt_ty shape))
           else return elt_ty) (\<lambda>dst_ty.
     bind (case msk of
             None \<Rightarrow> create_tensor (Load (handle ptr) cache ev v) dst_ty
           | Some m \<Rightarrow>
               create_tensor (MaskedLoad (handle ptr) (handle m) (map_option handle other) cache ev v) dst_ty)
       (\<lambda>ret.
     if is_bool then cast b ret (Dt Int1) None else return ret)))))))
    (has_type (like_ty (ttype ptr) e)) s"
    apply (rule sound_bind [OF ms])
    apply (rule sound_bind [OF os], assumption)
    apply (rule sound_bind [OF bool_ptr_sound [OF p' p(2)]], assumption+)
    apply (unfold split_paired_all prod.case, elim conjE)
    subgoal premises prems for m1 s1 o1 s2 ptr' elt flag s3
    proof -
      note elt = \<open>elt = stored_ty e\<close> and flag = \<open>flag = (e = Dt Int1)\<close>
      note p3 = \<open>tensor_ok s3 ptr'\<close> and vp3 = \<open>value_ptr (ttype ptr') elt\<close>
      have wf3: "wf_ty (ttype ptr')" using p3 by (simp add: tensor_ok_def)
      have like: "like_ty (ttype ptr') u = like_ty (ttype ptr) u" if "\<not> is_block u" for u
        using same_shape_like [OF \<open>same_shape (ttype ptr) (ttype ptr')\<close> that] .
      have o3: "opt_like (ttype ptr) (\<lambda>t. castable t elt) o1 s3"
        using prems elt opt_like_grows by blast
      have m3: "opt_like (ttype ptr') ?M m1 s4" if "grows s3 s4" for s4
      proof (rule opt_like_transfer [OF \<open>opt_like (ttype ptr) ?M m1 s1\<close>])
        show "grows s1 s4" 
          by (rule grows_trans [OF grows_trans [OF \<open>grows s1 s2\<close> \<open>grows s2 s3\<close>] that])
        show "same_shape (ttype ptr) (ttype ptr')" by fact
        show "\<not> is_block (scalar (ttype ptr'))" using wf_scalar [OF wf3] by simp
      qed
      show ?thesis
        apply (rule sound_bind [OF other_cast_sound [OF o3]], simp add: elt es)
        apply (rule sound_bind [OF dst_ty_sound [OF wf3]], (simp add: elt es)+)
        subgoal premises ps for o2 s4 dst s5
        proof -
          have g: "grows s3 s5" using ps grows_trans by blast
          have o5: "has_type (like_ty (ttype ptr') elt) t s5" if "o2 = Some t" for t
            using ps that like es elt has_type_grows by metis
          note ld = load_op_sound [OF tensor_ok_grows [OF p3 g] vp3 m3 [OF g] o5]
          show ?thesis
            unfolding \<open>dst = _\<close> elt [symmetric]
          proof (rule sound_bind [OF ld])
            fix ret s6 assume r: "has_type (like_ty (ttype ptr') elt) ret s6"
            have c: "castable (like_ty (ttype ptr') elt) (Dt Int1)" if "e = Dt Int1"
              using that elt by (intro castable_int) (auto simp: stored_ty_def dtype_tables)
            show "sound (if flag then cast b ret (Dt Int1) None else return ret) (has_type (like_ty (ttype ptr) e)) s6"
              using r c elt like es flag
              by (auto simp: has_type_def stored_ty_def intro!: sound_return sound_conseq [OF cast_sound])
          qed
        qed
        done
    qed
    done
qed

lemma load_block_pointer_sound:
  assumes p: "tensor_ok s ptr" "ttype ptr = Ptr (Block e sh) a c"
  shows "sound (load_block_pointer b ptr msk other bc pad cache ev v) (has_type (Block e sh)) s"
  unfolding load_block_pointer_def
  by (intro sound_check_bind sound_lift_r_bind)
    (use p in \<open>auto simp: op_ok_def tensor_ok_def intro!: create_has_type\<close>)

theorem load_sound:
  assumes "tensor_ok s ptr" "value_ptr (ttype ptr) e" "mask_ok s msk" "other_ok s e other"
  shows "sound (load b ptr msk other bc pad cache ev v) (has_type (like_ty (ttype ptr) e)) s"
  unfolding load_def using not_block_pointer [OF assms(2)] load_legacy_sound [OF assms]
  by (auto intro!: sound_lift_r_bind)

section \<open>Stores\<close>

lemma store_op_sound:
  assumes p: "tensor_ok s ptr" "value_ptr (ttype ptr) e" and v: "has_type (like_ty (ttype ptr) e) v s"
    and m: "opt_like (ttype ptr) (\<lambda>t. True) msk s"
  shows "sound (case msk of
       None \<Rightarrow> create_void (Store (handle ptr) (handle v) cache ev)
     | Some m \<Rightarrow>
         bind (check (is_bool (scalar (ttype m))) ValueError) (\<lambda>_.
         create_void (MaskedStore (handle ptr) (handle v) (handle m) cache ev))) (\<lambda>_ _. True) s"
proof -
  have wf: "wf_ty (ttype ptr)" using p(1) by (simp add: tensor_ok_def)
  have e: "ir_ptr (ir_elem (ir_of (ttype ptr)))" using value_ptr_ir [OF wf p(2)] by simp
  have v': "handle v < length (vtys s)" "vtys s ! handle v = ir_pointee (ir_of (ttype ptr))"
    using v ir_pointee_of [OF wf p(2)] by (auto simp: has_type_def tensor_ok_def)
  show ?thesis
  proof (cases msk)
    case None
    then show ?thesis using e v' tensor_okD [OF p(1)] by (auto simp: op_ok_def intro!: create_void_sound)
  next
    case (Some t)
    have t: "tensor_ok s t" "same_shape (ttype ptr) (ttype t)" using m Some by (auto simp: opt_like_def)
    then show ?thesis using e v' tensor_okD [OF p(1)] tensor_okD [OF t(1)] Some mask_ir [OF t(2)]
      by (auto simp: op_ok_def is_bool_def is_int1_def intro!: create_void_sound sound_check_bind)
  qed
qed

lemma store_legacy_sound:
  assumes p: "tensor_ok s ptr" "value_ptr (ttype ptr) e"
    and v: "tensor_ok s v" "castable (ttype v) (stored_ty e)" and m: "\<And>t. msk = Some t \<Longrightarrow> tensor_ok s t"
  shows "sound (store_legacy b ptr v msk bc cache ev) (\<lambda>_ _. True) s"
  unfolding store_legacy_def
proof (intro sound_check_bind)
  have wf: "wf_ty (ttype ptr)" using p(1) by (simp add: tensor_ok_def)
  have e: "\<not> is_block e" "wf_ty e" using value_ptr_ir [OF wf p(2)] p(2) by (auto simp: value_ptr_def)
  then have es: "\<not> is_block (stored_ty e)" "wf_ty (stored_ty e)" by (auto simp: stored_ty_def)
  assume vb: "is_block (ttype ptr) \<or> \<not> is_block (ttype v)" and mb: "is_block (ttype ptr) \<or> \<not> is_block_opt msk"
  have vs: "sound (if is_block (ttype ptr)
           then bind (lift_r (get_block_shapes (ttype ptr))) (\<lambda>shape. broadcast_impl_shape b v shape)
           else return v) (\<lambda>w s'. tensor_ok s' w \<and> castable (ttype w) (stored_ty e) \<and> same_shape (ttype ptr) (ttype w)) s"
    using vb v castable_stored
    by (cases "ttype ptr") (auto simp: has_type_def same_shape_def intro!: sound_return sound_conseq [OF broadcast_impl_shape_sound])
  have ms: "sound (if is_block (ttype ptr) then broadcast_optional b (ttype ptr) msk else return msk)
     (\<lambda>m' s'. (m' = None) = (msk = None) \<and> opt_like (ttype ptr) (\<lambda>t. True) m' s') s'" if "grows s s'" for s'
    by (rule shape_optional_sound [OF _ mb wf]) (use m that in \<open>auto simp: tensor_ok_grows\<close>)
  have p': "tensor_ok s2 ptr" if "grows s s1" "grows s1 s2" for s1 s2
    using p(1) that tensor_ok_grows grows_trans by blast
  show "sound (bind (if is_block (ttype ptr)
           then bind (lift_r (get_block_shapes (ttype ptr))) (\<lambda>shape. broadcast_impl_shape b v shape)
           else return v) (\<lambda>val.
     bind (if is_block (ttype ptr) then broadcast_optional b (ttype ptr) msk else return msk) (\<lambda>msk.
     bind (bool_ptr_as_int8 b ptr) (\<lambda>(ptr, elt_ty, _).
     bind (cast b val elt_ty None) (\<lambda>val.
     case msk of
       None \<Rightarrow> create_void (Store (handle ptr) (handle val) cache ev)
     | Some m \<Rightarrow>
         bind (check (is_bool (scalar (ttype m))) ValueError) (\<lambda>_.
         create_void (MaskedStore (handle ptr) (handle val) (handle m) cache ev))))))) (\<lambda>_ _. True) s"
    apply (rule sound_bind [OF vs])
    apply (rule sound_bind [OF ms], assumption)
    apply (rule sound_bind [OF bool_ptr_sound [OF p' p(2)]], assumption+)
    apply (unfold split_paired_all prod.case, elim conjE)
    subgoal premises prems for w s1 m1 s2 ptr' elt flag s3
    proof -
      note elt = \<open>elt = stored_ty e\<close> and p3 = \<open>tensor_ok s3 ptr'\<close> and vp3 = \<open>value_ptr (ttype ptr') elt\<close>
      have wf3: "wf_ty (ttype ptr')" "\<not> is_block (scalar (ttype ptr'))"
        using p3 wf_scalar by (auto simp: tensor_ok_def)
      have w: "tensor_ok s3 w" by (rule tensor_ok_grows [OF \<open>tensor_ok s1 w\<close> grows_trans [OF \<open>grows s1 s2\<close> \<open>grows s2 s3\<close>]])
      have like: "like_ty (ttype w) elt = like_ty (ttype ptr') elt"
        using same_shape_like [OF \<open>same_shape (ttype ptr) (ttype w)\<close>]
          same_shape_like [OF \<open>same_shape (ttype ptr) (ttype ptr')\<close>] es elt by simp
      have cs: "sound (cast b w elt None) (has_type (like_ty (ttype ptr') elt)) s3"
        using cast_sound [OF w, of elt None b] \<open>castable (ttype w) (stored_ty e)\<close> elt like by simp
      show ?thesis
      proof (rule sound_bind [OF cs])
        fix u s4 assume g: "grows s3 s4" and u: "has_type (like_ty (ttype ptr') elt) u s4"
        have "opt_like (ttype ptr') (\<lambda>t. True) m1 s4"
          by (rule opt_like_transfer [OF \<open>opt_like (ttype ptr) (\<lambda>t. True) m1 s2\<close>
                grows_trans [OF \<open>grows s2 s3\<close> g] \<open>same_shape (ttype ptr) (ttype ptr')\<close> wf3(2)])
        from store_op_sound [OF tensor_ok_grows [OF p3 g] vp3 u this]
        show "sound (case m1 of
           None \<Rightarrow> create_void (Store (handle ptr') (handle u) cache ev)
         | Some m \<Rightarrow>
             bind (check (is_bool (scalar (ttype m))) ValueError) (\<lambda>_.
             create_void (MaskedStore (handle ptr') (handle u) (handle m) cache ev))) (\<lambda>_ _. True) s4" .
      qed
    qed
    done
qed

theorem store_sound:
  assumes "tensor_ok s ptr" "value_ptr (ttype ptr) e" "tensor_ok s v" "castable (ttype v) (stored_ty e)"
    and "\<And>t. msk = Some t \<Longrightarrow> tensor_ok s t"
  shows "sound (store b ptr v msk bc cache ev) (\<lambda>_ _. True) s"
  unfolding store_def using not_block_pointer [OF assms(2)] store_legacy_sound [OF assms]
  by (auto intro!: sound_lift_r_bind sound_if sound_raise)

lemma store_block_pointer_sound:
  assumes p: "tensor_ok s ptr" "ttype ptr = Ptr (Block e sh) a c" and v: "tensor_ok s v"
  shows "sound (store_block_pointer b ptr v msk bc cache ev) (\<lambda>_ _. True) s"
  unfolding store_block_pointer_def
proof (intro sound_check_bind sound_lift_r_bind)
  fix shape assume shape: "bind_r (element_ty (ttype ptr)) get_block_shapes = Inr shape"
  have sh: "shape = sh" using shape p(2) by simp
  have vs: "sound (if \<not> is_block (ttype v) then broadcast_impl_shape b v shape else return v) (\<lambda>w s'. tensor_ok s' w) s"
    using v by (intro sound_if sound_return sound_conseq [OF broadcast_impl_shape_sound]) (auto simp: has_type_def)
  have p': "tensor_ok s' ptr" if "grows s s'" for s' by (rule tensor_ok_grows [OF p(1) that])
  show "sound (bind (if \<not> is_block (ttype v) then broadcast_impl_shape b v shape else return v) (\<lambda>val.
     bind (check (is_block (ttype val)) AssertionError) (\<lambda>_.
     bind (check (get_block_shapes (ttype val) = Inr shape) AssertionError) (\<lambda>_.
     bind (lift_r (bind_r (element_ty (ttype ptr)) element_ty)) (\<lambda>elt_ty.
     bind (check (element_ty (ttype val) = Inr elt_ty) AssertionError) (\<lambda>_.
     bind (check (elt_ty \<noteq> Dt Int1) AssertionError) (\<lambda>_.
     bind (lift_r (canonicalize_boundary_check bc shape)) (\<lambda>dims.
     bind (cast b val elt_ty None) (\<lambda>val.
     create_void (TensorPointerStore (handle ptr) (handle val) dims cache ev)))))))))) (\<lambda>_ _. True) s"
    apply (rule sound_bind [OF vs])
    apply (intro sound_check_bind sound_lift_r_bind)
    subgoal premises prems for w s1 elt dims
    proof -
      have w: "tensor_ok s1 w" and t: "ttype w = Block e sh" and elt: "elt = e"
        using prems p(2) sh by (auto simp: get_block_shapes_eq)
      have cs: "sound (cast b w elt None) (has_type (Block e sh)) s1"
        using cast_same_sound [OF w, of elt b] t elt by simp
      show ?thesis
      proof (rule sound_bind [OF cs], rule create_void_sound)
        fix u s2 assume g: "grows s1 s2" and u: "has_type (Block e sh) u s2"
        have "tensor_ok s2 ptr" using p'[OF grows_trans [OF \<open>grows s s1\<close> g]] .
        then show "op_ok (vtys s2) (TensorPointerStore (handle ptr) (handle u) dims cache ev)"
          using u p(2) by (simp add: op_ok_def has_type_def tensor_ok_def)
      qed simp
    qed
    done
qed

section \<open>Block pointers\<close>

text \<open>The elements of \<open>shape\<close>, \<open>strides\<close> and \<open>offsets\<close> become scalars of the required width.\<close>

definition elem_ok :: "bstate \<Rightarrow> elem \<Rightarrow> bool" where
  "elem_ok s e \<longleftrightarrow> (\<forall>t. e = ETensor t \<longrightarrow> tensor_ok s t \<and> \<not> is_block (ttype t))"

definition is_scalar_int :: "int \<Rightarrow> nat \<Rightarrow> bstate \<Rightarrow> bool" where
  "is_scalar_int w h s \<longleftrightarrow> h < length (vtys s) \<and> vtys s ! h = IRInt w"

lemma is_scalar_int_grows: "is_scalar_int w h s \<Longrightarrow> grows s s' \<Longrightarrow> is_scalar_int w h s'"
  by (auto simp: is_scalar_int_def grows_nth dest: grows_length)

lemma int_value_sound:
  "sound (get_value_fn (Dt Int64) n) (is_scalar_int 64) s" "sound (get_value_fn (Dt Int32) n) (is_scalar_int 32) s"
  by (rule sound_conseq [OF get_value_fn_sound], auto simp: has_type_def tensor_ok_def is_scalar_int_def)+

lemma convert_elem_sound:
  assumes "elem_ok s e"
  shows "sound (convert_elem_to_ir_value b r e) (is_scalar_int (if r then 64 else 32)) s"
proof (cases e)
  case (ETensor t)
  have t: "tensor_ok s t" "\<not> is_block (ttype t)" using assms ETensor by (auto simp: elem_ok_def)
  note td = tensor_okD [OF t(1)]
  show ?thesis unfolding ETensor convert_elem_to_ir_value.simps tensor_dtype_def
  proof (intro sound_check_bind sound_if sound_raise sound_return)
    assume i: "is_int (scalar (ttype t))"
    then have ir: "ir_int (ir_of (ttype t))" using ir_int_of t(2) by simp
    then show "scalar (ttype t) \<noteq> Dt Int64 \<and> r \<Longrightarrow>
      sound (create (CastOp (K_int_cast (is_int_signed (scalar (ttype t)))) (handle t) (IRInt 64)))
       (is_scalar_int (if r then 64 else 32)) s"
      using td t(2) by (intro create_sound) (auto simp: op_ok_def is_scalar_int_def same_ir_shape_def)
    show "\<not> (scalar (ttype t) \<noteq> Dt Int64 \<and> r) \<Longrightarrow> \<not> (scalar (ttype t) \<noteq> Dt Int32 \<and> \<not> r) \<Longrightarrow>
      is_scalar_int (if r then 64 else 32) (handle t) s"
      using td t(2) by (auto simp: is_scalar_int_def)
  qed
qed (auto intro!: sound_if sound_check_bind int_value_sound sound_raise)

lemma elem_ok_grows: "\<forall>e \<in> A. elem_ok s e \<Longrightarrow> grows s s' \<Longrightarrow> \<forall>e \<in> A. elem_ok s' e"
  by (auto simp: elem_ok_def dest!: bspec intro: tensor_ok_grows)

lemma convert_list_sound:
  "\<forall>e \<in> set es. elem_ok s e \<Longrightarrow>
     sound (convert_to_ir_values b es r) (\<lambda>hs s'. length hs = length es \<and> (\<forall>h \<in> set hs. is_scalar_int (if r then 64 else 32) h s')) s"
  unfolding convert_to_ir_values_def
proof (induction es arbitrary: s)
  case (Cons e es)
  have "\<forall>e \<in> set es. elem_ok s' e" if "grows s s'" for s'
    by (rule elem_ok_grows [OF _ that]) (use Cons.prems in simp)
  then have IH: "sound (map_m (convert_elem_to_ir_value b r) es)
      (\<lambda>hs s'. length hs = length es \<and> (\<forall>h \<in> set hs. is_scalar_int (if r then 64 else 32) h s')) s'" if "grows s s'" for s'
    using Cons.IH that by blast
  have e: "elem_ok s e" using Cons.prems by simp
  show ?case unfolding map_m.simps
    by (rule sound_bind [OF convert_elem_sound [OF e]], rule sound_bind [OF IH], assumption, rule sound_return)
      (auto intro: is_scalar_int_grows)
qed (simp add: sound_return)

theorem advance_sound:
  assumes "tensor_ok s base" "is_ptr (ttype base)" "\<forall>e \<in> set offsets. elem_ok s e"
  shows "sound (advance b base offsets) (has_type (ttype base)) s"
  unfolding advance_def
proof (rule sound_bind [OF convert_list_sound [OF assms(3)]])
  fix hs s' assume g: "grows s s'" and hs: "length hs = length offsets \<and> (\<forall>h \<in> set hs. is_scalar_int (if False then 64 else 32) h s')"
  have "tensor_ok s' base" by (rule tensor_ok_grows [OF assms(1) g])
  then show "sound (create_tensor (Advance (handle base) hs) (ttype base)) (has_type (ttype base)) s'"
    using hs assms(2) by (intro create_has_type) (auto simp: op_ok_def tensor_ok_def is_scalar_int_def ir_ptr_of)
qed

lemma block_base_sound:
  assumes base: "tensor_ok s base" "ttype base = Ptr e 1 c"
  shows "sound (case ttype base of
             Ptr e address_space _ \<Rightarrow>
               if e = Dt Int1 then cast b base (Ptr (Dt Int8) address_space False) None else return base
           | _ \<Rightarrow> return base) (\<lambda>w s'. tensor_ok s' w \<and> (\<exists>c. ttype w = Ptr (stored_ty e) 1 c)) s"
proof -
  have "castable (ttype base) (Ptr (Dt Int8) 1 False)" if "e = Dt Int1"
    using base that by (simp add: castable_def Let_def dtype_tables)
  then have "sound (cast b base (Ptr (Dt Int8) 1 False) None) (has_type (Ptr (Dt Int8) 1 False)) s" if "e = Dt Int1"
    using cast_sound [OF base(1), of "Ptr (Dt Int8) 1 False" None b] base(2) that by simp
  then show ?thesis using base
    by (auto simp: stored_ty_def has_type_def intro!: sound_return exI [of Not False] elim!: sound_conseq)
qed

theorem make_block_ptr_sound:
  assumes base: "tensor_ok s base" "ttype base = Ptr e 1 c"
    and es: "\<forall>x \<in> set shape \<union> set strides \<union> set offsets. elem_ok s x"
  shows "sound (make_block_ptr b base shape strides offsets block_shape order)
     (has_type (Ptr (Block (stored_ty e) block_shape) 1 False)) s"
proof -
  have g1: "\<forall>x \<in> set shape. elem_ok s x" using es by blast
  have g2: "\<forall>x \<in> set strides. elem_ok s1 x" if "grows s s1" for s1
    by (rule elem_ok_grows [OF _ that]) (use es in blast)
  have g3: "\<forall>x \<in> set offsets. elem_ok s2 x" if "grows s s1" "grows s1 s2" for s1 s2
    by (rule elem_ok_grows [OF _ grows_trans [OF that]]) (use es in blast)
  have g4: "tensor_ok s3 base" if "grows s s1" "grows s1 s2" "grows s2 s3" for s1 s2 s3
    by (rule tensor_ok_grows [OF base(1) grows_trans [OF grows_trans [OF that(1,2)] that(3)]])
  show ?thesis
    unfolding make_block_ptr_def
    apply (rule sound_bind [OF convert_list_sound [OF g1]])
    apply (rule sound_bind [OF convert_list_sound [OF g2]], assumption)
    apply (rule sound_bind [OF convert_list_sound [OF g3]], assumption+)
    apply (rule sound_check_bind)
    apply (rule sound_bind [OF block_base_sound [OF g4 base(2)]], assumption+)
    apply (intro sound_check_bind sound_lift_r_bind)
    subgoal premises prems for hs1 s1 hs2 s2 hs3 s3 w s4 elt block_ty
    proof -
      have wf: "wf_ty (ttype base)" using base(1) by (simp add: tensor_ok_def)
      have "\<not> is_block (stored_ty e)" "wf_ty (stored_ty e)"
        using prems(7) wf base(2) by (auto simp: stored_ty_def)
      moreover have w: "tensor_ok s4 w" "elt = stored_ty e" "ir_of (ttype w) = IRPtr (ir_of (stored_ty e)) 1"
        using prems(9,13) by auto
      moreover have "valid_shape block_shape \<and> block_ty = Block elt block_shape"
        using prems(14) by (simp add: block_type_eq_Inr_iff)
      moreover have "\<forall>h \<in> set hs1. is_scalar_int 64 h s4" "\<forall>h \<in> set hs2. is_scalar_int 64 h s4" "\<forall>h \<in> set hs3. is_scalar_int 32 h s4"
        using prems(2,4,6) is_scalar_int_grows [OF _ grows_trans [OF grows_trans [OF prems(3,5)] prems(8)]]
          is_scalar_int_grows [OF _ grows_trans [OF prems(5,8)]] is_scalar_int_grows [OF _ prems(8)] by auto
      ultimately show ?thesis using prems(12)
        by (auto simp: op_ok_def tensor_ok_def is_scalar_int_def intro!: create_has_type)
    qed
    done
qed

end
