(* ===== verification/Semantic_Properties.thy ===== *)
theory Semantic_Properties
  imports Semantic_Memory_Sound
begin

text \<open>
  The properties of \<open>python/triton/language/semantic.py\<close> as a kernel author meets them: a call that
  returns has only appended operations to the builder, each of which passes the MLIR verifier, and
  the tensor it returns is the IR value that its Python type promises.  The concrete runs below use
  one builder and one state.
\<close>

section \<open>A concrete builder state\<close>

definition sample_builder :: builder where
  "sample_builder = \<lparr>sanitize_overflow = True, debug = True, supported_fp8_dtypes = [Fp8e5, Fp8e4nv],
     allowed_dot_input_precisions = [''tf32'', ''tf32x3'', ''ieee''], default_dot_input_precision = ''tf32'',
     max_num_imprecise_acc_default = 0, convert_custom_types = None, min_dot_size = Some (\<lambda>_ _. (16, 16, 16))\<rparr>"

definition sample_state :: bstate where
  "sample_state = \<lparr>vtys = [IRTensor (IRInt 32) [4], IRTensor IRF32 [4], IRTensor (IRPtr IRF32 1) [4],
     IRInt 8, IRInt 8, IRPtr IRF32 1, IRTensor (IRInt 1) [4], IRPtr (IRTensor IRF32 [4, 4]) 1,
     IRF32, IRTensor (IRInt 8) [4], IRPtr IRF8E5M2 1, IRTensor IRF16 [4]], insts = []\<rparr>"

definition ints :: tensor where "ints = \<lparr>handle = 0, ttype = Block (Dt Int32) [4]\<rparr>"
definition floats :: tensor where "floats = \<lparr>handle = 1, ttype = Block (Dt Fp32) [4]\<rparr>"
definition ptrs :: tensor where "ptrs = \<lparr>handle = 2, ttype = Block (Ptr (Dt Fp32) 1 False) [4]\<rparr>"
definition byte1 :: tensor where "byte1 = \<lparr>handle = 3, ttype = Dt Int8\<rparr>"
definition byte2 :: tensor where "byte2 = \<lparr>handle = 4, ttype = Dt Int8\<rparr>"
definition base :: tensor where "base = \<lparr>handle = 5, ttype = Ptr (Dt Fp32) 1 False\<rparr>"
definition bools :: tensor where "bools = \<lparr>handle = 6, ttype = Block (Dt Int1) [4]\<rparr>"
definition block_ptr :: tensor where "block_ptr = \<lparr>handle = 7, ttype = Ptr (Block (Dt Fp32) [4, 4]) 1 False\<rparr>"
definition single :: tensor where "single = \<lparr>handle = 8, ttype = Dt Fp32\<rparr>"
definition old_fp8s :: tensor where "old_fp8s = \<lparr>handle = 9, ttype = Block (Dt Fp8e4b15) [4]\<rparr>"
definition fp8_base :: tensor where "fp8_base = \<lparr>handle = 10, ttype = Ptr (Dt Fp8e5) 1 False\<rparr>"
definition halves :: tensor where "halves = \<lparr>handle = 11, ttype = Block (Dt Fp16) [4]\<rparr>"

text \<open>A run that returned, taken apart.\<close>

lemma returned: "\<not> isl r \<Longrightarrow> r = Inr (fst (projr r), snd (projr r))"
  by (cases r) simp_all

lemma sample_ok:
  "wf_bstate sample_state" "tensor_ok sample_state ints" "tensor_ok sample_state floats"
  "tensor_ok sample_state ptrs" "tensor_ok sample_state byte1" "tensor_ok sample_state byte2"
  "tensor_ok sample_state base" "tensor_ok sample_state bools" "tensor_ok sample_state block_ptr"
  "tensor_ok sample_state single" "tensor_ok sample_state old_fp8s" "tensor_ok sample_state fp8_base"
  "tensor_ok sample_state halves"
  by code_simp+

section \<open>Conversions\<close>

text \<open>C1: \<open>cast\<close> to an element type for which there is a conversion, with no rounding mode, with
  \<open>rtne\<close>, or with any rounding mode when the source is a block, has, if it returns, appended only operations the verifier
  accepts, and the result is a tensor of the source's shape with the destination's element type.  There is a conversion from every
  element type to itself and between all integer and floating-point types, except that the fp8 formats
  convert from and to floating-point types in blocks only and \<open>fp8e4b15\<close>, which is left to the backend, not at
  all; pointers convert to pointers and to integers, and back from 64-bit integers.  Outside these cases \<open>cast\<close> may
  return after emitting an operation that does not verify: the rounding mode \<open>rtz\<close> of a scalar is an example.\<close>

theorem cast_emits_verified_ir:
  assumes "wf_bstate s" "tensor_ok s x" "castable (ttype x) t" "r = None \<or> r = Some ''rtne'' \<or> is_block (ttype x)"
    and "cast b x t r s = Inr (y, s')"
  shows "wf_bstate s' \<and> grows s s' \<and> tensor_ok s' y \<and> ttype y = like_ty (ttype x) t"
  using soundD [OF cast_sound [OF assms(2-4)] assms(1,5)] by (simp add: has_type_def)

lemma cast_run:
  "castable (ttype ints) (Dt Fp32)" "\<not> isl (cast sample_builder ints (Dt Fp32) None sample_state)"
  by code_simp+

theorem cast_emits_verified_ir_witness:
  "wf_bstate (snd (projr (cast sample_builder ints (Dt Fp32) None sample_state)))"
  using cast_emits_verified_ir [OF sample_ok(1,2) cast_run(1) _ returned [OF cast_run(2)]] by simp

text \<open>The conditions of the conversion are not checked by the source.\<close>

lemma scalar_rtz_cast_unverified:
  "\<not> isl (cast sample_builder single (Dt Fp16) (Some ''rtz'') sample_state)"
  "\<not> wf_bstate (snd (projr (cast sample_builder single (Dt Fp16) (Some ''rtz'') sample_state)))"
  by code_simp+

text \<open>The element type is that of the operand, where the operand is a tensor.\<close>

definition keeps_element :: "pyval \<Rightarrow> tensor \<Rightarrow> bool" where
  "keeps_element v x \<longleftrightarrow> (\<forall>t. v = VTensor t \<longrightarrow> scalar (ttype x) = scalar (ttype t))"

definition pointer_operand :: "pyval \<Rightarrow> bool" where
  "pointer_operand v \<longleftrightarrow> (case v of VTensor t \<Rightarrow> is_ptr (scalar (ttype t)) | _ \<Rightarrow> False)"

text \<open>C2: the operand check of the binary operators, given Python numbers and tensors (of any element type but \<open>fp8e4b15\<close>,
  and of fp8 formats in blocks only), if it does not raise, appends only verified operations and returns two tensors of one shape.  With
  the arithmetic check, and no pointer among the operands, they have one and the same number type; without it, or with a
  pointer, every tensor operand keeps its element type.  A pointer is accepted only on a side where the operator allows
  it, and never with a floating-point value on the other side.\<close>

theorem binary_operands_agree:
  assumes "wf_bstate s" "operand_ok s lhs" "operand_ok s rhs"
    and "binary_op_type_checking_impl b lhs rhs allow_l allow_r arithmetic_check div_or_mod s = Inr ((x, y), s')"
  shows "wf_bstate s' \<and> grows s s' \<and> tensor_ok s' x \<and> tensor_ok s' y \<and> same_shape (ttype x) (ttype y) \<and>
     (is_ptr (scalar (ttype x)) \<longrightarrow> allow_l \<and> \<not> is_floating (scalar (ttype y))) \<and>
     (is_ptr (scalar (ttype y)) \<longrightarrow> allow_r \<and> \<not> is_floating (scalar (ttype x))) \<and>
     (if arithmetic_check \<and> \<not> pointer_operand lhs \<and> \<not> pointer_operand rhs
      then ttype x = ttype y \<and> (is_int (scalar (ttype x)) \<or> is_floating (scalar (ttype x)))
      else keeps_element lhs x \<and> keeps_element rhs y)"
proof -
  obtain u v where "wf_bstate s'" "grows s s'" and uv: "stands_for lhs u" "stands_for rhs v"
    and post: "operand_post u v arithmetic_check allow_l allow_r (x, y) s'"
    using soundD [OF binary_operands_sound [OF assms(2,3)] assms(1,4)] by blast
  moreover have "pointer_operand lhs = is_ptr (scalar (ttype u))" "pointer_operand rhs = is_ptr (scalar (ttype v))"
    using stands_for_pointer [OF uv(1)] stands_for_pointer [OF uv(2)] by (simp_all add: pointer_operand_def)
  moreover have "keeps_element lhs x" if "scalar (ttype x) = scalar (ttype u)"
    using uv(1) that by (auto simp: stands_for_def keeps_element_def)
  moreover have "keeps_element rhs y" if "scalar (ttype y) = scalar (ttype v)"
    using uv(2) that by (auto simp: stands_for_def keeps_element_def)
  ultimately show ?thesis
    by (auto simp: operand_post_def arith_post_def Let_def dest: is_int_dt is_floating_dt split: if_splits)
qed

lemma binary_run:
  "operand_ok sample_state (VTensor ints)" "operand_ok sample_state (VTensor floats)"
  "\<not> isl (binary_op_type_checking_impl sample_builder (VTensor ints) (VTensor floats) False False True False sample_state)"
  "snd (projr (binary_op_type_checking_impl sample_builder (VTensor ints) (VTensor floats) False False True False sample_state)) \<noteq> sample_state"
  by code_simp+

theorem binary_operands_agree_witness:
  "wf_bstate (snd (projr (binary_op_type_checking_impl sample_builder (VTensor ints) (VTensor floats)
     False False True False sample_state)))"
  using binary_operands_agree [OF sample_ok(1) binary_run(1,2), of sample_builder False False True False]
    returned [OF binary_run(3)] by (metis prod.collapse)

text \<open>What the check keeps apart without the arithmetic check, and what is not checked of \<open>fp8e4b15\<close>, whose values
  are 8-bit integers in the IR: the arithmetic on them returns, and does not verify.\<close>

lemma fdiv_operands_differ:
  "(case binary_op_type_checking_impl sample_builder (VTensor halves) (VTensor floats) False False False True sample_state of
      Inr ((x, y), _) \<Rightarrow> ttype x = ttype halves \<and> ttype y = ttype floats | Inl _ \<Rightarrow> False)"
  by code_simp

lemma fp8e4b15_arithmetic_unverified:
  "\<not> isl (add sample_builder (VTensor old_fp8s) (VTensor old_fp8s) False sample_state)"
  "\<not> wf_bstate (snd (projr (add sample_builder (VTensor old_fp8s) (VTensor old_fp8s) False sample_state)))"
  "\<not> isl (mul sample_builder (VTensor old_fp8s) (VTensor old_fp8s) False sample_state)"
  "\<not> wf_bstate (snd (projr (mul sample_builder (VTensor old_fp8s) (VTensor old_fp8s) False sample_state)))"
  "\<not> isl (less_than sample_builder (VTensor old_fp8s) (VTensor old_fp8s) sample_state)"
  "\<not> wf_bstate (snd (projr (less_than sample_builder (VTensor old_fp8s) (VTensor old_fp8s) sample_state)))"
  by code_simp+

text \<open>C3: addition and subtraction of Python numbers and tensors, where they do not raise, append only verified operations, with
  the overflow sanitizer or without it, and return a tensor of a number type or of pointers.  The tensors are of
  any element type but \<open>fp8e4b15\<close>, and of fp8 formats in blocks only; for \<open>fp8e4b15\<close> the source emits a
  floating-point operation on 8-bit integers.\<close>

theorem additive_emits_verified_ir:
  assumes "f \<in> {add b x y sanitize, sub b x y sanitize}"
    and "wf_bstate s" "operand_ok s x" "operand_ok s y" "f s = Inr (z, s')"
  shows "wf_bstate s' \<and> grows s s' \<and> tensor_ok s' z \<and>
     (is_int (scalar (ttype z)) \<or> is_floating (scalar (ttype z)) \<or> is_ptr (scalar (ttype z)))"
proof -
  have "sound f arith_result s" using assms(1) add_sound [OF assms(3,4)] sub_sound [OF assms(3,4)] by auto
  from soundD [OF this assms(2,5)] show ?thesis by (auto simp: arith_result_def number_result_def)
qed

lemma additive_run:
  "operand_ok sample_state (VTensor ptrs)"
  "\<not> isl (add sample_builder (VTensor ptrs) (VTensor ints) True sample_state)"
  by code_simp+

theorem additive_emits_verified_ir_witness:
  "wf_bstate (snd (projr (add sample_builder (VTensor ptrs) (VTensor ints) True sample_state)))"
  using additive_emits_verified_ir [OF insertI1 sample_ok(1) additive_run(1) binary_run(1) returned [OF additive_run(2)]]
  by simp

text \<open>C4: the multiplicative operators, minimum and maximum of Python numbers and tensors, where they do not raise, append only verified
  operations and return a tensor of a number type.  The tensors are of any element type but \<open>fp8e4b15\<close>, and of
  fp8 formats in blocks only.\<close>

theorem arithmetic_emits_verified_ir:
  assumes "f \<in> {mul b x y sanitize, truediv b x y, floordiv b x y, mod_op b x y, minimum b x y nan, maximum b x y nan}"
    and "wf_bstate s" "operand_ok s x" "operand_ok s y" "f s = Inr (z, s')"
  shows "wf_bstate s' \<and> grows s s' \<and> tensor_ok s' z \<and>
     (is_int (scalar (ttype z)) \<or> is_floating (scalar (ttype z)))"
proof -
  have "sound f number_result s"
    using assms(1) mul_sound [OF assms(3,4)] truediv_sound [OF assms(3,4)] floordiv_sound [OF assms(3,4)]
      mod_sound [OF assms(3,4)] extrema_sound [OF assms(3,4)] by auto
  from soundD [OF this assms(2,5)] show ?thesis by (simp add: number_result_def)
qed

lemma arithmetic_run:
  "\<not> isl (mul sample_builder (VTensor ints) (VTensor floats) True sample_state)"
  by code_simp

theorem arithmetic_emits_verified_ir_witness:
  "wf_bstate (snd (projr (mul sample_builder (VTensor ints) (VTensor floats) True sample_state)))"
  using arithmetic_emits_verified_ir [OF insertI1 sample_ok(1) binary_run(1,2) returned [OF arithmetic_run]]
  by simp

text \<open>C5: a comparison of Python numbers and tensors that does not raise appends only verified operations and returns a tensor of
  truth values.  The tensors are of any element type but \<open>fp8e4b15\<close>, and of fp8 formats in blocks only.\<close>

theorem comparison_emits_verified_ir:
  assumes "f \<in> {less_than b x y, less_equal b x y, greater_than b x y, greater_equal b x y, equal_op b x y, not_equal b x y}"
    and "wf_bstate s" "operand_ok s x" "operand_ok s y" "f s = Inr (z, s')"
  shows "wf_bstate s' \<and> grows s s' \<and> tensor_ok s' z \<and> scalar (ttype z) = Dt Int1"
proof -
  have "sound f bool_result s"
    using assms(1) compare_sound [OF assms(3,4)] equality_sound [OF assms(3,4)] by auto
  from soundD [OF this assms(2,5)] show ?thesis by (simp add: bool_result_def)
qed

lemma comparison_run:
  "\<not> isl (less_than sample_builder (VTensor ints) (VTensor floats) sample_state)"
  by code_simp

theorem comparison_emits_verified_ir_witness:
  "scalar (ttype (fst (projr (less_than sample_builder (VTensor ints) (VTensor floats) sample_state)))) = Dt Int1"
  using comparison_emits_verified_ir [OF insertI1 sample_ok(1) binary_run(1,2) returned [OF comparison_run]] by simp

section \<open>Memory\<close>

text \<open>What the source does not check: the type of the mask of a load, and that a scalar has a conversion to an fp8 pointee.\<close>

lemma int_mask_load_unverified:
  "\<not> isl (load sample_builder ptrs (Some ints) None (BDims []) [] [] [] False sample_state)"
  "\<not> wf_bstate (snd (projr (load sample_builder ptrs (Some ints) None (BDims []) [] [] [] False sample_state)))"
  "isl (store sample_builder ptrs floats (Some ints) (BDims []) [] [] sample_state)"
  by code_simp+

lemma scalar_fp8_store_unverified:
  "\<not> isl (store sample_builder fp8_base single None (BDims []) [] [] sample_state)"
  "\<not> wf_bstate (snd (projr (store sample_builder fp8_base single None (BDims []) [] [] sample_state)))"
  by code_simp+

text \<open>C6: a \<open>load\<close> that returns, through a scalar pointer or a block of pointers, with no mask or one of truth values and with no default
  or one whose element type has a conversion (C1) to the pointee's type as it is stored (a byte for a truth value), appends
  only verified operations and returns a tensor of the pointers' shape with the pointee's type.  The element type of the mask is the
  caller's duty: unlike \<open>store\<close>, \<open>load\<close> does not check it and emits an operation that does not verify for
  another.\<close>

theorem load_emits_verified_ir:
  assumes "wf_bstate s" "tensor_ok s ptr" "value_ptr (ttype ptr) e" "mask_ok s msk" "other_ok s e other"
    and "load b ptr msk other boundary_check padding cache eviction is_volatile s = Inr (y, s')"
  shows "wf_bstate s' \<and> grows s s' \<and> tensor_ok s' y \<and> ttype y = like_ty (ttype ptr) e"
  using soundD [OF load_sound [OF assms(2-5)] assms(1,6)] by (simp add: has_type_def)

lemma load_run:
  "value_ptr (ttype ptrs) (Dt Fp32)" "mask_ok sample_state (Some bools)" "other_ok sample_state (Dt Fp32) (Some ints)"
  "\<not> isl (load sample_builder ptrs (Some bools) (Some ints) (BDims []) [] [] [] False sample_state)"
proof -
  show "value_ptr (ttype ptrs) (Dt Fp32)" by (auto simp: value_ptr_def ptrs_def)
  show "mask_ok sample_state (Some bools)" using sample_ok(8) by (simp add: mask_ok_def) (simp add: bools_def)
  show "other_ok sample_state (Dt Fp32) (Some ints)"
    using sample_ok(2) cast_run(1) by (simp add: other_ok_def stored_ty_def)
  show "\<not> isl (load sample_builder ptrs (Some bools) (Some ints) (BDims []) [] [] [] False sample_state)"
    by code_simp
qed

theorem load_emits_verified_ir_witness:
  "wf_bstate (snd (projr (load sample_builder ptrs (Some bools) (Some ints) (BDims []) [] [] [] False sample_state)))"
  using load_emits_verified_ir [OF sample_ok(1,4) load_run(1-3) returned [OF load_run(4)]] by simp

text \<open>C7: a \<open>store\<close> that returns, through a scalar pointer or a block of pointers, of a value whose element type has a conversion (C1)
  to the pointee's type as it is stored (a byte for a truth value), appends only verified operations, whatever the type of the mask
  it is given: a mask that is not of truth values is refused.  For a value without a conversion, such as a scalar
  stored through an fp8 pointer, \<open>store\<close> may return after emitting an operation that does not verify.\<close>

theorem store_emits_verified_ir:
  assumes "wf_bstate s" "tensor_ok s ptr" "value_ptr (ttype ptr) e" "tensor_ok s v" "castable (ttype v) (stored_ty e)"
    and "\<And>t. msk = Some t \<Longrightarrow> tensor_ok s t"
    and "store b ptr v msk boundary_check cache eviction s = Inr (u, s')"
  shows "wf_bstate s' \<and> grows s s'"
  using soundD [OF store_sound [OF assms(2-6)] assms(1,7)] by simp

lemma store_run:
  "castable (ttype ints) (stored_ty (Dt Fp32))"
  "\<not> isl (store sample_builder ptrs ints (Some bools) (BDims []) [] [] sample_state)"
  by code_simp+

theorem store_emits_verified_ir_witness:
  "wf_bstate (snd (projr (store sample_builder ptrs ints (Some bools) (BDims []) [] [] sample_state)))"
  using store_emits_verified_ir [OF sample_ok(1,4) load_run(1) sample_ok(2) store_run(1) _ returned [OF store_run(2)]]
    sample_ok(8) by auto

end
