(* ===== verification/Overflow.thy ===== *)
theory Overflow
  imports Semantic_Arith_Sound
begin

text \<open>
  What the overflow sanitizer of \<open>semantic.py\<close> checks, on the integers themselves: the log of
  operations emitted for a sanitized addition, subtraction or multiplication of two scalars is run
  with the integer semantics of the \<open>arith\<close> dialect, and the assertion it contains fails exactly
  when the mathematical result does not fit the operands' type.
\<close>

section \<open>Integer semantics of the emitted operations\<close>

text \<open>
  A \<open>w\<close>-bit value is its bit pattern, a number in \<open>[0, 2 ^ w)\<close>; \<open>sval w v\<close> is its value in two's
  complement.
\<close>

definition sval :: "int \<Rightarrow> int \<Rightarrow> int" where
  "sval w v = (if v < 2 ^ nat (w - 1) then v else v - 2 ^ nat w)"

definition trunc :: "int \<Rightarrow> int \<Rightarrow> int" where
  "trunc w v = v mod 2 ^ nat w"

datatype effect = Val int | Pass | Fail | Unmodelled

type_synonym env = "nat \<Rightarrow> int"

fun eval_bin :: "binop \<Rightarrow> int \<Rightarrow> int \<Rightarrow> int \<Rightarrow> effect" where
  "eval_bin B_add w x y = Val (trunc w (x + y))"
| "eval_bin B_sub w x y = Val (trunc w (x - y))"
| "eval_bin B_mul w x y = Val (trunc w (x * y))"
| "eval_bin B_and w x y = Val (x AND y)"
| "eval_bin B_or w x y = Val (x OR y)"
| "eval_bin B_xor w x y = Val (x XOR y)"
| "eval_bin _ w x y = Unmodelled"

fun eval_cmp :: "cmpop \<Rightarrow> int \<Rightarrow> int \<Rightarrow> int \<Rightarrow> effect" where
  "eval_cmp C_icmpSGT w x y = Val (if sval w x > sval w y then 1 else 0)"
| "eval_cmp C_icmpSGE w x y = Val (if sval w x \<ge> sval w y then 1 else 0)"
| "eval_cmp C_icmpSLT w x y = Val (if sval w x < sval w y then 1 else 0)"
| "eval_cmp C_icmpSLE w x y = Val (if sval w x \<le> sval w y then 1 else 0)"
| "eval_cmp C_icmpUGT w x y = Val (if x > y then 1 else 0)"
| "eval_cmp C_icmpUGE w x y = Val (if x \<ge> y then 1 else 0)"
| "eval_cmp C_icmpULT w x y = Val (if x < y then 1 else 0)"
| "eval_cmp C_icmpULE w x y = Val (if x \<le> y then 1 else 0)"
| "eval_cmp C_icmpEQ w x y = Val (if x = y then 1 else 0)"
| "eval_cmp C_icmpNE w x y = Val (if x \<noteq> y then 1 else 0)"
| "eval_cmp _ w x y = Unmodelled"

fun eval_cast :: "castop \<Rightarrow> int \<Rightarrow> int \<Rightarrow> int \<Rightarrow> effect" where
  "eval_cast (K_int_cast sign_extend) w w' x = Val (trunc w' (if sign_extend then sval w x else x))"
| "eval_cast _ w w' x = Unmodelled"

definition eval_op :: "irty list \<Rightarrow> env \<Rightarrow> op \<Rightarrow> effect" where
  "eval_op vt env p = (case p of
     Constant t v \<Rightarrow> (case v of NInt i \<Rightarrow> Val (trunc (ir_width t) i) | _ \<Rightarrow> Unmodelled)
   | Bin k l r \<Rightarrow> eval_bin k (ir_width (vt ! l)) (env l) (env r)
   | Cmp c l r \<Rightarrow> eval_cmp c (ir_width (vt ! l)) (env l) (env r)
   | CastOp k h t \<Rightarrow> eval_cast k (ir_width (vt ! h)) (ir_width t) (env h)
   | Assert c msg \<Rightarrow> if env c = 0 then Fail else Pass
   | _ \<Rightarrow> Unmodelled)"

datatype outcome = Trap | Done env | Stuck

fun exec :: "irty list \<Rightarrow> (op \<times> nat list) list \<Rightarrow> env \<Rightarrow> outcome" where
  "exec vt [] env = Done env"
| "exec vt ((p, hs) # rest) env =
     (case eval_op vt env p of
        Val v \<Rightarrow> exec vt rest (env(hd hs := v))
      | Pass \<Rightarrow> exec vt rest env
      | Fail \<Rightarrow> Trap
      | Unmodelled \<Rightarrow> Stuck)"

lemma eval_op_simps [simp]:
  "eval_op vt env (Constant t (NInt i)) = Val (trunc (ir_width t) i)"
  "eval_op vt env (Bin k l r) = eval_bin k (ir_width (vt ! l)) (env l) (env r)"
  "eval_op vt env (Cmp c l r) = eval_cmp c (ir_width (vt ! l)) (env l) (env r)"
  "eval_op vt env (CastOp kc h t) = eval_cast kc (ir_width (vt ! h)) (ir_width t) (env h)"
  "eval_op vt env (Assert a msg) = (if env a = 0 then Fail else Pass)"
  by (simp_all add: eval_op_def)

text \<open>The number a bit pattern of an integer type stands for.\<close>

definition int_value :: "dtype \<Rightarrow> int \<Rightarrow> int" where
  "int_value d v = (if d \<in> set SINT_TYPES then sval (dtype_bits d) v else v)"

definition in_range :: "dtype \<Rightarrow> int \<Rightarrow> bool" where
  "in_range d v \<longleftrightarrow> 0 \<le> v \<and> v < 2 ^ nat (dtype_bits d)"

definition fits :: "dtype \<Rightarrow> int \<Rightarrow> bool" where
  "fits d z \<longleftrightarrow> (case (get_int_min_value (Dt d), get_int_max_value (Dt d)) of
     (Inr lo, Inr hi) \<Rightarrow> lo \<le> z \<and> z \<le> hi
   | _ \<Rightarrow> False)"

section \<open>The operations emitted\<close>

lemma cast_same_return: "\<not> is_block (ttype x) \<Longrightarrow> cast b x (ttype x) None = return x"
  by (subst cast_unfold) (simp add: cast_step_same lift_dst_type_def)

lemma binary_same_return:
  assumes "ttype x = Dt d" "ttype y = Dt d" "is_int (Dt d)"
  shows "binary_op_type_checking_impl b (VTensor x) (VTensor y) al ar True False = return (x, y)"
proof -
  have "binary_op_type_checking_impl b (VTensor x) (VTensor y) al ar True False =
      bind (cast b x (ttype x) None) (\<lambda>x. bind (cast b y (ttype y) None) (\<lambda>y. broadcast_impl_value b x y))"
    using assms by (subst binary_same_eq [where t = "Dt d"]) simp_all
  moreover have "broadcast_impl_value b x y = return (x, y)" using assms by (simp add: broadcast_impl_value_def)
  ultimately show ?thesis using assms(1,2) cast_same_return [of x b] cast_same_return [of y b] by simp
qed

lemma cast_small_to_int64:
  assumes "ttype x = Dt d" "is_int (Dt d)" "dtype_bits d < 64"
  shows "cast b x (Dt Int64) None =
     create_tensor (CastOp (K_int_cast (d \<in> set SINT_TYPES)) (handle x) (IRInt 64)) (Dt Int64)"
proof -
  have "to_ir b (Dt Int64) = Inr (IRInt 64)" by simp
  then show ?thesis using assms
    by (subst cast_unfold) (cases d; simp add: cast_step_def lift_dst_type_def Let_def str_to_rounding_mode_def
        cast_rounding_def both_floating_bits_def cast_op_def dtype_tables)
qed

definition sanitize_log :: "builder \<Rightarrow> dtype \<Rightarrow> binop \<Rightarrow> string \<Rightarrow> tensor \<Rightarrow> tensor \<Rightarrow> unit B" where
  "sanitize_log b d k name x y =
     bind (create_tensor (CastOp (K_int_cast (d \<in> set SINT_TYPES)) (handle x) (IRInt 64)) (Dt Int64)) (\<lambda>l.
     bind (create_tensor (CastOp (K_int_cast (d \<in> set SINT_TYPES)) (handle y) (IRInt 64)) (Dt Int64)) (\<lambda>r.
     bind (create_tensor (Bin k (handle l) (handle r)) (Dt Int64)) (\<lambda>ret.
     bind (lift_r (get_int_max_value (Dt d))) (\<lambda>hi.
     bind (create (Constant (IRInt 64) (NInt hi))) (\<lambda>hi_h.
     bind (lift_r (get_int_min_value (Dt d))) (\<lambda>lo.
     bind (create (Constant (IRInt 64) (NInt lo))) (\<lambda>lo_h.
     bind (create_tensor (Cmp C_icmpSLE (handle ret) hi_h) (Dt Int1)) (\<lambda>le.
     bind (create_tensor (Cmp C_icmpSGE (handle ret) lo_h) (Dt Int1)) (\<lambda>ge.
     bind (create_tensor (Bin B_and (handle le) (handle ge)) (Dt Int1)) (\<lambda>cond.
     create_void (Assert (handle cond) (''int'' @ decimal (dtype_bits d) @ '' overflow detected for operation '' @ name))))))))))))"

lemma get_value_fn_int64: "- (2 ^ 63) \<le> i \<Longrightarrow> i < 2 ^ 63 \<Longrightarrow> get_value_fn (Dt Int64) (NInt i) = create (Constant (IRInt 64) (NInt i))"
  by (simp add: get_value_fn_def type_list_defs)

lemma create_tensor_cong:
  "(\<And>t. ttype t = ty \<Longrightarrow> f t = g t) \<Longrightarrow> bind (create_tensor p ty) f = bind (create_tensor p ty) g"
  by (rule bind_cong_run [OF refl]) (simp add: create_tensor_type)

lemma int_limits:
  assumes "is_int (Dt d)" "dtype_bits d < 64"
  obtains lo hi where "get_int_min_value (Dt d) = Inr lo" "get_int_max_value (Dt d) = Inr hi"
    "- (2 ^ 63) \<le> lo" "lo < 2 ^ 63" "- (2 ^ 63) \<le> hi" "hi < 2 ^ 63"
  using assms by (cases d) (simp_all add: get_int_min_value_def get_int_max_value_def dtype_tables)

lemma and_int1_return:
  assumes "ttype x = Dt Int1" "ttype y = Dt Int1"
  shows "and_op b (VTensor x) (VTensor y) = create_tensor (Bin B_and (handle x) (handle y)) (Dt Int1)"
  using assms by (simp add: and_op_def bitwise_op_type_checking_impl_def binary_same_return [of _ Int1]
      integer_promote_impl_same dtype_tables)

lemma compare_int64_return:
  assumes "ttype x = Dt Int64" "ttype y = Dt Int64"
  shows "less_equal b (VTensor x) (VTensor y) = create_tensor (Cmp C_icmpSLE (handle x) (handle y)) (Dt Int1)"
    and "greater_equal b (VTensor x) (VTensor y) = create_tensor (Cmp C_icmpSGE (handle x) (handle y)) (Dt Int1)"
proof -
  have "is_int_signed (Dt Int64)" by (simp add: dtype_tables)
  then show "less_equal b (VTensor x) (VTensor y) = create_tensor (Cmp C_icmpSLE (handle x) (handle y)) (Dt Int1)"
    "greater_equal b (VTensor x) (VTensor y) = create_tensor (Cmp C_icmpSGE (handle x) (handle y)) (Dt Int1)"
    using assms by (simp_all add: less_equal_def greater_equal_def binary_same_return [of _ Int64] Let_def bool_like_def)
qed

lemma sanitize_eq:
  assumes x: "ttype x = Dt d" and y: "ttype y = Dt d" and d: "is_int (Dt d)" "dtype_bits d < 64"
    and b: "sanitize_overflow b" "debug b"
    and op: "\<And>l r. ttype l = Dt Int64 \<Longrightarrow> ttype r = Dt Int64 \<Longrightarrow>
       op l r = create_tensor (Bin k (handle l) (handle r)) (Dt Int64)"
  shows "binary_op_sanitize_overflow_impl b op name x y = sanitize_log b d k name x y"
proof -
  obtain lo hi where lim: "get_int_min_value (Dt d) = Inr lo" "get_int_max_value (Dt d) = Inr hi"
    "- (2 ^ 63) \<le> lo" "lo < 2 ^ 63" "- (2 ^ 63) \<le> hi" "hi < 2 ^ 63" using int_limits [OF d] .
  have w: "int_bitwidth (Dt d) = Inr (dtype_bits d)" using d(1) by (cases d) (simp_all add: dtype_tables)
  have sc: "scalar (ttype x) = Dt d" "scalar (ttype y) = Dt d" using x y by simp_all
  have w64: "\<not> (64 \<le> dtype_bits d \<or> \<not> sanitize_overflow b)" using d(2) b(1) by simp
  have checked: "bind (check (Dt d = Dt d) e) f = f ()" "bind (check (is_int (Dt d)) e) f = f ()" for e and f :: "unit \<Rightarrow> unit B"
    using d(1) by simp_all
  show ?thesis
    unfolding binary_op_sanitize_overflow_impl_def Let_def sc w lift_r_simps bind_return if_not_P [OF w64]
      sanitize_log_def cast_small_to_int64 [OF x d] cast_small_to_int64 [OF y d] lim
      get_value_fn_int64 [OF lim(3,4)] get_value_fn_int64 [OF lim(5,6)] checked
    apply (rule create_tensor_cong)
    apply (rule create_tensor_cong)
    apply (subst op, assumption, assumption)
    apply (rule create_tensor_cong)
    apply (rule bind_cong_cont, rule bind_cong_cont)
    apply (subst compare_int64_return(1), assumption, simp)
    apply (simp only: tensor.simps)
    apply (rule create_tensor_cong)
    apply (subst compare_int64_return(2), assumption, simp)
    apply (simp only: tensor.simps)
    apply (rule create_tensor_cong)
    apply (subst and_int1_return, assumption, assumption)
    by (simp add: device_assert_def b)
qed

section \<open>Running the log\<close>

lemma create_tensor_run:
  "result_types (vtys s) p = [t] \<Longrightarrow> bind (create_tensor p ty) f s =
     f \<lparr>handle = length (vtys s), ttype = ty\<rparr>
       (s\<lparr>vtys := vtys s @ [t], insts := insts s @ [(p, [length (vtys s)])]\<rparr>)"
  by (simp add: create_tensor_def create_def emit_def m_defs Let_def)

lemma create_run:
  "result_types (vtys s) p = [t] \<Longrightarrow> bind (create p) f s =
     f (length (vtys s)) (s\<lparr>vtys := vtys s @ [t], insts := insts s @ [(p, [length (vtys s)])]\<rparr>)"
  by (simp add: create_def emit_def m_defs Let_def)

lemma create_void_run:
  "result_types (vtys s) p = [] \<Longrightarrow> create_void p s = Inr ((), s\<lparr>insts := insts s @ [(p, [])]\<rparr>)"
  by (simp add: create_void_def emit_def m_defs Let_def)

definition check_log :: "dtype \<Rightarrow> binop \<Rightarrow> string \<Rightarrow> nat \<Rightarrow> int \<Rightarrow> int \<Rightarrow> nat \<Rightarrow> nat \<Rightarrow> (op \<times> nat list) list" where
  "check_log d k msg n lo hi x y =
     [(CastOp (K_int_cast (d \<in> set SINT_TYPES)) x (IRInt 64), [n]),
      (CastOp (K_int_cast (d \<in> set SINT_TYPES)) y (IRInt 64), [n + 1]),
      (Bin k n (n + 1), [n + 2]),
      (Constant (IRInt 64) (NInt hi), [n + 3]),
      (Constant (IRInt 64) (NInt lo), [n + 4]),
      (Cmp C_icmpSLE (n + 2) (n + 3), [n + 5]),
      (Cmp C_icmpSGE (n + 2) (n + 4), [n + 6]),
      (Bin B_and (n + 5) (n + 6), [n + 7]),
      (Assert (n + 7) msg, [])]"

definition check_tys :: "irty list" where
  "check_tys = [IRInt 64, IRInt 64, IRInt 64, IRInt 64, IRInt 64, IRInt 1, IRInt 1, IRInt 1]"

lemma sanitize_log_run:
  assumes "get_int_min_value (Dt d) = Inr lo" "get_int_max_value (Dt d) = Inr hi"
  shows "sanitize_log b d k name x y s = Inr ((), s\<lparr>vtys := vtys s @ check_tys,
     insts := insts s @ check_log d k (''int'' @ decimal (dtype_bits d) @ '' overflow detected for operation '' @ name)
       (length (vtys s)) lo hi (handle x) (handle y)\<rparr>)"
  unfolding sanitize_log_def assms lift_r_simps bind_return
  by (simp add: create_tensor_run create_run create_void_run nth_append check_log_def check_tys_def del: append_Cons)

text \<open>The sanitized operation runs the check and then the operation itself.\<close>

definition sanitized :: "builder \<Rightarrow> dtype \<Rightarrow> binop \<Rightarrow> string \<Rightarrow> tensor \<Rightarrow> tensor \<Rightarrow> tensor B" where
  "sanitized b d k name x y =
     bind (sanitize_log b d k name x y) (\<lambda>_. create_tensor (Bin k (handle x) (handle y)) (Dt d))"

lemma int_ops_sanitized:
  assumes x: "ttype x = Dt d" and y: "ttype y = Dt d" and d: "is_int (Dt d)" "dtype_bits d < 64"
    and b: "sanitize_overflow b" "debug b"
  shows "add b (VTensor x) (VTensor y) True = sanitized b d B_add ''add'' x y"
    and "sub b (VTensor x) (VTensor y) True = sanitized b d B_sub ''sub'' x y"
    and "mul b (VTensor x) (VTensor y) True = sanitized b d B_mul ''mul'' x y"
proof -
  note same = binary_same_return [OF x y d(1)]
  have nf: "\<not> is_floating (Dt d)" using int_not_floating [OF d(1)] .
  have i64: "is_int (Dt Int64)" "\<not> is_floating (Dt Int64)" by (simp_all add: dtype_tables)
  have op: "add_impl b no_check (VTensor l) (VTensor r) = create_tensor (Bin B_add (handle l) (handle r)) (Dt Int64)"
      "sub_impl b m no_check (VTensor l) (VTensor r) = create_tensor (Bin B_sub (handle l) (handle r)) (Dt Int64)"
      "mul_impl b no_check (VTensor l) (VTensor r) = create_tensor (Bin B_mul (handle l) (handle r)) (Dt Int64)"
    if "ttype l = Dt Int64" "ttype r = Dt Int64" for l r m
    using that i64 by (simp_all add: add_impl_def sub_impl_def mul_impl_def binary_same_return [of _ Int64] no_check_def)
  show "add b (VTensor x) (VTensor y) True = sanitized b d B_add ''add'' x y"
    using x y d(1) nf by (simp add: add_def add_impl_def [of _ "binary_op_sanitize_overflow_impl _ _ _"] same sanitized_def sanitize_eq [OF x y d b op(1)])
  show "sub b (VTensor x) (VTensor y) True = sanitized b d B_sub ''sub'' x y"
    unfolding sub_unfold sub_with_def
    using x y d(1) nf by (simp add: sub_impl_def [of _ _ "binary_op_sanitize_overflow_impl _ _ _"] same sanitized_def sanitize_eq [OF x y d b op(2)])
  show "mul b (VTensor x) (VTensor y) True = sanitized b d B_mul ''mul'' x y"
    using x y d(1) nf by (simp add: mul_def mul_impl_def [of _ "binary_op_sanitize_overflow_impl _ _ _"] same sanitized_def sanitize_eq [OF x y d b op(3)])
qed

section \<open>The check is exact\<close>

fun int_op :: "binop \<Rightarrow> int \<Rightarrow> int \<Rightarrow> int" where
  "int_op B_add x y = x + y"
| "int_op B_sub x y = x - y"
| "int_op B_mul x y = x * y"
| "int_op _ x y = 0"

lemma sval_trunc:
  assumes "- (2 ^ 63) \<le> z" "z < 2 ^ 64"
  shows "sval 64 (trunc 64 z) = (if z < 2 ^ 63 then z else z - 2 ^ 64)"
proof (cases "0 \<le> z")
  case True
  then have "trunc 64 z = z" using assms by (simp add: trunc_def)
  then show ?thesis by (simp add: sval_def)
next
  case False
  then have "trunc 64 z = z + 2 ^ 64"
    using assms mod_pos_pos_trivial [of "z + 2 ^ 64" "2 ^ 64"] by (simp add: trunc_def)
  then show ?thesis using False assms by (simp add: sval_def)
qed

lemma trunc_int_op:
  "k \<in> {B_add, B_sub, B_mul} \<Longrightarrow> trunc w (int_op k (trunc w x) (trunc w y)) = trunc w (int_op k x y)"
  by (auto simp: trunc_def mod_simps)

lemma eval_bin_int_op: "k \<in> {B_add, B_sub, B_mul} \<Longrightarrow> eval_bin k w x y = Val (trunc w (int_op k x y))"
  by auto

text \<open>The operands' values, and how far the result can be from the range of the type.\<close>

lemma int_value_bounds:
  assumes "in_range d v" "is_int (Dt d)" "dtype_bits d < 64"
  shows "if d \<in> set SINT_TYPES then - (2 ^ 31) \<le> int_value d v \<and> int_value d v < 2 ^ 31
         else 0 \<le> int_value d v \<and> int_value d v < 2 ^ 32"
  using assms by (cases d) (auto simp: in_range_def int_value_def sval_def dtype_tables)

lemma mul_bound: "\<bar>x\<bar> \<le> a \<Longrightarrow> \<bar>y\<bar> \<le> c \<Longrightarrow> \<bar>x * y\<bar> \<le> a * (c::int)"
  by (simp add: abs_mult mult_mono')

lemma int_op_bounds:
  assumes k: "k \<in> {B_add, B_sub, B_mul}"
    and x: "if sg then - (2 ^ 31) \<le> x \<and> x < 2 ^ 31 else 0 \<le> x \<and> x < 2 ^ 32"
    and y: "if sg then - (2 ^ 31) \<le> y \<and> y < 2 ^ 31 else 0 \<le> y \<and> y < 2 ^ 32"
  shows "- (2 ^ 63) \<le> int_op k x y" "if sg then int_op k x y < 2 ^ 63 else int_op k x y < 2 ^ 64"
proof -
  have "\<bar>x * y\<bar> \<le> 2 ^ 31 * 2 ^ 31" if sg
    using x y that by (intro mul_bound) auto
  moreover have "\<bar>x * y\<bar> \<le> (2 ^ 32 - 1) * (2 ^ 32 - 1)" if "\<not> sg"
    using x y that by (intro mul_bound) auto
  moreover have "- (2 ^ 63) \<le> x * y" if "\<not> sg"
    by (rule order_trans [of _ 0]) (use x y that in simp_all)
  ultimately show "- (2 ^ 63) \<le> int_op k x y" "if sg then int_op k x y < 2 ^ 63 else int_op k x y < 2 ^ 64"
    using k x y by (auto split: if_splits)
qed

lemma fits_limits:
  assumes "is_int (Dt d)" "dtype_bits d < 64" "get_int_min_value (Dt d) = Inr lo" "get_int_max_value (Dt d) = Inr hi"
  shows "fits d z \<longleftrightarrow> lo \<le> z \<and> z \<le> hi" "- (2 ^ 63) \<le> lo" "hi < 2 ^ 32" "lo \<le> 0"
    "d \<notin> set SINT_TYPES \<Longrightarrow> lo = 0" "- (2 ^ 63) \<le> hi"
  using assms by (cases d; auto simp: fits_def get_int_min_value_def get_int_max_value_def dtype_tables)+

text \<open>The assertion's condition, computed on the patterns, decides whether the exact result fits.\<close>

lemma check_exact:
  assumes k: "k \<in> {B_add, B_sub, B_mul}" and d: "is_int (Dt d)" "dtype_bits d < 64"
    and r: "in_range d u" "in_range d v"
    and lim: "get_int_min_value (Dt d) = Inr lo" "get_int_max_value (Dt d) = Inr hi"
  shows "sval 64 (trunc 64 (int_op k (trunc 64 (int_value d u)) (trunc 64 (int_value d v)))) \<le> sval 64 (trunc 64 hi) \<and>
         sval 64 (trunc 64 lo) \<le> sval 64 (trunc 64 (int_op k (trunc 64 (int_value d u)) (trunc 64 (int_value d v)))) \<longleftrightarrow>
         fits d (int_op k (int_value d u) (int_value d v))"
proof -
  let ?z = "int_op k (int_value d u) (int_value d v)"
  note z = int_op_bounds [OF k int_value_bounds [OF r(1) d] int_value_bounds [OF r(2) d]]
  note f = fits_limits [OF d lim]
  have "sval 64 (trunc 64 lo) = lo" "sval 64 (trunc 64 hi) = hi"
    using f by (simp_all add: sval_trunc)
  moreover have "sval 64 (trunc 64 ?z) = (if ?z < 2 ^ 63 then ?z else ?z - 2 ^ 64)"
    using z by (intro sval_trunc) (auto split: if_splits)
  moreover have "d \<in> set SINT_TYPES \<Longrightarrow> ?z < 2 ^ 63" using z(2) by simp
  ultimately show ?thesis
    using f z by (auto simp: trunc_int_op [OF k] split: if_splits)
qed

text \<open>The result of the operation itself, when the exact result fits.\<close>

lemma int_value_trunc:
  assumes "is_int (Dt d)" "dtype_bits d < 64" "fits d z"
  shows "int_value d (trunc (dtype_bits d) z) = z"
proof -
  have "z mod 2 ^ nat (dtype_bits d) = (if 0 \<le> z then z else z + 2 ^ nat (dtype_bits d))"
    if "- (2 ^ nat (dtype_bits d)) \<le> z" "z < 2 ^ nat (dtype_bits d)"
    using that mod_pos_pos_trivial [of "z + 2 ^ nat (dtype_bits d)" "2 ^ nat (dtype_bits d)"] by simp
  then show ?thesis using assms
    by (cases d) (auto simp: fits_def get_int_min_value_def get_int_max_value_def int_value_def sval_def trunc_def dtype_tables)
qed

lemma eval_casts:
  assumes "is_int (Dt d)" "vt ! h = dtype_ir d"
  shows "eval_op vt env (CastOp (K_int_cast (d \<in> set SINT_TYPES)) h (IRInt 64)) = Val (trunc 64 (int_value d (env h)))"
  using assms by (cases d) (auto simp: int_value_def dtype_tables)

lemma check_log_exec:
  fixes env :: env
  assumes k: "k \<in> {B_add, B_sub, B_mul}" and d: "is_int (Dt d)" "dtype_bits d < 64"
    and lim: "get_int_min_value (Dt d) = Inr lo" "get_int_max_value (Dt d) = Inr hi"
    and xy: "x < n" "y < n" "vt ! x = dtype_ir d" "vt ! y = dtype_ir d"
    and vt: "\<And>i. i < 8 \<Longrightarrow> vt ! (n + i) = check_tys ! i"
    and r: "in_range d (env x)" "in_range d (env y)"
  shows "exec vt (check_log d k msg n lo hi x y @ rest) env =
     (if fits d (int_op k (int_value d (env x)) (int_value d (env y)))
      then exec vt rest (env(n := trunc 64 (int_value d (env x)), n + 1 := trunc 64 (int_value d (env y)),
        n + 2 := trunc 64 (int_op k (trunc 64 (int_value d (env x))) (trunc 64 (int_value d (env y)))),
        n + 3 := trunc 64 hi, n + 4 := trunc 64 lo, n + 5 := 1, n + 6 := 1, n + 7 := 1))
      else Trap)"
proof -
  have w: "vt ! n = IRInt 64" "vt ! (n + 1) = IRInt 64" "vt ! (n + 2) = IRInt 64" "vt ! (n + 5) = IRInt 1"
    using vt [of 0] vt [of 1] vt [of 2] vt [of 5] by (simp_all add: check_tys_def)
  have neq: "x \<noteq> n" "y \<noteq> n" "x \<noteq> Suc n" "y \<noteq> Suc n" using xy by auto
  note cx = eval_casts [OF d(1) xy(3)] and cy = eval_casts [OF d(1) xy(4)]
  show ?thesis
    unfolding check_exact [OF k d r lim, symmetric]
    using w neq by (simp add: check_log_def cx cy eval_bin_int_op [OF k] del: eval_bin.simps(1-3) eval_op_simps(4))
qed

lemma sanitized_run:
  assumes lim: "get_int_min_value (Dt d) = Inr lo" "get_int_max_value (Dt d) = Inr hi"
    and xy: "handle x < length (vtys s)" "vtys s ! handle x = dtype_ir d"
  defines "n \<equiv> length (vtys s)"
  shows "sanitized b d k name x y s = Inr (\<lparr>handle = n + 8, ttype = Dt d\<rparr>, s\<lparr>vtys := vtys s @ check_tys @ [dtype_ir d],
     insts := insts s @ check_log d k (''int'' @ decimal (dtype_bits d) @ '' overflow detected for operation '' @ name)
       n lo hi (handle x) (handle y) @ [(Bin k (handle x) (handle y), [n + 8])]\<rparr>)"
proof -
  have "length check_tys = 8" by (simp add: check_tys_def)
  then show ?thesis
    using xy by (simp add: sanitized_def bind_def sanitize_log_run [OF lim] create_tensor_def create_def emit_def
        m_defs Let_def n_def nth_append)
qed

lemma sanitized_run':
  assumes "get_int_min_value (Dt d) = Inr lo" "get_int_max_value (Dt d) = Inr hi"
    and "handle x < length (vtys s)" "vtys s ! handle x = dtype_ir d"
  shows "\<exists>s'. sanitized b d k name x y s = Inr (\<lparr>handle = length (vtys s) + 8, ttype = Dt d\<rparr>, s') \<and>
     vtys s' = vtys s @ check_tys @ [dtype_ir d] \<and>
     insts s' = insts s @ check_log d k (''int'' @ decimal (dtype_bits d) @ '' overflow detected for operation '' @ name)
       (length (vtys s)) lo hi (handle x) (handle y) @ [(Bin k (handle x) (handle y), [length (vtys s) + 8])]"
  unfolding sanitized_run [OF assms] by simp

lemma trunc_int_value: "in_range d v \<Longrightarrow> is_int (Dt d) \<Longrightarrow> trunc (dtype_bits d) (int_value d v) = v"
proof -
  assume v: "in_range d v" and d: "is_int (Dt d)"
  have "trunc (dtype_bits d) v = v" using v by (simp add: in_range_def trunc_def)
  moreover have "trunc w (v - 2 ^ nat w) = trunc w v" for w by (simp add: trunc_def)
  ultimately show ?thesis by (simp add: int_value_def sval_def)
qed

theorem sanitized_op_exact:
  assumes f: "(k, f) \<in> {(B_add, add b), (B_sub, sub b), (B_mul, mul b)}"
    and b: "sanitize_overflow b" "debug b"
    and d: "is_int (Dt d)" "dtype_bits d < 64"
    and x: "tensor_ok s x" "ttype x = Dt d" and y: "tensor_ok s y" "ttype y = Dt d"
  shows "\<exists>r s' lg. f (VTensor x) (VTensor y) True s = Inr (r, s') \<and> ttype r = Dt d \<and> insts s' = insts s @ lg \<and>
    (\<forall>env. in_range d (env (handle x)) \<and> in_range d (env (handle y)) \<longrightarrow>
      (let z = int_op k (int_value d (env (handle x))) (int_value d (env (handle y))) in
       if fits d z then \<exists>env'. exec (vtys s') lg env = Done env' \<and> int_value d (env' (handle r)) = z
       else exec (vtys s') lg env = Trap))"
proof -
  have k: "k \<in> {B_add, B_sub, B_mul}" using f by auto
  obtain name where fs: "f (VTensor x) (VTensor y) True = sanitized b d k name x y"
    using f int_ops_sanitized [OF x(2) y(2) d b] by auto
  obtain lo hi where lim: "get_int_min_value (Dt d) = Inr lo" "get_int_max_value (Dt d) = Inr hi"
    using int_limits [OF d] by metis
  let ?n = "length (vtys s)" and ?vt = "vtys s @ check_tys @ [dtype_ir d]"
  let ?msg = "''int'' @ decimal (dtype_bits d) @ '' overflow detected for operation '' @ name"
  let ?lg = "check_log d k ?msg ?n lo hi (handle x) (handle y) @ [(Bin k (handle x) (handle y), [?n + 8])]"
  have xy: "handle x < ?n" "vtys s ! handle x = dtype_ir d" "handle y < ?n" "vtys s ! handle y = dtype_ir d"
    using x y by (simp_all add: tensor_ok_def)
  have len: "length check_tys = 8" by (simp add: check_tys_def)
  have vt: "?vt ! handle x = dtype_ir d" "?vt ! handle y = dtype_ir d"
      "i < 8 \<Longrightarrow> ?vt ! (?n + i) = check_tys ! i" for i
    using xy len by (simp_all add: nth_append)
  have w: "ir_width (dtype_ir d) = dtype_bits d" using d(1) by (cases d) (simp_all add: dtype_tables)
  have main: "let z = int_op k (int_value d (env (handle x))) (int_value d (env (handle y))) in
       if fits d z then \<exists>env'. exec ?vt ?lg env = Done env' \<and> int_value d (env' (?n + 8)) = z
       else exec ?vt ?lg env = Trap"
    if r: "in_range d (env (handle x))" "in_range d (env (handle y))" for env
  proof -
    let ?u = "env (handle x)" and ?v = "env (handle y)"
    have "trunc (dtype_bits d) (int_op k ?u ?v) = trunc (dtype_bits d) (int_op k (int_value d ?u) (int_value d ?v))"
      using trunc_int_op [OF k, of "dtype_bits d" "int_value d ?u" "int_value d ?v"] r
      by (simp add: trunc_int_value [OF _ d(1)])
    then show ?thesis
      using check_log_exec [OF k d lim xy(1,3) vt r, of ?msg "[(Bin k (handle x) (handle y), [?n + 8])]"] xy
        int_value_trunc [OF d]
      by (auto simp: Let_def vt w eval_bin_int_op [OF k] simp del: eval_bin.simps(1-3))
  qed
  obtain s' where run: "f (VTensor x) (VTensor y) True s = Inr (\<lparr>handle = ?n + 8, ttype = Dt d\<rparr>, s')"
      and s': "vtys s' = ?vt" "insts s' = insts s @ ?lg"
    unfolding fs using sanitized_run' [OF lim xy(1,2)] by blast
  show ?thesis
    by (rule exI [of _ "\<lparr>handle = ?n + 8, ttype = Dt d\<rparr>"], rule exI [of _ s'], rule exI [of _ ?lg],
        unfold s' tensor.simps, intro conjI refl run allI impI, elim conjE, rule main)
qed

end
