(* ===== verification/Semantic_Atomic.thy ===== *)
theory Semantic_Atomic
  imports Semantic_Memory
begin

text \<open>
  Atomic operations of \<open>semantic.py\<close>: compare-and-swap and the read-modify-write operations, with
  the translation of the floating-point maximum and minimum to integer atomics on the bit patterns;
  and their user-level functions in \<open>core.py\<close>.
\<close>

definition atomic_cas :: "builder \<Rightarrow> tensor \<Rightarrow> tensor \<Rightarrow> tensor \<Rightarrow> string \<Rightarrow> string \<Rightarrow> tensor B" where
  "atomic_cas b ptr cmp val sem scope =
     bind (lift_r (str_to_sem sem)) (\<lambda>sem.
     bind (lift_r (str_to_scope scope)) (\<lambda>scope.
     bind (lift_r (bind_r (element_ty (scalar (ttype ptr))) primitive_bitwidth)) (\<lambda>width.
     if width \<notin> {16, 32, 64} then raise ValueError
     else create_tensor (AtomicCas (handle ptr) (handle cmp) (handle val) sem scope) (ttype val))))"

text \<open>\<open>op\<close> is the name of the operation; the result is the pointer, the value and the mask.\<close>

definition atom_red_typechecking_impl ::
  "builder \<Rightarrow> tensor \<Rightarrow> tensor \<Rightarrow> tensor option \<Rightarrow> string \<Rightarrow> (tensor \<times> tensor \<times> tensor) B" where
  "atom_red_typechecking_impl b ptr val msk op =
     bind (check (is_ptr (scalar (ttype ptr))) ValueError) (\<lambda>_.
     bind (lift_r (element_ty (ttype ptr))) (\<lambda>e.
     bind (check (\<not> (is_const (ttype ptr) \<or> is_const e)) ValueError) (\<lambda>_.
     bind (lift_r (element_ty (scalar (ttype ptr)))) (\<lambda>elem_ty.
     bind (check (\<not> (elem_ty = Dt Fp16 \<and> op \<noteq> ''add'')) ValueError) (\<lambda>_.
     bind (check (elem_ty \<notin> {Dt Int1, Dt Int8, Dt Int16, Dt Bf16}) ValueError) (\<lambda>_.
     bind (if is_block (ttype ptr) then broadcast_optional b (ttype ptr) msk else return msk) (\<lambda>msk.
     bind (if is_block (ttype ptr)
           then bind (lift_r (get_block_shapes (ttype ptr))) (\<lambda>shape. broadcast_impl_shape b val shape)
           else return val) (\<lambda>val.
     bind (cast b val elem_ty None) (\<lambda>val.
     bind (case msk of
             Some m \<Rightarrow> return m
           | None \<Rightarrow>
               bind (create_tensor (Constant (IRInt 1) (NBool True)) (Dt Int1)) (\<lambda>one.
               if is_block (ttype ptr) then
                 bind (lift_r (get_block_shapes (ttype ptr))) (\<lambda>shape.
                 bind (lift_r (block_type (Dt Int1) shape)) (\<lambda>mask_ty.
                 create_tensor (Splat (handle one) shape) mask_ty))
               else return one)) (\<lambda>msk.
     return (ptr, val, msk)))))))))))"

definition atomic_max ::
  "builder \<Rightarrow> tensor \<Rightarrow> tensor \<Rightarrow> tensor option \<Rightarrow> string \<Rightarrow> string \<Rightarrow> tensor B" where
  "atomic_max b ptr val msk sem scope =
     bind (atom_red_typechecking_impl b ptr val msk ''max'') (\<lambda>(ptr, val, msk).
     bind (lift_r (str_to_sem sem)) (\<lambda>sem.
     bind (lift_r (str_to_scope scope)) (\<lambda>scope.
     let sca_ty = scalar (ttype val) in
     if is_int sca_ty then
       create_tensor (AtomicRmw (if is_int_signed sca_ty then AT_MAX else AT_UMAX)
         (handle ptr) (handle val) (handle msk) sem scope) (ttype val)
     else if sca_ty \<notin> {Dt Fp32, Dt Fp64} then raise TypeError
     else
       bind (full b [] (VNum (NFloat (PyFin 0))) (Some sca_ty)) (\<lambda>zero.
       let i_type = (if sca_ty = Dt Fp32 then Dt Int32 else Dt Int64) in
       bind (bitcast b val i_type) (\<lambda>i_val.
       bind (bitcast b ptr (Ptr i_type 1 False)) (\<lambda>i_ptr.
       let ui_type = (if sca_ty = Dt Fp32 then Dt UInt32 else Dt UInt64) in
       bind (bitcast b val ui_type) (\<lambda>ui_val.
       bind (bitcast b ptr (Ptr ui_type 1 False)) (\<lambda>ui_ptr.
       bind (greater_equal b (VTensor val) (VTensor zero)) (\<lambda>pos.
       bind (less_than b (VTensor val) (VTensor zero)) (\<lambda>neg.
       bind (and_op b (VTensor msk) (VTensor pos)) (\<lambda>pos_mask.
       bind (create_tensor (AtomicRmw AT_MAX (handle i_ptr) (handle i_val) (handle pos_mask) sem scope)
               (ttype i_val)) (\<lambda>pos_ret.
       bind (and_op b (VTensor msk) (VTensor neg)) (\<lambda>neg_mask.
       bind (create_tensor (AtomicRmw AT_UMIN (handle ui_ptr) (handle ui_val) (handle neg_mask) sem scope)
               (ttype ui_val)) (\<lambda>neg_ret.
       bind (where_ty b pos (VTensor pos_ret) (VTensor neg_ret)) (\<lambda>ret.
       bitcast b ret sca_ty)))))))))))))))"

definition atomic_min ::
  "builder \<Rightarrow> tensor \<Rightarrow> tensor \<Rightarrow> tensor option \<Rightarrow> string \<Rightarrow> string \<Rightarrow> tensor B" where
  "atomic_min b ptr val msk sem scope =
     bind (atom_red_typechecking_impl b ptr val msk ''min'') (\<lambda>(ptr, val, msk).
     bind (lift_r (str_to_sem sem)) (\<lambda>sem.
     bind (lift_r (str_to_scope scope)) (\<lambda>scope.
     let sca_ty = scalar (ttype val) in
     if is_int sca_ty then
       create_tensor (AtomicRmw (if is_int_signed sca_ty then AT_MIN else AT_UMIN)
         (handle ptr) (handle val) (handle msk) sem scope) (ttype val)
     else if sca_ty \<notin> {Dt Fp32, Dt Fp64} then raise TypeError
     else
       bind (full b [] (VNum (NFloat (PyFin 0))) (Some sca_ty)) (\<lambda>zero.
       let i_type = (if sca_ty = Dt Fp32 then Dt Int32 else Dt Int64) in
       bind (bitcast b val i_type) (\<lambda>i_val.
       bind (bitcast b ptr (Ptr i_type 1 False)) (\<lambda>i_ptr.
       let ui_type = (if sca_ty = Dt Fp32 then Dt UInt32 else Dt UInt64) in
       bind (bitcast b val ui_type) (\<lambda>ui_val.
       bind (bitcast b ptr (Ptr ui_type 1 False)) (\<lambda>ui_ptr.
       bind (greater_equal b (VTensor val) (VTensor zero)) (\<lambda>pos.
       bind (less_than b (VTensor val) (VTensor zero)) (\<lambda>neg.
       bind (and_op b (VTensor msk) (VTensor pos)) (\<lambda>pos_mask.
       bind (create_tensor (AtomicRmw AT_MIN (handle i_ptr) (handle i_val) (handle pos_mask) sem scope)
               (ttype i_val)) (\<lambda>pos_ret.
       bind (and_op b (VTensor msk) (VTensor neg)) (\<lambda>neg_mask.
       bind (create_tensor (AtomicRmw AT_UMAX (handle ui_ptr) (handle ui_val) (handle neg_mask) sem scope)
               (ttype ui_ptr)) (\<lambda>neg_ret.
       bind (where_ty b pos (VTensor pos_ret) (VTensor neg_ret)) (\<lambda>ret.
       bitcast b ret sca_ty)))))))))))))))"

definition atomic_add ::
  "builder \<Rightarrow> tensor \<Rightarrow> tensor \<Rightarrow> tensor option \<Rightarrow> string \<Rightarrow> string \<Rightarrow> tensor B" where
  "atomic_add b ptr val msk sem scope =
     bind (atom_red_typechecking_impl b ptr val msk ''add'') (\<lambda>(ptr, val, msk).
     bind (lift_r (str_to_sem sem)) (\<lambda>sem.
     bind (lift_r (str_to_scope scope)) (\<lambda>scope.
     create_tensor (AtomicRmw (if is_floating (scalar (ttype val)) then AT_FADD else AT_ADD) (handle ptr) (handle val) (handle msk) sem scope) (ttype val))))"

definition atomic_and ::
  "builder \<Rightarrow> tensor \<Rightarrow> tensor \<Rightarrow> tensor option \<Rightarrow> string \<Rightarrow> string \<Rightarrow> tensor B" where
  "atomic_and b ptr val msk sem scope =
     bind (atom_red_typechecking_impl b ptr val msk ''and'') (\<lambda>(ptr, val, msk).
     bind (lift_r (str_to_sem sem)) (\<lambda>sem.
     bind (lift_r (str_to_scope scope)) (\<lambda>scope.
     create_tensor (AtomicRmw AT_AND (handle ptr) (handle val) (handle msk) sem scope) (ttype val))))"

definition atomic_or ::
  "builder \<Rightarrow> tensor \<Rightarrow> tensor \<Rightarrow> tensor option \<Rightarrow> string \<Rightarrow> string \<Rightarrow> tensor B" where
  "atomic_or b ptr val msk sem scope =
     bind (atom_red_typechecking_impl b ptr val msk ''or'') (\<lambda>(ptr, val, msk).
     bind (lift_r (str_to_sem sem)) (\<lambda>sem.
     bind (lift_r (str_to_scope scope)) (\<lambda>scope.
     create_tensor (AtomicRmw AT_OR (handle ptr) (handle val) (handle msk) sem scope) (ttype val))))"

definition atomic_xor ::
  "builder \<Rightarrow> tensor \<Rightarrow> tensor \<Rightarrow> tensor option \<Rightarrow> string \<Rightarrow> string \<Rightarrow> tensor B" where
  "atomic_xor b ptr val msk sem scope =
     bind (atom_red_typechecking_impl b ptr val msk ''xor'') (\<lambda>(ptr, val, msk).
     bind (lift_r (str_to_sem sem)) (\<lambda>sem.
     bind (lift_r (str_to_scope scope)) (\<lambda>scope.
     create_tensor (AtomicRmw AT_XOR (handle ptr) (handle val) (handle msk) sem scope) (ttype val))))"

definition atomic_xchg ::
  "builder \<Rightarrow> tensor \<Rightarrow> tensor \<Rightarrow> tensor option \<Rightarrow> string \<Rightarrow> string \<Rightarrow> tensor B" where
  "atomic_xchg b ptr val msk sem scope =
     bind (atom_red_typechecking_impl b ptr val msk ''xchg'') (\<lambda>(ptr, val, msk).
     bind (lift_r (str_to_sem sem)) (\<lambda>sem.
     bind (lift_r (str_to_scope scope)) (\<lambda>scope.
     create_tensor (AtomicRmw AT_XCHG (handle ptr) (handle val) (handle msk) sem scope) (ttype val))))"

section \<open>core.py\<close>

text \<open>
  Each user-level function converts the value and passes the mask on as it is (\<open>None\<close> or a tensor).
\<close>

definition core_atomic_rmw ::
  "(builder \<Rightarrow> tensor \<Rightarrow> tensor \<Rightarrow> tensor option \<Rightarrow> string \<Rightarrow> string \<Rightarrow> tensor B) \<Rightarrow>
     builder \<Rightarrow> tensor \<Rightarrow> pyval \<Rightarrow> tensor option \<Rightarrow> string \<Rightarrow> string \<Rightarrow> tensor B" where
  "core_atomic_rmw rmw b pointer val msk sem scope =
     bind (to_tensor b val True) (\<lambda>val.
     bind (lift_r (as_tensor val)) (\<lambda>val.
     rmw b pointer val msk sem scope))"

definition core_atomic_cas :: "builder \<Rightarrow> tensor \<Rightarrow> pyval \<Rightarrow> pyval \<Rightarrow> string \<Rightarrow> string \<Rightarrow> tensor B" where
  "core_atomic_cas b pointer cmp val sem scope =
     bind (to_tensor b cmp True) (\<lambda>cmp.
     bind (lift_r (as_tensor cmp)) (\<lambda>cmp.
     bind (to_tensor b val True) (\<lambda>val.
     bind (lift_r (as_tensor val)) (\<lambda>val.
     atomic_cas b pointer cmp val sem scope))))"

definition core_atomic_xchg where "core_atomic_xchg = core_atomic_rmw atomic_xchg"
definition core_atomic_add where "core_atomic_add = core_atomic_rmw atomic_add"
definition core_atomic_max where "core_atomic_max = core_atomic_rmw atomic_max"
definition core_atomic_min where "core_atomic_min = core_atomic_rmw atomic_min"
definition core_atomic_and where "core_atomic_and = core_atomic_rmw atomic_and"
definition core_atomic_or where "core_atomic_or = core_atomic_rmw atomic_or"
definition core_atomic_xor where "core_atomic_xor = core_atomic_rmw atomic_xor"

end
