(* ===== verification/Semantic_Dot.thy ===== *)
theory Semantic_Dot
  imports Semantic_Memory
begin

text \<open>
  Matrix products (\<open>dot\<close>, \<open>dot_scaled\<close>) and the debugging and hint operations of \<open>semantic.py\<close>,
  with \<open>dot\<close> of \<open>core.py\<close>.
\<close>

section \<open>Matrix products\<close>

definition lower_char :: "char \<Rightarrow> char" where
  "lower_char c = (let n = (of_char c :: nat) in if 65 \<le> n \<and> n \<le> 90 then char_of (n + 32) else c)"

definition upper_char :: "char \<Rightarrow> char" where
  "upper_char c = (let n = (of_char c :: nat) in if 97 \<le> n \<and> n \<le> 122 then char_of (n - 32) else c)"

definition str_to_dot_input_precision :: "builder \<Rightarrow> string \<Rightarrow> input_precision result" where
  "str_to_dot_input_precision b precision =
     bind_r (check_r (map lower_char precision \<in> set (allowed_dot_input_precisions b)) AssertionError) (\<lambda>_.
     let p = map upper_char precision; p = (if p = ''TF32X3'' then ''TF32x3'' else p) in
     if p = ''TF32'' then Inr TF32
     else if p = ''TF32x3'' then Inr TF32x3
     else if p = ''IEEE'' then Inr IEEE
     else Inl AttributeError)"

text \<open>The shape of the product: \<open>B\<close> is the batch dimension of three-dimensional operands.\<close>

definition dot_shape :: "int list \<Rightarrow> int list \<Rightarrow> int list" where
  "dot_shape lhs rhs =
     (let M = lhs ! (length lhs - 2); N = last rhs; batch = (if length lhs = 3 then hd lhs else 0)
      in if batch \<noteq> 0 then [batch, M, N] else [M, N])"

text \<open>The zero of the accumulator and the scalar type of the result.\<close>

definition dot_accumulator :: "ty \<Rightarrow> ty \<Rightarrow> (ty \<times> ty) result" where
  "dot_accumulator lhs_sca_ty out_dtype =
     (if is_int lhs_sca_ty then
        bind_r (check_r (lhs_sca_ty = Dt Int8) AssertionError) (\<lambda>_. Inr (Dt Int32, Dt Int32))
      else if is_bf16 out_dtype then Inl ValueError
      else if is_fp32 lhs_sca_ty \<or> is_bf16 lhs_sca_ty then Inr (Dt Fp32, Dt Fp32)
      else Inr (if is_fp16 out_dtype then Dt Fp16 else Dt Fp32, out_dtype))"

definition dot_imprecise_acc :: "builder \<Rightarrow> ty \<Rightarrow> ty \<Rightarrow> int option \<Rightarrow> int \<Rightarrow> int result" where
  "dot_imprecise_acc b lhs_ty rhs_ty max_num_imprecise_acc K =
     (case max_num_imprecise_acc of
        None \<Rightarrow> Inr (if is_fp8 lhs_ty \<and> is_fp8 rhs_ty then max_num_imprecise_acc_default b else 0)
      | Some m \<Rightarrow> if is_fp8 lhs_ty \<and> is_fp8 rhs_ty \<and> m > K then Inl ValueError else Inr m)"

definition dot_dtypes_ok :: "ty \<Rightarrow> ty \<Rightarrow> bool" where
  "dot_dtypes_ok lhs rhs =
     (is_fp8 lhs \<and> is_fp8 rhs \<or>
      lhs \<in> {Dt Int8, Dt UInt8, Dt Fp16, Dt Bf16, Dt Fp32} \<and>
      rhs \<in> {Dt Int8, Dt UInt8, Dt Fp16, Dt Bf16, Dt Fp32} \<and> lhs = rhs)"

definition dot_shapes_ok :: "int list \<Rightarrow> int list \<Rightarrow> bool" where
  "dot_shapes_ok lhs rhs =
     ((length lhs = 2 \<and> length rhs = 2 \<or> length lhs = 3 \<and> length rhs = 3) \<and>
      last lhs = rhs ! (length rhs - 2))"

definition dot ::
  "builder \<Rightarrow> tensor \<Rightarrow> tensor \<Rightarrow> tensor option \<Rightarrow> string option \<Rightarrow> int option \<Rightarrow> ty \<Rightarrow> tensor B" where
  "dot b lhs rhs acc precision max_num_imprecise_acc out_dtype =
     bind (check (is_block (ttype lhs) \<and> is_block (ttype rhs)) AssertionError) (\<lambda>_.
     bind (check (dot_dtypes_ok (tensor_dtype lhs) (tensor_dtype rhs)) AssertionError) (\<lambda>_.
     let e4b15 = is_fp8e4b15 (tensor_dtype lhs) \<or> is_fp8e4b15 (tensor_dtype rhs) in
     bind (if e4b15 then cast b lhs (Dt Fp16) None else return lhs) (\<lambda>lhs.
     bind (if e4b15 then cast b rhs (Dt Fp16) None else return rhs) (\<lambda>rhs.
     bind (lift_r (str_to_dot_input_precision b
             (case precision of None \<Rightarrow> default_dot_input_precision b | Some p \<Rightarrow> p))) (\<lambda>precision.
     bind (check (dot_shapes_ok (tensor_shape lhs) (tensor_shape rhs)) AssertionError) (\<lambda>_.
     bind (case min_dot_size b of None \<Rightarrow> raise AssertionError | Some f \<Rightarrow> return (f (ttype lhs) (ttype rhs)))
       (\<lambda>(min_m, min_n, min_k).
     let M = tensor_shape lhs ! (length (tensor_shape lhs) - 2); K = last (tensor_shape lhs);
         N = last (tensor_shape rhs); ret_shape = dot_shape (tensor_shape lhs) (tensor_shape rhs) in
     bind (check (M \<ge> min_m \<and> K \<ge> min_k \<and> N \<ge> min_n) AssertionError) (\<lambda>_.
     bind (lift_r (dot_accumulator (scalar (ttype lhs)) out_dtype)) (\<lambda>(zero_ty, ret_scalar_ty).
     bind (get_value_fn zero_ty (NInt 0)) (\<lambda>zero.
     bind (lift_r (block_type ret_scalar_ty ret_shape)) (\<lambda>ret_ty.
     bind (case acc of
             None \<Rightarrow> create (Splat zero ret_shape)
           | Some acc \<Rightarrow> bind (check (ttype acc = ret_ty) AssertionError) (\<lambda>_. return (handle acc))) (\<lambda>acc_handle.
     bind (lift_r (dot_imprecise_acc b (tensor_dtype lhs) (tensor_dtype rhs) max_num_imprecise_acc K)) (\<lambda>imprecise.
     create_tensor (DotOp (handle lhs) (handle rhs) acc_handle precision imprecise) ret_ty)))))))))))))"

definition str_to_fp_type :: "string \<Rightarrow> f8f6f4_type result" where
  "str_to_fp_type float_format =
     (if float_format = ''e4m3'' then Inr E4M3
      else if float_format = ''e5m2'' then Inr E5M2
      else if float_format = ''e2m3'' then Inr E2M3
      else if float_format = ''e3m2'' then Inr E3M2
      else if float_format = ''e2m1'' then Inr E2M1
      else Inl ValueError)"

text \<open>\<open>rhs_scale_is_none\<close>: the argument is \<open>constexpr(None)\<close>, the only value accepted.\<close>

definition dot_scaled ::
  "builder \<Rightarrow> tensor \<Rightarrow> tensor \<Rightarrow> string \<Rightarrow> tensor \<Rightarrow> bool \<Rightarrow> string \<Rightarrow> tensor option \<Rightarrow> ty \<Rightarrow> tensor B" where
  "dot_scaled b lhs lhs_scale lhs_format rhs rhs_scale_is_none rhs_format acc out_dtype =
     bind (check (is_block (ttype lhs) \<and> is_block (ttype rhs)) AssertionError) (\<lambda>_.
     let ls = tensor_shape lhs; rs = tensor_shape rhs in
     bind (check (length ls = 2 \<and> length rs = 2 \<or> length ls = 3 \<and> length rs = 3) AssertionError) (\<lambda>_.
     bind (lift_r (str_to_fp_type lhs_format)) (\<lambda>lhs_format_enum.
     bind (lift_r (str_to_fp_type rhs_format)) (\<lambda>rhs_format_enum.
     bind (check (lhs_format \<in> {''e2m1'', ''e4m3'', ''e5m2''}) AssertionError) (\<lambda>_.
     bind (check (rhs_format \<in> {''e4m3'', ''e5m2''}) AssertionError) (\<lambda>_.
     bind (check rhs_scale_is_none AssertionError) (\<lambda>_.
     let K = rs ! (length rs - 2); packed = (if lhs_format = ''e2m1'' then 2 else 1) in
     bind (check (K = packed * last ls) AssertionError) (\<lambda>_.
     bind (check (K \<ge> 64) AssertionError) (\<lambda>_.
     let ret_shape = dot_shape ls rs in
     bind (lift_r (block_type out_dtype ret_shape)) (\<lambda>ret_ty.
     bind (get_value_fn (Dt Fp32) (NInt 0)) (\<lambda>zero.
     bind (case acc of
             None \<Rightarrow> create (Splat zero ret_shape)
           | Some acc \<Rightarrow> bind (check (ttype acc = ret_ty) AssertionError) (\<lambda>_. return (handle acc))) (\<lambda>acc_handle.
     create_tensor (DotScaledOp (handle lhs) (handle lhs_scale) lhs_format_enum (handle rhs) None
       rhs_format_enum acc_handle) ret_ty))))))))))))"

text \<open>
  \<open>core.dot\<close>: the precision not given explicitly comes from the environment variable
  \<open>TRITON_F32_DEFAULT\<close> (a parameter: \<open>None\<close> when it is not set) or from \<open>allow_tf32\<close> and the target.
\<close>

definition core_dot ::
  "string option \<Rightarrow> builder \<Rightarrow> tensor \<Rightarrow> tensor \<Rightarrow> tensor option \<Rightarrow> string option \<Rightarrow> bool option \<Rightarrow>
     int option \<Rightarrow> ty \<Rightarrow> tensor B" where
  "core_dot env_default b input other acc precision allow_tf32 max_num_imprecise_acc out_dtype =
     bind (check (precision = None \<or> allow_tf32 = None) AssertionError) (\<lambda>_.
     let supports_tf32 = ''tf32'' \<in> set (allowed_dot_input_precisions b);
         default_precision = (if supports_tf32 \<and> allow_tf32 \<noteq> Some False then ''tf32'' else ''ieee'');
         precision = (case precision of
             None \<Rightarrow> (case env_default of None \<Rightarrow> default_precision | Some p \<Rightarrow> p)
           | Some p \<Rightarrow> p) in
     dot b input other acc (Some precision) max_num_imprecise_acc out_dtype)"

definition core_dot_scaled ::
  "builder \<Rightarrow> tensor \<Rightarrow> tensor \<Rightarrow> string \<Rightarrow> tensor \<Rightarrow> bool \<Rightarrow> string \<Rightarrow> tensor option \<Rightarrow> ty \<Rightarrow> tensor B" where
  "core_dot_scaled b lhs lhs_scale lhs_format rhs rhs_scale_is_none rhs_format acc out_dtype =
     bind (check (out_dtype = Dt Fp32) AssertionError) (\<lambda>_.
     dot_scaled b lhs lhs_scale lhs_format rhs rhs_scale_is_none rhs_format acc out_dtype)"

section \<open>Debugging and synchronisation\<close>

definition debug_barrier :: "builder \<Rightarrow> unit B" where
  "debug_barrier b = create_void Barrier"

definition device_timestamp :: "builder \<Rightarrow> tensor B" where
  "device_timestamp b = create_tensor Timestamp (Dt Int64)"

definition ends_with :: "string \<Rightarrow> string \<Rightarrow> bool" where
  "ends_with suffix s = (length suffix \<le> length s \<and> drop (length s - length suffix) s = suffix)"

definition print_prefix :: "string \<Rightarrow> bool \<Rightarrow> string" where
  "print_prefix prefix has_args =
     (let prefix = (if \<not> ends_with '' '' prefix \<and> has_args then prefix @ '' '' else prefix);
          prefix = (if \<not> ends_with '': '' prefix \<and> has_args then butlast prefix @ '': '' else prefix);
          prefix = (if length prefix > 2 \<and> take 1 prefix \<noteq> '' '' then '' '' @ prefix else prefix)
      in prefix)"

definition device_print :: "builder \<Rightarrow> string \<Rightarrow> tensor list \<Rightarrow> bool \<Rightarrow> unit B" where
  "device_print b prefix args hex =
     create_void (Print (print_prefix prefix (args \<noteq> [])) hex (map handle args)
       (map (\<lambda>t. tensor_dtype t \<in> {Dt Int1, Dt Int8, Dt Int16, Dt Int32, Dt Int64}) args))"

definition assume_op :: "builder \<Rightarrow> tensor \<Rightarrow> unit B" where
  "assume_op b cond = create_void (Assume (handle cond))"

text \<open>\<open>core.device_print\<close> accepts printable ASCII only (\<open>string.printable\<close>).\<close>

definition printable :: "char \<Rightarrow> bool" where
  "printable c = (let n = (of_char c :: nat) in 32 \<le> n \<and> n \<le> 126 \<or> 9 \<le> n \<and> n \<le> 13)"

definition core_device_print :: "builder \<Rightarrow> string \<Rightarrow> pyval list \<Rightarrow> bool \<Rightarrow> unit B" where
  "core_device_print b prefix args hex =
     bind (check (\<forall>c \<in> set prefix. printable c) AssertionError) (\<lambda>_.
     bind (map_m (\<lambda>x. bind (to_tensor b x True) (\<lambda>v. lift_r (as_tensor v))) args) (\<lambda>new_args.
     device_print b prefix new_args hex))"

definition core_device_assert :: "builder \<Rightarrow> pyval \<Rightarrow> string \<Rightarrow> unit B" where
  "core_device_assert b cond msg =
     bind (to_tensor b cond True) (\<lambda>v.
     bind (lift_r (as_tensor v)) (\<lambda>t. device_assert b t msg))"

end
