(* ===== verification/Core_Ops.thy ===== *)
theory Core_Ops
  imports Semantic_Arith
begin

text \<open>
  The operator methods of class \<open>tensor\<close> and the arithmetic functions of
  \<open>python/triton/language/core.py\<close>: each unwraps a \<open>constexpr\<close> operand (comparisons and the logical
  operators convert it to a tensor) and calls the function of \<open>semantic.py\<close>.
\<close>

definition unwrap_if_constexpr :: "pyval \<Rightarrow> pyval" where
  "unwrap_if_constexpr v = (case v of VConstexpr x \<Rightarrow> x | _ \<Rightarrow> v)"

definition to_tensor_value :: "builder \<Rightarrow> pyval \<Rightarrow> tensor B" where
  "to_tensor_value b v = bind (to_tensor b v True) (\<lambda>w. lift_r (as_tensor w))"

section \<open>Free functions\<close>

definition core_add :: "builder \<Rightarrow> pyval \<Rightarrow> pyval \<Rightarrow> bool \<Rightarrow> tensor B" where
  "core_add b x y sanitize = add b (unwrap_if_constexpr x) (unwrap_if_constexpr y) sanitize"

definition core_sub :: "builder \<Rightarrow> pyval \<Rightarrow> pyval \<Rightarrow> bool \<Rightarrow> tensor B" where
  "core_sub b x y sanitize = sub b (unwrap_if_constexpr x) (unwrap_if_constexpr y) sanitize"

definition core_mul :: "builder \<Rightarrow> pyval \<Rightarrow> pyval \<Rightarrow> bool \<Rightarrow> tensor B" where
  "core_mul b x y sanitize = mul b (unwrap_if_constexpr x) (unwrap_if_constexpr y) sanitize"

definition promote_bfloat16 :: "builder \<Rightarrow> pyval \<Rightarrow> pyval B" where
  "promote_bfloat16 b v =
     bind (to_tensor_value b v) (\<lambda>t.
     bind (if scalar (ttype t) = Dt Bf16 then cast b t (Dt Fp32) None else return t) (\<lambda>t. return (VTensor t)))"

definition core_minimum :: "builder \<Rightarrow> pyval \<Rightarrow> pyval \<Rightarrow> propagate_nan \<Rightarrow> tensor B" where
  "core_minimum b x y propagate_nan =
     bind (to_tensor_value b x) (\<lambda>x.
     bind (to_tensor_value b y) (\<lambda>y.
     bind (promote_bfloat16 b (VTensor x)) (\<lambda>x.
     bind (promote_bfloat16 b (VTensor y)) (\<lambda>y.
     minimum b x y propagate_nan))))"

definition core_maximum :: "builder \<Rightarrow> pyval \<Rightarrow> pyval \<Rightarrow> propagate_nan \<Rightarrow> tensor B" where
  "core_maximum b x y propagate_nan =
     bind (to_tensor_value b x) (\<lambda>x.
     bind (to_tensor_value b y) (\<lambda>y.
     bind (promote_bfloat16 b (VTensor x)) (\<lambda>x.
     bind (promote_bfloat16 b (VTensor y)) (\<lambda>y.
     maximum b x y propagate_nan))))"

definition core_clamp :: "builder \<Rightarrow> pyval \<Rightarrow> pyval \<Rightarrow> pyval \<Rightarrow> propagate_nan \<Rightarrow> tensor B" where
  "core_clamp b x lo hi propagate_nan =
     bind (to_tensor_value b x) (\<lambda>x.
     bind (to_tensor_value b lo) (\<lambda>lo.
     bind (to_tensor_value b hi) (\<lambda>hi.
     bind (promote_bfloat16 b (VTensor x)) (\<lambda>x.
     bind (promote_bfloat16 b (VTensor lo)) (\<lambda>lo.
     bind (promote_bfloat16 b (VTensor hi)) (\<lambda>hi.
     clamp b x lo hi propagate_nan))))))"

section \<open>Operator methods\<close>

definition tensor_add :: "builder \<Rightarrow> tensor \<Rightarrow> pyval \<Rightarrow> tensor B" where
  "tensor_add b self other = core_add b (VTensor self) other True"

definition tensor_radd :: "builder \<Rightarrow> tensor \<Rightarrow> pyval \<Rightarrow> tensor B" where
  "tensor_radd b self other = core_add b other (VTensor self) True"

definition tensor_sub :: "builder \<Rightarrow> tensor \<Rightarrow> pyval \<Rightarrow> tensor B" where
  "tensor_sub b self other = core_sub b (VTensor self) other True"

definition tensor_rsub :: "builder \<Rightarrow> tensor \<Rightarrow> pyval \<Rightarrow> tensor B" where
  "tensor_rsub b self other = core_sub b other (VTensor self) True"

definition tensor_mul :: "builder \<Rightarrow> tensor \<Rightarrow> pyval \<Rightarrow> tensor B" where
  "tensor_mul b self other = core_mul b (VTensor self) other True"

definition tensor_rmul :: "builder \<Rightarrow> tensor \<Rightarrow> pyval \<Rightarrow> tensor B" where
  "tensor_rmul b self other = core_mul b other (VTensor self) True"

definition tensor_truediv :: "builder \<Rightarrow> tensor \<Rightarrow> pyval \<Rightarrow> tensor B" where
  "tensor_truediv b self other = truediv b (VTensor self) (unwrap_if_constexpr other)"

definition tensor_rtruediv :: "builder \<Rightarrow> tensor \<Rightarrow> pyval \<Rightarrow> tensor B" where
  "tensor_rtruediv b self other = truediv b (unwrap_if_constexpr other) (VTensor self)"

definition tensor_floordiv :: "builder \<Rightarrow> tensor \<Rightarrow> pyval \<Rightarrow> tensor B" where
  "tensor_floordiv b self other = floordiv b (VTensor self) (unwrap_if_constexpr other)"

definition tensor_rfloordiv :: "builder \<Rightarrow> tensor \<Rightarrow> pyval \<Rightarrow> tensor B" where
  "tensor_rfloordiv b self other = floordiv b (unwrap_if_constexpr other) (VTensor self)"

definition tensor_mod :: "builder \<Rightarrow> tensor \<Rightarrow> pyval \<Rightarrow> tensor B" where
  "tensor_mod b self other = mod_op b (VTensor self) (unwrap_if_constexpr other)"

definition tensor_rmod :: "builder \<Rightarrow> tensor \<Rightarrow> pyval \<Rightarrow> tensor B" where
  "tensor_rmod b self other = mod_op b (unwrap_if_constexpr other) (VTensor self)"

definition tensor_and :: "builder \<Rightarrow> tensor \<Rightarrow> pyval \<Rightarrow> tensor B" where
  "tensor_and b self other = and_op b (VTensor self) (unwrap_if_constexpr other)"

definition tensor_rand :: "builder \<Rightarrow> tensor \<Rightarrow> pyval \<Rightarrow> tensor B" where
  "tensor_rand b self other = and_op b (unwrap_if_constexpr other) (VTensor self)"

definition tensor_or :: "builder \<Rightarrow> tensor \<Rightarrow> pyval \<Rightarrow> tensor B" where
  "tensor_or b self other = or_op b (VTensor self) (unwrap_if_constexpr other)"

definition tensor_ror :: "builder \<Rightarrow> tensor \<Rightarrow> pyval \<Rightarrow> tensor B" where
  "tensor_ror b self other = or_op b (unwrap_if_constexpr other) (VTensor self)"

definition tensor_xor :: "builder \<Rightarrow> tensor \<Rightarrow> pyval \<Rightarrow> tensor B" where
  "tensor_xor b self other = xor_op b (VTensor self) (unwrap_if_constexpr other)"

definition tensor_rxor :: "builder \<Rightarrow> tensor \<Rightarrow> pyval \<Rightarrow> tensor B" where
  "tensor_rxor b self other = xor_op b (unwrap_if_constexpr other) (VTensor self)"

definition tensor_neg :: "builder \<Rightarrow> tensor \<Rightarrow> tensor B" where
  "tensor_neg b self = minus_op b self"

definition tensor_invert :: "builder \<Rightarrow> tensor \<Rightarrow> tensor B" where
  "tensor_invert b self = invert b self"

text \<open>
  Shifts first compare a \<open>constexpr\<close> shift with the width of the value, to warn; the comparison reads
  the width, so it raises on a pointer.
\<close>

definition check_bit_width :: "pyval \<Rightarrow> pyval \<Rightarrow> bool result" where
  "check_bit_width value shift_value = (case (value, shift_value) of
     (VTensor t, VConstexpr (VNum n)) \<Rightarrow>
       bind_r (primitive_bitwidth (scalar (ttype t))) (\<lambda>bitwidth.
       Inr (case n of
              NInt i \<Rightarrow> i \<ge> bitwidth
            | NBool v \<Rightarrow> (if v then 1 else 0) \<ge> bitwidth
            | NFloat (PyFin r) \<Rightarrow> r \<ge> of_int bitwidth
            | NFloat (PyInf neg) \<Rightarrow> \<not> neg
            | NFloat PyNaN \<Rightarrow> False))
   | (VTensor t, VConstexpr _) \<Rightarrow>
       bind_r (primitive_bitwidth (scalar (ttype t))) (\<lambda>_. Inl TypeError)
   | _ \<Rightarrow> Inr False)"

definition tensor_lshift :: "builder \<Rightarrow> tensor \<Rightarrow> pyval \<Rightarrow> tensor B" where
  "tensor_lshift b self other = 
     bind (lift_r (check_bit_width (VTensor self) other)) (\<lambda>_.
     shl b (VTensor self) (unwrap_if_constexpr other))"

definition tensor_rlshift :: "builder \<Rightarrow> tensor \<Rightarrow> pyval \<Rightarrow> tensor B" where
  "tensor_rlshift b self other = 
     bind (lift_r (check_bit_width other (VTensor self))) (\<lambda>_.
     shl b (unwrap_if_constexpr other) (VTensor self))"

definition tensor_rshift :: "builder \<Rightarrow> tensor \<Rightarrow> pyval \<Rightarrow> tensor B" where
  "tensor_rshift b self other = 
     bind (lift_r (check_bit_width (VTensor self) other)) (\<lambda>_.
     (if is_int_signed (tensor_dtype self) then ashr b (VTensor self) (unwrap_if_constexpr other)
      else lshr b (VTensor self) (unwrap_if_constexpr other)))"

definition tensor_rrshift :: "builder \<Rightarrow> tensor \<Rightarrow> pyval \<Rightarrow> tensor B" where
  "tensor_rrshift b self other = 
     bind (lift_r (check_bit_width other (VTensor self))) (\<lambda>_.
     (if is_int_signed (tensor_dtype self) then ashr b (unwrap_if_constexpr other) (VTensor self)
      else lshr b (unwrap_if_constexpr other) (VTensor self)))"

definition tensor_gt :: "builder \<Rightarrow> tensor \<Rightarrow> pyval \<Rightarrow> tensor B" where
  "tensor_gt b self other = 
     bind (to_tensor_value b other) (\<lambda>other. greater_than b (VTensor self) (VTensor other))"

definition tensor_rgt :: "builder \<Rightarrow> tensor \<Rightarrow> pyval \<Rightarrow> tensor B" where
  "tensor_rgt b self other = 
     bind (to_tensor_value b other) (\<lambda>other. greater_than b (VTensor other) (VTensor self))"

definition tensor_ge :: "builder \<Rightarrow> tensor \<Rightarrow> pyval \<Rightarrow> tensor B" where
  "tensor_ge b self other = 
     bind (to_tensor_value b other) (\<lambda>other. greater_equal b (VTensor self) (VTensor other))"

definition tensor_rge :: "builder \<Rightarrow> tensor \<Rightarrow> pyval \<Rightarrow> tensor B" where
  "tensor_rge b self other = 
     bind (to_tensor_value b other) (\<lambda>other. greater_equal b (VTensor other) (VTensor self))"

definition tensor_lt :: "builder \<Rightarrow> tensor \<Rightarrow> pyval \<Rightarrow> tensor B" where
  "tensor_lt b self other = 
     bind (to_tensor_value b other) (\<lambda>other. less_than b (VTensor self) (VTensor other))"

definition tensor_rlt :: "builder \<Rightarrow> tensor \<Rightarrow> pyval \<Rightarrow> tensor B" where
  "tensor_rlt b self other = 
     bind (to_tensor_value b other) (\<lambda>other. less_than b (VTensor other) (VTensor self))"

definition tensor_le :: "builder \<Rightarrow> tensor \<Rightarrow> pyval \<Rightarrow> tensor B" where
  "tensor_le b self other = 
     bind (to_tensor_value b other) (\<lambda>other. less_equal b (VTensor self) (VTensor other))"

definition tensor_rle :: "builder \<Rightarrow> tensor \<Rightarrow> pyval \<Rightarrow> tensor B" where
  "tensor_rle b self other = 
     bind (to_tensor_value b other) (\<lambda>other. less_equal b (VTensor other) (VTensor self))"

definition tensor_eq :: "builder \<Rightarrow> tensor \<Rightarrow> pyval \<Rightarrow> tensor B" where
  "tensor_eq b self other = 
     bind (to_tensor_value b other) (\<lambda>other. equal_op b (VTensor self) (VTensor other))"

definition tensor_req :: "builder \<Rightarrow> tensor \<Rightarrow> pyval \<Rightarrow> tensor B" where
  "tensor_req b self other = 
     bind (to_tensor_value b other) (\<lambda>other. equal_op b (VTensor other) (VTensor self))"

definition tensor_ne :: "builder \<Rightarrow> tensor \<Rightarrow> pyval \<Rightarrow> tensor B" where
  "tensor_ne b self other = 
     bind (to_tensor_value b other) (\<lambda>other. not_equal b (VTensor self) (VTensor other))"

definition tensor_rne :: "builder \<Rightarrow> tensor \<Rightarrow> pyval \<Rightarrow> tensor B" where
  "tensor_rne b self other = 
     bind (to_tensor_value b other) (\<lambda>other. not_equal b (VTensor other) (VTensor self))"

definition tensor_logical_and :: "builder \<Rightarrow> tensor \<Rightarrow> pyval \<Rightarrow> tensor B" where
  "tensor_logical_and b self other = 
     bind (to_tensor_value b other) (\<lambda>other. logical_and b self other)"

definition tensor_logical_or :: "builder \<Rightarrow> tensor \<Rightarrow> pyval \<Rightarrow> tensor B" where
  "tensor_logical_or b self other = 
     bind (to_tensor_value b other) (\<lambda>other. logical_or b self other)"

definition tensor_not :: "builder \<Rightarrow> tensor \<Rightarrow> tensor B" where
  "tensor_not b self = not_op b self"

definition tensor_to :: "builder \<Rightarrow> tensor \<Rightarrow> ty \<Rightarrow> string option \<Rightarrow> bool \<Rightarrow> tensor B" where
  "tensor_to b self dtype fp_downcast_rounding do_bitcast =
     (if do_bitcast then bitcast b self dtype else cast b self dtype fp_downcast_rounding)"

definition core_cast :: "builder \<Rightarrow> pyval \<Rightarrow> ty \<Rightarrow> string option \<Rightarrow> bool \<Rightarrow> tensor B" where
  "core_cast b input dtype fp_downcast_rounding do_bitcast =
     bind (to_tensor_value b input) (\<lambda>input.
     if do_bitcast then bitcast b input dtype else cast b input dtype fp_downcast_rounding)"

end
