(* ===== verification/Index_Math.thy ===== *)
theory Index_Math
  imports Prelude "HOL-Library.Word" "HOL-Library.Signed_Division"
begin

unbundle bit_operations_syntax

text \<open>
  Index arithmetic of \<open>python/triton/language/standard.py\<close> on fixed-width integers: \<open>cdiv\<close> and
  \<open>swizzle2d\<close>, with the wrap-around of the kernel language's operators.  \<open>sg\<close> says whether the
  integer type is signed; signed division rounds towards zero (\<open>arith.divsi\<close>).
\<close>

section \<open>Integer helpers\<close>

text \<open>\<open>//\<close> and \<open>%\<close> on two operands of one integer type (\<open>semantic.floordiv\<close>, \<open>semantic.mod\<close>).\<close>

definition div_value :: "bool \<Rightarrow> 'a::len word \<Rightarrow> 'a word \<Rightarrow> 'a word" where
  "div_value sg x y = (if sg then word_of_int (sint x sdiv sint y) else x div y)"

definition rem_value :: "bool \<Rightarrow> 'a::len word \<Rightarrow> 'a word \<Rightarrow> 'a word" where
  "rem_value sg x y = (if sg then word_of_int (sint x smod sint y) else x mod y)"

definition int_key :: "bool \<Rightarrow> 'a::len word \<Rightarrow> int" where
  "int_key sg x = (if sg then sint x else uint x)"

definition min_value :: "bool \<Rightarrow> 'a::len word \<Rightarrow> 'a word \<Rightarrow> 'a word" where
  "min_value sg x y = (if int_key sg x \<le> int_key sg y then x else y)"

lemma int_key_inj: "int_key sg x = int_key sg y \<longleftrightarrow> x = y"
  unfolding int_key_def by (cases sg) (auto intro: signed_word_eqI unsigned_word_eqI)

definition cdiv :: "bool \<Rightarrow> 'a::len word \<Rightarrow> 'a word \<Rightarrow> 'a word" where
  "cdiv sg x dv = div_value sg (x + dv - 1) dv"

definition swizzle2d :: "bool \<Rightarrow> 'a::len word \<Rightarrow> 'a word \<Rightarrow> 'a word \<Rightarrow> 'a word \<Rightarrow> 'a word \<Rightarrow> 'a word \<times> 'a word" where
  "swizzle2d sg i j size_i size_j size_g =
     (let ij = i * size_j + j;
          size_gj = size_g * size_j;
          group_id = div_value sg ij size_gj;
          off_i = group_id * size_g;
          size_g = min_value sg (size_i - off_i) size_g;
          ij = rem_value sg ij size_gj;
          new_i = off_i + rem_value sg ij size_g;
          new_j = div_value sg ij size_g
      in (new_i, new_j))"

section \<open>In-range arithmetic\<close>

text \<open>
  \<open>rep sg w v\<close>: the word \<open>w\<close> of a type of signedness \<open>sg\<close> holds the non-negative number \<open>v\<close>.  The
  operators of the kernel language compute the mathematical result as long as it is in range.
\<close>

definition int_limit :: "bool \<Rightarrow> nat \<Rightarrow> int" where
  "int_limit sg n = 2 ^ (if sg then n - 1 else n)"

definition rep :: "bool \<Rightarrow> 'a::len word \<Rightarrow> int \<Rightarrow> bool" where
  "rep sg w v \<longleftrightarrow> w = word_of_int v \<and> 0 \<le> v \<and> v < int_limit sg LENGTH('a)"

lemma rep_key: "rep sg w v \<Longrightarrow> int_key sg w = v"
  by (cases sg)
    (auto simp: rep_def int_key_def int_limit_def sint_sbintrunc' signed_take_bit_int_eq_self
      take_bit_int_eq_self unsigned_of_int intro!: signed_take_bit_int_eq_self
      intro: order_trans [of _ 0])

lemma rep_self: "0 \<le> int_key sg w \<Longrightarrow> rep sg w (int_key sg w)"
proof -
  assume nonneg: "0 \<le> int_key sg w"
  have "uint w < 2 ^ LENGTH('a)" for w :: "'a word" by (rule unsigned_less)
  moreover have "sint w < 2 ^ (LENGTH('a) - 1)" for w :: "'a word" by (rule sint_lt)
  ultimately show ?thesis using nonneg by (cases sg) (simp_all add: rep_def int_key_def int_limit_def)
qed

lemma rep_add:
  "rep sg (x :: 'a::len word) a \<Longrightarrow> rep sg y b \<Longrightarrow> a + b < int_limit sg LENGTH('a) \<Longrightarrow> rep sg (x + y) (a + b)"
  by (simp add: rep_def)

lemma rep_diff: "rep sg x a \<Longrightarrow> rep sg y b \<Longrightarrow> b \<le> a \<Longrightarrow> rep sg (x - y) (a - b)"
  by (simp add: rep_def)

lemma rep_mult:
  "rep sg (x :: 'a::len word) a \<Longrightarrow> rep sg y b \<Longrightarrow> a * b < int_limit sg LENGTH('a) \<Longrightarrow> rep sg (x * y) (a * b)"
  by (simp add: rep_def)

lemma rep_div: "rep sg x a \<Longrightarrow> rep sg y b \<Longrightarrow> 0 < b \<Longrightarrow> rep sg (div_value sg x y) (a div b)"
proof -
  assume x: "rep sg x a" and y: "rep sg y b" and b: "0 < b"
  have key: "int_key sg x = a" "int_key sg y = b" using rep_key [OF x] rep_key [OF y] by auto
  have nonneg: "0 \<le> a" using x by (simp add: rep_def)
  have "div_value sg x y = word_of_int (a div b)"
    using key nonneg b by (cases sg) (auto simp: div_value_def int_key_def signed_divide_int_def word_div_def sgn_if)
  moreover have "a div b \<le> a" using nonneg b zdiv_mono2 [of a 1 b] by simp
  ultimately show ?thesis using x nonneg b by (simp add: rep_def pos_imp_zdiv_nonneg_iff)
qed

lemma rep_rem: "rep sg (x :: 'a::len word) a \<Longrightarrow> rep sg y b \<Longrightarrow> 0 < b \<Longrightarrow> rep sg (rem_value sg x y) (a mod b)"
proof -
  assume x: "rep sg x a" and y: "rep sg y b" and b: "0 < b"
  have key: "int_key sg x = a" "int_key sg y = b" using rep_key [OF x] rep_key [OF y] by auto
  have nonneg: "0 \<le> a" using x by (simp add: rep_def)
  have "rem_value sg x y = word_of_int (a mod b)"
    using key nonneg b by (cases sg) (auto simp: rem_value_def int_key_def signed_modulo_int_def word_mod_def sgn_if)
  moreover have "a mod b < int_limit sg LENGTH('a)"
    using y pos_mod_bound [OF b, of a] unfolding rep_def by linarith
  ultimately show ?thesis using b by (simp add: rep_def)
qed

lemma rep_min: "rep sg x a \<Longrightarrow> rep sg y b \<Longrightarrow> rep sg (min_value sg x y) (min a b)"
  using rep_key [of sg x a] rep_key [of sg y b] by (simp add: min_value_def min_def)

lemma cdiv_rep:
  assumes x: "rep sg (x :: 'a::len word) a" and d: "rep sg d b" and b: "0 < b" and fits: "a + b - 1 < int_limit sg LENGTH('a)"
  shows "rep sg (cdiv sg x d) ((a + b - 1) div b)"
proof -
  have "rep sg (x + d - 1) (a + b - 1)" using x d b fits by (simp add: rep_def)
  then show ?thesis unfolding cdiv_def by (rule rep_div [OF _ d b])
qed

section \<open>The swizzle on numbers\<close>

definition swizzle_num :: "int \<Rightarrow> int \<Rightarrow> int \<Rightarrow> int \<Rightarrow> int \<Rightarrow> int \<times> int" where
  "swizzle_num i j size_i size_j size_g =
     (let off = i div size_g * size_g; g = min (size_i - off) size_g; l = i mod size_g * size_j + j
      in (off + l mod g, l div g))"

lemma swizzle_split:
  assumes "0 \<le> j" "j < sj" "0 < g" "0 \<le> (i :: int)"
  shows "(i * sj + j) div (g * sj) = i div g" "(i * sj + j) mod (g * sj) = i mod g * sj + j"
proof -
  have sj: "0 < sj" using assms by simp
  have "(i * sj + j) div sj = i" using assms by simp
  then show q: "(i * sj + j) div (g * sj) = i div g"
    using assms(3) zdiv_zmult2_eq [of g "i * sj + j" sj] by (simp add: mult.commute)
  have "(i * sj + j) mod (g * sj) = i * sj + j - i div g * (g * sj)"
    using q by (simp add: minus_div_mult_eq_mod [symmetric])
  also have "\<dots> = (i - i div g * g) * sj + j" by (simp add: algebra_simps)
  finally show "(i * sj + j) mod (g * sj) = i mod g * sj + j" by (simp add: minus_div_mult_eq_mod)
qed

lemma int_div_less: "0 < g \<Longrightarrow> l < g * s \<Longrightarrow> l div g < (s :: int)"
proof -
  assume g: "0 < g" and l: "l < g * s"
  have "l div g * g \<le> l" using div_mult_mod_eq [of l g] pos_mod_sign [OF g, of l] by linarith
  moreover have "s * g \<le> l div g * g" if "s \<le> l div g" using that g by (intro mult_right_mono) auto
  ultimately show ?thesis using l by (fastforce simp: mult.commute not_less)
qed

lemma swizzle_bounds:
  fixes i j si sj g0 :: int
  assumes "0 \<le> i" "i < si" "0 \<le> j" "j < sj" "0 < g0"
  defines "off \<equiv> i div g0 * g0" and "g \<equiv> min (si - i div g0 * g0) g0" and "l \<equiv> i mod g0 * sj + j"
  shows "0 \<le> off" "off \<le> i" "0 < g" "i mod g0 < g" "0 \<le> l" "l < g * sj" "off + g \<le> si" "g \<le> g0"
proof -
  have i: "off + i mod g0 = i" unfolding off_def by (rule div_mult_mod_eq)
  have m: "0 \<le> i mod g0" "i mod g0 < g0" using assms by simp_all
  show off: "0 \<le> off" using assms by (simp add: pos_imp_zdiv_nonneg_iff)
  show "off \<le> i" using i m by linarith
  show r: "i mod g0 < g" "off + g \<le> si" "g \<le> g0" using i m assms(2) unfolding g_def off_def [symmetric] by linarith+
  then show "0 < g" using m by linarith
  show "0 \<le> l" using m assms by (simp add: l_def)
  have "l < (i mod g0 + 1) * sj" using assms by (simp add: l_def algebra_simps)
  also have "\<dots> \<le> g * sj" using r(1) assms(3,4) by (intro mult_right_mono zless_imp_add1_zle) auto
  finally show "l < g * sj" .
qed

lemma swizzle_num_range:
  assumes "0 \<le> i" "i < si" "0 \<le> j" "j < sj" "0 < g0" "swizzle_num i j si sj g0 = (i', j')"
  shows "0 \<le> i'" "i' < si" "0 \<le> j'" "j' < sj" "i' div g0 = i div g0"
proof -
  let ?off = "i div g0 * g0" and ?g = "min (si - i div g0 * g0) g0" and ?l = "i mod g0 * sj + j"
  note b = swizzle_bounds [OF assms(1-5)]
  have eq: "i' = ?off + ?l mod ?g" "j' = ?l div ?g" using assms(6) by (simp_all add: swizzle_num_def Let_def)
  have m: "0 \<le> ?l mod ?g" "?l mod ?g < ?g" by (rule pos_mod_sign [OF b(3)], rule pos_mod_bound [OF b(3)])
  then show "0 \<le> i'" "i' < si" using eq b by linarith+
  show "0 \<le> j'" using eq b by (simp add: pos_imp_zdiv_nonneg_iff)
  show "j' < sj" unfolding eq by (rule int_div_less [OF b(3,6)])
  have "?l mod ?g < g0" using m b(8) by linarith
  then show "i' div g0 = i div g0" using eq m(1) assms(5) by simp
qed

lemma swizzle_num_inj:
  assumes a: "0 \<le> a" "a < si" "0 \<le> b" "b < sj" and c: "0 \<le> c" "c < si" "0 \<le> d" "d < sj" and g0: "0 < g0"
    and eq: "swizzle_num a b si sj g0 = swizzle_num c d si sj g0"
  shows "a = c \<and> b = d"
proof -
  obtain i j where s: "swizzle_num a b si sj g0 = (i, j)" "swizzle_num c d si sj g0 = (i, j)"
    using eq by (metis surj_pair)
  have grp: "a div g0 = c div g0"
    using swizzle_num_range(5) [OF a g0 s(1)] swizzle_num_range(5) [OF c g0 s(2)] by simp
  let ?g = "min (si - c div g0 * g0) g0" and ?la = "a mod g0 * sj + b" and ?lc = "c mod g0 * sj + d"
  have "?la mod ?g = ?lc mod ?g" "?la div ?g = ?lc div ?g"
    using s grp by (auto simp: swizzle_num_def Let_def)
  then have l: "?la = ?lc" by (metis div_mult_mod_eq)
  then have "?la div sj = ?lc div sj" "?la mod sj = ?lc mod sj" by simp_all
  then have "a mod g0 = c mod g0" "b = d" using a c by simp_all
  with grp show ?thesis by (metis div_mult_mod_eq)
qed

lemma swizzle_rep:
  fixes i j size_i size_j size_g :: "'a::len word"
  assumes i: "rep sg i vi" "vi < si" and j: "rep sg j vj" "vj < sj"
    and si: "rep sg size_i si" and sj: "rep sg size_j sj" and g: "rep sg size_g g0" "0 < g0"
    and fits: "si * sj < int_limit sg LENGTH('a)" "g0 * sj < int_limit sg LENGTH('a)"
    and eq: "swizzle2d sg i j size_i size_j size_g = (i', j')"
  shows "rep sg i' (fst (swizzle_num vi vj si sj g0)) \<and> rep sg j' (snd (swizzle_num vi vj si sj g0))"
proof -
  have nn: "0 \<le> vi" "0 \<le> vj" using i j by (simp_all add: rep_def)
  note b = swizzle_bounds [OF nn(1) i(2) nn(2) j(2) g(2)]
  have "vi * sj + vj < (vi + 1) * sj" using j by (simp add: algebra_simps)
  also have "\<dots> \<le> si * sj" using i(2) j(2) nn by (intro mult_right_mono) auto
  finally have ij: "vi * sj + vj < int_limit sg LENGTH('a)" using fits by simp
  then have mul: "vi * sj < int_limit sg LENGTH('a)" using nn by simp
  note r1 = rep_add [OF rep_mult [OF i(1) sj mul] j(1) ij]
  note r2 = rep_mult [OF g(1) sj fits(2)]
  have pos: "0 < g0 * sj" using g(2) j(2) nn by simp
  have r3: "rep sg (div_value sg (i * size_j + j) (size_g * size_j)) (vi div g0)"
    using rep_div [OF r1 r2 pos] swizzle_split(1) [OF nn(2) j(2) g(2) nn(1)] by simp
  have "vi div g0 * g0 < int_limit sg LENGTH('a)" using b(2) i(1) by (simp add: rep_def)
  note r4 = rep_mult [OF r3 g(1) this]
  have "vi div g0 * g0 \<le> si" using b(2) i(2) by simp
  note r5 = rep_min [OF rep_diff [OF si r4 this] g(1)]
  have r6: "rep sg (rem_value sg (i * size_j + j) (size_g * size_j)) (vi mod g0 * sj + vj)"
    using rep_rem [OF r1 r2 pos] swizzle_split(2) [OF nn(2) j(2) g(2) nn(1)] by simp
  have "si < int_limit sg LENGTH('a)" using si by (simp add: rep_def)
  moreover have "(vi mod g0 * sj + vj) mod min (si - vi div g0 * g0) g0 < min (si - vi div g0 * g0) g0"
    using b(3) by (rule pos_mod_bound)
  ultimately have "vi div g0 * g0 + (vi mod g0 * sj + vj) mod min (si - vi div g0 * g0) g0 < int_limit sg LENGTH('a)"
    using b(7) by linarith
  note r7 = rep_add [OF r4 rep_rem [OF r6 r5 b(3)] this]
  show ?thesis
    using r7 rep_div [OF r6 r5 b(3)] eq by (auto simp: swizzle2d_def swizzle_num_def Let_def)
qed

section \<open>Properties\<close>

text \<open>C15: \<open>cdiv\<close> of a non-negative number by a positive one is ceiling division, for signed and unsigned
  types, as long as the sum it computes does not overflow.\<close>

theorem cdiv_is_ceiling:
  fixes x d :: "'a::len word"
  assumes "0 \<le> int_key sg x" "0 < int_key sg d" "int_key sg x + int_key sg d - 1 < int_limit sg LENGTH('a)"
  shows "(int_key sg (cdiv sg x d) - 1) * int_key sg d < int_key sg x \<and> int_key sg x \<le> int_key sg (cdiv sg x d) * int_key sg d"
proof -
  let ?a = "int_key sg x" and ?b = "int_key sg d"
  have "rep sg (cdiv sg x d) ((?a + ?b - 1) div ?b)"
    using assms rep_self [of sg x] rep_self [of sg d] by (intro cdiv_rep) auto
  then have c: "int_key sg (cdiv sg x d) = (?a + ?b - 1) div ?b" by (rule rep_key)
  define q where "q = (?a + ?b - 1) div ?b"
  have "q * ?b + (?a + ?b - 1) mod ?b = ?a + ?b - 1" unfolding q_def by (rule div_mult_mod_eq)
  moreover have "0 \<le> (?a + ?b - 1) mod ?b" "(?a + ?b - 1) mod ?b < ?b"
    by (rule pos_mod_sign [OF assms(2)], rule pos_mod_bound [OF assms(2)])
  ultimately show ?thesis unfolding c q_def [symmetric] left_diff_distrib by linarith
qed

theorem cdiv_is_ceiling_witness:
  "int_key True (1000 :: 32 word) \<le> int_key True (cdiv True 1000 (64 :: 32 word)) * int_key True (64 :: 32 word)"
  using cdiv_is_ceiling [of True "1000 :: 32 word" 64] by (simp add: int_key_def int_limit_def)

text \<open>C13: as long as neither the matrix nor a group of its rows has more cells than the index type can
  count, \<open>swizzle2d\<close> permutes the cells of the matrix: every cell is visited exactly once, also when the
  last group has fewer rows.\<close>

theorem swizzle2d_permutes:
  fixes sg :: bool and size_i size_j size_g :: "'a::len word"
  defines "si \<equiv> int_key sg size_i" and "sj \<equiv> int_key sg size_j" and "g \<equiv> int_key sg size_g"
  assumes "0 \<le> si" "0 \<le> sj" "0 < g" "si * sj < int_limit sg LENGTH('a)" "g * sj < int_limit sg LENGTH('a)"
  shows "bij_betw (\<lambda>(i, j). case swizzle2d sg (word_of_int i) (word_of_int j) size_i size_j size_g of
       (i', j') \<Rightarrow> (int_key sg i', int_key sg j')) ({0..<si} \<times> {0..<sj}) ({0..<si} \<times> {0..<sj})"
proof -
  have reps: "rep sg size_i si" "rep sg size_j sj" "rep sg size_g g"
    using assms(4-6) unfolding si_def sj_def g_def by (auto intro: rep_self)
  have sw: "(case swizzle2d sg (word_of_int i) (word_of_int j) size_i size_j size_g of (i', j') \<Rightarrow> (int_key sg i', int_key sg j')) =
      swizzle_num i j si sj g" if ij: "i \<in> {0..<si}" "j \<in> {0..<sj}" for i j
  proof -
    have r: "rep sg (word_of_int i :: 'a word) i" "rep sg (word_of_int j :: 'a word) j"
      using ij reps(1,2) by (simp_all add: rep_def)
    obtain i' j' where eq: "swizzle2d sg (word_of_int i) (word_of_int j) size_i size_j size_g = (i', j')"
      by (cases "swizzle2d sg (word_of_int i) (word_of_int j) size_i size_j size_g")
    have "rep sg i' (fst (swizzle_num i j si sj g)) \<and> rep sg j' (snd (swizzle_num i j si sj g))"
      using ij by (intro swizzle_rep [OF r(1) _ r(2) _ reps assms(6-8) eq]) auto
    then show ?thesis unfolding eq by (simp add: rep_key prod_eq_iff)
  qed
  let ?S = "{0..<si} \<times> {0..<sj}" and ?f = "\<lambda>(i, j). swizzle_num i j si sj g"
  have inj: "inj_on ?f ?S" using swizzle_num_inj [OF _ _ _ _ _ _ _ _ assms(6)] by (auto simp: inj_on_def)
  have "?f (i, j) \<in> ?S" if "(i, j) \<in> ?S" for i j
    using that swizzle_num_range [OF _ _ _ _ assms(6) prod.collapse [symmetric], of i si j sj] by (auto simp: mem_Times_iff)
  then have "?f ` ?S \<subseteq> ?S" by blast
  then have "?f ` ?S = ?S" using inj by (intro endo_inj_surj) auto
  then have bij: "bij_betw ?f ?S ?S" using inj by (simp add: bij_betw_def)
  have eq: "?f p = (\<lambda>(i, j). case swizzle2d sg (word_of_int i) (word_of_int j) size_i size_j size_g of
       (i', j') \<Rightarrow> (int_key sg i', int_key sg j')) p" if "p \<in> ?S" for p
    using that sw by auto
  show ?thesis by (rule bij_betw_cong [THEN iffD1, OF eq bij])
qed

theorem swizzle2d_permutes_witness:
  "bij_betw (\<lambda>(i, j). case swizzle2d True (word_of_int i) (word_of_int j) (5 :: 32 word) 4 2 of
       (i', j') \<Rightarrow> (int_key True i', int_key True j')) ({0..<5} \<times> {0..<4}) ({0..<5} \<times> {0..<4})"
  using swizzle2d_permutes [of True "5 :: 32 word" 4 2] by (simp add: int_key_def int_limit_def)

end
