(* ===== verification/Tensor_Value.thy ===== *)
theory Tensor_Value
  imports Prelude
begin

text \<open>
  Block values: what the shape operations of \<open>python/triton/language/core.py\<close> mean for the elements
  of a block.  A block value is its shape and the function from multi-indices to elements;
  \<open>flat_at\<close> reads it in row-major order, which is the order \<open>reshape\<close> keeps
  (\<open>core.reshape\<close>, \<open>expand_dims\<close>, \<open>broadcast_to\<close>, \<open>arange\<close>, element-wise operators with broadcasting and
  \<open>sum\<close> along an axis).  The library functions of \<open>standard.py\<close> are written over these operations.
\<close>

section \<open>Row-major indices\<close>

fun ravel_index :: "nat list \<Rightarrow> nat list \<Rightarrow> nat" where
  "ravel_index (d # sh) (i # is) = i * prod_list sh + ravel_index sh is"
| "ravel_index _ _ = 0"

fun unravel_index :: "nat list \<Rightarrow> nat \<Rightarrow> nat list" where
  "unravel_index [] p = []"
| "unravel_index (d # sh) p = p div prod_list sh # unravel_index sh (p mod prod_list sh)"

fun valid_index :: "nat list \<Rightarrow> nat list \<Rightarrow> bool" where
  "valid_index [] [] = True"
| "valid_index (d # sh) (i # is) = (i < d \<and> valid_index sh is)"
| "valid_index _ _ = False"

lemma valid_index_length: "valid_index sh is \<Longrightarrow> length is = length sh"
  by (induction sh "is" rule: valid_index.induct) simp_all

lemma valid_index_pos: "valid_index sh is \<Longrightarrow> 0 < prod_list sh"
  by (induction sh "is" rule: valid_index.induct) auto

lemma ravel_index_less: "valid_index sh is \<Longrightarrow> ravel_index sh is < prod_list sh"
proof (induction sh "is" rule: valid_index.induct)
  case (2 d sh i "is")
  then have "i * prod_list sh + ravel_index sh is < Suc i * prod_list sh" by simp
  also have "\<dots> \<le> d * prod_list sh" using 2 by (intro mult_le_mono1) simp
  finally show ?case by simp
qed simp_all

lemma unravel_ravel [simp]: "valid_index sh is \<Longrightarrow> unravel_index sh (ravel_index sh is) = is"
proof (induction sh "is" rule: valid_index.induct)
  case (2 d sh i "is")
  then show ?case using ravel_index_less [of sh "is"] valid_index_pos [of sh "is"] by simp
qed simp_all

lemma ravel_unravel [simp]: "p < prod_list sh \<Longrightarrow> ravel_index sh (unravel_index sh p) = p"
proof (induction sh arbitrary: p)
  case (Cons d sh)
  then have "0 < prod_list sh" by (metis gr0I mult_zero_right not_less_zero prod_list.Cons)
  with Cons show ?case by simp
qed simp

lemma unravel_valid: "p < prod_list sh \<Longrightarrow> valid_index sh (unravel_index sh p)"
proof (induction sh arbitrary: p)
  case (Cons d sh)
  then have "0 < prod_list sh" by (metis gr0I mult_zero_right not_less_zero prod_list.Cons)
  moreover have "p div prod_list sh < d" using Cons.prems by (simp add: less_mult_imp_div_less)
  ultimately show ?case using Cons by simp
qed simp

section \<open>Block values\<close>

record 'a tval =
  tshape :: "nat list"
  elem_at :: "nat list \<Rightarrow> 'a"

definition tnumel :: "'a tval \<Rightarrow> nat" where
  "tnumel t = prod_list (tshape t)"

definition flat_at :: "'a tval \<Rightarrow> nat \<Rightarrow> 'a" where
  "flat_at t p = elem_at t (unravel_index (tshape t) p)"

definition to_list :: "'a tval \<Rightarrow> 'a list" where
  "to_list t = map (flat_at t) [0..<tnumel t]"

definition of_list :: "nat list \<Rightarrow> 'a list \<Rightarrow> 'a tval" where
  "of_list sh xs = \<lparr>tshape = sh, elem_at = (\<lambda>is. xs ! ravel_index sh is)\<rparr>"

definition reshape_val :: "nat list \<Rightarrow> 'a tval \<Rightarrow> 'a tval" where
  "reshape_val sh t = \<lparr>tshape = sh, elem_at = (\<lambda>is. flat_at t (ravel_index sh is))\<rparr>"

definition arange_val :: "nat \<Rightarrow> nat \<Rightarrow> nat tval" where
  "arange_val start end = \<lparr>tshape = [end - start], elem_at = (\<lambda>is. start + is ! 0)\<rparr>"

definition expand_dims_val :: "nat \<Rightarrow> 'a tval \<Rightarrow> 'a tval" where
  "expand_dims_val axis t = \<lparr>tshape = take axis (tshape t) @ 1 # drop axis (tshape t),
     elem_at = (\<lambda>is. elem_at t (take axis is @ drop (Suc axis) is))\<rparr>"

text \<open>A dimension of length one is read at index zero, whatever the index of the result.\<close>

definition clip_index :: "nat list \<Rightarrow> nat list \<Rightarrow> nat list" where
  "clip_index sh is = map2 (\<lambda>d i. if d = 1 then 0 else i) sh is"

definition broadcast_val :: "nat list \<Rightarrow> 'a tval \<Rightarrow> 'a tval" where
  "broadcast_val sh t = \<lparr>tshape = sh, elem_at = (\<lambda>is. elem_at t (clip_index (tshape t) is))\<rparr>"

definition map_val :: "('a \<Rightarrow> 'b) \<Rightarrow> 'a tval \<Rightarrow> 'b tval" where
  "map_val f t = \<lparr>tshape = tshape t, elem_at = (\<lambda>is. f (elem_at t is))\<rparr>"

definition zip_val :: "('a \<Rightarrow> 'b \<Rightarrow> 'c) \<Rightarrow> 'a tval \<Rightarrow> 'b tval \<Rightarrow> 'c tval" where
  "zip_val f t u =
     (let sh = map2 (\<lambda>d e. if d = 1 then e else d) (tshape t) (tshape u) in
      \<lparr>tshape = sh, elem_at = (\<lambda>is. f (elem_at t (clip_index (tshape t) is)) (elem_at u (clip_index (tshape u) is)))\<rparr>)"

definition full_val :: "nat list \<Rightarrow> 'a \<Rightarrow> 'a tval" where
  "full_val sh c = \<lparr>tshape = sh, elem_at = (\<lambda>_. c)\<rparr>"

text \<open>\<open>reduce\<close> with a combine function, from the first element of the axis to the last.\<close>

definition reduce_val :: "('a \<Rightarrow> 'a \<Rightarrow> 'a) \<Rightarrow> nat \<Rightarrow> 'a tval \<Rightarrow> 'a tval" where
  "reduce_val f axis t =
     \<lparr>tshape = take axis (tshape t) @ drop (Suc axis) (tshape t),
      elem_at = (\<lambda>is. let e = (\<lambda>j. elem_at t (take axis is @ j # drop axis is))
                      in foldl f (e 0) (map e [1..<tshape t ! axis]))\<rparr>"

lemmas tval_defs = tnumel_def flat_at_def to_list_def reshape_val_def arange_val_def expand_dims_val_def
  broadcast_val_def map_val_def zip_val_def full_val_def reduce_val_def

lemma tshape_simps [simp]:
  "tshape (of_list sh xs) = sh"
  "tshape (reshape_val sh t) = sh"
  "tshape (broadcast_val sh t) = sh"
  "tshape (map_val f t) = tshape t"
  "tshape (full_val sh c) = sh"
  by (simp_all add: of_list_def tval_defs)

lemma clip_index_valid: "valid_index sh is \<Longrightarrow> clip_index sh is = is"
  by (induction sh "is" rule: valid_index.induct) (simp_all add: clip_index_def)

lemma flat_reshape [simp]:
  "p < prod_list sh \<Longrightarrow> flat_at (reshape_val sh t) p = flat_at t p"
  by (simp add: flat_at_def reshape_val_def)

lemma flat_of_list [simp]: "p < prod_list sh \<Longrightarrow> flat_at (of_list sh xs) p = xs ! p"
  by (simp add: flat_at_def of_list_def)

lemma flat_map [simp]: "flat_at (map_val f t) p = f (flat_at t p)"
  by (simp add: flat_at_def map_val_def)

lemma flat_full [simp]: "flat_at (full_val sh c) p = c"
  by (simp add: flat_at_def full_val_def)

lemma tshape_zip_same: "tshape t = tshape u \<Longrightarrow> tshape (zip_val f t u) = tshape u"
  unfolding zip_val_def Let_def by (simp add: list_eq_iff_nth_eq)

lemma flat_zip_same:
  assumes "tshape t = tshape u" "p < prod_list (tshape u)"
  shows "flat_at (zip_val f t u) p = f (flat_at t p) (flat_at u p)"
  using clip_index_valid [OF unravel_valid [OF assms(2)]] assms(1)
  by (simp add: flat_at_def tshape_zip_same) (simp add: zip_val_def)

lemma elem_at_flat: "valid_index (tshape t) is \<Longrightarrow> elem_at t is = flat_at t (ravel_index (tshape t) is)"
  by (simp add: flat_at_def)

lemma to_list_of_list: "length xs = prod_list sh \<Longrightarrow> to_list (of_list sh xs) = xs"
  by (rule nth_equalityI) (simp_all add: to_list_def tnumel_def)

lemma to_list_reshape: "prod_list sh = prod_list (tshape t) \<Longrightarrow> to_list (reshape_val sh t) = to_list t"
  by (simp add: to_list_def tnumel_def)

end
