(* ===== verification/Bitonic.thy ===== *)
theory Bitonic
  imports Prelude "HOL-Library.Multiset"
begin

text \<open>
  The sorting network behind \<open>sort\<close> of \<open>python/triton/language/standard.py\<close>, on the flat, row-major
  index of a block: a compare-and-swap with a given stride, a bitonic merge of stage \<open>k\<close> (strides
  \<open>2 ^ (k - 1), \<dots>, 1\<close>), and the whole sort (stages \<open>1, \<dots>, n\<close>).  The network is shown to sort every
  block of \<open>2 ^ n\<close> elements by the zero-one principle: it commutes with monotone maps, and on
  truth values a half cleaner leaves one half constant and the other one bitonic.
\<close>

section \<open>The network\<close>

text \<open>
  The two members of the pair of \<open>p\<close> are \<open>low S p\<close> and \<open>low S p + S\<close>; \<open>dir\<close> says which pairs are put
  in descending order.
\<close>

definition low :: "nat \<Rightarrow> nat \<Rightarrow> nat" where
  "low S p = p div (2 * S) * (2 * S) + p mod S"

definition upper :: "nat \<Rightarrow> nat \<Rightarrow> bool" where
  "upper S p \<longleftrightarrow> p div S mod 2 = 1"

definition cas :: "nat \<Rightarrow> (nat \<Rightarrow> bool) \<Rightarrow> (nat \<Rightarrow> 'a::linorder) \<Rightarrow> nat \<Rightarrow> 'a" where
  "cas S dir f p =
     (let l = f (low S p); r = f (low S p + S) in
      if (r < l) \<noteq> dir p then (if upper S p then l else r) else (if upper S p then r else l))"

fun merge_net :: "nat \<Rightarrow> (nat \<Rightarrow> bool) \<Rightarrow> (nat \<Rightarrow> 'a::linorder) \<Rightarrow> nat \<Rightarrow> 'a" where
  "merge_net 0 dir f = f"
| "merge_net (Suc k) dir f = merge_net k dir (cas (2 ^ k) dir f)"

section \<open>Commuting with monotone maps\<close>

text \<open>
  When the images of a pair are equal, it does not matter whether the pair is swapped.
\<close>

lemma cas_mono:
  assumes "mono h" shows "h (cas S dir f p) = cas S dir (h \<circ> f) p"
proof (cases "h (f (low S p)) = h (f (low S p + S))")
  case False
  have "(h (f (low S p + S)) < h (f (low S p))) = (f (low S p + S) < f (low S p))"
    using False assms by (metis linorder_not_less monoD order_less_le)
  then show ?thesis by (simp add: cas_def Let_def)
qed (simp add: cas_def Let_def)

lemma merge_net_mono: "mono h \<Longrightarrow> h (merge_net k dir f p) = merge_net k dir (\<lambda>q. h (f q)) p"
proof (induction k arbitrary: f)
  case (Suc k)
  then show ?case by (simp add: cas_mono o_def)
qed simp

section \<open>Truth values: the half cleaner\<close>

text \<open>Descending order is ascending order of the complement.\<close>

lemma cas_not: "cas S (\<lambda>p. \<not> dir p) (\<lambda>p. \<not> f p) = (\<lambda>p. \<not> cas S dir f p)"
  by (auto simp: cas_def Let_def fun_eq_iff)

lemma merge_net_not: "merge_net k (\<lambda>p. \<not> dir p) (\<lambda>p. \<not> f p) = (\<lambda>p. \<not> merge_net k dir f p)"
  by (induction k arbitrary: f) (simp_all add: cas_not)

text \<open>\<open>bitonic m g\<close>: on \<open>{0..<m}\<close>, \<open>g\<close> is true exactly on an interval, or false exactly on one.\<close>

definition bitonic :: "nat \<Rightarrow> (nat \<Rightarrow> bool) \<Rightarrow> bool" where
  "bitonic m g \<longleftrightarrow> (\<exists>a b c. \<forall>i<m. g i = ((a \<le> i \<and> i < b) = c))"

lemma bitonic_cong: "bitonic m g \<Longrightarrow> (\<And>i. i < m \<Longrightarrow> h i = g i) \<Longrightarrow> bitonic m h"
  by (simp add: bitonic_def)

lemma half_cleaner:
  assumes "bitonic (2 * m) g"
  defines "lo \<equiv> \<lambda>i. g i \<and> g (i + m)" and "hi \<equiv> \<lambda>i. g i \<or> g (i + m)"
  shows "((\<forall>i<m. \<not> lo i) \<and> bitonic m hi) \<or> ((\<forall>i<m. hi i) \<and> bitonic m lo)"
proof -
  obtain a b c where g: "\<And>i. i < 2 * m \<Longrightarrow> g i = ((a \<le> i \<and> i < b) = c)"
    using assms(1) by (auto simp: bitonic_def)
  have g1: "g i = ((a \<le> i \<and> i < b) = c)" "g (i + m) = ((a - m \<le> i \<and> i < b - m) = c)" if "i < m" for i
    using g [of i] g [of "i + m"] that by auto
  have halves: "bitonic m g" "bitonic m (\<lambda>i. g (i + m))"
    unfolding bitonic_def using g1 by blast+
  consider "b \<le> m" | "m \<le> a" | "a < m" "m < b" "b - m \<le> a" | "a < m" "m < b" "a < b - m" by linarith
  then show ?thesis
  proof cases
    case 1
    then have "\<And>i. i < m \<Longrightarrow> g (i + m) = (\<not> c)" using g1 by auto
    then show ?thesis 
      by (cases c) (auto simp: lo_def hi_def intro: bitonic_cong [OF halves(1)])
  next
    case 2
    then have "\<And>i. i < m \<Longrightarrow> g i = (\<not> c)" using g1 by auto
    then show ?thesis 
      by (cases c) (auto simp: lo_def hi_def intro: bitonic_cong [OF halves(2)])
  next
    case 3
    show ?thesis
    proof (cases c)
      case True
      have "\<forall>i<m. \<not> lo i" using 3 g1 True by (auto simp: lo_def)
      moreover have "\<forall>i<m. hi i = ((b - m \<le> i \<and> i < a) = False)" using 3 g1 True by (auto simp: hi_def)
      ultimately show ?thesis unfolding bitonic_def by blast
    next
      case False
      have "\<forall>i<m. hi i" using 3 g1 False by (auto simp: hi_def)
      moreover have "\<forall>i<m. lo i = ((b - m \<le> i \<and> i < a) = True)" using 3 g1 False by (auto simp: lo_def)
      ultimately show ?thesis unfolding bitonic_def by blast
    qed
  next
    case 4
    show ?thesis
    proof (cases c)
      case True
      have "\<forall>i<m. hi i" using 4 g1 True by (auto simp: hi_def)
      moreover have "\<forall>i<m. lo i = ((a \<le> i \<and> i < b - m) = True)" using 4 g1 True by (auto simp: lo_def)
      ultimately show ?thesis unfolding bitonic_def by blast
    next
      case False
      have "\<forall>i<m. \<not> lo i" using 4 g1 False by (auto simp: lo_def)
      moreover have "\<forall>i<m. hi i = ((a \<le> i \<and> i < b - m) = False)" using 4 g1 False by (auto simp: hi_def)
      ultimately show ?thesis unfolding bitonic_def by blast
    qed
  qed
qed

section \<open>Locality\<close>

text \<open>A merge of stage \<open>k\<close> works on each aligned block of \<open>2 ^ k\<close> elements on its own.\<close>

lemma low_add: "2 * S dvd a \<Longrightarrow> low S (a + p) = a + low S p"
proof -
  assume "2 * S dvd a"
  then obtain q where "a = 2 * S * q" by (rule dvdE)
  then have a: "a = q * (2 * S)" by simp
  have "(a + p) mod S = p mod S" unfolding a by (metis mod_mult_self3 mult.assoc)
  moreover have "(a + p) div (2 * S) * (2 * S) = a + p div (2 * S) * (2 * S)"
  proof (cases "S = 0")
    case False
    then have "(a + p) div (2 * S) = q + p div (2 * S)" unfolding a by (intro div_mult_self3) simp
    then show ?thesis by (simp add: a add_mult_distrib)
  qed (simp add: a)
  ultimately show ?thesis by (simp add: low_def)
qed

lemma upper_add: "2 * S dvd a \<Longrightarrow> 0 < S \<Longrightarrow> upper S (a + p) = upper S p"
proof -
  assume "2 * S dvd a" "0 < S"
  then obtain q where "a = 2 * S * q" by (auto elim: dvdE)
  then have a: "a = S * (2 * q)" by simp
  show ?thesis unfolding upper_def a using \<open>0 < S\<close> by simp
qed

lemma low_pair:
  assumes "r < S"
  shows "low S (2 * S * q + r) = 2 * S * q + r" "\<not> upper S (2 * S * q + r)"
    "low S (2 * S * q + (r + S)) = 2 * S * q + r" "upper S (2 * S * q + (r + S))"
proof -
  have S: "0 < S" using assms by simp
  have d: "2 * S dvd 2 * S * q" by simp
  show "low S (2 * S * q + r) = 2 * S * q + r" "low S (2 * S * q + (r + S)) = 2 * S * q + r"
    using assms by (simp_all add: low_add [OF d]) (simp_all add: low_def)
  show "\<not> upper S (2 * S * q + r)" "upper S (2 * S * q + (r + S))"
    using assms by (simp_all add: upper_add [OF d S]) (simp_all add: upper_def S)
qed

lemma pair_cases:
  fixes S p :: nat
  assumes "0 < S"
  obtains q r where "r < S" "p = 2 * S * q + r" | q r where "r < S" "p = 2 * S * q + (r + S)"
proof -
  have p: "p = 2 * S * (p div (2 * S)) + p mod (2 * S)" by (rule mult_div_mod_eq [symmetric])
  have "p mod (2 * S) < 2 * S" using assms by simp
  then show thesis
    using p that(1) [of "p mod (2 * S)" "p div (2 * S)"] that(2) [of "p mod (2 * S) - S" "p div (2 * S)"]
    by (cases "p mod (2 * S) < S") auto
qed

lemma cas_add:
  "2 * S dvd a \<Longrightarrow> 0 < S \<Longrightarrow> cas S dir f (a + p) = cas S (\<lambda>q. dir (a + q)) (\<lambda>q. f (a + q)) p"
  by (simp add: cas_def low_add upper_add add.assoc cong: if_cong)

lemma merge_net_add:
  "2 ^ k dvd a \<Longrightarrow> merge_net k dir f (a + p) = merge_net k (\<lambda>q. dir (a + q)) (\<lambda>q. f (a + q)) p"
proof (induction k arbitrary: f p)
  case (Suc k)
  then have d: "2 ^ k dvd a" "2 * 2 ^ k dvd a" by (auto elim: dvd_mult_right)
  show ?case by (simp add: Suc.IH [OF d(1)] cas_add [OF d(2)])
qed simp

lemma low_bound: "0 < S \<Longrightarrow> 2 * S dvd m \<Longrightarrow> p < m \<Longrightarrow> low S p + S < m"
proof -
  assume S: "0 < S" and m: "2 * S dvd m" "p < m"
  from m(1) obtain c where c: "m = 2 * S * c" by (rule dvdE)
  have "p div (2 * S) < c" using m(2) c S by (simp add: less_mult_imp_div_less mult.commute)
  then have "Suc (p div (2 * S)) * (2 * S) \<le> c * (2 * S)" by (intro mult_le_mono1) simp
  moreover have "p mod S < S" using S by simp
  ultimately show ?thesis by (simp add: low_def c algebra_simps)
qed

lemma cas_cong:
  assumes "0 < S" "2 * S dvd m" "\<And>q. q < m \<Longrightarrow> f q = g q" "\<And>q. q < m \<Longrightarrow> dir q = dir' q" "p < m"
  shows "cas S dir f p = cas S dir' g p"
  using low_bound [OF assms(1,2,5)] assms(3-5) by (simp add: cas_def)

lemma merge_net_cong:
  assumes "2 ^ k dvd m" "\<And>q. q < m \<Longrightarrow> f q = g q" "\<And>q. q < m \<Longrightarrow> dir q = dir' q" "p < m"
  shows "merge_net k dir f p = merge_net k dir' g p"
  using assms
proof (induction k arbitrary: f g)
  case (Suc k)
  then have d: "2 ^ k dvd m" "2 * 2 ^ k dvd m" by (auto elim: dvd_mult_right)
  show ?case
    using Suc.prems by (auto intro!: Suc.IH [OF d(1)] cas_cong [OF _ d(2)])
qed simp

section \<open>The merge sorts bitonic sequences\<close>

lemma cas_half:
  "i < m \<Longrightarrow> cas m (\<lambda>_. False) f i = (f i \<and> f (i + m))"
  "i < m \<Longrightarrow> cas m (\<lambda>_. False) f (m + i) = (f i \<or> f (i + m))"
  using low_pair [of i m 0] by (auto simp: cas_def Let_def add.commute)

lemma merge_net_const:
  assumes "\<And>q. q < 2 ^ k \<Longrightarrow> f q = c" "p < 2 ^ k"
  shows "merge_net k dir f p = c"
proof -
  have "cas S dir (\<lambda>_. c) = (\<lambda>_. c)" for S by (simp add: cas_def fun_eq_iff)
  then have "merge_net k dir (\<lambda>_. c) p = c" by (induction k) simp_all
  then show ?thesis using merge_net_cong [of k "2 ^ k" f "\<lambda>_. c" dir dir p] assms by simp
qed

lemma merge_net_upper:
  "merge_net k (\<lambda>_. d) f (2 ^ k + p) = merge_net k (\<lambda>_. d) (\<lambda>q. f (2 ^ k + q)) p"
  by (rule merge_net_add) simp

lemma merge_net_bitonic:
  assumes "bitonic (2 ^ k) f" "i < j" "j < 2 ^ k" "merge_net k (\<lambda>_. False) f i"
  shows "merge_net k (\<lambda>_. False) f j"
  using assms
proof (induction k arbitrary: f i j)
  case (Suc k)
  let ?m = "2 ^ k" and ?F = "\<lambda>_::nat. False"
  let ?c = "cas ?m ?F f"
  let ?lo = "\<lambda>i. f i \<and> f (i + ?m)" and ?hi = "\<lambda>i. f i \<or> f (i + ?m)"
  have c: "i < ?m \<Longrightarrow> ?c i = ?lo i" "i < ?m \<Longrightarrow> ?c (?m + i) = ?hi i" for i
    by (simp_all add: cas_half)
  have lower: "merge_net k ?F ?c p = merge_net k ?F ?lo p" if "p < ?m" for p
    by (rule merge_net_cong [where m = ?m]) (simp_all add: c that)
  have upper: "merge_net k ?F ?c (?m + p) = merge_net k ?F ?hi p" if "p < ?m" for p
    unfolding merge_net_upper by (rule merge_net_cong [where m = ?m]) (simp_all add: c that)
  have net: "merge_net (Suc k) ?F f p =
      (if p < ?m then merge_net k ?F ?lo p else merge_net k ?F ?hi (p - ?m))" if "p < 2 * ?m" for p
    using lower [of p] upper [of "p - ?m"] that by auto
  have sorted: "((\<forall>i<?m. \<not> ?lo i) \<and> bitonic ?m ?hi) \<or> ((\<forall>i<?m. ?hi i) \<and> bitonic ?m ?lo)"
    by (rule half_cleaner) (use Suc.prems(1) in simp)
  from sorted show ?case
  proof (elim disjE conjE)
    assume lo: "\<forall>i<?m. \<not> ?lo i" and hi: "bitonic ?m ?hi"
    have "\<not> i < ?m" using Suc.prems net [of i] merge_net_const [of k ?lo False i ?F] lo by auto
    then show ?thesis using Suc.prems net [of i] net [of j] Suc.IH [OF hi, of "i - ?m" "j - ?m"] by auto
  next
    assume hi: "\<forall>i<?m. ?hi i" and lo: "bitonic ?m ?lo"
    show ?thesis
    proof (cases "j < ?m")
      case True
      then show ?thesis using Suc.prems net [of i] net [of j] Suc.IH [OF lo, of i j] by auto
    next
      case False
      then show ?thesis using Suc.prems(3) net [of j] merge_net_const [of k ?hi True "j - ?m" ?F] hi by auto
    qed
  qed
qed simp

section \<open>The whole sort\<close>

text \<open>
  Stage \<open>i\<close> of the sort puts the blocks of \<open>2 ^ i\<close> elements in alternating order, and the last stage
  puts the whole block in the order asked for.
\<close>

definition stage_dir :: "nat \<Rightarrow> bool \<Rightarrow> nat \<Rightarrow> nat \<Rightarrow> bool" where
  "stage_dir n descending i p = (if i < n then p div 2 ^ i mod 2 = 1 else descending)"

fun sort_net :: "nat \<Rightarrow> bool \<Rightarrow> nat \<Rightarrow> (nat \<Rightarrow> 'a::linorder) \<Rightarrow> nat \<Rightarrow> 'a" where
  "sort_net n descending 0 f = f"
| "sort_net n descending (Suc i) f = merge_net (Suc i) (stage_dir n descending (Suc i)) (sort_net n descending i f)"

text \<open>\<open>in_order d x y\<close>: \<open>x\<close> may stand before \<open>y\<close> in the order \<open>d\<close>.\<close>

definition in_order :: "bool \<Rightarrow> 'a::linorder \<Rightarrow> 'a \<Rightarrow> bool" where
  "in_order d x y \<longleftrightarrow> (if d then y \<le> x else x \<le> y)"

lemma bitonic_not:
  assumes "bitonic m f" shows "bitonic m (\<lambda>p. \<not> f p)"
proof -
  obtain a b c where "\<forall>i<m. f i = ((a \<le> i \<and> i < b) = c)" using assms by (auto simp: bitonic_def)
  then have "\<forall>i<m. (\<not> f i) = ((a \<le> i \<and> i < b) = (\<not> c))" by simp
  then show ?thesis unfolding bitonic_def by blast
qed

lemma merge_net_dir:
  assumes "bitonic (2 ^ k) f" "i < j" "j < 2 ^ k"
  shows "in_order d (merge_net k (\<lambda>_. d) f i) (merge_net k (\<lambda>_. d) f j)"
proof (cases d)
  case False
  then show ?thesis using merge_net_bitonic [OF assms] by (auto simp: in_order_def)
next
  case True
  have "merge_net k (\<lambda>_. True) f p = (\<not> merge_net k (\<lambda>_. False) (\<lambda>p. \<not> f p) p)" for p
    using merge_net_not [of k "\<lambda>_. False" "\<lambda>p. \<not> f p"] by (simp add: fun_eq_iff)
  then show ?thesis
    using True merge_net_bitonic [OF bitonic_not [OF assms(1)] assms(2,3)] by (auto simp: in_order_def)
qed

lemma ascending_threshold:
  fixes f :: "nat \<Rightarrow> bool"
  assumes "\<And>i j. i < j \<Longrightarrow> j < m \<Longrightarrow> f i \<Longrightarrow> f j"
  shows "\<exists>a. \<forall>i<m. f i = (a \<le> i)"
proof (cases "\<exists>i<m. f i")
  case True
  then have a: "f (LEAST i. f i)" by (auto intro: LeastI)
  moreover have "\<not> f i" if "i < (LEAST i. f i)" for i using not_less_Least that by blast
  ultimately have "\<forall>i<m. f i = ((LEAST i. f i) \<le> i)"
    using assms by (metis le_neq_implies_less not_less)
  then show ?thesis by blast
qed (auto intro: exI [of _ m])

lemma up_down_bitonic:
  fixes f :: "nat \<Rightarrow> bool"
  assumes up: "\<And>i j. i < j \<Longrightarrow> j < m \<Longrightarrow> in_order False (f i) (f j)"
    and down: "\<And>i j. i < j \<Longrightarrow> j < m \<Longrightarrow> in_order True (f (m + i)) (f (m + j))"
  shows "bitonic (2 * m) f"
proof -
  obtain a where a: "\<And>i. i < m \<Longrightarrow> f i = (a \<le> i)"
    using ascending_threshold [of m f] up by (auto simp: in_order_def)
  obtain b where b: "\<And>i. i < m \<Longrightarrow> (\<not> f (m + i)) = (b \<le> i)"
    using ascending_threshold [of m "\<lambda>i. \<not> f (m + i)"] down by (auto simp: in_order_def)
  have b': "f i = (i < m + b)" if "m \<le> i" "i < 2 * m" for i
    using b [of "i - m"] that by (simp add: less_diff_conv2) linarith
  show ?thesis
  proof (cases "a < m")
    case True
    have "f i = ((a \<le> i \<and> i < m + b) = True)" if "i < 2 * m" for i
      using a [of i] b' [of i] that True by (cases "i < m") auto
    then show ?thesis unfolding bitonic_def by blast
  next
    case False
    have "f i = ((m \<le> i \<and> i < m + b) = True)" if "i < 2 * m" for i
      using a [of i] b' [of i] that False by (cases "i < m") auto
    then show ?thesis unfolding bitonic_def by blast
  qed
qed

lemma stage_dir_block:
  "p < 2 ^ i \<Longrightarrow> stage_dir n d i (q * 2 ^ i + p) = (if i < n then odd q else d)"
  by (simp add: stage_dir_def odd_iff_mod_2_eq_one)

lemma sort_net_bool:
  fixes f :: "nat \<Rightarrow> bool"
  assumes "k \<le> n" "i < j" "j < 2 ^ k"
  shows "in_order (if k < n then odd q else d)
     (sort_net n d k f (q * 2 ^ k + i)) (sort_net n d k f (q * 2 ^ k + j))"
  using assms
proof (induction k arbitrary: q i j)
  case (Suc k)
  let ?g = "sort_net n d k f" and ?b = "q * 2 ^ Suc k" and ?e = "if Suc k < n then odd q else d"
  have half: "in_order (odd r) (?g (r * 2 ^ k + i)) (?g (r * 2 ^ k + j))" if "i < j" "j < 2 ^ k" for r i j
    using Suc.IH [of i j r] Suc.prems(1) that by simp
  have "bitonic (2 * 2 ^ k) (\<lambda>p. ?g (?b + p))"
    using half [of _ _ "2 * q"] half [of _ _ "2 * q + 1"] by (intro up_down_bitonic) (simp_all add: algebra_simps)
  moreover have "sort_net n d (Suc k) f (?b + p) = merge_net (Suc k) (\<lambda>_. ?e) (\<lambda>p. ?g (?b + p)) p"
    if "p < 2 ^ Suc k" for p
    using merge_net_cong [of "Suc k" "2 ^ Suc k" "\<lambda>p. ?g (?b + p)" "\<lambda>p. ?g (?b + p)"
        "\<lambda>p. stage_dir n d (Suc k) (?b + p)" "\<lambda>_. ?e" p] that
    by (simp add: merge_net_add stage_dir_block del: merge_net.simps power_Suc)
  ultimately show ?case
    using merge_net_dir [of "Suc k" "\<lambda>p. ?g (?b + p)" i j ?e] Suc.prems(2,3)
    by (simp del: merge_net.simps sort_net.simps)
qed simp

lemma sort_net_mono: "mono h \<Longrightarrow> h (sort_net n d k f p) = sort_net n d k (\<lambda>q. h (f q)) p"
  by (induction k arbitrary: p) (simp_all add: merge_net_mono del: merge_net.simps)

theorem sort_net_sorted:
  assumes "i < j" "j < 2 ^ n"
  shows "in_order d (sort_net n d n f (q * 2 ^ n + i)) (sort_net n d n f (q * 2 ^ n + j))"
proof -
  let ?x = "sort_net n d n f (q * 2 ^ n + i)" and ?y = "sort_net n d n f (q * 2 ^ n + j)"
  have m: "mono (\<lambda>z. c \<le> z)" for c :: 'a by (auto intro!: monoI)
  have "in_order d (c \<le> ?x) (c \<le> ?y)" for c
    using sort_net_bool [of n n i j q d "\<lambda>p. c \<le> f p"] assms by (simp add: sort_net_mono [OF m])
  from this [of ?x] this [of ?y] show ?thesis by (auto simp: in_order_def split: if_splits)
qed

section \<open>The sort permutes each block\<close>

text \<open>The elements of a range of positions, as a multiset.\<close>

definition elements :: "nat \<Rightarrow> nat \<Rightarrow> (nat \<Rightarrow> 'a) \<Rightarrow> 'a multiset" where
  "elements a m f = image_mset (\<lambda>i. f (a + i)) (mset [0..<m])"

lemma elements_simps [simp]:
  "elements a 0 f = {#}"
  "elements a (Suc m) f = add_mset (f (a + m)) (elements a m f)"
  by (simp_all add: elements_def)

lemma elements_add: "elements a (m + k) f = elements a m f + elements (a + m) k f"
  by (induction k) (simp_all add: add.assoc)

lemma cas_pair_elements:
  "r < S \<Longrightarrow> {#cas S dir f (2 * S * q + r), cas S dir f (2 * S * q + (r + S))#} = {#f (2 * S * q + r), f (2 * S * q + (r + S))#}
     \<or> dir (2 * S * q + r) \<noteq> dir (2 * S * q + (r + S))"
  by (auto simp: cas_def Let_def low_pair add.assoc add_mset_commute)

lemma cas_elements_pairs:
  assumes "\<And>r. r < S \<Longrightarrow> dir (2 * S * q + r) = dir (2 * S * q + (r + S))" "k \<le> S"
  shows "elements (2 * S * q) k (cas S dir f) + elements (2 * S * q + S) k (cas S dir f) =
     elements (2 * S * q) k f + elements (2 * S * q + S) k f"
  using assms(2)
proof (induction k)
  case (Suc k)
  then show ?case
    using cas_pair_elements [of k S dir f q] assms(1) [of k] by (simp add: ac_simps add_mset_commute)
qed simp

lemma cas_elements:
  assumes d: "\<And>q r. r < S \<Longrightarrow> dir (2 * S * q + r) = dir (2 * S * q + (r + S))"
  shows "elements (2 * S * q) (2 * S * c) (cas S dir f) = elements (2 * S * q) (2 * S * c) f"
proof (induction c)
  case (Suc c)
  have eq: "2 * S * Suc c = 2 * S * c + (S + S)" by simp
  show ?case
    unfolding eq elements_add [of _ "2 * S * c"] elements_add [of _ S S] Suc
    using cas_elements_pairs [OF d, of S "q + c" f] by (simp add: algebra_simps)
qed simp

lemma stage_dir_pair:
  assumes "k < i" "r < 2 ^ k"
  shows "stage_dir n d i (2 * 2 ^ k * q + r) = stage_dir n d i (2 * 2 ^ k * q + (r + 2 ^ k))"
proof -
  have "(2 ^ Suc k * q + t) div 2 ^ i = q div 2 ^ (i - Suc k)" if "t < 2 ^ Suc k" for t
  proof -
    have "2 ^ i = 2 ^ Suc k * (2::nat) ^ (i - Suc k)" using assms(1) by (metis Suc_leI le_add_diff_inverse power_add)
    then have "(2 ^ Suc k * q + t) div 2 ^ i = (2 ^ Suc k * q + t) div 2 ^ Suc k div 2 ^ (i - Suc k)"
      by (simp only: div_mult2_eq)
    also have "(2 ^ Suc k * q + t) div 2 ^ Suc k = q" using that by simp
    finally show ?thesis .
  qed
  from this [of r] this [of "r + 2 ^ k"] assms(2) show ?thesis by (simp add: stage_dir_def)
qed

lemma merge_net_elements:
  assumes "k \<le> i" "2 ^ i dvd a" "2 ^ i dvd m"
  shows "elements a m (merge_net k (stage_dir n d i) f) = elements a m f"
  using assms(1)
proof (induction k arbitrary: f)
  case (Suc k)
  have "2 * 2 ^ k dvd (2::nat) ^ i" using Suc.prems by (metis le_imp_power_dvd power_Suc)
  then have "2 * 2 ^ k dvd a" "2 * 2 ^ k dvd m" using assms(2,3) by (auto intro: dvd_trans)
  then obtain q c where a: "a = 2 * 2 ^ k * q" and m: "m = 2 * 2 ^ k * c" by (auto elim!: dvdE)
  have "elements a m (cas (2 ^ k) (stage_dir n d i) f) = elements a m f"
    unfolding a m by (rule cas_elements) (use stage_dir_pair Suc.prems in auto)
  with Suc show ?case by simp
qed simp

theorem sort_net_elements:
  assumes "k \<le> n" "2 ^ n dvd a" "2 ^ n dvd m"
  shows "elements a m (sort_net n d k f) = elements a m f"
  using assms(1)
proof (induction k)
  case (Suc k)
  have "2 ^ Suc k dvd (2::nat) ^ n" using Suc.prems by (metis le_imp_power_dvd)
  then have "2 ^ Suc k dvd a" "2 ^ Suc k dvd m" using assms(2,3) by (auto intro: dvd_trans)
  with Suc show ?case using merge_net_elements [of "Suc k" "Suc k" a m n d "sort_net n d k f"] by (simp del: merge_net.simps)
qed simp

lemma elements_mset: "elements a m f = mset (map (\<lambda>i. f (a + i)) [0..<m])"
  by (simp add: elements_def)

end
