(* ===== verification/Standard.thy ===== *)
theory Standard
  imports Index_Math Tensor_Value Bitonic Semantic_Shape
begin

unbundle bit_operations_syntax

text \<open>
  The standard library \<open>python/triton/language/standard.py\<close>.  Its functions are kernels: their
  arguments are block values of fixed-width integers (\<open>Tensor_Value\<close>), and operators wrap around.
  \<open>sg\<close> says whether the element type is signed.  \<open>sort\<close> is shown to sort every row,
  \<open>cdiv\<close> to be ceiling division where the sum does not overflow, and \<open>swizzle2d\<close> to permute the
  cells of the matrix.  The reductions that choose a type (\<open>max\<close>, \<open>min\<close>, \<open>sum\<close>, \<dots>) are
  modelled on the builder.
\<close>

section \<open>Compile-time helpers\<close>

function log2_loop :: "int \<Rightarrow> int \<Rightarrow> int" where
  "log2_loop n acc = (if n > 1 then log2_loop (drop_bit 1 n) (acc + 1) else acc)"
  by auto
termination by (relation "measure (\<lambda>(n, _). nat n)") (auto simp: drop_bit_Suc)

declare log2_loop.simps [simp del]

definition log2_const :: "int \<Rightarrow> int" where
  "log2_const n = log2_loop n 0"

definition is_power_of_two_const :: "int \<Rightarrow> bool" where
  "is_power_of_two_const n \<longleftrightarrow> n AND (n - 1) = 0 \<and> n \<noteq> 0"

lemma log2_loop_power: "log2_loop (2 ^ k) acc = acc + int k"
proof (induction k arbitrary: acc)
  case 0
  then show ?case by (subst log2_loop.simps) simp
next
  case (Suc k)
  have "(1::int) < 2 ^ Suc k" by (rule one_less_power) simp_all
  with Suc show ?case by (subst log2_loop.simps) (simp add: drop_bit_Suc)
qed

lemma log2_const_power: "log2_const (2 ^ k) = int k"
  by (simp add: log2_const_def log2_loop_power)

text \<open>In general \<open>_log2\<close> rounds down.\<close>

lemma log2_loop_floor:
  "0 < n \<Longrightarrow> \<exists>k. log2_loop n acc = acc + int k \<and> 2 ^ k \<le> n \<and> n < 2 ^ Suc k"
proof (induction n acc rule: log2_loop.induct)
  case (1 n acc)
  show ?case
  proof (cases "n > 1")
    case True
    then obtain k where k: "log2_loop (drop_bit 1 n) (acc + 1) = acc + 1 + int k"
        "2 ^ k \<le> n div 2" "n div 2 < 2 ^ Suc k"
      using 1 by (auto simp: drop_bit_Suc pos_imp_zdiv_pos_iff)
    then have "log2_loop n acc = acc + int (Suc k)" using True by (subst log2_loop.simps) simp
    moreover have "2 ^ Suc k \<le> n" "n < 2 ^ Suc (Suc k)" using k(2,3) by auto
    ultimately show ?thesis by blast
  next
    case False
    then have "n = 1" using 1 by simp
    then show ?thesis by (auto simp: log2_loop.simps intro: exI [of _ 0])
  qed
qed

section \<open>Sorting\<close>

definition compare_and_swap :: "bool \<Rightarrow> 'a::len word tval \<Rightarrow> int tval \<Rightarrow> nat \<Rightarrow> nat \<Rightarrow> 'a word tval" where
  "compare_and_swap sg x flip i n_dims =
     (let n_outer = tnumel x div 2 ^ n_dims;
          shape = [n_outer * 2 ^ i, 2, 2 ^ (n_dims - i - 1)];
          y = reshape_val shape x;
          mask = map_val int (expand_dims_val 2 (expand_dims_val 0 (arange_val 0 2)));
          left = broadcast_val shape (expand_dims_val 1
            (reduce_val (+) 1 (zip_val (\<lambda>v m. v * of_int m) y (map_val (\<lambda>m. 1 - m) mask))));
          right = broadcast_val shape (expand_dims_val 1
            (reduce_val (+) 1 (zip_val (\<lambda>v m. v * of_int m) y mask)));
          left = reshape_val (tshape x) left;
          right = reshape_val (tshape x) right;
          greater = zip_val (\<lambda>l r. of_bool (int_key sg l > int_key sg r)) left right;
          swap = zip_val (\<noteq>) greater flip;
          difference = zip_val (XOR) left right
      in zip_val (XOR) x (zip_val (\<lambda>c d. if c then d else 0) swap difference))"

definition flip_tensor :: "'a::len word tval \<Rightarrow> nat \<Rightarrow> int \<Rightarrow> nat \<Rightarrow> int tval" where
  "flip_tensor x stage order n_dims =
     (let n_outer = tnumel x div 2 ^ n_dims in
      if order = 2 then
        let shape = [n_outer * 2 ^ (n_dims - 1 - stage), 2, 2 ^ stage] in
        reshape_val (tshape x)
          (broadcast_val shape (map_val int (expand_dims_val 2 (expand_dims_val 0 (arange_val 0 2)))))
      else full_val (tshape x) order)"

definition bitonic_merge :: "bool \<Rightarrow> 'a::len word tval \<Rightarrow> nat \<Rightarrow> int \<Rightarrow> nat \<Rightarrow> 'a word tval result" where
  "bitonic_merge sg x stage order n_dims =
     bind_r (check_r (stage \<le> n_dims) CompileTimeAssertionFailure) (\<lambda>_.
     let flip = flip_tensor x stage order n_dims in
     Inr (fold (\<lambda>i x. compare_and_swap sg x flip (i + (n_dims - stage)) n_dims) [0..<stage] x))"

fun sort_stages :: "bool \<Rightarrow> int \<Rightarrow> nat \<Rightarrow> nat list \<Rightarrow> 'a::len word tval \<Rightarrow> 'a word tval result" where
  "sort_stages sg descending n_dims [] x = Inr x"
| "sort_stages sg descending n_dims (i # is) x =
     bind_r (bitonic_merge sg x i (if i < n_dims then 2 else descending) n_dims)
       (sort_stages sg descending n_dims is)"

definition sort_tensor :: "bool \<Rightarrow> 'a::len word tval \<Rightarrow> int option \<Rightarrow> int \<Rightarrow> 'a word tval result" where
  "sort_tensor sg x axis descending =
     (let last_dim = int (length (tshape x)) - 1;
          axis = (case axis of None \<Rightarrow> last_dim | Some d \<Rightarrow> d) in
      bind_r (check_r (axis = last_dim) CompileTimeAssertionFailure) (\<lambda>_.
      bind_r (check_r (tshape x \<noteq> []) IndexError) (\<lambda>_.
      let n_dims = nat (log2_const (int (last (tshape x)))) in
      sort_stages sg descending n_dims [1..<n_dims + 1] x)))"

section \<open>Flipping and interleaving\<close>

definition get_flip_dim :: "int option \<Rightarrow> nat list \<Rightarrow> int result" where
  "get_flip_dim axis shape =
     (let axis = (case axis of None \<Rightarrow> int (length shape) - 1 | Some d \<Rightarrow> d) in
      bind_r (check_r (axis = int (length shape) - 1) AssertionError) (\<lambda>_. Inr axis))"

text \<open>One round of \<open>flip\<close>: \<open>flip\<close> and \<open>y\<close> are broadcast against each other.\<close>

definition flip_round :: "nat \<Rightarrow> nat \<Rightarrow> 'a::len word tval \<Rightarrow> 'a word tval" where
  "flip_round steps i y =
     (let row = map_val int (expand_dims_val 1 (arange_val 0 2));
          column = map_val (\<lambda>b. 1 - int b) (expand_dims_val 0 (arange_val 0 2));
          flip = zip_val (\<lambda>a b. (of_bool (a = b) :: int)) row column;
          flip2 = fold (\<lambda>j t. if j \<noteq> i \<and> j \<noteq> i + 1 then expand_dims_val j t else t) [0..<steps + 1] flip
      in expand_dims_val (i + 1) (reduce_val (+) (i + 1) (zip_val (\<lambda>v m. v * of_int m) y flip2)))"

definition flip_tensor_values :: "'a::len word tval \<Rightarrow> int option \<Rightarrow> 'a word tval result" where
  "flip_tensor_values x axis =
     bind_r (get_flip_dim axis (tshape x)) (\<lambda>d.
     bind_r (check_r (tshape x \<noteq> []) IndexError) (\<lambda>_.
     let n = tshape x ! nat d in
     bind_r (check_r (is_power_of_two_const (int n)) CompileTimeAssertionFailure) (\<lambda>_.
     bind_r (check_r (is_power_of_two_const (int (tnumel x))) CompileTimeAssertionFailure) (\<lambda>_.
     let steps = nat (log2_const (int (tnumel x)));
         start = steps - nat (log2_const (int n));
         y = expand_dims_val start (reshape_val (replicate steps 2) x);
         y = fold (flip_round steps) [start..<steps] y
     in Inr (reshape_val (tshape x) y)))))"

text \<open>\<open>join\<close> puts the two tensors side by side in a new, last dimension of length two.\<close>

definition join_val :: "'a tval \<Rightarrow> 'a tval \<Rightarrow> 'a tval" where
  "join_val a b = \<lparr>tshape = tshape a @ [2], elem_at = (\<lambda>is. if last is = 0 then elem_at a (butlast is) else elem_at b (butlast is))\<rparr>"

definition interleave :: "'a tval \<Rightarrow> 'a tval \<Rightarrow> 'a tval" where
  "interleave a b =
     (let c = join_val a b in
      if length (tshape c) = 1 then c
      else reshape_val (butlast (butlast (tshape c)) @ [2 * last (butlast (tshape c))]) c)"


section \<open>The sort network on tensors\<close>

text \<open>One member of every pair, spread over the pair again: \<open>left\<close> and \<open>right\<close> of \<open>_compare_and_swap\<close>.\<close>

definition pair_member :: "nat \<Rightarrow> nat \<Rightarrow> int tval \<Rightarrow> 'a::len word tval \<Rightarrow> 'a word tval" where
  "pair_member A S m x = broadcast_val [A, 2, S] (expand_dims_val 1
     (reduce_val (+) 1 (zip_val (\<lambda>v m. v * of_int m) (reshape_val [A, 2, S] x) m)))"

lemma pair_product:
  assumes "a < A" "j < 2" "s < S" "tshape m = [1, 2, 1]"
  shows "elem_at (zip_val (\<lambda>v m. v * of_int m) (reshape_val [A, 2, S] x) m) [a, j, s] =
     flat_at x (a * (2 * S) + (j * S + s)) * of_int (elem_at m [0, j, 0])"
proof -
  have "clip_index [A, 2, S] [a, j, s] = [a, j, s]" using assms by (intro clip_index_valid) simp
  then show ?thesis using assms(4) by (simp add: zip_val_def Let_def reshape_val_def clip_index_def)
qed

lemma reduce_pair:
  "tshape t = [A, 2, S] \<Longrightarrow> elem_at (reduce_val f 1 t) [a, s] = f (elem_at t [a, 0, s]) (elem_at t [a, 1, s])"
  by (simp add: reduce_val_def Let_def upt_rec)

lemma tshape_pair: "tshape m = [1, 2, 1] \<Longrightarrow> tshape (zip_val f (reshape_val [A, 2, S] x) m) = [A, 2, S]"
  by (simp add: zip_val_def Let_def reshape_val_def)

lemma tshape_reduce_pair: "tshape t = [A, 2, S] \<Longrightarrow> tshape (reduce_val f 1 t) = [A, S]"
  by (simp add: reduce_val_def)

lemma spread_pair:
  assumes "a < A" "s < S" "tshape t = [A, S]"
  shows "elem_at (broadcast_val [A, 2, S] (expand_dims_val 1 t)) [a, j, s] = elem_at t [a, s]"
proof -
  have "clip_index [A, 1, S] [a, j, s] = [a, 0, s]" using assms(1,2) by (simp add: clip_index_def)
  then show ?thesis using assms(3) by (simp add: broadcast_val_def expand_dims_val_def)
qed

lemma flat_pair_member:
  assumes p: "p < A * (2 * S)" and m: "tshape m = [1, 2, 1]"
  shows "flat_at (pair_member A S m x) p =
     flat_at x (low S p) * of_int (elem_at m [0, 0, 0]) + flat_at x (low S p + S) * of_int (elem_at m [0, 1, 0])"
proof -
  have S: "0 < S" using p by (cases S) auto
  let ?a = "p div (2 * S)" and ?s = "p mod S"
  have a: "?a < A" using p S by (simp add: less_mult_imp_div_less)
  have s: "?s < S" using S by simp
  have idx: "unravel_index [A, 2, S] p = [?a, p mod (2 * S) div S, ?s]" by (simp add: mod_mod_cancel)
  let ?z = "zip_val (\<lambda>v m. v * of_int m) (reshape_val [A, 2, S] x) m"
  have "flat_at (pair_member A S m x) p = elem_at (reduce_val (+) 1 ?z) [?a, ?s]"
    unfolding flat_at_def pair_member_def tshape_simps idx
    by (rule spread_pair [OF a s]) (rule tshape_reduce_pair [OF tshape_pair [OF m]])
  also have "\<dots> = elem_at ?z [?a, 0, ?s] + elem_at ?z [?a, 1, ?s]" by (rule reduce_pair [OF tshape_pair [OF m]])
  also have "\<dots> = flat_at x (low S p) * of_int (elem_at m [0, 0, 0]) + flat_at x (low S p + S) * of_int (elem_at m [0, 1, 0])"
    using pair_product [OF a _ s m, of 0 x] pair_product [OF a _ s m, of 1 x] by (simp add: low_def ac_simps)
  finally show ?thesis .
qed

lemma compare_and_swap_flat:
  assumes x: "tnumel x = A * 2 ^ n" and i: "i < n" and f: "tshape flip = tshape x" and p: "p < tnumel x"
  defines "S \<equiv> 2 ^ (n - i - 1)"
  defines "l \<equiv> flat_at x (low S p)" and "r \<equiv> flat_at x (low S p + S)"
  shows "flat_at (compare_and_swap sg x flip i n) p =
     (if of_bool (int_key sg l > int_key sg r) \<noteq> flat_at flip p then flat_at x p XOR l XOR r else flat_at x p)"
    and "tshape (compare_and_swap sg x flip i n) = tshape x"
proof -
  let ?A = "A * 2 ^ i" and ?sh = "[A * 2 ^ i, 2, S]"
  have "2 ^ i * (2 * S) = (2::nat) ^ n" using i by (simp add: S_def flip: power_add power_Suc)
  then have sz: "tnumel x = ?A * (2 * S)" using x by (simp add: mult.assoc)
  have outer: "tnumel x div 2 ^ n = A" using x by simp
  have pp: "p < prod_list ?sh" "p < ?A * (2 * S)" "p < prod_list (tshape x)"
    using p sz by (simp_all add: tnumel_def mult_ac)
  let ?mask = "map_val int (expand_dims_val 2 (expand_dims_val 0 (arange_val 0 2)))"
  let ?left = "reshape_val (tshape x) (pair_member ?A S (map_val (\<lambda>m. 1 - m) ?mask) x)"
  let ?right = "reshape_val (tshape x) (pair_member ?A S ?mask x)"
  have mask: "tshape ?mask = [1, 2, 1]" "tshape (map_val (\<lambda>m. 1 - m) ?mask) = [1, 2, 1]"
    by (simp_all add: expand_dims_val_def arange_val_def map_val_def)
  have mem: "flat_at ?left p = l" "flat_at ?right p = r"
    using flat_pair_member [OF pp(2) mask(2), of x] flat_pair_member [OF pp(2) mask(1), of x] pp(3)
    by (simp_all add: l_def r_def) (simp_all add: expand_dims_val_def arange_val_def map_val_def)
  have eq: "compare_and_swap sg x flip i n =
     zip_val (XOR) x (zip_val (\<lambda>c d. if c then d else 0)
       (zip_val (\<noteq>) (zip_val (\<lambda>l r. of_bool (int_key sg l > int_key sg r)) ?left ?right) flip)
       (zip_val (XOR) ?left ?right))"
    unfolding compare_and_swap_def Let_def pair_member_def outer S_def [symmetric] by (rule refl)
  show "tshape (compare_and_swap sg x flip i n) = tshape x"
    unfolding eq by (simp add: tshape_zip_same f)
  show "flat_at (compare_and_swap sg x flip i n) p =
     (if of_bool (int_key sg l > int_key sg r) \<noteq> flat_at flip p then flat_at x p XOR l XOR r else flat_at x p)"
    unfolding eq by (simp add: flat_zip_same tshape_zip_same f pp(3) mem xor.assoc)
qed

text \<open>Read through the order of its element type, the compare-and-swap is that of the network.\<close>

lemma xor_cancel: "(l XOR (l XOR r)) = r" "(r XOR (l XOR r)) = (l :: 'a::len word)"
  by (simp_all add: xor.left_commute flip: xor.assoc)

lemma compare_and_swap_key:
  assumes x: "tnumel x = A * 2 ^ n" and i: "i < n" and f: "tshape flip = tshape x" and p: "p < tnumel x"
    and d: "flat_at flip p = of_bool (dir p)"
  shows "int_key sg (flat_at (compare_and_swap sg x flip i n) p) =
     cas (2 ^ (n - i - 1)) dir (\<lambda>q. int_key sg (flat_at x q)) p"
proof -
  have S: "0 < (2::nat) ^ (n - i - 1)" by simp
  show ?thesis
  proof (rule pair_cases [OF S, of p])
    fix q r assume 1: "r < 2 ^ (n - i - 1)" "p = 2 * 2 ^ (n - i - 1) * q + r"
    note lp = low_pair(1,2) [OF 1(1), of q, folded 1(2)]
    show ?thesis unfolding compare_and_swap_flat(1) [OF x i f p] cas_def Let_def lp d
      using lp(2) by (simp add: xor.assoc xor_cancel)
  next
    fix q r assume 2: "r < 2 ^ (n - i - 1)" "p = 2 * 2 ^ (n - i - 1) * q + (r + 2 ^ (n - i - 1))"
    note lp = low_pair(3,4) [OF 2(1), of q, folded 2(2)]
    have m: "low (2 ^ (n - i - 1)) p + 2 ^ (n - i - 1) = p" using lp(1) 2(2) by simp
    show ?thesis unfolding compare_and_swap_flat(1) [OF x i f p] cas_def Let_def m d
      using lp(2) by (simp add: xor.assoc xor_cancel)
  qed
qed

text \<open>A merge of the program is a merge of the network.\<close>

lemma merge_rounds:
  fixes sg :: bool and x :: "'a::len word tval"
  assumes x: "tnumel x = A * 2 ^ n" and st: "stage \<le> n" "k \<le> stage" and f: "tshape flip = tshape x"
    and d: "\<And>p. p < tnumel x \<Longrightarrow> flat_at flip p = of_bool (dir p)"
  defines "y \<equiv> fold (\<lambda>i x. compare_and_swap sg x flip (i + (n - stage)) n) [stage - k..<stage] x"
  shows "tshape y = tshape x \<and>
     (\<forall>p < tnumel x. int_key sg (flat_at y p) = merge_net k dir (\<lambda>q. int_key sg (flat_at x q)) p)"
  using x st(2) f d unfolding y_def
proof (induction k arbitrary: x)
  case (Suc k)
  let ?i = "stage - Suc k + (n - stage)"
  let ?x = "compare_and_swap sg x flip ?i n"
  have i: "?i < n" "n - ?i - 1 = k" using st(1) Suc.prems(2) by auto
  have up: "[stage - Suc k..<stage] = (stage - Suc k) # [stage - k..<stage]"
    using Suc.prems(2) by (simp add: upt_conv_Cons Suc_diff_Suc)
  have sh: "tshape ?x = tshape x"
  proof (cases "tnumel x")
    case 0
    then show ?thesis
      using Suc.prems(3) by (simp add: compare_and_swap_def Let_def tshape_zip_same)
  next
    case (Suc m)
    then show ?thesis using compare_and_swap_flat(2) [OF Suc.prems(1) i(1) Suc.prems(3), of 0] by simp
  qed
  then have num: "tnumel ?x = tnumel x" by (simp add: tnumel_def)
  have key: "int_key sg (flat_at ?x p) = cas (2 ^ k) dir (\<lambda>q. int_key sg (flat_at x q)) p" if "p < tnumel x" for p
    using compare_and_swap_key [where dir = dir, OF Suc.prems(1) i(1) Suc.prems(3) that Suc.prems(4) [OF that]] i(2)
    by simp
  have dvd: "2 ^ k dvd tnumel x"
    unfolding Suc.prems(1) using Suc.prems(2) st(1) by (intro dvd_mult le_imp_power_dvd) simp
  have IH: "tshape (fold (\<lambda>i x. compare_and_swap sg x flip (i + (n - stage)) n) [stage - k..<stage] ?x) = tshape ?x \<and>
     (\<forall>p < tnumel ?x. int_key sg (flat_at (fold (\<lambda>i x. compare_and_swap sg x flip (i + (n - stage)) n) [stage - k..<stage] ?x) p) =
       merge_net k dir (\<lambda>q. int_key sg (flat_at ?x q)) p)"
    using Suc.prems num sh by (intro Suc.IH) simp_all
  have "merge_net k dir (\<lambda>q. int_key sg (flat_at ?x q)) p = merge_net (Suc k) dir (\<lambda>q. int_key sg (flat_at x q)) p"
    if "p < tnumel x" for p
    unfolding merge_net.simps by (rule merge_net_cong [OF dvd _ refl that]) (rule key)
  with IH num sh show ?case unfolding up fold_simps by simp
qed simp

lemma flip_tensor_flat:
  assumes x: "tnumel x = A * 2 ^ n" and st: "stage \<le> n" and p: "p < tnumel x" and d: "descending \<in> {0, 1}"
  defines "order \<equiv> if stage < n then 2 else descending"
  shows "tshape (flip_tensor x stage order n) = tshape x \<and>
     flat_at (flip_tensor x stage order n) p = of_bool (stage_dir n (descending = 1) stage p)"
proof (cases "stage < n")
  case True
  let ?A = "A * 2 ^ (n - 1 - stage)" and ?S = "2 ^ stage :: nat"
  have outer: "tnumel x div 2 ^ n = A" using x by simp
  have "2 ^ (n - 1 - stage) * (2 * ?S) = (2::nat) ^ n" using True by (simp flip: power_add power_Suc)
  then have sz: "tnumel x = ?A * (2 * ?S)" using x by (simp add: mult.assoc)
  have pp: "p < prod_list [?A, 2, ?S]" "p < prod_list (tshape x)" using p sz by (simp_all add: tnumel_def)
  have m: "p mod (2 * ?S) div ?S = p div ?S mod 2" by (simp add: mod_mult2_eq mult.commute [of 2])
  show ?thesis
    using True pp(2) unfolding flip_tensor_def Let_def outer order_def
    by (simp add: m stage_dir_def of_bool_def)
       (simp add: flat_at_def broadcast_val_def clip_index_def map_val_def expand_dims_val_def arange_val_def m)
next
  case False
  then show ?thesis using st d by (auto simp: flip_tensor_def order_def stage_dir_def)
qed

lemma bitonic_merge_key:
  assumes x: "tnumel x = A * 2 ^ n" and st: "stage \<le> n" and d: "descending \<in> {0, 1}"
  shows "\<exists>y. bitonic_merge sg x stage (if stage < n then 2 else descending) n = Inr y \<and> tshape y = tshape x \<and>
     (\<forall>p < tnumel x. int_key sg (flat_at y p) =
        merge_net stage (stage_dir n (descending = 1) stage) (\<lambda>q. int_key sg (flat_at x q)) p)"
proof -
  let ?flip = "flip_tensor x stage (if stage < n then 2 else descending) n"
  have sh: "tshape ?flip = tshape x" by (simp add: flip_tensor_def Let_def)
  show ?thesis
    using merge_rounds [OF x st order_refl sh, of "stage_dir n (descending = 1) stage" sg]
      flip_tensor_flat [OF x st _ d] st
    by (auto simp: bitonic_merge_def check_r_def)
qed

lemma sort_stages_append:
  "sort_stages sg d n (is @ js) x = bind_r (sort_stages sg d n is x) (sort_stages sg d n js)"
proof (induction "is" arbitrary: x)
  case (Cons i "is")
  then show ?case by (cases "bitonic_merge sg x i (if i < n then 2 else d) n") simp_all
qed simp

lemma sort_stages_key:
  assumes x: "tnumel x = A * 2 ^ n" and d: "descending \<in> {0, 1}" and "k \<le> n"
  shows "\<exists>y. sort_stages sg descending n [1..<Suc k] x = Inr y \<and> tshape y = tshape x \<and>
     (\<forall>p < tnumel x. int_key sg (flat_at y p) = sort_net n (descending = 1) k (\<lambda>q. int_key sg (flat_at x q)) p)"
  using assms(3)
proof (induction k)
  case (Suc k)
  then obtain y where y: "sort_stages sg descending n [1..<Suc k] x = Inr y" "tshape y = tshape x"
      "\<And>p. p < tnumel x \<Longrightarrow> int_key sg (flat_at y p) = sort_net n (descending = 1) k (\<lambda>q. int_key sg (flat_at x q)) p"
    by auto
  have num: "tnumel y = tnumel x" using y(2) by (simp add: tnumel_def)
  then obtain z where z: "bitonic_merge sg y (Suc k) (if Suc k < n then 2 else descending) n = Inr z" "tshape z = tshape y"
      "\<And>p. p < tnumel y \<Longrightarrow> int_key sg (flat_at z p) =
         merge_net (Suc k) (stage_dir n (descending = 1) (Suc k)) (\<lambda>q. int_key sg (flat_at y q)) p"
    using bitonic_merge_key [of y A n "Suc k" descending sg] x Suc.prems d by auto
  have dvd: "2 ^ Suc k dvd tnumel x"
    unfolding x using Suc.prems by (intro dvd_mult le_imp_power_dvd)
  have "int_key sg (flat_at z p) = sort_net n (descending = 1) (Suc k) (\<lambda>q. int_key sg (flat_at x q)) p"
    if "p < tnumel x" for p
    using merge_net_cong [OF dvd _ refl that, of "\<lambda>q. int_key sg (flat_at y q)"] y(3) z(3) that num
    by (simp del: merge_net.simps)
  moreover have "[1..<Suc (Suc k)] = [1..<Suc k] @ [Suc k]" by simp
  ultimately show ?case
    using y(1,2) z(1,2) by (simp only: sort_stages_append) simp
qed simp

text \<open>The rows of a tensor, along its last dimension.\<close>

definition row_of :: "'a tval \<Rightarrow> nat \<Rightarrow> 'a list" where
  "row_of t q = map (\<lambda>i. flat_at t (q * last (tshape t) + i)) [0..<last (tshape t)]"

definition row_ordered :: "bool \<Rightarrow> int \<Rightarrow> 'a::len word list \<Rightarrow> bool" where
  "row_ordered sg descending xs \<longleftrightarrow>
     sorted_wrt (\<lambda>a b. if descending = 1 then int_key sg b \<le> int_key sg a else int_key sg a \<le> int_key sg b) xs"

lemma sort_tensor_key:
  assumes x: "tshape x \<noteq> []" "last (tshape x) = 2 ^ n" and a: "axis \<in> {None, Some (int (length (tshape x)) - 1)}"
    and d: "descending \<in> {0, 1}"
  shows "\<exists>y. sort_tensor sg x axis descending = Inr y \<and> tshape y = tshape x \<and>
     (\<forall>p < tnumel x. int_key sg (flat_at y p) = sort_net n (descending = 1) n (\<lambda>q. int_key sg (flat_at x q)) p)"
proof -
  have "tnumel x = prod_list (butlast (tshape x) @ [last (tshape x)])" using x(1) by (simp add: tnumel_def)
  then have num: "tnumel x = prod_list (butlast (tshape x)) * 2 ^ n" unfolding x(2) by simp
  have log: "nat (log2_const (int (last (tshape x)))) = n" unfolding x(2) by (simp add: log2_const_power)
  have "sort_tensor sg x axis descending = sort_stages sg descending n [1..<Suc n] x"
    using a x(1) unfolding sort_tensor_def Let_def log by (auto simp: check_r_def)
  with sort_stages_key [OF num d order_refl, of sg] show ?thesis by simp
qed

lemma row_bound: "q * 2 ^ n < A * 2 ^ n \<Longrightarrow> i < 2 ^ n \<Longrightarrow> q * 2 ^ n + i < A * (2::nat) ^ n"
proof -
  assume q: "q * 2 ^ n < A * 2 ^ n" and i: "i < 2 ^ n"
  then have "Suc q \<le> A" by simp
  then have "Suc q * 2 ^ n \<le> A * 2 ^ n" by (rule mult_le_mono1)
  with i show ?thesis by simp
qed

section \<open>Properties\<close>

text \<open>C12: \<open>sort\<close> of an integer tensor whose last dimension is a power of two returns a tensor of the same
  shape in which every row is sorted in the order asked for and is a permutation of the input's row.\<close>

theorem sort_sorts_rows:
  assumes x: "tshape x \<noteq> []" "last (tshape x) = 2 ^ n" and "axis \<in> {None, Some (int (length (tshape x)) - 1)}" "descending \<in> {0, 1}"
  shows "\<exists>y. sort_tensor sg x axis descending = Inr y \<and> tshape y = tshape x \<and>
     (\<forall>q. q * 2 ^ n < tnumel x \<longrightarrow> row_ordered sg descending (row_of y q) \<and> mset (row_of y q) = mset (row_of x q))"
proof -
  obtain y where y: "sort_tensor sg x axis descending = Inr y" "tshape y = tshape x"
      "\<And>p. p < tnumel x \<Longrightarrow> int_key sg (flat_at y p) = sort_net n (descending = 1) n (\<lambda>q. int_key sg (flat_at x q)) p"
    using sort_tensor_key [OF assms] by blast
  have "tnumel x = prod_list (butlast (tshape x) @ [last (tshape x)])" using x(1) by (simp add: tnumel_def)
  then have num: "tnumel x = prod_list (butlast (tshape x)) * 2 ^ n" unfolding x(2) by simp
  have "row_ordered sg descending (row_of y q) \<and> mset (row_of y q) = mset (row_of x q)" if q: "q * 2 ^ n < tnumel x" for q
  proof
    have b: "i < 2 ^ n \<Longrightarrow> q * 2 ^ n + i < tnumel x" for i
      using row_bound [of q n] q unfolding num by blast
    have "in_order (descending = 1) (int_key sg (flat_at y (q * 2 ^ n + i))) (int_key sg (flat_at y (q * 2 ^ n + j)))"
      if "i < j" "j < 2 ^ n" for i j
      using sort_net_sorted [OF that, of "descending = 1" "\<lambda>p. int_key sg (flat_at x p)" q] y(3) b that by simp
    then show "row_ordered sg descending (row_of y q)"
      unfolding row_ordered_def row_of_def y(2) x(2) sorted_wrt_iff_nth_less
      by (auto simp: in_order_def split: if_splits)
    have "elements (q * 2 ^ n) (2 ^ n) (\<lambda>p. int_key sg (flat_at y p)) =
        elements (q * 2 ^ n) (2 ^ n) (sort_net n (descending = 1) n (\<lambda>p. int_key sg (flat_at x p)))"
      unfolding elements_def using y(3) b by (intro image_mset_cong) simp
    also have "\<dots> = elements (q * 2 ^ n) (2 ^ n) (\<lambda>p. int_key sg (flat_at x p))"
      by (rule sort_net_elements) simp_all
    finally have "image_mset (int_key sg) (mset (row_of y q)) = image_mset (int_key sg) (mset (row_of x q))"
      by (simp add: elements_def row_of_def y(2) x(2) multiset.map_comp comp_def)
    moreover have "inj (int_key sg)" by (rule injI) (simp add: int_key_inj)
    ultimately show "mset (row_of y q) = mset (row_of x q)" by (metis multiset.inj_map injD)
  qed
  with y show ?thesis by blast
qed

theorem sort_sorts_rows_witness:
  "\<exists>y. sort_tensor True (of_list [2, 4] [3, -1, 2, 7, 5, 5, -8, 0 :: 8 word]) None 0 = Inr y \<and> tshape y = [2, 4] \<and>
     row_ordered True 0 (row_of y 1)"
  using sort_sorts_rows [of "of_list [2, 4] [3, -1, 2, 7, 5, 5, -8, 0 :: 8 word]" 2 None 0 True]
  by (auto simp: tnumel_def)

text \<open>C16: the compile-time logarithm of a positive number is its logarithm rounded down.\<close>

theorem log2_floor:
  assumes "0 < n"
  shows "2 ^ nat (log2_const n) \<le> n \<and> n < 2 ^ Suc (nat (log2_const n))"
  using log2_loop_floor [of n 0] assms by (auto simp: log2_const_def)

theorem log2_floor_witness: "2 ^ nat (log2_const 12) \<le> (12 :: int)"
  using log2_floor [of 12] by simp

end
