(* ===== verification/Flip.thy ===== *)
theory Flip
  imports Standard
begin

text \<open>
  \<open>flip\<close> of \<open>python/triton/language/standard.py\<close> reverses the last dimension.  The source gives every
  dimension of size \<open>2 ^ k\<close> its \<open>k\<close> bits as dimensions of size two and exchanges the two halves of each
  of them by a multiplication with the anti-diagonal, one bit per round.
\<close>

section \<open>Index lists\<close>

lemma ravel_append:
  "length is = length sh \<Longrightarrow> ravel_index (sh @ sh') (is @ is') = ravel_index sh is * prod_list sh' + ravel_index sh' is'"
  by (induction "is" sh rule: list_induct2) (simp_all add: algebra_simps)

lemma unravel_length [simp]: "length (unravel_index sh p) = length sh"
  by (induction sh arbitrary: p) simp_all

lemma prod_list_replicate2: "prod_list (replicate k 2) = (2::nat) ^ k"
  by simp

definition bits_ok :: "nat list \<Rightarrow> bool" where
  "bits_ok is \<longleftrightarrow> set is \<subseteq> {0, 1}"

lemma bits_ok_simps [simp]:
  "bits_ok []" "bits_ok (b # is) \<longleftrightarrow> b \<in> {0, 1} \<and> bits_ok is" "bits_ok (is @ js) \<longleftrightarrow> bits_ok is \<and> bits_ok js"
  by (auto simp: bits_ok_def)

lemma valid_bits: "valid_index (replicate k 2) is \<longleftrightarrow> length is = k \<and> bits_ok is"
proof (induction k arbitrary: "is")
  case 0
  then show ?case by (cases "is") auto
next
  case (Suc k)
  then show ?case by (cases "is") auto
qed

lemma bits_less: "length is = k \<Longrightarrow> bits_ok is \<Longrightarrow> ravel_index (replicate k 2) is < 2 ^ k"
  using ravel_index_less [of "replicate k 2" "is"] by (simp add: valid_bits)

text \<open>Complementing every bit mirrors the number.\<close>

lemma ravel_complement:
  "length is = k \<Longrightarrow> bits_ok is \<Longrightarrow>
     ravel_index (replicate k 2) (map (\<lambda>b. 1 - b) is) = 2 ^ k - 1 - ravel_index (replicate k 2) is"
proof (induction k arbitrary: "is")
  case (Suc k)
  then obtain b js where "is": "is = b # js" by (cases "is") auto
  have "ravel_index (replicate k 2) js < 2 ^ k" using Suc.prems "is" by (intro bits_less) auto
  then show ?case using Suc "is" by auto
qed simp

section \<open>The anti-diagonal\<close>

lemma expand_front:
  "tshape (fold expand_dims_val [0..<i] t) = replicate i 1 @ tshape t \<and>
   (\<forall>is. i \<le> length is \<longrightarrow> elem_at (fold expand_dims_val [0..<i] t) is = elem_at t (drop i is))"
proof (induction i)
  case (Suc i)
  let ?t = "fold expand_dims_val [0..<i] t"
  have "drop i (take i is @ drop (Suc i) is) = drop (Suc i) is" if "Suc i \<le> length is" for "is" :: "nat list"
    using that by simp
  moreover have "elem_at (expand_dims_val i ?t) is = elem_at ?t (take i is @ drop (Suc i) is)" for "is"
    by (simp add: expand_dims_val_def)
  ultimately show ?case using Suc by (simp add: expand_dims_val_def replicate_append_same)
qed simp

lemma expand_back:
  "length (tshape t) = k \<Longrightarrow>
   tshape (fold expand_dims_val [k..<k + m] t) = tshape t @ replicate m 1 \<and>
   (\<forall>is. length is = k + m \<longrightarrow> elem_at (fold expand_dims_val [k..<k + m] t) is = elem_at t (take k is))"
proof (induction m)
  case (Suc m)
  then show ?case by (simp add: expand_dims_val_def replicate_append_same min_def)
qed simp

text \<open>The dimensions \<open>i\<close> and \<open>i + 1\<close> of \<open>flip2\<close> are those of the anti-diagonal; the others have size one.\<close>

definition anti_diagonal :: "int tval" where
  "anti_diagonal = zip_val (\<lambda>a b. of_bool (a = b)) (map_val int (expand_dims_val 1 (arange_val 0 2)))
     (map_val (\<lambda>b. 1 - int b) (expand_dims_val 0 (arange_val 0 2)))"

lemma anti_diagonal: "tshape anti_diagonal = [2, 2]"
  "a \<in> {0, 1} \<Longrightarrow> b \<in> {0, 1} \<Longrightarrow> elem_at anti_diagonal [a, b] = of_bool (b = 1 - a)"
  by (auto simp: anti_diagonal_def zip_val_def map_val_def expand_dims_val_def arange_val_def clip_index_def Let_def)

definition flip_matrix :: "nat \<Rightarrow> nat \<Rightarrow> int tval" where
  "flip_matrix steps i =
     fold (\<lambda>j t. if j \<noteq> i \<and> j \<noteq> i + 1 then expand_dims_val j t else t) [0..<steps + 1] anti_diagonal"

lemma flip_matrix:
  assumes "i < steps"
  shows "tshape (flip_matrix steps i) = replicate i 1 @ 2 # 2 # replicate (steps - i - 1) 1"
    and "length us = i \<Longrightarrow> length vs = steps - i - 1 \<Longrightarrow> a \<in> {0, 1} \<Longrightarrow> b \<in> {0, 1} \<Longrightarrow>
      elem_at (flip_matrix steps i) (us @ a # b # vs) = of_bool (b = 1 - a)"
proof -
  let ?step = "\<lambda>j t. if j \<noteq> i \<and> j \<noteq> i + 1 then expand_dims_val j t else t"
  have "[0..<steps + 1] = [0..<i] @ [i..<steps + 1]" using upt_add_eq_append [of 0 i "steps + 1 - i"] assms by simp
  also have "[i..<steps + 1] = i # Suc i # [i + 2..<steps + 1]" using assms by (simp add: upt_conv_Cons)
  finally have split: "[0..<steps + 1] = [0..<i] @ i # Suc i # [i + 2..<i + 2 + (steps - i - 1)]" using assms by simp
  have f1: "fold ?step [0..<i] t = fold expand_dims_val [0..<i] t" for t :: "int tval" by (rule fold_cong) auto
  have f2: "fold ?step [i + 2..<i + 2 + (steps - i - 1)] t = fold expand_dims_val [i + 2..<i + 2 + (steps - i - 1)] t"
    for t :: "int tval" by (rule fold_cong) auto
  let ?t = "fold expand_dims_val [0..<i] anti_diagonal"
  have eq: "flip_matrix steps i = fold expand_dims_val [i + 2..<i + 2 + (steps - i - 1)] ?t"
    unfolding flip_matrix_def split fold_append fold_simps comp_apply f1 f2 by simp
  have t: "tshape ?t = replicate i 1 @ [2, 2]" "\<And>is. i \<le> length is \<Longrightarrow> elem_at ?t is = elem_at anti_diagonal (drop i is)"
    using expand_front [of i anti_diagonal] by (simp_all add: anti_diagonal)
  have len: "length (tshape ?t) = i + 2" using t(1) by simp
  note b = expand_back [OF len, of "steps - i - 1", folded eq]
  show "tshape (flip_matrix steps i) = replicate i 1 @ 2 # 2 # replicate (steps - i - 1) 1" using b t(1) by simp
  show "elem_at (flip_matrix steps i) (us @ a # b # vs) = of_bool (b = 1 - a)"
    if "length us = i" "length vs = steps - i - 1" "a \<in> {0, 1}" "b \<in> {0, 1}"
    using b t(2) [of "us @ [a, b]"] anti_diagonal(2) [OF that(3,4)] that by simp
qed

section \<open>One round\<close>

lemma flip_round_eq:
  "flip_round steps i y = expand_dims_val (i + 1) (reduce_val (+) (i + 1)
     (zip_val (\<lambda>v m. v * of_int m) y (flip_matrix steps i)))"
  by (simp add: flip_round_def flip_matrix_def anti_diagonal_def Let_def)

lemma clip_append:
  "length is = length sh \<Longrightarrow> clip_index (sh @ sh') (is @ js) = clip_index sh is @ clip_index sh' js"
  by (simp add: clip_index_def zip_append)

lemma clip_twos: "length is = k \<Longrightarrow> clip_index (replicate k 2) is = is"
  by (induction k arbitrary: "is") (auto simp: clip_index_def length_Suc_conv)

lemma clip_ones: "length is = k \<Longrightarrow> clip_index (replicate k 1) is = replicate k 0"
  by (induction k arbitrary: "is") (auto simp: clip_index_def length_Suc_conv)

text \<open>The shape of \<open>y\<close> before round \<open>i\<close>: the dimension of size one is dimension \<open>i\<close>.\<close>

definition round_shape :: "nat \<Rightarrow> nat \<Rightarrow> nat list" where
  "round_shape steps i = replicate i 2 @ 1 # replicate (steps - i) 2"

lemma elem_zip: "elem_at (zip_val f t u) is = f (elem_at t (clip_index (tshape t) is)) (elem_at u (clip_index (tshape u) is))"
  by (simp add: zip_val_def Let_def)

lemma flip_round_elem:
  assumes i: "i < steps" and y: "tshape y = round_shape steps i"
    and us: "length us = i" "length vs = steps - i - 1" and a: "a \<in> {0, 1}"
  shows "tshape (flip_round steps i y) = round_shape steps (i + 1)"
    and "elem_at (flip_round steps i y) (us @ a # c # vs) = elem_at y (us @ 0 # (1 - a) # vs)"
proof -
  let ?m = "flip_matrix steps i"
  let ?z = "zip_val (\<lambda>v m. v * of_int m) y ?m"
  have r: "replicate (steps - i) 2 = (2::nat) # replicate (steps - i - 1) 2" using i by (cases "steps - i") auto
  have shz: "tshape ?z = replicate i 2 @ 2 # 2 # replicate (steps - i - 1) 2"
    unfolding zip_val_def Let_def tval.simps y flip_matrix(1) [OF i] round_shape_def r
    by (simp add: zip_append zip_replicate)
  have z: "elem_at ?z (us @ a # j # vs) = elem_at y (us @ 0 # j # vs) * of_int (of_bool (j = 1 - a))"
    if j: "j \<in> {0, 1}" for j
  proof -
    have "clip_index (tshape y) (us @ a # j # vs) = us @ 0 # j # vs"
      using us clip_twos [of us i] clip_twos [of vs "steps - i - 1"]
      unfolding y round_shape_def r by (simp add: clip_append) (simp add: clip_index_def)
    moreover have "clip_index (tshape ?m) (us @ a # j # vs) = replicate i 0 @ a # j # replicate (steps - i - 1) 0"
      using us clip_ones [of us i] clip_ones [of vs "steps - i - 1"]
      unfolding flip_matrix(1) [OF i] by (simp add: clip_append) (simp add: clip_index_def)
    ultimately show ?thesis
      using flip_matrix(2) [OF i _ _ a j, of "replicate i 0" "replicate (steps - i - 1) 0"] by (simp add: elem_zip)
  qed
  have "elem_at (flip_round steps i y) (us @ a # c # vs) = elem_at (reduce_val (+) (i + 1) ?z) (us @ a # vs)"
    unfolding flip_round_eq using us by (simp add: expand_dims_val_def)
  also have "\<dots> = elem_at ?z (us @ a # 0 # vs) + elem_at ?z (us @ a # 1 # vs)"
    using us shz by (simp add: reduce_val_def Let_def nth_append upt_rec)
  also have "\<dots> = elem_at y (us @ 0 # (1 - a) # vs)" using z [of 0] z [of 1] a by auto
  finally show "elem_at (flip_round steps i y) (us @ a # c # vs) = elem_at y (us @ 0 # (1 - a) # vs)" .
  show "tshape (flip_round steps i y) = round_shape steps (i + 1)"
    unfolding flip_round_eq using shz i
    by (simp add: expand_dims_val_def reduce_val_def round_shape_def replicate_append_same min_def)
qed

lemma flip_rounds:
  assumes "tshape y = round_shape steps start" "start + k \<le> steps" "length us = start" "length bs = k"
    "bits_ok bs" "length vs = steps - start - k"
  shows "tshape (fold (flip_round steps) [start..<start + k] y) = round_shape steps (start + k) \<and>
     elem_at (fold (flip_round steps) [start..<start + k] y) (us @ bs @ 0 # vs) = elem_at y (us @ 0 # map (\<lambda>b. 1 - b) bs @ vs)"
  using assms(2,4-6)
proof (induction k arbitrary: bs vs)
  case 0
  then show ?case using assms(1) by simp
next
  case (Suc k)
  let ?y = "fold (flip_round steps) [start..<start + k] y"
  obtain cs a where bs: "bs = cs @ [a]" "length cs = k" using Suc.prems(2) by (cases bs rule: rev_cases) auto
  have a: "a \<in> {0, 1}" "bits_ok cs" using Suc.prems(3) bs by auto
  have sh: "tshape ?y = round_shape steps (start + k)"
    using Suc.IH [of cs "(1 - a) # vs"] Suc.prems bs a by auto
  have IH: "elem_at ?y (us @ cs @ 0 # (1 - a) # vs) = elem_at y (us @ 0 # map (\<lambda>b. 1 - b) cs @ (1 - a) # vs)"
    using Suc.IH [of cs "(1 - a) # vs"] Suc.prems bs a by auto
  have i: "start + k < steps" using Suc.prems by simp
  have l: "length (us @ cs) = start + k" "length vs = steps - (start + k) - 1" using assms(3) bs Suc.prems by auto
  note r = flip_round_elem [OF i sh l a(1)]
  have "[start..<start + Suc k] = [start..<start + k] @ [start + k]" by simp
  then show ?case using r(1) r(2) [of 0] IH bs by simp
qed

section \<open>The whole flip\<close>

lemma valid_append: "valid_index sh is \<Longrightarrow> valid_index sh' js \<Longrightarrow> valid_index (sh @ sh') (is @ js)"
  by (induction sh "is" rule: valid_index.induct) simp_all

lemma flip_start:
  assumes "length us = start"
  shows "elem_at (expand_dims_val start (reshape_val (replicate steps 2) x)) (us @ 0 # cs) =
     flat_at x (ravel_index (replicate steps 2) (us @ cs))"
  using assms by (simp add: expand_dims_val_def reshape_val_def)

lemma flip_elem:
  fixes x :: "'a::len word tval"
  assumes k: "k \<le> s" and q: "q < 2 ^ (s - k)" and i: "i < 2 ^ k"
  defines "Y \<equiv> fold (flip_round s) [s - k..<s] (expand_dims_val (s - k) (reshape_val (replicate s 2) x))"
  shows "flat_at Y (q * 2 ^ k + i) = flat_at x (q * 2 ^ k + (2 ^ k - 1 - i))"
proof -
  define us where "us = unravel_index (replicate (s - k) 2) q"
  define bs where "bs = unravel_index (replicate k 2) i"
  have us: "valid_index (replicate (s - k) 2) us" "ravel_index (replicate (s - k) 2) us = q"
    using q by (simp_all add: us_def unravel_valid)
  have bs: "valid_index (replicate k 2) bs" "ravel_index (replicate k 2) bs = i"
    using i by (simp_all add: bs_def unravel_valid)
  have len: "length us = s - k" "length bs = k" "bits_ok bs" using us(1) bs(1) by (simp_all add: valid_bits)
  have s2: "replicate s 2 = replicate (s - k) 2 @ replicate k (2::nat)" using k by (simp flip: replicate_add)
  have y0: "tshape (expand_dims_val (s - k) (reshape_val (replicate s 2) x)) = round_shape s (s - k)"
    using k by (simp add: expand_dims_val_def round_shape_def)
  have Y: "tshape Y = replicate s 2 @ [1]"
      "elem_at Y (us @ bs @ [0]) = flat_at x (ravel_index (replicate s 2) (us @ map (\<lambda>b. 1 - b) bs))"
    using flip_rounds [OF y0 _ len, of "[]"] k flip_start [OF len(1), of s x] by (simp_all add: Y_def round_shape_def)
  have idx: "unravel_index (replicate s 2 @ [1]) (q * 2 ^ k + i) = us @ bs @ [0]"
  proof -
    have v: "valid_index (replicate s 2 @ [1]) (us @ bs @ [0])"
      unfolding s2 append_assoc by (intro valid_append us bs) simp
    have "ravel_index (replicate s 2 @ [1]) (us @ bs @ [0]) = q * 2 ^ k + i"
      unfolding s2 append_assoc using len by (simp add: ravel_append us bs)
    with unravel_ravel [OF v] show ?thesis by simp
  qed
  have "flat_at Y (q * 2 ^ k + i) = flat_at x (ravel_index (replicate s 2) (us @ map (\<lambda>b. 1 - b) bs))"
    unfolding flat_at_def Y(1) idx using Y(2) by (simp add: flat_at_def)
  also have "ravel_index (replicate s 2) (us @ map (\<lambda>b. 1 - b) bs) = q * 2 ^ k + (2 ^ k - 1 - i)"
    unfolding s2 using len ravel_complement [OF len(2,3)] by (simp add: ravel_append us bs)
  finally show ?thesis .
qed

lemma power_of_two_const: "is_power_of_two_const (2 ^ k)"
  using is_power_of_two_iff [of "2 ^ k"] by (auto simp: is_power_of_two_const_def is_power_of_two_def)

text \<open>C14: \<open>flip\<close> of an integer tensor whose dimensions are powers of two reverses every row along the
  last dimension and nothing else.\<close>

theorem flip_reverses_rows:
  assumes x: "tshape x \<noteq> []" "last (tshape x) = 2 ^ k" "tnumel x = 2 ^ s"
    and a: "axis \<in> {None, Some (int (length (tshape x)) - 1)}"
  shows "\<exists>y. flip_tensor_values x axis = Inr y \<and> tshape y = tshape x \<and>
     (\<forall>q. q * 2 ^ k < tnumel x \<longrightarrow> row_of y q = rev (row_of x q))"
proof -
  have n: "tshape x ! nat (int (length (tshape x)) - 1) = 2 ^ k"
  proof -
    have "nat (int (length (tshape x)) - 1) = length (tshape x) - 1" by linarith
    then show ?thesis using x(1,2) by (simp add: last_conv_nth)
  qed
  have "tnumel x = prod_list (butlast (tshape x) @ [last (tshape x)])" using x(1) by (simp add: tnumel_def)
  then have num: "tnumel x = prod_list (butlast (tshape x)) * 2 ^ k" unfolding x(2) by simp
  then have "(2::nat) ^ k dvd 2 ^ s" using x(3) by simp
  then have ks: "k \<le> s" by (rule power_dvd_imp_le) simp
  let ?Y = "fold (flip_round s) [s - k..<s] (expand_dims_val (s - k) (reshape_val (replicate s 2) x))"
  have run: "flip_tensor_values x axis = Inr (reshape_val (tshape x) ?Y)"
    using a x(1,3) n by (auto simp: flip_tensor_values_def get_flip_dim_def check_r_def Let_def power_of_two_const log2_const_power)
  have "row_of (reshape_val (tshape x) ?Y) q = rev (row_of x q)" if q: "q * 2 ^ k < tnumel x" for q
  proof (rule nth_equalityI)
    fix i assume "i < length (row_of (reshape_val (tshape x) ?Y) q)"
    then have i: "i < 2 ^ k" by (simp add: row_of_def x(2))
    have "(2::nat) ^ s = 2 ^ (s - k) * 2 ^ k" using ks by (simp flip: power_add)
    then have q': "q < 2 ^ (s - k)" using q x(3) by simp
    have "q * 2 ^ k + i < prod_list (tshape x)"
      using row_bound [of q k _ i] q i unfolding num tnumel_def [symmetric] by blast
    then show "row_of (reshape_val (tshape x) ?Y) q ! i = rev (row_of x q) ! i"
      using flip_elem [OF ks q' i, of x] i by (simp add: row_of_def x(2) rev_nth)
  qed (simp add: row_of_def)
  with run show ?thesis by auto
qed

theorem flip_reverses_rows_witness:
  "\<exists>y. flip_tensor_values (of_list [2, 4] [1, 2, 3, 4, 5, 6, 7, 8 :: 16 word]) None = Inr y \<and>
     row_of y 1 = rev (row_of (of_list [2, 4] [1, 2, 3, 4, 5, 6, 7, 8]) 1)"
  using flip_reverses_rows [of "of_list [2, 4] [1, 2, 3, 4, 5, 6, 7, 8 :: 16 word]" 2 3 None]
  by (auto simp: tnumel_def)

end
