(* ===== verification/Standard_Reduce.thy ===== *)
theory Standard_Reduce
  imports Index_Math Tensor_Value Core_Ops Semantic_Shape Semantic_Dot "HOL-Library.Product_Lexorder" "HOL-Library.Multiset"
begin

text \<open>
  Reductions and scans of \<open>python/triton/language/standard.py\<close>.  The combine functions work on single
  elements; the backend may bracket a reduction in any way, so a reduction is a tree of combinations,
  and the interface \<open>selection\<close> states what makes the result independent of the tree.  The functions
  that choose the element type and call \<open>reduce\<close> or \<open>associative_scan\<close> are modelled on the builder.
\<close>

section \<open>Combine functions\<close>

definition argmax_combine :: "bool \<Rightarrow> 'a::len word \<times> int \<Rightarrow> 'a word \<times> int \<Rightarrow> bool \<Rightarrow> 'a word \<times> int" where
  "argmax_combine sg p q tie_break_left =
     (case (p, q) of ((value1, index1), (value2, index2)) \<Rightarrow>
      let tie = (if tie_break_left then value1 = value2 \<and> index1 < index2 else False);
          gt = (int_key sg value1 > int_key sg value2 \<or> tie)
      in (if gt then value1 else value2, if gt then index1 else index2))"

definition argmin_combine :: "bool \<Rightarrow> 'a::len word \<times> int \<Rightarrow> 'a word \<times> int \<Rightarrow> bool \<Rightarrow> 'a word \<times> int" where
  "argmin_combine sg p q tie_break_left =
     (case (p, q) of ((value1, index1), (value2, index2)) \<Rightarrow>
      let tie = (if tie_break_left then value1 = value2 \<and> index1 < index2 else False);
          lt = (int_key sg value1 < int_key sg value2 \<or> tie)
      in (if lt then value1 else value2, if lt then index1 else index2))"

definition argmax_combine_tie_break_left :: "bool \<Rightarrow> 'a::len word \<times> int \<Rightarrow> 'a word \<times> int \<Rightarrow> 'a word \<times> int" where
  "argmax_combine_tie_break_left sg p q = argmax_combine sg p q True"

definition argmax_combine_tie_break_fast :: "bool \<Rightarrow> 'a::len word \<times> int \<Rightarrow> 'a word \<times> int \<Rightarrow> 'a word \<times> int" where
  "argmax_combine_tie_break_fast sg p q = argmax_combine sg p q False"

definition argmin_combine_tie_break_left :: "bool \<Rightarrow> 'a::len word \<times> int \<Rightarrow> 'a word \<times> int \<Rightarrow> 'a word \<times> int" where
  "argmin_combine_tie_break_left sg p q = argmin_combine sg p q True"

definition argmin_combine_tie_break_fast :: "bool \<Rightarrow> 'a::len word \<times> int \<Rightarrow> 'a word \<times> int \<Rightarrow> 'a word \<times> int" where
  "argmin_combine_tie_break_fast sg p q = argmin_combine sg p q False"

definition elementwise_max :: "bool \<Rightarrow> 'a::len word \<Rightarrow> 'a word \<Rightarrow> 'a word" where
  "elementwise_max sg a b = (if int_key sg a \<le> int_key sg b then b else a)"

definition elementwise_min :: "bool \<Rightarrow> 'a::len word \<Rightarrow> 'a word \<Rightarrow> 'a word" where
  "elementwise_min sg a b = min_value sg a b"

definition sum_combine :: "'a::len word \<Rightarrow> 'a word \<Rightarrow> 'a word" where
  "sum_combine a b = a + b"

definition xor_combine :: "'a::len word \<Rightarrow> 'a word \<Rightarrow> 'a word" where
  "xor_combine a b = xor a b"

definition prod_combine :: "'a::len word \<Rightarrow> 'a word \<Rightarrow> 'a word" where
  "prod_combine a b = a * b"

section \<open>Reduction trees\<close>

datatype 'a rtree = Leaf 'a | Node "'a rtree" "'a rtree"

fun leaves :: "'a rtree \<Rightarrow> 'a list" where
  "leaves (Leaf x) = [x]"
| "leaves (Node l r) = leaves l @ leaves r"

fun reduce_tree :: "('a \<Rightarrow> 'a \<Rightarrow> 'a) \<Rightarrow> 'a rtree \<Rightarrow> 'a" where
  "reduce_tree f (Leaf x) = x"
| "reduce_tree f (Node l r) = f (reduce_tree f l) (reduce_tree f r)"

lemma leaves_nonempty [simp]: "leaves t \<noteq> []"
  by (induction t) auto

text \<open>A combine function that keeps the argument with the larger key.\<close>

locale selection =
  fixes pick :: "'a \<Rightarrow> 'a \<Rightarrow> 'a" and key :: "'a \<Rightarrow> 'k::linorder"
  assumes pick_either: "pick x y \<in> {x, y}" and pick_key: "key (pick x y) = max (key x) (key y)"
begin

lemma tree_leaf: "reduce_tree pick t \<in> set (leaves t)"
proof (induction t)
  case (Node l r)
  then show ?case using pick_either [of "reduce_tree pick l" "reduce_tree pick r"] by auto
qed simp

lemma tree_max: "x \<in> set (leaves t) \<Longrightarrow> key x \<le> key (reduce_tree pick t)"
  by (induction t) (auto simp: pick_key le_max_iff_disj)

lemma tree_key: "key (reduce_tree pick t) = Max (key ` set (leaves t))"
  using tree_leaf [of t] tree_max [of _ t] by (intro Max_eqI [symmetric]) auto

lemma tree_permute: "set (leaves t) = set (leaves u) \<Longrightarrow> key (reduce_tree pick t) = key (reduce_tree pick u)"
  by (simp add: tree_key)

end

text \<open>A combine function of a commutative semigroup.\<close>

locale accumulation =
  fixes plus :: "'a \<Rightarrow> 'a \<Rightarrow> 'a"
  assumes plus_assoc: "plus (plus x y) z = plus x (plus y z)" and plus_commute: "plus x y = plus y x"
begin

lemma foldr_append_tree: "foldr plus (leaves t) z = plus (reduce_tree plus t) z"
  by (induction t arbitrary: z) (simp_all add: plus_assoc)

lemma foldr_front: "foldr plus (us @ x # vs) z = plus x (foldr plus (us @ vs) z)"
  by (induction us) (simp_all add: plus_assoc [symmetric] plus_commute)

lemma foldr_permute: "mset xs = mset ys \<Longrightarrow> foldr plus xs z = foldr plus ys z"
proof (induction xs arbitrary: ys)
  case (Cons x xs)
  then have "x \<in> set ys" by (metis list.set_intros(1) set_mset_mset)
  then obtain us vs where ys: "ys = us @ x # vs" by (auto simp: in_set_conv_decomp)
  with Cons.prems have "mset xs = mset (us @ vs)" by simp
  then have "foldr plus xs z = foldr plus (us @ vs) z" by (rule Cons.IH)
  then show ?case using ys foldr_front [of us x vs z] by simp
qed simp

lemma tree_cons: "\<exists>x xs. mset (leaves t) = mset (x # xs) \<and> reduce_tree plus t = foldr plus xs x"
proof (induction t)
  case (Leaf x)
  show ?case by (rule exI [of _ x], rule exI [of _ "[]"]) simp
next
  case (Node l r)
  then obtain x xs where r: "mset (leaves r) = mset (x # xs)" "reduce_tree plus r = foldr plus xs x" by blast
  have "reduce_tree plus (Node l r) = foldr plus (leaves l @ xs) x" by (simp add: foldr_append_tree r)
  with r(1) show ?case by (intro exI [of _ x] exI [of _ "leaves l @ xs"]) simp
qed

lemma foldr_exchange: "plus y (foldr plus zs x) = plus x (foldr plus zs y)"
proof (induction zs)
  case (Cons z zs)
  have "plus y (plus z (foldr plus zs x)) = plus z (plus y (foldr plus zs x))"
    by (metis plus_assoc plus_commute)
  also have "\<dots> = plus z (plus x (foldr plus zs y))" using Cons by simp
  also have "\<dots> = plus x (plus z (foldr plus zs y))" by (metis plus_assoc plus_commute)
  finally show ?case by simp
qed (simp add: plus_commute)

lemma foldr_rotate:
  assumes "mset (x # xs) = mset (y # ys)" shows "foldr plus xs x = foldr plus ys y"
proof (cases "x = y")
  case True
  then show ?thesis using assms foldr_permute [of xs ys] by simp
next
  case False
  then have "y \<in># mset xs" using assms by (metis insert_noteq_member mset.simps(2))
  then obtain us vs where xs: "xs = us @ y # vs" by (auto simp: in_set_conv_decomp)
  then have "mset ys = mset (x # us @ vs)" using assms by (simp add: add_mset_commute)
  then have "foldr plus ys y = plus x (foldr plus (us @ vs) y)" using foldr_permute [of ys "x # us @ vs"] by simp
  then show ?thesis using foldr_front [of us y vs x] foldr_exchange [of y "us @ vs" x] xs by simp
qed

lemma tree_permute: "mset (leaves t) = mset (leaves u) \<Longrightarrow> reduce_tree plus t = reduce_tree plus u"
  using tree_cons [of t] tree_cons [of u] foldr_rotate by metis

end

section \<open>The library's combine functions\<close>

lemma int_key_less: "\<not> int_key sg y < int_key sg x \<Longrightarrow> x \<noteq> y \<Longrightarrow> int_key sg x < int_key sg y"
  using int_key_inj [of sg x y] by linarith

lemmas combine_defs = argmax_combine_tie_break_left_def argmax_combine_tie_break_fast_def argmax_combine_def
  argmin_combine_tie_break_left_def argmin_combine_tie_break_fast_def argmin_combine_def

interpretation argmax_left: selection "argmax_combine_tie_break_left sg" "\<lambda>(v, i). (int_key sg v, - i)" for sg
  by unfold_locales (auto simp: combine_defs Let_def max_def less_eq_prod_def int_key_inj int_key_less split: prod.splits)

interpretation argmin_left: selection "argmin_combine_tie_break_left sg" "\<lambda>(v, i). (- int_key sg v, - i)" for sg
  by unfold_locales (auto simp: combine_defs Let_def max_def less_eq_prod_def int_key_inj int_key_less split: prod.splits)

interpretation argmax_fast: selection "argmax_combine_tie_break_fast sg" "\<lambda>(v, i). int_key sg v" for sg
  by unfold_locales (auto simp: combine_defs Let_def max_def split: prod.splits)

interpretation argmin_fast: selection "argmin_combine_tie_break_fast sg" "\<lambda>(v, i). - int_key sg v" for sg
  by unfold_locales (auto simp: combine_defs Let_def max_def split: prod.splits)

interpretation max_elements: selection "elementwise_max sg" "int_key sg" for sg
  by unfold_locales (auto simp: elementwise_max_def max_def)

interpretation min_elements: selection "elementwise_min sg" "\<lambda>v. - int_key sg v" for sg
  by unfold_locales (auto simp: elementwise_min_def min_value_def max_def)

interpretation sum_elements: accumulation sum_combine
  by unfold_locales (simp_all add: sum_combine_def ac_simps)

interpretation prod_elements: accumulation prod_combine
  by unfold_locales (simp_all add: prod_combine_def ac_simps)

interpretation xor_elements: accumulation xor_combine
  by unfold_locales (simp_all add: xor_combine_def ac_simps)

section \<open>The reductions on the builder\<close>

text \<open>\<open>max\<close> and \<open>min\<close> without indices compare in 32 bits at least.\<close>

definition widen_operand :: "builder \<Rightarrow> tensor \<Rightarrow> tensor B" where
  "widen_operand b input =
     bind (lift_r (primitive_bitwidth (tensor_dtype input))) (\<lambda>w.
     if w < 32 then
       (if is_floating (tensor_dtype input) then tensor_to b input (Dt Fp32) None False
        else
          bind (core_device_assert b (VConstexpr (VNum (NBool (is_int (tensor_dtype input))))) ''Expecting input to be integer type'') (\<lambda>_.
          tensor_to b input (Dt Int32) None False))
     else return input)"

text \<open>An extremum along an axis; with \<open>return_indices\<close> the values and their positions.\<close>

definition extremum :: "builder \<Rightarrow> tensor \<Rightarrow> int option \<Rightarrow> bool \<Rightarrow> bool \<Rightarrow> tensor list B" where
  "extremum b input axis return_indices keep_dims =
     bind (promote_bfloat16_to_float32 b input) (\<lambda>input.
     if return_indices then
       (case axis of
          None \<Rightarrow> raise TypeError
        | Some a \<Rightarrow> bind (reduce_with_indices b input a keep_dims) (\<lambda>(v, i). return [v, i]))
     else
       bind (widen_operand b input) (\<lambda>input.
       core_reduce b [input] axis keep_dims))"

definition max_tensor :: "builder \<Rightarrow> tensor \<Rightarrow> int option \<Rightarrow> bool \<Rightarrow> bool \<Rightarrow> tensor list B" where
  "max_tensor b input axis return_indices keep_dims = extremum b input axis return_indices keep_dims"

definition min_tensor :: "builder \<Rightarrow> tensor \<Rightarrow> int option \<Rightarrow> bool \<Rightarrow> bool \<Rightarrow> tensor list B" where
  "min_tensor b input axis return_indices keep_dims = extremum b input axis return_indices keep_dims"

definition argmax_tensor :: "builder \<Rightarrow> tensor \<Rightarrow> int \<Rightarrow> bool \<Rightarrow> tensor B" where
  "argmax_tensor b input axis keep_dims =
     bind (max_tensor b input (Some axis) True keep_dims) (\<lambda>ret. return (ret ! 1))"

definition argmin_tensor :: "builder \<Rightarrow> tensor \<Rightarrow> int \<Rightarrow> bool \<Rightarrow> tensor B" where
  "argmin_tensor b input axis keep_dims =
     bind (min_tensor b input (Some axis) True keep_dims) (\<lambda>ret. return (ret ! 1))"

definition sum_tensor :: "builder \<Rightarrow> tensor \<Rightarrow> int option \<Rightarrow> bool \<Rightarrow> tensor list B" where
  "sum_tensor b input axis keep_dims =
     bind (promote_bfloat16_to_float32 b input) (\<lambda>input. core_reduce b [input] axis keep_dims)"

definition xor_sum :: "builder \<Rightarrow> tensor \<Rightarrow> int option \<Rightarrow> bool \<Rightarrow> tensor list B" where
  "xor_sum b input axis keep_dims =
     bind (check (is_int (scalar (ttype input))) ValueError) (\<lambda>_.
     bind (promote_bfloat16_to_float32 b input) (\<lambda>input.
     core_reduce b [input] axis keep_dims))"

definition cumsum :: "builder \<Rightarrow> tensor \<Rightarrow> int \<Rightarrow> bool \<Rightarrow> tensor list B" where
  "cumsum b input axis reverse =
     bind (promote_bfloat16_to_float32 b input) (\<lambda>input. core_scan b [input] axis reverse)"

definition cumprod :: "builder \<Rightarrow> tensor \<Rightarrow> int \<Rightarrow> bool \<Rightarrow> tensor list B" where
  "cumprod b input axis reverse =
     bind (promote_bfloat16_to_float32 b input) (\<lambda>input. core_scan b [input] axis reverse)"

definition zeros :: "builder \<Rightarrow> parg list \<Rightarrow> ty \<Rightarrow> tensor B" where
  "zeros b shape dtype = core_full b shape (VNum (NInt 0)) (Some dtype)"

definition zeros_like :: "builder \<Rightarrow> tensor \<Rightarrow> tensor B" where
  "zeros_like b input = zeros b (map PConst (tensor_shape input)) (tensor_dtype input)"

definition ravel :: "builder \<Rightarrow> tensor \<Rightarrow> tensor B" where
  "ravel b x = core_reshape b x [PConst (tensor_numel x)] True"

section \<open>Properties\<close>

text \<open>C17: on integer values of any width and sign, however the reduction is bracketed, \<open>argmax\<close> with left
  tie-breaking returns an element of the largest value and, among the elements of that value, one with the smallest
  index.  Floating-point values are not covered: a NaN compares false with everything, so with one the result depends on the
  bracketing.\<close>

theorem argmax_leftmost_maximum:
  assumes "reduce_tree (argmax_combine_tie_break_left sg) t = (v, i)"
  shows "(v, i) \<in> set (leaves t) \<and>
     (\<forall>(w, j) \<in> set (leaves t). int_key sg w \<le> int_key sg v \<and> (w = v \<longrightarrow> i \<le> j))"
  using argmax_left.tree_leaf [of sg t] argmax_left.tree_max [of _ t sg] assms
  by (fastforce simp: less_eq_prod_def)

theorem argmax_leftmost_maximum_witness:
  "(7 :: 8 word, 1) \<in> set (leaves (Node (Node (Leaf (3, 0)) (Leaf (7, 1))) (Leaf (7 :: 8 word, 2))))"
  using argmax_leftmost_maximum [of True "Node (Node (Leaf (3, 0)) (Leaf (7, 1))) (Leaf (7 :: 8 word, 2))" 7 1]
  by (simp add: combine_defs int_key_def)

text \<open>The same for \<open>argmin\<close>, and for the smallest value.\<close>

theorem argmin_leftmost_minimum:
  assumes "reduce_tree (argmin_combine_tie_break_left sg) t = (v, i)"
  shows "(v, i) \<in> set (leaves t) \<and>
     (\<forall>(w, j) \<in> set (leaves t). int_key sg v \<le> int_key sg w \<and> (w = v \<longrightarrow> i \<le> j))"
  using argmin_left.tree_leaf [of sg t] argmin_left.tree_max [of _ t sg] assms
  by (fastforce simp: less_eq_prod_def)

theorem argmin_leftmost_minimum_witness:
  "(3 :: 8 word, 1) \<in> set (leaves (Node (Leaf (7, 0)) (Node (Leaf (3, 1)) (Leaf (3 :: 8 word, 2)))))"
  using argmin_leftmost_minimum [of False "Node (Leaf (7, 0)) (Node (Leaf (3, 1)) (Leaf (3 :: 8 word, 2)))" 3 1]
  by (simp add: combine_defs int_key_def)

text \<open>The result of \<open>sum\<close>, of \<open>xor_sum\<close> and of a product depends neither on the order of the elements
  nor on the bracketing, wrap-around included.\<close>

theorem accumulations_order_irrelevant:
  assumes "mset (leaves t) = mset (leaves u)"
  shows "reduce_tree sum_combine t = reduce_tree sum_combine u \<and>
     reduce_tree xor_combine t = reduce_tree xor_combine u \<and> reduce_tree prod_combine t = reduce_tree prod_combine u"
  using sum_elements.tree_permute [OF assms] xor_elements.tree_permute [OF assms] prod_elements.tree_permute [OF assms]
  by simp

theorem accumulations_order_irrelevant_witness:
  "reduce_tree sum_combine (Node (Leaf 200) (Node (Leaf 100) (Leaf 3))) =
     reduce_tree sum_combine (Node (Node (Leaf 3) (Leaf 200)) (Leaf (100 :: 8 word)))"
  using accumulations_order_irrelevant [of "Node (Leaf 200) (Node (Leaf 100) (Leaf 3))" "Node (Node (Leaf 3) (Leaf 200)) (Leaf (100 :: 8 word))"]
  by simp

end
