(* ===== verification/Philox.thy ===== *)
theory Philox
  imports Index_Math
begin

unbundle bit_operations_syntax

text \<open>
  The counter-based random number generator of \<open>python/triton/language/random.py\<close> (Philox 4x32 and
  4x64) on machine words.  One round multiplies two of the four counter words by odd constants, so it
  can be undone: for a fixed key the generator is a permutation of the counters, whatever the number
  of rounds, and different offsets never yield the same block of four words.  The conversion to
  floating point is modelled up to the multiplication by the scale.
\<close>

section \<open>The generator\<close>

record 'a philox_constants =
  KEY_A :: 'a
  KEY_B :: 'a
  ROUND_A :: 'a
  ROUND_B :: 'a

definition constants32 :: "32 word philox_constants" where
  "constants32 = \<lparr>KEY_A = 0x9E3779B9, KEY_B = 0xBB67AE85, ROUND_A = 0xD2511F53, ROUND_B = 0xCD9E8D57\<rparr>"

definition constants64 :: "64 word philox_constants" where
  "constants64 = \<lparr>KEY_A = 0x9E3779B97F4A7C15, KEY_B = 0xBB67AE8584CAA73B,
     ROUND_A = 0xD2E7470EE14C6C93, ROUND_B = 0xCA5A826395121157\<rparr>"

type_synonym 'a counter = "'a \<times> 'a \<times> 'a \<times> 'a"

text \<open>The upper half of the product (\<open>math.umulhi\<close>, \<open>tt.mulhiui\<close>).\<close>

definition umulhi :: "'a::len word \<Rightarrow> 'a word \<Rightarrow> 'a word" where
  "umulhi x y = word_of_int (uint x * uint y div 2 ^ LENGTH('a))"

definition philox_round :: "'a::len word philox_constants \<Rightarrow> 'a word \<times> 'a word \<Rightarrow> 'a word counter \<Rightarrow> 'a word counter" where
  "philox_round k key c =
     (case (key, c) of ((k0, k1), (c0, c1, c2, c3)) \<Rightarrow>
        (umulhi (ROUND_B k) c2 XOR c1 XOR k0, ROUND_B k * c2, umulhi (ROUND_A k) c0 XOR c3 XOR k1, ROUND_A k * c0))"

definition raise_key :: "'a::len word philox_constants \<Rightarrow> 'a word \<times> 'a word \<Rightarrow> 'a word \<times> 'a word" where
  "raise_key k key = (fst key + KEY_A k, snd key + KEY_B k)"

fun philox_impl :: "'a::len word philox_constants \<Rightarrow> nat \<Rightarrow> 'a word \<times> 'a word \<Rightarrow> 'a word counter \<Rightarrow> 'a word counter" where
  "philox_impl k 0 key c = c"
| "philox_impl k (Suc n_rounds) key c = philox_impl k n_rounds (raise_key k key) (philox_round k key c)"

text \<open>\<open>philox\<close> for offsets of 32 and of 64 bits; the seed has been converted to \<open>uint64\<close>.\<close>

definition philox32 :: "64 word \<Rightarrow> 32 word counter \<Rightarrow> nat \<Rightarrow> 32 word counter" where
  "philox32 seed c n_rounds =
     (let seed_hi = ucast (drop_bit 32 seed AND 0xffffffff) :: 32 word;
          seed_lo = ucast (seed AND 0xffffffff) :: 32 word
      in philox_impl constants32 n_rounds (seed_lo, seed_hi) c)"

definition philox64 :: "64 word \<Rightarrow> 64 word counter \<Rightarrow> nat \<Rightarrow> 64 word counter" where
  "philox64 seed c n_rounds = philox_impl constants64 n_rounds (seed, 0) c"

definition N_ROUNDS_DEFAULT :: nat where
  "N_ROUNDS_DEFAULT = 10"

definition randint4x :: "64 word \<Rightarrow> 32 word \<Rightarrow> nat \<Rightarrow> 32 word counter" where
  "randint4x seed offset n_rounds = philox32 seed (offset, offset * 0, offset * 0, offset * 0) n_rounds"

definition randint :: "64 word \<Rightarrow> 32 word \<Rightarrow> nat \<Rightarrow> 32 word" where
  "randint seed offset n_rounds = fst (randint4x seed offset n_rounds)"

definition randint4x_64 :: "64 word \<Rightarrow> 64 word \<Rightarrow> nat \<Rightarrow> 64 word counter" where
  "randint4x_64 seed offset n_rounds = philox64 seed (offset, offset * 0, offset * 0, offset * 0) n_rounds"

text \<open>The folding of the sign in \<open>uint_to_uniform_float\<close>: \<open>where(x < 0, -x - 1, x)\<close> on the signed value.\<close>

definition fold_sign :: "'a::len word \<Rightarrow> 'a word" where
  "fold_sign x = (if sint x < 0 then - x - 1 else x)"

section \<open>A round can be undone\<close>

text \<open>What the permutation argument needs of the constants: the multipliers have inverses.\<close>

locale philox_multipliers =
  fixes k :: "'a::len word philox_constants" and inverse_a inverse_b :: "'a word"
  assumes inverse_a: "inverse_a * ROUND_A k = 1" and inverse_b: "inverse_b * ROUND_B k = 1"
begin

lemma xor_mid: "(u XOR x XOR v = u XOR y XOR v) = (x = (y :: 'a word))"
  by (auto simp: bit_eq_iff bit_xor_iff)

lemma mult_cancel: "ROUND_A k * x = ROUND_A k * y \<longleftrightarrow> x = y" "ROUND_B k * x = ROUND_B k * y \<longleftrightarrow> x = y"
  by (metis inverse_a mult.assoc mult_1) (metis inverse_b mult.assoc mult_1)

lemma round_inj: "philox_round k key c = philox_round k key d \<Longrightarrow> c = d"
proof -
  assume eq: "philox_round k key c = philox_round k key d"
  obtain k0 k1 c0 c1 c2 c3 d0 d1 d2 d3
    where s: "key = (k0, k1)" "c = (c0, c1, c2, c3)" "d = (d0, d1, d2, d3)" by (metis prod_cases3 surj_pair)
  have "c0 = d0" "c2 = d2" using eq s mult_cancel by (auto simp: philox_round_def)
  moreover from this have "c1 = d1" "c3 = d3" using eq s by (auto simp: philox_round_def xor_mid)
  ultimately show "c = d" using s by simp
qed

lemma impl_inj: "philox_impl k n key c = philox_impl k n key d \<Longrightarrow> c = d"
proof (induction n arbitrary: key c d)
  case (Suc n)
  then have "philox_impl k n (raise_key k key) (philox_round k key c) =
      philox_impl k n (raise_key k key) (philox_round k key d)" by simp
  then have "philox_round k key c = philox_round k key d" by (rule Suc.IH)
  then show ?case by (rule round_inj)
qed simp

lemma impl_bij: "bij (philox_impl k n key)"
proof -
  have "inj (philox_impl k n key)" using impl_inj by (auto simp: inj_def)
  then show ?thesis by (simp add: bij_def finite_UNIV_inj_surj)
qed

end

interpretation philox_32: philox_multipliers constants32 "0x991A7CDB" "0x6D7CAE67"
  by unfold_locales (simp_all add: constants32_def)

interpretation philox_64: philox_multipliers constants64 "0x6C6D4A4B2DB9919B" "0x17DF77E820BB6A67"
  by unfold_locales (simp_all add: constants64_def)

section \<open>Signs\<close>

lemma sint_complement: "sint (- z - 1 :: 'a::len word) = - sint z - 1"
proof -
  have "- (2 ^ (LENGTH('a) - 1)) \<le> sint z" "sint z < 2 ^ (LENGTH('a) - 1)" by (rule sint_ge, rule sint_lt)
  moreover have "(2 :: int) ^ (LENGTH('a) - 1) \<le> 2 ^ LENGTH('a)" by (rule power_increasing) simp_all
  ultimately have "- (2 ^ LENGTH('a)) \<le> - sint z - 1" "- sint z - 1 < 2 ^ LENGTH('a)" by linarith+
  then have "signed_take_bit LENGTH('a) (NOT (sint z)) = NOT (sint z)"
    by (simp add: not_eq_complement signed_take_bit_int_eq_self)
  then have "sint (NOT z) = NOT (sint z)" by (simp add: signed_not_eq)
  then show ?thesis by (simp add: not_eq_complement)
qed

section \<open>Properties\<close>

text \<open>C18: for every key and every number of rounds, the 32-bit and the 64-bit generator permute their
  counters.\<close>

theorem philox_permutes_counters:
  "bij (philox_impl constants32 n_rounds key) \<and> bij (philox_impl constants64 n_rounds key')"
  using philox_32.impl_bij philox_64.impl_bij by blast

text \<open>For one seed, different offsets yield different blocks of four random words.\<close>

theorem randint4x_distinct:
  "(randint4x seed offset n_rounds = randint4x seed offset' n_rounds) = (offset = offset') \<and>
   (randint4x_64 seed offset64 n_rounds = randint4x_64 seed offset64' n_rounds) = (offset64 = offset64')"
  by (auto simp: randint4x_def randint4x_64_def philox32_def philox64_def Let_def
      dest: philox_32.impl_inj philox_64.impl_inj)

text \<open>Folding the sign maps the words onto the non-negative half of the signed range, and exactly the
  words \<open>x\<close> and \<open>-x - 1\<close> onto the same number: every number of the half has two preimages.\<close>

theorem fold_sign_two_to_one:
  "0 \<le> sint (fold_sign x) \<and> fold_sign (- x - 1) = fold_sign x \<and>
   (fold_sign y = fold_sign x) = (y = x \<or> y = - x - 1) \<and> x \<noteq> - x - 1"
proof -
  have n: "sint (- z - 1) = - sint z - 1" for z :: "'a word"
    by (simp add: sint_complement)
  have inv: "- (- z - 1) - 1 = z" for z :: "'a word" by simp
  have "sint x \<noteq> - sint x - 1" by presburger
  then have "x \<noteq> - x - 1" using n [of x] by metis
  then show ?thesis using n [of x] n [of y] inv [of x] inv [of y] by (auto simp: fold_sign_def)
qed

end
