(* ===== verification/File_System.thy ===== *)
theory File_System
  imports Prelude "HOL-Library.AList"
begin

text \<open>
  What \<open>python/triton/runtime/cache.py\<close> uses of Python's \<open>os\<close> module: path names, the calls that
  create, replace and remove files and directories, the environment of the process and the source of
  random identifiers.  A path names the location of its components (\<open>.\<close> and empty components are
  dropped, \<open>..\<close> is an ordinary component); the tree of files is an association list from locations.
  Every failing call raises \<open>OSError\<close>, whose subclasses no caller tells apart.
\<close>

text \<open>Locations are pairs that the proofs never take apart.\<close>

declare split_paired_All [simp del] split_paired_Ex [simp del]

section \<open>Paths\<close>

type_synonym location = "bool \<times> string list"

fun split_path :: "string \<Rightarrow> string list" where
  "split_path [] = [[]]"
| "split_path (c # cs) =
     (if c = CHR ''/'' then [] # split_path cs
      else case split_path cs of [] \<Rightarrow> [[c]] | d # ds \<Rightarrow> (c # d) # ds)"

definition absolute :: "string \<Rightarrow> bool" where
  "absolute p = (p \<noteq> [] \<and> hd p = CHR ''/'')"

definition locate :: "string \<Rightarrow> location" where
  "locate p = (absolute p, [c \<leftarrow> split_path p. c \<noteq> [] \<and> c \<noteq> ''.''])"

definition path_join :: "string \<Rightarrow> string \<Rightarrow> string" where
  "path_join a b =
     (if absolute b then b
      else if a = [] \<or> last a = CHR ''/'' then a @ b
      else a @ ''/'' @ b)"

text \<open>A name that stands for one entry of a directory.\<close>

definition plain_name :: "string \<Rightarrow> bool" where
  "plain_name f = (f \<noteq> [] \<and> f \<noteq> ''.'' \<and> CHR ''/'' \<notin> set f)"

definition child :: "location \<Rightarrow> string \<Rightarrow> location" where
  "child l f = (fst l, snd l @ [f])"

definition parent :: "location \<Rightarrow> location" where
  "parent l = (fst l, butlast (snd l))"

lemma child_simps [simp]:
  "parent (child l f) = l" "snd (child l f) \<noteq> []" "(child l f = child l' f') = (l = l' \<and> f = f')"
  by (auto simp: parent_def child_def prod_eq_iff)

lemma child_parent: "snd k \<noteq> [] \<Longrightarrow> child (parent k) (last (snd k)) = k"
  by (simp add: child_def parent_def)

lemma child_not_self [simp]:
  "child l f \<noteq> l" "l \<noteq> child l f" "child (child l f) g \<noteq> l" "l \<noteq> child (child l f) g"
proof -
  have "length (snd (child l f)) = Suc (length (snd l))" "length (snd (child (child l f) g)) = Suc (Suc (length (snd l)))"
    by (simp_all add: child_def)
  then show "child l f \<noteq> l" "l \<noteq> child l f" "child (child l f) g \<noteq> l" "l \<noteq> child (child l f) g" by auto
qed

lemma split_path_not_Nil [simp]: "split_path p \<noteq> []"
  by (induction p) (auto split: list.splits)

lemma split_path_append_slash: "split_path (a @ CHR ''/'' # b) = split_path a @ split_path b"
  by (induction a) (auto split: list.splits)

lemma split_path_name: "CHR ''/'' \<notin> set f \<Longrightarrow> split_path f = [f]"
  by (induction f) auto

lemma plain_name_relative: "plain_name f \<Longrightarrow> \<not> absolute f"
  by (auto simp: plain_name_def absolute_def dest: hd_in_set)

lemma locate_join:
  assumes "plain_name f" "d \<noteq> []"
  shows "locate (path_join d f) = child (locate d) f"
proof (cases "last d = CHR ''/''")
  case True
  then obtain a where d: "d = a @ [CHR ''/'']" using assms(2) by (metis append_butlast_last_id)
  then have "path_join d f = a @ CHR ''/'' # f" "\<not> absolute f" using assms plain_name_relative by (auto simp: path_join_def)
  moreover have "absolute (a @ CHR ''/'' # f) = absolute d" by (auto simp: absolute_def d hd_append)
  moreover have "split_path d = split_path a @ [[]]" unfolding d by (simp add: split_path_append_slash)
  ultimately show ?thesis
    using assms by (simp add: locate_def child_def split_path_append_slash split_path_name plain_name_def)
next
  case False
  have "\<not> absolute f" using assms plain_name_relative by blast
  then show ?thesis
    using assms False
    by (auto simp: locate_def child_def split_path_append_slash split_path_name plain_name_def path_join_def absolute_def)
qed

lemma join_not_Nil: "plain_name f \<Longrightarrow> path_join d f \<noteq> []"
  by (auto simp: path_join_def plain_name_def)

section \<open>The tree\<close>

text \<open>
  The text a file holds: JSON documents that \<open>json.dumps\<close> printed are kept as the value printed, so
  that \<open>json.load\<close> gives it back; any other text is not parsed.  A file that is open for writing and
  not yet closed holds a part of the text only.
\<close>

datatype json =
    JNull | JBool bool | JNum int | JStr string | JList "json list" | JObj "(string \<times> json) list"

datatype file_text = Plain string | Printed json

datatype data = Bytes file_text | Str file_text

fun payload :: "data \<Rightarrow> file_text" where
  "payload (Bytes t) = t"
| "payload (Str t) = t"

datatype content = Partial | Complete file_text

datatype node = Dir | File content

type_synonym tree = "(location \<times> node) list"

definition node_at :: "tree \<Rightarrow> location \<Rightarrow> node option" where
  "node_at t l = (if snd l = [] then Some Dir else map_of t l)"

definition set_node :: "location \<Rightarrow> node \<Rightarrow> tree \<Rightarrow> tree" where
  "set_node l n t = AList.update l n t"

definition remove_node :: "location \<Rightarrow> tree \<Rightarrow> tree" where
  "remove_node l t = AList.delete l t"

definition is_empty_dir :: "tree \<Rightarrow> location \<Rightarrow> bool" where
  "is_empty_dir t l = list_all (\<lambda>(k, _). \<not> (snd k \<noteq> [] \<and> parent k = l)) t"

lemma node_at_set: "node_at (set_node l n t) k = (if k = l \<and> snd l \<noteq> [] then Some n else node_at t k)"
  by (auto simp: node_at_def set_node_def update_conv')

lemma node_at_remove: "node_at (remove_node l t) k = (if k = l \<and> snd l \<noteq> [] then None else node_at t k)"
  by (auto simp: node_at_def remove_node_def delete_conv')

lemma is_empty_dir_iff: "is_empty_dir t l \<longleftrightarrow> (\<forall>k. snd k \<noteq> [] \<and> parent k = l \<longrightarrow> node_at t k = None)"
proof -
  have "is_empty_dir t l \<longleftrightarrow> (\<forall>k \<in> fst ` set t. \<not> (snd k \<noteq> [] \<and> parent k = l))"
    by (auto simp: is_empty_dir_def list_all_iff)
  also have "\<dots> = (\<forall>k. snd k \<noteq> [] \<and> parent k = l \<longrightarrow> k \<notin> fst ` set t)" by blast
  also have "\<dots> = (\<forall>k. snd k \<noteq> [] \<and> parent k = l \<longrightarrow> node_at t k = None)"
    by (rule iff_allI) (auto simp: node_at_def map_of_eq_None_iff)
  finally show ?thesis .
qed

definition make_dir :: "location \<Rightarrow> tree \<Rightarrow> tree result" where
  "make_dir l t =
     (case node_at t l of
        Some Dir \<Rightarrow> Inr t
      | Some (File c) \<Rightarrow> Inl OSError
      | None \<Rightarrow> if node_at t (parent l) = Some Dir then Inr (set_node l Dir t) else Inl OSError)"

text \<open>\<open>os.makedirs(path, exist_ok=True)\<close>, on the components of the path from the root on.\<close>

fun make_dirs_from :: "bool \<Rightarrow> string list \<Rightarrow> string list \<Rightarrow> tree \<Rightarrow> tree result" where
  "make_dirs_from a pre [] t = make_dir (a, pre) t"
| "make_dirs_from a pre (c # cs) t = bind_r (make_dir (a, pre) t) (make_dirs_from a (pre @ [c]) cs)"

definition make_dirs :: "location \<Rightarrow> tree \<Rightarrow> tree result" where
  "make_dirs l t = make_dirs_from (fst l) [] (snd l) t"

text \<open>\<open>open(path, "w")\<close> truncates the file; closing it completes the text.\<close>

definition open_write :: "location \<Rightarrow> tree \<Rightarrow> tree result" where
  "open_write l t =
     (if node_at t l = Some Dir \<or> node_at t (parent l) \<noteq> Some Dir then Inl OSError
      else Inr (set_node l (File Partial) t))"

definition close_write :: "location \<Rightarrow> file_text \<Rightarrow> tree \<Rightarrow> tree" where
  "close_write l x t = set_node l (File (Complete x)) t"

text \<open>\<open>os.replace\<close> of a file.\<close>

definition replace :: "location \<Rightarrow> location \<Rightarrow> tree \<Rightarrow> tree result" where
  "replace src dst t =
     (case node_at t src of
        Some (File c) \<Rightarrow>
          if node_at t dst = Some Dir \<or> node_at t (parent dst) \<noteq> Some Dir then Inl OSError
          else Inr (set_node dst (File c) (remove_node src t))
      | _ \<Rightarrow> Inl OSError)"

definition remove_dir :: "location \<Rightarrow> tree \<Rightarrow> tree result" where
  "remove_dir l t =
     (if snd l \<noteq> [] \<and> node_at t l = Some Dir \<and> is_empty_dir t l then Inr (remove_node l t) else Inl OSError)"

text \<open>\<open>os.removedirs\<close>: after the directory, its ancestors are removed while they are empty.\<close>

fun prune :: "nat \<Rightarrow> location \<Rightarrow> tree \<Rightarrow> tree" where
  "prune 0 l t = t"
| "prune (Suc n) l t =
     (if snd l = [] then t
      else case remove_dir l t of Inl e \<Rightarrow> t | Inr t' \<Rightarrow> prune n (parent l) t')"

definition remove_dirs :: "location \<Rightarrow> tree \<Rightarrow> tree result" where
  "remove_dirs l t = bind_r (remove_dir l t) (\<lambda>t. Inr (prune (length (snd l)) (parent l) t))"

section \<open>The process\<close>

text \<open>\<open>cache_cls_nme\<close> is the global variable of that name of \<open>cache.py\<close>; \<open>remote\<close> is the state of a cache server, of a type the model leaves open.\<close>

record 'r world =
  environ :: "string \<Rightarrow> string option"
  home :: string
  pid :: string
  uuids :: "nat \<Rightarrow> string"
  uuid_next :: nat
  nodes :: tree
  cache_cls_nme :: string
  remote :: 'r

definition on_tree :: "(tree \<Rightarrow> tree result) \<Rightarrow> ('r world, unit) M" where
  "on_tree f = (\<lambda>w. case f (nodes w) of Inl e \<Rightarrow> Inl e | Inr t \<Rightarrow> Inr ((), w\<lparr>nodes := t\<rparr>))"

lemma on_tree_run [run_simps]: "f (nodes w) = Inr t \<Longrightarrow> on_tree f w = Inr ((), w\<lparr>nodes := t\<rparr>)"
  by (simp add: on_tree_def)

definition path_exists :: "string \<Rightarrow> ('r world, bool) M" where
  "path_exists p = (\<lambda>w. Inr (p \<noteq> [] \<and> node_at (nodes w) (locate p) \<noteq> None, w))"

definition getenv :: "string \<Rightarrow> ('r world, string option) M" where
  "getenv v = (\<lambda>w. Inr (environ w v, w))"

definition uuid4 :: "('r world, string) M" where
  "uuid4 = (\<lambda>w. Inr (uuids w (uuid_next w), w\<lparr>uuid_next := Suc (uuid_next w)\<rparr>))"

lemma world_runs [run_simps]:
  "getenv v w = Inr (environ w v, w)"
  "uuid4 w = Inr (uuids w (uuid_next w), w\<lparr>uuid_next := Suc (uuid_next w)\<rparr>)"
  by (simp_all add: getenv_def uuid4_def)

definition content_at :: "'r world \<Rightarrow> string \<Rightarrow> file_text option" where
  "content_at w p =
     (case node_at (nodes w) (locate p) of Some (File (Complete x)) \<Rightarrow> Some x | _ \<Rightarrow> None)"

text \<open>Opening a file, and parsing the document in it.\<close>

definition read_file :: "string \<Rightarrow> ('r world, content) M" where
  "read_file p =
     (\<lambda>w. case node_at (nodes w) (locate p) of Some (File c) \<Rightarrow> Inr (c, w) | _ \<Rightarrow> Inl OSError)"

definition json_load :: "string \<Rightarrow> ('r world, json) M" where
  "json_load p = bind (read_file p) (\<lambda>c. case c of Complete (Printed j) \<Rightarrow> return j | _ \<Rightarrow> raise ValueError)"

end
