(* ===== verification/Cache.thy ===== *)
theory Cache
  imports File_System
begin

text \<open>
  The compilation cache of \<open>python/triton/runtime/cache.py\<close>: the interface \<open>CacheManager\<close>, the manager
  over a directory, the manager over a remote backend that materialises files locally, the Redis
  backend over the two commands of the Redis client it uses, and the choice of the manager.  A Python
  dictionary is an association list in insertion order.
\<close>

section \<open>Directories\<close>

definition get_home_dir :: "('r world, string) M" where
  "get_home_dir = bind (getenv ''TRITON_HOME'') (\<lambda>h. bind get_s (\<lambda>w. return (case h of None \<Rightarrow> home w | Some d \<Rightarrow> d)))"

definition triton_dir :: "string \<Rightarrow> ('r world, string) M" where
  "triton_dir leaf = bind get_home_dir (\<lambda>h. return (path_join (path_join h ''.triton'') leaf))"

definition default_cache_dir :: "('r world, string) M" where
  "default_cache_dir = triton_dir ''cache''"

definition default_override_dir :: "('r world, string) M" where
  "default_override_dir = triton_dir ''override''"

definition default_dump_dir :: "('r world, string) M" where
  "default_dump_dir = triton_dir ''dump''"

definition is_space :: "char \<Rightarrow> bool" where
  "is_space c = (c \<in> {CHR '' '', CHR 0x09, CHR 0x0A, CHR 0x0B, CHR 0x0C, CHR 0x0D})"

definition strip :: "string \<Rightarrow> string" where
  "strip s = rev (dropWhile is_space (rev (dropWhile is_space s)))"

text \<open>\<open>os.getenv(v, "").strip() or default()\<close>.\<close>

definition dir_or :: "string \<Rightarrow> ('r world, string) M \<Rightarrow> ('r world, string) M" where
  "dir_or v dflt =
     bind (getenv v) (\<lambda>d. let d = strip (case d of None \<Rightarrow> [] | Some x \<Rightarrow> x) in if d \<noteq> [] then return d else dflt)"

section \<open>The manager over a directory\<close>

type_synonym 'v dict = "(string \<times> 'v) list"

record file_cache =
  cache_key :: string
  lock_path :: "string option"
  cache_dir :: string

definition file_cache_init :: "string \<Rightarrow> bool \<Rightarrow> bool \<Rightarrow> ('r world, file_cache) M" where
  "file_cache_init k override dump =
     (if dump then
        bind (dir_or ''TRITON_DUMP_DIR'' default_dump_dir) (\<lambda>d.
        let dir = path_join d k in
        bind (on_tree (make_dirs (locate dir))) (\<lambda>_.
        return \<lparr>cache_key = k, lock_path = Some (path_join dir ''lock''), cache_dir = dir\<rparr>))
      else if override then
        bind (dir_or ''TRITON_OVERRIDE_DIR'' default_override_dir) (\<lambda>d.
        return \<lparr>cache_key = k, lock_path = None, cache_dir = path_join d k\<rparr>)
      else
        bind (dir_or ''TRITON_CACHE_DIR'' default_cache_dir) (\<lambda>d.
        if d \<noteq> [] then
          let dir = path_join d k in
          bind (on_tree (make_dirs (locate dir))) (\<lambda>_.
          return \<lparr>cache_key = k, lock_path = Some (path_join dir ''lock''), cache_dir = dir\<rparr>)
        else raise RuntimeError))"

definition make_path :: "file_cache \<Rightarrow> string \<Rightarrow> string" where
  "make_path m filename = path_join (cache_dir m) filename"

definition has_file :: "file_cache \<Rightarrow> string \<Rightarrow> ('r world, bool) M" where
  "has_file m filename =
     bind (check (cache_dir m \<noteq> []) RuntimeError) (\<lambda>_. path_exists (make_path m filename))"

definition file_get_file :: "file_cache \<Rightarrow> string \<Rightarrow> ('r world, string option) M" where
  "file_get_file m filename =
     bind (has_file m filename) (\<lambda>h. return (if h then Some (make_path m filename) else None))"

definition grp_filename :: "string \<Rightarrow> string" where
  "grp_filename filename = ''__grp__'' @ filename"

text \<open>\<open>grp_data.get("child_paths", None)\<close> and the items of the dictionary found there.\<close>

fun json_get :: "string \<Rightarrow> json \<Rightarrow> json result" where
  "json_get k (JObj kvs) = Inr (case map_of kvs k of None \<Rightarrow> JNull | Some v \<Rightarrow> v)"
| "json_get k _ = Inl AttributeError"

fun json_items :: "json \<Rightarrow> json dict result" where
  "json_items (JObj kvs) = Inr kvs"
| "json_items _ = Inl AttributeError"

fun json_str :: "json \<Rightarrow> string result" where
  "json_str (JStr x) = Inr x"
| "json_str _ = Inl TypeError"

fun existing :: "json dict \<Rightarrow> ('r world, string dict) M" where
  "existing [] = return []"
| "existing ((c, p) # items) =
     bind (lift_r (json_str p)) (\<lambda>p.
     bind (path_exists p) (\<lambda>e.
     bind (existing items) (\<lambda>r. return (if e then (c, p) # r else r))))"

definition file_get_group :: "file_cache \<Rightarrow> string \<Rightarrow> ('r world, string dict option) M" where
  "file_get_group m filename =
     bind (has_file m (grp_filename filename)) (\<lambda>h.
     if \<not> h then return None
     else
       bind (json_load (make_path m (grp_filename filename))) (\<lambda>grp_data.
       bind (lift_r (json_get ''child_paths'' grp_data)) (\<lambda>child_paths.
       if child_paths = JNull then return None
       else
         bind (lift_r (json_items child_paths)) (\<lambda>items.
         bind (existing items) (\<lambda>r. return (Some r))))))"

definition temp_dir_name :: "string \<Rightarrow> string \<Rightarrow> string" where
  "temp_dir_name p rnd_id = ''tmp.pid_'' @ p @ ''_'' @ rnd_id"

definition file_put :: "file_cache \<Rightarrow> data \<Rightarrow> string \<Rightarrow> ('r world, string) M" where
  "file_put m d filename =
     bind (check (cache_dir m \<noteq> []) RuntimeError) (\<lambda>_.
     bind (check (lock_path m \<noteq> None) AssertionError) (\<lambda>_.
     let filepath = make_path m filename in
     bind uuid4 (\<lambda>rnd_id.
     bind get_s (\<lambda>w.
     let temp_dir = path_join (cache_dir m) (temp_dir_name (pid w) rnd_id) in
     bind (on_tree (make_dirs (locate temp_dir))) (\<lambda>_.
     let temp_path = path_join temp_dir filename in
     bind (on_tree (open_write (locate temp_path))) (\<lambda>_.
     bind (on_tree (\<lambda>t. Inr (close_write (locate temp_path) (payload d) t))) (\<lambda>_.
     bind (on_tree (replace (locate temp_path) (locate filepath))) (\<lambda>_.
     bind (on_tree (remove_dirs (locate temp_dir))) (\<lambda>_.
     return filepath)))))))))"

definition group_contents :: "string dict \<Rightarrow> json" where
  "group_contents grp = JObj [(''child_paths'', JObj (map (\<lambda>(c, p). (c, JStr p)) grp))]"

definition file_put_group :: "file_cache \<Rightarrow> string \<Rightarrow> string dict \<Rightarrow> ('r world, string) M" where
  "file_put_group m filename grp =
     bind (check (cache_dir m \<noteq> []) RuntimeError) (\<lambda>_.
     file_put m (Str (Printed (group_contents grp))) (grp_filename filename))"

section \<open>The interface\<close>

text \<open>An object of a class derived from \<open>CacheManager\<close>, as the methods its callers use.\<close>

record 's cache_manager =
  get_file :: "string \<Rightarrow> ('s, string option) M"
  put :: "data \<Rightarrow> string \<Rightarrow> ('s, string) M"
  get_group :: "string \<Rightarrow> ('s, string dict option) M"
  put_group :: "string \<Rightarrow> string dict \<Rightarrow> ('s, string) M"

definition file_manager :: "file_cache \<Rightarrow> 'r world cache_manager" where
  "file_manager m = \<lparr>get_file = file_get_file m, put = file_put m, get_group = file_get_group m, put_group = file_put_group m\<rparr>"

section \<open>The manager over a remote backend\<close>

text \<open>
  The backend is a class that an environment variable names; the one in this file talks to a Redis
  server, whose client is a parameter: \<open>mget\<close> reads the values of a list of keys, \<open>rset\<close> writes one.
\<close>

record 's cache_backend =
  backend_get :: "string list \<Rightarrow> ('s, data dict) M"
  backend_put :: "string \<Rightarrow> data \<Rightarrow> ('s, unit) M"

text \<open>\<open>str.format\<close> with the fields \<open>{key}\<close> and \<open>{filename}\<close>; other fields raise.\<close>

fun format_key :: "string \<Rightarrow> string \<Rightarrow> string \<Rightarrow> string result" where
  "format_key k filename [] = Inr []"
| "format_key k filename (c # cs) =
     (if take 2 (c # cs) = ''{{'' then bind_r (format_key k filename (drop 1 cs)) (\<lambda>r. Inr (CHR ''{'' # r))
      else if take 2 (c # cs) = ''}}'' then bind_r (format_key k filename (drop 1 cs)) (\<lambda>r. Inr (CHR ''}'' # r))
      else if take 5 (c # cs) = ''{key}'' then bind_r (format_key k filename (drop 4 cs)) (\<lambda>r. Inr (k @ r))
      else if take 10 (c # cs) = ''{filename}'' then bind_r (format_key k filename (drop 9 cs)) (\<lambda>r. Inr (filename @ r))
      else if c = CHR ''{'' then Inl KeyError
      else if c = CHR ''}'' then Inl ValueError
      else bind_r (format_key k filename cs) (\<lambda>r. Inr (c # r)))"

definition redis_key_fmt :: "('r world, string) M" where
  "redis_key_fmt =
     bind (getenv ''TRITON_REDIS_KEY_FORMAT'') (\<lambda>v. return (case v of None \<Rightarrow> ''triton:{key}:{filename}'' | Some f \<Rightarrow> f))"

definition redis_get_key :: "string \<Rightarrow> string \<Rightarrow> string \<Rightarrow> string result" where
  "redis_get_key fmt k filename = format_key k filename fmt"

definition add_found :: "string \<times> data option \<Rightarrow> data dict \<Rightarrow> data dict" where
  "add_found e acc = (case e of (filename, r) \<Rightarrow> case r of None \<Rightarrow> acc | Some d \<Rightarrow> AList.update filename d acc)"

definition redis_get ::
  "('r \<Rightarrow> string list \<Rightarrow> data option list) \<Rightarrow> string \<Rightarrow> string \<Rightarrow> string list \<Rightarrow> ('r world, data dict) M" where
  "redis_get mget fmt k filenames =
     bind (lift_r (map_r (redis_get_key fmt k) filenames)) (\<lambda>ks.
     bind get_s (\<lambda>w.
     return (fold add_found (zip filenames (mget (remote w) ks)) [])))"

definition redis_put :: "('r \<Rightarrow> string \<Rightarrow> data \<Rightarrow> 'r) \<Rightarrow> string \<Rightarrow> string \<Rightarrow> string \<Rightarrow> data \<Rightarrow> ('r world, unit) M" where
  "redis_put rset fmt k filename d =
     bind (lift_r (redis_get_key fmt k filename)) (\<lambda>rk.
     bind get_s (\<lambda>w. put_s (w\<lparr>remote := rset (remote w) rk d\<rparr>)))"

definition redis_backend ::
  "('r \<Rightarrow> string list \<Rightarrow> data option list) \<Rightarrow> ('r \<Rightarrow> string \<Rightarrow> data \<Rightarrow> 'r) \<Rightarrow> string \<Rightarrow> ('r world, 'r world cache_backend) M" where
  "redis_backend mget rset k =
     bind redis_key_fmt (\<lambda>fmt. return \<lparr>backend_get = redis_get mget fmt k, backend_put = redis_put rset fmt k\<rparr>)"

record 'r remote_cache =
  backend :: "'r world cache_backend"
  override_flag :: bool
  dump_flag :: bool
  file_cache_manager :: file_cache

definition materialize :: "'r remote_cache \<Rightarrow> string \<Rightarrow> data \<Rightarrow> ('r world, string) M" where
  "materialize m filename d = file_put (file_cache_manager m) d filename"

definition remote_get_file :: "'r remote_cache \<Rightarrow> string \<Rightarrow> ('r world, string option) M" where
  "remote_get_file m filename =
     (if dump_flag m \<or> override_flag m then file_get_file (file_cache_manager m) filename
      else
        bind (backend_get (backend m) [filename]) (\<lambda>results.
        case results of
          [] \<Rightarrow> return None
        | [(_, d)] \<Rightarrow> bind (materialize m filename d) (\<lambda>p. return (Some p))
        | _ \<Rightarrow> raise ValueError))"

definition remote_put :: "'r remote_cache \<Rightarrow> data \<Rightarrow> string \<Rightarrow> ('r world, string) M" where
  "remote_put m d filename =
     (if dump_flag m \<or> override_flag m then file_put (file_cache_manager m) d filename
      else
        let d = Bytes (payload d) in
        bind (backend_put (backend m) filename d) (\<lambda>_. materialize m filename d))"

text \<open>\<open>backend.get(child_paths)\<close> iterates over a list of names, or over the keys of a dictionary.\<close>

fun json_names :: "json \<Rightarrow> string list result" where
  "json_names (JList xs) = map_r json_str xs"
| "json_names (JObj kvs) = Inr (map fst kvs)"
| "json_names _ = Inl TypeError"

definition remote_get_group :: "'r remote_cache \<Rightarrow> string \<Rightarrow> ('r world, string dict option) M" where
  "remote_get_group m filename =
     (if dump_flag m \<or> override_flag m then file_get_group (file_cache_manager m) filename
      else
        bind (remote_get_file m (grp_filename filename)) (\<lambda>grp_filepath.
        case grp_filepath of
          None \<Rightarrow> return None
        | Some p \<Rightarrow>
            bind (json_load p) (\<lambda>grp_data.
            bind (lift_r (json_get ''child_paths'' grp_data)) (\<lambda>child_paths.
            if child_paths = JNull then return None
            else
              bind (lift_r (json_names child_paths)) (\<lambda>names.
              bind (backend_get (backend m) names) (\<lambda>found.
              bind (map_m (\<lambda>(c, d). bind (materialize m c d) (\<lambda>q. return (c, q))) found) (\<lambda>r.
              return (Some r))))))))"

text \<open>\<open>sorted\<close> of a list of strings, by code points.\<close>

definition string_le :: "string \<Rightarrow> string \<Rightarrow> bool" where
  "string_le a b = (a = b \<or> ord.lexordp (\<lambda>c d. (of_char c :: nat) < of_char d) a b)"

fun insert_name :: "string \<Rightarrow> string list \<Rightarrow> string list" where
  "insert_name x [] = [x]"
| "insert_name x (y # ys) = (if string_le x y then x # y # ys else y # insert_name x ys)"

definition sort_names :: "string list \<Rightarrow> string list" where
  "sort_names xs = foldr insert_name xs []"

definition remote_put_group :: "'r remote_cache \<Rightarrow> string \<Rightarrow> string dict \<Rightarrow> ('r world, string) M" where
  "remote_put_group m filename grp =
     (if dump_flag m \<or> override_flag m then file_put_group (file_cache_manager m) filename grp
      else
        remote_put m (Str (Printed (JObj [(''child_paths'', JList (map JStr (sort_names (map fst grp))))])))
          (grp_filename filename))"

definition remote_manager :: "'r remote_cache \<Rightarrow> 'r world cache_manager" where
  "remote_manager m =
     \<lparr>get_file = remote_get_file m, put = remote_put m, get_group = remote_get_group m, put_group = remote_put_group m\<rparr>"

text \<open>
  \<open>RemoteCacheManager.__init__\<close>; \<open>load_backend\<close> stands for importing the class named by the
  environment variable (\<open>module:class\<close>) and calling it with the key.
\<close>

fun split_colon :: "string \<Rightarrow> string list" where
  "split_colon [] = [[]]"
| "split_colon (c # cs) =
     (if c = CHR '':'' then [] # split_colon cs
      else case split_colon cs of [] \<Rightarrow> [[c]] | d # ds \<Rightarrow> (c # d) # ds)"

definition split_class :: "string \<Rightarrow> (string \<times> string) result" where
  "split_class s = (case split_colon s of [a, b] \<Rightarrow> Inr (a, b) | _ \<Rightarrow> Inl ValueError)"

definition remote_cache_init ::
  "(string \<Rightarrow> string \<Rightarrow> string \<Rightarrow> ('r world, 'r world cache_backend) M) \<Rightarrow> string \<Rightarrow> bool \<Rightarrow> bool \<Rightarrow> ('r world, 'r remote_cache) M" where
  "remote_cache_init load_backend k override dump =
     bind (getenv ''TRITON_REMOTE_CACHE_BACKEND'') (\<lambda>v.
     case v of
       None \<Rightarrow> raise KeyError
     | Some cls \<Rightarrow>
         bind (lift_r (split_class cls)) (\<lambda>(module_path, clz_nme).
         bind (load_backend module_path clz_nme k) (\<lambda>bk.
         bind (file_cache_init k override dump) (\<lambda>m.
         return \<lparr>backend = bk, override_flag = override, dump_flag = dump, file_cache_manager = m\<rparr>))))"

section \<open>Keys and the choice of the manager\<close>

fun hex_digit :: "char \<Rightarrow> nat option" where
  "hex_digit c =
     (let n = of_char c in
      if 48 \<le> n \<and> n \<le> 57 then Some (n - 48)
      else if 97 \<le> n \<and> n \<le> 102 then Some (n - 87)
      else if 65 \<le> n \<and> n \<le> 70 then Some (n - 55)
      else None)"

fun fromhex :: "string \<Rightarrow> nat list result" where
  "fromhex [] = Inr []"
| "fromhex [c] = (if is_space c then Inr [] else Inl ValueError)"
| "fromhex (c # d # cs) =
     (if is_space c then fromhex (d # cs)
      else case (hex_digit c, hex_digit d) of
             (Some h, Some l) \<Rightarrow> bind_r (fromhex cs) (\<lambda>bs. Inr ((16 * h + l) # bs))
           | _ \<Rightarrow> Inl ValueError)"

definition base64_alphabet :: string where
  "base64_alphabet = ''ABCDEFGHIJKLMNOPQRSTUVWXYZabcdefghijklmnopqrstuvwxyz0123456789-_''"

definition base64_char :: "nat \<Rightarrow> char" where
  "base64_char n = base64_alphabet ! n"

text \<open>\<open>base64.urlsafe_b64encode(...).rstrip("=")\<close>: the padding is left out.\<close>

fun base64_encode :: "nat list \<Rightarrow> string" where
  "base64_encode [] = []"
| "base64_encode [a] = [base64_char (a div 4), base64_char (a mod 4 * 16)]"
| "base64_encode [a, b] =
     [base64_char (a div 4), base64_char (a mod 4 * 16 + b div 16), base64_char (b mod 16 * 4)]"
| "base64_encode (a # b # c # bs) =
     base64_char (a div 4) # base64_char (a mod 4 * 16 + b div 16) #
     base64_char (b mod 16 * 4 + c div 64) # base64_char (c mod 64) # base64_encode bs"

definition base64_key :: "string \<Rightarrow> string result" where
  "base64_key k = bind_r (fromhex k) (\<lambda>bs. Inr (base64_encode bs))"

text \<open>
  \<open>load_class\<close> stands for importing a manager class; the name \<open>DEFAULT\<close> is that of \<open>FileCacheManager\<close>.
\<close>

type_synonym 'r manager_class = "string \<Rightarrow> bool \<Rightarrow> bool \<Rightarrow> ('r world, 'r world cache_manager) M"

definition manager_of :: "(string \<Rightarrow> string \<Rightarrow> 'r manager_class) \<Rightarrow> string \<Rightarrow> 'r manager_class" where
  "manager_of load_class nme k override dump =
     (if nme = ''DEFAULT'' then bind (file_cache_init k override dump) (\<lambda>m. return (file_manager m))
      else bind (lift_r (split_class nme)) (\<lambda>(module_path, clz_nme). load_class module_path clz_nme k override dump))"

definition get_cache_manager :: "(string \<Rightarrow> string \<Rightarrow> 'r manager_class) \<Rightarrow> string \<Rightarrow> ('r world, 'r world cache_manager) M" where
  "get_cache_manager load_class k =
     bind (getenv ''TRITON_CACHE_MANAGER'') (\<lambda>user_cache_manager.
     bind (case user_cache_manager of
             None \<Rightarrow> return ()
           | Some nme \<Rightarrow>
               bind get_s (\<lambda>w.
               if nme \<noteq> cache_cls_nme w then
                 bind (lift_r (split_class nme)) (\<lambda>_. put_s (w\<lparr>cache_cls_nme := nme\<rparr>))
               else return ())) (\<lambda>_.
     bind (lift_r (base64_key k)) (\<lambda>d.
     bind get_s (\<lambda>w. manager_of load_class (cache_cls_nme w) d False False))))"

definition get_override_manager :: "(string \<Rightarrow> string \<Rightarrow> 'r manager_class) \<Rightarrow> string \<Rightarrow> ('r world, 'r world cache_manager) M" where
  "get_override_manager load_class k =
     bind (lift_r (base64_key k)) (\<lambda>d. bind get_s (\<lambda>w. manager_of load_class (cache_cls_nme w) d True False))"

definition get_dump_manager :: "(string \<Rightarrow> string \<Rightarrow> 'r manager_class) \<Rightarrow> string \<Rightarrow> ('r world, 'r world cache_manager) M" where
  "get_dump_manager load_class k =
     bind (lift_r (base64_key k)) (\<lambda>d. bind get_s (\<lambda>w. manager_of load_class (cache_cls_nme w) d False True))"

text \<open>
  The key of a shared object; \<open>sha256\<close> is the hexadecimal digest, and the constants, the ids and the
  keyword arguments come printed.
\<close>

fun concat_dashed :: "string \<Rightarrow> string list \<Rightarrow> string" where
  "concat_dashed k [] = k"
| "concat_dashed k (v # vs) = concat_dashed (k @ ''-'' @ v) vs"

definition make_so_cache_key ::
  "(string \<Rightarrow> string) \<Rightarrow> string \<Rightarrow> string dict \<Rightarrow> string \<Rightarrow> string \<Rightarrow> string list \<Rightarrow> string result" where
  "make_so_cache_key sha256 version_hash signature constants ids kwargs =
     bind_r (map_r (\<lambda>(k, v). case v of [] \<Rightarrow> Inl IndexError | c # _ \<Rightarrow> Inr (if c = CHR ''*'' then ''ptr'' else v)) signature)
       (\<lambda>vs. base64_key (sha256 (concat_dashed (version_hash @ ''-'' @ concat vs @ ''-'' @ constants @ ''-'' @ ids) kwargs)))"

end
