(* ===== verification/Codegen.thy ===== *)
theory Codegen
  imports Semantic_Cast Cache
begin

text \<open>
  The construction of structured SSA form in \<open>CodeGenerator\<close>, \<open>python/triton/compiler/code_generator.py\<close>:
  the visitors of expressions, assignments, conditionals and loops, with the scope \<open>lscope\<close>, the definitions
  \<open>local_defs\<close> of the region being visited, the values carried by loops and merged by conditionals, the dry
  visits of loop bodies, and the compile-time evaluation of constants, conditionals and \<open>static_range\<close>.

  A kernel is its abstract syntax.  An operator or a builtin applied to a tensor emits one operation here,
  named after the method; what each method emits in detail is the subject of the \<open>Semantic\<close> theories.  The
  types the methods give are parameters, and so are the constant globals of the kernel and Python's
  arithmetic on floats, its division and its powers.  Return statements, calls of other kernels, tuples and subscripts are left out,
  and a call without a result is modelled as a statement only.
\<close>

section \<open>Abstract syntax\<close>

text \<open>\<open>BinOp\<close> stands for binary, comparison and boolean operators, which are all dispatched by
  \<open>_apply_binary_method\<close> on the name of the method.\<close>

datatype expr =
    Num number
  | Name string
  | BinOp string expr expr
  | UnaryOp string expr
  | IfExp expr expr expr
  | Call string "expr list"

datatype range_class = Py_range | Tl_range

text \<open>\<open>Annotate x e\<close> is \<open>x: constexpr = e\<close>; an augmented assignment is the assignment of the operation.\<close>

datatype stmt =
    Assign string expr
  | Annotate string expr
  | Effect string "expr list"
  | IfStmt expr "stmt list" "stmt list"
  | WhileStmt expr "stmt list"
  | ForStmt string range_class "expr list" "stmt list"
  | StaticFor string "expr list" "stmt list"

definition aug_assign :: "string \<Rightarrow> string \<Rightarrow> expr \<Rightarrow> stmt" where
  "aug_assign x method e = Assign x (BinOp method (Name x) e)"

section \<open>Structured IR\<close>

text \<open>Operations are named; \<open>To_int1\<close>, \<open>Int_cast\<close>, \<open>Sub_int\<close> and \<open>Add_int\<close> are the ones the generator emits
  itself.  An operand is a constant handed to the method, or a value.\<close>

datatype opname = Method string | Const_op number | To_int1 | Int_cast ty bool | Sub_int | Add_int

datatype operand = OConst number | OVal nat

datatype instr =
    IOp nat ty opname "operand list"
  | ICall "(nat \<times> ty) option" string "operand list"
  | IPoison nat ty
  | IIf "(nat \<times> ty) list" nat "instr list" "nat list" "instr list" "nat list"
  | IWhile "(nat \<times> ty) list" "nat list" "(nat \<times> ty) list" "instr list" nat "(nat \<times> ty) list" "instr list" "nat list"
  | IFor "(nat \<times> ty) list" nat ty nat nat nat "nat list" "(nat \<times> ty) list" "instr list" "nat list"

type_synonym code = "instr list"

text \<open>\<open>replace_all_uses_with\<close> inside a region.\<close>

definition rename :: "nat \<Rightarrow> nat \<Rightarrow> nat \<Rightarrow> nat" where
  "rename h iv k = (if k = h then iv else k)"

fun rename_operand :: "nat \<Rightarrow> nat \<Rightarrow> operand \<Rightarrow> operand" where
  "rename_operand h iv (OConst c) = OConst c"
| "rename_operand h iv (OVal k) = OVal (rename h iv k)"

fun replace_uses :: "nat \<Rightarrow> nat \<Rightarrow> instr \<Rightarrow> instr" where
  "replace_uses h iv (IOp n t p os) = IOp n t p (map (rename_operand h iv) os)"
| "replace_uses h iv (ICall r f os) = ICall r f (map (rename_operand h iv) os)"
| "replace_uses h iv (IPoison n t) = IPoison n t"
| "replace_uses h iv (IIf rs c c1 y1 c2 y2) =
     IIf rs (rename h iv c) (map (replace_uses h iv) c1) (map (rename h iv) y1)
       (map (replace_uses h iv) c2) (map (rename h iv) y2)"
| "replace_uses h iv (IWhile rs inits bargs cc c aargs cb ys) =
     IWhile rs (map (rename h iv) inits) bargs (map (replace_uses h iv) cc) (rename h iv c) aargs
       (map (replace_uses h iv) cb) (map (rename h iv) ys)"
| "replace_uses h iv (IFor rs i t lb ub st inits args cb ys) =
     IFor rs i t (rename h iv lb) (rename h iv ub) (rename h iv st) (map (rename h iv) inits) args
       (map (replace_uses h iv) cb) (map (rename h iv) ys)"

section \<open>The generator's environment\<close>

text \<open>The value of a name: a \<open>constexpr\<close>, or a tensor with its handle and its type.\<close>

datatype entry = EConst number | ETensor nat ty

type_synonym scope = "entry dict"

text \<open>What a method sees of an operand's type.\<close>

datatype aty = AConst number | ATensor ty

record genv =
  globals :: "string \<Rightarrow> number option"
  op_type :: "opname \<Rightarrow> aty list \<Rightarrow> ty result"
  call_type :: "string \<Rightarrow> aty list \<Rightarrow> ty option result"
  float_binary :: "string \<Rightarrow> number \<Rightarrow> number \<Rightarrow> number result"
  float_unary :: "string \<Rightarrow> number \<Rightarrow> number result"

fun aty_of :: "entry \<Rightarrow> aty" where
  "aty_of (EConst c) = AConst c"
| "aty_of (ETensor h t) = ATensor t"

fun operand_of :: "entry \<Rightarrow> operand" where
  "operand_of (EConst c) = OConst c"
| "operand_of (ETensor h t) = OVal h"

section \<open>Constants\<close>

text \<open>The methods of \<open>constexpr\<close> on integers and booleans.\<close>

fun const_int :: "number \<Rightarrow> int option" where
  "const_int (NInt x) = Some x"
| "const_int (NBool x) = Some (of_bool x)"
| "const_int (NFloat x) = None"

definition int_method :: "string \<Rightarrow> int \<Rightarrow> int \<Rightarrow> number result" where
  "int_method m x y =
     (if m = ''__add__'' then Inr (NInt (x + y))
      else if m = ''__sub__'' then Inr (NInt (x - y))
      else if m = ''__mul__'' then Inr (NInt (x * y))
      else if m = ''__floordiv__'' then (if y = 0 then Inl ZeroDivisionError else Inr (NInt (x div y)))
      else if m = ''__mod__'' then (if y = 0 then Inl ZeroDivisionError else Inr (NInt (x mod y)))
      else if m = ''__lshift__'' then (if y < 0 then Inl ValueError else Inr (NInt (push_bit (nat y) x)))
      else if m = ''__rshift__'' then (if y < 0 then Inl ValueError else Inr (NInt (drop_bit (nat y) x)))
      else if m = ''__lt__'' then Inr (NBool (x < y))
      else if m = ''__le__'' then Inr (NBool (x \<le> y))
      else if m = ''__gt__'' then Inr (NBool (x > y))
      else if m = ''__ge__'' then Inr (NBool (x \<ge> y))
      else if m = ''__eq__'' then Inr (NBool (x = y))
      else if m = ''__ne__'' then Inr (NBool (x \<noteq> y))
      else Inl AttributeError)"

definition float_methods :: "string list" where
  "float_methods = [''__truediv__'', ''__pow__'']"

definition bit_methods :: "(string \<times> (int \<Rightarrow> int \<Rightarrow> int)) list" where
  "bit_methods = [(''__and__'', (AND)), (''__or__'', (OR)), (''__xor__'', (XOR))]"

text \<open>Truth of a constant used as a condition; only booleans and integers are accepted.\<close>

fun static_condition :: "number \<Rightarrow> bool result" where
  "static_condition (NBool b) = Inr b"
| "static_condition (NInt x) = Inr (x \<noteq> 0)"
| "static_condition (NFloat x) = Inl UnsupportedLanguageConstruct"

fun truth_value :: "number \<Rightarrow> bool" where
  "truth_value (NBool b) = b"
| "truth_value (NInt x) = (x \<noteq> 0)"
| "truth_value (NFloat x) = (x \<noteq> PyFin 0)"

definition constexpr_method :: "genv \<Rightarrow> string \<Rightarrow> number \<Rightarrow> number \<Rightarrow> number result" where
  "constexpr_method G m a b =
     (if m = ''logical_and'' then Inr (if truth_value a then b else a)
      else if m = ''logical_or'' then Inr (if truth_value a then a else b)
      else case (const_int a, const_int b, m \<in> set float_methods) of
        (Some x, Some y, False) \<Rightarrow>
          (case map_of bit_methods m of
             Some f \<Rightarrow> Inr (case (a, b) of (NBool p, NBool q) \<Rightarrow> NBool (f x y = 1) | _ \<Rightarrow> NInt (f x y))
           | None \<Rightarrow> int_method m x y)
      | _ \<Rightarrow> float_binary G m a b)"

definition constexpr_unary :: "genv \<Rightarrow> string \<Rightarrow> number \<Rightarrow> number result" where
  "constexpr_unary G m a =
     (if m = ''__not__'' then Inr (NBool (\<not> truth_value a))
      else case const_int a of
        Some x \<Rightarrow>
          (if m = ''__neg__'' then Inr (NInt (- x))
           else if m = ''__pos__'' then Inr (NInt x)
           else if m = ''__invert__'' then Inr (NInt (- x - 1))
           else Inl AttributeError)
      | None \<Rightarrow> float_unary G m a)"

text \<open>The type \<open>to_tensor\<close> gives a constant.\<close>

fun constant_type :: "number \<Rightarrow> ty result" where
  "constant_type (NBool b) = Inr (Dt Int1)"
| "constant_type (NInt x) = int_constant_type x"
| "constant_type (NFloat x) = Inr (float_constant_type x)"

section \<open>Expressions\<close>

text \<open>Each visitor returns its result, the operations it emits and the next free handle.\<close>

definition gen_op :: "genv \<Rightarrow> opname \<Rightarrow> entry list \<Rightarrow> nat \<Rightarrow> (entry \<times> code \<times> nat) result" where
  "gen_op G p es n =
     bind_r (op_type G p (map aty_of es)) (\<lambda>t. Inr (ETensor n t, [IOp n t p (map operand_of es)], Suc n))"

fun gen_tensor :: "entry \<Rightarrow> nat \<Rightarrow> ((nat \<times> ty) \<times> code \<times> nat) result" where
  "gen_tensor (EConst c) n = bind_r (constant_type c) (\<lambda>t. Inr ((n, t), [IOp n t (Const_op c) []], Suc n))"
| "gen_tensor (ETensor h t) n = Inr ((h, t), [], n)"

text \<open>\<open>to_tensor\<close> of a value, the result as an entry again.\<close>

definition gen_int1 :: "genv \<Rightarrow> nat \<Rightarrow> ty \<Rightarrow> nat \<Rightarrow> (nat \<times> code \<times> nat) result" where
  "gen_int1 G h t n =
     (if t = Dt Int1 then Inr (h, [], n)
      else bind_r (op_type G To_int1 [ATensor t]) (\<lambda>t1. Inr (n, [IOp n t1 To_int1 [OVal h]], Suc n)))"

definition reverse_method :: "string \<Rightarrow> string" where
  "reverse_method m =
     (if 4 \<le> length m \<and> take 2 m = ''__'' \<and> drop (length m - 2) m = ''__'' then ''__r'' @ drop 2 m else m)"

fun gen_binary :: "genv \<Rightarrow> string \<Rightarrow> entry \<Rightarrow> entry \<Rightarrow> nat \<Rightarrow> (entry \<times> code \<times> nat) result" where
  "gen_binary G m (ETensor h t) b n = gen_op G (Method m) [ETensor h t, b] n"
| "gen_binary G m (EConst a) (ETensor h t) n = gen_op G (Method (reverse_method m)) [ETensor h t, EConst a] n"
| "gen_binary G m (EConst a) (EConst b) n = bind_r (constexpr_method G m a b) (\<lambda>c. Inr (EConst c, [], n))"

fun gen_unary :: "genv \<Rightarrow> string \<Rightarrow> entry \<Rightarrow> nat \<Rightarrow> (entry \<times> code \<times> nat) result" where
  "gen_unary G m (ETensor h t) n = gen_op G (Method m) [ETensor h t] n"
| "gen_unary G m (EConst a) n = bind_r (constexpr_unary G m a) (\<lambda>c. Inr (EConst c, [], n))"

definition gen_name :: "genv \<Rightarrow> scope \<Rightarrow> string \<Rightarrow> entry result" where
  "gen_name G sc x =
     (case map_of sc x of Some e \<Rightarrow> Inr e
      | None \<Rightarrow> (case globals G x of Some c \<Rightarrow> Inr (EConst c) | None \<Rightarrow> Inl NameError))"

definition gen_call :: "genv \<Rightarrow> string \<Rightarrow> entry list \<Rightarrow> nat \<Rightarrow> ((nat \<times> ty) option \<times> code \<times> nat) result" where
  "gen_call G f es n =
     bind_r (call_type G f (map aty_of es)) (\<lambda>r.
     Inr (case r of None \<Rightarrow> (None, [ICall None f (map operand_of es)], n)
          | Some t \<Rightarrow> (Some (n, t), [ICall (Some (n, t)) f (map operand_of es)], Suc n)))"

fun gen_expr :: "genv \<Rightarrow> scope \<Rightarrow> expr \<Rightarrow> nat \<Rightarrow> (entry \<times> code \<times> nat) result"
  and gen_exprs :: "genv \<Rightarrow> scope \<Rightarrow> expr list \<Rightarrow> nat \<Rightarrow> (entry list \<times> code \<times> nat) result" where
  "gen_expr G sc (Num c) n = Inr (EConst c, [], n)"
| "gen_expr G sc (Name x) n = bind_r (gen_name G sc x) (\<lambda>e. Inr (e, [], n))"
| "gen_expr G sc (BinOp m l r) n =
     bind_r (gen_expr G sc l n) (\<lambda>(a, c1, n). bind_r (gen_expr G sc r n) (\<lambda>(b, c2, n).
     bind_r (gen_binary G m a b n) (\<lambda>(e, c3, n). Inr (e, c1 @ c2 @ c3, n))))"
| "gen_expr G sc (UnaryOp m x) n =
     bind_r (gen_expr G sc x n) (\<lambda>(a, c1, n).
     bind_r (gen_unary G m a n) (\<lambda>(e, c2, n). Inr (e, c1 @ c2, n)))"
| "gen_expr G sc (IfExp test body orelse) n =
     bind_r (gen_expr G sc test n) (\<lambda>(c, c0, n).
     case c of
       EConst k \<Rightarrow> bind_r (static_condition k) (\<lambda>b.
         bind_r (if b then gen_expr G sc body n else gen_expr G sc orelse n) (\<lambda>(e, c1, n). Inr (e, c0 @ c1, n)))
     | ETensor h t \<Rightarrow>
         bind_r (gen_int1 G h t n) (\<lambda>(h, ci, n).
         bind_r (gen_expr G sc body n) (\<lambda>(a, c1, n). bind_r (gen_tensor a n) (\<lambda>((ha, ta), c1', n).
         bind_r (gen_expr G sc orelse n) (\<lambda>(b, c2, n). bind_r (gen_tensor b n) (\<lambda>((hb, tb), c2', n).
         bind_r (check_r (ta = tb) AssertionError) (\<lambda>_.
         Inr (ETensor n ta, c0 @ ci @ [IIf [(n, ta)] h (c1 @ c1') [ha] (c2 @ c2') [hb]], Suc n))))))))"
| "gen_expr G sc (Call f args) n =
     bind_r (gen_exprs G sc args n) (\<lambda>(es, c1, n). bind_r (gen_call G f es n) (\<lambda>(r, c2, n).
     case r of None \<Rightarrow> Inl OtherException | Some (h, t) \<Rightarrow> Inr (ETensor h t, c1 @ c2, n)))"
| "gen_exprs G sc [] n = Inr ([], [], n)"
| "gen_exprs G sc (e # es) n =
     bind_r (gen_expr G sc e n) (\<lambda>(a, c1, n). bind_r (gen_exprs G sc es n) (\<lambda>(as, c2, n).
     Inr (a # as, c1 @ c2, n)))"

section \<open>Statements\<close>

text \<open>The state of the generator: \<open>lscope\<close>, \<open>local_defs\<close> and the next free handle.\<close>

type_synonym gstate = "scope \<times> scope \<times> nat"

definition set_value :: "string \<Rightarrow> entry \<Rightarrow> scope \<times> scope \<Rightarrow> scope \<times> scope" where
  "set_value x e = (\<lambda>(sc, defs). (AList.update x e sc, AList.update x e defs))"

definition names_of :: "scope \<Rightarrow> string list" where
  "names_of sc = map fst sc"

definition in_scope :: "string \<Rightarrow> scope \<Rightarrow> bool" where
  "in_scope x sc \<longleftrightarrow> x \<in> set (names_of sc)"

fun tensor_of :: "entry \<Rightarrow> (nat \<times> ty) result" where
  "tensor_of (ETensor h t) = Inr (h, t)"
| "tensor_of (EConst c) = Inl AttributeError"

definition lookup_tensor :: "scope \<Rightarrow> string \<Rightarrow> (nat \<times> ty) result" where
  "lookup_tensor sc x = (case map_of sc x of None \<Rightarrow> Inl KeyError | Some e \<Rightarrow> tensor_of e)"

text \<open>Fresh handles for a list of types, and the names bound to them.\<close>

definition fresh_args :: "nat \<Rightarrow> ty list \<Rightarrow> (nat \<times> ty) list" where
  "fresh_args n ts = zip [n..<n + length ts] ts"

definition bind_names :: "string list \<Rightarrow> (nat \<times> ty) list \<Rightarrow> scope \<times> scope \<Rightarrow> scope \<times> scope" where
  "bind_names names args = fold (\<lambda>(x, (h, t)). set_value x (ETensor h t)) (zip names args)"

text \<open>The names a conditional merges: those in scope that a branch defines again, of the type they have, and
  the sorted ones that both branches define.\<close>

definition redefined_ok :: "scope \<Rightarrow> scope \<Rightarrow> string \<Rightarrow> unit result" where
  "redefined_ok liveins defs x =
     (if in_scope x defs then
        bind_r (lookup_tensor defs x) (\<lambda>(h, t). bind_r (lookup_tensor liveins x) (\<lambda>(h', t').
        check_r (t = t') AssertionError))
      else Inr ())"

definition same_type :: "scope \<Rightarrow> scope \<Rightarrow> string \<Rightarrow> unit result" where
  "same_type then_defs else_defs x =
     bind_r (lookup_tensor then_defs x) (\<lambda>(h, t). bind_r (lookup_tensor else_defs x) (\<lambda>(h', t').
     check_r (t = t') AssertionError))"

definition merged_names :: "scope \<Rightarrow> scope \<Rightarrow> scope \<Rightarrow> string list result" where
  "merged_names liveins then_defs else_defs =
     (let names = filter (\<lambda>x. in_scope x then_defs \<or> in_scope x else_defs) (names_of liveins);
          common = sort_names (filter (\<lambda>x. in_scope x else_defs \<and> x \<notin> set names) (names_of then_defs))
      in bind_r (map_r (\<lambda>x. bind_r (redefined_ok liveins then_defs x) (\<lambda>_. redefined_ok liveins else_defs x)) names) (\<lambda>_.
         bind_r (map_r (same_type then_defs else_defs) common) (\<lambda>_. Inr (names @ common))))"

text \<open>The value a branch yields for a name: its own definition, or the one live into the conditional.\<close>

definition branch_value :: "scope \<Rightarrow> scope \<Rightarrow> string \<Rightarrow> (nat \<times> ty) result" where
  "branch_value liveins defs x = (if in_scope x defs then lookup_tensor defs x else lookup_tensor liveins x)"

text \<open>The names a loop carries, in the order of their definition in the body.\<close>

definition carried_names :: "scope \<Rightarrow> scope \<Rightarrow> string list" where
  "carried_names liveins defs = filter (\<lambda>x. in_scope x liveins) (names_of defs)"

definition verify_loop_carried_variable :: "scope \<Rightarrow> scope \<Rightarrow> string \<Rightarrow> (nat \<times> ty) result" where
  "verify_loop_carried_variable liveins defs x =
     (case (lookup_tensor defs x, lookup_tensor liveins x) of
        (Inr (h, t), Inr (h', t')) \<Rightarrow> bind_r (check_r (t = t') AssertionError) (\<lambda>_. Inr (h', t'))
      | _ \<Rightarrow> Inl AssertionError)"

text \<open>\<open>range\<close>: with one argument the bound is visited a second time.\<close>

definition range_bounds ::
  "genv \<Rightarrow> scope \<Rightarrow> range_class \<Rightarrow> expr list \<Rightarrow> entry list \<Rightarrow> nat \<Rightarrow> ((entry \<times> entry \<times> entry) \<times> code \<times> nat) result" where
  "range_bounds G sc cls args es n =
     (let zero = EConst (NInt 0); one = EConst (NInt 1); step = (if length es > 2 then es ! 2 else one) in
      if args = [] then Inl (if cls = Py_range then IndexError else TypeError)
      else if length es > 1 then Inr ((es ! 0, es ! 1, step), [], n)
      else if cls = Tl_range then Inr ((zero, es ! 0, one), [], n)
      else bind_r (gen_expr G sc (hd args) n) (\<lambda>(ub, c, n). Inr ((zero, ub, one), c, n)))"

definition negative_step :: "entry \<Rightarrow> bool" where
  "negative_step step = (case step of EConst (NInt k) \<Rightarrow> k < 0 | _ \<Rightarrow> False)"

fun negate_step :: "entry \<Rightarrow> entry" where
  "negate_step (EConst (NInt k)) = EConst (NInt (- k))"
| "negate_step e = e"

text \<open>Python's \<open>range\<close>, and the values of a \<open>static_range\<close>, whose arguments must be constants.\<close>

definition py_range :: "int \<Rightarrow> int \<Rightarrow> int \<Rightarrow> int list" where
  "py_range start stop step =
     (if step > 0 then map (\<lambda>k. start + int k * step) [0..<nat ((stop - start + step - 1) div step)]
      else map (\<lambda>k. start + int k * step) [0..<nat ((start - stop - step - 1) div (- step))])"

fun constant_of :: "entry \<Rightarrow> int result" where
  "constant_of (EConst (NInt k)) = Inr k"
| "constant_of (EConst (NBool b)) = Inr (of_bool b)"
| "constant_of (EConst (NFloat x)) = Inl TypeError"
| "constant_of (ETensor h t) = Inl AssertionError"

definition static_range :: "entry list \<Rightarrow> int list result" where
  "static_range es =
     bind_r (check_r (es \<noteq> [] \<and> length es \<le> 3) TypeError) (\<lambda>_.
     bind_r (map_r constant_of es) (\<lambda>ks.
     let step = (if length ks > 2 then ks ! 2 else 1) in
     bind_r (check_r (step \<noteq> 0) ValueError) (\<lambda>_.
     Inr (if length ks > 1 then py_range (ks ! 0) (ks ! 1) step else py_range 0 (ks ! 0) step))))"

text \<open>A loop unrolled by the generator.\<close>

fun gen_each :: "(int \<Rightarrow> gstate \<Rightarrow> (code \<times> gstate) result) \<Rightarrow> int list \<Rightarrow> gstate \<Rightarrow> (code \<times> gstate) result" where
  "gen_each f [] st = Inr ([], st)"
| "gen_each f (k # ks) st =
     bind_r (f k st) (\<lambda>(c1, st). bind_r (gen_each f ks st) (\<lambda>(c2, st). Inr (c1 @ c2, st)))"

text \<open>The bounds of a loop as integers of one type; \<open>iv_type\<close> is the promoted one.\<close>

definition is_int_entry :: "ty \<Rightarrow> bool" where
  "is_int_entry t = is_int (scalar t)"

definition loop_type :: "ty \<Rightarrow> ty \<Rightarrow> ty \<Rightarrow> (ty \<times> bool) result" where
  "loop_type lb ub step =
     bind_r (check_r (is_int_entry lb \<and> is_int_entry ub \<and> is_int_entry step) TypeError) (\<lambda>_.
     bind_r (integer_promote_impl (scalar lb) (scalar ub)) (\<lambda>t.
     bind_r (integer_promote_impl t (scalar step)) (\<lambda>t.
     bind_r (int_signedness t) (\<lambda>sg. Inr (t, sg = SIGNED)))))"

definition loop_bounds ::
  "(nat \<times> ty) \<Rightarrow> (nat \<times> ty) \<Rightarrow> (nat \<times> ty) \<Rightarrow> nat \<Rightarrow> (ty \<times> (nat \<times> nat \<times> nat) \<times> code \<times> nat) result" where
  "loop_bounds lb ub step n =
     bind_r (loop_type (snd lb) (snd ub) (snd step)) (\<lambda>(t, is_signed).
     let cast = Int_cast t is_signed in
     Inr (t, (n, n + 1, n + 2),
       [IOp n t cast [OVal (fst lb)], IOp (n + 1) t cast [OVal (fst ub)], IOp (n + 2) t cast [OVal (fst step)]], n + 3))"

text \<open>The induction variable the body sees: the one of the loop, or with a negative step its mirror image.\<close>

definition loop_variable :: "bool \<Rightarrow> ty \<Rightarrow> nat \<Rightarrow> nat \<Rightarrow> nat \<Rightarrow> nat \<Rightarrow> nat \<times> code \<times> nat" where
  "loop_variable negative t lb ub iv n =
     (if negative then (n + 1, [IOp n t Sub_int [OVal ub, OVal iv], IOp (n + 1) t Add_int [OVal n, OVal lb]], n + 2)
      else (iv, [], n))"

text \<open>The visitors of compound statements take those of their bodies, which may be called more than once.\<close>

type_synonym visitor = "gstate \<Rightarrow> (code \<times> gstate) result"

definition gen_if_scf :: "visitor \<Rightarrow> visitor \<Rightarrow> nat \<Rightarrow> visitor" where
  "gen_if_scf body orelse h = (\<lambda>(sc, defs, n).
     bind_r (body (sc, [], n)) (\<lambda>(c1, _, then_defs, n).
     bind_r (orelse (sc, [], n)) (\<lambda>(c2, _, else_defs, n).
     bind_r (merged_names sc then_defs else_defs) (\<lambda>names.
     bind_r (map_r (branch_value sc then_defs) names) (\<lambda>ys.
     bind_r (map_r (branch_value sc else_defs) names) (\<lambda>zs.
     let rs = fresh_args n (map snd ys);
         (sc, defs) = bind_names names rs (sc, defs)
     in Inr ([IIf rs h c1 (map fst ys) c2 (map fst zs)], sc, defs, n + length rs)))))))"

definition gen_if :: "genv \<Rightarrow> visitor \<Rightarrow> visitor \<Rightarrow> entry \<Rightarrow> visitor" where
  "gen_if G body orelse cond = (\<lambda>(sc, defs, n).
     case cond of
       EConst k \<Rightarrow> bind_r (static_condition k) (\<lambda>b. if b then body (sc, defs, n) else orelse (sc, defs, n))
     | ETensor h t \<Rightarrow>
         bind_r (gen_int1 G h t n) (\<lambda>(h, ci, n).
         bind_r (gen_if_scf body orelse h (sc, defs, n)) (\<lambda>(c, st). Inr (ci @ c, st))))"

definition gen_while :: "genv \<Rightarrow> expr \<Rightarrow> visitor \<Rightarrow> visitor" where
  "gen_while G test body = (\<lambda>(sc, defs, n).
     bind_r (body (sc, [], n)) (\<lambda>(_, sc1, defs1, n).
     let names = carried_names sc defs1 in
     bind_r (map_r (verify_loop_carried_variable sc defs1) names) (\<lambda>inits.
     let bargs = fresh_args n (map snd inits);
         (sc1, defs1) = bind_names names bargs (sc1, defs1)
     in
     bind_r (gen_expr G sc1 test (n + length bargs)) (\<lambda>(a, cc, n).
     bind_r (tensor_of a) (\<lambda>(h, t).
     let aargs = fresh_args n (map snd inits);
         (sc1, defs1) = bind_names names aargs (sc1, defs1)
     in
     bind_r (body (sc1, defs1, n + length aargs)) (\<lambda>(cb, _, defs2, n).
     bind_r (map_r (lookup_tensor defs2) (carried_names sc defs2)) (\<lambda>ys.
     let rs = fresh_args n (map snd inits);
         (sc, defs) = bind_names names rs (sc, defs)
     in Inr ([IWhile rs (map fst inits) bargs cc h aargs cb (map fst ys)], sc, defs, n + length rs))))))))"

definition gen_for :: "genv \<Rightarrow> string \<Rightarrow> range_class \<Rightarrow> expr list \<Rightarrow> visitor \<Rightarrow> visitor" where
  "gen_for G x cls args body = (\<lambda>(sc, defs, n).
     bind_r (gen_exprs G sc args n) (\<lambda>(es, c0, n).
     bind_r (range_bounds G sc cls args es n) (\<lambda>((lb, ub, step), c1, n).
     let neg = negative_step step;
         (lb, ub, step) = (if neg then (ub, lb, negate_step step) else (lb, ub, step))
     in
     bind_r (gen_tensor lb n) (\<lambda>(lb, c2, n). bind_r (gen_tensor ub n) (\<lambda>(ub, c3, n).
     bind_r (gen_tensor step n) (\<lambda>(step, c4, n).
     bind_r (loop_bounds lb ub step n) (\<lambda>(t, (lb, ub, step), c5, n).
     let (sc, defs) = set_value x (ETensor n t) (sc, defs);
         poison = IPoison n t
     in
     bind_r (body (sc, [], Suc n)) (\<lambda>(_, _, defs1, n).
     let names = carried_names sc defs1 in
     bind_r (map_r (verify_loop_carried_variable sc defs1) names) (\<lambda>inits.
     let iv = n;
         largs = fresh_args (Suc n) (map snd inits);
         (sc1, defs1) = bind_names names largs (sc, [])
     in
     bind_r (body (sc1, defs1, Suc n + length largs)) (\<lambda>(cb, sc2, defs2, n).
     bind_r (map_r (lookup_tensor defs2) (carried_names sc defs2)) (\<lambda>ys.
     let (iv', cv, n) = loop_variable neg t lb ub iv n in
     bind_r (lookup_tensor sc2 x) (\<lambda>(h, _).
     let rs = fresh_args n (map snd ys);
         (sc, defs) = bind_names names rs (sc, defs)
     in Inr (c0 @ c1 @ c2 @ c3 @ c4 @ c5 @
          [poison, IFor rs iv t lb ub step (map fst inits) largs
             (map (replace_uses h iv') (cv @ cb)) (map (rename h iv') (map fst ys))],
          sc, defs, n + length rs)))))))))))))"

definition gen_static_for :: "genv \<Rightarrow> string \<Rightarrow> expr list \<Rightarrow> visitor \<Rightarrow> visitor" where
  "gen_static_for G x args body = (\<lambda>(sc, defs, n).
     bind_r (gen_exprs G sc args n) (\<lambda>(es, c0, n).
     bind_r (static_range es) (\<lambda>ks.
     bind_r (gen_each (\<lambda>k (sc, defs, n). body (AList.update x (EConst (NInt k)) sc, defs, n)) ks (sc, defs, n))
       (\<lambda>(c1, st). Inr (c0 @ c1, st)))))"

definition gen_assign :: "genv \<Rightarrow> string \<Rightarrow> expr \<Rightarrow> visitor" where
  "gen_assign G x e = (\<lambda>(sc, defs, n).
     bind_r (gen_expr G sc e n) (\<lambda>(a, c1, n). bind_r (gen_tensor a n) (\<lambda>((h, t), c2, n).
     let (sc, defs) = set_value x (ETensor h t) (sc, defs) in Inr (c1 @ c2, sc, defs, n))))"

definition gen_annotate :: "genv \<Rightarrow> string \<Rightarrow> expr \<Rightarrow> visitor" where
  "gen_annotate G x e = (\<lambda>(sc, defs, n).
     bind_r (gen_expr G sc e n) (\<lambda>(a, c1, n).
     bind_r (check_r (\<not> in_scope x sc) ValueError) (\<lambda>_.
     case a of EConst c \<Rightarrow> Inr (c1, AList.update x (EConst c) sc, defs, n) | ETensor h t \<Rightarrow> Inl OtherException)))"

fun gen_stmt :: "genv \<Rightarrow> stmt \<Rightarrow> gstate \<Rightarrow> (code \<times> gstate) result"
  and gen_stmts :: "genv \<Rightarrow> stmt list \<Rightarrow> gstate \<Rightarrow> (code \<times> gstate) result" where
  "gen_stmt G (Assign x e) st = gen_assign G x e st"
| "gen_stmt G (Annotate x e) st = gen_annotate G x e st"
| "gen_stmt G (Effect f args) (sc, defs, n) =
     bind_r (gen_exprs G sc args n) (\<lambda>(es, c1, n). bind_r (gen_call G f es n) (\<lambda>(r, c2, n).
     Inr (c1 @ c2, sc, defs, n)))"
| "gen_stmt G (IfStmt test body orelse) (sc, defs, n) =
     bind_r (gen_expr G sc test n) (\<lambda>(cond, c0, n).
     bind_r (gen_if G (\<lambda>st. gen_stmts G body st) (\<lambda>st. gen_stmts G orelse st) cond (sc, defs, n)) (\<lambda>(c, st).
     Inr (c0 @ c, st)))"
| "gen_stmt G (WhileStmt test body) st = gen_while G test (\<lambda>st. gen_stmts G body st) st"
| "gen_stmt G (ForStmt x cls args body) st = gen_for G x cls args (\<lambda>st. gen_stmts G body st) st"
| "gen_stmt G (StaticFor x args body) st = gen_static_for G x args (\<lambda>st. gen_stmts G body st) st"
| "gen_stmts G [] st = Inr ([], st)"
| "gen_stmts G (s # ss) st =
     bind_r (gen_stmt G s st) (\<lambda>(c1, st). bind_r (gen_stmts G ss st) (\<lambda>(c2, st). Inr (c1 @ c2, st)))"

section \<open>Kernels\<close>

text \<open>A parameter is a constant the kernel is specialised for, or an argument of the function; every argument has a
  handle.  Default values of parameters are left out.\<close>

datatype param = Const_param number | Arg_param ty

fun param_values :: "nat \<Rightarrow> (string \<times> param) list \<Rightarrow> scope" where
  "param_values h [] = []"
| "param_values h ((x, Const_param c) # ps) = (x, EConst c) # param_values h ps"
| "param_values h ((x, Arg_param t) # ps) = (x, ETensor h t) # param_values (Suc h) ps"

fun param_args :: "nat \<Rightarrow> (string \<times> param) list \<Rightarrow> (nat \<times> ty) list" where
  "param_args h [] = []"
| "param_args h ((x, Const_param c) # ps) = param_args h ps"
| "param_args h ((x, Arg_param t) # ps) = (h, t) # param_args (Suc h) ps"

definition gen_kernel :: "genv \<Rightarrow> (string \<times> param) list \<Rightarrow> stmt list \<Rightarrow> ((nat \<times> ty) list \<times> code) result" where
  "gen_kernel G ps body =
     (let (sc, defs) = fold (\<lambda>(x, e). set_value x e) (param_values 0 ps) ([], []);
          args = param_args 0 ps
      in bind_r (gen_stmts G body (sc, defs, length args)) (\<lambda>(c, st). Inr (args, c)))"

end
