(* ===== verification/Codegen_Semantics.thy ===== *)
theory Codegen_Semantics
  imports Codegen "HOL-Library.FuncSet"
begin

text \<open>
  What a kernel means, and what the generated code means.

  The source is given by an interpreter of the abstract syntax over a store of variables and a memory.  It is
  staged as the language is: a value is a constant or a tensor, and operators on constants are computed at
  once.  A variable that a loop body is the first to assign lives for one iteration, and the variable of a loop
  is undefined after it, which is where the language differs from Python; reading an undefined variable has no
  meaning.  The code is interpreted over an assignment of values to handles.  \<open>while\<close> loops run with fuel, the
  same for both.
\<close>

section \<open>Machines\<close>

text \<open>The tensors of type \<open>'v\<close> and the memories of type \<open>'m\<close> the operations work on.\<close>

datatype 'v oval = VConst number | VVal 'v

record ('v, 'm) machine =
  op_sem :: "opname \<Rightarrow> 'v oval list \<Rightarrow> 'v option"
  call_sem :: "string \<Rightarrow> 'v oval list \<Rightarrow> 'm \<Rightarrow> ('v \<times> 'm) option"
  truth :: "'v \<Rightarrow> bool"
  int_of_val :: "'v \<Rightarrow> int"
  int_val :: "ty \<Rightarrow> int \<Rightarrow> 'v"
  poison_val :: 'v

text \<open>Loops of both languages.\<close>

fun iterate :: "nat \<Rightarrow> ('s \<Rightarrow> (bool \<times> 's) option) \<Rightarrow> ('s \<Rightarrow> 's option) \<Rightarrow> 's \<Rightarrow> 's option" where
  "iterate 0 test body s = None"
| "iterate (Suc fuel) test body s =
     Option.bind (test s) (\<lambda>(b, s). if b then Option.bind (body s) (iterate fuel test body) else Some s)"

fun for_each :: "(int \<Rightarrow> 's \<Rightarrow> 's option) \<Rightarrow> int list \<Rightarrow> 's \<Rightarrow> 's option" where
  "for_each body [] s = Some s"
| "for_each body (k # ks) s = Option.bind (body k s) (for_each body ks)"

definition guard :: "bool \<Rightarrow> unit option" where
  "guard b = (if b then Some () else None)"

section \<open>Source\<close>

datatype 'v sval = SConst number | STensor 'v ty

type_synonym 'v vars = "string \<Rightarrow> 'v sval option"

fun saty :: "'v sval \<Rightarrow> aty" where
  "saty (SConst c) = AConst c"
| "saty (STensor v t) = ATensor t"

fun soval :: "'v sval \<Rightarrow> 'v oval" where
  "soval (SConst c) = VConst c"
| "soval (STensor v t) = VVal v"

fun result_option :: "'a result \<Rightarrow> 'a option" where
  "result_option (Inl e) = None"
| "result_option (Inr x) = Some x"

definition eval_op :: "genv \<Rightarrow> ('v, 'm) machine \<Rightarrow> opname \<Rightarrow> 'v sval list \<Rightarrow> 'v sval option" where
  "eval_op G M p vs =
     Option.bind (result_option (op_type G p (map saty vs))) (\<lambda>t.
     Option.bind (op_sem M p (map soval vs)) (\<lambda>v. Some (STensor v t)))"

fun eval_tensor :: "('v, 'm) machine \<Rightarrow> 'v sval \<Rightarrow> ('v \<times> ty) option" where
  "eval_tensor M (SConst c) =
     Option.bind (result_option (constant_type c)) (\<lambda>t. Option.bind (op_sem M (Const_op c) []) (\<lambda>v. Some (v, t)))"
| "eval_tensor M (STensor v t) = Some (v, t)"

definition eval_int1 :: "('v, 'm) machine \<Rightarrow> 'v \<Rightarrow> ty \<Rightarrow> 'v option" where
  "eval_int1 M v t = (if t = Dt Int1 then Some v else op_sem M To_int1 [VVal v])"

fun eval_binary :: "genv \<Rightarrow> ('v, 'm) machine \<Rightarrow> string \<Rightarrow> 'v sval \<Rightarrow> 'v sval \<Rightarrow> 'v sval option" where
  "eval_binary G M m (STensor v t) b = eval_op G M (Method m) [STensor v t, b]"
| "eval_binary G M m (SConst a) (STensor v t) = eval_op G M (Method (reverse_method m)) [STensor v t, SConst a]"
| "eval_binary G M m (SConst a) (SConst b) = map_option SConst (result_option (constexpr_method G m a b))"

fun eval_unary :: "genv \<Rightarrow> ('v, 'm) machine \<Rightarrow> string \<Rightarrow> 'v sval \<Rightarrow> 'v sval option" where
  "eval_unary G M m (STensor v t) = eval_op G M (Method m) [STensor v t]"
| "eval_unary G M m (SConst a) = map_option SConst (result_option (constexpr_unary G m a))"

definition eval_call :: "genv \<Rightarrow> ('v, 'm) machine \<Rightarrow> string \<Rightarrow> 'v sval list \<Rightarrow> 'm \<Rightarrow> (('v \<times> ty) option \<times> 'm) option" where
  "eval_call G M f vs m =
     Option.bind (result_option (call_type G f (map saty vs))) (\<lambda>r.
     Option.bind (call_sem M f (map soval vs) m) (\<lambda>(v, m).
     Some (map_option (Pair v) r, m)))"

text \<open>A name is a variable, or a constant global.\<close>

fun eval_expr :: "genv \<Rightarrow> ('v, 'm) machine \<Rightarrow> expr \<Rightarrow> 'v vars \<times> 'm \<Rightarrow> ('v sval \<times> 'm) option"
  and eval_exprs :: "genv \<Rightarrow> ('v, 'm) machine \<Rightarrow> expr list \<Rightarrow> 'v vars \<times> 'm \<Rightarrow> ('v sval list \<times> 'm) option" where
  "eval_expr G M (Num c) (s, m) = Some (SConst c, m)"
| "eval_expr G M (Name x) (s, m) =
     (case s x of Some v \<Rightarrow> Some (v, m) | None \<Rightarrow> map_option (\<lambda>c. (SConst c, m)) (globals G x))"
| "eval_expr G M (BinOp f l r) (s, m) =
     Option.bind (eval_expr G M l (s, m)) (\<lambda>(a, m). Option.bind (eval_expr G M r (s, m)) (\<lambda>(b, m).
     map_option (\<lambda>v. (v, m)) (eval_binary G M f a b)))"
| "eval_expr G M (UnaryOp f e) (s, m) =
     Option.bind (eval_expr G M e (s, m)) (\<lambda>(a, m). map_option (\<lambda>v. (v, m)) (eval_unary G M f a))"
| "eval_expr G M (IfExp test body orelse) (s, m) =
     Option.bind (eval_expr G M test (s, m)) (\<lambda>(c, m).
     case c of
       SConst k \<Rightarrow> Option.bind (result_option (static_condition k)) (\<lambda>b.
         if b then eval_expr G M body (s, m) else eval_expr G M orelse (s, m))
     | STensor v t \<Rightarrow> Option.bind (eval_int1 M v t) (\<lambda>v.
         Option.bind (if truth M v then eval_expr G M body (s, m) else eval_expr G M orelse (s, m)) (\<lambda>(a, m).
         map_option (\<lambda>(v, t). (STensor v t, m)) (eval_tensor M a))))"
| "eval_expr G M (Call f args) (s, m) =
     Option.bind (eval_exprs G M args (s, m)) (\<lambda>(vs, m). Option.bind (eval_call G M f vs m) (\<lambda>(r, m).
     map_option (\<lambda>(v, t). (STensor v t, m)) r))"
| "eval_exprs G M [] (s, m) = Some ([], m)"
| "eval_exprs G M (e # es) (s, m) =
     Option.bind (eval_expr G M e (s, m)) (\<lambda>(v, m). Option.bind (eval_exprs G M es (s, m)) (\<lambda>(vs, m).
     Some (v # vs, m)))"

text \<open>The values a loop runs through, and their type.\<close>

fun sentry :: "'v sval \<Rightarrow> entry" where
  "sentry (SConst c) = EConst c"
| "sentry (STensor v t) = ETensor 0 t"

definition source_bounds :: "'v sval list \<Rightarrow> ('v sval \<times> 'v sval \<times> 'v sval) option" where
  "source_bounds vs =
     (if vs = [] then None
      else Some (if length vs > 1 then (vs ! 0, vs ! 1, if length vs > 2 then vs ! 2 else SConst (NInt 1))
                 else (SConst (NInt 0), vs ! 0, SConst (NInt 1))))"

fun negate_sval :: "'v sval \<Rightarrow> 'v sval" where
  "negate_sval (SConst (NInt k)) = SConst (NInt (- k))"
| "negate_sval v = v"

definition cast_int :: "('v, 'm) machine \<Rightarrow> ty \<Rightarrow> bool \<Rightarrow> 'v \<Rightarrow> 'v option" where
  "cast_int M t is_signed v = op_sem M (Int_cast t is_signed) [VVal v]"

definition eval_range :: "('v, 'm) machine \<Rightarrow> 'v sval list \<Rightarrow> (ty \<times> int list) option" where
  "eval_range M vs =
     Option.bind (source_bounds vs) (\<lambda>(start, stop, step).
     let neg = negative_step (sentry step);
         (lb, ub, step) = (if neg then (stop, start, negate_sval step) else (start, stop, step))
     in
     Option.bind (eval_tensor M lb) (\<lambda>(a, ta). Option.bind (eval_tensor M ub) (\<lambda>(b, tb).
     Option.bind (eval_tensor M step) (\<lambda>(c, tc).
     Option.bind (result_option (loop_type ta tb tc)) (\<lambda>(t, is_signed).
     Option.bind (cast_int M t is_signed a) (\<lambda>a. Option.bind (cast_int M t is_signed b) (\<lambda>b.
     Option.bind (cast_int M t is_signed c) (\<lambda>c.
     Option.bind (guard (int_of_val M c > 0)) (\<lambda>_.
     Some (t, if neg then py_range (int_of_val M b) (int_of_val M a) (- int_of_val M c)
              else py_range (int_of_val M a) (int_of_val M b) (int_of_val M c)))))))))))"

text \<open>Names that were not defined when a loop was entered do not outlive an iteration.\<close>

definition leave :: "'v vars \<Rightarrow> 'v vars \<times> 'm \<Rightarrow> 'v vars \<times> 'm" where
  "leave s0 = (\<lambda>(s, m). (\<lambda>x. if s0 x = None then None else s x, m))"

definition tensor_test :: "('v, 'm) machine \<Rightarrow> 'v vars \<Rightarrow> ('v sval \<times> 'm) option \<Rightarrow> (bool \<times> ('v vars \<times> 'm)) option" where
  "tensor_test M s r =
     Option.bind r (\<lambda>(v, m). case v of STensor v t \<Rightarrow> Some (truth M v, (s, m)) | SConst c \<Rightarrow> None)"

fun exec_stmt :: "genv \<Rightarrow> ('v, 'm) machine \<Rightarrow> nat \<Rightarrow> stmt \<Rightarrow> 'v vars \<times> 'm \<Rightarrow> ('v vars \<times> 'm) option"
  and exec_stmts :: "genv \<Rightarrow> ('v, 'm) machine \<Rightarrow> nat \<Rightarrow> stmt list \<Rightarrow> 'v vars \<times> 'm \<Rightarrow> ('v vars \<times> 'm) option" where
  "exec_stmt G M fuel (Assign x e) (s, m) =
     Option.bind (eval_expr G M e (s, m)) (\<lambda>(a, m). Option.bind (eval_tensor M a) (\<lambda>(v, t).
     Some (s(x := Some (STensor v t)), m)))"
| "exec_stmt G M fuel (Annotate x e) (s, m) =
     Option.bind (eval_expr G M e (s, m)) (\<lambda>(a, m).
     case a of SConst c \<Rightarrow> Some (s(x := Some (SConst c)), m) | STensor v t \<Rightarrow> None)"
| "exec_stmt G M fuel (Effect f args) (s, m) =
     Option.bind (eval_exprs G M args (s, m)) (\<lambda>(vs, m). Option.bind (eval_call G M f vs m) (\<lambda>(r, m). Some (s, m)))"
| "exec_stmt G M fuel (IfStmt test body orelse) (s, m) =
     Option.bind (eval_expr G M test (s, m)) (\<lambda>(c, m).
     case c of
       SConst k \<Rightarrow> Option.bind (result_option (static_condition k)) (\<lambda>b.
         if b then exec_stmts G M fuel body (s, m) else exec_stmts G M fuel orelse (s, m))
     | STensor v t \<Rightarrow> Option.bind (eval_int1 M v t) (\<lambda>v.
         if truth M v then exec_stmts G M fuel body (s, m) else exec_stmts G M fuel orelse (s, m)))"
| "exec_stmt G M fuel (WhileStmt test body) (s, m) =
     iterate fuel (\<lambda>(s', m). tensor_test M s' (eval_expr G M test (s', m)))
       (\<lambda>st. map_option (leave s) (exec_stmts G M fuel body st)) (s, m)"
| "exec_stmt G M fuel (ForStmt x cls args body) (s, m) =
     Option.bind (eval_exprs G M args (s, m)) (\<lambda>(vs, m). Option.bind (eval_range M vs) (\<lambda>(t, ks).
     let s0 = s(x := None) in
     for_each (\<lambda>k (s', m). map_option (leave s0)
       (exec_stmts G M fuel body (s'(x := Some (STensor (int_val M t k) t)), m))) ks (s0, m)))"
| "exec_stmt G M fuel (StaticFor x args body) (s, m) =
     Option.bind (eval_exprs G M args (s, m)) (\<lambda>(vs, m).
     Option.bind (result_option (static_range (map sentry vs))) (\<lambda>ks.
     map_option (\<lambda>(s, m). (s(x := None), m))
       (for_each (\<lambda>k (s', m). exec_stmts G M fuel body (s'(x := Some (SConst (NInt k))), m)) ks (s, m))))"
| "exec_stmts G M fuel [] st = Some st"
| "exec_stmts G M fuel (c # cs) st = Option.bind (exec_stmt G M fuel c st) (exec_stmts G M fuel cs)"

section \<open>Generated code\<close>

type_synonym 'v env = "nat \<Rightarrow> 'v"

definition put_values :: "(nat \<times> ty) list \<Rightarrow> 'v list \<Rightarrow> 'v env \<Rightarrow> 'v env" where
  "put_values args vs = fold (\<lambda>(a, v) env. env(fst a := v)) (zip args vs)"

fun oval_of :: "'v env \<Rightarrow> operand \<Rightarrow> 'v oval" where
  "oval_of env (OConst c) = VConst c"
| "oval_of env (OVal h) = VVal (env h)"

fun run_instr :: "('v, 'm) machine \<Rightarrow> nat \<Rightarrow> instr \<Rightarrow> 'v env \<times> 'm \<Rightarrow> ('v env \<times> 'm) option"
  and run_code :: "('v, 'm) machine \<Rightarrow> nat \<Rightarrow> code \<Rightarrow> 'v env \<times> 'm \<Rightarrow> ('v env \<times> 'm) option" where
  "run_instr M fuel (IOp n t p os) (env, m) =
     Option.bind (op_sem M p (map (oval_of env) os)) (\<lambda>v. Some (env(n := v), m))"
| "run_instr M fuel (ICall r f os) (env, m) =
     Option.bind (call_sem M f (map (oval_of env) os) m) (\<lambda>(v, m).
     Some (case r of None \<Rightarrow> env | Some (n, t) \<Rightarrow> env(n := v), m))"
| "run_instr M fuel (IPoison n t) (env, m) = Some (env(n := poison_val M), m)"
| "run_instr M fuel (IIf rs h c1 y1 c2 y2) (env, m) =
     (if truth M (env h)
      then map_option (\<lambda>(env, m). (put_values rs (map env y1) env, m)) (run_code M fuel c1 (env, m))
      else map_option (\<lambda>(env, m). (put_values rs (map env y2) env, m)) (run_code M fuel c2 (env, m)))"
| "run_instr M fuel (IWhile rs inits bargs cc h aargs cb ys) (env, m) =
     map_option (\<lambda>(vs, env, m). (put_values rs vs env, m))
       (iterate fuel
          (\<lambda>(vs, env, m). map_option (\<lambda>(env, m). (truth M (env h), (vs, env, m)))
             (run_code M fuel cc (put_values bargs vs env, m)))
          (\<lambda>(vs, env, m). map_option (\<lambda>(env, m). (map env ys, env, m))
             (run_code M fuel cb (put_values aargs vs env, m)))
          (map env inits, env, m))"
| "run_instr M fuel (IFor rs iv t lb ub st inits args cb ys) (env, m) =
     Option.bind (guard (int_of_val M (env st) > 0)) (\<lambda>_.
     map_option (\<lambda>(vs, env, m). (put_values rs vs env, m))
       (for_each
          (\<lambda>k (vs, env, m). map_option (\<lambda>(env, m). (map env ys, env, m))
             (run_code M fuel cb (put_values args vs (env(iv := int_val M t k)), m)))
          (py_range (int_of_val M (env lb)) (int_of_val M (env ub)) (int_of_val M (env st)))
          (map env inits, env, m)))"
| "run_code M fuel [] st = Some st"
| "run_code M fuel (i # is) st = Option.bind (run_instr M fuel i st) (run_code M fuel is)"

section \<open>Verification of the code\<close>

text \<open>Every value is defined before it is used, in the region of the use or around it, under a handle of its own,
  and the values yielded have the types of the results.\<close>

type_synonym types = "nat \<Rightarrow> ty option"

definition add_types :: "(nat \<times> ty) list \<Rightarrow> types \<Rightarrow> types" where
  "add_types args = fold (\<lambda>(h, t) T. T(h \<mapsto> t)) args"

definition fresh :: "types \<Rightarrow> (nat \<times> ty) list \<Rightarrow> bool" where
  "fresh T args \<longleftrightarrow> distinct (map fst args) \<and> list_all (\<lambda>(h, t). T h = None) args"

definition typed :: "types \<Rightarrow> nat list \<Rightarrow> ty list \<Rightarrow> bool" where
  "typed T hs ts \<longleftrightarrow> map T hs = map Some ts"

fun operand_defined :: "types \<Rightarrow> operand \<Rightarrow> bool" where
  "operand_defined T (OConst c) = True"
| "operand_defined T (OVal h) = (T h \<noteq> None)"

fun verify_instr :: "instr \<Rightarrow> types \<Rightarrow> types option"
  and verify_code :: "code \<Rightarrow> types \<Rightarrow> types option" where
  "verify_instr (IOp n t p os) T =
     Option.bind (guard (list_all (operand_defined T) os \<and> T n = None)) (\<lambda>_. Some (T(n \<mapsto> t)))"
| "verify_instr (ICall r f os) T =
     Option.bind (guard (list_all (operand_defined T) os)) (\<lambda>_.
     case r of None \<Rightarrow> Some T | Some (n, t) \<Rightarrow> Option.bind (guard (T n = None)) (\<lambda>_. Some (T(n \<mapsto> t))))"
| "verify_instr (IPoison n t) T = Option.bind (guard (T n = None)) (\<lambda>_. Some (T(n \<mapsto> t)))"
| "verify_instr (IIf rs h c1 y1 c2 y2) T =
     Option.bind (guard (T h \<noteq> None \<and> fresh T rs)) (\<lambda>_.
     Option.bind (verify_code c1 T) (\<lambda>T1. Option.bind (verify_code c2 T) (\<lambda>T2.
     Option.bind (guard (typed T1 y1 (map snd rs) \<and> typed T2 y2 (map snd rs))) (\<lambda>_. Some (add_types rs T)))))"
| "verify_instr (IWhile rs inits bargs cc h aargs cb ys) T =
     Option.bind (guard (typed T inits (map snd rs) \<and> map snd bargs = map snd rs \<and> map snd aargs = map snd rs \<and>
       fresh T rs \<and> fresh T bargs \<and> fresh T aargs)) (\<lambda>_.
     Option.bind (verify_code cc (add_types bargs T)) (\<lambda>T1. Option.bind (verify_code cb (add_types aargs T)) (\<lambda>T2.
     Option.bind (guard (T1 h \<noteq> None \<and> typed T2 ys (map snd rs))) (\<lambda>_. Some (add_types rs T)))))"
| "verify_instr (IFor rs iv t lb ub st inits args cb ys) T =
     Option.bind (guard (T lb = Some t \<and> T ub = Some t \<and> T st = Some t \<and> typed T inits (map snd rs) \<and>
       map snd args = map snd rs \<and> fresh T rs \<and> fresh T ((iv, t) # args))) (\<lambda>_.
     Option.bind (verify_code cb (add_types ((iv, t) # args) T)) (\<lambda>T2.
     Option.bind (guard (typed T2 ys (map snd rs))) (\<lambda>_. Some (add_types rs T))))"
| "verify_code [] T = Some T"
| "verify_code (i # is) T = Option.bind (verify_instr i T) (verify_code is)"

section \<open>Kernels\<close>

text \<open>A kernel is run for its effect on the memory.\<close>

fun param_store :: "(string \<times> param) list \<Rightarrow> 'v list \<Rightarrow> (string \<times> 'v sval) list" where
  "param_store ((x, Const_param c) # ps) vs = (x, SConst c) # param_store ps vs"
| "param_store ((x, Arg_param t) # ps) (v # vs) = (x, STensor v t) # param_store ps vs"
| "param_store ps vs = []"

definition exec_kernel ::
  "genv \<Rightarrow> ('v, 'm) machine \<Rightarrow> nat \<Rightarrow> (string \<times> param) list \<Rightarrow> stmt list \<Rightarrow> 'v list \<Rightarrow> 'm \<Rightarrow> 'm option" where
  "exec_kernel G M fuel ps body vs m = map_option snd (exec_stmts G M fuel body (map_of (param_store ps vs), m))"

definition run_generated :: "('v, 'm) machine \<Rightarrow> nat \<Rightarrow> (nat \<times> ty) list \<times> code \<Rightarrow> 'v list \<Rightarrow> 'm \<Rightarrow> 'm option" where
  "run_generated M fuel = (\<lambda>(args, c) vs m. map_option snd (run_code M fuel c (put_values args vs (\<lambda>h. poison_val M), m)))"

definition verify_kernel :: "(nat \<times> ty) list \<times> code \<Rightarrow> bool" where
  "verify_kernel = (\<lambda>(args, c). verify_code c (add_types args (\<lambda>h. None)) \<noteq> None)"

end
