(* ===== verification/Codegen_Code.thy ===== *)
theory Codegen_Code
  imports Codegen_Semantics
begin

text \<open>
  Facts on generated code: verified code leaves the values that were defined before it as they are, and replacing
  the uses of a value by another one of the same type changes nothing but where the value is read.
\<close>

declare split_paired_All [simp del] split_paired_Ex [simp del]

section \<open>Loops\<close>

lemma iterate_invariant:
  assumes "\<And>s b s'. P s \<Longrightarrow> test s = Some (b, s') \<Longrightarrow> P s'" "\<And>s s'. P s \<Longrightarrow> body s = Some s' \<Longrightarrow> P s'"
    and "P s" "iterate fuel test body s = Some s'"
  shows "P s'"
  using assms(3,4)
proof (induction fuel arbitrary: s)
  case (Suc fuel)
  then obtain b t where t: "test s = Some (b, t)" by (auto simp: bind_eq_Some_conv)
  then have "P t" using assms(1) Suc.prems(1) by blast
  show ?case
  proof (cases b)
    case True
    then obtain u where "body t = Some u" "iterate fuel test body u = Some s'" using Suc.prems(2) t by (auto simp: bind_eq_Some_conv)
    then show ?thesis using Suc.IH assms(2) \<open>P t\<close> by blast
  qed (use Suc.prems(2) t \<open>P t\<close> in auto)
qed simp

lemma for_each_invariant:
  assumes "\<And>k s s'. P s \<Longrightarrow> body k s = Some s' \<Longrightarrow> P s'" "P s" "for_each body ks s = Some s'"
  shows "P s'"
  using assms(2,3) by (induction ks arbitrary: s) (auto simp: bind_eq_Some_conv intro: assms(1))

lemma iterate_map:
  assumes "\<And>s. test1 (f s) = map_option (map_prod id f) (test2 s)" "\<And>s. body1 (f s) = map_option f (body2 s)"
  shows "iterate fuel test1 body1 (f s) = map_option f (iterate fuel test2 body2 s)"
proof (induction fuel arbitrary: s)
  case (Suc fuel)
  show ?case
  proof (cases "test2 s")
    case (Some bt)
    obtain b t where bt: "bt = (b, t)" by (cases bt)
    show ?thesis using assms Suc.IH Some bt by (cases b; cases "body2 t") (auto simp: map_option.compositionality o_def)
  qed (simp add: assms)
qed simp

lemma for_each_map:
  assumes "\<And>k s. body1 k (f s) = map_option f (body2 k s)"
  shows "for_each body1 ks (f s) = map_option f (for_each body2 ks s)"
proof (induction ks arbitrary: s)
  case (Cons k ks)
  then show ?case by (cases "body2 k s") (simp_all add: assms)
qed simp

section \<open>Values that stay\<close>

definition keeps :: "types \<Rightarrow> 'v env \<Rightarrow> 'v env \<Rightarrow> bool" where
  "keeps T env env' \<longleftrightarrow> (\<forall>h. T h \<noteq> None \<longrightarrow> env' h = env h)"

lemma keeps_refl [simp]: "keeps T env env"
  by (simp add: keeps_def)

lemma keeps_trans: "keeps T a b \<Longrightarrow> keeps T b c \<Longrightarrow> keeps T a c"
  by (simp add: keeps_def)

lemma keeps_mono: "T \<subseteq>\<^sub>m T' \<Longrightarrow> keeps T' a b \<Longrightarrow> keeps T a b"
  unfolding keeps_def map_le_def by (simp add: dom_def)

lemma keeps_update: "T n = None \<Longrightarrow> keeps T env (env(n := v))"
  by (auto simp: keeps_def)

lemma guard_eq_Some [simp]: "guard b = Some u \<longleftrightarrow> b"
  by (simp add: guard_def)

lemma guard_simps [simp]: "guard True = Some ()" "guard False = None"
  by (simp_all add: guard_def)

lemma fresh_simps [simp]:
  "fresh T []"
  "fresh T ((h, t) # args) \<longleftrightarrow> h \<notin> set (map fst args) \<and> T h = None \<and> fresh T args"
  by (auto simp: fresh_def)

lemma add_types_simps [simp]: "add_types [] T = T" "add_types ((h, t) # args) T = add_types args (T(h \<mapsto> t))"
  by (simp_all add: add_types_def)

lemma put_values_simps [simp]:
  "put_values [] vs env = env" "put_values args [] env = env"
  "put_values (a # args) (v # vs) env = put_values args vs (env(fst a := v))"
  by (simp_all add: put_values_def)

lemma add_types_other: "h \<notin> set (map fst args) \<Longrightarrow> add_types args T h = T h"
  by (induction args arbitrary: T) auto

lemma add_types_le: "fresh T args \<Longrightarrow> T \<subseteq>\<^sub>m add_types args T"
  unfolding map_le_def by (intro ballI add_types_other[symmetric]) (auto simp: fresh_def list_all_iff)

lemma put_values_other: "h \<notin> set (map fst args) \<Longrightarrow> put_values args vs env h = env h"
proof (induction args arbitrary: vs env)
  case (Cons a args)
  then show ?case by (cases vs) auto
qed simp

lemma keeps_put_values: "fresh T args \<Longrightarrow> keeps T env (put_values args vs env)"
  unfolding keeps_def by (intro allI impI put_values_other) (auto simp: fresh_def list_all_iff)

definition framed :: "('v, 'm) machine \<Rightarrow> nat \<Rightarrow> instr \<Rightarrow> bool" where
  "framed M fuel i \<longleftrightarrow> (\<forall>T T' env m env' m'. verify_instr i T = Some T' \<longrightarrow>
     T \<subseteq>\<^sub>m T' \<and> (run_instr M fuel i (env, m) = Some (env', m') \<longrightarrow> keeps T env env'))"

lemma framed_code:
  assumes "\<And>i. i \<in> set c \<Longrightarrow> framed M fuel i" "verify_code c T = Some T'"
  shows "T \<subseteq>\<^sub>m T'" "run_code M fuel c (env, m) = Some (env', m') \<Longrightarrow> keeps T env env'"
proof -
  have "T \<subseteq>\<^sub>m T' \<and> (run_code M fuel c (env, m) = Some (env', m') \<longrightarrow> keeps T env env')"
    using assms
  proof (induction c arbitrary: T env m)
    case (Cons i c)
    then obtain T1 where T1: "verify_instr i T = Some T1" "verify_code c T1 = Some T'" by (auto simp: bind_eq_Some_conv)
    have i: "T \<subseteq>\<^sub>m T1" "\<And>env1 m1. run_instr M fuel i (env, m) = Some (env1, m1) \<Longrightarrow> keeps T env env1"
      using Cons.prems(1)[of i] T1(1) unfolding framed_def by (metis list.set_intros(1))+
    have c: "T1 \<subseteq>\<^sub>m T'" "\<And>env1 m1. run_code M fuel c (env1, m1) = Some (env', m') \<Longrightarrow> keeps T1 env1 env'"
      using Cons.IH[of T1] Cons.prems(1) T1(2) by auto
    have "keeps T env env'" if "run_code M fuel (i # c) (env, m) = Some (env', m')"
    proof -
      from that obtain env1 m1 where "run_instr M fuel i (env, m) = Some (env1, m1)" "run_code M fuel c (env1, m1) = Some (env', m')"
        by (auto simp: bind_eq_Some_conv)
      then show ?thesis using i c(2) by (meson keeps_mono keeps_trans)
    qed
    then show ?case using map_le_trans[OF i(1) c(1)] by blast
  qed simp
  then show "T \<subseteq>\<^sub>m T'" "run_code M fuel c (env, m) = Some (env', m') \<Longrightarrow> keeps T env env'" by auto
qed

lemma framed_if:
  assumes "\<And>i. i \<in> set c1 \<Longrightarrow> framed M fuel i" "\<And>i. i \<in> set c2 \<Longrightarrow> framed M fuel i"
  shows "framed M fuel (IIf rs h c1 y1 c2 y2)"
  unfolding framed_def
proof (intro allI impI conjI)
  fix T T' env m env' m'
  assume v: "verify_instr (IIf rs h c1 y1 c2 y2) T = Some T'"
  then obtain T1 T2 where T: "fresh T rs" "T' = add_types rs T" "verify_code c1 T = Some T1" "verify_code c2 T = Some T2"
    by (auto simp: bind_eq_Some_conv)
  then show "T \<subseteq>\<^sub>m T'" by (simp add: add_types_le)
  assume "run_instr M fuel (IIf rs h c1 y1 c2 y2) (env, m) = Some (env', m')"
  then obtain c y e where "c \<in> {c1, c2}" "run_code M fuel c (env, m) = Some (e, m')" "env' = put_values rs (map e y) e"
    by (auto split: if_splits)
  then show "keeps T env env'"
    using framed_code(2)[OF assms(1) T(3)] framed_code(2)[OF assms(2) T(4)] keeps_put_values[OF T(1)] by (blast intro: keeps_trans)
qed

lemma framed_while:
  fixes M :: "('v, 'm) machine"
  assumes "\<And>i. i \<in> set cc \<Longrightarrow> framed M fuel i" "\<And>i. i \<in> set cb \<Longrightarrow> framed M fuel i"
  shows "framed M fuel (IWhile rs inits bargs cc h aargs cb ys)"
  unfolding framed_def
proof (intro allI impI conjI)
  fix T T' and env env' :: "'v env" and m m' :: 'm
  assume v: "verify_instr (IWhile rs inits bargs cc h aargs cb ys) T = Some T'"
  then obtain T1 T2 where T: "fresh T rs" "fresh T bargs" "fresh T aargs" "T' = add_types rs T"
      "verify_code cc (add_types bargs T) = Some T1" "verify_code cb (add_types aargs T) = Some T2"
    by (auto simp: bind_eq_Some_conv)
  then show "T \<subseteq>\<^sub>m T'" by (simp add: add_types_le)
  have region: "keeps T e0 e'" if "\<And>i. i \<in> set c \<Longrightarrow> framed M fuel i" "fresh T args" "verify_code c (add_types args T) = Some T3"
      "run_code M fuel c (put_values args vs e0, m0) = Some (e', m1)" for c args T3 vs e0 m0 e' m1
    using framed_code(2)[OF that(1,3,4)] keeps_put_values[OF that(2)] add_types_le[OF that(2)] by (blast intro: keeps_trans keeps_mono)
  let ?P = "\<lambda>(vs, e, m). keeps T env e"
  let ?test = "\<lambda>(vs, env, m). map_option (\<lambda>(env, m). (truth M (env h), (vs, env, m))) (run_code M fuel cc (put_values bargs vs env, m))"
  let ?body = "\<lambda>(vs, env, m). map_option (\<lambda>(env, m). (map env ys, env, m)) (run_code M fuel cb (put_values aargs vs env, m))"
  assume "run_instr M fuel (IWhile rs inits bargs cc h aargs cb ys) (env, m) = Some (env', m')"
  then obtain vs e where e: "iterate fuel ?test ?body (map env inits, env, m) = Some (vs, e, m')" "env' = put_values rs vs e"
    by auto
  have "?P (vs, e, m')"
  proof (rule iterate_invariant[OF _ _ _ e(1)])
    fix s b s' assume "?P s" "?test s = Some (b, s')"
    then show "?P s'" using region[OF assms(1) T(2,5)] by (cases s) (force intro: keeps_trans)
  next
    fix s s' assume "?P s" "?body s = Some s'"
    then show "?P s'" using region[OF assms(2) T(3,6)] by (cases s) (force intro: keeps_trans)
  qed simp
  then show "keeps T env env'" using e(2) keeps_put_values[OF T(1)] by (auto intro: keeps_trans)
qed

lemma framed_for:
  fixes M :: "('v, 'm) machine"
  assumes "\<And>i. i \<in> set cb \<Longrightarrow> framed M fuel i"
  shows "framed M fuel (IFor rs iv t lb ub st inits args cb ys)"
  unfolding framed_def
proof (intro allI impI conjI)
  fix T T' and env env' :: "'v env" and m m' :: 'm
  assume v: "verify_instr (IFor rs iv t lb ub st inits args cb ys) T = Some T'"
  then obtain T2 where T: "fresh T rs" "fresh T ((iv, t) # args)" "T' = add_types rs T"
      "verify_code cb (add_types ((iv, t) # args) T) = Some T2"
    by (auto simp: bind_eq_Some_conv)
  then show "T \<subseteq>\<^sub>m T'" by (simp add: add_types_le)
  let ?P = "\<lambda>(vs, e, m). keeps T env e"
  let ?body = "\<lambda>k (vs, env, m). map_option (\<lambda>(env, m). (map env ys, env, m))
    (run_code M fuel cb (put_values args vs (env(iv := int_val M t k)), m))"
  assume "run_instr M fuel (IFor rs iv t lb ub st inits args cb ys) (env, m) = Some (env', m')"
  then obtain vs e ks where e: "for_each ?body ks (map env inits, env, m) = Some (vs, e, m')" "env' = put_values rs vs e"
    by (auto simp: bind_eq_Some_conv)
  have body: "keeps T e0 e1" if "run_code M fuel cb (put_values args vs (e0(iv := v)), m0) = Some (e1, m1)" for vs e0 v m0 e1 m1
  proof -
    have "put_values args vs (e0(iv := v)) = put_values ((iv, t) # args) (v # vs) e0" by simp
    then show ?thesis using framed_code(2)[OF assms T(4)] that keeps_put_values[OF T(2)] add_types_le[OF T(2)]
      by (metis keeps_mono keeps_trans)
  qed
  have "?P (vs, e, m')"
  proof (rule for_each_invariant[OF _ _ e(1)])
    fix k s s' assume "?P s" "?body k s = Some s'"
    then show "?P s'" using body by (cases s) (force intro: keeps_trans)
  qed simp
  then show "keeps T env env'" using e(2) keeps_put_values[OF T(1)] by (auto intro: keeps_trans)
qed

lemma framed: "framed M fuel i"
proof (induction i)
  case (IOp n t p os)
  show ?case by (auto simp: framed_def bind_eq_Some_conv map_le_def intro: keeps_update)
next
  case (ICall r f os)
  show ?case
    by (cases r) (auto simp: framed_def bind_eq_Some_conv map_le_def intro: keeps_update)
next
  case (IPoison n t)
  show ?case by (auto simp: framed_def bind_eq_Some_conv map_le_def intro: keeps_update)
qed (blast intro: framed_if framed_while framed_for)+

lemmas code_extends = framed_code(1)[OF framed]
lemmas code_keeps = framed_code(2)[OF framed]

end
