(* ===== verification/Codegen_Rename.thy ===== *)
theory Codegen_Rename
  imports Codegen_Code
begin

text \<open>
  Replacing the uses of a value: the code with the uses of \<open>h\<close> replaced by \<open>iv\<close> runs as the code itself does
  when \<open>h\<close> is given the value of \<open>iv\<close>, and it verifies when the other does.
\<close>

definition redirect :: "nat \<Rightarrow> nat \<Rightarrow> 'v env \<Rightarrow> 'v env" where
  "redirect h iv env = env(h := env iv)"

lemma redirect_apply: "redirect h iv env k = env (rename h iv k)"
  by (simp add: redirect_def rename_def)

lemma map_redirect: "map (redirect h iv env) ks = map (\<lambda>k. env (rename h iv k)) ks"
  by (simp add: redirect_apply)

lemma redirect_update: "n \<noteq> h \<Longrightarrow> n \<noteq> iv \<Longrightarrow> redirect h iv (env(n := v)) = (redirect h iv env)(n := v)"
  by (auto simp: redirect_def)

lemma redirect_put_values:
  "h \<notin> set (map fst args) \<Longrightarrow> iv \<notin> set (map fst args) \<Longrightarrow>
   redirect h iv (put_values args vs env) = put_values args vs (redirect h iv env)"
proof (induction args arbitrary: vs env)
  case (Cons a args)
  then show ?case by (cases vs) (auto simp: redirect_update)
qed simp

definition same_typed :: "types \<Rightarrow> nat \<Rightarrow> nat \<Rightarrow> bool" where
  "same_typed T h iv \<longleftrightarrow> T h \<noteq> None \<and> T iv = T h"

lemma same_typed_mono: "T \<subseteq>\<^sub>m T' \<Longrightarrow> same_typed T h iv \<Longrightarrow> same_typed T' h iv"
  unfolding same_typed_def map_le_def by (metis domIff)

lemma rename_type: "same_typed T h iv \<Longrightarrow> T (rename h iv k) = T k"
  by (simp add: same_typed_def rename_def)

lemma operand_defined_rename: "same_typed T h iv \<Longrightarrow> operand_defined T (rename_operand h iv p) = operand_defined T p"
  by (cases p) (simp_all add: rename_type)

lemma operands_defined_rename:
  "same_typed T h iv \<Longrightarrow> list_all (operand_defined T) (map (rename_operand h iv) os) = list_all (operand_defined T) os"
  by (simp add: list.pred_map o_def operand_defined_rename)

lemma typed_rename: "same_typed T h iv \<Longrightarrow> typed T (map (rename h iv) ks) ts = typed T ks ts"
  by (simp add: typed_def rename_type o_def)

lemma oval_rename: "oval_of (redirect h iv env) p = oval_of env (rename_operand h iv p)"
  by (cases p) (simp_all add: redirect_apply)

lemma ovals_rename: "map (oval_of (redirect h iv env)) os = map (oval_of env) (map (rename_operand h iv) os)"
  by (simp add: oval_rename)

lemma fresh_avoids:
  assumes "fresh T args" "same_typed T h iv"
  shows "h \<notin> set (map fst args)" "iv \<notin> set (map fst args)"
  using assms by (auto simp: fresh_def same_typed_def list_all_iff)

lemma none_avoids:
  assumes "T n = None" "same_typed T h iv"
  shows "n \<noteq> h" "n \<noteq> iv"
  using assms by (auto simp: same_typed_def)

abbreviation redirect_state :: "nat \<Rightarrow> nat \<Rightarrow> 'v env \<times> 'm \<Rightarrow> 'v env \<times> 'm" where
  "redirect_state h iv \<equiv> \<lambda>(e, m). (redirect h iv e, m)"

definition renames :: "('v, 'm) machine \<Rightarrow> nat \<Rightarrow> nat \<Rightarrow> nat \<Rightarrow> instr \<Rightarrow> bool" where
  "renames M fuel h iv i \<longleftrightarrow> (\<forall>T T'. verify_instr (replace_uses h iv i) T = Some T' \<longrightarrow> same_typed T h iv \<longrightarrow>
     verify_instr i T = Some T' \<and>
     (\<forall>env m. run_instr M fuel i (redirect h iv env, m) =
        map_option (redirect_state h iv) (run_instr M fuel (replace_uses h iv i) (env, m))))"

lemma renamesI:
  assumes "\<And>T T'. verify_instr (replace_uses h iv i) T = Some T' \<Longrightarrow> same_typed T h iv \<Longrightarrow> verify_instr i T = Some T'"
    and "\<And>T T' env m. verify_instr (replace_uses h iv i) T = Some T' \<Longrightarrow> same_typed T h iv \<Longrightarrow>
      run_instr M fuel i (redirect h iv env, m) = map_option (redirect_state h iv) (run_instr M fuel (replace_uses h iv i) (env, m))"
  shows "renames M fuel h iv i"
  unfolding renames_def using assms by blast

lemma renames_code:
  assumes "\<And>i. i \<in> set c \<Longrightarrow> renames M fuel h iv i" "verify_code (map (replace_uses h iv) c) T = Some T'" "same_typed T h iv"
  shows "verify_code c T = Some T'"
    and "run_code M fuel c (redirect h iv env, m) =
      map_option (redirect_state h iv) (run_code M fuel (map (replace_uses h iv) c) (env, m))"
proof -
  have "verify_code c T = Some T' \<and> run_code M fuel c (redirect h iv env, m) =
      map_option (redirect_state h iv) (run_code M fuel (map (replace_uses h iv) c) (env, m))"
    using assms
  proof (induction c arbitrary: T env m)
    case (Cons i c)
    then obtain T1 where T1: "verify_instr (replace_uses h iv i) T = Some T1" "verify_code (map (replace_uses h iv) c) T1 = Some T'"
      by (auto simp: bind_eq_Some_conv)
    have i: "verify_instr i T = Some T1" "run_instr M fuel i (redirect h iv env, m) =
        map_option (redirect_state h iv) (run_instr M fuel (replace_uses h iv i) (env, m))"
      using Cons.prems(1)[of i] T1(1) Cons.prems(3) by (auto simp: renames_def)
    have st: "same_typed T1 h iv"
      using framed[of M fuel] T1(1) Cons.prems(3) by (auto simp: framed_def intro: same_typed_mono)
    note c = Cons.IH[OF _ T1(2) st] Cons.prems(1)
    show ?case
    proof (cases "run_instr M fuel (replace_uses h iv i) (env, m)")
      case None
      then show ?thesis using i c by simp
    next
      case (Some em)
      obtain e1 m1 where em: "em = (e1, m1)" by (cases em)
      have "verify_code c T1 = Some T' \<and> run_code M fuel c (redirect h iv e1, m1) =
        map_option (redirect_state h iv) (run_code M fuel (map (replace_uses h iv) c) (e1, m1))"
        using c by simp
      then show ?thesis using i Some em by simp
    qed
  qed simp
  then show "verify_code c T = Some T'" "run_code M fuel c (redirect h iv env, m) =
      map_option (redirect_state h iv) (run_code M fuel (map (replace_uses h iv) c) (env, m))" by auto
qed

lemma renames_op: "renames M fuel h iv (IOp n t p os)"
proof (rule renamesI)
  fix T T' assume "verify_instr (replace_uses h iv (IOp n t p os)) T = Some T'" "same_typed T h iv"
  then show "verify_instr (IOp n t p os) T = Some T'" by (simp add: operands_defined_rename del: list.pred_map)
next
  fix T T' env m assume "verify_instr (replace_uses h iv (IOp n t p os)) T = Some T'" "same_typed T h iv"
  then have "n \<noteq> h" "n \<noteq> iv" using none_avoids[of T n] by (auto simp: bind_eq_Some_conv)
  then show "run_instr M fuel (IOp n t p os) (redirect h iv env, m) =
      map_option (redirect_state h iv) (run_instr M fuel (replace_uses h iv (IOp n t p os)) (env, m))"
    by (simp add: ovals_rename[unfolded map_map] redirect_update o_def map_option_bind split: bind_splits)
qed

lemma renames_call: "renames M fuel h iv (ICall r f os)"
proof (rule renamesI)
  fix T T' assume "verify_instr (replace_uses h iv (ICall r f os)) T = Some T'" "same_typed T h iv"
  then show "verify_instr (ICall r f os) T = Some T'" by (simp add: operands_defined_rename del: list.pred_map)
next
  fix T T' env m assume v: "verify_instr (replace_uses h iv (ICall r f os)) T = Some T'" and st: "same_typed T h iv"
  have n: "n \<noteq> h \<and> n \<noteq> iv" if "r = Some (n, t)" for n t
    using none_avoids[OF _ st, of n] v that by (auto simp: bind_eq_Some_conv)
  show "run_instr M fuel (ICall r f os) (redirect h iv env, m) =
      map_option (redirect_state h iv) (run_instr M fuel (replace_uses h iv (ICall r f os)) (env, m))"
    using n by (cases r) (auto simp: ovals_rename[unfolded map_map] redirect_update o_def map_option_bind split: bind_splits)
qed

lemma renames_poison: "renames M fuel h iv (IPoison n t)"
  by (rule renamesI) (auto simp: bind_eq_Some_conv dest: none_avoids intro: redirect_update[symmetric])

lemma renames_if:
  assumes c1: "\<And>i. i \<in> set c1 \<Longrightarrow> renames M fuel h iv i" and c2: "\<And>i. i \<in> set c2 \<Longrightarrow> renames M fuel h iv i"
  shows "renames M fuel h iv (IIf rs c c1 y1 c2 y2)"
proof (rule renamesI)
  fix T T' assume v: "verify_instr (replace_uses h iv (IIf rs c c1 y1 c2 y2)) T = Some T'" and st: "same_typed T h iv"
  then obtain T1 T2 where T: "T c \<noteq> None" "fresh T rs" "verify_code (map (replace_uses h iv) c1) T = Some T1"
      "verify_code (map (replace_uses h iv) c2) T = Some T2" "typed T1 (map (rename h iv) y1) (map snd rs)"
      "typed T2 (map (rename h iv) y2) (map snd rs)" "T' = add_types rs T"
    by (auto simp: bind_eq_Some_conv rename_type)
  have "same_typed T1 h iv" "same_typed T2 h iv" using T(3,4)[THEN code_extends] st by (blast intro: same_typed_mono)+
  then show "verify_instr (IIf rs c c1 y1 c2 y2) T = Some T'"
    using T renames_code(1)[OF c1 T(3) st] renames_code(1)[OF c2 T(4) st] by (simp add: typed_rename)
next
  fix T T' env m assume v: "verify_instr (replace_uses h iv (IIf rs c c1 y1 c2 y2)) T = Some T'" and st: "same_typed T h iv"
  then obtain T1 T2 where T: "fresh T rs" "verify_code (map (replace_uses h iv) c1) T = Some T1"
      "verify_code (map (replace_uses h iv) c2) T = Some T2"
    by (auto simp: bind_eq_Some_conv)
  note rs = fresh_avoids[OF T(1) st]
  show "run_instr M fuel (IIf rs c c1 y1 c2 y2) (redirect h iv env, m) =
      map_option (redirect_state h iv) (run_instr M fuel (replace_uses h iv (IIf rs c c1 y1 c2 y2)) (env, m))"
    using rs by (simp add: renames_code(2)[OF c1 T(2) st] renames_code(2)[OF c2 T(3) st] map_option.compositionality o_def split_beta
      map_redirect redirect_apply redirect_put_values)
qed

lemma renames_while:
  fixes M :: "('v, 'm) machine"
  assumes cc: "\<And>i. i \<in> set cc \<Longrightarrow> renames M fuel h iv i" and cb: "\<And>i. i \<in> set cb \<Longrightarrow> renames M fuel h iv i"
  shows "renames M fuel h iv (IWhile rs inits bargs cc c aargs cb ys)"
proof (rule renamesI)
  fix T T' assume v: "verify_instr (replace_uses h iv (IWhile rs inits bargs cc c aargs cb ys)) T = Some T'" and st: "same_typed T h iv"
  then obtain T1 T2 where T: "typed T (map (rename h iv) inits) (map snd rs)" "map snd bargs = map snd rs" "map snd aargs = map snd rs"
      "fresh T rs" "fresh T bargs" "fresh T aargs"
      "verify_code (map (replace_uses h iv) cc) (add_types bargs T) = Some T1" "T1 (rename h iv c) \<noteq> None"
      "verify_code (map (replace_uses h iv) cb) (add_types aargs T) = Some T2" "typed T2 (map (rename h iv) ys) (map snd rs)"
      "T' = add_types rs T"
    by (auto simp: bind_eq_Some_conv)
  have sb: "same_typed (add_types bargs T) h iv" "same_typed (add_types aargs T) h iv"
    using add_types_le[OF T(5)] add_types_le[OF T(6)] st by (blast intro: same_typed_mono)+
  have "same_typed T1 h iv" "same_typed T2 h iv"
    using T(7,9)[THEN code_extends] sb by (blast intro: same_typed_mono)+
  then show "verify_instr (IWhile rs inits bargs cc c aargs cb ys) T = Some T'"
    using T st renames_code(1)[OF cc T(7) sb(1)] renames_code(1)[OF cb T(9) sb(2)] by (simp add: typed_rename rename_type)
next
  fix T T' and env :: "'v env" and m :: 'm
  assume v: "verify_instr (replace_uses h iv (IWhile rs inits bargs cc c aargs cb ys)) T = Some T'" and st: "same_typed T h iv"
  then obtain T1 T2 where T: "fresh T rs" "fresh T bargs" "fresh T aargs"
      "verify_code (map (replace_uses h iv) cc) (add_types bargs T) = Some T1"
      "verify_code (map (replace_uses h iv) cb) (add_types aargs T) = Some T2"
    by (auto simp: bind_eq_Some_conv)
  have sb: "same_typed (add_types bargs T) h iv" "same_typed (add_types aargs T) h iv"
    using add_types_le[OF T(2)] add_types_le[OF T(3)] st by (blast intro: same_typed_mono)+
  note av = fresh_avoids[OF T(1) st] fresh_avoids[OF T(2) st] fresh_avoids[OF T(3) st]
  let ?f = "\<lambda>(vs, e, m). (vs, redirect h iv e, m)"
  let ?test = "\<lambda>cc c (vs, env, m). map_option (\<lambda>(env, m). (truth M (env c), (vs, env, m))) (run_code M fuel cc (put_values bargs vs env, m))"
  let ?body = "\<lambda>cb ys (vs, env, m). map_option (\<lambda>(env, m). (map env ys, env, m)) (run_code M fuel cb (put_values aargs vs env, m))"
  have "iterate fuel (?test cc c) (?body cb ys) (?f (map env (map (rename h iv) inits), env, m)) = map_option ?f
      (iterate fuel (?test (map (replace_uses h iv) cc) (rename h iv c)) (?body (map (replace_uses h iv) cb) (map (rename h iv) ys))
        (map env (map (rename h iv) inits), env, m))"
  proof (rule iterate_map)
    fix s
    show "?test cc c (?f s) = map_option (map_prod id ?f) (?test (map (replace_uses h iv) cc) (rename h iv c) s)"
      using av by (cases s) (simp add: redirect_put_values[symmetric] renames_code(2)[OF cc T(4) sb(1)] map_option.compositionality
        o_def split_beta map_redirect redirect_apply)
    show "?body cb ys (?f s) = map_option ?f (?body (map (replace_uses h iv) cb) (map (rename h iv) ys) s)"
      using av by (cases s) (simp add: redirect_put_values[symmetric] renames_code(2)[OF cb T(5) sb(2)] map_option.compositionality
        o_def split_beta map_redirect redirect_apply)
  qed
  then show "run_instr M fuel (IWhile rs inits bargs cc c aargs cb ys) (redirect h iv env, m) =
      map_option (redirect_state h iv) (run_instr M fuel (replace_uses h iv (IWhile rs inits bargs cc c aargs cb ys)) (env, m))"
    using av by (simp add: map_option.compositionality o_def split_beta redirect_put_values map_redirect redirect_apply)
qed

lemma renames_for:
  fixes M :: "('v, 'm) machine"
  assumes cb: "\<And>i. i \<in> set cb \<Longrightarrow> renames M fuel h iv i"
  shows "renames M fuel h iv (IFor rs i t lb ub st inits args cb ys)"
proof (rule renamesI)
  fix T T' assume v: "verify_instr (replace_uses h iv (IFor rs i t lb ub st inits args cb ys)) T = Some T'" and same: "same_typed T h iv"
  then obtain T2 where T: "T lb = Some t" "T ub = Some t" "T st = Some t" "typed T (map (rename h iv) inits) (map snd rs)"
      "map snd args = map snd rs" "fresh T rs" "fresh T ((i, t) # args)"
      "verify_code (map (replace_uses h iv) cb) (add_types ((i, t) # args) T) = Some T2"
      "typed T2 (map (rename h iv) ys) (map snd rs)" "T' = add_types rs T"
    by (auto simp: bind_eq_Some_conv rename_type)
  have sb: "same_typed (add_types ((i, t) # args) T) h iv" using add_types_le[OF T(7)] same by (blast intro: same_typed_mono)
  then have "same_typed T2 h iv" using T(8)[THEN code_extends] by (blast intro: same_typed_mono)
  then show "verify_instr (IFor rs i t lb ub st inits args cb ys) T = Some T'"
    using T same renames_code(1)[OF cb T(8) sb] by (simp add: typed_rename rename_type)
next
  fix T T' and env :: "'v env" and m :: 'm
  assume v: "verify_instr (replace_uses h iv (IFor rs i t lb ub st inits args cb ys)) T = Some T'" and same: "same_typed T h iv"
  then obtain T2 where T: "fresh T rs" "fresh T ((i, t) # args)"
      "verify_code (map (replace_uses h iv) cb) (add_types ((i, t) # args) T) = Some T2"
    by (auto simp: bind_eq_Some_conv)
  have sb: "same_typed (add_types ((i, t) # args) T) h iv" using add_types_le[OF T(2)] same by (blast intro: same_typed_mono)
  note av = fresh_avoids[OF T(1) same] fresh_avoids[OF T(2) same]
  let ?f = "\<lambda>(vs, e, m). (vs, redirect h iv e, m)"
  let ?body = "\<lambda>cb ys k (vs, env, m). map_option (\<lambda>(env, m). (map env ys, env, m))
    (run_code M fuel cb (put_values args vs (env(i := int_val M t k)), m))"
  let ?ks = "py_range (int_of_val M (env (rename h iv lb))) (int_of_val M (env (rename h iv ub))) (int_of_val M (env (rename h iv st)))"
  have "for_each (?body cb ys) ?ks (?f (map env (map (rename h iv) inits), env, m)) = map_option ?f
      (for_each (?body (map (replace_uses h iv) cb) (map (rename h iv) ys)) ?ks (map env (map (rename h iv) inits), env, m))"
  proof (rule for_each_map)
    fix k s
    show "?body cb ys k (?f s) = map_option ?f (?body (map (replace_uses h iv) cb) (map (rename h iv) ys) k s)"
      using av by (cases s) (simp add: redirect_update[symmetric] redirect_put_values[symmetric] renames_code(2)[OF cb T(3) sb]
        map_option.compositionality o_def split_beta map_redirect redirect_apply)
  qed
  then show "run_instr M fuel (IFor rs i t lb ub st inits args cb ys) (redirect h iv env, m) =
      map_option (redirect_state h iv) (run_instr M fuel (replace_uses h iv (IFor rs i t lb ub st inits args cb ys)) (env, m))"
    using av by (simp add: guard_def map_option.compositionality o_def split_beta redirect_put_values map_redirect redirect_apply)
qed

lemma renames: "renames M fuel h iv i"
  by (induction i) (blast intro: renames_op renames_call renames_poison renames_if renames_while renames_for)+

lemmas replace_uses_verifies = renames_code(1)[OF renames]
lemmas replace_uses_runs = renames_code(2)[OF renames]

end
