(* ===== verification/Codegen_Scopes.thy ===== *)
theory Codegen_Scopes
  imports Codegen_Rename
begin

text \<open>
  The scopes of the generator: what each visitor leaves in \<open>lscope\<close> and \<open>local_defs\<close>.  Names are only added; the
  definitions of a region are the names assigned in it, with the entries they have in the scope; everything
  else in the scope is as it was.
\<close>

section \<open>Inversion of the visitors\<close>

lemma gen_assignE:
  assumes "gen_stmt G (Assign x e) (sc, d, n) = Inr (c, st)"
  obtains a c1 n1 h t c2 n2 where "gen_expr G sc e n = Inr (a, c1, n1)" "gen_tensor a n1 = Inr ((h, t), c2, n2)"
    "c = c1 @ c2" "st = (AList.update x (ETensor h t) sc, AList.update x (ETensor h t) d, n2)"
  using assms by (auto simp: gen_assign_def bind_r_eq_Inr_iff set_value_def Let_def split: prod.splits)

lemma gen_annotateE:
  assumes "gen_stmt G (Annotate x e) (sc, d, n) = Inr (c, st)"
  obtains k n1 where "gen_expr G sc e n = Inr (EConst k, c, n1)" "\<not> in_scope x sc" "st = (AList.update x (EConst k) sc, d, n1)"
  using assms by (auto simp: gen_annotate_def bind_r_eq_Inr_iff split: entry.split_asm)

lemma gen_effectE:
  assumes "gen_stmt G (Effect f args) (sc, d, n) = Inr (c, st)"
  obtains es c1 n1 r c2 n2 where "gen_exprs G sc args n = Inr (es, c1, n1)" "gen_call G f es n1 = Inr (r, c2, n2)"
    "c = c1 @ c2" "st = (sc, d, n2)"
  using assms by (auto simp: bind_r_eq_Inr_iff split: prod.splits)

lemma gen_if_scfE:
  assumes "gen_if_scf f g h (sc, d, n1) = Inr (c, st)"
  obtains c1 sc1 d1 n2 c2 sc2 d2 n3 names ys zs rs where "f (sc, [], n1) = Inr (c1, sc1, d1, n2)"
      "g (sc, [], n2) = Inr (c2, sc2, d2, n3)" "merged_names sc d1 d2 = Inr names"
      "map_r (branch_value sc d1) names = Inr ys" "map_r (branch_value sc d2) names = Inr zs" "rs = fresh_args n3 (map snd ys)"
      "c = [IIf rs h c1 (map fst ys) c2 (map fst zs)]"
      "st = (fst (bind_names names rs (sc, d)), snd (bind_names names rs (sc, d)), n3 + length rs)"
  using assms by (auto simp: gen_if_scf_def bind_r_eq_Inr_iff Let_def split_beta)

lemma gen_ifE:
  assumes "gen_stmt G (IfStmt test body orelse) (sc, d, n) = Inr (c, st)"
  obtains (static) k c0 n0 b c1 where "gen_expr G sc test n = Inr (EConst k, c0, n0)" "static_condition k = Inr b"
      "gen_stmts G (if b then body else orelse) (sc, d, n0) = Inr (c1, st)" "c = c0 @ c1"
  | (dynamic) h0 t0 c0 n0 h ci n1 c1 sc1 d1 n2 c2 sc2 d2 n3 names ys zs rs where "gen_expr G sc test n = Inr (ETensor h0 t0, c0, n0)"
      "gen_int1 G h0 t0 n0 = Inr (h, ci, n1)" "gen_stmts G body (sc, [], n1) = Inr (c1, sc1, d1, n2)"
      "gen_stmts G orelse (sc, [], n2) = Inr (c2, sc2, d2, n3)" "merged_names sc d1 d2 = Inr names"
      "map_r (branch_value sc d1) names = Inr ys" "map_r (branch_value sc d2) names = Inr zs" "rs = fresh_args n3 (map snd ys)"
      "c = c0 @ ci @ [IIf rs h c1 (map fst ys) c2 (map fst zs)]"
      "st = (fst (bind_names names rs (sc, d)), snd (bind_names names rs (sc, d)), n3 + length rs)"
proof -
  from assms obtain a c0 n0 c' where a: "gen_expr G sc test n = Inr (a, c0, n0)" and c: "c = c0 @ c'"
    and b: "gen_if G (gen_stmts G body) (gen_stmts G orelse) a (sc, d, n0) = Inr (c', st)"
    by (auto simp: bind_r_eq_Inr_iff)
  show thesis
  proof (cases a)
    case (EConst k)
    then show thesis using a b c by (auto simp: gen_if_def bind_r_eq_Inr_iff split: if_splits intro!: static)
  next
    case (ETensor h0 t0)
    with b obtain h ci n1 c2 where i: "gen_int1 G h0 t0 n0 = Inr (h, ci, n1)" and c2: "c' = ci @ c2"
      and s: "gen_if_scf (gen_stmts G body) (gen_stmts G orelse) h (sc, d, n1) = Inr (c2, st)"
      by (auto simp: gen_if_def bind_r_eq_Inr_iff)
    from s show thesis
      by (elim gen_if_scfE) (rule dynamic, auto simp: a ETensor i c c2)
  qed
qed

lemma gen_whileE:
  assumes "gen_stmt G (WhileStmt test body) (sc, d, n) = Inr (c, st)"
  obtains c1 sc1 d1 n1 names inits ts bargs cc n2 h t aargs cb sc3 d3 n3 ys rs where
    "gen_stmts G body (sc, [], n) = Inr (c1, sc1, d1, n1)" "names = carried_names sc d1"
    "map_r (verify_loop_carried_variable sc d1) names = Inr inits" "ts = map snd inits" "bargs = fresh_args n1 ts"
    "gen_expr G (fst (bind_names names bargs (sc1, d1))) test (n1 + length bargs) = Inr (ETensor h t, cc, n2)"
    "aargs = fresh_args n2 ts"
    "gen_stmts G body (fst (bind_names names aargs (bind_names names bargs (sc1, d1))),
       snd (bind_names names aargs (bind_names names bargs (sc1, d1))), n2 + length aargs) = Inr (cb, sc3, d3, n3)"
    "map_r (lookup_tensor d3) (carried_names sc d3) = Inr ys" "rs = fresh_args n3 ts"
    "c = [IWhile rs (map fst inits) bargs cc h aargs cb (map fst ys)]"
    "st = (fst (bind_names names rs (sc, d)), snd (bind_names names rs (sc, d)), n3 + length rs)"
proof -
  note assms = assms[unfolded gen_stmt.simps gen_while_def prod.case]
  from assms obtain c1 sc1 d1 n1 where 1: "gen_stmts G body (sc, [], n) = Inr (c1, sc1, d1, n1)"
    by (auto simp: bind_r_eq_Inr_iff)
  from assms 1 obtain inits where 2: "map_r (verify_loop_carried_variable sc d1) (carried_names sc d1) = Inr inits"
    by (auto simp: bind_r_eq_Inr_iff Let_def)
  let ?names = "carried_names sc d1" and ?ts = "map snd inits"
  let ?bargs = "fresh_args n1 ?ts"
  let ?b = "bind_names ?names ?bargs (sc1, d1)"
  from assms 1 2 obtain a cc n2 where 3: "gen_expr G (fst ?b) test (n1 + length ?bargs) = Inr (a, cc, n2)"
    by (auto simp: bind_r_eq_Inr_iff Let_def split_beta)
  from assms 1 2 3 obtain h t where 4: "a = ETensor h t"
    by (cases a) (auto simp: bind_r_eq_Inr_iff Let_def split_beta)
  let ?aargs = "fresh_args n2 ?ts"
  let ?a = "bind_names ?names ?aargs ?b"
  from assms 1 2 3 4 obtain cb sc3 d3 n3 where 5: "gen_stmts G body (fst ?a, snd ?a, n2 + length ?aargs) = Inr (cb, sc3, d3, n3)"
    by (auto simp: bind_r_eq_Inr_iff Let_def split_beta)
  from assms 1 2 3 4 5 obtain ys where 6: "map_r (lookup_tensor d3) (carried_names sc d3) = Inr ys"
    by (auto simp: bind_r_eq_Inr_iff Let_def split_beta)
  let ?rs = "fresh_args n3 ?ts"
  have 7: "c = [IWhile ?rs (map fst inits) ?bargs cc h ?aargs cb (map fst ys)]"
    "st = (fst (bind_names ?names ?rs (sc, d)), snd (bind_names ?names ?rs (sc, d)), n3 + length ?rs)"
    using assms 1 2 3 4 5 6 by (simp_all add: Let_def split_beta)
  show thesis by (rule that[OF 1 refl 2 refl refl 3[unfolded 4] refl 5 6 refl 7])
qed

lemma gen_forE:
  assumes "gen_stmt G (ForStmt x cls args body) (sc, d, n) = Inr (c, st)"
  obtains es c0 n0 lb0 ub0 st0 c1 n1 neg lb1 ub1 st1 lb2 c2 n2 ub2 c3 n3 st2 c4 n4 t lb ub step c5 n5 scx dx
      cd scd dd n6 names inits largs cb sc2 d2 n7 ys iv' cv n8 h u rs where
    "gen_exprs G sc args n = Inr (es, c0, n0)" "range_bounds G sc cls args es n0 = Inr ((lb0, ub0, st0), c1, n1)"
    "neg = negative_step st0" "(lb1, ub1, st1) = (if neg then (ub0, lb0, negate_step st0) else (lb0, ub0, st0))"
    "gen_tensor lb1 n1 = Inr (lb2, c2, n2)" "gen_tensor ub1 n2 = Inr (ub2, c3, n3)" "gen_tensor st1 n3 = Inr (st2, c4, n4)"
    "loop_bounds lb2 ub2 st2 n4 = Inr (t, (lb, ub, step), c5, n5)"
    "scx = AList.update x (ETensor n5 t) sc" "dx = AList.update x (ETensor n5 t) d"
    "gen_stmts G body (scx, [], Suc n5) = Inr (cd, scd, dd, n6)" "names = carried_names scx dd"
    "map_r (verify_loop_carried_variable scx dd) names = Inr inits" "largs = fresh_args (Suc n6) (map snd inits)"
    "gen_stmts G body (fst (bind_names names largs (scx, [])), snd (bind_names names largs (scx, [])), Suc n6 + length largs) =
       Inr (cb, sc2, d2, n7)"
    "map_r (lookup_tensor d2) (carried_names scx d2) = Inr ys" "loop_variable neg t lb ub n6 n7 = (iv', cv, n8)"
    "lookup_tensor sc2 x = Inr (h, u)" "rs = fresh_args n8 (map snd ys)"
    "c = c0 @ c1 @ c2 @ c3 @ c4 @ c5 @ [IPoison n5 t, IFor rs n6 t lb ub step (map fst inits) largs
       (map (replace_uses h iv') (cv @ cb)) (map (rename h iv') (map fst ys))]"
    "st = (fst (bind_names names rs (scx, dx)), snd (bind_names names rs (scx, dx)), n8 + length rs)"
proof -
  note assms = assms[unfolded gen_stmt.simps gen_for_def prod.case]
  from assms obtain es c0 n0 where 1: "gen_exprs G sc args n = Inr (es, c0, n0)" by (auto simp: bind_r_eq_Inr_iff)
  from assms 1 obtain lb0 ub0 st0 c1 n1 where 2: "range_bounds G sc cls args es n0 = Inr ((lb0, ub0, st0), c1, n1)"
    by (auto simp: bind_r_eq_Inr_iff)
  obtain lb1 ub1 st1 where 3: "(lb1, ub1, st1) = (if negative_step st0 then (ub0, lb0, negate_step st0) else (lb0, ub0, st0))"
    by (metis prod_cases3)
  from assms 1 2 3[symmetric] obtain lb2 c2 n2 where 4: "gen_tensor lb1 n1 = Inr (lb2, c2, n2)" by (auto simp: bind_r_eq_Inr_iff Let_def)
  from assms 1 2 3[symmetric] 4 obtain ub2 c3 n3 where 5: "gen_tensor ub1 n2 = Inr (ub2, c3, n3)" by (auto simp: bind_r_eq_Inr_iff Let_def)
  from assms 1 2 3[symmetric] 4 5 obtain st2 c4 n4 where 6: "gen_tensor st1 n3 = Inr (st2, c4, n4)" by (auto simp: bind_r_eq_Inr_iff Let_def)
  from assms 1 2 3[symmetric] 4 5 6 obtain t lb ub step c5 n5 where 7: "loop_bounds lb2 ub2 st2 n4 = Inr (t, (lb, ub, step), c5, n5)"
    by (auto simp: bind_r_eq_Inr_iff Let_def)
  let ?sc = "AList.update x (ETensor n5 t) sc" and ?d = "AList.update x (ETensor n5 t) d"
  note pre = 1 2 3[symmetric] 4 5 6 7
  from assms pre obtain cd scd dd n6 where 8: "gen_stmts G body (?sc, [], Suc n5) = Inr (cd, scd, dd, n6)"
    by (auto simp: bind_r_eq_Inr_iff Let_def set_value_def)
  let ?names = "carried_names ?sc dd"
  from assms pre 8 obtain inits where 9: "map_r (verify_loop_carried_variable ?sc dd) ?names = Inr inits"
    by (auto simp: bind_r_eq_Inr_iff Let_def set_value_def)
  let ?largs = "fresh_args (Suc n6) (map snd inits)"
  let ?a = "bind_names ?names ?largs (?sc, [])"
  obtain sca da where a: "?a = (sca, da)" by (cases ?a)
  have "\<exists>cb sc2 d2 n7. gen_stmts G body (sca, da, Suc n6 + length ?largs) = Inr (cb, sc2, d2, n7)"
    using assms pre 8 9 a by (auto simp: bind_r_eq_Inr_iff Let_def set_value_def)
  then obtain cb sc2 d2 n7 where 10: "gen_stmts G body (sca, da, Suc n6 + length ?largs) = Inr (cb, sc2, d2, n7)" by auto
  from assms pre 8 9 a 10 obtain ys where 11: "map_r (lookup_tensor d2) (carried_names ?sc d2) = Inr ys"
    by (auto simp: bind_r_eq_Inr_iff Let_def set_value_def)
  obtain iv' cv n8 where 12: "loop_variable (negative_step st0) t lb ub n6 n7 = (iv', cv, n8)" by (metis prod_cases3)
  from assms pre 8 9 a 10 11 12 obtain h u where 13: "lookup_tensor sc2 x = Inr (h, u)"
    by (auto simp: bind_r_eq_Inr_iff Let_def set_value_def)
  let ?rs = "fresh_args n8 (map snd ys)"
  obtain sr dr where r: "bind_names ?names ?rs (?sc, ?d) = (sr, dr)" by (cases "bind_names ?names ?rs (?sc, ?d)")
  have 14: "c = c0 @ c1 @ c2 @ c3 @ c4 @ c5 @ [IPoison n5 t, IFor ?rs n6 t lb ub step (map fst inits) ?largs
       (map (replace_uses h iv') (cv @ cb)) (map (rename h iv') (map fst ys))]"
    "st = (fst (bind_names ?names ?rs (?sc, ?d)), snd (bind_names ?names ?rs (?sc, ?d)), n8 + length ?rs)"
    using assms pre 8 9 a 10 11 12 13 r by (simp_all add: Let_def set_value_def)
  have 10: "gen_stmts G body (fst ?a, snd ?a, Suc n6 + length ?largs) = Inr (cb, sc2, d2, n7)" using 10 a by simp
  show thesis by (rule that[OF 1 2 refl 3 4 5 6 7 refl refl 8 refl 9 refl 10 11 12 13 refl 14])
qed

lemma gen_staticE:
  assumes "gen_stmt G (StaticFor x args body) (sc, d, n) = Inr (c, st)"
  obtains es c0 n0 ks c1 where "gen_exprs G sc args n = Inr (es, c0, n0)" "static_range es = Inr ks"
    "gen_each (\<lambda>k (sc, d, n). gen_stmts G body (AList.update x (EConst (NInt k)) sc, d, n)) ks (sc, d, n0) = Inr (c1, st)"
    "c = c0 @ c1"
  using assms by (auto simp: gen_static_for_def bind_r_eq_Inr_iff)

end
