(* ===== verification/Codegen_Shape.thy ===== *)
theory Codegen_Shape
  imports Codegen_Scopes
begin

text \<open>
  The shape of the scopes the generator leaves, proved for every statement: names are only added, the definitions
  of a region are names assigned in it, and what is not defined again is unchanged.
\<close>

section \<open>Names of a program\<close>

text \<open>The names given a tensor by assignments and loops, and the ones bound to constants.\<close>

primrec assigned :: "stmt \<Rightarrow> string set" where
  "assigned (Assign x e) = {x}"
| "assigned (Annotate x e) = {}"
| "assigned (Effect f args) = {}"
| "assigned (IfStmt test body orelse) = \<Union> (set (map assigned body)) \<union> \<Union> (set (map assigned orelse))"
| "assigned (WhileStmt test body) = \<Union> (set (map assigned body))"
| "assigned (ForStmt x cls args body) = insert x (\<Union> (set (map assigned body)))"
| "assigned (StaticFor x args body) = \<Union> (set (map assigned body))"

primrec statics :: "stmt \<Rightarrow> string set" where
  "statics (Assign x e) = {}"
| "statics (Annotate x e) = {x}"
| "statics (Effect f args) = {}"
| "statics (IfStmt test body orelse) = \<Union> (set (map statics body)) \<union> \<Union> (set (map statics orelse))"
| "statics (WhileStmt test body) = \<Union> (set (map statics body))"
| "statics (ForStmt x cls args body) = \<Union> (set (map statics body))"
| "statics (StaticFor x args body) = insert x (\<Union> (set (map statics body)))"

definition assigned_in :: "stmt list \<Rightarrow> string set" where
  "assigned_in ss = \<Union> (set (map assigned ss))"

definition statics_in :: "stmt list \<Rightarrow> string set" where
  "statics_in ss = \<Union> (set (map statics ss))"

lemma names_in_simps [simp]:
  "assigned_in [] = {}" "assigned_in (s # ss) = assigned s \<union> assigned_in ss"
  "statics_in [] = {}" "statics_in (s # ss) = statics s \<union> statics_in ss"
  by (simp_all add: assigned_in_def statics_in_def)

lemma names_of_compound [simp]:
  "assigned (IfStmt test body orelse) = assigned_in body \<union> assigned_in orelse"
  "assigned (WhileStmt test body) = assigned_in body"
  "assigned (ForStmt x cls args body) = insert x (assigned_in body)"
  "assigned (StaticFor x args body) = assigned_in body"
  "statics (IfStmt test body orelse) = statics_in body \<union> statics_in orelse"
  "statics (WhileStmt test body) = statics_in body"
  "statics (ForStmt x cls args body) = statics_in body"
  "statics (StaticFor x args body) = insert x (statics_in body)"
  by (simp_all add: assigned_in_def statics_in_def)

declare assigned.simps(4-7) [simp del] statics.simps(4-7) [simp del]

section \<open>Updates of scopes\<close>

abbreviation keys :: "scope \<Rightarrow> string set" where
  "keys sc \<equiv> set (names_of sc)"

lemma in_scope_keys: "in_scope x sc \<longleftrightarrow> x \<in> keys sc"
  by (simp add: in_scope_def)

lemma keys_map_of: "x \<in> keys sc \<longleftrightarrow> map_of sc x \<noteq> None"
  by (simp add: names_of_def map_of_eq_None_iff)

lemma names_of_Nil [simp]: "names_of [] = []"
  by (simp add: names_of_def)

lemma names_of_update: "names_of (AList.update x e sc) = (if x \<in> keys sc then names_of sc else names_of sc @ [x])"
  by (simp add: names_of_def AList.update_keys)

lemma map_of_update [simp]: "map_of (AList.update x e sc) = (map_of sc)(x \<mapsto> e)"
  by (rule update_conv')

definition binds :: "string list \<Rightarrow> (nat \<times> ty) list \<Rightarrow> scope \<Rightarrow> scope" where
  "binds names args = fold (\<lambda>(x, (h, t)). AList.update x (ETensor h t)) (zip names args)"

lemma bind_names_binds: "bind_names names args (sc, d) = (binds names args sc, binds names args d)"
proof (induction names arbitrary: args sc d)
  case (Cons x names)
  then show ?case by (cases args) (auto simp: bind_names_def binds_def set_value_def)
qed (simp add: bind_names_def binds_def)

lemma map_of_binds:
  assumes "distinct names" "length names = length args"
  shows "map_of (binds names args sc) x =
    (case map_of (zip names args) x of Some (h, t) \<Rightarrow> Some (ETensor h t) | None \<Rightarrow> map_of sc x)"
  using assms
proof (induction names arbitrary: args sc)
  case (Cons y names)
  then obtain h t args' where args: "args = (h, t) # args'" by (cases args) auto
  have "map_of (zip names args') y = None" using Cons.prems by (auto simp: map_of_eq_None_iff dest: set_zip_leftD)
  moreover have "binds (y # names) args sc = binds names args' (AList.update y (ETensor h t) sc)" using args by (simp add: binds_def)
  ultimately show ?case using Cons.IH[of args' "AList.update y (ETensor h t) sc"] Cons.prems args
    by (cases "x = y") (simp_all cong: option.case_cong)
qed (simp add: binds_def)

lemma names_of_binds:
  assumes "distinct names" "length names = length args"
  shows "names_of (binds names args sc) = names_of sc @ filter (\<lambda>x. x \<notin> keys sc) names"
  using assms
proof (induction names arbitrary: args sc)
  case (Cons y names)
  then obtain h t args' where args: "args = (h, t) # args'" by (cases args) auto
  have *: "binds (y # names) args sc = binds names args' (AList.update y (ETensor h t) sc)" using args by (simp add: binds_def)
  have "filter (\<lambda>x. x \<noteq> y \<and> x \<notin> keys sc) names = filter (\<lambda>x. x \<notin> keys sc) names"
    using Cons.prems(1) by (auto intro!: filter_cong)
  then show ?case unfolding * using Cons.IH[of args' "AList.update y (ETensor h t) sc"] Cons.prems args
    by (simp add: names_of_update)
qed (simp add: binds_def)

lemma length_fresh_args [simp]: "length (fresh_args n ts) = length ts"
  by (simp add: fresh_args_def)

lemma types_fresh_args [simp]: "map snd (fresh_args n ts) = ts"
  by (simp add: fresh_args_def)

section \<open>The shape\<close>

definition scope_step :: "string set \<Rightarrow> string set \<Rightarrow> scope \<Rightarrow> scope \<Rightarrow> scope \<Rightarrow> scope \<Rightarrow> bool" where
  "scope_step A S sc d sc' d' \<longleftrightarrow>
     keys sc \<subseteq> keys sc' \<and> keys sc' \<subseteq> keys sc \<union> A \<union> S \<and>
     (\<exists>ex. names_of d' = names_of d @ ex \<and> set ex \<subseteq> A) \<and>
     (\<forall>x. x \<notin> keys d' \<longrightarrow> x \<notin> S \<longrightarrow> map_of sc' x = map_of sc x) \<and>
     (distinct (names_of sc) \<longrightarrow> distinct (names_of sc')) \<and> (distinct (names_of d) \<longrightarrow> distinct (names_of d')) \<and>
     ((A \<union> keys d) \<inter> S = {} \<longrightarrow> (\<forall>x\<in>keys d. map_of d x = map_of sc x) \<longrightarrow> (\<forall>x\<in>keys d'. map_of d' x = map_of sc' x))"

lemma scope_stepD:
  assumes "scope_step A S sc d sc' d'"
  shows "keys sc \<subseteq> keys sc'" "keys sc' \<subseteq> keys sc \<union> A \<union> S"
    and "\<exists>ex. names_of d' = names_of d @ ex \<and> set ex \<subseteq> A"
    and "x \<notin> keys d' \<Longrightarrow> x \<notin> S \<Longrightarrow> map_of sc' x = map_of sc x"
    and "distinct (names_of sc) \<Longrightarrow> distinct (names_of sc')" "distinct (names_of d) \<Longrightarrow> distinct (names_of d')"
    and "(A \<union> keys d) \<inter> S = {} \<Longrightarrow> \<forall>x\<in>keys d. map_of d x = map_of sc x \<Longrightarrow> \<forall>x\<in>keys d'. map_of d' x = map_of sc' x"
  using assms unfolding scope_step_def by blast+

lemma scope_step_keys:
  assumes "scope_step A S sc d sc' d'"
  shows "keys d \<subseteq> keys d'" "keys d' \<subseteq> keys d \<union> A"
  using scope_stepD(3)[OF assms] by auto

lemma scope_stepI:
  assumes "keys sc \<subseteq> keys sc'" "keys sc' \<subseteq> keys sc \<union> A \<union> S" "names_of d' = names_of d @ ex" "set ex \<subseteq> A"
    and "\<And>x. x \<notin> keys d' \<Longrightarrow> x \<notin> S \<Longrightarrow> map_of sc' x = map_of sc x"
    and "distinct (names_of sc) \<Longrightarrow> distinct (names_of sc')" "distinct (names_of d) \<Longrightarrow> distinct (names_of d')"
    and "(A \<union> keys d) \<inter> S = {} \<Longrightarrow> \<forall>x\<in>keys d. map_of d x = map_of sc x \<Longrightarrow> \<forall>x\<in>keys d'. map_of d' x = map_of sc' x"
  shows "scope_step A S sc d sc' d'"
  unfolding scope_step_def using assms by blast

lemma scope_step_refl [simp]: "scope_step A S sc d sc d"
  by (auto simp: scope_step_def)

lemma scope_step_mono:
  assumes "scope_step A S sc d sc' d'" "A \<subseteq> A'" "S \<subseteq> S'"
  shows "scope_step A' S' sc d sc' d'"
proof -
  obtain ex where ex: "names_of d' = names_of d @ ex" "set ex \<subseteq> A" using scope_stepD(3)[OF assms(1)] by blast
  show ?thesis
  proof (rule scope_stepI[OF _ _ ex(1)])
    fix x assume "x \<notin> keys d'" "x \<notin> S'"
    then show "map_of sc' x = map_of sc x" using scope_stepD(4)[OF assms(1)] assms(3) by blast
  next
    assume a: "(A' \<union> keys d) \<inter> S' = {}" "\<forall>x\<in>keys d. map_of d x = map_of sc x"
    have "(A \<union> keys d) \<inter> S = {}" using a(1) assms(2,3) by blast
    then show "\<forall>x\<in>keys d'. map_of d' x = map_of sc' x" using scope_stepD(7)[OF assms(1) _ a(2)] by blast
  next
    show "keys sc \<subseteq> keys sc'" by (rule scope_stepD(1)[OF assms(1)])
    show "keys sc' \<subseteq> keys sc \<union> A' \<union> S'" using scope_stepD(2)[OF assms(1)] assms(2,3) by blast
    show "set ex \<subseteq> A'" using ex(2) assms(2) by blast
  qed (use scope_stepD(5,6)[OF assms(1)] in blast)+
qed

lemma scope_step_trans:
  assumes "scope_step A S sc d sc1 d1" "scope_step A S sc1 d1 sc2 d2"
  shows "scope_step A S sc d sc2 d2"
proof -
  obtain ex where ex: "names_of d1 = names_of d @ ex" "set ex \<subseteq> A" using scope_stepD(3)[OF assms(1)] by blast
  obtain ey where ey: "names_of d2 = names_of d1 @ ey" "set ey \<subseteq> A" using scope_stepD(3)[OF assms(2)] by blast
  note k1 = scope_step_keys[OF assms(1)] and k2 = scope_step_keys[OF assms(2)]
  show ?thesis
  proof (rule scope_stepI)
    show "names_of d2 = names_of d @ (ex @ ey)" using ex ey by simp
    show "set (ex @ ey) \<subseteq> A" using ex ey by simp
    fix x assume x: "x \<notin> keys d2" "x \<notin> S"
    then have "x \<notin> keys d1" using k2 by blast
    then show "map_of sc2 x = map_of sc x" using scope_stepD(4)[OF assms(1)] scope_stepD(4)[OF assms(2)] x by simp
  next
    assume a: "(A \<union> keys d) \<inter> S = {}" "\<forall>x\<in>keys d. map_of d x = map_of sc x"
    have "(A \<union> keys d1) \<inter> S = {}" using a(1) k1 by blast
    then show "\<forall>x\<in>keys d2. map_of d2 x = map_of sc2 x"
      using scope_stepD(7)[OF assms(2)] scope_stepD(7)[OF assms(1) a] by blast
  next
    show "keys sc \<subseteq> keys sc2" using scope_stepD(1)[OF assms(1)] scope_stepD(1)[OF assms(2)] by blast
    show "keys sc2 \<subseteq> keys sc \<union> A \<union> S" using scope_stepD(2)[OF assms(1)] scope_stepD(2)[OF assms(2)] by blast
  qed (use scope_stepD(5,6)[OF assms(1)] scope_stepD(5,6)[OF assms(2)] in blast)+
qed

text \<open>Giving a name a tensor, several names, or a name a constant.\<close>

lemma scope_step_set: "scope_step {x} S sc d (AList.update x e sc) (AList.update x e d)"
  by (rule scope_stepI[where ex = "if x \<in> keys d then [] else [x]"])
    (auto simp: names_of_update split: if_splits)

lemma scope_step_binds:
  assumes "distinct names" "length names = length args"
  shows "scope_step (set names) S sc d (binds names args sc) (binds names args d)"
proof (rule scope_stepI)
  have z: "map_of (zip names args) x = None \<longleftrightarrow> x \<notin> set names" for x
    using assms(2) by (simp add: map_of_zip_is_None)
  show "names_of (binds names args d) = names_of d @ filter (\<lambda>x. x \<notin> keys d) names" by (rule names_of_binds[OF assms])
  then have k: "keys (binds names args d) = keys d \<union> set names" by auto
  fix x assume "x \<notin> keys (binds names args d)"
  then show "map_of (binds names args sc) x = map_of sc x" using k z[of x] by (simp add: map_of_binds[OF assms])
next
  assume a: "\<forall>x\<in>keys d. map_of d x = map_of sc x"
  have z: "map_of (zip names args) x = None \<longleftrightarrow> x \<notin> set names" for x
    using assms(2) by (simp add: map_of_zip_is_None)
  show "\<forall>x\<in>keys (binds names args d). map_of (binds names args d) x = map_of (binds names args sc) x"
  proof
    fix x assume x: "x \<in> keys (binds names args d)"
    show "map_of (binds names args d) x = map_of (binds names args sc) x"
      using a z[of x] x by (cases "x \<in> set names") (auto simp: map_of_binds[OF assms] names_of_binds[OF assms])
  qed
qed (use assms in \<open>auto simp: names_of_binds\<close>)

lemma scope_step_binds_some:
  assumes "distinct names" "set names \<subseteq> A"
  shows "scope_step A S sc d (binds names args sc) (binds names args d)"
proof -
  let ?names = "take (length args) names" and ?args = "take (length names) args"
  have "zip (take (length ys) xs) (take (length xs) ys) = zip xs ys" for xs :: "string list" and ys :: "(nat \<times> ty) list"
    by (induction xs ys rule: list_induct2') auto
  then have "zip ?names ?args = zip names args" .
  then have e: "binds names args = binds ?names ?args" by (simp add: binds_def fun_eq_iff)
  have "scope_step (set ?names) S sc d (binds ?names ?args sc) (binds ?names ?args d)"
    using assms(1) by (intro scope_step_binds) (auto simp: min_def)
  then show ?thesis unfolding e by (rule scope_step_mono) (use assms(2) in \<open>auto dest: in_set_takeD\<close>)
qed

lemma scope_step_const: "x \<in> S \<Longrightarrow> scope_step A S sc d (AList.update x e sc) d"
  by (rule scope_stepI[where ex = "[]"]) (auto simp: names_of_update split: if_splits)

section \<open>Every statement\<close>

definition stmt_ok :: "genv \<Rightarrow> stmt \<Rightarrow> bool" where
  "stmt_ok G s \<longleftrightarrow> (\<forall>sc d n c sc' d' n'. distinct (names_of sc) \<longrightarrow> gen_stmt G s (sc, d, n) = Inr (c, sc', d', n') \<longrightarrow>
     scope_step (assigned s) (statics s) sc d sc' d')"

lemma stmt_okI:
  assumes "\<And>sc d n c sc' d' n'. distinct (names_of sc) \<Longrightarrow> gen_stmt G s (sc, d, n) = Inr (c, sc', d', n') \<Longrightarrow>
     scope_step (assigned s) (statics s) sc d sc' d'"
  shows "stmt_ok G s"
  unfolding stmt_ok_def using assms by blast

lemma stmt_okD:
  "stmt_ok G s \<Longrightarrow> distinct (names_of sc) \<Longrightarrow> gen_stmt G s (sc, d, n) = Inr (c, sc', d', n') \<Longrightarrow>
   scope_step (assigned s) (statics s) sc d sc' d'"
  unfolding stmt_ok_def by blast

lemma stmts_ok:
  assumes "\<And>s. s \<in> set ss \<Longrightarrow> stmt_ok G s" "distinct (names_of sc)" "gen_stmts G ss (sc, d, n) = Inr (c, sc', d', n')"
  shows "scope_step (assigned_in ss) (statics_in ss) sc d sc' d'"
  using assms
proof (induction ss arbitrary: sc d n c)
  case (Cons s ss)
  from Cons.prems(3) obtain c1 sc1 d1 n1 c2 where 1: "gen_stmt G s (sc, d, n) = Inr (c1, sc1, d1, n1)"
      and 2: "gen_stmts G ss (sc1, d1, n1) = Inr (c2, sc', d', n')"
    by (auto simp: bind_r_eq_Inr_iff)
  have st: "scope_step (assigned s) (statics s) sc d sc1 d1"
    by (rule stmt_okD[OF Cons.prems(1) Cons.prems(2) 1]) simp
  then have "scope_step (assigned_in (s # ss)) (statics_in (s # ss)) sc d sc1 d1" by (rule scope_step_mono) auto
  moreover have "scope_step (assigned_in ss) (statics_in ss) sc1 d1 sc' d'"
    using Cons.IH[OF _ _ 2] Cons.prems(1) scope_stepD(5)[OF st Cons.prems(2)] by simp
  then have "scope_step (assigned_in (s # ss)) (statics_in (s # ss)) sc1 d1 sc' d'" by (rule scope_step_mono) auto
  ultimately show ?case by (rule scope_step_trans)
qed simp

lemma carried_names_distinct: "distinct (names_of d) \<Longrightarrow> distinct (carried_names sc d)"
  by (simp add: carried_names_def)

lemma carried_names_set: "set (carried_names sc d) = keys d \<inter> keys sc"
  by (auto simp: carried_names_def in_scope_keys)

lemma length_insert_name [simp]: "length (insert_name x xs) = Suc (length xs)"
  by (induction xs) auto

lemma set_insert_name': "set (insert_name x xs) = insert x (set xs)"
  by (induction xs) auto

lemma distinct_insert_name: "distinct (insert_name x xs) \<longleftrightarrow> x \<notin> set xs \<and> distinct xs"
  by (induction xs) (auto simp: set_insert_name')

lemma set_sort_names': "set (sort_names xs) = set xs"
  unfolding sort_names_def by (induction xs) (auto simp: set_insert_name')

lemma distinct_sort_names: "distinct (sort_names xs) = distinct xs"
  unfolding sort_names_def by (induction xs) (auto simp: distinct_insert_name set_sort_names'[unfolded sort_names_def])

lemma merged_names_facts:
  assumes "merged_names sc d1 d2 = Inr names" "distinct (names_of sc)" "distinct (names_of d1)"
  shows "distinct names" "set names = (keys sc \<inter> (keys d1 \<union> keys d2)) \<union> (keys d1 \<inter> keys d2)"
  using assms by (auto simp: merged_names_def Let_def bind_r_eq_Inr_iff distinct_sort_names set_sort_names' in_scope_keys)

lemma stmt_ok_if:
  assumes b: "\<And>s. s \<in> set body \<Longrightarrow> stmt_ok G s" and e: "\<And>s. s \<in> set orelse \<Longrightarrow> stmt_ok G s"
  shows "stmt_ok G (IfStmt test body orelse)"
proof (rule stmt_okI)
  fix sc d n c sc' d' n'
  assume sc: "distinct (names_of sc)" and "gen_stmt G (IfStmt test body orelse) (sc, d, n) = Inr (c, sc', d', n')"
  from this(2) show "scope_step (assigned (IfStmt test body orelse)) (statics (IfStmt test body orelse)) sc d sc' d'"
  proof (cases rule: gen_ifE)
    case (static k c0 n0 bb c1)
    then have "scope_step (assigned_in (if bb then body else orelse)) (statics_in (if bb then body else orelse)) sc d sc' d'"
      by (cases bb) (auto intro: stmts_ok[OF b sc] stmts_ok[OF e sc])
    then show ?thesis by (rule scope_step_mono) auto
  next
    case (dynamic h0 t0 c0 n0 h ci n1 c1 sc1 d1 n2 c2 sc2 d2 n3 names ys zs rs)
    note s1 = stmts_ok[OF b sc dynamic(3)] and s2 = stmts_ok[OF e sc dynamic(4)]
    note m = merged_names_facts[OF dynamic(5) sc scope_stepD(6)[OF s1]]
    have "set names \<subseteq> assigned_in body \<union> assigned_in orelse"
      using m(2) scope_step_keys(2)[OF s1] scope_step_keys(2)[OF s2] by auto
    moreover have "length names = length rs" using dynamic(6,8) by (simp add: map_r_length)
    then have "scope_step (set names) (statics (IfStmt test body orelse)) sc d (binds names rs sc) (binds names rs d)"
      using m(1) by (intro scope_step_binds) auto
    ultimately have "scope_step (assigned (IfStmt test body orelse)) (statics (IfStmt test body orelse)) sc d
        (binds names rs sc) (binds names rs d)"
      by (elim scope_step_mono) auto
    then show ?thesis using dynamic(10) by (simp add: bind_names_binds)
  qed
qed

lemma stmt_ok_while:
  assumes b: "\<And>s. s \<in> set body \<Longrightarrow> stmt_ok G s"
  shows "stmt_ok G (WhileStmt test body)"
proof (rule stmt_okI)
  fix sc d n c sc' d' n'
  assume sc: "distinct (names_of sc)" and "gen_stmt G (WhileStmt test body) (sc, d, n) = Inr (c, sc', d', n')"
  from this(2) show "scope_step (assigned (WhileStmt test body)) (statics (WhileStmt test body)) sc d sc' d'"
  proof (cases rule: gen_whileE)
    case (1 c1 sc1 d1 n1 names inits ts bargs cc n2 h t aargs cb sc3 d3 n3 ys rs)
    note s1 = stmts_ok[OF b sc 1(1)]
    have n: "distinct names" "set names \<subseteq> assigned_in body" "length names = length rs"
      using 1(2,3,4,10) scope_stepD(6)[OF s1] scope_step_keys(2)[OF s1]
      by (auto simp: carried_names_distinct carried_names_set map_r_length)
    have "scope_step (set names) (statics (WhileStmt test body)) sc d (binds names rs sc) (binds names rs d)"
      by (rule scope_step_binds[OF n(1,3)])
    then have "scope_step (assigned (WhileStmt test body)) (statics (WhileStmt test body)) sc d (binds names rs sc) (binds names rs d)"
      by (rule scope_step_mono) (use n(2) in auto)
    then show ?thesis using 1(12) by (simp add: bind_names_binds)
  qed
qed

lemma stmt_ok_for:
  assumes b: "\<And>s. s \<in> set body \<Longrightarrow> stmt_ok G s"
  shows "stmt_ok G (ForStmt x cls args body)"
proof (rule stmt_okI)
  fix sc d n c sc' d' n'
  assume sc: "distinct (names_of sc)" and "gen_stmt G (ForStmt x cls args body) (sc, d, n) = Inr (c, sc', d', n')"
  let ?A = "assigned (ForStmt x cls args body)" and ?S = "statics (ForStmt x cls args body)"
  from \<open>gen_stmt _ _ _ = _\<close> show "scope_step ?A ?S sc d sc' d'"
  proof (cases rule: gen_forE)
    case (1 es c0 n0 lb0 ub0 st0 c1 n1 neg lb1 ub1 st1 lb2 c2 n2 ub2 c3 n3 st2 c4 n4 t lb ub step c5 n5 scx dx
        cd scd dd n6 names inits largs cb sc2 d2 n7 ys iv' cv n8 h u rs)
    have x: "scope_step ?A ?S sc d scx dx" unfolding 1(9,10) by (rule scope_step_mono[OF scope_step_set]) auto
    note s1 = stmts_ok[OF b scope_stepD(5)[OF x sc] 1(11)]
    have "distinct names" "set names \<subseteq> ?A"
      using 1(12) scope_stepD(6)[OF s1] scope_step_keys(2)[OF s1] by (auto simp: carried_names_distinct carried_names_set)
    then have "scope_step ?A ?S scx dx (binds names rs scx) (binds names rs dx)" by (rule scope_step_binds_some)
    with x show ?thesis using 1(21) by (auto simp: bind_names_binds intro: scope_step_trans)
  qed
qed

lemma scope_step_each:
  assumes "\<And>k sc d n c sc' d' n'. distinct (names_of sc) \<Longrightarrow> f k (sc, d, n) = Inr (c, sc', d', n') \<Longrightarrow> scope_step A S sc d sc' d'"
    and "distinct (names_of sc)" "gen_each f ks (sc, d, n) = Inr (c, sc', d', n')"
  shows "scope_step A S sc d sc' d'"
  using assms(2,3)
proof (induction ks arbitrary: sc d n c)
  case (Cons k ks)
  from Cons.prems(2) obtain c1 sc1 d1 n1 c2 where 1: "f k (sc, d, n) = Inr (c1, sc1, d1, n1)"
      and 2: "gen_each f ks (sc1, d1, n1) = Inr (c2, sc', d', n')"
    by (auto simp: bind_r_eq_Inr_iff)
  have st: "scope_step A S sc d sc1 d1" by (rule assms(1)[OF Cons.prems(1) 1])
  then show ?case using Cons.IH[OF scope_stepD(5)[OF st Cons.prems(1)] 2] by (rule scope_step_trans)
qed simp

lemma distinct_update: "distinct (names_of sc) \<Longrightarrow> distinct (names_of (AList.update x e sc))"
  by (simp add: names_of_update)

lemma stmt_ok_static:
  assumes b: "\<And>s. s \<in> set body \<Longrightarrow> stmt_ok G s"
  shows "stmt_ok G (StaticFor x args body)"
proof (rule stmt_okI)
  fix sc d n c sc' d' n'
  assume sc: "distinct (names_of sc)" and "gen_stmt G (StaticFor x args body) (sc, d, n) = Inr (c, sc', d', n')"
  let ?A = "assigned (StaticFor x args body)" and ?S = "statics (StaticFor x args body)"
  from \<open>gen_stmt _ _ _ = _\<close> show "scope_step ?A ?S sc d sc' d'"
  proof (cases rule: gen_staticE)
    case (1 es c0 n0 ks c1)
    show ?thesis
    proof (rule scope_step_each[OF _ sc 1(3)])
      fix k sc d n c sc' d' n'
      assume sc: "distinct (names_of sc)" and g: "(case (sc, d, n) of (sc, d, n) \<Rightarrow> gen_stmts G body (AList.update x (EConst (NInt k)) sc, d, n)) =
        Inr (c, sc', d', n')"
      then have "scope_step (assigned_in body) (statics_in body) (AList.update x (EConst (NInt k)) sc) d sc' d'"
        by (auto intro: stmts_ok[OF b distinct_update])
      then have "scope_step ?A ?S (AList.update x (EConst (NInt k)) sc) d sc' d'" by (rule scope_step_mono) auto
      with scope_step_const show "scope_step ?A ?S sc d sc' d'" by (rule scope_step_trans) simp
    qed
  qed
qed

lemma stmt_ok: "stmt_ok G s"
proof (induction s)
  case (Assign x e)
  show ?case by (rule stmt_okI) (erule gen_assignE, simp add: scope_step_set scope_step_const)
next
  case (Annotate x e)
  show ?case by (rule stmt_okI) (erule gen_annotateE, simp add: scope_step_set scope_step_const)
next
  case (Effect f args)
  show ?case by (rule stmt_okI) (erule gen_effectE, simp add: scope_step_set scope_step_const)
qed (blast intro: stmt_ok_if stmt_ok_while stmt_ok_for stmt_ok_static)+

lemmas gen_stmt_scopes = stmt_okD[OF stmt_ok]
lemmas gen_stmts_scopes = stmts_ok[OF stmt_ok]

end
