(* ===== verification/Codegen_Agree.thy ===== *)
theory Codegen_Agree
  imports Codegen_Shape
begin

text \<open>
  The relation between the variables of a kernel and the values of its code, and the expressions: the code of an
  expression computes its value, with the same effect on the memory.
\<close>

section \<open>Agreement\<close>

text \<open>A defined variable is the constant of its entry, or the value of its handle, of the type both give it.\<close>

fun matches :: "types \<Rightarrow> 'v env \<Rightarrow> entry \<Rightarrow> 'v sval \<Rightarrow> bool" where
  "matches T env (EConst c) v \<longleftrightarrow> v = SConst c"
| "matches T env (ETensor h t) v \<longleftrightarrow> T h = Some t \<and> v = STensor (env h) t"

definition matching :: "types \<Rightarrow> scope \<Rightarrow> 'v vars \<Rightarrow> 'v env \<Rightarrow> string \<Rightarrow> bool" where
  "matching T sc s env x \<longleftrightarrow> (\<forall>e v. map_of sc x = Some e \<longrightarrow> s x = Some v \<longrightarrow> matches T env e v)"

definition agree :: "genv \<Rightarrow> types \<Rightarrow> scope \<Rightarrow> 'v vars \<Rightarrow> 'v env \<Rightarrow> bool" where
  "agree G T sc s env \<longleftrightarrow> (\<forall>x. matching T sc s env x) \<and> (\<forall>x. globals G x \<noteq> None \<longrightarrow> map_of sc x = None \<and> s x = None)"

lemma matches_keeps: "matches T env e v \<Longrightarrow> T \<subseteq>\<^sub>m T' \<Longrightarrow> keeps T env env' \<Longrightarrow> matches T' env' e v"
  by (cases e) (auto simp: map_le_def keeps_def dom_def)

lemma matching_keeps: "matching T sc s env x \<Longrightarrow> T \<subseteq>\<^sub>m T' \<Longrightarrow> keeps T env env' \<Longrightarrow> matching T' sc s env' x"
  unfolding matching_def by (blast intro: matches_keeps)

lemma agree_keeps: "agree G T sc s env \<Longrightarrow> T \<subseteq>\<^sub>m T' \<Longrightarrow> keeps T env env' \<Longrightarrow> agree G T' sc s env'"
  unfolding agree_def by (blast intro: matching_keeps)

lemma list_matches_keeps:
  "list_all2 (matches T env) es vs \<Longrightarrow> T \<subseteq>\<^sub>m T' \<Longrightarrow> keeps T env env' \<Longrightarrow> list_all2 (matches T' env') es vs"
  by (erule list_all2_mono) (blast intro: matches_keeps)

lemma run_code_append [simp]: "run_code M fuel (c1 @ c2) st = Option.bind (run_code M fuel c1 st) (run_code M fuel c2)"
proof (induction c1 arbitrary: st)
  case (Cons i c1)
  then show ?case by (cases "run_instr M fuel i st") simp_all
qed simp

lemma verify_code_append [simp]: "verify_code (c1 @ c2) T = Option.bind (verify_code c1 T) (verify_code c2)"
proof (induction c1 arbitrary: T)
  case (Cons i c1)
  then show ?case by (cases "verify_instr i T") simp_all
qed simp

text \<open>What a method sees of matching operands.\<close>

lemma matches_aty: "matches T env e v \<Longrightarrow> saty v = aty_of e"
  by (cases e) auto

lemma matches_oval: "matches T env e v \<Longrightarrow> soval v = oval_of env (operand_of e)"
  by (cases e) auto

lemma matches_args:
  assumes "list_all2 (matches T env) es vs"
  shows "map saty vs = map aty_of es" "map soval vs = map (oval_of env) (map operand_of es)"
  using assms by (induction rule: list_all2_induct) (auto simp: matches_aty matches_oval)

section \<open>Results of the emitting steps\<close>

text \<open>Code that runs from an environment and leaves there a value for an entry.\<close>

definition computes :: "('v, 'm) machine \<Rightarrow> nat \<Rightarrow> code \<Rightarrow> types \<Rightarrow> 'v env \<Rightarrow> 'm \<Rightarrow> 'm \<Rightarrow> entry \<Rightarrow> 'v sval \<Rightarrow> bool" where
  "computes M fuel c T' env m m' e v \<longleftrightarrow> (\<exists>env'. run_code M fuel c (env, m) = Some (env', m') \<and> matches T' env' e v)"

lemma gen_op_correct:
  assumes "gen_op G p es n = Inr (e, c, n')" "verify_code c T = Some T'" "list_all2 (matches T env) es vs"
    and "eval_op G M p vs = Some v"
  shows "computes M fuel c T' env m m e v"
proof -
  obtain t where t: "op_type G p (map aty_of es) = Inr t" "e = ETensor n t" "c = [IOp n t p (map operand_of es)]"
    using assms(1) by (auto simp: gen_op_def bind_r_eq_Inr_iff)
  note a = matches_args[OF assms(3)]
  obtain w where w: "op_sem M p (map soval vs) = Some w" "v = STensor w t"
    using assms(4) t a(1) by (auto simp: eval_op_def bind_eq_Some_conv)
  show ?thesis using assms(2) t w a(2) by (auto simp: computes_def bind_eq_Some_conv)
qed

lemma gen_tensor_correct:
  assumes "gen_tensor e n = Inr ((h, t), c, n')" "verify_code c T = Some T'" "matches T env e v" "eval_tensor M v = Some (w, u)"
  shows "u = t \<and> computes M fuel c T' env m m (ETensor h t) (STensor w t)"
proof (cases e)
  case (EConst k)
  then show ?thesis using assms by (auto simp: computes_def bind_r_eq_Inr_iff bind_eq_Some_conv)
qed (use assms in \<open>auto simp: computes_def\<close>)

lemma gen_int1_correct:
  assumes "gen_int1 G h t n = Inr (h', c, n')" "verify_code c T = Some T'" "T h = Some t" "eval_int1 M (env h) t = Some w"
  shows "\<exists>env'. run_code M fuel c (env, m) = Some (env', m) \<and> env' h' = w \<and> T' h' \<noteq> None"
  using assms by (auto simp: gen_int1_def eval_int1_def bind_r_eq_Inr_iff bind_eq_Some_conv split: if_splits)

lemma gen_binary_correct:
  assumes "gen_binary G f a b n = Inr (e, c, n')" "verify_code c T = Some T'" "matches T env a va" "matches T env b vb"
    and "eval_binary G M f va vb = Some v"
  shows "computes M fuel c T' env m m e v"
proof (cases a)
  case (ETensor h t)
  then show ?thesis using assms by (intro gen_op_correct[where T = T and es = "[a, b]" and vs = "[va, vb]"]) auto
next
  case (EConst k)
  show ?thesis
  proof (cases b)
    case (ETensor h t)
    then show ?thesis using assms EConst by (intro gen_op_correct[where T = T and es = "[b, a]" and vs = "[vb, va]"]) auto
  next
    case (EConst l)
    then show ?thesis using assms \<open>a = EConst k\<close> by (auto simp: computes_def bind_r_eq_Inr_iff)
  qed
qed

lemma gen_unary_correct:
  assumes "gen_unary G f a n = Inr (e, c, n')" "verify_code c T = Some T'" "matches T env a va" "eval_unary G M f va = Some v"
  shows "computes M fuel c T' env m m e v"
proof (cases a)
  case (ETensor h t)
  then show ?thesis using assms by (intro gen_op_correct[where T = T and es = "[a]" and vs = "[va]"]) auto
next
  case (EConst k)
  then show ?thesis using assms by (auto simp: computes_def bind_r_eq_Inr_iff)
qed

lemma gen_call_correct:
  assumes "gen_call G f es n = Inr (r, c, n')" "verify_code c T = Some T'" "list_all2 (matches T env) es vs"
    and "eval_call G M f vs m = Some (rv, m')"
  shows "\<exists>env'. run_code M fuel c (env, m) = Some (env', m') \<and>
    (case r of None \<Rightarrow> rv = None | Some (h, t) \<Rightarrow> T' h = Some t \<and> rv = Some (env' h, t))"
proof -
  note a = matches_args[OF assms(3)]
  obtain q where q: "call_type G f (map aty_of es) = Inr q" using assms(1) by (auto simp: gen_call_def bind_r_eq_Inr_iff)
  obtain w where w: "call_sem M f (map soval vs) m = Some (w, m')" "rv = map_option (Pair w) q"
    using assms(4) q a(1) by (auto simp: eval_call_def bind_eq_Some_conv)
  show ?thesis
    using assms(1,2) q w a(2) by (cases q) (auto simp: gen_call_def bind_r_eq_Inr_iff bind_eq_Some_conv)
qed

lemma gen_name_correct:
  assumes "gen_name G sc x = Inr e" "agree G T sc s env" "eval_expr G M (Name x) (s, m) = Some (v, m')"
  shows "m' = m \<and> matches T env e v"
proof (cases "map_of sc x")
  case None
  then obtain c where c: "globals G x = Some c" "e = EConst c"
    using assms(1) by (auto simp: gen_name_def split: option.splits)
  then have "s x = None" using assms(2) by (auto simp: agree_def)
  then show ?thesis using c assms(3) by simp
next
  case (Some a)
  then have "globals G x = None" using assms(2) by (auto simp: agree_def)
  then show ?thesis using Some assms by (auto simp: gen_name_def agree_def matching_def split: option.splits)
qed

section \<open>Expressions\<close>

definition expr_correct :: "genv \<Rightarrow> ('v, 'm) machine \<Rightarrow> nat \<Rightarrow> expr \<Rightarrow> bool" where
  "expr_correct G M fuel e \<longleftrightarrow> (\<forall>sc n a c n' T T' s env m v m'.
     gen_expr G sc e n = Inr (a, c, n') \<longrightarrow> verify_code c T = Some T' \<longrightarrow> agree G T sc s env \<longrightarrow>
     eval_expr G M e (s, m) = Some (v, m') \<longrightarrow> computes M fuel c T' env m m' a v)"

lemma expr_correctI:
  assumes "\<And>sc n a c n' T T' s env m v m'. gen_expr G sc e n = Inr (a, c, n') \<Longrightarrow> verify_code c T = Some T' \<Longrightarrow>
     agree G T sc s env \<Longrightarrow> eval_expr G M e (s, m) = Some (v, m') \<Longrightarrow> computes M fuel c T' env m m' a v"
  shows "expr_correct G M fuel e"
  unfolding expr_correct_def using assms by blast

lemma expr_correctE:
  assumes "expr_correct G M fuel e" "gen_expr G sc e n = Inr (a, c, n')" "verify_code c T = Some T'" "agree G T sc s env"
    and "eval_expr G M e (s, m) = Some (v, m')"
  obtains env' where "run_code M fuel c (env, m) = Some (env', m')" "matches T' env' a v" "agree G T' sc s env'"
    "T \<subseteq>\<^sub>m T'" "keeps T env env'"
proof -
  obtain env' where e: "run_code M fuel c (env, m) = Some (env', m')" "matches T' env' a v"
    using assms unfolding expr_correct_def computes_def by blast
  note le = code_extends[OF assms(3)] and k = code_keeps[OF assms(3) e(1)]
  show thesis by (rule that[OF e agree_keeps[OF assms(4) le k] le k])
qed

lemma computesE:
  assumes "computes M fuel c T' env m m' e v" "verify_code c T = Some T'"
  obtains env' where "run_code M fuel c (env, m) = Some (env', m')" "matches T' env' e v" "T \<subseteq>\<^sub>m T'" "keeps T env env'"
  using assms code_extends code_keeps unfolding computes_def by metis

lemma expr_correct_binop:
  fixes M :: "('v, 'm) machine"
  assumes "expr_correct G M fuel l" "expr_correct G M fuel r"
  shows "expr_correct G M fuel (BinOp f l r)"
proof (rule expr_correctI)
  fix sc n e c n' T T' and s :: "'v vars" and env :: "'v env" and m :: 'm and v :: "'v sval" and m' :: 'm
  assume ag: "agree G T sc s env" and v: "verify_code c T = Some T'"
  assume "gen_expr G sc (BinOp f l r) n = Inr (e, c, n')"
  then obtain a c1 n1 b c2 n2 c3 where g: "gen_expr G sc l n = Inr (a, c1, n1)" "gen_expr G sc r n1 = Inr (b, c2, n2)"
      "gen_binary G f a b n2 = Inr (e, c3, n')" "c = c1 @ c2 @ c3"
    by (auto simp: bind_r_eq_Inr_iff)
  obtain T1 T2 where T: "verify_code c1 T = Some T1" "verify_code c2 T1 = Some T2" "verify_code c3 T2 = Some T'"
    using v g(4) by (auto simp: bind_eq_Some_conv)
  assume "eval_expr G M (BinOp f l r) (s, m) = Some (v, m')"
  then obtain va m1 vb where e: "eval_expr G M l (s, m) = Some (va, m1)" "eval_expr G M r (s, m1) = Some (vb, m')"
      "eval_binary G M f va vb = Some v"
    by (auto simp: bind_eq_Some_conv)
  obtain env1 where 1: "run_code M fuel c1 (env, m) = Some (env1, m1)" "matches T1 env1 a va" "agree G T1 sc s env1"
    using expr_correctE[OF assms(1) g(1) T(1) ag e(1)] by metis
  obtain env2 where 2: "run_code M fuel c2 (env1, m1) = Some (env2, m')" "matches T2 env2 b vb" "T1 \<subseteq>\<^sub>m T2" "keeps T1 env1 env2"
    using expr_correctE[OF assms(2) g(2) T(2) 1(3) e(2)] by metis
  show "computes M fuel c T' env m m' e v"
    using gen_binary_correct[OF g(3) T(3) matches_keeps[OF 1(2) 2(3,4)] 2(2) e(3)] 1(1) 2(1) g(4) by (simp add: computes_def)
qed

lemma expr_correct_unary:
  fixes M :: "('v, 'm) machine"
  assumes "expr_correct G M fuel x"
  shows "expr_correct G M fuel (UnaryOp f x)"
proof (rule expr_correctI)
  fix sc n e c n' T T' and s :: "'v vars" and env :: "'v env" and m :: 'm and v :: "'v sval" and m' :: 'm
  assume ag: "agree G T sc s env" and v: "verify_code c T = Some T'"
  assume "gen_expr G sc (UnaryOp f x) n = Inr (e, c, n')"
  then obtain a c1 n1 c2 where g: "gen_expr G sc x n = Inr (a, c1, n1)" "gen_unary G f a n1 = Inr (e, c2, n')" "c = c1 @ c2"
    by (auto simp: bind_r_eq_Inr_iff)
  obtain T1 where T: "verify_code c1 T = Some T1" "verify_code c2 T1 = Some T'" using v g(3) by (auto simp: bind_eq_Some_conv)
  assume "eval_expr G M (UnaryOp f x) (s, m) = Some (v, m')"
  then obtain va where e: "eval_expr G M x (s, m) = Some (va, m')" "eval_unary G M f va = Some v"
    by (auto simp: bind_eq_Some_conv)
  obtain env1 where 1: "run_code M fuel c1 (env, m) = Some (env1, m')" "matches T1 env1 a va"
    using expr_correctE[OF assms(1) g(1) T(1) ag e(1)] by metis
  show "computes M fuel c T' env m m' e v"
    using gen_unary_correct[OF g(2) T(2) 1(2) e(2)] 1(1) g(3) by (simp add: computes_def)
qed

lemma exprs_correct:
  assumes "\<And>e. e \<in> set es \<Longrightarrow> expr_correct G M fuel e" "gen_exprs G sc es n = Inr (as, c, n')" "verify_code c T = Some T'"
    and "agree G T sc s env" "eval_exprs G M es (s, m) = Some (vs, m')"
  shows "\<exists>env'. run_code M fuel c (env, m) = Some (env', m') \<and> list_all2 (matches T' env') as vs"
  using assms
proof (induction es arbitrary: n as c T env m vs)
  case (Cons e es)
  from Cons.prems(2) obtain a c1 n1 as' c2 where g: "gen_expr G sc e n = Inr (a, c1, n1)" "gen_exprs G sc es n1 = Inr (as', c2, n')"
      "as = a # as'" "c = c1 @ c2"
    by (auto simp: bind_r_eq_Inr_iff)
  obtain T1 where T: "verify_code c1 T = Some T1" "verify_code c2 T1 = Some T'" using Cons.prems(3) g(4) by (auto simp: bind_eq_Some_conv)
  from Cons.prems(5) obtain v m1 vs' where e: "eval_expr G M e (s, m) = Some (v, m1)" "eval_exprs G M es (s, m1) = Some (vs', m')"
      "vs = v # vs'"
    by (auto simp: bind_eq_Some_conv)
  obtain env1 where 1: "run_code M fuel c1 (env, m) = Some (env1, m1)" "matches T1 env1 a v" "agree G T1 sc s env1"
    using expr_correctE[OF _ g(1) T(1) Cons.prems(4) e(1)] Cons.prems(1) by (metis list.set_intros(1))
  obtain env2 where 2: "run_code M fuel c2 (env1, m1) = Some (env2, m')" "list_all2 (matches T' env2) as' vs'"
    using Cons.IH[OF _ g(2) T(2) 1(3) e(2)] Cons.prems(1) by auto
  show ?case using matches_keeps[OF 1(2) code_extends[OF T(2)] code_keeps[OF T(2) 2(1)]] 1(1) 2 g(3,4) e(3) by simp
qed simp

lemma expr_correct_call:
  fixes M :: "('v, 'm) machine"
  assumes "\<And>e. e \<in> set args \<Longrightarrow> expr_correct G M fuel e"
  shows "expr_correct G M fuel (Call f args)"
proof (rule expr_correctI)
  fix sc n a c n' T T' and s :: "'v vars" and env :: "'v env" and m :: 'm and v :: "'v sval" and m' :: 'm
  assume ag: "agree G T sc s env" and v: "verify_code c T = Some T'"
  assume "gen_expr G sc (Call f args) n = Inr (a, c, n')"
  then obtain es c1 n1 h t c2 where g: "gen_exprs G sc args n = Inr (es, c1, n1)" "gen_call G f es n1 = Inr (Some (h, t), c2, n')"
      "c = c1 @ c2" "a = ETensor h t"
    by (auto simp: bind_r_eq_Inr_iff split: option.split_asm)
  obtain T1 where T: "verify_code c1 T = Some T1" "verify_code c2 T1 = Some T'" using v g(3) by (auto simp: bind_eq_Some_conv)
  assume "eval_expr G M (Call f args) (s, m) = Some (v, m')"
  then obtain vs m1 w u where e: "eval_exprs G M args (s, m) = Some (vs, m1)" "eval_call G M f vs m1 = Some (Some (w, u), m')"
      "v = STensor w u"
    by (auto simp: bind_eq_Some_conv)
  obtain env1 where 1: "run_code M fuel c1 (env, m) = Some (env1, m1)" "list_all2 (matches T1 env1) es vs"
    using exprs_correct[OF assms g(1) T(1) ag e(1)] by blast
  show "computes M fuel c T' env m m' a v"
    using gen_call_correct[OF g(2) T(2) 1(2) e(2)] 1(1) g(3,4) e(3) by (auto simp: computes_def)
qed

lemma expr_correct_ifexp:
  fixes M :: "('v, 'm) machine"
  assumes "expr_correct G M fuel test" "expr_correct G M fuel body" "expr_correct G M fuel orelse"
  shows "expr_correct G M fuel (IfExp test body orelse)"
proof (rule expr_correctI)
  fix sc n e c n' T T' and s :: "'v vars" and env :: "'v env" and m :: 'm and v :: "'v sval" and m' :: 'm
  assume ag: "agree G T sc s env" and v: "verify_code c T = Some T'"
    and gen: "gen_expr G sc (IfExp test body orelse) n = Inr (e, c, n')"
    and ev: "eval_expr G M (IfExp test body orelse) (s, m) = Some (v, m')"
  obtain a c0 n0 where g0: "gen_expr G sc test n = Inr (a, c0, n0)" using gen by (auto simp: bind_r_eq_Inr_iff)
  obtain va m0 where e0: "eval_expr G M test (s, m) = Some (va, m0)" using ev by (auto simp: bind_eq_Some_conv)
  obtain r where c: "c = c0 @ r" using gen g0 by (cases a) (auto simp: bind_r_eq_Inr_iff)
  obtain T0 where T0: "verify_code c0 T = Some T0" "verify_code r T0 = Some T'" using v c by (auto simp: bind_eq_Some_conv)
  obtain env0 where 0: "run_code M fuel c0 (env, m) = Some (env0, m0)" "matches T0 env0 a va" "agree G T0 sc s env0"
    using expr_correctE[OF assms(1) g0 T0(1) ag e0] by metis
  have "computes M fuel r T' env0 m0 m' e v"
  proof (cases a)
    case (EConst k)
    then have va: "va = SConst k" using 0(2) by simp
    obtain b where b: "static_condition k = Inr b" "gen_expr G sc (if b then body else orelse) n0 = Inr (e, r, n')"
      using gen g0 EConst c by (auto simp: bind_r_eq_Inr_iff split: if_splits)
    have ev': "eval_expr G M (if b then body else orelse) (s, m0) = Some (v, m')" using ev e0 va b(1) by (cases b) auto
    have "expr_correct G M fuel (if b then body else orelse)" using assms by simp
    from expr_correctE[OF this b(2) T0(2) 0(3) ev'] show ?thesis unfolding computes_def by metis
  next
    case (ETensor h0 t0)
    then have va: "va = STensor (env0 h0) t0" "T0 h0 = Some t0" using 0(2) by auto
    obtain h ci n1 a1 c1 n2 h1 t1 d1 n3 a2 c2 n4 h2 d2 n5 where g: "gen_int1 G h0 t0 n0 = Inr (h, ci, n1)"
        "gen_expr G sc body n1 = Inr (a1, c1, n2)" "gen_tensor a1 n2 = Inr ((h1, t1), d1, n3)"
        "gen_expr G sc orelse n3 = Inr (a2, c2, n4)" "gen_tensor a2 n4 = Inr ((h2, t1), d2, n5)"
        "e = ETensor n5 t1" "r = ci @ [IIf [(n5, t1)] h (c1 @ d1) [h1] (c2 @ d2) [h2]]"
      using gen g0 ETensor c by (auto simp: bind_r_eq_Inr_iff)
    obtain Ti T1 T1' T2 T2' where T: "verify_code ci T0 = Some Ti" "verify_code c1 Ti = Some T1" "verify_code d1 T1 = Some T1'"
        "verify_code c2 Ti = Some T2" "verify_code d2 T2 = Some T2'" "T' = Ti(n5 \<mapsto> t1)"
      using T0(2) g(7) by (auto simp: bind_eq_Some_conv)
    obtain w where w: "eval_int1 M (env0 h0) t0 = Some w" using ev e0 va by (auto simp: bind_eq_Some_conv)
    obtain envi where i: "run_code M fuel ci (env0, m0) = Some (envi, m0)" "envi h = w"
      using gen_int1_correct[where M = M and env = env0 and m = m0 and fuel = fuel, OF g(1) T(1) va(2) w] by blast
    have agi: "agree G Ti sc s envi" by (rule agree_keeps[OF 0(3) code_extends[OF T(1)] code_keeps[OF T(1) i(1)]])
    have branch: "\<exists>env'. run_code M fuel (ce @ cd) (envi, m0) = Some (env', m') \<and> v = STensor (env' hx) t1"
      if "expr_correct G M fuel ex" "gen_expr G sc ex nx = Inr (ax, ce, ny)" "gen_tensor ax ny = Inr ((hx, t1), cd, nz)"
        "verify_code ce Ti = Some Tx" "verify_code cd Tx = Some Ty"
        "eval_expr G M ex (s, m0) = Some (vx, m')" "eval_tensor M vx = Some (ux, tx)" "v = STensor ux tx"
      for ex nx ax ce ny hx cd nz Tx Ty vx ux tx
    proof -
      note H = that
      obtain envx where x: "run_code M fuel ce (envi, m0) = Some (envx, m')" "matches Tx envx ax vx"
        using expr_correctE[OF H(1,2,4) agi H(6)] by metis
      from gen_tensor_correct[OF H(3,5) x(2) H(7), of fuel m'] x(1) H(8) show ?thesis by (auto simp: computes_def)
    qed
    have "\<exists>env'. run_code M fuel r (env0, m0) = Some (env', m') \<and> v = STensor (env' n5) t1"
    proof (cases "truth M w")
      case True
      then obtain vx ux tx where "eval_expr G M body (s, m0) = Some (vx, m')" "eval_tensor M vx = Some (ux, tx)" "v = STensor ux tx"
        using ev e0 va w by (auto simp: bind_eq_Some_conv)
      from branch[OF assms(2) g(2,3) T(2,3) this] show ?thesis using True i g(7) by auto
    next
      case False
      then obtain vx ux tx where "eval_expr G M orelse (s, m0) = Some (vx, m')" "eval_tensor M vx = Some (ux, tx)" "v = STensor ux tx"
        using ev e0 va w by (auto simp: bind_eq_Some_conv)
      from branch[OF assms(3) g(4,5) T(4,5) this] show ?thesis using False i g(7) by auto
    qed
    then show ?thesis using T(6) g(6) by (auto simp: computes_def)
  qed
  then show "computes M fuel c T' env m m' e v" using 0(1) c by (simp add: computes_def)
qed

lemma expr_correct:
  fixes M :: "('v, 'm) machine"
  shows "expr_correct G M fuel e"
proof (induction e)
  case (Num c)
  show ?case by (rule expr_correctI) (auto simp: computes_def)
next
  case (Name x)
  show ?case
  proof (rule expr_correctI)
    fix sc n a c n' T T' and s :: "'v vars" and env :: "'v env" and m :: 'm and v :: "'v sval" and m' :: 'm
    assume "gen_expr G sc (Name x) n = Inr (a, c, n')" "verify_code c T = Some T'" "agree G T sc s env"
      "eval_expr G M (Name x) (s, m) = Some (v, m')"
    then show "computes M fuel c T' env m m' a v" using gen_name_correct[of G sc x a T s env M m v m']
      by (auto simp: bind_r_eq_Inr_iff computes_def)
  qed
qed (blast intro: expr_correct_binop expr_correct_unary expr_correct_ifexp expr_correct_call)+

lemmas gen_exprE = expr_correctE[OF expr_correct]

lemma gen_exprsE:
  assumes "gen_exprs G sc es n = Inr (as, c, n')" "verify_code c T = Some T'" "agree G T sc s env"
    and "eval_exprs G M es (s, m) = Some (vs, m')"
  obtains env' where "run_code M fuel c (env, m) = Some (env', m')" "list_all2 (matches T' env') as vs" "agree G T' sc s env'"
proof -
  obtain env' where e: "run_code M fuel c (env, m) = Some (env', m')" "list_all2 (matches T' env') as vs"
    using exprs_correct[OF expr_correct assms] by blast
  show thesis by (rule that[OF e agree_keeps[OF assms(3) code_extends[OF assms(2)] code_keeps[OF assms(2) e(1)]]])
qed

end
