(* ===== verification/Codegen_Wf.thy ===== *)
theory Codegen_Wf
  imports Codegen_Agree
begin

text \<open>
  The programs the generator is correct for.  The body of a \<open>while\<close> is visited twice in one scope, so what it
  defines must be in scope before it or not be defined before it at all; the variable of a \<open>for\<close> must not be assigned in
  its body, because the generator replaces the last value of that name by the induction variable; and the bound of a
  one-argument \<open>range\<close> is visited twice, so it must have no effect.
\<close>

section \<open>Names in scope and names defined\<close>

primrec pure_expr :: "expr \<Rightarrow> bool" where
  "pure_expr (Num c) = True"
| "pure_expr (Name x) = True"
| "pure_expr (BinOp f l r) = (pure_expr l \<and> pure_expr r)"
| "pure_expr (UnaryOp f e) = pure_expr e"
| "pure_expr (IfExp test body orelse) = (pure_expr test \<and> pure_expr body \<and> pure_expr orelse)"
| "pure_expr (Call f args) = False"

text \<open>The tensors a statement is certain to define, and the names that may be defined by it and outlive it.\<close>

primrec ensures :: "stmt \<Rightarrow> string set" where
  "ensures (Assign x e) = {x}"
| "ensures (Annotate x e) = {}"
| "ensures (Effect f args) = {}"
| "ensures (IfStmt test body orelse) = \<Union> (set (map ensures body)) \<inter> \<Union> (set (map ensures orelse))"
| "ensures (WhileStmt test body) = {}"
| "ensures (ForStmt x cls args body) = {x}"
| "ensures (StaticFor x args body) = {}"

primrec outlives :: "stmt \<Rightarrow> string set" where
  "outlives (Assign x e) = {x}"
| "outlives (Annotate x e) = {x}"
| "outlives (Effect f args) = {}"
| "outlives (IfStmt test body orelse) = \<Union> (set (map outlives body)) \<union> \<Union> (set (map outlives orelse))"
| "outlives (WhileStmt test body) = {}"
| "outlives (ForStmt x cls args body) = {}"
| "outlives (StaticFor x args body) = \<Union> (set (map outlives body)) - {x}"

abbreviation ensures_in :: "stmt list \<Rightarrow> string set" where
  "ensures_in ss \<equiv> \<Union> (set (map ensures ss))"

abbreviation outlives_in :: "stmt list \<Rightarrow> string set" where
  "outlives_in ss \<equiv> \<Union> (set (map outlives ss))"

text \<open>\<open>L\<close> are names certain to be in scope; no name outside \<open>U\<close> is defined.\<close>

fun wf_stmt :: "string set \<Rightarrow> string set \<Rightarrow> stmt \<Rightarrow> bool"
  and wf_stmts :: "string set \<Rightarrow> string set \<Rightarrow> stmt list \<Rightarrow> bool" where
  "wf_stmt L U (Assign x e) = True"
| "wf_stmt L U (Annotate x e) = True"
| "wf_stmt L U (Effect f args) = True"
| "wf_stmt L U (IfStmt test body orelse) = (wf_stmts L U body \<and> wf_stmts L U orelse)"
| "wf_stmt L U (WhileStmt test body) =
     ((\<forall>x\<in>assigned_in body. x \<in> L \<or> x \<notin> U) \<and> (\<forall>x\<in>statics_in body. x \<notin> U) \<and> wf_stmts L U body)"
| "wf_stmt L U (ForStmt x cls args body) =
     (x \<notin> assigned_in body \<and> (cls = Py_range \<longrightarrow> (case args of [e] \<Rightarrow> pure_expr e | _ \<Rightarrow> True)) \<and>
      wf_stmts (insert x L) (insert x U) body)"
| "wf_stmt L U (StaticFor x args body) = wf_stmts (insert x L) (insert x U \<union> outlives_in body) body"
| "wf_stmts L U [] = True"
| "wf_stmts L U (s # ss) = (wf_stmt L U s \<and> wf_stmts (L \<union> ensures s) (U \<union> outlives s) ss)"

lemma pure_expr_memory: "pure_expr e \<Longrightarrow> eval_expr G M e (s, m) = Some (v, m') \<Longrightarrow> m' = m"
proof (induction e arbitrary: v m')
  case (Name x)
  then show ?case by (auto split: option.splits)
next
  case (IfExp test body orelse)
  then obtain c m1 where c: "eval_expr G M test (s, m) = Some (c, m1)" by (auto simp: bind_eq_Some_conv)
  then have "m1 = m" using IfExp by auto
  then show ?case using IfExp c by (cases c) (auto simp: bind_eq_Some_conv split: if_splits)
qed (force simp: bind_eq_Some_conv)+

section \<open>What is in scope after a statement\<close>

definition ensures_ok :: "genv \<Rightarrow> stmt \<Rightarrow> bool" where
  "ensures_ok G s \<longleftrightarrow> (\<forall>sc d n c sc' d' n'. distinct (names_of sc) \<longrightarrow> gen_stmt G s (sc, d, n) = Inr (c, sc', d', n') \<longrightarrow>
     ensures s \<subseteq> keys d')"

lemma ensures_okI:
  assumes "\<And>sc d n c sc' d' n'. distinct (names_of sc) \<Longrightarrow> gen_stmt G s (sc, d, n) = Inr (c, sc', d', n') \<Longrightarrow> ensures s \<subseteq> keys d'"
  shows "ensures_ok G s"
  unfolding ensures_ok_def using assms by blast

lemma ensures_oks:
  assumes "\<And>s. s \<in> set ss \<Longrightarrow> ensures_ok G s" "distinct (names_of sc)" "gen_stmts G ss (sc, d, n) = Inr (c, sc', d', n')"
  shows "ensures_in ss \<subseteq> keys d'"
  using assms
proof (induction ss arbitrary: sc d n c)
  case (Cons s ss)
  from Cons.prems(3) obtain c1 sc1 d1 n1 c2 where 1: "gen_stmt G s (sc, d, n) = Inr (c1, sc1, d1, n1)"
      and 2: "gen_stmts G ss (sc1, d1, n1) = Inr (c2, sc', d', n')"
    by (auto simp: bind_r_eq_Inr_iff)
  note st = gen_stmt_scopes[OF Cons.prems(2) 1]
  have sc1: "distinct (names_of sc1)" by (rule scope_stepD(5)[OF st Cons.prems(2)])
  have "ensures s \<subseteq> keys d1" using Cons.prems(1)[of s] Cons.prems(2) 1 unfolding ensures_ok_def by (metis list.set_intros(1))
  then have "ensures s \<subseteq> keys d'" using scope_step_keys(1)[OF gen_stmts_scopes[OF sc1 2]] by blast
  moreover have "ensures_in ss \<subseteq> keys d'" using Cons.IH[OF _ sc1 2] Cons.prems(1) by simp
  ultimately show ?case by simp
qed simp

lemma keys_update [simp]: "keys (AList.update x e sc) = insert x (keys sc)"
  by (auto simp: names_of_update)

lemma keys_binds:
  assumes "distinct names" "length names = length args"
  shows "keys (binds names args sc) = keys sc \<union> set names"
  by (auto simp: names_of_binds[OF assms])

lemma keys_binds_mono: "keys sc \<subseteq> keys (binds names args sc)"
proof -
  have "keys sc \<subseteq> keys (fold (\<lambda>(x, (h, t)). AList.update x (ETensor h t)) ps sc)" for ps
  proof (induction ps arbitrary: sc)
    case (Cons p ps)
    then show ?case using Cons.IH[of "AList.update (fst p) (ETensor (fst (snd p)) (snd (snd p))) sc"] by (simp add: split_beta)
  qed simp
  then show ?thesis unfolding binds_def .
qed

lemma ensures_ok_if:
  assumes b: "\<And>s. s \<in> set body \<Longrightarrow> ensures_ok G s" and e: "\<And>s. s \<in> set orelse \<Longrightarrow> ensures_ok G s"
  shows "ensures_ok G (IfStmt test body orelse)"
proof (rule ensures_okI)
  fix sc d n c sc' d' n'
  assume sc: "distinct (names_of sc)" and "gen_stmt G (IfStmt test body orelse) (sc, d, n) = Inr (c, sc', d', n')"
  from this(2) show "ensures (IfStmt test body orelse) \<subseteq> keys d'"
  proof (cases rule: gen_ifE)
    case (static k c0 n0 bb c1)
    then show ?thesis using ensures_oks[OF b sc] ensures_oks[OF e sc] by (cases bb) fastforce+
  next
    case (dynamic h0 t0 c0 n0 h ci n1 c1 sc1 d1 n2 c2 sc2 d2 n3 names ys zs rs)
    note m = merged_names_facts[OF dynamic(5) sc scope_stepD(6)[OF gen_stmts_scopes[OF sc dynamic(3)]]]
    have "ensures (IfStmt test body orelse) \<subseteq> set names"
      using ensures_oks[OF b sc dynamic(3)] ensures_oks[OF e sc dynamic(4)] m(2) by auto
    moreover have "length names = length rs" using dynamic(6,8) by (simp add: map_r_length)
    moreover have "d' = binds names rs d" using dynamic(10) by (simp add: bind_names_binds)
    moreover have "distinct names" using m(1) by simp
    ultimately show ?thesis using keys_binds[of names rs d] by blast
  qed
qed

lemma ensures_ok: "ensures_ok G s"
proof (induction s)
  case (Assign x e)
  show ?case
  proof (rule ensures_okI)
    fix sc d n c sc' d' n' assume "gen_stmt G (Assign x e) (sc, d, n) = Inr (c, sc', d', n')"
    then show "ensures (Assign x e) \<subseteq> keys d'" by (rule gen_assignE) auto
  qed
next
  case (IfStmt test body orelse)
  then show ?case by (rule ensures_ok_if)
next
  case (ForStmt x cls args body)
  show ?case
  proof (rule ensures_okI)
    fix sc d n c sc' d' n'
    assume "gen_stmt G (ForStmt x cls args body) (sc, d, n) = Inr (c, sc', d', n')"
    then obtain scx n5 t names rs where "d' = binds names rs (AList.update x (ETensor n5 t) d)"
      by (elim gen_forE) (auto simp: bind_names_binds)
    then show "ensures (ForStmt x cls args body) \<subseteq> keys d'"
      using keys_binds_mono[of "AList.update x (ETensor n5 t) d" names rs] by auto
  qed
qed (rule ensures_okI; simp)+

lemma gen_stmt_ensures:
  "distinct (names_of sc) \<Longrightarrow> gen_stmt G s (sc, d, n) = Inr (c, sc', d', n') \<Longrightarrow> ensures s \<subseteq> keys d'"
  using ensures_ok[of G s] unfolding ensures_ok_def by blast

section \<open>What is defined after a statement\<close>

lemma result_option_eq_Some [simp]: "result_option r = Some x \<longleftrightarrow> r = Inr x"
  by (cases r) auto

lemma exec_ifE:
  assumes "exec_stmt G M fuel (IfStmt test body orelse) (st, m) = Some r"
  obtains (static) k m0 b where "eval_expr G M test (st, m) = Some (SConst k, m0)" "static_condition k = Inr b"
      "exec_stmts G M fuel (if b then body else orelse) (st, m0) = Some r"
  | (dynamic) v t m0 w where "eval_expr G M test (st, m) = Some (STensor v t, m0)" "eval_int1 M v t = Some w"
      "exec_stmts G M fuel (if truth M w then body else orelse) (st, m0) = Some r"
proof -
  obtain c m0 where c: "eval_expr G M test (st, m) = Some (c, m0)" using assms by (auto simp: bind_eq_Some_conv)
  show thesis
  proof (cases c)
    case (SConst k)
    then obtain b where b: "static_condition k = Inr b" using assms c by (auto simp: bind_eq_Some_conv)
    show thesis by (rule static[OF c[unfolded SConst] b]) (use assms c SConst b in \<open>cases b; simp\<close>)
  next
    case (STensor v t)
    then obtain w where w: "eval_int1 M v t = Some w" using assms c by (auto simp: bind_eq_Some_conv)
    show thesis by (rule dynamic[OF c[unfolded STensor] w]) (use assms c STensor w in \<open>cases "truth M w"; simp\<close>)
  qed
qed

definition dom_ok :: "genv \<Rightarrow> ('v, 'm) machine \<Rightarrow> nat \<Rightarrow> stmt \<Rightarrow> bool" where
  "dom_ok G M fuel s \<longleftrightarrow> (\<forall>st m st' m'. exec_stmt G M fuel s (st, m) = Some (st', m') \<longrightarrow> dom st' \<subseteq> dom st \<union> outlives s)"

lemma dom_okI:
  fixes M :: "('v, 'm) machine"
  assumes "\<And>st m st' m'. exec_stmt G M fuel s (st, m) = Some (st', m') \<Longrightarrow> dom st' \<subseteq> dom st \<union> outlives s"
  shows "dom_ok G M fuel s"
  unfolding dom_ok_def using assms by blast

lemma dom_oks:
  assumes "\<And>s. s \<in> set ss \<Longrightarrow> dom_ok G M fuel s" "exec_stmts G M fuel ss (st, m) = Some (st', m')"
  shows "dom st' \<subseteq> dom st \<union> outlives_in ss"
  using assms
proof (induction ss arbitrary: st m)
  case (Cons s ss)
  then obtain st1 m1 where 1: "exec_stmt G M fuel s (st, m) = Some (st1, m1)" "exec_stmts G M fuel ss (st1, m1) = Some (st', m')"
    by (auto simp: bind_eq_Some_conv)
  have "dom st1 \<subseteq> dom st \<union> outlives s" using Cons.prems(1) 1(1) unfolding dom_ok_def by (meson list.set_intros(1))
  moreover have "dom st' \<subseteq> dom st1 \<union> outlives_in ss" using Cons.IH[OF _ 1(2)] Cons.prems(1) by simp
  ultimately have "dom st' \<subseteq> dom st \<union> (outlives s \<union> outlives_in ss)" by blast
  then show ?case by simp
qed simp

lemma dom_leave: "dom (fst (leave s0 st)) \<subseteq> dom s0"
  by (auto simp: leave_def split_beta split: if_splits)

lemma dom_ok_while: "dom_ok G M fuel (WhileStmt test body)"
proof (rule dom_okI)
  fix st m st' m' assume e: "exec_stmt G M fuel (WhileStmt test body) (st, m) = Some (st', m')"
  have "dom (fst (st', m')) \<subseteq> dom st"
  proof (rule iterate_invariant[where P = "\<lambda>s. dom (fst s) \<subseteq> dom st", OF _ _ _ e[unfolded exec_stmt.simps]])
    fix s b s' assume "dom (fst s) \<subseteq> dom st" "(\<lambda>(s', m). tensor_test M s' (eval_expr G M test (s', m))) s = Some (b, s')"
    moreover from this(2) have "fst s' = fst s"
      by (cases s) (auto simp: tensor_test_def bind_eq_Some_conv split: sval.split_asm)
    ultimately show "dom (fst s') \<subseteq> dom st" by simp
  next
    fix s s' assume "map_option (leave st) (exec_stmts G M fuel body s) = Some s'"
    then show "dom (fst s') \<subseteq> dom st" using dom_leave by blast
  qed simp
  then show "dom st' \<subseteq> dom st \<union> outlives (WhileStmt test body)" by simp
qed

lemma dom_ok_for: "dom_ok G M fuel (ForStmt x cls args body)"
proof (rule dom_okI)
  fix st m st' m' assume "exec_stmt G M fuel (ForStmt x cls args body) (st, m) = Some (st', m')"
  then obtain t ks m1 where e: "for_each (\<lambda>k (s', m). map_option (leave (st(x := None)))
      (exec_stmts G M fuel body (s'(x := Some (STensor (int_val M t k) t)), m))) ks (st(x := None), m1) = Some (st', m')"
    by (auto simp: bind_eq_Some_conv Let_def)
  have "dom (fst (st', m')) \<subseteq> dom st"
  proof (rule for_each_invariant[where P = "\<lambda>s. dom (fst s) \<subseteq> dom st", OF _ _ e])
    fix k s s' assume "(\<lambda>(s', m). map_option (leave (st(x := None)))
      (exec_stmts G M fuel body (s'(x := Some (STensor (int_val M t k) t)), m))) s = Some s'"
    then obtain r where "s' = leave (st(x := None)) r" by (cases s) auto
    then show "dom (fst s') \<subseteq> dom st" using dom_leave[of "st(x := None)" r] by auto
  qed auto
  then show "dom st' \<subseteq> dom st \<union> outlives (ForStmt x cls args body)" by simp
qed

lemma dom_ok_static:
  assumes "\<And>s. s \<in> set body \<Longrightarrow> dom_ok G M fuel s"
  shows "dom_ok G M fuel (StaticFor x args body)"
proof (rule dom_okI)
  fix st m st' m' assume "exec_stmt G M fuel (StaticFor x args body) (st, m) = Some (st', m')"
  then obtain ks m1 s1 where e: "for_each (\<lambda>k (s', m). exec_stmts G M fuel body (s'(x := Some (SConst (NInt k))), m)) ks (st, m1) = Some (s1, m')"
      "st' = s1(x := None)"
    by (auto simp: bind_eq_Some_conv)
  have "dom (fst (s1, m')) \<subseteq> insert x (dom st \<union> outlives_in body)"
  proof (rule for_each_invariant[where P = "\<lambda>s. dom (fst s) \<subseteq> insert x (dom st \<union> outlives_in body)", OF _ _ e(1)])
    fix k s s' assume P: "dom (fst s) \<subseteq> insert x (dom st \<union> outlives_in body)"
      "(\<lambda>(s', m). exec_stmts G M fuel body (s'(x := Some (SConst (NInt k))), m)) s = Some s'"
    obtain s0 m0 s2 m2 where s: "s = (s0, m0)" "s' = (s2, m2)" by (cases s; cases s')
    have "dom s2 \<subseteq> dom (s0(x := Some (SConst (NInt k)))) \<union> outlives_in body" by (rule dom_oks[OF assms]) (use P(2) s in auto)
    then show "dom (fst s') \<subseteq> insert x (dom st \<union> outlives_in body)" using P(1) s by auto
  qed auto
  then show "dom st' \<subseteq> dom st \<union> outlives (StaticFor x args body)" using e(2) by auto
qed

lemma dom_ok: "dom_ok G M fuel s"
proof (induction s)
  case (Assign x e)
  show ?case by (rule dom_okI) (auto simp: bind_eq_Some_conv)
next
  case (Annotate x e)
  show ?case by (rule dom_okI) (auto simp: bind_eq_Some_conv split: sval.split_asm)
next
  case (Effect f args)
  show ?case by (rule dom_okI) (auto simp: bind_eq_Some_conv)
next
  case (IfStmt test body orelse)
  show ?case
  proof (rule dom_okI)
    fix st m st' m' assume "exec_stmt G M fuel (IfStmt test body orelse) (st, m) = Some (st', m')"
    then obtain b m1 where "exec_stmts G M fuel (if b then body else orelse) (st, m1) = Some (st', m')"
      by (rule exec_ifE)
    then have "dom st' \<subseteq> dom st \<union> outlives_in (if b then body else orelse)"
      using dom_oks[OF IfStmt(1)] dom_oks[OF IfStmt(2)] by (cases b) auto
    then show "dom st' \<subseteq> dom st \<union> outlives (IfStmt test body orelse)" by (cases b) auto
  qed
qed (rule dom_ok_while dom_ok_for dom_ok_static; assumption)+

lemma exec_stmt_dom: "exec_stmt G M fuel s (st, m) = Some (st', m') \<Longrightarrow> dom st' \<subseteq> dom st \<union> outlives s"
  using dom_ok[of G M fuel s] unfolding dom_ok_def by blast

lemma exec_stmts_dom: "exec_stmts G M fuel ss (st, m) = Some (st', m') \<Longrightarrow> dom st' \<subseteq> dom st \<union> outlives_in ss"
  by (rule dom_oks[OF dom_ok])

end
