(* ===== verification/Codegen_Bind.thy ===== *)
theory Codegen_Bind
  imports Codegen_Wf
begin

text \<open>
  Names bound to the arguments of a region or the results of an operation: when the values passed are the ones
  the variables have, scope and store agree again.  Simulation of the loops of the source by the ones of the code.
\<close>

section \<open>Values carried\<close>

text \<open>The variables of \<open>names\<close> have the values \<open>vs\<close>; the others agree with their entries.\<close>

definition holds :: "genv \<Rightarrow> types \<Rightarrow> scope \<Rightarrow> string list \<Rightarrow> ty list \<Rightarrow> 'v list \<Rightarrow> 'v vars \<Rightarrow> 'v env \<Rightarrow> bool" where
  "holds G T sc names ts vs s env \<longleftrightarrow>
     length vs = length names \<and>
     (\<forall>i<length names. \<forall>v. s (names ! i) = Some v \<longrightarrow> v = STensor (vs ! i) (ts ! i)) \<and>
     (\<forall>x. x \<notin> set names \<longrightarrow> matching T sc s env x) \<and>
     (\<forall>x. globals G x \<noteq> None \<longrightarrow> x \<notin> set names \<and> map_of sc x = None \<and> s x = None)"

lemma put_values_nth:
  assumes "distinct (map fst args)" "length vs = length args" "i < length args"
  shows "put_values args vs env (fst (args ! i)) = vs ! i"
  using assms
proof (induction args arbitrary: vs env i)
  case (Cons a args)
  then obtain v vs' where "vs = v # vs'" by (cases vs) auto
  then show ?case using Cons by (cases i) (auto simp: put_values_other)
qed simp

lemma add_types_nth:
  assumes "distinct (map fst args)" "i < length args"
  shows "add_types args T (fst (args ! i)) = Some (snd (args ! i))"
  using assms
proof (induction args arbitrary: T i)
  case (Cons a args)
  then show ?case by (cases a; cases i) (auto simp: add_types_other)
qed simp

lemma map_of_zip_nth': "distinct xs \<Longrightarrow> length xs = length ys \<Longrightarrow> i < length xs \<Longrightarrow> map_of (zip xs ys) (xs ! i) = Some (ys ! i)"
  by (rule map_of_zip_nth) auto

lemma bind_agree:
  assumes h: "holds G T sc names ts vs s env" and d: "distinct names" and l: "length names = length args"
    and ts: "map snd args = ts" and f: "fresh T args"
  shows "agree G (add_types args T) (binds names args sc) s (put_values args vs env)"
proof -
  have z: "map_of (zip names args) x = None \<longleftrightarrow> x \<notin> set names" for x
    using l by (simp add: map_of_zip_is_None)
  have "matching (add_types args T) (binds names args sc) s (put_values args vs env) x" for x
  proof (cases "x \<in> set names")
    case True
    then obtain i where i: "i < length names" "x = names ! i" by (auto simp: in_set_conv_nth)
    obtain k t where kt: "args ! i = (k, t)" by (cases "args ! i")
    have "map_of (zip names args) x = Some (k, t)" using map_of_zip_nth'[OF d l i(1)] i(2) kt by simp
    moreover have "ts ! i = t" using ts i(1) l kt by auto
    moreover have "s x = Some v \<Longrightarrow> v = STensor (vs ! i) (ts ! i)" for v using h i by (auto simp: holds_def)
    ultimately show ?thesis
      using put_values_nth[of args vs i env] add_types_nth[of args i T] f h kt i(1) l
      by (auto simp: matching_def map_of_binds[OF d l] fresh_def holds_def)
  next
    case False
    then have "matching T sc s env x" using h by (auto simp: holds_def)
    then have "matching (add_types args T) sc s (put_values args vs env) x"
      by (rule matching_keeps[OF _ add_types_le[OF f] keeps_put_values[OF f]])
    then show ?thesis using z[of x] False by (simp add: matching_def map_of_binds[OF d l])
  qed
  moreover have "map_of (binds names args sc) x = None" "s x = None" if "globals G x \<noteq> None" for x
    using h that z[of x] by (simp_all add: holds_def map_of_binds[OF d l])
  ultimately show ?thesis unfolding agree_def by blast
qed

lemma holds_keeps:
  assumes "holds G T sc names ts vs s env" "keeps T env env'"
  shows "holds G T sc names ts vs s env'"
  using assms matching_keeps[OF _ map_le_refl] unfolding holds_def by blast

lemma matching_store: "matching T sc s env x \<Longrightarrow> s' x = s x \<or> s' x = None \<Longrightarrow> matching T sc s' env x"
  by (auto simp: matching_def)

lemma holds_store:
  assumes "holds G T sc names ts vs s env" "\<And>x. s' x = s x \<or> s' x = None"
  shows "holds G T sc names ts vs s' env"
proof -
  have "matching T sc s' env x" if "x \<notin> set names" for x
    using assms(1) that matching_store[where s = s and s' = s' and x = x, OF _ assms(2)[of x]] unfolding holds_def by blast
  moreover have "v = STensor (vs ! i) (ts ! i)" if "i < length names" "s' (names ! i) = Some v" for i v
    using assms(1) assms(2)[of "names ! i"] that unfolding holds_def by auto
  moreover have "s' x = None" if "globals G x \<noteq> None" for x using assms(1) assms(2)[of x] that unfolding holds_def by auto
  ultimately show ?thesis using assms(1) unfolding holds_def by blast
qed

lemma holds_scope:
  assumes "holds G T sc names ts vs s env" "\<And>x. s x \<noteq> None \<Longrightarrow> x \<notin> set names \<Longrightarrow> map_of sc' x = map_of sc x \<or> map_of sc' x = None"
    and "\<And>x. globals G x \<noteq> None \<Longrightarrow> map_of sc' x = None"
  shows "holds G T sc' names ts vs s env"
proof -
  have "matching T sc' s env x" if "x \<notin> set names" for x
    using assms(1) assms(2)[of x] that unfolding holds_def matching_def by auto
  then show ?thesis using assms(1,3) unfolding holds_def by blast
qed

section \<open>Values yielded\<close>

definition located :: "scope \<Rightarrow> string list \<Rightarrow> (nat \<times> ty) list \<Rightarrow> bool" where
  "located sc names ys \<longleftrightarrow> list_all2 (\<lambda>x (h, t). map_of sc x = Some (ETensor h t)) names ys"

lemma located_holds:
  assumes a: "agree G T2 sc2 s2 env2" and l: "located sc2 names ys" and t: "typed T2 (map fst ys) ts"
    and m: "\<And>x. x \<notin> set names \<Longrightarrow> matching T sc s2 env x"
    and g: "\<And>x. globals G x \<noteq> None \<Longrightarrow> map_of sc x = None"
  shows "holds G T sc names ts (map env2 (map fst ys)) s2 env"
  unfolding holds_def
proof (intro conjI allI impI)
  have len: "length ys = length names" using l by (auto simp: located_def list_all2_lengthD)
  then show "length (map env2 (map fst ys)) = length names" by simp
  fix i v assume i: "i < length names" "s2 (names ! i) = Some v"
  obtain h u where y: "ys ! i = (h, u)" by (cases "ys ! i")
  then have "map_of sc2 (names ! i) = Some (ETensor h u)" using l i(1) by (auto simp: located_def list_all2_conv_all_nth)
  moreover have "matching T2 sc2 s2 env2 (names ! i)" using a by (simp add: agree_def)
  ultimately have "matches T2 env2 (ETensor h u) v" using i(2) unfolding matching_def by blast
  moreover have "T2 h = Some (ts ! i)" using t len i(1) y by (auto simp: typed_def list_eq_iff_nth_eq)
  ultimately show "v = STensor (map env2 (map fst ys) ! i) (ts ! i)" using len i(1) y by auto
next
  fix x assume x: "globals G x \<noteq> None"
  then have n: "map_of sc2 x = None" "s2 x = None" using a by (auto simp: agree_def)
  then show "s2 x = None" by simp
  show "map_of sc x = None" by (rule g[OF x])
  show "x \<notin> set names" using l n(1) by (auto simp: located_def list_all2_conv_all_nth in_set_conv_nth)
qed (rule m)

lemma map_r_all2: "map_r f xs = Inr ys \<Longrightarrow> list_all2 (\<lambda>x y. f x = Inr y) xs ys"
  by (induction xs arbitrary: ys) (auto simp: bind_r_eq_Inr_iff)

lemma tensor_of_eq_Inr [simp]: "tensor_of e = Inr (h, t) \<longleftrightarrow> e = ETensor h t"
  by (cases e) auto

lemma lookup_tensor_eq_Inr [simp]: "lookup_tensor sc x = Inr (h, t) \<longleftrightarrow> map_of sc x = Some (ETensor h t)"
  by (auto simp: lookup_tensor_def split: option.split)

lemma located_lookup:
  assumes "map_r (lookup_tensor d) names = Inr ys" "\<forall>x\<in>keys d. map_of d x = map_of sc x"
  shows "located sc names ys"
  unfolding located_def using map_r_all2[OF assms(1)]
proof (rule list_all2_mono)
  fix x y assume "lookup_tensor d x = Inr y"
  then obtain h t where y: "y = (h, t)" "map_of d x = Some (ETensor h t)" by (cases y) auto
  then have "x \<in> keys d" by (simp add: keys_map_of)
  then show "case y of (h, t) \<Rightarrow> map_of sc x = Some (ETensor h t)" using assms(2) y by auto
qed

lemma located_branch:
  assumes "map_r (branch_value sc d) names = Inr ys" "\<forall>x\<in>keys d. map_of d x = map_of sc' x"
    and "\<And>x. x \<in> set names \<Longrightarrow> x \<notin> keys d \<Longrightarrow> map_of sc' x = map_of sc x"
  shows "located sc' names ys"
proof -
  have "map_of sc' x = Some (ETensor h t)" if "x \<in> set names" "branch_value sc d x = Inr (h, t)" for x h t
    using assms(2) assms(3)[of x] that by (cases "x \<in> keys d") (auto simp: branch_value_def in_scope_keys)
  then show ?thesis using map_r_all2[OF assms(1)] by (auto simp: located_def list_all2_conv_all_nth split: prod.split)
qed

lemma verify_loop_carried_eq_Inr:
  "verify_loop_carried_variable sc d x = Inr (h, t) \<longleftrightarrow>
   map_of sc x = Some (ETensor h t) \<and> (\<exists>h'. map_of d x = Some (ETensor h' t))"
proof
  assume "verify_loop_carried_variable sc d x = Inr (h, t)"
  then show "map_of sc x = Some (ETensor h t) \<and> (\<exists>h'. map_of d x = Some (ETensor h' t))"
    unfolding verify_loop_carried_variable_def by (auto split: sum.split_asm simp: bind_r_eq_Inr_iff)
next
  assume "map_of sc x = Some (ETensor h t) \<and> (\<exists>h'. map_of d x = Some (ETensor h' t))"
  then obtain h' where "lookup_tensor d x = Inr (h', t)" "lookup_tensor sc x = Inr (h, t)" by auto
  then show "verify_loop_carried_variable sc d x = Inr (h, t)" unfolding verify_loop_carried_variable_def
    by (simp add: check_r_def del: lookup_tensor_eq_Inr)
qed

lemma located_carried:
  "map_r (verify_loop_carried_variable sc d) names = Inr inits \<Longrightarrow> located sc names inits"
  unfolding located_def by (drule map_r_all2) (erule list_all2_mono, auto simp: verify_loop_carried_eq_Inr)

lemma located_keys:
  assumes "located sc names ys"
  shows "set names \<subseteq> keys sc"
proof -
  have "map_of sc (names ! i) \<noteq> None" if "i < length names" for i
    using assms that by (cases "ys ! i") (auto simp: located_def list_all2_conv_all_nth)
  then show ?thesis unfolding keys_map_of[symmetric] by (metis in_set_conv_nth subsetI)
qed

lemma located_length: "located sc names ys \<Longrightarrow> length ys = length names"
  by (simp add: located_def list_all2_lengthD)

text \<open>The names of the second visit are the ones of the first when their number is.\<close>

lemma carried_again:
  assumes "names_of d' = names_of d @ ex" "carried_names sc d = names" "length (carried_names sc d') = length names"
  shows "carried_names sc d' = names"
  using assms by (simp add: carried_names_def)

section \<open>Simulation of loops\<close>

lemma iterate_sim:
  assumes test: "\<And>s c b s'. R s c \<Longrightarrow> test1 s = Some (b, s') \<Longrightarrow> \<exists>c'. test2 c = Some (b, c') \<and> Q s' c'"
    and body: "\<And>s c s'. Q s c \<Longrightarrow> body1 s = Some s' \<Longrightarrow> \<exists>c'. body2 c = Some c' \<and> R s' c'"
    and "R s c" "iterate fuel test1 body1 s = Some s'"
  shows "\<exists>c'. iterate fuel test2 body2 c = Some c' \<and> Q s' c'"
  using assms(3,4)
proof (induction fuel arbitrary: s c)
  case (Suc fuel)
  then obtain b t where t: "test1 s = Some (b, t)" by (auto simp: bind_eq_Some_conv)
  then obtain c1 where c1: "test2 c = Some (b, c1)" "Q t c1" using test Suc.prems(1) by blast
  show ?case
  proof (cases b)
    case True
    then obtain u where u: "body1 t = Some u" "iterate fuel test1 body1 u = Some s'" using Suc.prems(2) t by (auto simp: bind_eq_Some_conv)
    then obtain c2 where "body2 c1 = Some c2" "R u c2" using body c1(2) by blast
    then show ?thesis using Suc.IH[OF _ u(2)] True c1(1) by fastforce
  qed (use Suc.prems(2) t c1 in auto)
qed simp

lemma for_each_sim:
  assumes body: "\<And>k s c s'. R s c \<Longrightarrow> body1 (f k) s = Some s' \<Longrightarrow> \<exists>c'. body2 k c = Some c' \<and> R s' c'"
    and "R s c" "for_each body1 (map f ks) s = Some s'"
  shows "\<exists>c'. for_each body2 ks c = Some c' \<and> R s' c'"
  using assms(2,3)
proof (induction ks arbitrary: s c)
  case (Cons k ks)
  then obtain u where u: "body1 (f k) s = Some u" "for_each body1 (map f ks) u = Some s'" by (auto simp: bind_eq_Some_conv)
  then obtain c' where "body2 k c = Some c'" "R u c'" using body Cons.prems(1) by blast
  then show ?case using Cons.IH[OF _ u(2)] by fastforce
qed simp

end
