(* ===== verification/Codegen_Correct.thy ===== *)
theory Codegen_Correct
  imports Codegen_Bind
begin

text \<open>
  The generated code does what the source does: for every statement, when the code verifies, running it from values
  that agree with the store gives values that agree with the store after the statement, and the same memory.
\<close>

section \<open>Correctness of a statement\<close>

text \<open>What the state of the generator and the store satisfy before a statement that assigns \<open>A\<close> and binds \<open>S\<close>.\<close>

definition ready :: "genv \<Rightarrow> string set \<Rightarrow> string set \<Rightarrow> string set \<Rightarrow> string set \<Rightarrow> scope \<Rightarrow> scope \<Rightarrow> 'v vars \<Rightarrow> bool" where
  "ready G A S L U sc d st \<longleftrightarrow>
     distinct (names_of sc) \<and> distinct (names_of d) \<and> (A \<union> keys d) \<inter> S = {} \<and> (\<forall>x\<in>keys d. map_of d x = map_of sc x) \<and>
     (\<forall>x\<in>A \<union> S. globals G x = None) \<and> L \<subseteq> keys sc \<and> dom st \<subseteq> U"

definition stays :: "scope \<Rightarrow> scope \<Rightarrow> 'v vars \<Rightarrow> 'v vars \<Rightarrow> bool" where
  "stays sc d' st st' \<longleftrightarrow> (\<forall>x\<in>keys sc. x \<notin> keys d' \<longrightarrow> st' x = st x \<or> st' x = None)"

definition simulated ::
  "genv \<Rightarrow> ('v, 'm) machine \<Rightarrow> nat \<Rightarrow> code \<Rightarrow> types \<Rightarrow> scope \<Rightarrow> scope \<Rightarrow> scope \<Rightarrow> 'v vars \<times> 'm \<Rightarrow> 'v env \<Rightarrow> 'v vars \<times> 'm \<Rightarrow> bool" where
  "simulated G M fuel c T' sc sc' d' stm env stm' \<longleftrightarrow>
     (\<exists>env'. run_code M fuel c (env, snd stm) = Some (env', snd stm') \<and> agree G T' sc' (fst stm') env') \<and>
     stays sc d' (fst stm) (fst stm')"

definition stmt_correct :: "genv \<Rightarrow> ('v, 'm) machine \<Rightarrow> nat \<Rightarrow> stmt \<Rightarrow> bool" where
  "stmt_correct G M fuel s \<longleftrightarrow> (\<forall>L U sc d n c sc' d' n' T T' st env m st' m'.
     gen_stmt G s (sc, d, n) = Inr (c, sc', d', n') \<longrightarrow> verify_code c T = Some T' \<longrightarrow>
     exec_stmt G M fuel s (st, m) = Some (st', m') \<longrightarrow> agree G T sc st env \<longrightarrow>
     ready G (assigned s) (statics s) L U sc d st \<longrightarrow> wf_stmt L U s \<longrightarrow>
     simulated G M fuel c T' sc sc' d' (st, m) env (st', m'))"

lemma stmt_correctI:
  fixes M :: "('v, 'm) machine"
  assumes "\<And>L U sc d n c sc' d' n' T T' st env m st' m'.
     gen_stmt G s (sc, d, n) = Inr (c, sc', d', n') \<Longrightarrow> verify_code c T = Some T' \<Longrightarrow>
     exec_stmt G M fuel s (st, m) = Some (st', m') \<Longrightarrow> agree G T sc st env \<Longrightarrow>
     ready G (assigned s) (statics s) L U sc d st \<Longrightarrow> wf_stmt L U s \<Longrightarrow>
     simulated G M fuel c T' sc sc' d' (st, m) env (st', m')"
  shows "stmt_correct G M fuel s"
  unfolding stmt_correct_def using assms by blast

lemma stmt_correctD:
  assumes "stmt_correct G M fuel s" "gen_stmt G s (sc, d, n) = Inr (c, sc', d', n')" "verify_code c T = Some T'"
    "exec_stmt G M fuel s (st, m) = Some (st', m')" "agree G T sc st env"
    "ready G (assigned s) (statics s) L U sc d st" "wf_stmt L U s"
  shows "simulated G M fuel c T' sc sc' d' (st, m) env (st', m')"
  using assms unfolding stmt_correct_def by blast

lemma simulatedI:
  "run_code M fuel c (env, m) = Some (env', m') \<Longrightarrow> agree G T' sc' st' env' \<Longrightarrow> stays sc d' st st' \<Longrightarrow>
   simulated G M fuel c T' sc sc' d' (st, m) env (st', m')"
  by (auto simp: simulated_def)

lemma simulatedE:
  assumes "simulated G M fuel c T' sc sc' d' (st, m) env (st', m')"
  obtains env' where "run_code M fuel c (env, m) = Some (env', m')" "agree G T' sc' st' env'" "stays sc d' st st'"
  using assms by (auto simp: simulated_def)

lemma readyD:
  assumes "ready G A S L U sc d st"
  shows "distinct (names_of sc)" "distinct (names_of d)" "(A \<union> keys d) \<inter> S = {}" "\<forall>x\<in>keys d. map_of d x = map_of sc x"
    "x \<in> A \<union> S \<Longrightarrow> globals G x = None" "L \<subseteq> keys sc" "dom st \<subseteq> U"
  using assms unfolding ready_def by blast+

lemma ready_region:
  assumes "ready G A S L U sc d st" "A' \<subseteq> A" "S' \<subseteq> S"
  shows "ready G A' S' L U sc [] st"
  using assms unfolding ready_def by auto

lemma ready_mono:
  assumes "ready G A S L U sc d st" "A' \<subseteq> A" "S' \<subseteq> S" "L' \<subseteq> L" "U \<subseteq> U'"
  shows "ready G A' S' L' U' sc d st"
  using assms unfolding ready_def by (auto 0 3)

lemma staysI: "(\<And>x. x \<in> keys sc \<Longrightarrow> x \<notin> keys d' \<Longrightarrow> st' x = st x \<or> st' x = None) \<Longrightarrow> stays sc d' st st'"
  by (simp add: stays_def)

lemma staysD: "stays sc d' st st' \<Longrightarrow> x \<in> keys sc \<Longrightarrow> x \<notin> keys d' \<Longrightarrow> st' x = st x \<or> st' x = None"
  by (simp add: stays_def)

lemma stays_refl [simp]: "stays sc d st st"
  by (simp add: stays_def)

lemma stays_trans:
  "stays sc d1 st st1 \<Longrightarrow> stays sc1 d2 st1 st2 \<Longrightarrow> keys sc \<subseteq> keys sc1 \<Longrightarrow> keys d1 \<subseteq> keys d2 \<Longrightarrow> stays sc d2 st st2"
  unfolding stays_def by (metis subsetD)

lemma ready_after:
  assumes r: "ready G A S L U sc d st" and step: "scope_step A S sc d sc' d'" and dom: "dom st' \<subseteq> U"
  shows "ready G A S L U sc' d' st'"
proof -
  have "(A \<union> keys d') \<inter> S = {}" using readyD(3)[OF r] scope_step_keys(2)[OF step] by blast
  then show ?thesis
    using r scope_stepD(1,5,6)[OF step] scope_stepD(7)[OF step readyD(3,4)[OF r]] dom unfolding ready_def by blast
qed

text \<open>After a statement.\<close>

lemma ready_step:
  assumes r: "ready G A S L U sc d st" and sub: "assigned s \<subseteq> A" "statics s \<subseteq> S"
    and g: "gen_stmt G s (sc, d, n) = Inr (c, sc', d', n')" and e: "exec_stmt G M fuel s (st, m) = Some (st', m')"
  shows "ready G A S (L \<union> ensures s) (U \<union> outlives s) sc' d' st'"
proof -
  note sc = readyD(1)[OF r]
  have step: "scope_step A S sc d sc' d'" by (rule scope_step_mono[OF gen_stmt_scopes[OF sc g] sub])
  have d': "\<forall>x\<in>keys d'. map_of d' x = map_of sc' x" by (rule scope_stepD(7)[OF step readyD(3,4)[OF r]])
  have "ensures s \<subseteq> keys sc'" using gen_stmt_ensures[OF sc g] d' by (metis keys_map_of subset_iff)
  moreover have "(A \<union> keys d') \<inter> S = {}" using readyD(3)[OF r] scope_step_keys(2)[OF step] by blast
  ultimately show ?thesis
    using r scope_stepD(1,5,6)[OF step] d' exec_stmt_dom[OF e] unfolding ready_def by blast
qed

lemma stmts_correct:
  fixes M :: "('v, 'm) machine"
  assumes "\<And>s. s \<in> set ss \<Longrightarrow> stmt_correct G M fuel s" "gen_stmts G ss (sc, d, n) = Inr (c, sc', d', n')"
    "verify_code c T = Some T'" "exec_stmts G M fuel ss (st, m) = Some (st', m')" "agree G T sc st env"
    "ready G A S L U sc d st" "assigned_in ss \<subseteq> A" "statics_in ss \<subseteq> S" "wf_stmts L U ss"
  shows "simulated G M fuel c T' sc sc' d' (st, m) env (st', m')"
  using assms
proof (induction ss arbitrary: sc d n c T st m env L U)
  case Nil
  then show ?case by (auto intro: simulatedI)
next
  case (Cons s ss)
  from Cons.prems(2) obtain c1 sc1 d1 n1 c2 where g: "gen_stmt G s (sc, d, n) = Inr (c1, sc1, d1, n1)"
      "gen_stmts G ss (sc1, d1, n1) = Inr (c2, sc', d', n')" "c = c1 @ c2"
    by (auto simp: bind_r_eq_Inr_iff)
  from Cons.prems(3) g(3) obtain T1 where T: "verify_code c1 T = Some T1" "verify_code c2 T1 = Some T'" by (auto simp: bind_eq_Some_conv)
  from Cons.prems(4) obtain st1 m1 where e: "exec_stmt G M fuel s (st, m) = Some (st1, m1)"
      "exec_stmts G M fuel ss (st1, m1) = Some (st', m')"
    by (auto simp: bind_eq_Some_conv)
  note r = Cons.prems(6)
  have sub: "assigned s \<subseteq> A" "statics s \<subseteq> S" "assigned_in ss \<subseteq> A" "statics_in ss \<subseteq> S" using Cons.prems(7,8) by auto
  have "simulated G M fuel c1 T1 sc sc1 d1 (st, m) env (st1, m1)"
    using stmt_correctD[OF _ g(1) T(1) e(1) Cons.prems(5), where L = L and U = U] Cons.prems(1,9) ready_mono[OF r sub(1,2)] by auto
  then obtain env1 where 1: "run_code M fuel c1 (env, m) = Some (env1, m1)" "agree G T1 sc1 st1 env1" "stays sc d1 st st1"
    by (rule simulatedE)
  have "simulated G M fuel c2 T' sc1 sc' d' (st1, m1) env1 (st', m')"
    by (rule Cons.IH[OF _ g(2) T(2) e(2) 1(2) ready_step[OF r sub(1,2) g(1) e(1)] sub(3,4)]) (use Cons.prems(1,9) in auto)
  then obtain env' where 2: "run_code M fuel c2 (env1, m1) = Some (env', m')" "agree G T' sc' st' env'" "stays sc1 d' st1 st'"
    by (rule simulatedE)
  note sc = readyD(1)[OF r]
  note s1 = gen_stmt_scopes[OF sc g(1)]
  have "stays sc d' st st'"
    by (rule stays_trans[OF 1(3) 2(3) scope_stepD(1)[OF s1] scope_step_keys(1)[OF gen_stmts_scopes[OF scope_stepD(5)[OF s1 sc] g(2)]]])
  then show ?case using 1(1) 2(1,2) g(3) by (intro simulatedI) auto
qed

section \<open>Stores with fewer variables\<close>

lemma agree_store:
  assumes ag: "agree G T sc s env" and s: "\<And>x. s' x = s x \<or> s' x = None"
  shows "agree G T sc s' env"
proof -
  have "matching T sc s' env x" for x by (rule matching_store[OF _ s]) (use ag in \<open>simp add: agree_def\<close>)
  moreover have "map_of sc x = None \<and> s' x = None" if "globals G x \<noteq> None" for x
    using ag s[of x] that unfolding agree_def by presburger
  ultimately show ?thesis unfolding agree_def by blast
qed

lemma agree_assign:
  assumes "agree G T sc s env" "map_of sc x = Some a" "matches T env a v"
  shows "agree G T sc (s(x := Some v)) env"
  using assms by (auto simp: agree_def matching_def)

section \<open>Simple statements\<close>

lemma agree_update:
  assumes "agree G T sc st env" "matches T env a v" "globals G x = None"
  shows "agree G T (AList.update x a sc) (st(x := Some v)) env"
  using assms by (auto simp: agree_def matching_def)

lemma stmt_correct_assign: "stmt_correct G M fuel (Assign x e)"
proof (rule stmt_correctI)
  fix L U sc d n c sc' d' n' T T' st env m st' m'
  assume g: "gen_stmt G (Assign x e) (sc, d, n) = Inr (c, sc', d', n')" and v: "verify_code c T = Some T'"
    and e: "exec_stmt G M fuel (Assign x e) (st, m) = Some (st', m')" and ag: "agree G T sc st env"
    and r: "ready G (assigned (Assign x e)) (statics (Assign x e)) L U sc d st"
  from g obtain a c1 n1 h t c2 n2 where g: "gen_expr G sc e n = Inr (a, c1, n1)" "gen_tensor a n1 = Inr ((h, t), c2, n2)"
      "c = c1 @ c2" "sc' = AList.update x (ETensor h t) sc" "d' = AList.update x (ETensor h t) d"
    by (rule gen_assignE) simp
  obtain T1 where T: "verify_code c1 T = Some T1" "verify_code c2 T1 = Some T'" using v g(3) by (auto simp: bind_eq_Some_conv)
  obtain va w u where e: "eval_expr G M e (st, m) = Some (va, m')" "eval_tensor M va = Some (w, u)" "st' = st(x := Some (STensor w u))"
    using e by (auto simp: bind_eq_Some_conv)
  obtain env1 where 1: "run_code M fuel c1 (env, m) = Some (env1, m')" "matches T1 env1 a va" "agree G T1 sc st env1"
    using gen_exprE[OF g(1) T(1) ag e(1)] by metis
  have "u = t" "computes M fuel c2 T' env1 m' m' (ETensor h t) (STensor w t)"
    using gen_tensor_correct[OF g(2) T(2) 1(2) e(2), of fuel m'] by auto
  then obtain env2 where 2: "run_code M fuel c2 (env1, m') = Some (env2, m')" "matches T' env2 (ETensor h t) (STensor w t)"
      "T1 \<subseteq>\<^sub>m T'" "keeps T1 env1 env2"
    using computesE[OF _ T(2)] by metis
  have "agree G T' (AList.update x (ETensor h t) sc) (st(x := Some (STensor w t))) env2"
    by (rule agree_update[OF agree_keeps[OF 1(3) 2(3,4)] 2(2)]) (use r in \<open>simp add: ready_def\<close>)
  then show "simulated G M fuel c T' sc sc' d' (st, m) env (st', m')"
    using 1(1) 2(1) g e(3) \<open>u = t\<close> by (intro simulatedI) (auto simp: stays_def)
qed

lemma stmt_correct_annotate: "stmt_correct G M fuel (Annotate x e)"
proof (rule stmt_correctI)
  fix L U sc d n c sc' d' n' T T' st env m st' m'
  assume g: "gen_stmt G (Annotate x e) (sc, d, n) = Inr (c, sc', d', n')" and v: "verify_code c T = Some T'"
    and e: "exec_stmt G M fuel (Annotate x e) (st, m) = Some (st', m')" and ag: "agree G T sc st env"
    and r: "ready G (assigned (Annotate x e)) (statics (Annotate x e)) L U sc d st"
  from g obtain k n1 where g: "gen_expr G sc e n = Inr (EConst k, c, n1)" "\<not> in_scope x sc" "sc' = AList.update x (EConst k) sc" "d' = d"
    by (rule gen_annotateE) simp
  obtain l where e: "eval_expr G M e (st, m) = Some (SConst l, m')" "st' = st(x := Some (SConst l))"
    using e by (auto simp: bind_eq_Some_conv split: sval.split_asm)
  obtain env1 where 1: "run_code M fuel c (env, m) = Some (env1, m')" "matches T' env1 (EConst k) (SConst l)" "agree G T' sc st env1"
    using gen_exprE[OF g(1) v ag e(1)] by metis
  have "agree G T' sc' st' env1"
    unfolding g(3) e(2) by (rule agree_update[OF 1(3,2)]) (use r in \<open>simp add: ready_def\<close>)
  then show "simulated G M fuel c T' sc sc' d' (st, m) env (st', m')"
    using 1(1) g(2) e(2) by (intro simulatedI) (auto simp: stays_def in_scope_keys)
qed

lemma stmt_correct_effect: "stmt_correct G M fuel (Effect f args)"
proof (rule stmt_correctI)
  fix L U sc d n c sc' d' n' T T' st env m st' m'
  assume g: "gen_stmt G (Effect f args) (sc, d, n) = Inr (c, sc', d', n')" and v: "verify_code c T = Some T'"
    and e: "exec_stmt G M fuel (Effect f args) (st, m) = Some (st', m')" and ag: "agree G T sc st env"
  from g obtain es c1 n1 q c2 n2 where g: "gen_exprs G sc args n = Inr (es, c1, n1)" "gen_call G f es n1 = Inr (q, c2, n2)"
      "c = c1 @ c2" "sc' = sc" "d' = d"
    by (rule gen_effectE) simp
  obtain T1 where T: "verify_code c1 T = Some T1" "verify_code c2 T1 = Some T'" using v g(3) by (auto simp: bind_eq_Some_conv)
  obtain vs m1 w where e: "eval_exprs G M args (st, m) = Some (vs, m1)" "eval_call G M f vs m1 = Some (w, m')" "st' = st"
    using e by (auto simp: bind_eq_Some_conv)
  obtain env1 where 1: "run_code M fuel c1 (env, m) = Some (env1, m1)" "list_all2 (matches T1 env1) es vs" "agree G T1 sc st env1"
    using gen_exprsE[OF g(1) T(1) ag e(1)] by metis
  obtain env2 where 2: "run_code M fuel c2 (env1, m1) = Some (env2, m')" using gen_call_correct[OF g(2) T(2) 1(2) e(2)] by blast
  show "simulated G M fuel c T' sc sc' d' (st, m) env (st', m')"
    using 1(1) 2 g(3-5) e(3) agree_keeps[OF 1(3) code_extends[OF T(2)] code_keeps[OF T(2) 2]] by (intro simulatedI) auto
qed

section \<open>Conditionals\<close>

lemma agree_globals: "agree G T sc st env \<Longrightarrow> globals G x \<noteq> None \<Longrightarrow> map_of sc x = None"
  unfolding agree_def by blast

lemma stmt_correct_if_static:
  assumes body: "\<And>s. s \<in> set body \<Longrightarrow> stmt_correct G M fuel s" and orelse: "\<And>s. s \<in> set orelse \<Longrightarrow> stmt_correct G M fuel s"
    and g: "gen_stmts G (if b then body else orelse) (sc, d, n) = Inr (c, sc', d', n')" and v: "verify_code c T = Some T'"
    and e: "exec_stmts G M fuel (if b then body else orelse) (st, m) = Some (st', m')" and ag: "agree G T sc st env"
    and r: "ready G (assigned_in body \<union> assigned_in orelse) (statics_in body \<union> statics_in orelse) L U sc d st"
    and w: "wf_stmts L U body" "wf_stmts L U orelse"
  shows "simulated G M fuel c T' sc sc' d' (st, m) env (st', m')"
  by (rule stmts_correct[OF _ g v e ag r]) (use body orelse w in \<open>auto split: if_splits\<close>)

text \<open>Any branch leaves the values it yields for the merged names, under any fresh results.\<close>

lemma if_branch:
  assumes g: "gen_stmts G ss (sc, [], n) = Inr (c, sc1, d1, n1)" and v: "verify_code c T = Some T1"
    and e: "exec_stmts G M fuel ss (st, m) = Some (st', m')" and ag: "agree G T sc st env"
    and c: "\<And>s. s \<in> set ss \<Longrightarrow> stmt_correct G M fuel s"
    and r: "ready G A S L U sc [] st" "assigned_in ss \<subseteq> A" "statics_in ss \<subseteq> S" and w: "wf_stmts L U ss"
    and b: "map_r (branch_value sc d1) names = Inr ys" "distinct names" "set names \<subseteq> A" "keys d1 \<inter> keys sc \<subseteq> set names"
    and t: "typed T1 (map fst ys) ts" "length ts = length rs" "map snd rs = ts" "fresh T rs"
  shows "\<exists>env1. run_code M fuel c (env, m) = Some (env1, m') \<and>
    agree G (add_types rs T) (binds names rs sc) st' (put_values rs (map env1 (map fst ys)) env1) \<and>
    (\<forall>x\<in>keys sc. x \<notin> set names \<longrightarrow> st' x = st x \<or> st' x = None)"
proof -
  have "simulated G M fuel c T1 sc sc1 d1 (st, m) env (st', m')" by (rule stmts_correct[OF c g v e ag r w])
  then obtain env1 where 1: "run_code M fuel c (env, m) = Some (env1, m')" "agree G T1 sc1 st' env1" "stays sc d1 st st'"
    by (rule simulatedE)
  note step = scope_step_mono[OF gen_stmts_scopes[OF readyD(1)[OF r(1)] g] r(2,3)]
  have d1: "\<forall>x\<in>keys d1. map_of d1 x = map_of sc1 x" by (rule scope_stepD(7)[OF step readyD(3,4)[OF r(1)]])
  have loc: "located sc1 names ys"
  proof (rule located_branch[OF b(1) d1])
    fix x assume x: "x \<in> set names" "x \<notin> keys d1"
    then have "x \<notin> S" using b(3) readyD(3)[OF r(1)] by blast
    then show "map_of sc1 x = map_of sc x" using scope_stepD(4)[OF step x(2)] by blast
  qed
  have st: "st' x = st x \<or> st' x = None" if "x \<in> keys sc" "x \<notin> set names" for x
  proof -
    have "x \<notin> keys d1" using that b(4) by auto
    then show ?thesis by (intro staysD[OF 1(3) that(1)])
  qed
  have "matching T sc st' env x" if "x \<notin> set names" for x
  proof (cases "x \<in> keys sc")
    case True
    have "matching T sc st env x" using ag by (simp add: agree_def)
    then show ?thesis by (rule matching_store) (rule st[OF True that])
  next
    case False
    then show ?thesis by (simp add: matching_def keys_map_of)
  qed
  then have "holds G T sc names ts (map env1 (map fst ys)) st' env"
    by (rule located_holds[OF 1(2) loc t(1) _ agree_globals[OF ag]])
  then have "holds G T sc names ts (map env1 (map fst ys)) st' env1" by (rule holds_keeps) (rule code_keeps[OF v 1(1)])
  moreover have "length names = length rs" using located_length[OF loc] t(1,2) by (auto simp: typed_def dest: map_eq_imp_length_eq)
  ultimately have "agree G (add_types rs T) (binds names rs sc) st' (put_values rs (map env1 (map fst ys)) env1)"
    by (rule bind_agree[OF _ b(2) _ t(3,4)])
  with 1(1) show ?thesis by (intro exI[of _ env1] conjI ballI impI st)
qed

lemma stmt_correct_if:
  assumes body: "\<And>s. s \<in> set body \<Longrightarrow> stmt_correct G M fuel s" and orelse: "\<And>s. s \<in> set orelse \<Longrightarrow> stmt_correct G M fuel s"
  shows "stmt_correct G M fuel (IfStmt test body orelse)"
proof (rule stmt_correctI)
  fix L U sc d n c sc' d' n' T T' st env m st' m'
  assume g: "gen_stmt G (IfStmt test body orelse) (sc, d, n) = Inr (c, sc', d', n')" and v: "verify_code c T = Some T'"
    and e: "exec_stmt G M fuel (IfStmt test body orelse) (st, m) = Some (st', m')" and ag: "agree G T sc st env"
    and r: "ready G (assigned (IfStmt test body orelse)) (statics (IfStmt test body orelse)) L U sc d st"
    and w: "wf_stmt L U (IfStmt test body orelse)"
  let ?A = "assigned_in body \<union> assigned_in orelse" and ?S = "statics_in body \<union> statics_in orelse"
  have r: "ready G ?A ?S L U sc d st" and w: "wf_stmts L U body" "wf_stmts L U orelse" using r w by simp_all
  from g show "simulated G M fuel c T' sc sc' d' (st, m) env (st', m')"
  proof (cases rule: gen_ifE)
    case (static k c0 n0 b c1)
    obtain T0 where T: "verify_code c0 T = Some T0" "verify_code c1 T0 = Some T'" using v static(4) by (auto simp: bind_eq_Some_conv)
    obtain va m0 where va: "eval_expr G M test (st, m) = Some (va, m0)" using e by (auto simp: bind_eq_Some_conv)
    obtain env0 where 0: "run_code M fuel c0 (env, m) = Some (env0, m0)" "matches T0 env0 (EConst k) va" "agree G T0 sc st env0"
      using gen_exprE[OF static(1) T(1) ag va] by metis
    have "exec_stmts G M fuel (if b then body else orelse) (st, m0) = Some (st', m')"
      using e va 0(2) static(2) by (cases b) auto
    from stmt_correct_if_static[OF body orelse static(3) T(2) this 0(3) r w]
    show ?thesis using 0(1) static(4) by (auto simp: simulated_def)
  next
    case (dynamic h0 t0 c0 n0 h ci n1 c1 sc1 d1 n2 c2 sc2 d2 n3 names ys zs rs)
    let ?i = "IIf rs h c1 (map fst ys) c2 (map fst zs)"
    obtain T0 Ti T1 T2 where T: "verify_code c0 T = Some T0" "verify_code ci T0 = Some Ti" "verify_code c1 Ti = Some T1"
        "verify_code c2 Ti = Some T2" "fresh Ti rs" "typed T1 (map fst ys) (map snd rs)" "typed T2 (map fst zs) (map snd rs)"
        "T' = add_types rs Ti"
      using v dynamic(9) by (auto simp: bind_eq_Some_conv)
    obtain va m0 where va: "eval_expr G M test (st, m) = Some (va, m0)" using e by (auto simp: bind_eq_Some_conv)
    obtain env0 where 0: "run_code M fuel c0 (env, m) = Some (env0, m0)" "matches T0 env0 (ETensor h0 t0) va" "agree G T0 sc st env0"
      using gen_exprE[OF dynamic(1) T(1) ag va] by metis
    then have va': "va = STensor (env0 h0) t0" "T0 h0 = Some t0" by auto
    obtain u where u: "eval_int1 M (env0 h0) t0 = Some u" using e va va' by (auto simp: bind_eq_Some_conv)
    obtain envi where i: "run_code M fuel ci (env0, m0) = Some (envi, m0)" "envi h = u"
      using gen_int1_correct[where M = M and env = env0 and m = m0 and fuel = fuel, OF dynamic(2) T(2) va'(2) u] by blast
    have agi: "agree G Ti sc st envi" by (rule agree_keeps[OF 0(3) code_extends[OF T(2)] code_keeps[OF T(2) i(1)]])
    have ri: "ready G ?A ?S L U sc [] st" by (rule ready_region[OF r]) simp_all
    note m = merged_names_facts[OF dynamic(5) readyD(1)[OF r]
        scope_stepD(6)[OF gen_stmts_scopes[OF readyD(1)[OF r] dynamic(3)]], simplified]
    have names: "set names \<subseteq> ?A" "keys d1 \<inter> keys sc \<subseteq> set names" "keys d2 \<inter> keys sc \<subseteq> set names"
      using m(2) scope_step_keys(2)[OF gen_stmts_scopes[OF readyD(1)[OF r] dynamic(3)]]
        scope_step_keys(2)[OF gen_stmts_scopes[OF readyD(1)[OF r] dynamic(4)]] by auto
    have "\<exists>env'. run_instr M fuel ?i (envi, m0) = Some (env', m') \<and> agree G T' (binds names rs sc) st' env' \<and>
        (\<forall>x\<in>keys sc. x \<notin> set names \<longrightarrow> st' x = st x \<or> st' x = None)"
    proof (cases "truth M u")
      case True
      then have "exec_stmts G M fuel body (st, m0) = Some (st', m')" using e va va' u by simp
      from if_branch[OF dynamic(3) T(3) this agi body ri _ _ w(1) dynamic(6) m(1) names(1,2) T(6) _ refl T(5)]
      show ?thesis using True i(2) T(8) by auto
    next
      case False
      then have "exec_stmts G M fuel orelse (st, m0) = Some (st', m')" using e va va' u by simp
      from if_branch[OF dynamic(4) T(4) this agi orelse ri _ _ w(2) dynamic(7) m(1) names(1,3) T(7) _ refl T(5)]
      show ?thesis using False i(2) T(8) by auto
    qed
    moreover have "sc' = binds names rs sc" "d' = binds names rs d" using dynamic(10) by (simp_all add: bind_names_binds)
    moreover have "keys d' = keys d \<union> set names" unfolding calculation(3)
      by (rule keys_binds[OF m(1)]) (use dynamic(6,8) in \<open>simp add: map_r_length\<close>)
    ultimately show ?thesis using 0(1) i(1) dynamic(9) by (auto simp: simulated_def stays_def)
  qed
qed

end
