(* ===== verification/Codegen_While.thy ===== *)
theory Codegen_While
  imports Codegen_Correct
begin

text \<open>
  Correctness of \<open>while\<close>: at the start of every iteration the values the loop carries are the ones the variables
  have, and nothing else that was in scope before the loop has changed.
\<close>

section \<open>Between iterations\<close>

definition loop_rel ::
  "genv \<Rightarrow> types \<Rightarrow> scope \<Rightarrow> string list \<Rightarrow> ty list \<Rightarrow> 'v vars \<Rightarrow> 'v env \<Rightarrow> 'v vars \<times> 'm \<Rightarrow> 'v list \<times> 'v env \<times> 'm \<Rightarrow> bool" where
  "loop_rel G T sc names ts st env = (\<lambda>(s, m) (vs, e, m').
     m' = m \<and> keeps T env e \<and> holds G T sc names ts vs s e \<and> (\<forall>x. st x = None \<longrightarrow> s x = None) \<and>
     (\<forall>x\<in>keys sc. x \<notin> set names \<longrightarrow> s x = st x \<or> s x = None))"

lemma loop_relI:
  assumes "keeps T env e" "holds G T sc names ts vs s e" "\<And>x. st x = None \<Longrightarrow> s x = None"
    and "\<And>x. x \<in> keys sc \<Longrightarrow> x \<notin> set names \<Longrightarrow> s x = st x \<or> s x = None"
  shows "loop_rel G T sc names ts st env (s, m) (vs, e, m)"
  using assms by (simp add: loop_rel_def)

lemma loop_relD:
  assumes "loop_rel G T sc names ts st env (s, m) (vs, e, m')"
  shows "m' = m" "keeps T env e" "holds G T sc names ts vs s e" "st x = None \<Longrightarrow> s x = None" "length vs = length names"
    and "x \<in> keys sc \<Longrightarrow> x \<notin> set names \<Longrightarrow> s x = st x \<or> s x = None"
  using assms by (simp_all add: loop_rel_def holds_def)

lemma loop_rel_env:
  assumes "loop_rel G T sc names ts st env (s, m) (vs, e, m)" "keeps T e e'"
  shows "loop_rel G T sc names ts st env (s, m') (vs, e', m')"
  using assms by (auto simp: loop_rel_def intro: keeps_trans holds_keeps)

text \<open>Entering the loop.\<close>

lemma loop_rel_start:
  assumes ag: "agree G T sc st env" and l: "located sc names inits" and t: "typed T (map fst inits) ts"
  shows "loop_rel G T sc names ts st env (st, m) (map env (map fst inits), env, m)"
proof (rule loop_relI[OF keeps_refl])
  show "holds G T sc names ts (map env (map fst inits)) st env"
    by (rule located_holds[OF ag l t _ agree_globals[OF ag]]) (use ag in \<open>simp add: agree_def\<close>)
qed simp_all

text \<open>Entering a region, whose scope has the entries it had before the loop or others that are not in the store.\<close>

lemma region_agree:
  assumes h: "holds G T sc names ts vs s e" and a: "distinct names" "length names = length args" "map snd args = ts" "fresh T args"
    and sc: "\<And>x. s x \<noteq> None \<Longrightarrow> x \<notin> set names \<Longrightarrow> map_of sc' x = map_of sc x \<or> map_of sc' x = None"
    and g: "\<And>x. globals G x \<noteq> None \<Longrightarrow> map_of sc' x = None"
  shows "agree G (add_types args T) (binds names args sc') s (put_values args vs e)"
  by (rule bind_agree[OF holds_scope[OF h sc g] a])

text \<open>Leaving an iteration.\<close>

lemma loop_rel_next:
  assumes k: "keeps T env e" and l: "located sc2 names ys" and t: "typed T2 (map fst ys) ts"
    and ag: "agree G T2 sc2 s2 e2" and ag0: "agree G T sc st env"
    and stays: "\<And>x. x \<in> keys sc \<Longrightarrow> x \<notin> set names \<Longrightarrow> s2 x = s x \<or> s2 x = None"
    and s: "\<And>x. x \<in> keys sc \<Longrightarrow> x \<notin> set names \<Longrightarrow> s x = st x \<or> s x = None"
    and k2: "keeps T e e2"
  shows "loop_rel G T sc names ts st env (leave st (s2, m)) (map e2 (map fst ys), e2, m)"
proof -
  let ?s = "\<lambda>x. if st x = None then None else s2 x"
  have st: "?s x = st x \<or> ?s x = None" if "x \<in> keys sc" "x \<notin> set names" for x
    using stays[OF that] s[OF that] by auto
  have "matching T sc ?s env x" if "x \<notin> set names" for x
  proof (cases "x \<in> keys sc")
    case True
    have "matching T sc st env x" using ag0 by (simp add: agree_def)
    then show ?thesis by (rule matching_store) (rule st[OF True that])
  next
    case False
    then show ?thesis by (simp add: matching_def keys_map_of)
  qed
  moreover have "agree G T2 sc2 ?s e2" by (rule agree_store[OF ag]) simp
  ultimately have "holds G T sc names ts (map e2 (map fst ys)) ?s env"
    by (intro located_holds[OF _ l t _ agree_globals[OF ag0]])
  then have h: "holds G T sc names ts (map e2 (map fst ys)) ?s e2" by (rule holds_keeps) (rule keeps_trans[OF k k2])
  have "loop_rel G T sc names ts st env (?s, m) (map e2 (map fst ys), e2, m)"
    by (rule loop_relI[OF keeps_trans[OF k k2] h _ st]) simp
  then show ?thesis by (simp add: leave_def)
qed

text \<open>After the loop.\<close>

lemma loop_rel_end:
  assumes "loop_rel G T sc names ts st env (s, m) (vs, e, m')" "distinct names" "length names = length rs" "map snd rs = ts" "fresh T rs"
  shows "m' = m" "agree G (add_types rs T) (binds names rs sc) s (put_values rs vs e)" "stays sc (binds names rs d) st s"
proof -
  note h = loop_relD[OF assms(1)]
  show "m' = m" by (rule h(1))
  show "agree G (add_types rs T) (binds names rs sc) s (put_values rs vs e)"
    by (rule bind_agree[OF h(3) assms(2-5)])
  show "stays sc (binds names rs d) st s"
  proof (rule staysI)
    fix x assume "x \<in> keys sc" "x \<notin> keys (binds names rs d)"
    then show "s x = st x \<or> s x = None" by (intro h(6)) (simp_all add: keys_binds[OF assms(2,3)])
  qed
qed

section \<open>While\<close>

lemma while_scope:
  assumes step: "scope_step A S sc [] sc1 d1" and r: "ready G A S L U sc [] st" and ag: "agree G T sc st env"
    and w: "\<forall>x\<in>A. x \<in> L \<or> x \<notin> U" "\<forall>x\<in>S. x \<notin> U" and names: "set names = keys d1 \<inter> keys sc"
  shows "st x \<noteq> None \<Longrightarrow> x \<notin> set names \<Longrightarrow> map_of sc1 x = map_of sc x"
    and "globals G x \<noteq> None \<Longrightarrow> map_of sc1 x = None"
proof -
  assume x: "st x \<noteq> None" "x \<notin> set names"
  then have U: "x \<in> U" using readyD(7)[OF r] by auto
  then have "x \<notin> S" using w(2) by blast
  moreover have "x \<notin> keys d1"
  proof
    assume "x \<in> keys d1"
    then have "x \<in> A" using scope_step_keys(2)[OF step] by auto
    then have "x \<in> keys sc" using w(1) U readyD(6)[OF r] by blast
    then show False using \<open>x \<in> keys d1\<close> x(2) names by blast
  qed
  ultimately show "map_of sc1 x = map_of sc x" using scope_stepD(4)[OF step] by blast
next
  assume x: "globals G x \<noteq> None"
  then have "x \<notin> A" "x \<notin> S" "x \<notin> keys sc" using readyD(5)[OF r] agree_globals[OF ag x] by (auto simp: keys_map_of)
  then have "x \<notin> keys sc1" using scope_stepD(2)[OF step] by blast
  then show "map_of sc1 x = None" by (simp add: keys_map_of)
qed

lemma map_of_binds_other: "distinct names \<Longrightarrow> length names = length args \<Longrightarrow> x \<notin> set names \<Longrightarrow> map_of (binds names args sc) x = map_of sc x"
  by (simp add: map_of_binds map_of_zip_is_None[THEN iffD2])

text \<open>One evaluation of the condition, and one run of the body.\<close>

lemma while_test:
  fixes M :: "('v, 'm) machine" and m :: 'm
  assumes rel: "loop_rel G T sc names ts st env (s, m) (vs, e, m)"
    and ag: "agree G (add_types bargs T) scb s (put_values bargs vs e)" and f: "fresh T bargs"
    and g: "gen_expr G scb test n = Inr (ETensor h t, cc, n')" and v: "verify_code cc (add_types bargs T) = Some T1"
    and ev: "tensor_test M s (eval_expr G M test (s, m)) = Some (b, sm')"
  shows "\<exists>e' m'. run_code M fuel cc (put_values bargs vs e, m) = Some (e', m') \<and> truth M (e' h) = b \<and> sm' = (s, m') \<and>
    loop_rel G T sc names ts st env (s, m') (vs, e', m')"
proof -
  obtain w u m' where w: "eval_expr G M test (s, m) = Some (STensor w u, m')" "b = truth M w" "sm' = (s, m')"
    using ev by (auto simp: tensor_test_def bind_eq_Some_conv split: sval.split_asm)
  obtain e' where e': "run_code M fuel cc (put_values bargs vs e, m) = Some (e', m')" "matches T1 e' (ETensor h t) (STensor w u)"
      "keeps (add_types bargs T) (put_values bargs vs e) e'"
    using gen_exprE[OF g v ag w(1)] by metis
  have "keeps T e e'" by (rule keeps_trans[OF keeps_put_values[OF f] keeps_mono[OF add_types_le[OF f] e'(3)]])
  then show ?thesis using loop_rel_env[OF rel] e'(1,2) w(2,3) by auto
qed

lemma loop_body:
  fixes M :: "('v, 'm) machine" and m :: 'm
  assumes body: "\<And>s. s \<in> set body \<Longrightarrow> stmt_correct G M fuel s"
    and rel: "loop_rel G T sc names ts st env (s, m) (vs, e, m)" and ag0: "agree G T sc st env"
    and ag: "agree G Ta sca s0 e0" and T: "T \<subseteq>\<^sub>m Ta" "keeps T e e0" and s0: "\<And>x. x \<in> keys sc \<Longrightarrow> x \<notin> set names \<Longrightarrow> s0 x = s x \<or> x \<in> X"
    and r: "ready G A S L U sca da s0" "assigned_in body \<subseteq> A" "statics_in body \<subseteq> S" and w: "wf_stmts L U body"
    and g: "gen_stmts G body (sca, da, n) = Inr (cb, sc3, d3, n3)" and v: "verify_code cb Ta = Some T2"
    and c: "carried_names sc d3 = names" "map_r (lookup_tensor d3) names = Inr ys" "typed T2 (map fst ys) ts" "keys sc \<subseteq> keys sca"
    and ex: "exec_stmts G M fuel body (s0, m) = Some (s2, m2)" and X: "\<And>x. x \<in> X \<Longrightarrow> st x = None"
  shows "\<exists>e2. run_code M fuel cb (e0, m) = Some (e2, m2) \<and>
    loop_rel G T sc names ts st env (leave st (s2, m2)) (map e2 (map fst ys), e2, m2)"
proof -
  have "simulated G M fuel cb T2 sca sc3 d3 (s0, m) e0 (s2, m2)" by (rule stmts_correct[OF body g v ex ag r w])
  then obtain e2 where 2: "run_code M fuel cb (e0, m) = Some (e2, m2)" "agree G T2 sc3 s2 e2" "stays sca d3 s0 s2"
    by (rule simulatedE)
  have d3: "\<forall>x\<in>keys d3. map_of d3 x = map_of sc3 x"
    by (rule scope_stepD(7)[OF scope_step_mono[OF gen_stmts_scopes[OF readyD(1)[OF r(1)] g] r(2,3)] readyD(3,4)[OF r(1)]])
  have names: "set names = keys d3 \<inter> keys sc" using c(1) carried_names_set by blast
  have stays: "s2 x = s x \<or> s2 x = None \<or> x \<in> X" if "x \<in> keys sc" "x \<notin> set names" for x
  proof -
    have "x \<notin> keys d3" "x \<in> keys sca" using that names c(4) by auto
    then have "s2 x = s0 x \<or> s2 x = None" by (intro staysD[OF 2(3)])
    then show ?thesis using s0[OF that] by metis
  qed
  let ?s = "\<lambda>x. if x \<in> X then None else s2 x"
  have "leave st (s2, m2) = leave st (?s, m2)" using X by (auto simp: leave_def)
  moreover have "loop_rel G T sc names ts st env (leave st (?s, m2)) (map e2 (map fst ys), e2, m2)"
  proof (rule loop_rel_next[OF loop_relD(2)[OF rel] located_lookup[OF c(2) d3] c(3) _ ag0 _ loop_relD(6)[OF rel]])
    show "agree G T2 sc3 ?s e2" by (rule agree_store[OF 2(2)]) simp
    show "?s x = s x \<or> ?s x = None" if "x \<in> keys sc" "x \<notin> set names" for x using stays[OF that] by auto
    show "keeps T e e2" by (rule keeps_trans[OF T(2) keeps_mono[OF T(1) code_keeps[OF v 2(1)]]])
  qed
  ultimately show ?thesis using 2(1) by simp
qed

lemma stmt_correct_while:
  fixes M :: "('v, 'm) machine"
  assumes body: "\<And>s. s \<in> set body \<Longrightarrow> stmt_correct G M fuel s"
  shows "stmt_correct G M fuel (WhileStmt test body)"
proof (rule stmt_correctI)
  fix L U sc d n c sc' d' n' T T' and st :: "'v vars" and env :: "'v env" and m :: 'm and st' :: "'v vars" and m' :: 'm
  assume g: "gen_stmt G (WhileStmt test body) (sc, d, n) = Inr (c, sc', d', n')" and v: "verify_code c T = Some T'"
    and e: "exec_stmt G M fuel (WhileStmt test body) (st, m) = Some (st', m')" and ag: "agree G T sc st env"
    and r: "ready G (assigned (WhileStmt test body)) (statics (WhileStmt test body)) L U sc d st"
    and w: "wf_stmt L U (WhileStmt test body)"
  let ?A = "assigned_in body" and ?S = "statics_in body"
  have w: "\<forall>x\<in>?A. x \<in> L \<or> x \<notin> U" "\<forall>x\<in>?S. x \<notin> U" "wf_stmts L U body" using w by simp_all
  have r0: "ready G ?A ?S L U sc [] st" by (rule ready_region[OF r]) simp_all
  from g show "simulated G M fuel c T' sc sc' d' (st, m) env (st', m')"
  proof (rule gen_whileE)
    fix c1 sc1 d1 n1 names inits ts bargs cc n2 h t aargs cb sc3 d3 n3 ys rs
    assume g1: "gen_stmts G body (sc, [], n) = Inr (c1, sc1, d1, n1)" and names: "names = carried_names sc d1"
      and inits: "map_r (verify_loop_carried_variable sc d1) names = Inr inits" and ts: "ts = map snd inits"
      and bargs: "bargs = fresh_args n1 ts"
      and cond: "gen_expr G (fst (bind_names names bargs (sc1, d1))) test (n1 + length bargs) = Inr (ETensor h t, cc, n2)"
      and aargs: "aargs = fresh_args n2 ts"
      and g2: "gen_stmts G body (fst (bind_names names aargs (bind_names names bargs (sc1, d1))),
         snd (bind_names names aargs (bind_names names bargs (sc1, d1))), n2 + length aargs) = Inr (cb, sc3, d3, n3)"
      and ys: "map_r (lookup_tensor d3) (carried_names sc d3) = Inr ys" and rs: "rs = fresh_args n3 ts"
      and c: "c = [IWhile rs (map fst inits) bargs cc h aargs cb (map fst ys)]"
      and out: "(sc', d', n') = (fst (bind_names names rs (sc, d)), snd (bind_names names rs (sc, d)), n3 + length rs)"
    let ?scb = "binds names bargs sc1" and ?db = "binds names bargs d1"
    let ?sca = "binds names aargs ?scb" and ?da = "binds names aargs ?db"
    have g2: "gen_stmts G body (?sca, ?da, n2 + length aargs) = Inr (cb, sc3, d3, n3)" using g2 by (simp add: bind_names_binds)
    have cond: "gen_expr G ?scb test (n1 + length bargs) = Inr (ETensor h t, cc, n2)" using cond by (simp add: bind_names_binds)
    have out: "sc' = binds names rs sc" "d' = binds names rs d" using out by (simp_all add: bind_names_binds)
    note step1 = gen_stmts_scopes[OF readyD(1)[OF r0] g1]
    have dist: "distinct names" unfolding names by (rule carried_names_distinct[OF scope_stepD(6)[OF step1]]) simp
    have set: "set names = keys d1 \<inter> keys sc" unfolding names by (rule carried_names_set)
    have len: "length names = length bargs" "length names = length aargs" "length names = length rs" "length ts = length names"
      using map_r_length[OF inits] by (simp_all add: bargs aargs rs ts)
    have snd: "map snd bargs = ts" "map snd aargs = ts" "map snd rs = ts" by (simp_all add: bargs aargs rs)
    obtain T1 T2 where V: "typed T (map fst inits) ts" "fresh T rs" "fresh T bargs" "fresh T aargs"
        "verify_code cc (add_types bargs T) = Some T1" "verify_code cb (add_types aargs T) = Some T2"
        "typed T2 (map fst ys) ts" "T' = add_types rs T"
      using v unfolding c by (auto simp: bind_eq_Some_conv snd)
    have sub: "set names \<subseteq> ?A" using set scope_step_keys(2)[OF step1] by auto
    have stepa: "scope_step ?A ?S sc [] ?sca ?da"
      by (rule scope_step_trans[OF scope_step_trans[OF step1 scope_step_binds_some[OF dist sub]] scope_step_binds_some[OF dist sub]])
    note stepb = gen_stmts_scopes[OF scope_stepD(5)[OF stepa readyD(1)[OF r0]] g2]
    have carried: "carried_names sc d3 = names"
    proof -
      obtain ex where ex: "names_of d3 = names_of ?da @ ex" using scope_stepD(3)[OF stepb] by blast
      have "filter (\<lambda>x. x \<notin> keys d1) names = []" using set by (auto simp: filter_empty_conv)
      then have "names_of ?da = names_of d1" by (simp add: names_of_binds[OF dist len(1)] names_of_binds[OF dist len(2)])
      moreover have "length (carried_names sc d3) = length names"
        using map_r_length[OF ys] V(7) len(4) by (auto simp: typed_def dest: map_eq_imp_length_eq)
      ultimately show ?thesis using carried_again[OF _ names[symmetric]] ex by metis
    qed
    note ys = ys[unfolded carried]
    have sc1: "map_of sc1 x = map_of sc x" if "st x \<noteq> None" "x \<notin> set names" for x
      by (rule while_scope(1)[OF step1 r0 ag w(1,2) set that])
    have glob: "map_of (binds names args sc0) x = None" if "globals G x \<noteq> None" "length names = length args" "map_of sc0 x = None" for args sc0 x
    proof -
      have "x \<notin> set names" using sub readyD(5)[OF r0, of x] that(1) by auto
      then show ?thesis using map_of_binds_other[OF dist that(2)] that(3) by simp
    qed
    have glob1: "map_of sc1 x = None" if "globals G x \<noteq> None" for x
      by (rule while_scope(2)[OF step1 r0 ag w(1,2) set that])
    let ?R = "loop_rel G T sc names ts st env"
    have agb: "agree G (add_types bargs T) ?scb s (put_values bargs vs e)" if "?R (s, m1) (vs, e, m2)" for s m1 vs e m2
    proof (rule region_agree[OF loop_relD(3)[OF that] dist len(1) snd(1) V(3) disjI1 glob1])
      fix x assume x: "s x \<noteq> None" "x \<notin> set names"
      then show "map_of sc1 x = map_of sc x" using sc1[of x] loop_relD(4)[OF that, of x] by linarith
    qed
    have aga: "agree G (add_types aargs T) ?sca s (put_values aargs vs e)" if "?R (s, m1) (vs, e, m2)" for s m1 vs e m2
    proof (rule region_agree[OF loop_relD(3)[OF that] dist len(2) snd(2) V(4) disjI1 glob[OF _ len(1) glob1]])
      fix x assume x: "s x \<noteq> None" "x \<notin> set names"
      then show "map_of ?scb x = map_of sc x"
        using sc1[of x] loop_relD(4)[OF that, of x] map_of_binds_other[OF dist len(1) x(2), of sc1] by presburger
    qed
    let ?test2 = "\<lambda>(vs, env, m). map_option (\<lambda>(env, m). (truth M (env h), (vs, env, m))) (run_code M fuel cc (put_values bargs vs env, m))"
    let ?body2 = "\<lambda>(vs, env, m). map_option (\<lambda>(env, m). (map env (map fst ys), env, m)) (run_code M fuel cb (put_values aargs vs env, m))"
    have test: "\<exists>c'. ?test2 c = Some (b, c') \<and> ?R s' c'" if "?R s c" "(\<lambda>(s', m). tensor_test M s' (eval_expr G M test (s', m))) s = Some (b, s')"
      for s c b s'
    proof -
      note H = that
      obtain s0 m0 vs e m2 where s: "s = (s0, m0)" "c = (vs, e, m2)" by (cases s; cases c)
      note R = H(1)[unfolded s] note loop_relD(1)[OF R]
      then show ?thesis using while_test[OF R[unfolded loop_relD(1)[OF R]] agb[OF R] V(3) cond V(5)] H(2) s by fastforce
    qed
    have bodies: "\<exists>c'. ?body2 c = Some c' \<and> ?R s' c'" if "?R s c" "map_option (leave st) (exec_stmts G M fuel body s) = Some s'"
      for s c s'
    proof -
      note H = that
      obtain s0 m0 vs e m2 where s: "s = (s0, m0)" "c = (vs, e, m2)" by (cases s; cases c)
      note R = H(1)[unfolded s] note m2 = loop_relD(1)[OF R]
      obtain s2 m3 where x: "exec_stmts G M fuel body (s0, m0) = Some (s2, m3)" "s' = leave st (s2, m3)" using H(2) s by auto
      have "dom s0 \<subseteq> dom st" using loop_relD(4)[OF R] by (meson domIff subsetI)
      then have ready: "ready G ?A ?S L U ?sca ?da s0" using readyD(7)[OF r0] by (intro ready_after[OF r0 stepa]) auto
      from loop_body[OF body R[unfolded m2] ag aga[OF R] add_types_le[OF V(4)] keeps_put_values[OF V(4)] _ ready _ _ w(3) g2 V(6)
          carried ys V(7) scope_stepD(1)[OF stepa] x(1), where X = "{}"]
      show ?thesis using x(2) s m2 by auto
    qed
    have start: "?R (st, m) (map env (map fst inits), env, m)" by (rule loop_rel_start[OF ag located_carried[OF inits] V(1)])
    have "\<exists>c'. iterate fuel ?test2 ?body2 (map env (map fst inits), env, m) = Some c' \<and> ?R (st', m') c'"
    proof (rule iterate_sim[where R = ?R and Q = ?R and s = "(st, m)" and c = "(map env (map fst inits), env, m)", OF _ _ start e[unfolded exec_stmt.simps]])
      fix s c b s' assume "?R s c" "(\<lambda>(s', m). tensor_test M s' (eval_expr G M test (s', m))) s = Some (b, s')"
      then show "\<exists>c'. ?test2 c = Some (b, c') \<and> ?R s' c'" by (rule test)
    next
      fix s c s' assume "?R s c" "map_option (leave st) (exec_stmts G M fuel body s) = Some s'"
      then show "\<exists>c'. ?body2 c = Some c' \<and> ?R s' c'" by (rule bodies)
    qed
    then obtain vs e1 m1 where it: "iterate fuel ?test2 ?body2 (map env (map fst inits), env, m) = Some (vs, e1, m1)"
        "?R (st', m') (vs, e1, m1)"
      by (auto simp: split_paired_Ex)
    note fin = loop_rel_end[OF it(2) dist len(3) snd(3) V(2)]
    show "simulated G M fuel c T' sc sc' d' (st, m) env (st', m')"
      unfolding out V(8) using it(1) fin by (intro simulatedI[where env' = "put_values rs vs e1"]) (simp_all add: c)
  qed
qed

end
