(* ===== verification/Codegen_For.thy ===== *)
theory Codegen_For
  imports Codegen_While
begin

text \<open>
  Correctness of \<open>static_range\<close> and \<open>for\<close>: the bounds, the mirrored variable of a loop with a negative step, the
  placeholder the generator replaces by the induction variable, and the carried values.
\<close>

section \<open>Unrolled loops\<close>

lemma matches_constant: "matches T env e v \<Longrightarrow> constant_of (sentry v) = constant_of e"
  by (cases e) auto

lemma static_range_matches:
  assumes "list_all2 (matches T env) es vs"
  shows "static_range (map sentry vs) = static_range es"
proof -
  have "map_r constant_of (map sentry vs) = map_r constant_of es" "length vs = length es" "vs = [] \<longleftrightarrow> es = []"
    using assms by (induction rule: list_all2_induct) (auto simp: matches_constant)
  then show ?thesis unfolding static_range_def by simp
qed

lemma ready_insert: "ready G A S L U sc d st \<Longrightarrow> x \<in> keys sc \<Longrightarrow> ready G A S (insert x L) U sc d st"
  by (simp add: ready_def)

lemma static_each:
  fixes M :: "('v, 'm) machine"
  assumes body: "\<And>s. s \<in> set body \<Longrightarrow> stmt_correct G M fuel s"
    and w: "wf_stmts (insert x L) (insert x U \<union> outlives_in body) body" and sub: "x \<in> S" "assigned_in body \<subseteq> A" "statics_in body \<subseteq> S"
    and r: "ready G A S L (insert x U \<union> outlives_in body) sc d st"
    and F: "\<And>k sc d n. F k (sc, d, n) = gen_stmts G body (AList.update x (EConst (NInt k)) sc, d, n)"
    and g: "gen_each F ks (sc, d, n) = Inr (c, sc', d', n')"
    and v: "verify_code c T = Some T'" and ag: "agree G T sc st env"
    and E: "\<And>k s m. E k (s, m) = exec_stmts G M fuel body (s(x := Some (SConst (NInt k))), m)"
    and e: "for_each E ks (st, m) = Some (st', m')"
  shows "\<exists>env'. run_code M fuel c (env, m) = Some (env', m') \<and> agree G T' sc' st' env' \<and> keys sc \<subseteq> keys sc' \<and> keys d \<subseteq> keys d' \<and>
    (\<forall>y\<in>keys sc. y \<notin> keys d' \<longrightarrow> y \<noteq> x \<longrightarrow> st' y = st y \<or> st' y = None)"
  using r g v ag e
proof (induction ks arbitrary: sc d n c T st m env)
  case (Cons k ks)
  let ?scx = "AList.update x (EConst (NInt k)) sc" and ?stx = "st(x := Some (SConst (NInt k)))"
  let ?U = "insert x U \<union> outlives_in body"
  from Cons.prems(2) obtain c1 sc1 d1 n1 c2 where g: "gen_stmts G body (?scx, d, n) = Inr (c1, sc1, d1, n1)"
      "gen_each F ks (sc1, d1, n1) = Inr (c2, sc', d', n')"
      "c = c1 @ c2"
    by (auto simp: bind_r_eq_Inr_iff F)
  obtain T1 where T: "verify_code c1 T = Some T1" "verify_code c2 T1 = Some T'" using Cons.prems(3) g(3) by (auto simp: bind_eq_Some_conv)
  obtain st1 m1 where e: "exec_stmts G M fuel body (?stx, m) = Some (st1, m1)"
      "for_each E ks (st1, m1) = Some (st', m')"
    using Cons.prems(5) unfolding for_each.simps E by (auto simp: bind_eq_Some_conv simp del: fun_upd_apply)
  note r = Cons.prems(1)
  have rx: "ready G A S L ?U ?scx d ?stx"
    by (rule ready_after[OF r scope_step_const[OF sub(1)]]) (use readyD(7)[OF r] in auto)
  have agx: "agree G T ?scx ?stx env"
    by (rule agree_update[OF Cons.prems(4)]) (use readyD(5)[OF r, of x] sub(1) in auto)
  have "simulated G M fuel c1 T1 ?scx sc1 d1 (?stx, m) env (st1, m1)"
    by (rule stmts_correct[OF body g(1) T(1) e(1) agx ready_insert[OF rx] sub(2,3) w]) simp_all
  then obtain env1 where 1: "run_code M fuel c1 (env, m) = Some (env1, m1)" "agree G T1 sc1 st1 env1" "stays ?scx d1 ?stx st1"
    by (rule simulatedE)
  have step: "scope_step A S ?scx d sc1 d1" by (rule scope_step_mono[OF gen_stmts_scopes[OF readyD(1)[OF rx] g(1)] sub(2,3)])
  have "dom st1 \<subseteq> ?U" using exec_stmts_dom[OF e(1)] readyD(7)[OF rx] by auto
  note IH = Cons.IH[OF ready_after[OF rx step this] g(2) T(2) 1(2) e(2)]
  then obtain env' where 2: "run_code M fuel c2 (env1, m1) = Some (env', m')" "agree G T' sc' st' env'" "keys sc1 \<subseteq> keys sc'"
      "keys d1 \<subseteq> keys d'" "\<forall>y\<in>keys sc1. y \<notin> keys d' \<longrightarrow> y \<noteq> x \<longrightarrow> st' y = st1 y \<or> st' y = None"
    by blast
  have k: "keys sc \<subseteq> keys sc1" "keys d \<subseteq> keys d1" using scope_stepD(1)[OF step] scope_step_keys(1)[OF step] by auto
  have "st' y = st y \<or> st' y = None" if y: "y \<in> keys sc" "y \<notin> keys d'" "y \<noteq> x" for y
  proof -
    have "y \<in> keys sc1" "y \<notin> keys d1" "y \<in> keys ?scx" using y k 2(4) by auto
    then have "st1 y = ?stx y \<or> st1 y = None" by (intro staysD[OF 1(3)])
    then show ?thesis using 2(5) y \<open>y \<in> keys sc1\<close> by (metis fun_upd_other)
  qed
  then show ?case using 1(1) 2(1-4) k g(3) by auto
qed auto

lemma stmt_correct_static:
  fixes M :: "('v, 'm) machine"
  assumes body: "\<And>s. s \<in> set body \<Longrightarrow> stmt_correct G M fuel s"
  shows "stmt_correct G M fuel (StaticFor x args body)"
proof (rule stmt_correctI)
  fix L U sc d n c sc' d' n' T T' and st :: "'v vars" and env :: "'v env" and m :: 'm and st' :: "'v vars" and m' :: 'm
  assume g: "gen_stmt G (StaticFor x args body) (sc, d, n) = Inr (c, sc', d', n')" and v: "verify_code c T = Some T'"
    and e: "exec_stmt G M fuel (StaticFor x args body) (st, m) = Some (st', m')" and ag: "agree G T sc st env"
    and r: "ready G (assigned (StaticFor x args body)) (statics (StaticFor x args body)) L U sc d st"
    and w: "wf_stmt L U (StaticFor x args body)"
  from g obtain es c0 n0 ks c1 where g: "gen_exprs G sc args n = Inr (es, c0, n0)" "static_range es = Inr ks"
      "gen_each (\<lambda>k (sc, d, n). gen_stmts G body (AList.update x (EConst (NInt k)) sc, d, n)) ks (sc, d, n0) = Inr (c1, sc', d', n')"
      "c = c0 @ c1"
    by (rule gen_staticE)
  obtain T0 where T: "verify_code c0 T = Some T0" "verify_code c1 T0 = Some T'" using v g(4) by (auto simp: bind_eq_Some_conv)
  from e obtain vs m1 ks' s1 where e: "eval_exprs G M args (st, m) = Some (vs, m1)" "static_range (map sentry vs) = Inr ks'"
      "for_each (\<lambda>k (s', m). exec_stmts G M fuel body (s'(x := Some (SConst (NInt k))), m)) ks' (st, m1) = Some (s1, m')"
      "st' = s1(x := None)"
    by (auto simp: bind_eq_Some_conv)
  obtain env0 where 0: "run_code M fuel c0 (env, m) = Some (env0, m1)" "list_all2 (matches T0 env0) es vs" "agree G T0 sc st env0"
    using gen_exprsE[OF g(1) T(1) ag e(1)] by metis
  have "ks' = ks" using static_range_matches[OF 0(2)] g(2) e(2) by simp
  have r': "ready G (assigned_in body) (insert x (statics_in body)) L (insert x U \<union> outlives_in body) sc d st"
    by (rule ready_mono[OF r]) auto
  have "\<exists>env'. run_code M fuel c1 (env0, m1) = Some (env', m') \<and> agree G T' sc' s1 env' \<and> keys sc \<subseteq> keys sc' \<and> keys d \<subseteq> keys d' \<and>
    (\<forall>y\<in>keys sc. y \<notin> keys d' \<longrightarrow> y \<noteq> x \<longrightarrow> s1 y = st y \<or> s1 y = None)"
    by (rule static_each[OF body _ _ _ _ r' _ g(3) T(2) 0(3) _ e(3)[unfolded \<open>ks' = ks\<close>]]) (use w in auto)
  then obtain env' where "run_code M fuel c1 (env0, m1) = Some (env', m')" "agree G T' sc' s1 env'"
      "\<forall>y\<in>keys sc. y \<notin> keys d' \<longrightarrow> y \<noteq> x \<longrightarrow> s1 y = st y \<or> s1 y = None"
    by blast
  then show "simulated G M fuel c T' sc sc' d' (st, m) env (st', m')"
    using 0(1) g(4) e(4) agree_store[of G T' sc' s1 env' st'] by (intro simulatedI[where env' = env'] staysI) auto
qed

section \<open>Machine integers\<close>

text \<open>What the correctness of \<open>for\<close> needs of the machine: a cast gives a value determined by the integer it stands for, and
  the subtraction and addition that mirror the induction variable compute modulo the type.\<close>

definition machine_ok :: "('v, 'm) machine \<Rightarrow> bool" where
  "machine_ok M \<longleftrightarrow>
     (\<forall>t sg v w. op_sem M (Int_cast t sg) [VVal v] = Some w \<longrightarrow> w = int_val M t (int_of_val M w)) \<and>
     (\<forall>t a b. op_sem M Sub_int [VVal (int_val M t a), VVal (int_val M t b)] = Some (int_val M t (a - b))) \<and>
     (\<forall>t a b. op_sem M Add_int [VVal (int_val M t a), VVal (int_val M t b)] = Some (int_val M t (a + b)))"

lemma machine_okD:
  assumes "machine_ok M"
  shows "op_sem M (Int_cast t sg) [VVal v] = Some w \<Longrightarrow> int_val M t (int_of_val M w) = w"
    and "op_sem M Sub_int [VVal (int_val M t a), VVal (int_val M t b)] = Some (int_val M t (a - b))"
    and "op_sem M Add_int [VVal (int_val M t a), VVal (int_val M t b)] = Some (int_val M t (a + b))"
  using assms unfolding machine_ok_def by auto

section \<open>The bounds of a loop\<close>

lemma gen_tensorE:
  assumes "gen_tensor e n = Inr ((h, t), c, n')" "verify_code c T = Some T'" "matches T env e v" "eval_tensor M v = Some (w, u)"
  obtains env' where "run_code M fuel c (env, m) = Some (env', m)" "u = t" "T' h = Some t" "env' h = w" "T \<subseteq>\<^sub>m T'" "keeps T env env'"
proof -
  have "u = t" "computes M fuel c T' env m m (ETensor h t) (STensor w t)"
    using gen_tensor_correct[OF assms(1-4), of fuel m] by auto
  then show thesis using computesE[OF _ assms(2), of M fuel env m m] that by (metis matches.simps(2) sval.inject(2))
qed

lemma negate_matches: "matches T env e v \<Longrightarrow> matches T env (negate_step e) (negate_sval v)"
proof (cases e)
  case (EConst k)
  then show "matches T env e v \<Longrightarrow> matches T env (negate_step e) (negate_sval v)" by (cases k) auto
qed auto

lemma negative_matches: "matches T env e v \<Longrightarrow> negative_step (sentry v) = negative_step e"
  by (cases e) (auto simp: negative_step_def)

lemma gen_exprs_length: "gen_exprs G sc es n = Inr (as, c, n') \<Longrightarrow> length as = length es"
  by (induction es arbitrary: n as c) (auto simp: bind_r_eq_Inr_iff)

lemma range_bounds_correct:
  fixes M :: "('v, 'm) machine" and m :: 'm
  assumes g: "gen_exprs G sc args n = Inr (es, c0, n0)" "range_bounds G sc cls args es n0 = Inr ((lb, ub, step), c, n')"
    and v: "verify_code c T = Some T'" and es: "list_all2 (matches T env) es vs" and ag: "agree G T sc st env"
    and e: "eval_exprs G M args (st, m) = Some (vs, m1)" "source_bounds vs = Some (start, stop, by_step)"
    and pure: "\<And>x. cls = Py_range \<Longrightarrow> args = [x] \<Longrightarrow> pure_expr x"
  obtains env' where "run_code M fuel c (env, m1) = Some (env', m1)" "matches T' env' lb start" "matches T' env' ub stop"
    "matches T' env' step by_step"
proof -
  have len: "length es = length args" "length vs = length args"
    using gen_exprs_length[OF g(1)] list_all2_lengthD[OF es] by simp_all
  have nth: "matches T env (es ! i) (vs ! i)" if "i < length args" for i using es len that by (simp add: list_all2_conv_all_nth)
  have ne: "args \<noteq> []" using e(2) len by (auto simp: source_bounds_def split: if_splits)
  show thesis
  proof (cases "length args > 1 \<or> cls = Tl_range")
    case True
    then have "c = []" "T' = T" "matches T env lb start" "matches T env ub stop" "matches T env step by_step"
      using g(2) e(2) ne len nth[of 0] nth[of 1] nth[of 2] v
      by (auto simp: range_bounds_def source_bounds_def Let_def split: if_splits)
    then show thesis using that by simp
  next
    case False
    then obtain x where x: "args = [x]" "cls = Py_range" using ne by (cases args; cases "tl args"; cases cls) auto
    then obtain w where w: "eval_expr G M x (st, m) = Some (w, m1)" "vs = [w]" using e(1) by (auto simp: bind_eq_Some_conv)
    have "m1 = m" by (rule pure_expr_memory[OF pure[OF x(2,1)] w(1)])
    then have w1: "eval_expr G M x (st, m1) = Some (w, m1)" using w(1) by simp
    have b: "gen_expr G sc x n0 = Inr (ub, c, n')" "lb = EConst (NInt 0)" "step = EConst (NInt 1)"
      "start = SConst (NInt 0)" "stop = w" "by_step = SConst (NInt 1)"
      using g(2) e(2) x len w(2) by (auto simp: range_bounds_def source_bounds_def Let_def bind_r_eq_Inr_iff)
    obtain env' where "run_code M fuel c (env, m1) = Some (env', m1)" "matches T' env' ub w"
      using gen_exprE[OF b(1) v ag w1] by metis
    then show thesis using that b by simp
  qed
qed

lemma loop_bounds_correct:
  fixes M :: "('v, 'm) machine" and m :: 'm
  assumes g: "gen_tensor lb n = Inr ((hl, tyl), c1, n1)" "gen_tensor ub n1 = Inr ((hu, tu), c2, n2)" "gen_tensor step n2 = Inr ((hs, ts), c3, n3)"
      "loop_bounds (hl, tyl) (hu, tu) (hs, ts) n3 = Inr (t, (l, u, s), c4, n4)"
    and v: "verify_code (c1 @ c2 @ c3 @ c4) T = Some T'"
    and ma: "matches T env lb vl" "matches T env ub vu" "matches T env step vs"
    and e: "eval_tensor M vl = Some (a, ta)" "eval_tensor M vu = Some (b, tb)" "eval_tensor M vs = Some (d, td)"
      "loop_type ta tb td = Inr (t', sg)" "cast_int M t' sg a = Some a'" "cast_int M t' sg b = Some b'" "cast_int M t' sg d = Some d'"
    and M: "machine_ok M"
  obtains env' where "run_code M fuel (c1 @ c2 @ c3 @ c4) (env, m) = Some (env', m)" "t' = t" "T' l = Some t" "T' u = Some t" "T' s = Some t"
    "env' l = a'" "env' u = b'" "env' s = d'" "int_val M t (int_of_val M a') = a'" "int_val M t (int_of_val M b') = b'"
    "l = n3" "u = n3 + 1" "s = n3 + 2" "n4 = n3 + 3"
proof -
  obtain T1 T2 T3 where T: "verify_code c1 T = Some T1" "verify_code c2 T1 = Some T2" "verify_code c3 T2 = Some T3" "verify_code c4 T3 = Some T'"
    using v by (auto simp: bind_eq_Some_conv)
  obtain e1 where 1: "run_code M fuel c1 (env, m) = Some (e1, m)" "ta = tyl" "T1 hl = Some tyl" "e1 hl = a" "T \<subseteq>\<^sub>m T1" "keeps T env e1"
    using gen_tensorE[OF g(1) T(1) ma(1) e(1)] by metis
  obtain e2 where 2: "run_code M fuel c2 (e1, m) = Some (e2, m)" "tb = tu" "T2 hu = Some tu" "e2 hu = b" "T1 \<subseteq>\<^sub>m T2" "keeps T1 e1 e2"
    using gen_tensorE[OF g(2) T(2) matches_keeps[OF ma(2) 1(5,6)] e(2)] by metis
  obtain e3 where 3: "run_code M fuel c3 (e2, m) = Some (e3, m)" "td = ts" "T3 hs = Some ts" "e3 hs = d" "T2 \<subseteq>\<^sub>m T3" "keeps T2 e2 e3"
    using gen_tensorE[OF g(3) T(3) matches_keeps[OF matches_keeps[OF ma(3) 1(5,6)] 2(5,6)] e(3)] by metis
  have k: "e3 hl = a" "e3 hu = b" using 1 2 3 by (auto simp: keeps_def map_le_def dom_def)
  have d: "T3 hl = Some tyl" "T3 hu = Some tu" using 1 2 3 by (auto simp: map_le_def dom_def)
  obtain sg' where lt: "loop_type tyl tu ts = Inr (t, sg')" "l = n3" "u = n3 + 1" "s = n3 + 2" "n4 = n3 + 3"
      "c4 = [IOp n3 t (Int_cast t sg') [OVal hl], IOp (n3 + 1) t (Int_cast t sg') [OVal hu], IOp (n3 + 2) t (Int_cast t sg') [OVal hs]]"
    using g(4) by (auto simp: loop_bounds_def bind_r_eq_Inr_iff Let_def)
  have t: "t' = t" "sg' = sg" using e(4) lt(1) 1(2) 2(2) 3(2) by auto
  have fresh: "T3 n3 = None" "T3 (Suc n3) = None" "T3 (Suc (Suc n3)) = None" "T' = T3(n3 \<mapsto> t, n3 + 1 \<mapsto> t, n3 + 2 \<mapsto> t)"
    using T(4) unfolding lt(6) by (auto simp: bind_eq_Some_conv)
  then have ne: "hl \<noteq> n3" "hu \<noteq> n3" "hs \<noteq> n3" "hs \<noteq> Suc n3" "hu \<noteq> Suc n3" using d 3(3) by auto
  let ?e = "e3(n3 := a', n3 + 1 := b', n3 + 2 := d')"
  have r4: "run_code M fuel c4 (e3, m) = Some (?e, m)"
    unfolding lt(6) using e(5-7) ne k 3(4) t by (simp add: cast_int_def)
  have r: "run_code M fuel (c1 @ c2 @ c3 @ c4) (env, m) = Some (?e, m)" using 1(1) 2(1) 3(1) r4 by simp
  show thesis
    by (rule that[OF r t(1)]) (use fresh(4) lt(2-5) machine_okD(1)[OF M] e(5,6) t in \<open>simp_all add: cast_int_def\<close>)
qed

section \<open>The induction variable\<close>

lemma py_range_mirror:
  assumes "s > 0"
  shows "py_range b a (- s) = map (\<lambda>k. b - k + a) (py_range a b s)"
  using assms by (simp add: py_range_def o_def algebra_simps)

definition seen :: "bool \<Rightarrow> int \<Rightarrow> int \<Rightarrow> int \<Rightarrow> int" where
  "seen negative lb ub k = (if negative then ub - k + lb else k)"

text \<open>The values of the source loop are the ones the body of the generated loop sees.\<close>

lemma eval_range_seen:
  assumes "eval_range M vs = Some (t, ks)"
  obtains start stop step a ta b tb d td sg l u s where "source_bounds vs = Some (start, stop, step)"
    "eval_tensor M (if negative_step (sentry step) then stop else start) = Some (a, ta)"
    "eval_tensor M (if negative_step (sentry step) then start else stop) = Some (b, tb)"
    "eval_tensor M (if negative_step (sentry step) then negate_sval step else step) = Some (d, td)"
    "loop_type ta tb td = Inr (t, sg)" "cast_int M t sg a = Some l" "cast_int M t sg b = Some u" "cast_int M t sg d = Some s"
    "int_of_val M s > 0"
    "ks = map (seen (negative_step (sentry step)) (int_of_val M l) (int_of_val M u)) (py_range (int_of_val M l) (int_of_val M u) (int_of_val M s))"
proof -
  obtain start stop step where b: "source_bounds vs = Some (start, stop, step)"
    using assms by (auto simp: eval_range_def bind_eq_Some_conv)
  let ?neg = "negative_step (sentry step)"
  let ?lb = "if ?neg then stop else start" and ?ub = "if ?neg then start else stop" and ?st = "if ?neg then negate_sval step else step"
  have "(if ?neg then (stop, start, negate_sval step) else (start, stop, step)) = (?lb, ?ub, ?st)" by simp
  then obtain a ta b' tb d td sg l u s where *: "eval_tensor M ?lb = Some (a, ta)" "eval_tensor M ?ub = Some (b', tb)"
      "eval_tensor M ?st = Some (d, td)" "loop_type ta tb td = Inr (t, sg)" "cast_int M t sg a = Some l" "cast_int M t sg b' = Some u"
      "cast_int M t sg d = Some s" "int_of_val M s > 0"
      "ks = (if ?neg then py_range (int_of_val M u) (int_of_val M l) (- int_of_val M s)
              else py_range (int_of_val M l) (int_of_val M u) (int_of_val M s))"
    using assms b unfolding eval_range_def by (auto simp: bind_eq_Some_conv Let_def simp del: if_split_asm)
  have "ks = map (seen ?neg (int_of_val M l) (int_of_val M u)) (py_range (int_of_val M l) (int_of_val M u) (int_of_val M s))"
    using *(9) py_range_mirror[OF *(8)] by (auto simp: seen_def[abs_def])
  from that[OF b *(1-8) this] show thesis .
qed

lemma loop_variable_correct:
  fixes M :: "('v, 'm) machine" and m :: 'm
  assumes g: "loop_variable neg t lb ub iv n = (iv', cv, n')" and v: "verify_code (map (replace_uses h iv') cv) T = Some T'"
    and T: "T h = Some t" "T iv = Some t" "T lb = Some t" "T ub = Some t" "h \<noteq> iv" "h \<noteq> lb" "h \<noteq> ub"
    and e: "env iv = int_val M t k" "env lb = int_val M t l" "env ub = int_val M t u" and M: "machine_ok M"
  obtains env' where "run_code M fuel (map (replace_uses h iv') cv) (env, m) = Some (env', m)" "env' iv' = int_val M t (seen neg l u k)"
    "same_typed T' h iv'" "T \<subseteq>\<^sub>m T'" "keeps T env env'"
proof (cases neg)
  case False
  then have "iv' = iv" "cv = []" using g by (simp_all add: loop_variable_def)
  then show thesis using that[of env] v T e False by (simp add: seen_def same_typed_def)
next
  case True
  then have iv: "iv' = n + 1" "cv = [IOp n t Sub_int [OVal ub, OVal iv], IOp (n + 1) t Add_int [OVal n, OVal lb]]"
    using g by (auto simp: loop_variable_def)
  have rep: "map (replace_uses h iv') cv = [IOp n t Sub_int [OVal ub, OVal iv], IOp (n + 1) t Add_int [OVal n, OVal lb]]"
    using v T iv by (auto simp: rename_def bind_eq_Some_conv split: if_splits)
  have f: "T n = None" "T (Suc n) = None" "T' = T(n \<mapsto> t, n + 1 \<mapsto> t)" using v unfolding rep by (auto simp: bind_eq_Some_conv split: if_splits)
  then have ne: "ub \<noteq> n" "iv \<noteq> n" "lb \<noteq> n" "h \<noteq> n" "h \<noteq> Suc n" using T by auto
  let ?e = "env(n := int_val M t (u - k), n + 1 := int_val M t (u - k + l))"
  have run: "run_code M fuel (map (replace_uses h iv') cv) (env, m) = Some (?e, m)"
    unfolding rep using e ne machine_okD(2,3)[OF M] by simp
  have "T \<subseteq>\<^sub>m T'" "keeps T env ?e" using f by (auto simp: map_le_def keeps_def)
  then show thesis using that[OF run] True iv f(3) T(1) ne by (simp add: seen_def same_typed_def)
qed

section \<open>One iteration\<close>

lemma put_values_cong: "env y = env' y \<Longrightarrow> put_values args vs env y = put_values args vs env' y"
proof (induction args arbitrary: vs env env')
  case (Cons a args)
  show ?case
  proof (cases vs)
    case v: (Cons v vs')
    show ?thesis unfolding v put_values_simps
      by (rule Cons.IH[where env = "env(fst a := v)" and env' = "env'(fst a := v)"]) (use Cons.prems in simp)
  qed (simp add: Cons.prems)
qed simp

lemma add_types_cong: "T y = T' y \<Longrightarrow> add_types args T y = add_types args T' y"
proof (induction args arbitrary: T T')
  case (Cons a args)
  obtain h t where "a = (h, t)" by (cases a)
  show ?case unfolding \<open>a = (h, t)\<close> add_types_simps
    by (rule Cons.IH[where T = "T(h \<mapsto> t)" and T' = "T'(h \<mapsto> t)"]) (use Cons.prems in simp)
qed simp

lemma fresh_none: "fresh T args \<Longrightarrow> y \<in> set (map fst args) \<Longrightarrow> T y = None"
  by (auto simp: fresh_def list_all_iff)

text \<open>The region of a \<open>for\<close>: the induction variable \<open>iv\<close> and the carried values \<open>args\<close> are its arguments, the
  placeholder \<open>h\<close> of the loop variable is replaced by the value the body sees.  \<open>T\<close> are the types before the
  placeholder.\<close>

lemma for_body:
  fixes M :: "('v, 'm) machine" and m :: 'm
  assumes body: "\<And>s. s \<in> set body \<Longrightarrow> stmt_correct G M fuel s" and M: "machine_ok M"
    and rel: "loop_rel G T scx names ts st env (s, m) (vs, e, m)" and ag0: "agree G T scx st env" and st: "st x = None"
    and T: "T h = None" "T lb = Some t" "T ub = Some t" and bounds: "env lb = int_val M t l" "env ub = int_val M t u"
    and scx: "map_of scx x = Some (ETensor h t)" "x \<notin> set names" "distinct names" "length names = length args" "map snd args = ts"
    and f: "fresh (T(h \<mapsto> t)) ((iv, t) # args)"
    and lv: "loop_variable neg t lb ub iv n7 = (iv', cv, n8)"
    and v: "verify_code (map (replace_uses h iv') (cv @ cb)) (add_types ((iv, t) # args) (T(h \<mapsto> t))) = Some T2"
    and r: "ready G (assigned_in body) (statics_in body) L U (binds names args scx) d st" "insert x (dom st) \<subseteq> U"
    and w: "wf_stmts L U body"
    and g: "gen_stmts G body (binds names args scx, d, n) = Inr (cb, sc3, d3, n3)"
    and c: "carried_names scx d3 = names" "map_r (lookup_tensor d3) names = Inr ys" "typed T2 (map (rename h iv') (map fst ys)) ts"
    and ex: "exec_stmts G M fuel body (s(x := Some (STensor (int_val M t (seen neg l u k)) t)), m) = Some (s2, m2)"
  shows "\<exists>e2. run_code M fuel (map (replace_uses h iv') (cv @ cb)) (put_values args vs (e(iv := int_val M t k)), m) = Some (e2, m2) \<and>
    loop_rel G T scx names ts st env (leave st (s2, m2)) (map e2 (map (rename h iv') (map fst ys)), e2, m2)"
proof -
  let ?Th = "T(h \<mapsto> t)" and ?sx = "s(x := Some (STensor (int_val M t (seen neg l u k)) t))"
  let ?Ta = "add_types ((iv, t) # args) ?Th" and ?ea = "put_values args vs (e(iv := int_val M t k))"
  have le: "T \<subseteq>\<^sub>m ?Th" using T(1) by (auto simp: map_le_def)
  have ivh: "iv \<noteq> h" "iv \<noteq> lb" "iv \<noteq> ub" "h \<noteq> lb" "h \<noteq> ub" "h \<notin> set (map fst args)" "iv \<notin> set (map fst args)"
      "lb \<notin> set (map fst args)" "ub \<notin> set (map fst args)" "T iv = None"
  proof -
    have n: "(T(h \<mapsto> t)) y = None" if "y \<in> set (map fst ((iv, t) # args))" for y by (rule fresh_none[OF f that])
    show "iv \<noteq> h" "iv \<noteq> lb" "iv \<noteq> ub" "T iv = None" using n[of iv] T by (auto split: if_splits)
    show "h \<noteq> lb" "h \<noteq> ub" using T by auto
    show "h \<notin> set (map fst args)" "lb \<notin> set (map fst args)" "ub \<notin> set (map fst args)"
      using n[of h] n[of lb] n[of ub] T by (auto simp del: set_map split: if_split_asm)
    show "iv \<notin> set (map fst args)" using f by simp
  qed
  have fT: "fresh T args"
    unfolding fresh_def list_all_iff
  proof (intro conjI ballI)
    show "distinct (map fst args)" using f by (simp add: fresh_def)
    fix p assume "p \<in> set args"
    then have "fst p \<in> set (map fst args)" by simp
    then have "(T(h \<mapsto> t)) (fst p) = None" "fst p \<noteq> h" using fresh_none[OF f, of "fst p"] ivh(6) by auto
    then show "case p of (k, u) \<Rightarrow> T k = None" by (simp add: split_beta)
  qed
  have Ta: "?Th \<subseteq>\<^sub>m ?Ta" by (rule add_types_le[OF f])
  have tys: "?Ta h = Some t" "?Ta iv = Some t" "?Ta lb = Some t" "?Ta ub = Some t"
    using ivh T by (simp_all add: add_types_other)
  have el: "e lb = env lb" "e ub = env ub" using loop_relD(2)[OF rel] T by (simp_all add: keeps_def)
  have vals: "?ea iv = int_val M t k" "?ea lb = int_val M t l" "?ea ub = int_val M t u"
    using ivh el bounds by (simp_all add: put_values_other)
  obtain Tv where Tv: "verify_code (map (replace_uses h iv') cv) ?Ta = Some Tv" "verify_code (map (replace_uses h iv') cb) Tv = Some T2"
    using v by (auto simp: bind_eq_Some_conv)
  obtain ev where ev: "run_code M fuel (map (replace_uses h iv') cv) (?ea, m) = Some (ev, m)" "ev iv' = int_val M t (seen neg l u k)"
      "same_typed Tv h iv'" "?Ta \<subseteq>\<^sub>m Tv" "keeps ?Ta ?ea ev"
    using loop_variable_correct[OF lv Tv(1) tys ivh(1)[symmetric] ivh(4,5) vals M, where fuel = fuel and m = m] by metis
  let ?e0 = "redirect h iv' ev"
  have Ta_other: "?Ta y = add_types args T y" if "y \<noteq> h" "y \<noteq> iv" for y
    using that by (simp add: add_types_cong[of "T(h \<mapsto> t, iv \<mapsto> t)" y T])
  have leT: "add_types args T \<subseteq>\<^sub>m Tv"
  proof (rule map_le_trans[OF _ ev(4)], unfold map_le_def, intro ballI)
    fix y assume y: "y \<in> dom (add_types args T)"
    then have "y \<noteq> h" "y \<noteq> iv" using ivh T(1) by (auto simp: add_types_other)
    then show "add_types args T y = ?Ta y" using Ta_other by simp
  qed
  have keep0: "keeps (add_types args T) (put_values args vs e) ?e0"
    unfolding keeps_def
  proof (intro allI impI)
    fix y assume y: "add_types args T y \<noteq> None"
    have "y \<noteq> h" "y \<noteq> iv" using y ivh T(1) by (auto simp: add_types_other)
    moreover have "ev y = ?ea y" using ev(5) y Ta_other[OF \<open>y \<noteq> h\<close> \<open>y \<noteq> iv\<close>] by (simp add: keeps_def)
    moreover have "?ea y = put_values args vs e y" using \<open>y \<noteq> iv\<close> by (intro put_values_cong) simp
    ultimately show "?e0 y = put_values args vs e y" by (simp add: redirect_def)
  qed
  have "agree G (add_types args T) (binds names args scx) s (put_values args vs e)"
    by (rule region_agree[OF loop_relD(3)[OF rel] scx(3-5) fT disjI1[OF refl] agree_globals[OF ag0]])
  then have "agree G Tv (binds names args scx) s ?e0" by (rule agree_keeps[OF _ leT keep0])
  moreover have "Tv h = Some t" using ev(4) tys(1) by (auto simp: map_le_def dom_def)
  ultimately have ag: "agree G Tv (binds names args scx) ?sx ?e0"
    by (rule_tac agree_assign[where a = "ETensor h t"])
      (use scx(1) map_of_binds_other[OF scx(3,4,2)] ev(2) in \<open>simp_all add: redirect_def\<close>)
  have "keeps T e ?e0"
  proof -
    have "keeps T (put_values args vs e) ?e0" by (rule keeps_mono[OF add_types_le[OF fT] keep0])
    then show ?thesis by (rule keeps_trans[OF keeps_put_values[OF fT]])
  qed
  note T1 = map_le_trans[OF add_types_le[OF fT] leT] this
  have "dom s \<subseteq> dom st" using loop_relD(4)[OF rel] by (meson domIff subsetI)
  then have dom: "dom ?sx \<subseteq> U" using r(2) by auto
  have rs: "ready G (assigned_in body) (statics_in body) L U (binds names args scx) d ?sx"
    by (rule ready_after[OF r(1) scope_step_refl dom])
  note V = replace_uses_verifies[OF Tv(2) ev(3)]
  have ty: "typed T2 (map fst ys) ts"
    using c(3) typed_rename[OF same_typed_mono[OF code_extends[OF V] ev(3)]] by blast
  have "\<exists>e2. run_code M fuel cb (?e0, m) = Some (e2, m2) \<and>
      loop_rel G T scx names ts st env (leave st (s2, m2)) (map e2 (map fst ys), e2, m2)"
    by (rule loop_body[OF body rel ag0 ag T1 _ rs _ _ w g V c(1,2) ty keys_binds_mono ex, where X = "{x}"]) (use st in auto)
  then obtain e2 where e2: "run_code M fuel cb (?e0, m) = Some (e2, m2)"
      "loop_rel G T scx names ts st env (leave st (s2, m2)) (map e2 (map fst ys), e2, m2)"
    by blast
  from e2(1) obtain e3 where e3: "run_code M fuel (map (replace_uses h iv') cb) (ev, m) = Some (e3, m2)" "e2 = redirect h iv' e3"
    unfolding replace_uses_runs[OF Tv(2) ev(3)] by auto
  have "keeps T e2 e3" using T(1) by (auto simp: keeps_def e3(2) redirect_def)
  moreover have "map e2 (map fst ys) = map e3 (map (rename h iv') (map fst ys))" unfolding e3(2) by (simp add: redirect_apply)
  moreover obtain s' where "leave st (s2, m2) = (s', m2)" by (simp add: leave_def)
  ultimately have "loop_rel G T scx names ts st env (leave st (s2, m2)) (map e3 (map (rename h iv') (map fst ys)), e3, m2)"
    using loop_rel_env e2(2) by metis
  then show ?thesis using ev(1) e3(1) by auto
qed

section \<open>For\<close>

lemma add_types_mono: "T \<subseteq>\<^sub>m T' \<Longrightarrow> add_types args T \<subseteq>\<^sub>m add_types args T'"
proof (induction args arbitrary: T T')
  case (Cons a args)
  obtain h t where a: "a = (h, t)" by (cases a)
  have "T(h \<mapsto> t) \<subseteq>\<^sub>m T'(h \<mapsto> t)" using Cons.prems by (rule map_le_upd)
  then show ?case unfolding a add_types_simps by (rule Cons.IH)
qed simp

text \<open>The loop of the code does what the loop of the source does, from the placeholder on.\<close>

lemma for_loop:
  fixes M :: "('v, 'm) machine" and m :: 'm
  assumes body: "\<And>s. s \<in> set body \<Longrightarrow> stmt_correct G M fuel s" and M: "machine_ok M"
    and ag: "agree G T scx st env" and st: "st x = None"
    and T: "T h = None" "T lb = Some t" "T ub = Some t" and bounds: "env lb = int_val M t (int_of_val M (env lb))"
      "env ub = int_val M t (int_of_val M (env ub))" "int_of_val M (env by_step) > 0" "h \<noteq> lb" "h \<noteq> ub" "h \<noteq> by_step"
    and scx: "map_of scx x = Some (ETensor h t)" "x \<notin> set names" "distinct names" "located scx names inits"
    and args: "args = fresh_args k (map snd inits)" "rs = fresh_args k' (map snd ys)"
    and lv: "loop_variable neg t lb ub iv n7 = (iv', cv, n8)"
    and v: "verify_code [IPoison h t, IFor rs iv t lb ub by_step (map fst inits) args
       (map (replace_uses h iv') (cv @ cb)) (map (rename h iv') (map fst ys))] T = Some T'"
    and r: "ready G (assigned_in body) (statics_in body) L U (binds names args scx) da st" "insert x (dom st) \<subseteq> U"
    and w: "wf_stmts L U body"
    and g: "gen_stmts G body (binds names args scx, da, n) = Inr (cb, sc3, d3, n3)"
    and c: "map_r (lookup_tensor d3) (carried_names scx d3) = Inr ys" "names_of da = names" "carried_names scx da = names"
    and ex: "for_each (\<lambda>k (s', m). map_option (leave st) (exec_stmts G M fuel body (s'(x := Some (STensor (int_val M t k) t)), m)))
      (map (seen neg (int_of_val M (env lb)) (int_of_val M (env ub)))
        (py_range (int_of_val M (env lb)) (int_of_val M (env ub)) (int_of_val M (env by_step)))) (st, m) = Some (st', m')"
  shows "simulated G M fuel [IPoison h t, IFor rs iv t lb ub by_step (map fst inits) args
       (map (replace_uses h iv') (cv @ cb)) (map (rename h iv') (map fst ys))] T' scx (binds names rs scx) (binds names rs d)
       (st, m) env (st', m')"
proof -
  let ?Th = "T(h \<mapsto> t)" and ?e = "env(h := poison_val M)" and ?ts = "map snd inits" and ?ks = "map (rename h iv') (map fst ys)"
  let ?rb = "map (replace_uses h iv') (cv @ cb)"
  have sn: "map snd args = ?ts" "map snd rs = map snd ys" by (simp_all add: args)
  have "verify_instr (IFor rs iv t lb ub by_step (map fst inits) args ?rb ?ks) ?Th = Some T'"
    using v T(1) by (simp del: verify_instr.simps(6) add: bind_eq_Some_conv)
  then obtain T2 where V: "typed ?Th (map fst inits) (map snd ys)" "?ts = map snd ys" "fresh ?Th rs" "fresh ?Th ((iv, t) # args)"
      "verify_code ?rb (add_types ((iv, t) # args) ?Th) = Some T2" "typed T2 ?ks (map snd ys)" "T' = add_types rs ?Th"
    unfolding verify_instr.simps sn bind_eq_Some_conv guard_eq_Some option.inject by blast
  note V = V(1)[folded V(2)] V(2)[symmetric] V(3-5) V(6)[folded V(2)] V(7)
  have ly: "length ys = length inits" using arg_cong[OF V(2), of length] by simp
  then have len: "length names = length args" "length names = length rs" "length inits = length names" "map snd args = ?ts" "map snd rs = ?ts"
    using located_length[OF scx(4)] V(2) by (simp_all add: args)
  have carried: "carried_names scx d3 = names"
  proof -
    obtain e where e: "names_of d3 = names_of da @ e" using scope_stepD(3)[OF gen_stmts_scopes[OF readyD(1)[OF r(1)] g]] by blast
    have "length (carried_names scx d3) = length names"
      using map_r_length[OF c(1)] ly len(3) by simp
    with e c(3) show ?thesis by (rule carried_again)
  qed
  have le: "T \<subseteq>\<^sub>m ?Th" "keeps T env ?e" using T(1) by (auto simp: map_le_def keeps_def)
  have agh: "agree G ?Th scx st ?e" by (rule agree_keeps[OF ag le])
  let ?R = "loop_rel G T scx names ?ts st env"
  have start: "?R (st, m) (map ?e (map fst inits), ?e, m)"
  proof (rule loop_relI[OF le(2)])
    have "holds G T scx names ?ts (map ?e (map fst inits)) st env"
      by (rule located_holds[OF agh scx(4) V(1) _ agree_globals[OF ag]]) (use ag in \<open>simp add: agree_def\<close>)
    then show "holds G T scx names ?ts (map ?e (map fst inits)) st ?e" by (rule holds_keeps) (rule le(2))
  qed simp_all
  let ?body2 = "\<lambda>k (vs, e, m). map_option (\<lambda>(e, m). (map e ?ks, e, m)) (run_code M fuel ?rb (put_values args vs (e(iv := int_val M t k)), m))"
  let ?body1 = "\<lambda>k (s', m). map_option (leave st) (exec_stmts G M fuel body (s'(x := Some (STensor (int_val M t k) t)), m))"
  let ?f = "seen neg (int_of_val M (env lb)) (int_of_val M (env ub))"
  let ?range = "py_range (int_of_val M (env lb)) (int_of_val M (env ub)) (int_of_val M (env by_step))"
  have "\<exists>c'. for_each ?body2 ?range (map ?e (map fst inits), ?e, m) = Some c' \<and> ?R (st', m') c'"
  proof (rule for_each_sim[where R = ?R and s = "(st, m)" and c = "(map ?e (map fst inits), ?e, m)", OF _ start ex])
    fix k s c s' assume R: "?R s c" and b: "?body1 (?f k) s = Some s'"
    obtain s0 m0 vs e m1 where s: "s = (s0, m0)" "c = (vs, e, m1)" by (cases s; cases c)
    note R = R[unfolded s] note m1 = loop_relD(1)[OF R]
    obtain s2 m2 where x: "exec_stmts G M fuel body (s0(x := Some (STensor (int_val M t (?f k)) t)), m0) = Some (s2, m2)" "s' = leave st (s2, m2)"
      using b s by auto
    from for_body[OF body M R[unfolded m1] ag st T bounds(1,2) scx(1-3) len(1,4) V(4) lv V(5) r w g carried c(1)[unfolded carried] V(6) x(1)]
    show "\<exists>c'. ?body2 k c = Some c' \<and> ?R s' c'" using s x(2) m1 by auto
  qed
  then obtain vs e1 m1 where it: "for_each ?body2 ?range (map ?e (map fst inits), ?e, m) = Some (vs, e1, m1)" "?R (st', m') (vs, e1, m1)"
    by (auto simp: split_paired_Ex)
  have frs: "fresh T rs" using V(3) T(1) by (auto simp: fresh_def list_all_iff split_beta split: if_split_asm)
  note fin = loop_rel_end[OF it(2) scx(3) len(2,5) frs]
  have "agree G T' (binds names rs scx) st' (put_values rs vs e1)"
    unfolding V(7) by (rule agree_keeps[OF fin(2) add_types_mono[OF le(1)] keeps_refl])
  then show ?thesis using it(1) fin(1,3) bounds(3-6) by (intro simulatedI[where env' = "put_values rs vs e1"]) simp_all
qed

lemma agree_shadow:
  assumes "agree G T sc s env" "s x = None" "globals G x = None"
  shows "agree G T (AList.update x a sc) s env"
  using assms by (auto simp: agree_def matching_def)

lemma ready_loop:
  assumes "ready G (insert x A) S L U sc d st"
  shows "ready G A S (insert x L) (insert x U) (AList.update x a sc) [] (st(x := None))"
  using assms unfolding ready_def by (auto simp: names_of_update)

text \<open>The bounds, the step and the code before the loop.\<close>

lemma for_header:
  fixes M :: "('v, 'm) machine" and m :: 'm
  assumes g: "gen_exprs G sc args n = Inr (es, c0, n0)" "range_bounds G sc cls args es n0 = Inr ((lb0, ub0, st0), c1, n1)"
      "(lb1, ub1, st1) = (if negative_step st0 then (ub0, lb0, negate_step st0) else (lb0, ub0, st0))"
      "gen_tensor lb1 n1 = Inr (lb2, c2, n2)" "gen_tensor ub1 n2 = Inr (ub2, c3, n3)" "gen_tensor st1 n3 = Inr (st2, c4, n4)"
      "loop_bounds lb2 ub2 st2 n4 = Inr (t, (lb, ub, by_step), c5, n5)"
    and v: "verify_code (c0 @ c1 @ c2 @ c3 @ c4 @ c5) T = Some T5" and ag: "agree G T sc st env"
    and e: "eval_exprs G M args (st, m) = Some (vs, m1)" "eval_range M vs = Some (t', ks)"
    and pure: "\<And>x. cls = Py_range \<Longrightarrow> args = [x] \<Longrightarrow> pure_expr x" and M: "machine_ok M"
  obtains env5 where "run_code M fuel (c0 @ c1 @ c2 @ c3 @ c4 @ c5) (env, m) = Some (env5, m1)" "agree G T5 sc st env5" "t' = t"
    "T5 lb = Some t" "T5 ub = Some t" "env5 lb = int_val M t (int_of_val M (env5 lb))" "env5 ub = int_val M t (int_of_val M (env5 ub))"
    "int_of_val M (env5 by_step) > 0" "n5 \<noteq> lb" "n5 \<noteq> ub" "n5 \<noteq> by_step"
    "ks = map (seen (negative_step st0) (int_of_val M (env5 lb)) (int_of_val M (env5 ub)))
      (py_range (int_of_val M (env5 lb)) (int_of_val M (env5 ub)) (int_of_val M (env5 by_step)))"
proof -
  obtain T0 T1 where T: "verify_code c0 T = Some T0" "verify_code c1 T0 = Some T1" "verify_code (c2 @ c3 @ c4 @ c5) T1 = Some T5"
    using v by (auto simp: bind_eq_Some_conv)
  obtain env0 where 0: "run_code M fuel c0 (env, m) = Some (env0, m1)" "list_all2 (matches T0 env0) es vs" "agree G T0 sc st env0"
    using gen_exprsE[OF g(1) T(1) ag e(1)] by metis
  from eval_range_seen[OF e(2)] obtain start stop step a ta b tb d td sg l u s where
    r: "source_bounds vs = Some (start, stop, step)"
    "eval_tensor M (if negative_step (sentry step) then stop else start) = Some (a, ta)"
    "eval_tensor M (if negative_step (sentry step) then start else stop) = Some (b, tb)"
    "eval_tensor M (if negative_step (sentry step) then negate_sval step else step) = Some (d, td)"
    "loop_type ta tb td = Inr (t', sg)" "cast_int M t' sg a = Some l" "cast_int M t' sg b = Some u" "cast_int M t' sg d = Some s"
    "int_of_val M s > 0"
    "ks = map (seen (negative_step (sentry step)) (int_of_val M l) (int_of_val M u)) (py_range (int_of_val M l) (int_of_val M u) (int_of_val M s))"
    by metis
  obtain env1 where 1: "run_code M fuel c1 (env0, m1) = Some (env1, m1)" "matches T1 env1 lb0 start" "matches T1 env1 ub0 stop"
      "matches T1 env1 st0 step"
    by (rule range_bounds_correct[OF g(1,2) T(2) 0(2,3) e(1) r(1) pure])
  let ?neg = "negative_step st0"
  have neg: "negative_step (sentry step) = ?neg" by (rule negative_matches[OF 1(4)])
  have m1: "matches T1 env1 lb1 (if ?neg then stop else start)" "matches T1 env1 ub1 (if ?neg then start else stop)"
      "matches T1 env1 st1 (if ?neg then negate_sval step else step)"
    using g(3) 1(2-4) negate_matches[OF 1(4)] by (cases ?neg; simp)+
  obtain hl tyl hu tyu hs tys where p: "lb2 = (hl, tyl)" "ub2 = (hu, tyu)" "st2 = (hs, tys)" by (cases lb2; cases ub2; cases st2)
  note r' = r(2-4,10)[unfolded neg]
  obtain env5 where 5: "run_code M fuel (c2 @ c3 @ c4 @ c5) (env1, m1) = Some (env5, m1)" "t' = t" "T5 lb = Some t" "T5 ub = Some t"
      "T5 by_step = Some t" "env5 lb = l" "env5 ub = u" "env5 by_step = s" "int_val M t (int_of_val M l) = l" "int_val M t (int_of_val M u) = u"
      "lb = n4" "ub = n4 + 1" "by_step = n4 + 2" "n5 = n4 + 3"
    by (rule loop_bounds_correct[OF g(4-7)[unfolded p] T(3) m1 r'(1-3) r(5-8) M])
  have run: "run_code M fuel (c0 @ c1 @ c2 @ c3 @ c4 @ c5) (env, m) = Some (env5, m1)" using 0(1) 1(1) 5(1) by simp
  have "agree G T1 sc st env1" by (rule agree_keeps[OF 0(3) code_extends[OF T(2)] code_keeps[OF T(2) 1(1)]])
  then have "agree G T5 sc st env5" by (rule agree_keeps[OF _ code_extends[OF T(3)] code_keeps[OF T(3) 5(1)]])
  then show thesis by (rule that[OF run _ 5(2-4)]) (use 5 r(9) r'(4) in simp_all)
qed

lemma stmt_correct_for:
  fixes M :: "('v, 'm) machine"
  assumes body: "\<And>s. s \<in> set body \<Longrightarrow> stmt_correct G M fuel s" and M: "machine_ok M"
  shows "stmt_correct G M fuel (ForStmt x cls args body)"
proof (rule stmt_correctI)
  fix L U sc d n c sc' d' n' T T' and st :: "'v vars" and env :: "'v env" and m :: 'm and st' :: "'v vars" and m' :: 'm
  assume g: "gen_stmt G (ForStmt x cls args body) (sc, d, n) = Inr (c, sc', d', n')" and v: "verify_code c T = Some T'"
    and e: "exec_stmt G M fuel (ForStmt x cls args body) (st, m) = Some (st', m')" and ag: "agree G T sc st env"
    and r: "ready G (assigned (ForStmt x cls args body)) (statics (ForStmt x cls args body)) L U sc d st"
    and w: "wf_stmt L U (ForStmt x cls args body)"
  let ?A = "assigned_in body" and ?S = "statics_in body" and ?s0 = "st(x := None)"
  have r: "ready G (insert x ?A) ?S L U sc d st" and w: "x \<notin> ?A" "\<And>e. cls = Py_range \<Longrightarrow> args = [e] \<Longrightarrow> pure_expr e"
      "wf_stmts (insert x L) (insert x U) body"
    using r w by simp_all
  have xS: "x \<notin> ?S" "globals G x = None" using readyD(3,5)[OF r] by auto
  from e obtain vs m1 t' ks where e: "eval_exprs G M args (st, m) = Some (vs, m1)" "eval_range M vs = Some (t', ks)"
      "for_each (\<lambda>k (s', m). map_option (leave ?s0)
         (exec_stmts G M fuel body (s'(x := Some (STensor (int_val M t' k) t')), m))) ks (?s0, m1) = Some (st', m')"
    by (auto simp: bind_eq_Some_conv Let_def)
  from g show "simulated G M fuel c T' sc sc' d' (st, m) env (st', m')"
  proof (rule gen_forE)
    fix es c0 n0 lb0 ub0 st0 c1 n1 neg lb1 ub1 st1 lb2 c2 n2 ub2 c3 n3 st2 c4 n4 t lb ub by_step c5 n5 scx dx
      cd scd dd n6 names inits largs cb sc2 d2 n7 ys iv' cv n8 h u rs
    assume h: "gen_exprs G sc args n = Inr (es, c0, n0)" "range_bounds G sc cls args es n0 = Inr ((lb0, ub0, st0), c1, n1)"
        "(lb1, ub1, st1) = (if neg then (ub0, lb0, negate_step st0) else (lb0, ub0, st0))"
        "gen_tensor lb1 n1 = Inr (lb2, c2, n2)" "gen_tensor ub1 n2 = Inr (ub2, c3, n3)" "gen_tensor st1 n3 = Inr (st2, c4, n4)"
        "loop_bounds lb2 ub2 st2 n4 = Inr (t, (lb, ub, by_step), c5, n5)"
      and neg: "neg = negative_step st0" and scx: "scx = AList.update x (ETensor n5 t) sc" and dx: "dx = AList.update x (ETensor n5 t) d"
      and dry: "gen_stmts G body (scx, [], Suc n5) = Inr (cd, scd, dd, n6)" and names: "names = carried_names scx dd"
      and inits: "map_r (verify_loop_carried_variable scx dd) names = Inr inits" and largs: "largs = fresh_args (Suc n6) (map snd inits)"
      and g2: "gen_stmts G body (fst (bind_names names largs (scx, [])), snd (bind_names names largs (scx, [])), Suc n6 + length largs) =
         Inr (cb, sc2, d2, n7)"
      and ys: "map_r (lookup_tensor d2) (carried_names scx d2) = Inr ys" and lv: "loop_variable neg t lb ub n6 n7 = (iv', cv, n8)"
      and hu: "lookup_tensor sc2 x = Inr (h, u)" and rs: "rs = fresh_args n8 (map snd ys)"
      and c: "c = c0 @ c1 @ c2 @ c3 @ c4 @ c5 @ [IPoison n5 t, IFor rs n6 t lb ub by_step (map fst inits) largs
         (map (replace_uses h iv') (cv @ cb)) (map (rename h iv') (map fst ys))]"
      and out: "(sc', d', n') = (fst (bind_names names rs (scx, dx)), snd (bind_names names rs (scx, dx)), n8 + length rs)"
    let ?pre = "c0 @ c1 @ c2 @ c3 @ c4 @ c5"
    let ?loop = "[IPoison n5 t, IFor rs n6 t lb ub by_step (map fst inits) largs
         (map (replace_uses h iv') (cv @ cb)) (map (rename h iv') (map fst ys))]"
    let ?sca = "binds names largs scx" and ?da = "binds names largs []"
    have g2: "gen_stmts G body (?sca, ?da, Suc n6 + length largs) = Inr (cb, sc2, d2, n7)" using g2 by (simp add: bind_names_binds)
    have out: "sc' = binds names rs scx" "d' = binds names rs dx" using out by (simp_all add: bind_names_binds)
    have "verify_code (?pre @ ?loop) T = Some T'" using v by (simp add: c)
    then obtain T5 where T: "verify_code ?pre T = Some T5" "verify_code ?loop T5 = Some T'"
      unfolding verify_code_append[of ?pre] by (auto simp: bind_eq_Some_conv)
    obtain env5 where 5: "run_code M fuel ?pre (env, m) = Some (env5, m1)" "agree G T5 sc st env5" "t' = t"
        "T5 lb = Some t" "T5 ub = Some t" "env5 lb = int_val M t (int_of_val M (env5 lb))" "env5 ub = int_val M t (int_of_val M (env5 ub))"
        "int_of_val M (env5 by_step) > 0" "n5 \<noteq> lb" "n5 \<noteq> ub" "n5 \<noteq> by_step"
        "ks = map (seen neg (int_of_val M (env5 lb)) (int_of_val M (env5 ub)))
          (py_range (int_of_val M (env5 lb)) (int_of_val M (env5 ub)) (int_of_val M (env5 by_step)))"
      using for_header[OF h(1,2) h(3)[unfolded neg] h(4-7) T(1) ag e(1,2) w(2) M] unfolding neg by metis
    have none: "T5 n5 = None" using T(2) by (simp add: bind_eq_Some_conv)
    have rx: "ready G ?A ?S (insert x L) (insert x U) scx [] ?s0" unfolding scx by (rule ready_loop[OF r])
    note step1 = gen_stmts_scopes[OF readyD(1)[OF rx] dry]
    have dist: "distinct names" unfolding names by (rule carried_names_distinct[OF scope_stepD(6)[OF step1]]) simp
    have sub: "set names \<subseteq> ?A" "set names \<subseteq> keys scx" unfolding names carried_names_set using scope_step_keys(2)[OF step1] by auto
    have xn: "x \<notin> set names" using sub(1) w(1) by blast
    have len: "length names = length largs" by (simp add: largs map_r_length[OF inits])
    have stepa: "scope_step ?A ?S scx [] ?sca ?da" by (rule scope_step_binds_some[OF dist sub(1)])
    have ra: "ready G ?A ?S (insert x L) (insert x U) ?sca ?da ?s0" by (rule ready_after[OF rx stepa readyD(7)[OF rx]])
    note stepb = gen_stmts_scopes[OF readyD(1)[OF ra] g2]
    have "x \<notin> keys d2" using scope_step_keys(2)[OF stepb] scope_step_keys(2)[OF stepa] w(1) by auto
    then have "map_of sc2 x = map_of ?sca x" using xS(1) by (intro scope_stepD(4)[OF stepb])
    then have hn: "h = n5" "u = t" using hu by (simp_all add: map_of_binds_other[OF dist len xn] scx)
    have nda: "names_of ?da = names" by (simp add: names_of_binds[OF dist len])
    then have cda: "carried_names scx ?da = names"
      unfolding carried_names_def nda using sub(2) by (simp add: filter_id_conv in_scope_keys subset_iff)
    have agx: "agree G T5 scx ?s0 env5"
      unfolding scx by (rule agree_shadow[OF agree_store[OF 5(2)] _ xS(2)]) simp_all
    have ss: "map_of scx x = Some (ETensor n5 t)" by (simp add: scx)
    note ex = e(3)[unfolded 5(3,12)]
    have dom: "insert x (dom ?s0) \<subseteq> insert x U" using readyD(7)[OF r] by auto
    have "simulated G M fuel ?loop T' scx (binds names rs scx) (binds names rs dx) (?s0, m1) env5 (st', m')"
      unfolding hn(1)
      by (rule for_loop[OF body M agx _ none 5(4-11) ss xn dist located_carried[OF inits] largs rs lv T(2)[unfolded hn(1)] ra dom w(3) g2 ys
          nda cda ex]) simp_all
    then obtain env' where l: "run_code M fuel ?loop (env5, m1) = Some (env', m')" "agree G T' (binds names rs scx) st' env'"
        "stays scx (binds names rs dx) ?s0 st'"
      by (rule simulatedE)
    have "stays sc d' st st'"
    proof (rule staysI)
      fix y assume "y \<in> keys sc" "y \<notin> keys d'"
      then have "st' y = ?s0 y \<or> st' y = None" unfolding out by (intro staysD[OF l(3)]) (simp_all add: scx)
      then show "st' y = st y \<or> st' y = None" by (auto split: if_split_asm)
    qed
    moreover have "run_code M fuel (?pre @ ?loop) (env, m) = Some (env', m')"
      unfolding run_code_append[of _ _ ?pre] 5(1) using l(1) by simp
    ultimately show "simulated G M fuel c T' sc sc' d' (st, m) env (st', m')"
      using l(2) unfolding out(1) c by (intro simulatedI[where env' = env']) simp_all
  qed
qed

end
