(* ===== verification/Codegen_Sound.thy ===== *)
theory Codegen_Sound
  imports Codegen_For
begin

text \<open>
  The main theorem on the code generator: a kernel whose code verifies has the effect of its source.  An instance with
  loops, conditionals and constants; and programs outside the conditions of the theorem, for which it fails.
\<close>

section \<open>Every statement\<close>

lemma stmt_correct: "machine_ok M \<Longrightarrow> stmt_correct G M fuel s"
proof (induction s)
  case (Assign x e)
  show ?case by (rule stmt_correct_assign)
next
  case (Annotate x e)
  show ?case by (rule stmt_correct_annotate)
next
  case (Effect f args)
  show ?case by (rule stmt_correct_effect)
next
  case (IfStmt test body orelse)
  then show ?case by (intro stmt_correct_if) auto
next
  case (WhileStmt test body)
  then show ?case by (intro stmt_correct_while) auto
next
  case (ForStmt x cls args body)
  then show ?case by (intro stmt_correct_for) auto
next
  case (StaticFor x args body)
  then show ?case by (intro stmt_correct_static) auto
qed

section \<open>Parameters\<close>

lemma param_names: "map fst (param_values h ps) = map fst ps"
  by (induction h ps rule: param_values.induct) auto

lemma update_fresh: "x \<notin> fst ` set sc \<Longrightarrow> AList.update x e sc = sc @ [(x, e)]"
  by (induction sc) auto

lemma update_all:
  assumes "distinct (map fst (sc @ vals))"
  shows "fold (\<lambda>(x, e). set_value x e) vals (sc, sc) = (sc @ vals, sc @ vals)"
  using assms
proof (induction vals arbitrary: sc)
  case (Cons p vals)
  obtain x e where p: "p = (x, e)" by (cases p)
  have "AList.update x e sc = sc @ [(x, e)]" using Cons.prems p
    by (intro update_fresh) auto
  then have "fold (\<lambda>(x, e). set_value x e) (p # vals) (sc, sc) =
      fold (\<lambda>(x, e). set_value x e) vals (sc @ [(x, e)], sc @ [(x, e)])" by (simp add: p set_value_def)
  also have "\<dots> = (sc @ p # vals, sc @ p # vals)" using Cons.IH[of "sc @ [(x, e)]"] Cons.prems p by simp
  finally show ?case .
qed simp

lemma param_scope:
  "distinct (map fst ps) \<Longrightarrow> fold (\<lambda>(x, e). set_value x e) (param_values 0 ps) ([], []) = (param_values 0 ps, param_values 0 ps)"
  using update_all[of "[]" "param_values 0 ps"] by (simp add: param_names)

lemma param_handles: "map fst (param_args h ps) = [h..<h + length (param_args h ps)]"
  by (induction h ps rule: param_args.induct) (simp_all del: upt_Suc add: upt_conv_Cons)

lemma param_matches:
  assumes "map T (map fst (param_args h ps)) = map Some (map snd (param_args h ps))"
    and "map env (map fst (param_args h ps)) = vs"
    and "map_of (param_values h ps) x = Some e" "map_of (param_store ps vs) x = Some v"
  shows "matches T env e v"
  using assms
proof (induction h ps arbitrary: vs rule: param_args.induct)
  case (2 h y c ps)
  then show ?case by (cases "y = x") auto
next
  case (3 h y t ps)
  then show ?case by (cases "y = x") auto
qed simp

lemma param_store_names: "fst ` set (param_store ps vs) \<subseteq> fst ` set ps"
  by (induction ps vs rule: param_store.induct) auto

lemma param_agree:
  assumes "length vs = length (param_args 0 ps)" "\<And>x. x \<in> fst ` set ps \<Longrightarrow> globals G x = None"
  shows "agree G (add_types (param_args 0 ps) (\<lambda>h. None)) (param_values 0 ps) (map_of (param_store ps vs))
    (put_values (param_args 0 ps) vs env)"
proof -
  let ?args = "param_args 0 ps"
  let ?T = "add_types ?args (\<lambda>h. None)" and ?env = "put_values ?args vs env"
  have d: "distinct (map fst ?args)" by (simp add: param_handles)
  have T: "map ?T (map fst ?args) = map Some (map snd ?args)"
    by (rule nth_equalityI) (simp_all add: add_types_nth[OF d])
  have env: "map ?env (map fst ?args) = vs"
    by (rule nth_equalityI) (simp_all add: assms(1) put_values_nth[OF d assms(1)])
  have g: "map_of (param_values 0 ps) x = None \<and> map_of (param_store ps vs) x = None" if "globals G x \<noteq> None" for x
  proof -
    have x: "x \<notin> fst ` set ps" using assms(2)[of x] that by auto
    then have "x \<notin> fst ` set (param_values 0 ps)" using arg_cong[OF param_names[of 0 ps], of set] by simp
    moreover have "x \<notin> fst ` set (param_store ps vs)" using x param_store_names by blast
    ultimately show ?thesis by (simp add: map_of_eq_None_iff)
  qed
  show ?thesis
    unfolding agree_def matching_def
  proof (rule conjI, intro allI impI)
    fix x e v assume "map_of (param_values 0 ps) x = Some e" "map_of (param_store ps vs) x = Some v"
    then show "matches ?T ?env e v" by (rule param_matches[OF T env])
  qed (intro allI impI g)
qed

section \<open>The theorem\<close>

text \<open>The kernels the theorem is about: names are not those of constant globals, the names bound to constants are not
  assigned, and the body is well formed with the parameters in scope.\<close>

definition wf_kernel :: "genv \<Rightarrow> (string \<times> param) list \<Rightarrow> stmt list \<Rightarrow> bool" where
  "wf_kernel G ps body \<longleftrightarrow>
     distinct (map fst ps) \<and> (assigned_in body \<union> fst ` set ps) \<inter> statics_in body = {} \<and>
     (\<forall>x\<in>fst ` set ps \<union> assigned_in body \<union> statics_in body. globals G x = None) \<and>
     wf_stmts (fst ` set ps) (fst ` set ps) body"

text \<open>C10: the code generator preserves the meaning of kernels.  For every well-formed kernel of assignments, constant
  annotations, builtin calls, conditionals, \<open>while\<close>, \<open>for\<close> over \<open>range\<close> with steps of either sign, and unrolled
  \<open>static_range\<close> loops, nested in any way: if the generator emits code, the code passes verification, and the
  kernel run on some arguments and memory ends, then the code run on them ends in the same memory.  The values carried
  by loops and merged by conditionals, the two visits of loop bodies and the substitution of the induction variable are
  all part of what is proved.\<close>

theorem codegen_preserves_semantics:
  assumes "gen_kernel G ps body = Inr k" "verify_kernel k" "wf_kernel G ps body" "machine_ok M"
    and "length vs = length (fst k)" "exec_kernel G M fuel ps body vs m = Some m'"
  shows "run_generated M fuel k vs m = Some m'"
proof -
  let ?vals = "param_values 0 ps" and ?args = "param_args 0 ps" and ?P = "fst ` set ps"
  let ?A = "assigned_in body" and ?S = "statics_in body"
  note wf = assms(3)[unfolded wf_kernel_def]
  obtain c sc d n where g: "gen_stmts G body (?vals, ?vals, length ?args) = Inr (c, sc, d, n)" "k = (?args, c)"
    using assms(1) wf by (auto simp: gen_kernel_def param_scope Let_def bind_r_eq_Inr_iff)
  obtain T where T: "verify_code c (add_types ?args (\<lambda>h. None)) = Some T"
    using assms(2) g(2) by (auto simp: verify_kernel_def)
  let ?st = "map_of (param_store ps vs)" and ?env = "put_values ?args vs (\<lambda>h. poison_val M)"
  obtain st' where e: "exec_stmts G M fuel body (?st, m) = Some (st', m')"
    using assms(6) by (auto simp: exec_kernel_def)
  have ag: "agree G (add_types ?args (\<lambda>h. None)) ?vals ?st ?env"
    by (rule param_agree) (use assms(5) g(2) wf in auto)
  have keys: "keys ?vals = ?P" by (simp add: names_of_def param_names)
  have "dom ?st \<subseteq> ?P" using param_store_names[of ps vs] by (simp add: dom_map_of_conv_image_fst)
  moreover have "distinct (names_of ?vals)" using wf by (simp add: names_of_def param_names)
  ultimately have r: "ready G ?A ?S ?P ?P ?vals ?vals ?st" using wf keys unfolding ready_def by auto
  have "simulated G M fuel c T ?vals sc d (?st, m) ?env (st', m')"
    by (rule stmts_correct[OF stmt_correct[OF assms(4)] g(1) T e ag r]) (use wf in auto)
  then show ?thesis using g(2) by (auto simp: simulated_def run_generated_def)
qed

section \<open>A kernel\<close>

text \<open>A machine on the integers whose memory is the list of the values stored, and a kernel with a loop that counts
  down, a conditional in it, a \<open>while\<close>, an unrolled loop, a compile-time conditional and a constant global.\<close>

definition demo_env :: genv where
  "demo_env = \<lparr>globals = map_of [(''N'', NInt 3)],
     op_type = (\<lambda>p as. case p of Method m \<Rightarrow> Inr (Dt (if m \<in> {''__lt__'', ''__gt__''} then Int1 else Int32)) | To_int1 \<Rightarrow> Inr (Dt Int1) | _ \<Rightarrow> Inl TypeError),
     call_type = (\<lambda>f as. Inr None),
     float_binary = (\<lambda>m a b. Inl TypeError), float_unary = (\<lambda>m a. Inl TypeError)\<rparr>"

fun demo_int :: "int oval \<Rightarrow> int" where
  "demo_int (VVal v) = v"
| "demo_int (VConst c) = (case const_int c of Some k \<Rightarrow> k | None \<Rightarrow> 0)"

fun demo_op :: "opname \<Rightarrow> int oval list \<Rightarrow> int option" where
  "demo_op (Const_op c) [] = const_int c"
| "demo_op To_int1 [a] = Some (of_bool (demo_int a \<noteq> 0))"
| "demo_op (Int_cast t sg) [a] = Some (demo_int a)"
| "demo_op Sub_int [a, b] = Some (demo_int a - demo_int b)"
| "demo_op Add_int [a, b] = Some (demo_int a + demo_int b)"
| "demo_op (Method m) [a, b] =
     (if m = ''__add__'' then Some (demo_int a + demo_int b)
      else if m = ''__mul__'' then Some (demo_int a * demo_int b)
      else if m = ''__lt__'' then Some (of_bool (demo_int a < demo_int b))
      else if m = ''__gt__'' then Some (of_bool (demo_int a > demo_int b)) else None)"
| "demo_op p as = None"

definition demo_machine :: "(int, int list) machine" where
  "demo_machine = \<lparr>op_sem = demo_op, call_sem = (\<lambda>f as m. case as of [a] \<Rightarrow> Some (0, m @ [demo_int a]) | _ \<Rightarrow> None),
     truth = (\<lambda>v. v \<noteq> 0), int_of_val = (\<lambda>v. v), int_val = (\<lambda>t k. k), poison_val = 0\<rparr>"

definition demo_params :: "(string \<times> param) list" where
  "demo_params = [(''a'', Arg_param (Dt Int32)), (''FLAG'', Const_param (NBool True))]"

definition demo_body :: "stmt list" where
  "demo_body =
     [Assign ''acc'' (Name ''a''),
      Assign ''k'' (Num (NInt 0)),
      ForStmt ''i'' Py_range [Num (NInt 5), Num (NInt 0), Num (NInt (-2))]
        [IfStmt (BinOp ''__lt__'' (Name ''i'') (Num (NInt 4)))
           [aug_assign ''acc'' ''__add__'' (Name ''i'')]
           [aug_assign ''acc'' ''__mul__'' (Name ''N'')]],
      WhileStmt (BinOp ''__lt__'' (Name ''k'') (Name ''acc''))
        [Assign ''t'' (BinOp ''__add__'' (Name ''k'') (Num (NInt 3))),
         Assign ''k'' (Name ''t'')],
      StaticFor ''j'' [Num (NInt 2)] [aug_assign ''acc'' ''__add__'' (Name ''j'')],
      IfStmt (Name ''FLAG'') [Effect ''store'' [Name ''acc'']] [Effect ''store'' [Name ''a'']],
      Effect ''store'' [Name ''k'']]"

definition demo_code :: "(nat \<times> ty) list \<times> code" where
  "demo_code = (case gen_kernel demo_env demo_params demo_body of Inr k \<Rightarrow> k | Inl e \<Rightarrow> ([], []))"

lemma demo_facts:
  "gen_kernel demo_env demo_params demo_body = Inr demo_code" "verify_kernel demo_code" "wf_kernel demo_env demo_params demo_body"
  "length [2::int] = length (fst demo_code)"
  "exec_kernel demo_env demo_machine 20 demo_params demo_body [2] [] = Some [11, 12]"
  by code_simp+

lemma demo_machine_ok: "machine_ok demo_machine"
  by (simp add: machine_ok_def demo_machine_def)

theorem codegen_preserves_semantics_witness:
  "gen_kernel demo_env demo_params demo_body = Inr demo_code \<and> exec_kernel demo_env demo_machine 20 demo_params demo_body [2] [] = Some [11, 12] \<and>
   run_generated demo_machine 20 demo_code [2] [] = Some [11, 12]"
  using codegen_preserves_semantics[OF demo_facts(1-3) demo_machine_ok demo_facts(4,5)] demo_facts(1,5) by simp

section \<open>Scopes\<close>

text \<open>C11: \<open>lscope\<close> and \<open>local_defs\<close> after any statements.  No name leaves the scope; the names that enter it are
  assigned or bound by the statements; \<open>local_defs\<close> of a region holds assigned names only; a name that is not in
  \<open>local_defs\<close> and is not bound to a constant has the entry it had before the region, so a loop or a conditional need
  not carry it; and, when no name is both assigned and bound to a constant, \<open>local_defs\<close> has for each of its names the
  entry of \<open>lscope\<close>.\<close>

theorem region_definitions:
  assumes "distinct (names_of sc)" "gen_stmts G ss (sc, [], n) = Inr (c, sc', d', n')"
  shows "set (names_of sc) \<subseteq> set (names_of sc') \<and> set (names_of sc') \<subseteq> set (names_of sc) \<union> assigned_in ss \<union> statics_in ss \<and>
    set (names_of d') \<subseteq> assigned_in ss \<and>
    (\<forall>x. x \<notin> set (names_of d') \<longrightarrow> x \<notin> statics_in ss \<longrightarrow> map_of sc' x = map_of sc x) \<and>
    (assigned_in ss \<inter> statics_in ss = {} \<longrightarrow> (\<forall>x\<in>set (names_of d'). map_of d' x = map_of sc' x))"
proof -
  note st = gen_stmts_scopes[OF assms]
  have "set (names_of d') \<subseteq> assigned_in ss" using scope_step_keys(2)[OF st] by simp
  moreover have "\<forall>x\<in>set (names_of d'). map_of d' x = map_of sc' x" if "assigned_in ss \<inter> statics_in ss = {}"
    by (rule scope_stepD(7)[OF st]) (use that in simp_all)
  ultimately show ?thesis using scope_stepD(1,2,4)[OF st] by blast
qed

theorem region_definitions_witness:
  "\<exists>c sc' d' n'. gen_stmts demo_env [Assign ''y'' (Name ''x''), Annotate ''k'' (Num (NInt 1))] ([(''x'', ETensor 0 (Dt Int32))], [], 1) =
     Inr (c, sc', d', n') \<and> set (names_of d') \<subseteq> {''y''} \<and> map_of sc' ''x'' = Some (ETensor 0 (Dt Int32))"
proof -
  let ?ss = "[Assign ''y'' (Name ''x''), Annotate ''k'' (Num (NInt 1))]" and ?sc = "[(''x'', ETensor 0 (Dt Int32))]"
  have g: "gen_stmts demo_env ?ss (?sc, [], 1) =
      Inr ([], [(''x'', ETensor 0 (Dt Int32)), (''y'', ETensor 0 (Dt Int32)), (''k'', EConst (NInt 1))], [(''y'', ETensor 0 (Dt Int32))], 1)"
    by code_simp
  have "distinct (names_of ?sc)" by code_simp
  from region_definitions[OF this g] show ?thesis using g by auto
qed

section \<open>Outside the conditions\<close>

text \<open>A loop that assigns its own variable.\<close>

definition reassigned_body :: "stmt list" where
  "reassigned_body =
     [Assign ''acc'' (Num (NInt 0)),
      ForStmt ''i'' Py_range [Num (NInt 0), Name ''a'']
        [aug_assign ''i'' ''__mul__'' (Num (NInt 10)),
         aug_assign ''acc'' ''__add__'' (Name ''i'')],
      Effect ''store'' [Name ''acc'']]"

definition reassigned_code :: "(nat \<times> ty) list \<times> code" where
  "reassigned_code = (case gen_kernel demo_env demo_params reassigned_body of Inr k \<Rightarrow> k | Inl e \<Rightarrow> ([], []))"

text \<open>Assigning the variable of a \<open>for\<close> in its body is miscompiled.  The kernel sums \<open>i = i * 10\<close> for \<open>i\<close> from 0 to 3;
  its code is generated and verifies, but stores 6 and not 60: the placeholder, which the loop carries for the
  assigned name, is what the body reads, and the product, which is the last value of the name, is replaced by the
  induction variable.\<close>

lemma reassigned_loop_variable_miscompiled:
  "gen_kernel demo_env demo_params reassigned_body = Inr reassigned_code \<and> verify_kernel reassigned_code \<and>
   exec_kernel demo_env demo_machine 20 demo_params reassigned_body [4] [] = Some [60] \<and>
   run_generated demo_machine 20 reassigned_code [4] [] = Some [6]"
  by code_simp

text \<open>A \<open>while\<close> whose body defines a name first in one branch of a conditional.  The scope of the first visit is kept for
  the second one, so the conditional merges the name with its value of the first visit, from a block that was
  erased, and the code does not verify.\<close>

definition stale_body :: "stmt list" where
  "stale_body =
     [Assign ''k'' (Num (NInt 0)),
      WhileStmt (BinOp ''__lt__'' (Name ''k'') (Name ''a''))
        [IfStmt (BinOp ''__lt__'' (Name ''k'') (Num (NInt 2))) [Assign ''y'' (Num (NInt 1))] [],
         Assign ''y'' (Num (NInt 2)),
         aug_assign ''k'' ''__add__'' (Name ''y'')],
      Effect ''store'' [Name ''k'']]"

definition stale_code :: "(nat \<times> ty) list \<times> code" where
  "stale_code = (case gen_kernel demo_env demo_params stale_body of Inr k \<Rightarrow> k | Inl e \<Rightarrow> ([], []))"

lemma stale_definition_in_while:
  "gen_kernel demo_env demo_params stale_body = Inr stale_code" "wf_kernel demo_env demo_params stale_body"
  "\<not> verify_kernel stale_code" "exec_kernel demo_env demo_machine 20 demo_params stale_body [4] [] = Some [4]"
  by code_simp+

end
