(* ===== verification/Cache_File.thy ===== *)
theory Cache_File
  imports Cache
begin

text \<open>
  The contract of a cache manager as a locale, and the manager over a directory as an instance of it.
  The contract's client stores a set of files and the group that names them, as the compiler does, and
  reads them back.
\<close>

section \<open>The contract\<close>

text \<open>
  Names a caller may use: entries of the cache directory that cannot be taken for a temporary
  directory.  \<open>view\<close> is the text a name stands for, \<open>text_at\<close> the text of the file at a local path.
\<close>

definition storable :: "string \<Rightarrow> bool" where
  "storable f = (plain_name f \<and> take 8 f \<noteq> ''tmp.pid_'')"

lemma storable_grp: "storable f \<Longrightarrow> storable (grp_filename f)"
  by (auto simp: storable_def grp_filename_def plain_name_def)

definition update_view :: "string \<Rightarrow> 'a \<Rightarrow> (string \<Rightarrow> 'a option) \<Rightarrow> string \<Rightarrow> 'a option" where
  "update_view f x v = v(f \<mapsto> x)"

definition put_all :: "'s cache_manager \<Rightarrow> (string \<times> data) list \<Rightarrow> ('s, string dict) M" where
  "put_all c files = map_m (\<lambda>(f, d). bind (put c d f) (\<lambda>p. return (f, p))) files"

locale kernel_cache =
  fixes c :: "'s cache_manager"
    and path_of :: "string \<Rightarrow> string"
    and view :: "'s \<Rightarrow> string \<Rightarrow> file_text option"
    and text_at :: "'s \<Rightarrow> string \<Rightarrow> file_text option"
    and describes :: "file_text \<Rightarrow> string list \<Rightarrow> bool"
    and ready :: "'s \<Rightarrow> bool"
  assumes put_spec:
      "ready s \<Longrightarrow> storable f \<Longrightarrow>
        \<exists>s'. put c d f s = Inr (path_of f, s') \<and> ready s' \<and> view s' = (view s)(f \<mapsto> payload d)"
    and get_file_spec:
      "ready s \<Longrightarrow> storable f \<Longrightarrow>
        \<exists>s'. get_file c f s = Inr (if view s f = None then None else Some (path_of f), s') \<and> ready s' \<and>
          view s' = view s \<and> (view s f \<noteq> None \<longrightarrow> text_at s' (path_of f) = view s f)"
    and put_group_spec:
      "ready s \<Longrightarrow> storable f \<Longrightarrow> (\<And>n p. (n, p) \<in> set grp \<Longrightarrow> p = path_of n) \<Longrightarrow>
        \<exists>p s' t. put_group c f grp s = Inr (p, s') \<and> ready s' \<and> view s' = (view s)(grp_filename f \<mapsto> t) \<and>
          describes t (map fst grp)"
    and get_group_spec:
      "ready s \<Longrightarrow> storable f \<Longrightarrow> view s (grp_filename f) = Some t \<Longrightarrow> describes t names \<Longrightarrow>
        (\<And>n. n \<in> set names \<Longrightarrow> storable n) \<Longrightarrow>
        \<exists>r s'. get_group c f s = Inr (Some r, s') \<and> ready s' \<and> view s' = view s \<and>
          set r = {(n, path_of n) | n. n \<in> set names \<and> view s n \<noteq> None} \<and>
          (\<forall>n \<in> set names. view s n \<noteq> None \<longrightarrow> text_at s' (path_of n) = view s n)"
    and get_group_miss:
      "ready s \<Longrightarrow> storable f \<Longrightarrow> view s (grp_filename f) = None \<Longrightarrow>
        \<exists>s'. get_group c f s = Inr (None, s') \<and> ready s' \<and> view s' = view s"
begin

lemma put_all_spec:
  "ready s \<Longrightarrow> (\<And>f. f \<in> fst ` set files \<Longrightarrow> storable f) \<Longrightarrow>
    \<exists>s'. put_all c files s = Inr (map (\<lambda>(f, d). (f, path_of f)) files, s') \<and> ready s' \<and>
      view s' = (\<lambda>g. case map_of (rev files) g of None \<Rightarrow> view s g | Some d \<Rightarrow> Some (payload d))"
proof (induction files arbitrary: s)
  case Nil
  then show ?case by (simp add: put_all_def m_defs)
next
  case (Cons fd files)
  obtain f d where fd: "fd = (f, d)" by (cases fd)
  obtain s1 where s1: "put c d f s = Inr (path_of f, s1)" "ready s1" "view s1 = (view s)(f \<mapsto> payload d)"
    using put_spec [OF Cons.prems(1), of f d] Cons.prems(2) by (auto simp: fd)
  obtain s2 where s2: "put_all c files s1 = Inr (map (\<lambda>(f, d). (f, path_of f)) files, s2)" "ready s2"
      "view s2 = (\<lambda>g. case map_of (rev files) g of None \<Rightarrow> view s1 g | Some d \<Rightarrow> Some (payload d))"
    using Cons.IH [OF s1(2)] Cons.prems(2) by auto
  have "put_all c (fd # files) s = Inr (map (\<lambda>(f, d). (f, path_of f)) (fd # files), s2)"
    using s1(1) s2(1) by (simp add: put_all_def fd m_defs)
  moreover have "view s2 = (\<lambda>g. case map_of (rev (fd # files)) g of None \<Rightarrow> view s g | Some d \<Rightarrow> Some (payload d))"
    unfolding s2(3) s1(3) by (rule ext) (auto simp: fd map_add_def split: option.splits)
  ultimately show ?case using s2(2) by blast
qed

text \<open>The group that a caller stores, and any state in which the manager shows the same texts.\<close>

definition holds_group :: "'s \<Rightarrow> string \<Rightarrow> (string \<times> data) list \<Rightarrow> bool" where
  "holds_group s f files \<longleftrightarrow>
     (\<exists>t. view s (grp_filename f) = Some t \<and> describes t (map fst files)) \<and>
     (\<forall>(g, d) \<in> set files. view s g = Some (payload d))"

lemma store_group:
  assumes "ready s" "storable f" "\<And>g. g \<in> fst ` set files \<Longrightarrow> storable g \<and> g \<noteq> grp_filename f" "distinct (map fst files)"
  shows "\<exists>p s1 s2. put_all c files s = Inr (map (\<lambda>(f, d). (f, path_of f)) files, s1) \<and>
     put_group c f (map (\<lambda>(f, d). (f, path_of f)) files) s1 = Inr (p, s2) \<and> ready s2 \<and> holds_group s2 f files"
proof -
  let ?grp = "map (\<lambda>(f, d). (f, path_of f)) files"
  obtain s1 where s1: "put_all c files s = Inr (?grp, s1)" "ready s1"
      "view s1 = (\<lambda>g. case map_of (rev files) g of None \<Rightarrow> view s g | Some d \<Rightarrow> Some (payload d))"
    using put_all_spec [OF assms(1)] assms(3) by blast
  have paths: "p = path_of n" if "(n, p) \<in> set ?grp" for n p using that by auto
  obtain p s2 t where s2: "put_group c f ?grp s1 = Inr (p, s2)" "ready s2"
      "view s2 = (view s1)(grp_filename f \<mapsto> t)" "describes t (map fst ?grp)"
    using put_group_spec [OF s1(2) assms(2) paths, of ?grp] by blast
  have names: "map fst ?grp = map fst files" by (simp add: case_prod_beta comp_def)
  have "view s2 g = Some (payload d)" if gd: "(g, d) \<in> set files" for g d
  proof -
    have "distinct (map fst (rev files))" using assms(4) by (metis distinct_rev rev_map)
    then have "map_of (rev files) g = Some d" using gd by (simp add: map_of_eq_Some_iff)
    moreover have "g \<noteq> grp_filename f" using gd assms(3) [of g] by force
    ultimately show ?thesis by (simp add: s2(3) s1(3))
  qed
  moreover have "view s2 (grp_filename f) = Some t" "describes t (map fst files)"
    using s2(3,4) unfolding names by simp_all
  ultimately have "holds_group s2 f files" unfolding holds_group_def by blast
  with s1(1) s2(1,2) show ?thesis by blast
qed

lemma read_group:
  assumes "ready s" "storable f" "\<And>g. g \<in> fst ` set files \<Longrightarrow> storable g" "holds_group s f files"
  shows "\<exists>r s'. get_group c f s = Inr (Some r, s') \<and> ready s' \<and> view s' = view s \<and>
     set r = set (map (\<lambda>(f, d). (f, path_of f)) files) \<and>
     (\<forall>(g, d) \<in> set files. (g, path_of g) \<in> set r \<and> text_at s' (path_of g) = Some (payload d))"
proof -
  obtain t where t: "view s (grp_filename f) = Some t" "describes t (map fst files)"
    and stored: "\<And>g d. (g, d) \<in> set files \<Longrightarrow> view s g = Some (payload d)"
    using assms(4) unfolding holds_group_def by blast
  have plain: "storable n" if "n \<in> set (map fst files)" for n using that assms(3) [of n] by simp
  obtain r s' where r: "get_group c f s = Inr (Some r, s')" "ready s'" "view s' = view s"
      "set r = {(n, path_of n) | n. n \<in> set (map fst files) \<and> view s n \<noteq> None}"
      "\<forall>n \<in> set (map fst files). view s n \<noteq> None \<longrightarrow> text_at s' (path_of n) = view s n"
    using get_group_spec [OF assms(1,2) t plain] by blast
  have mem: "(g, path_of g) \<in> set r \<and> text_at s' (path_of g) = Some (payload d)" if "(g, d) \<in> set files" for g d
    using stored [OF that] that r(4,5) by force
  then have "set r = set (map (\<lambda>(f, d). (f, path_of f)) files)" using r(4) by (force simp: image_iff)
  with r(1-3) mem show ?thesis by blast
qed

end

section \<open>The tree stays a tree\<close>

definition wf_tree :: "tree \<Rightarrow> bool" where
  "wf_tree t \<longleftrightarrow> (\<forall>k. snd k \<noteq> [] \<and> node_at t k \<noteq> None \<longrightarrow> node_at t (parent k) = Some Dir)"

lemma wf_treeD: "wf_tree t \<Longrightarrow> node_at t (child l f) \<noteq> None \<Longrightarrow> node_at t l = Some Dir"
  unfolding wf_tree_def using child_simps(1,2) by metis

lemma node_at_top [simp]: "snd l = [] \<Longrightarrow> node_at t l = Some Dir"
  by (simp add: node_at_def)

lemma make_dir_wf: "make_dir l t = Inr t' \<Longrightarrow> wf_tree t \<Longrightarrow> wf_tree t'"
  unfolding make_dir_def wf_tree_def
  by (auto simp: node_at_set split: option.splits node.splits if_splits)

lemma make_dirs_wf: "make_dirs l t = Inr t' \<Longrightarrow> wf_tree t \<Longrightarrow> wf_tree t'"
proof -
  have "make_dirs_from a pre cs t = Inr t' \<Longrightarrow> wf_tree t \<Longrightarrow> wf_tree t'" for a pre cs
    by (induction cs arbitrary: pre t) (auto simp: bind_r_eq_Inr_iff dest: make_dir_wf)
  then show "make_dirs l t = Inr t' \<Longrightarrow> wf_tree t \<Longrightarrow> wf_tree t'" by (simp add: make_dirs_def)
qed

lemma set_file_wf:
  "wf_tree t \<Longrightarrow> node_at t l \<noteq> Some Dir \<Longrightarrow> node_at t (parent l) = Some Dir \<Longrightarrow> wf_tree (set_node l (File c) t)"
  unfolding wf_tree_def by (auto simp: node_at_set)

lemma open_write_wf: "open_write l t = Inr t' \<Longrightarrow> wf_tree t \<Longrightarrow> wf_tree t'"
  by (auto simp: open_write_def set_file_wf split: if_splits)

lemma remove_leaf_wf:
  "wf_tree t \<Longrightarrow> (\<And>k. snd k \<noteq> [] \<Longrightarrow> parent k = l \<Longrightarrow> node_at t k = None) \<Longrightarrow> wf_tree (remove_node l t)"
  unfolding wf_tree_def node_at_remove by (metis (no_types, lifting))

lemma remove_file_wf: "wf_tree t \<Longrightarrow> node_at t l = Some (File c) \<Longrightarrow> wf_tree (remove_node l t)"
  by (rule remove_leaf_wf) (auto simp: wf_tree_def)

lemma replace_wf: "replace src dst t = Inr t' \<Longrightarrow> wf_tree t \<Longrightarrow> wf_tree t'"
  unfolding replace_def
  by (auto simp: node_at_remove remove_file_wf split: option.splits node.splits if_splits intro!: set_file_wf)

lemma remove_dir_wf: "remove_dir l t = Inr t' \<Longrightarrow> wf_tree t \<Longrightarrow> wf_tree t'"
  by (auto simp: remove_dir_def is_empty_dir_iff split: if_splits intro!: remove_leaf_wf)

lemma prune_wf: "wf_tree t \<Longrightarrow> wf_tree (prune n l t)"
proof (induction n arbitrary: l t)
  case (Suc n)
  then show ?case by (cases "remove_dir l t") (simp_all add: remove_dir_wf)
qed simp

lemma remove_dirs_wf: "remove_dirs l t = Inr t' \<Longrightarrow> wf_tree t \<Longrightarrow> wf_tree t'"
  by (cases "remove_dir l t") (auto simp: remove_dirs_def intro: prune_wf dest: remove_dir_wf)

lemmas tree_wf = make_dirs_wf open_write_wf replace_wf remove_dir_wf remove_dirs_wf

lemma make_dir_there [simp]: "node_at t l = Some Dir \<Longrightarrow> make_dir l t = Inr t"
  by (simp add: make_dir_def)

lemma ancestor_dir: "wf_tree t \<Longrightarrow> node_at t (a, xs @ ys) = Some Dir \<Longrightarrow> node_at t (a, xs) = Some Dir"
proof (induction ys rule: rev_induct)
  case (snoc y ys)
  then have "node_at t (child (a, xs @ ys) y) \<noteq> None" by (simp add: child_def)
  from wf_treeD [OF snoc.prems(1) this] snoc show ?case by simp
qed simp

lemma make_dirs_from_there:
  "wf_tree t \<Longrightarrow> node_at t (a, pre @ cs) = Some Dir \<Longrightarrow> make_dirs_from a pre cs t = Inr t"
  by (induction cs arbitrary: pre) (auto dest: ancestor_dir)

lemma make_dirs_from_snoc:
  "make_dirs_from a pre (cs @ [c]) t = bind_r (make_dirs_from a pre cs t) (make_dir (a, pre @ cs @ [c]))"
proof (induction cs arbitrary: pre t)
  case Nil
  then show ?case by (cases "make_dir (a, pre) t") simp_all
next
  case (Cons d cs)
  then show ?case by (cases "make_dir (a, pre) t") simp_all
qed

lemma make_child:
  assumes "wf_tree t" "node_at t l = Some Dir" "node_at t (child l f) = None"
  shows "make_dirs (child l f) t = Inr (set_node (child l f) Dir t)"
  using assms make_dirs_from_there [of t "fst l" "[]" "snd l"]
  by (simp add: make_dirs_def child_def make_dirs_from_snoc make_dir_def parent_def)

section \<open>The manager over a directory\<close>

definition cache_loc :: "file_cache \<Rightarrow> location" where
  "cache_loc m = locate (cache_dir m)"

definition complete_or_absent :: "node option \<Rightarrow> bool" where
  "complete_or_absent n = (case n of None \<Rightarrow> True | Some (File (Complete x)) \<Rightarrow> True | _ \<Rightarrow> False)"

definition temp_name :: "'r world \<Rightarrow> nat \<Rightarrow> string" where
  "temp_name w n = temp_dir_name (pid w) (uuids w n)"

text \<open>
  What \<open>put\<close> relies on: the cache directory exists and holds files only under the names callers use,
  and the identifiers that \<open>uuid4\<close> will return are new.
\<close>

definition file_ready :: "file_cache \<Rightarrow> 'r world \<Rightarrow> bool" where
  "file_ready m w \<longleftrightarrow>
     cache_dir m \<noteq> [] \<and> lock_path m \<noteq> None \<and> wf_tree (nodes w) \<and> node_at (nodes w) (cache_loc m) = Some Dir \<and>
     (\<forall>f. storable f \<longrightarrow> complete_or_absent (node_at (nodes w) (child (cache_loc m) f))) \<and>
     (\<forall>n \<ge> uuid_next w. plain_name (temp_name w n) \<and> node_at (nodes w) (child (cache_loc m) (temp_name w n)) = None)"

definition file_view :: "file_cache \<Rightarrow> 'r world \<Rightarrow> string \<Rightarrow> file_text option" where
  "file_view m w f = (case node_at (nodes w) (child (cache_loc m) f) of Some (File (Complete x)) \<Rightarrow> Some x | _ \<Rightarrow> None)"

lemma temp_not_storable: "\<not> storable (temp_name w n)"
  by (simp add: storable_def temp_name_def temp_dir_name_def)

text \<open>The six calls of \<open>put\<close>, one after the other.\<close>

lemma put_steps:
  assumes t: "wf_tree t" "node_at t l = Some Dir" "node_at t (child l tmp) = None" "node_at t (child l f) \<noteq> Some Dir"
    and f: "f \<noteq> tmp"
  obtains t1 t2 t3 t4 where
    "make_dirs (child l tmp) t = Inr t1"
    "open_write (child (child l tmp) f) t1 = Inr t2"
    "replace (child (child l tmp) f) (child l f) (close_write (child (child l tmp) f) x t2) = Inr t3"
    "remove_dirs (child l tmp) t3 = Inr t4"
    "\<And>k. node_at t4 k = (if k = child l f then Some (File (Complete x)) else node_at t k)"
proof -
  let ?d = "child l tmp" and ?s = "child (child l tmp) f"
  define t1 where "t1 = set_node ?d Dir t"
  define t2 where "t2 = set_node ?s (File Partial) t1"
  define t3 where "t3 = set_node (child l f) (File (Complete x)) (remove_node ?s (close_write ?s x t2))"
  define t4 where "t4 = remove_node ?d t3"
  have none: "node_at t (child ?d g) = None" for g using wf_treeD [OF t(1), of ?d g] t(3) by (metis option.discI)
  have n1: "node_at t1 k = (if k = ?d then Some Dir else node_at t k)" for k by (simp add: t1_def node_at_set)
  have n2: "node_at t2 k = (if k = ?s then Some (File Partial) else node_at t1 k)" for k by (simp add: t2_def node_at_set)
  have n3: "node_at t3 k = (if k = child l f then Some (File (Complete x)) else if k = ?s then None else node_at t1 k)" for k
    by (simp add: t3_def node_at_set node_at_remove close_write_def n2)
  have n4: "node_at t4 k = (if k = child l f then Some (File (Complete x)) else node_at t k)" for k
    using none t(3) f by (auto simp: t4_def node_at_remove n3 n1)
  have "make_dirs ?d t = Inr t1" unfolding t1_def by (rule make_child [OF t(1-3)])
  moreover have "open_write ?s t1 = Inr t2" by (simp add: open_write_def n1 none t2_def)
  moreover have "replace ?s (child l f) (close_write ?s x t2) = Inr t3"
    using t(2,4) f by (auto simp: replace_def close_write_def node_at_set n2 n1 t3_def)
  moreover have "is_empty_dir t3 ?d"
    unfolding is_empty_dir_iff
  proof (intro allI impI)
    fix k assume k: "snd k \<noteq> [] \<and> parent k = ?d"
    then have "k = child ?d (last (snd k))" using child_parent [of k] by simp
    with none show "node_at t3 k = None" by (metis (no_types, lifting) n3 n1 child_simps(1) child_not_self(1))
  qed
  then have "remove_dir ?d t3 = Inr t4" using f by (simp add: remove_dir_def t4_def n3 n1)
  moreover have "remove_dir l t4 = Inl OSError" if "snd l \<noteq> []"
  proof -
    have "\<not> is_empty_dir t4 l" unfolding is_empty_dir_iff using n4 [of "child l f"] child_simps(1,2) by fastforce
    then show ?thesis by (simp add: remove_dir_def)
  qed
  then have "prune (length (snd ?d)) (parent ?d) t4 = t4" by (cases "length (snd ?d)") simp_all
  ultimately show ?thesis using that n4 by (simp add: remove_dirs_def)
qed

text \<open>The whole of \<open>put\<close>: one file more, and nothing else changed.\<close>

lemma temp_name_next:
  "temp_name (w\<lparr>nodes := t\<rparr>) n = temp_name w n" "temp_name (w\<lparr>uuid_next := i\<rparr>) n = temp_name w n"
  by (simp_all add: temp_name_def)

lemma file_put_run:
  assumes r: "file_ready m w" and f: "storable f"
  shows "\<exists>t. file_put m d f w = Inr (make_path m f, w\<lparr>uuid_next := Suc (uuid_next w), nodes := t\<rparr>) \<and> wf_tree t \<and>
    (\<forall>k. node_at t k = (if k = child (cache_loc m) f then Some (File (Complete (payload d))) else node_at (nodes w) k))"
proof -
  let ?tmp = "temp_name w (uuid_next w)" and ?l = "cache_loc m"
  have t: "wf_tree (nodes w)" "node_at (nodes w) ?l = Some Dir" "node_at (nodes w) (child ?l ?tmp) = None" "plain_name ?tmp"
    and m: "cache_dir m \<noteq> []" "lock_path m \<noteq> None"
    using r by (simp_all add: file_ready_def)
  have nd: "node_at (nodes w) (child ?l f) \<noteq> Some Dir"
    using r f by (auto simp: file_ready_def complete_or_absent_def)
  moreover have "f \<noteq> ?tmp" using f temp_not_storable by metis
  ultimately obtain t1 t2 t3 t4 where s:
    "make_dirs (child ?l ?tmp) (nodes w) = Inr t1" "open_write (child (child ?l ?tmp) f) t1 = Inr t2"
    "replace (child (child ?l ?tmp) f) (child ?l f) (close_write (child (child ?l ?tmp) f) (payload d) t2) = Inr t3"
    "remove_dirs (child ?l ?tmp) t3 = Inr t4"
    "\<And>k. node_at t4 k = (if k = child ?l f then Some (File (Complete (payload d))) else node_at (nodes w) k)"
    using put_steps [OF t(1-3)] by blast
  have pf: "plain_name f" using f by (simp add: storable_def)
  have loc: "locate (path_join (cache_dir m) ?tmp) = child ?l ?tmp" "locate (make_path m f) = child ?l f"
    "locate (path_join (path_join (cache_dir m) ?tmp) f) = child (child ?l ?tmp) f"
    using locate_join [OF t(4) m(1)] locate_join [OF pf m(1)] locate_join [OF pf join_not_Nil [OF t(4)]]
    by (simp_all add: make_path_def cache_loc_def)
  have "wf_tree t4"
    unfolding wf_tree_def
  proof (intro allI impI)
    fix k assume k: "snd k \<noteq> [] \<and> node_at t4 k \<noteq> None"
    show "node_at t4 (parent k) = Some Dir"
    proof (cases "k = child ?l f")
      case True
      then show ?thesis using t(2) by (simp add: s(5))
    next
      case False
      then have "node_at (nodes w) (parent k) = Some Dir" using k t(1) by (simp add: s(5) wf_tree_def)
      with nd show ?thesis by (auto simp: s(5))
    qed
  qed
  moreover have "file_put m d f w = Inr (make_path m f, w\<lparr>uuid_next := Suc (uuid_next w), nodes := t4\<rparr>)"
    using m s(1-4) loc by (simp add: file_put_def run_simps Let_def temp_name_def)
  ultimately show ?thesis using s(5) by blast
qed

lemma file_put_ready:
  assumes r: "file_ready m w" and f: "storable f" and p: "file_put m d f w = Inr (p, w')"
  shows "p = make_path m f" "file_ready m w'" "file_view m w' = (file_view m w)(f \<mapsto> payload d)"
    "remote w' = remote w" "environ w' = environ w" "home w' = home w" "cache_cls_nme w' = cache_cls_nme w"
proof -
  obtain t where t: "w' = w\<lparr>uuid_next := Suc (uuid_next w), nodes := t\<rparr>" "p = make_path m f" "wf_tree t"
      "\<And>k. node_at t k = (if k = child (cache_loc m) f then Some (File (Complete (payload d))) else node_at (nodes w) k)"
    using file_put_run [OF r f, of d] p by auto
  have "temp_name w n \<noteq> f" for n using f temp_not_storable by metis
  then show "file_ready m w'"
    using r by (auto simp: file_ready_def t temp_name_next complete_or_absent_def)
  show "p = make_path m f" "remote w' = remote w" "environ w' = environ w" "home w' = home w"
    "cache_cls_nme w' = cache_cls_nme w" by (simp_all add: t)
  show "file_view m w' = (file_view m w)(f \<mapsto> payload d)" by (rule ext) (simp add: file_view_def t)
qed

lemma make_path_child: "cache_dir m \<noteq> [] \<Longrightarrow> storable f \<Longrightarrow> locate (make_path m f) = child (cache_loc m) f"
  by (simp add: make_path_def cache_loc_def locate_join storable_def)

lemma make_path_not_Nil: "storable f \<Longrightarrow> make_path m f \<noteq> []"
  by (simp add: make_path_def join_not_Nil storable_def)

lemma file_view_content:
  "file_ready m w \<Longrightarrow> storable f \<Longrightarrow> content_at w (make_path m f) = file_view m w f"
  by (simp add: content_at_def file_view_def make_path_child file_ready_def)

lemma file_exists_run:
  assumes "file_ready m w" "storable f"
  shows "path_exists (make_path m f) w = Inr (file_view m w f \<noteq> None, w)"
    "has_file m f w = Inr (file_view m w f \<noteq> None, w)"
proof -
  have "complete_or_absent (node_at (nodes w) (child (cache_loc m) f))" and m: "cache_dir m \<noteq> []"
    using assms by (simp_all add: file_ready_def)
  then show p: "path_exists (make_path m f) w = Inr (file_view m w f \<noteq> None, w)"
    using assms(2) make_path_not_Nil [of f m]
    by (auto simp: path_exists_def file_view_def make_path_child complete_or_absent_def split: option.splits node.splits content.splits)
  show "has_file m f w = Inr (file_view m w f \<noteq> None, w)"
    using m p by (simp add: has_file_def m_defs)
qed

lemma json_load_run:
  "file_ready m w \<Longrightarrow> storable f \<Longrightarrow> file_view m w f = Some (Printed j) \<Longrightarrow> json_load (make_path m f) w = Inr (j, w)"
  by (auto simp: json_load_def read_file_def file_view_def make_path_child m_defs file_ready_def
      split: option.splits node.splits content.splits)

definition file_describes :: "file_cache \<Rightarrow> file_text \<Rightarrow> string list \<Rightarrow> bool" where
  "file_describes m t names = (t = Printed (group_contents (map (\<lambda>n. (n, make_path m n)) names)))"

lemma existing_run:
  "file_ready m w \<Longrightarrow> (\<And>n. n \<in> set names \<Longrightarrow> storable n) \<Longrightarrow>
    existing (map (\<lambda>n. (n, JStr (make_path m n))) names) w =
      Inr ([(n, make_path m n). n \<leftarrow> names, file_view m w n \<noteq> None], w)"
  by (induction names) (auto simp: m_defs file_exists_run)

lemma file_get_group_run:
  assumes r: "file_ready m w" and f: "storable f" and n: "\<And>n. n \<in> set names \<Longrightarrow> storable n"
    and v: "file_view m w (grp_filename f) = Some t" "file_describes m t names"
  shows "file_get_group m f w = Inr (Some [(n, make_path m n). n \<leftarrow> names, file_view m w n \<noteq> None], w)"
proof -
  let ?j = "group_contents (map (\<lambda>n. (n, make_path m n)) names)"
  have t: "t = Printed ?j" using v(2) by (simp add: file_describes_def)
  have items: "map_of [(''child_paths'', JObj (map (\<lambda>(c, p). (c, JStr p)) (map (\<lambda>n. (n, make_path m n)) names)))] ''child_paths'' =
      Some (JObj (map (\<lambda>n. (n, JStr (make_path m n))) names))" by simp
  show ?thesis
    using file_exists_run(2) [OF r storable_grp [OF f]] json_load_run [OF r storable_grp [OF f] v(1) [unfolded t]]
      existing_run [OF r n] items v(1)
    by (simp add: file_get_group_def group_contents_def m_defs comp_def)
qed

text \<open>The manager in use under one environment.\<close>

definition file_ready_in :: "file_cache \<Rightarrow> (string \<Rightarrow> string option) \<Rightarrow> string \<Rightarrow> string \<Rightarrow> 'r world \<Rightarrow> bool" where
  "file_ready_in m e h cn w \<longleftrightarrow> file_ready m w \<and> environ w = e \<and> home w = h \<and> cache_cls_nme w = cn"

lemma file_ready_inD: "file_ready_in m e h cn w \<Longrightarrow> file_ready m w"
  by (simp add: file_ready_in_def)

lemma file_put_in:
  assumes "file_ready_in m e h cn w" "storable f"
  shows "\<exists>w'. file_put m d f w = Inr (make_path m f, w') \<and> file_ready_in m e h cn w' \<and>
    file_view m w' = (file_view m w)(f \<mapsto> payload d)"
proof -
  have r: "file_ready m w" using assms(1) by (rule file_ready_inD)
  obtain w' where w': "file_put m d f w = Inr (make_path m f, w')" using file_put_run [OF r assms(2)] by blast
  then show ?thesis using file_put_ready [OF r assms(2) w'] assms(1) by (simp add: file_ready_in_def)
qed

interpretation directory: kernel_cache "file_manager m" "make_path m" "file_view m" content_at "file_describes m" "file_ready_in m e h cn"
  for m e h cn
proof
  fix w :: "'a world" and f d
  assume "file_ready_in m e h cn w" "storable f"
  then show "\<exists>s'. put (file_manager m) d f w = Inr (make_path m f, s') \<and> file_ready_in m e h cn s' \<and>
      file_view m s' = (file_view m w)(f \<mapsto> payload d)"
    using file_put_in by (simp add: file_manager_def)
next
  fix w :: "'a world" and f
  assume r: "file_ready_in m e h cn w" "storable f"
  then show "\<exists>s'. get_file (file_manager m) f w = Inr (if file_view m w f = None then None else Some (make_path m f), s') \<and>
      file_ready_in m e h cn s' \<and> file_view m s' = file_view m w \<and>
      (file_view m w f \<noteq> None \<longrightarrow> content_at s' (make_path m f) = file_view m w f)"
    by (simp add: file_ready_in_def file_manager_def file_get_file_def bind_def return_def file_exists_run file_view_content)
next
  fix w :: "'a world" and f and grp :: "string dict"
  assume r: "file_ready_in m e h cn w" "storable f" and g: "\<And>n p. (n, p) \<in> set grp \<Longrightarrow> p = make_path m n"
  let ?t = "Printed (group_contents grp)"
  have grp: "grp = map (\<lambda>n. (n, make_path m n)) (map fst grp)" using g by (induction grp) auto
  obtain s' where s: "file_put m (Str ?t) (grp_filename f) w = Inr (make_path m (grp_filename f), s')"
      "file_ready_in m e h cn s'" "file_view m s' = (file_view m w)(grp_filename f \<mapsto> payload (Str ?t))"
    using file_put_in [OF r(1) storable_grp [OF r(2)]] by blast
  have "put_group (file_manager m) f grp w = Inr (make_path m (grp_filename f), s')"
    using s(1) r(1) by (simp add: file_manager_def file_put_group_def m_defs file_ready_def file_ready_in_def)
  moreover have "file_describes m ?t (map fst grp)" using grp by (metis file_describes_def)
  ultimately show "\<exists>p s' t. put_group (file_manager m) f grp w = Inr (p, s') \<and> file_ready_in m e h cn s' \<and>
      file_view m s' = (file_view m w)(grp_filename f \<mapsto> t) \<and> file_describes m t (map fst grp)"
    using s(2,3) by auto
next
  fix w :: "'a world" and f t and names :: "string list"
  assume "file_ready_in m e h cn w" "storable f" "file_view m w (grp_filename f) = Some t" "file_describes m t names"
    "\<And>n. n \<in> set names \<Longrightarrow> storable n"
  then show "\<exists>r s'. get_group (file_manager m) f w = Inr (Some r, s') \<and> file_ready_in m e h cn s' \<and> file_view m s' = file_view m w \<and>
      set r = {(n, make_path m n) |n. n \<in> set names \<and> file_view m w n \<noteq> None} \<and>
      (\<forall>n\<in>set names. file_view m w n \<noteq> None \<longrightarrow> content_at s' (make_path m n) = file_view m w n)"
    using file_get_group_run [OF file_ready_inD, of m e h cn w f names t]
    by (auto simp: file_manager_def file_view_content [OF file_ready_inD])
next
  fix w :: "'a world" and f
  assume r: "file_ready_in m e h cn w" "storable f" "file_view m w (grp_filename f) = None"
  then show "\<exists>s'. get_group (file_manager m) f w = Inr (None, s') \<and> file_ready_in m e h cn s' \<and> file_view m s' = file_view m w"
    using file_exists_run(2) [OF file_ready_inD [OF r(1)] storable_grp [OF r(2)]]
    by (simp add: file_manager_def file_get_group_def m_defs)
qed

end
