(* ===== verification/Cache_Remote.thy ===== *)
theory Cache_Remote
  imports Cache_File
begin

text \<open>
  The manager over a remote backend.  A locale states what it needs of a backend; any backend that
  keeps this contract gives a cache manager that keeps the contract of \<open>Cache_File\<close>.  The Redis
  backend keeps it under the documented behaviour of the two commands it uses.
\<close>

section \<open>The contract of a backend\<close>

locale remote_backend =
  fixes bk :: "'r world cache_backend"
    and bview :: "'r world \<Rightarrow> string \<Rightarrow> file_text option"
    and server_ok :: "'r world \<Rightarrow> bool"
    and m :: file_cache
  assumes get_spec:
      "server_ok w \<Longrightarrow> \<exists>found. backend_get bk names w = Inr (found, w) \<and> distinct (map fst found) \<and>
        (\<forall>n. map_option payload (map_of found n) = (if n \<in> set names then bview w n else None))"
    and backend_put_spec:
      "server_ok w \<Longrightarrow> \<exists>r. backend_put bk f d w = Inr ((), w\<lparr>remote := r\<rparr>) \<and> server_ok (w\<lparr>remote := r\<rparr>) \<and>
        bview (w\<lparr>remote := r\<rparr>) = (bview w)(f \<mapsto> payload d)"
    and local_irrelevant:
      "remote w' = remote w \<Longrightarrow> bview w' = bview w \<and> server_ok w' = server_ok w"

definition without_flags :: "'r world cache_backend \<Rightarrow> file_cache \<Rightarrow> 'r remote_cache" where
  "without_flags bk m = \<lparr>backend = bk, override_flag = False, dump_flag = False, file_cache_manager = m\<rparr>"

lemma without_flags_simps [simp]:
  "backend (without_flags bk m) = bk" "file_cache_manager (without_flags bk m) = m"
  "\<not> override_flag (without_flags bk m)" "\<not> dump_flag (without_flags bk m)"
  by (simp_all add: without_flags_def)

definition name_document :: "string list \<Rightarrow> json" where
  "name_document names = JObj [(''child_paths'', JList (map JStr names))]"

definition describes_names :: "file_text \<Rightarrow> string list \<Rightarrow> bool" where
  "describes_names t names = (t = Printed (name_document (sort_names names)))"

lemma set_sort_names [simp]: "set (sort_names names) = set names"
proof -
  have "set (insert_name x xs) = insert x (set xs)" for x xs by (induction xs) auto
  then show ?thesis by (induction names) (simp_all add: sort_names_def)
qed

lemma map_r_json_str [simp]: "map_r json_str (map JStr names) = Inr names"
  by (induction names) simp_all

lemma file_ready_remote [simp]: "file_ready m (w\<lparr>remote := r\<rparr>) = file_ready m w"
  by (simp add: file_ready_def temp_name_def)

lemma content_at_other:
  assumes "file_ready m w" "storable f" "storable g" "g \<noteq> f" "file_put m d f w = Inr (p, w')"
  shows "content_at w' (make_path m g) = content_at w (make_path m g)"
  using file_put_ready(2,3) [OF assms(1,2,5)] assms(1,3,4) by (simp add: file_view_content)

context remote_backend
begin

definition local_ready :: "'r world \<Rightarrow> bool" where
  "local_ready w = (file_ready m w \<and> server_ok w)"

lemma materialize_spec:
  assumes "local_ready w" "storable f"
  shows "\<exists>w'. materialize (without_flags bk m) f d w = Inr (make_path m f, w') \<and> local_ready w' \<and> bview w' = bview w \<and>
    content_at w' (make_path m f) = Some (payload d) \<and>
    (\<forall>g. storable g \<longrightarrow> g \<noteq> f \<longrightarrow> content_at w' (make_path m g) = content_at w (make_path m g))"
proof -
  have r: "file_ready m w" and k: "server_ok w" using assms(1) by (simp_all add: local_ready_def)
  obtain w' where w': "file_put m d f w = Inr (make_path m f, w')" using file_put_run [OF r assms(2)] by blast
  note p = file_put_ready [OF r assms(2) w']
  have "bview w' = bview w" "server_ok w'" using local_irrelevant [OF p(4)] k by simp_all
  moreover have "content_at w' (make_path m f) = Some (payload d)"
    using file_view_content [OF p(2) assms(2)] p(3) by simp
  ultimately show ?thesis
    using w' p(2) content_at_other [OF r assms(2) _ _ w'] by (auto simp: materialize_def local_ready_def)
qed

lemma put_remote_spec:
  assumes "local_ready w" "storable f"
  shows "\<exists>w'. remote_put (without_flags bk m) d f w = Inr (make_path m f, w') \<and> local_ready w' \<and>
    bview w' = (bview w)(f \<mapsto> payload d)"
proof -
  obtain r where r: "backend_put bk f (Bytes (payload d)) w = Inr ((), w\<lparr>remote := r\<rparr>)" "local_ready (w\<lparr>remote := r\<rparr>)"
      "bview (w\<lparr>remote := r\<rparr>) = (bview w)(f \<mapsto> payload d)"
    using backend_put_spec [of w f "Bytes (payload d)"] assms(1) by (auto simp: local_ready_def)
  obtain w' where "materialize (without_flags bk m) f (Bytes (payload d)) (w\<lparr>remote := r\<rparr>) = Inr (make_path m f, w')"
      "local_ready w'" "bview w' = bview (w\<lparr>remote := r\<rparr>)"
    using materialize_spec [OF r(2) assms(2)] by blast
  then show ?thesis using r by (simp add: remote_put_def run_simps Let_def)
qed

lemma get_one:
  assumes "local_ready w"
  shows "\<exists>found. backend_get bk [f] w = Inr (found, w) \<and>
    (case bview w f of None \<Rightarrow> found = [] | Some t \<Rightarrow> \<exists>d. found = [(f, d)] \<and> payload d = t)"
proof -
  obtain found where found: "backend_get bk [f] w = Inr (found, w)" "distinct (map fst found)"
      "\<And>n. map_option payload (map_of found n) = (if n = f then bview w n else None)"
    using get_spec [of w "[f]"] assms by (auto simp: local_ready_def)
  have keys: "fst ` set found \<subseteq> {f}"
  proof
    fix n assume "n \<in> fst ` set found"
    then obtain d where "map_of found n = Some d" by (metis map_of_eq_None_iff option.exhaust)
    with found(3) [of n] show "n \<in> {f}" by (auto split: if_splits)
  qed
  show ?thesis
  proof (cases found)
    case Nil
    then show ?thesis using found(1) found(3) [of f] by simp
  next
    case (Cons e es)
    then have "fst e = f" "es = []" using keys found(2) by (cases es; force)+
    then have "found = [(f, snd e)]" using Cons by (metis prod.collapse)
    then show ?thesis using found(1) found(3) [of f] by (cases "bview w f") simp_all
  qed
qed

lemma get_file_remote_spec:
  assumes "local_ready w" "storable f"
  shows "\<exists>w'. remote_get_file (without_flags bk m) f w =
      Inr (if bview w f = None then None else Some (make_path m f), w') \<and> local_ready w' \<and> bview w' = bview w \<and>
      (bview w f \<noteq> None \<longrightarrow> content_at w' (make_path m f) = bview w f)"
proof -
  obtain found where found: "backend_get bk [f] w = Inr (found, w)"
      "case bview w f of None \<Rightarrow> found = [] | Some t \<Rightarrow> \<exists>d. found = [(f, d)] \<and> payload d = t"
    using get_one [OF assms(1)] by blast
  show ?thesis
  proof (cases "bview w f")
    case None
    then show ?thesis using found assms(1) by (simp add: remote_get_file_def run_simps)
  next
    case (Some t)
    then obtain d where d: "found = [(f, d)]" "payload d = t" using found(2) by auto
    obtain w' where "materialize (without_flags bk m) f d w = Inr (make_path m f, w')" "local_ready w'" "bview w' = bview w"
        "content_at w' (make_path m f) = Some (payload d)"
      using materialize_spec [OF assms] by blast
    then show ?thesis using found(1) d Some by (simp add: remote_get_file_def run_simps)
  qed
qed

lemma materialize_all:
  "local_ready w \<Longrightarrow> (\<And>n. n \<in> fst ` set found \<Longrightarrow> storable n) \<Longrightarrow> distinct (map fst found) \<Longrightarrow>
    \<exists>w'. map_m (\<lambda>(c, d). bind (materialize (without_flags bk m) c d) (\<lambda>q. return (c, q))) found w =
        Inr (map (\<lambda>(c, d). (c, make_path m c)) found, w') \<and> local_ready w' \<and> bview w' = bview w \<and>
      (\<forall>(c, d) \<in> set found. content_at w' (make_path m c) = Some (payload d)) \<and>
      (\<forall>g. storable g \<longrightarrow> g \<notin> fst ` set found \<longrightarrow> content_at w' (make_path m g) = content_at w (make_path m g))"
proof (induction found arbitrary: w)
  case Nil
  then show ?case by (simp add: run_simps)
next
  case (Cons e found)
  obtain c d where e: "e = (c, d)" by (cases e)
  have c: "storable c" "c \<notin> fst ` set found" using Cons.prems(2,3) by (auto simp: e)
  obtain w1 where w1: "materialize (without_flags bk m) c d w = Inr (make_path m c, w1)" "local_ready w1" "bview w1 = bview w"
      "content_at w1 (make_path m c) = Some (payload d)"
      "\<And>g. storable g \<Longrightarrow> g \<noteq> c \<Longrightarrow> content_at w1 (make_path m g) = content_at w (make_path m g)"
    using materialize_spec [OF Cons.prems(1) c(1)] by blast
  obtain w2 where w2: "map_m (\<lambda>(c, d). bind (materialize (without_flags bk m) c d) (\<lambda>q. return (c, q))) found w1 =
        Inr (map (\<lambda>(c, d). (c, make_path m c)) found, w2)" "local_ready w2" "bview w2 = bview w1"
      "\<forall>(c, d) \<in> set found. content_at w2 (make_path m c) = Some (payload d)"
      "\<And>g. storable g \<Longrightarrow> g \<notin> fst ` set found \<Longrightarrow> content_at w2 (make_path m g) = content_at w1 (make_path m g)"
    using Cons.IH [OF w1(2)] Cons.prems(2,3) by auto
  have "content_at w2 (make_path m c) = Some (payload d)" using w2(5) [OF c] w1(4) by simp
  moreover have "map_m (\<lambda>(c, d). bind (materialize (without_flags bk m) c d) (\<lambda>q. return (c, q))) (e # found) w =
      Inr (map (\<lambda>(c, d). (c, make_path m c)) (e # found), w2)"
    unfolding e map_m.simps prod.case list.map
    by (simp only: bind_assoc bind_return return_apply bind_run [where m = "materialize (without_flags bk m) c d", OF w1(1)]
        bind_run [where m = "map_m F found" for F, OF w2(1)])
  ultimately show ?case
    using w1 w2 by (auto simp: e)
qed

lemma backend_cache: "kernel_cache (remote_manager (without_flags bk m)) (make_path m) bview content_at describes_names local_ready"
proof
  fix w f d
  assume "local_ready w" "storable f"
  then show "\<exists>s'. put (remote_manager (without_flags bk m)) d f w = Inr (make_path m f, s') \<and> local_ready s' \<and>
      bview s' = (bview w)(f \<mapsto> payload d)"
    using put_remote_spec by (simp add: remote_manager_def)
next
  fix w f
  assume "local_ready w" "storable f"
  then show "\<exists>s'. get_file (remote_manager (without_flags bk m)) f w =
      Inr (if bview w f = None then None else Some (make_path m f), s') \<and> local_ready s' \<and> bview s' = bview w \<and>
      (bview w f \<noteq> None \<longrightarrow> content_at s' (make_path m f) = bview w f)"
    using get_file_remote_spec by (simp add: remote_manager_def)
next
  fix w f and grp :: "string dict"
  assume r: "local_ready w" "storable f"
  let ?t = "Printed (name_document (sort_names (map fst grp)))"
  obtain w' where "remote_put (without_flags bk m) (Str ?t) (grp_filename f) w = Inr (make_path m (grp_filename f), w')"
      "local_ready w'" "bview w' = (bview w)(grp_filename f \<mapsto> ?t)"
    using put_remote_spec [OF r(1) storable_grp [OF r(2)], of "Str ?t"] by auto
  then show "\<exists>p s' t. put_group (remote_manager (without_flags bk m)) f grp w = Inr (p, s') \<and> local_ready s' \<and>
      bview s' = (bview w)(grp_filename f \<mapsto> t) \<and> describes_names t (map fst grp)"
    by (simp add: remote_manager_def remote_put_group_def describes_names_def name_document_def)
next
  fix w f t names
  assume r: "local_ready w" "storable f" and t: "bview w (grp_filename f) = Some t" "describes_names t names"
    and n: "\<And>n. n \<in> set names \<Longrightarrow> storable n"
  let ?m = "without_flags bk m" and ?g = "make_path m (grp_filename f)"
  have doc: "t = Printed (name_document (sort_names names))" using t(2) by (simp add: describes_names_def)
  obtain w1 where w1: "remote_get_file ?m (grp_filename f) w = Inr (Some ?g, w1)" "local_ready w1" "bview w1 = bview w"
      "content_at w1 ?g = Some t"
    using get_file_remote_spec [OF r(1) storable_grp [OF r(2)]] t(1) by auto
  have load: "json_load ?g w1 = Inr (name_document (sort_names names), w1)"
    using json_load_run [of m w1 "grp_filename f"] w1(2,4) storable_grp [OF r(2)] doc
    by (simp add: local_ready_def file_view_content)
  obtain found where found: "backend_get bk (sort_names names) w1 = Inr (found, w1)" "distinct (map fst found)"
      "\<And>n. map_option payload (map_of found n) = (if n \<in> set (sort_names names) then bview w1 n else None)"
    using get_spec w1(2) by (meson local_ready_def)
  have mem: "(n, d) \<in> set found \<longleftrightarrow> map_of found n = Some d" for n d using found(2) by simp
  have keys: "n \<in> fst ` set found \<longleftrightarrow> n \<in> set names \<and> bview w n \<noteq> None" for n
  proof -
    have "n \<in> fst ` set found \<longleftrightarrow> map_of found n \<noteq> None" by (simp add: map_of_eq_None_iff)
    then show ?thesis using found(3) [of n] w1(3) by (metis map_option_is_None set_sort_names)
  qed
  have "storable n" if "n \<in> fst ` set found" for n using that keys n by blast
  then obtain w2 where w2: "map_m (\<lambda>(c, d). bind (materialize ?m c d) (\<lambda>q. return (c, q))) found w1 =
        Inr (map (\<lambda>(c, d). (c, make_path m c)) found, w2)" "local_ready w2" "bview w2 = bview w1"
      "\<forall>(c, d) \<in> set found. content_at w2 (make_path m c) = Some (payload d)"
    using materialize_all [OF w1(2) _ found(2)] by blast
  let ?r = "map (\<lambda>(c, d). (c, make_path m c)) found"
  have get: "remote_get_group ?m f w = Inr (Some ?r, w2)"
    by (simp add: remote_get_group_def bind_run w1(1) load found(1) w2(1) name_document_def return_apply)
  have "set ?r = {(n, make_path m n) |n. n \<in> set names \<and> bview w n \<noteq> None}"
  proof -
    have "set ?r = (\<lambda>n. (n, make_path m n)) ` fst ` set found" by (force simp: image_iff)
    moreover have "fst ` set found = {n. n \<in> set names \<and> bview w n \<noteq> None}" using keys by blast
    ultimately show ?thesis by auto
  qed
  moreover have "content_at w2 (make_path m n) = bview w n" if nn: "n \<in> set names" "bview w n \<noteq> None" for n
  proof -
    obtain d where d: "map_of found n = Some d" "Some (payload d) = bview w n"
      using found(3) [of n] nn w1(3) by (cases "map_of found n") simp_all
    then show ?thesis using w2(4) mem [of n d] by auto
  qed
  ultimately show "\<exists>r s'. get_group (remote_manager ?m) f w = Inr (Some r, s') \<and> local_ready s' \<and> bview s' = bview w \<and>
      set r = {(n, make_path m n) |n. n \<in> set names \<and> bview w n \<noteq> None} \<and>
      (\<forall>n\<in>set names. bview w n \<noteq> None \<longrightarrow> content_at s' (make_path m n) = bview w n)"
    using get w1(3) w2(2,3) by (auto simp: remote_manager_def)
next
  fix w f
  assume r: "local_ready w" "storable f" and t: "bview w (grp_filename f) = None"
  obtain w1 where "remote_get_file (without_flags bk m) (grp_filename f) w = Inr (None, w1)" "local_ready w1" "bview w1 = bview w"
    using get_file_remote_spec [OF r(1) storable_grp [OF r(2)]] t by auto
  then show "\<exists>s'. get_group (remote_manager (without_flags bk m)) f w = Inr (None, s') \<and> local_ready s' \<and> bview s' = bview w"
    by (simp add: remote_manager_def remote_get_group_def run_simps)
qed

end

sublocale remote_backend \<subseteq> managed: kernel_cache
    "remote_manager (without_flags bk m)" "make_path m" bview content_at describes_names local_ready
  by (rule backend_cache)

section \<open>Redis\<close>

text \<open>
  \<open>SET\<close> binds a key; \<open>MGET\<close> returns the binding of each key it is given, in order.  The documented
  behaviour of the two commands, for a server state of any type.
\<close>

definition redis_laws :: "('r \<Rightarrow> string list \<Rightarrow> data option list) \<Rightarrow> ('r \<Rightarrow> string \<Rightarrow> data \<Rightarrow> 'r) \<Rightarrow> bool" where
  "redis_laws mget rset \<longleftrightarrow>
     (\<forall>r ks. mget r ks = map (\<lambda>k. hd (mget r [k])) ks) \<and>
     (\<forall>r k d k'. hd (mget (rset r k d) [k']) = (if k' = k then Some d else hd (mget r [k'])))"

text \<open>A format that gives every file name of a cache entry its own key.\<close>

definition separates :: "string \<Rightarrow> string \<Rightarrow> bool" where
  "separates fmt k \<longleftrightarrow> (\<exists>g. inj g \<and> (\<forall>f. redis_get_key fmt k f = Inr (g f)))"

lemma default_key: "redis_get_key ''triton:{key}:{filename}'' k f = Inr (''triton:'' @ k @ '':'' @ f)"
  by (simp add: redis_get_key_def)

lemma default_separates: "separates ''triton:{key}:{filename}'' k"
  unfolding separates_def by (rule exI [of _ "\<lambda>f. ''triton:'' @ k @ '':'' @ f"]) (simp add: default_key inj_def)

definition redis_object :: "('r \<Rightarrow> string list \<Rightarrow> data option list) \<Rightarrow> ('r \<Rightarrow> string \<Rightarrow> data \<Rightarrow> 'r) \<Rightarrow> string \<Rightarrow> string \<Rightarrow> 'r world cache_backend" where
  "redis_object mget rset fmt k = \<lparr>backend_get = redis_get mget fmt k, backend_put = redis_put rset fmt k\<rparr>"

definition redis_view :: "('r \<Rightarrow> string list \<Rightarrow> data option list) \<Rightarrow> string \<Rightarrow> string \<Rightarrow> 'r world \<Rightarrow> string \<Rightarrow> file_text option" where
  "redis_view mget fmt k w f = (case redis_get_key fmt k f of Inl e \<Rightarrow> None | Inr rk \<Rightarrow> map_option payload (hd (mget (remote w) [rk])))"

definition redis_ok :: "('r \<Rightarrow> string list \<Rightarrow> data option list) \<Rightarrow> ('r \<Rightarrow> string \<Rightarrow> data \<Rightarrow> 'r) \<Rightarrow> string \<Rightarrow> string \<Rightarrow> 'r world \<Rightarrow> bool" where
  "redis_ok mget rset fmt k w = (redis_laws mget rset \<and> separates fmt k)"

lemma map_r_total: "(\<And>x. f x = Inr (g x)) \<Longrightarrow> map_r f xs = Inr (map g xs)"
  by (induction xs) simp_all

lemma fold_found:
  "distinct (map fst acc) \<Longrightarrow> distinct (map fst (fold add_found (map (\<lambda>n. (n, h n)) names) acc)) \<and>
    map_of (fold add_found (map (\<lambda>n. (n, h n)) names) acc) n =
      (if n \<in> set names \<and> h n \<noteq> None then h n else map_of acc n)"
proof (induction names arbitrary: acc)
  case (Cons x names)
  have "distinct (map fst (add_found (x, h x) acc))"
    using Cons.prems by (simp add: add_found_def distinct_update split: option.splits)
  then show ?case using Cons.IH by (auto simp: add_found_def update_conv' split: option.splits)
qed simp

interpretation redis: remote_backend "redis_object mget rset fmt k" "redis_view mget fmt k" "redis_ok mget rset fmt k" m
  for mget :: "'r \<Rightarrow> string list \<Rightarrow> data option list" and rset fmt k m
proof
  fix w :: "'r world" and names :: "string list"
  assume ok: "redis_ok mget rset fmt k w"
  then obtain g where g: "inj g" "\<And>f. redis_get_key fmt k f = Inr (g f)" by (auto simp: redis_ok_def separates_def)
  let ?h = "\<lambda>n. hd (mget (remote w) [g n])"
  have "mget (remote w) (map g names) = map (\<lambda>k. hd (mget (remote w) [k])) (map g names)"
    using ok unfolding redis_ok_def redis_laws_def by blast
  then have "zip names (mget (remote w) (map g names)) = map (\<lambda>n. (n, ?h n)) names"
    by (simp add: zip_map2 zip_same_conv_map comp_def)
  then have "redis_get mget fmt k names w = Inr (fold add_found (map (\<lambda>n. (n, ?h n)) names) [], w)"
    using map_r_total [of "redis_get_key fmt k" g names, OF g(2)] by (simp add: redis_get_def run_simps)
  then show "\<exists>found. backend_get (redis_object mget rset fmt k) names w = Inr (found, w) \<and> distinct (map fst found) \<and>
      (\<forall>n. map_option payload (map_of found n) = (if n \<in> set names then redis_view mget fmt k w n else None))"
    using fold_found [of "[]" ?h names] by (auto simp: redis_object_def redis_view_def g(2))
next
  fix w :: "'r world" and f d
  assume ok: "redis_ok mget rset fmt k w"
  then obtain g where g: "inj g" "\<And>f. redis_get_key fmt k f = Inr (g f)" by (auto simp: redis_ok_def separates_def)
  have set: "hd (mget (rset r k d) [k']) = (if k' = k then Some d else hd (mget r [k']))" for r k d k'
    using ok unfolding redis_ok_def redis_laws_def by blast
  let ?w = "w\<lparr>remote := rset (remote w) (g f) d\<rparr>"
  have "redis_put rset fmt k f d w = Inr ((), ?w)" by (simp add: redis_put_def g(2) run_simps)
  moreover have "redis_view mget fmt k ?w = (redis_view mget fmt k w)(f \<mapsto> payload d)"
    by (rule ext) (simp add: redis_view_def g(2) set inj_eq [OF g(1)])
  ultimately show "\<exists>r. backend_put (redis_object mget rset fmt k) f d w = Inr ((), w\<lparr>remote := r\<rparr>) \<and>
      redis_ok mget rset fmt k (w\<lparr>remote := r\<rparr>) \<and>
      redis_view mget fmt k (w\<lparr>remote := r\<rparr>) = (redis_view mget fmt k w)(f \<mapsto> payload d)"
    using ok by (auto simp: redis_object_def redis_ok_def)
next
  fix w w' :: "'r world"
  assume "remote w' = remote w"
  then show "redis_view mget fmt k w' = redis_view mget fmt k w \<and> redis_ok mget rset fmt k w' = redis_ok mget rset fmt k w"
    by (auto simp: redis_view_def redis_ok_def fun_eq_iff split: sum.split)
qed

end
