(* ===== verification/Cache_Key.thy ===== *)
theory Cache_Key
  imports Cache
begin

text \<open>
  The directory of a cache entry is the digest of the kernel, re-encoded from hexadecimal to the
  base64 alphabet that is safe in file names.  The encoding can be undone, so different digests never
  share a directory, and its result is a single path component.
\<close>

section \<open>Decoding\<close>

fun index_of :: "char \<Rightarrow> string \<Rightarrow> nat" where
  "index_of c [] = 0"
| "index_of c (d # ds) = (if c = d then 0 else Suc (index_of c ds))"

definition base64_index :: "char \<Rightarrow> nat" where
  "base64_index c = index_of c base64_alphabet"

fun base64_decode :: "string \<Rightarrow> nat list" where
  "base64_decode (x # y # z # u # cs) =
     (base64_index x * 4 + base64_index y div 16) #
     (base64_index y mod 16 * 16 + base64_index z div 4) #
     (base64_index z mod 4 * 64 + base64_index u) # base64_decode cs"
| "base64_decode [x, y, z] =
     [base64_index x * 4 + base64_index y div 16, base64_index y mod 16 * 16 + base64_index z div 4]"
| "base64_decode [x, y] = [base64_index x * 4 + base64_index y div 16]"
| "base64_decode _ = []"

lemma base64_chars:
  "list_all (\<lambda>n. base64_index (base64_char n) = n \<and> base64_char n \<noteq> CHR ''/'' \<and> base64_char n \<noteq> CHR ''.'') [0..<64]"
  by code_simp

lemma base64_char_props:
  assumes "n < 64"
  shows "base64_index (base64_char n) = n" "base64_char n \<noteq> CHR ''/''" "base64_char n \<noteq> CHR ''.''"
  using base64_chars assms by (simp_all add: list_all_iff)

text \<open>The bits of a byte split over two sextets.\<close>

lemma sextets:
  "a < 256 \<Longrightarrow> a div 4 < 64" "a mod 64 < (64 :: nat)" "a mod 4 * 16 < (64 :: nat)" "a mod 16 * 4 < (64 :: nat)"
  "b < 256 \<Longrightarrow> a mod 4 * 16 + b div 16 < (64 :: nat)" "b < 256 \<Longrightarrow> a mod 16 * 4 + b div 64 < (64 :: nat)"
  "b < 256 \<Longrightarrow> b div 16 div 16 = (0 :: nat)" "b < 256 \<Longrightarrow> b div 16 mod 16 = (b div 16 :: nat)"
  "b < 256 \<Longrightarrow> b div 64 div 4 = (0 :: nat)" "b < 256 \<Longrightarrow> b div 64 mod 4 = (b div 64 :: nat)"
proof -
  have "a mod 4 < 4" "a mod 16 < (16 :: nat)" by simp_all
  moreover have "b < 256 \<Longrightarrow> b div 16 < 16 \<and> b div 64 < 4" by auto
  ultimately show "a < 256 \<Longrightarrow> a div 4 < 64" "a mod 64 < (64 :: nat)" "a mod 4 * 16 < (64 :: nat)" "a mod 16 * 4 < (64 :: nat)"
    "b < 256 \<Longrightarrow> a mod 4 * 16 + b div 16 < (64 :: nat)" "b < 256 \<Longrightarrow> a mod 16 * 4 + b div 64 < (64 :: nat)"
    "b < 256 \<Longrightarrow> b div 16 div 16 = (0 :: nat)" "b < 256 \<Longrightarrow> b div 16 mod 16 = (b div 16 :: nat)"
    "b < 256 \<Longrightarrow> b div 64 div 4 = (0 :: nat)" "b < 256 \<Longrightarrow> b div 64 mod 4 = (b div 64 :: nat)"
    by auto
qed

lemma base64_decode_encode: "list_all (\<lambda>b. b < 256) bs \<Longrightarrow> base64_decode (base64_encode bs) = bs"
  by (induction bs rule: base64_encode.induct) (simp_all add: base64_char_props sextets)

lemma base64_encode_plain:
  "list_all (\<lambda>b. b < 256) bs \<Longrightarrow> CHR ''/'' \<notin> set (base64_encode bs) \<and> CHR ''.'' \<notin> set (base64_encode bs)"
  by (induction bs rule: base64_encode.induct)
    (simp_all add: base64_char_props base64_char_props(2,3) [symmetric] sextets)

section \<open>Digests\<close>

text \<open>What \<open>hexdigest\<close> returns: an even number of lower-case hexadecimal digits.\<close>

definition hex_digits :: string where
  "hex_digits = ''0123456789abcdef''"

definition hex_string :: "string \<Rightarrow> bool" where
  "hex_string k = (even (length k) \<and> list_all (\<lambda>c. c \<in> set hex_digits) k)"

lemma hex_digit_table:
  "list_all (\<lambda>c. (\<exists>n \<in> set [0..<16]. hex_digit c = Some n) \<and> \<not> is_space c) hex_digits"
  "list_all (\<lambda>c. list_all (\<lambda>d. hex_digit c = hex_digit d \<longrightarrow> c = d) hex_digits) hex_digits"
  by code_simp+

lemma hex_digit_range:
  "c \<in> set hex_digits \<Longrightarrow> \<exists>n < 16. hex_digit c = Some n"
  "c \<in> set hex_digits \<Longrightarrow> \<not> is_space c"
  using hex_digit_table(1) by (auto simp: list_all_iff simp del: hex_digit.simps)

lemma hex_digit_inj: "c \<in> set hex_digits \<Longrightarrow> d \<in> set hex_digits \<Longrightarrow> hex_digit c = hex_digit d \<Longrightarrow> c = d"
  using hex_digit_table(2) by (simp add: list_all_iff del: hex_digit.simps)

lemma hex_string_step:
  "hex_string (c # d # cs) \<longleftrightarrow> c \<in> set hex_digits \<and> d \<in> set hex_digits \<and> hex_string cs"
  by (auto simp: hex_string_def)

lemma fromhex_total: "hex_string k \<Longrightarrow> \<exists>bs. fromhex k = Inr bs \<and> list_all (\<lambda>b. b < 256) bs \<and> 2 * length bs = length k"
proof (induction k rule: fromhex.induct)
  case (3 c d cs)
  then have cd: "c \<in> set hex_digits" "d \<in> set hex_digits" "hex_string cs" by (simp_all add: hex_string_step)
  obtain h l where hl: "hex_digit c = Some h" "hex_digit d = Some l" "h < 16" "l < 16"
    using hex_digit_range(1) cd(1,2) by metis
  have "\<exists>bs. fromhex cs = Inr bs \<and> list_all (\<lambda>b. b < 256) bs \<and> 2 * length bs = length cs"
    using 3 cd hl hex_digit_range(2) [OF cd(1)] by blast
  then show ?case using hl hex_digit_range(2) [OF cd(1)] by (auto simp del: hex_digit.simps)
qed (simp_all add: hex_string_def)

lemma fromhex_inj: "hex_string k \<Longrightarrow> hex_string k' \<Longrightarrow> fromhex k = fromhex k' \<Longrightarrow> k = k'"
proof (induction k arbitrary: k' rule: fromhex.induct)
  case 1
  then show ?case using fromhex_total [of k'] by auto
next
  case (2 c)
  then show ?case by (simp add: hex_string_def)
next
  case (3 c d cs)
  then have cd: "c \<in> set hex_digits" "d \<in> set hex_digits" "hex_string cs" by (simp_all add: hex_string_step)
  have len: "length k' = length (c # d # cs)"
    using fromhex_total [OF "3.prems"(1)] fromhex_total [OF "3.prems"(2)] "3.prems"(3) by auto
  then obtain c' d' cs' where k': "k' = c' # d' # cs'" by (cases k' rule: fromhex.cases) auto
  then have cd': "c' \<in> set hex_digits" "d' \<in> set hex_digits" "hex_string cs'"
    using "3.prems"(2) by (simp_all add: hex_string_step)
  obtain h l h' l' where hl: "hex_digit c = Some h" "hex_digit d = Some l" "hex_digit c' = Some h'" "hex_digit d' = Some l'"
      "h < 16" "l < 16" "h' < 16" "l' < 16"
    using hex_digit_range(1) cd(1,2) cd'(1,2) by metis
  obtain bs bs' where bs: "fromhex cs = Inr bs" "fromhex cs' = Inr bs'"
    using fromhex_total cd(3) cd'(3) by blast
  have "16 * h + l = 16 * h' + l'" "bs = bs'"
    using "3.prems"(3) hl(1-4) bs hex_digit_range(2) cd(1) cd'(1) by (auto simp: k' simp del: hex_digit.simps)
  note eq = this
  have "h = h'" using arg_cong [OF eq(1), of "\<lambda>n. n div 16"] hl(6,8) by simp
  moreover have "l = l'" using eq(1) \<open>h = h'\<close> by simp
  ultimately have "c = c'" "d = d'"
    using hl(1-4) hex_digit_inj [OF cd(1) cd'(1)] hex_digit_inj [OF cd(2) cd'(2)] by (simp_all del: hex_digit.simps)
  moreover have "cs = cs'"
    using "3.IH"(2) [OF _ refl hl(1,2) cd(3) cd'(3)] hex_digit_range(2) [OF cd(1)] bs eq(2) by simp
  ultimately show ?case by (simp add: k')
qed

section \<open>Properties\<close>

text \<open>C24: the directory name of a digest is a single path component, and different digests have
  different directory names.\<close>

theorem cache_keys_distinct:
  assumes "hex_string k" "hex_string k'" "k \<noteq> []"
  shows "\<exists>d d'. base64_key k = Inr d \<and> base64_key k' = Inr d' \<and> plain_name d \<and> (d = d') = (k = k')"
proof -
  obtain bs bs' where bs: "fromhex k = Inr bs" "fromhex k' = Inr bs'"
      "list_all (\<lambda>b. b < 256) bs" "list_all (\<lambda>b. b < 256) bs'" "2 * length bs = length k"
    using fromhex_total assms(1,2) by meson
  have "bs = bs'" if "base64_encode bs = base64_encode bs'" using base64_decode_encode bs(3,4) that by metis
  then have "(base64_encode bs = base64_encode bs') = (k = k')"
    using bs(1,2) fromhex_inj [OF assms(1,2)] by auto
  moreover have "bs \<noteq> []" using bs(5) assms(3) by auto
  then have "plain_name (base64_encode bs)"
    using base64_encode_plain [OF bs(3)] by (cases bs rule: base64_encode.cases) (auto simp: plain_name_def)
  ultimately show ?thesis using bs(1,2) by (simp add: base64_key_def)
qed

theorem cache_keys_distinct_witness:
  "base64_key ''00ff10a9'' = Inr ''AP8QqQ'' \<and> base64_key ''00ff10a8'' \<noteq> base64_key ''00ff10a9''"
proof -
  have "hex_string ''00ff10a9''" "hex_string ''00ff10a8''" "base64_key ''00ff10a9'' = Inr ''AP8QqQ''" by code_simp+
  with cache_keys_distinct [of "''00ff10a8''" "''00ff10a9''"] show ?thesis by auto
qed

end
