(* ===== verification/Cache_Properties.thy ===== *)
theory Cache_Properties
  imports Cache_Remote Cache_Key "HOL-Library.Sublist"
begin

text \<open>
  What the callers of the cache rely on: opening a manager makes its directory, storing a file changes
  that file only, and a group of files that was stored is found again with its contents, in a
  directory and on a Redis server.
\<close>

section \<open>Opening a manager\<close>

lemma make_dirs_run:
  "wf_tree t \<Longrightarrow> (\<And>ys c. prefix ys cs \<Longrightarrow> node_at t (a, ys) \<noteq> Some (File c)) \<Longrightarrow>
    \<exists>t'. make_dirs (a, cs) t = Inr t' \<and> (\<forall>k. node_at t' k = (if fst k = a \<and> prefix (snd k) cs then Some Dir else node_at t k))"
proof (induction cs rule: rev_induct)
  case Nil
  have "fst k = a \<and> snd k = [] \<longrightarrow> node_at t k = Some Dir" for k by simp
  then show ?case by (auto simp: make_dirs_def)
next
  case (snoc c cs)
  obtain t1 where t1: "make_dirs (a, cs) t = Inr t1"
      "\<And>k. node_at t1 k = (if fst k = a \<and> prefix (snd k) cs then Some Dir else node_at t k)"
    using snoc by (metis prefix_snoc)
  have step: "make_dirs (a, cs @ [c]) t = make_dir (a, cs @ [c]) t1"
    using t1(1) by (simp add: make_dirs_def make_dirs_from_snoc)
  have above: "node_at t1 (parent (a, cs @ [c])) = Some Dir" by (simp add: t1(2) parent_def)
  have pre: "fst k = a \<and> prefix (snd k) (cs @ [c]) \<longleftrightarrow> k = (a, cs @ [c]) \<or> fst k = a \<and> prefix (snd k) cs" for k
    by (auto simp: prod_eq_iff)
  show ?case
  proof (cases "node_at t (a, cs @ [c])")
    case None
    then have "make_dirs (a, cs @ [c]) t = Inr (set_node (a, cs @ [c]) Dir t1)"
      using above by (simp add: step make_dir_def t1(2))
    then show ?thesis unfolding pre by (simp add: node_at_set t1(2))
  next
    case (Some n)
    then have "n = Dir" using snoc.prems(2) [of "cs @ [c]"] by (cases n) auto
    then have "make_dirs (a, cs @ [c]) t = Inr t1" using Some by (simp add: step t1(2))
    then show ?thesis unfolding pre using Some \<open>n = Dir\<close> t1(2) by auto
  qed
qed

text \<open>
  The directory that the environment selects can be opened: no file stands on the way to it, and what
  it holds under usable names are complete files.
\<close>

definition cache_root :: "'r world \<Rightarrow> string" where
  "cache_root w =
     (let d = strip (case environ w ''TRITON_CACHE_DIR'' of None \<Rightarrow> [] | Some x \<Rightarrow> x);
          h = (case environ w ''TRITON_HOME'' of None \<Rightarrow> home w | Some x \<Rightarrow> x)
      in if d \<noteq> [] then d else path_join (path_join h ''.triton'') ''cache'')"

definition openable :: "'r world \<Rightarrow> string \<Rightarrow> bool" where
  "openable w d \<longleftrightarrow>
     wf_tree (nodes w) \<and>
     (\<forall>ys c. prefix ys (snd (locate d)) \<longrightarrow> node_at (nodes w) (fst (locate d), ys) \<noteq> Some (File c)) \<and>
     (\<forall>f. storable f \<longrightarrow> complete_or_absent (node_at (nodes w) (child (locate d) f))) \<and>
     (\<forall>n \<ge> uuid_next w. plain_name (temp_name w n) \<and> node_at (nodes w) (child (locate d) (temp_name w n)) = None)"

lemma cache_root_run: "dir_or ''TRITON_CACHE_DIR'' default_cache_dir w = Inr (cache_root w, w)"
  by (simp add: dir_or_def run_simps default_cache_dir_def triton_dir_def get_home_dir_def cache_root_def Let_def)

lemma cache_root_cong: "environ w' = environ w \<Longrightarrow> home w' = home w \<Longrightarrow> cache_root w' = cache_root w"
  by (simp only: cache_root_def)

lemma cache_root_not_Nil: "cache_root w \<noteq> []"
proof -
  have "plain_name ''cache''" by (simp add: plain_name_def)
  then show ?thesis using join_not_Nil [of "''cache''"] by (simp add: cache_root_def Let_def)
qed

lemma child_not_prefix: "\<not> (fst (child l f) = fst l \<and> prefix (snd (child l f)) (snd l))"
  by (auto simp: child_def prefix_def)

lemma open_manager:
  assumes k: "plain_name k" and o: "openable w (path_join (cache_root w) k)"
  shows "\<exists>m w'. file_cache_init k False False w = Inr (m, w') \<and> cache_dir m = path_join (cache_root w) k \<and> file_ready m w' \<and>
    (\<forall>f. file_view m w' f = file_view m w f) \<and> environ w' = environ w \<and> home w' = home w \<and>
    cache_cls_nme w' = cache_cls_nme w"
proof -
  let ?d = "path_join (cache_root w) k"
  let ?m = "\<lparr>cache_key = k, lock_path = Some (path_join ?d ''lock''), cache_dir = ?d\<rparr>"
  obtain t where t: "make_dirs (locate ?d) (nodes w) = Inr t"
      "\<And>l. node_at t l = (if fst l = fst (locate ?d) \<and> prefix (snd l) (snd (locate ?d)) then Some Dir else node_at (nodes w) l)"
    using make_dirs_run [of "nodes w" "snd (locate ?d)" "fst (locate ?d)"] o by (auto simp: openable_def)
  have run: "file_cache_init k False False w = Inr (?m, w\<lparr>nodes := t\<rparr>)"
    using cache_root_run [of w] cache_root_not_Nil [of w] t(1) by (simp add: file_cache_init_def run_simps Let_def)
  have child: "node_at t (child (locate ?d) f) = node_at (nodes w) (child (locate ?d) f)" for f
    unfolding t(2) by (rule if_not_P [OF child_not_prefix])
  have "file_ready ?m (w\<lparr>nodes := t\<rparr>)"
    using o make_dirs_wf [OF t(1)] join_not_Nil [OF k] child
    by (simp add: file_ready_def openable_def cache_loc_def t(2) temp_name_next)
  moreover have "file_view ?m (w\<lparr>nodes := t\<rparr>) f = file_view ?m w f" for f
    by (simp add: file_view_def cache_loc_def child)
  ultimately show ?thesis using run by auto
qed

section \<open>A concrete process\<close>

definition sample_world :: "string \<Rightarrow> 'r \<Rightarrow> 'r world" where
  "sample_world h r = \<lparr>environ = Map.empty, home = h, pid = ''7'', uuids = (\<lambda>n. replicate n CHR ''a''), uuid_next = 0,
     nodes = [], cache_cls_nme = ''DEFAULT'', remote = r\<rparr>"

lemma sample_openable: "openable (sample_world h r) d"
proof -
  have "plain_name (temp_name (sample_world h r) n)" for n
    by (simp add: sample_world_def temp_name_def temp_dir_name_def plain_name_def)
  then show ?thesis
    by (simp add: openable_def wf_tree_def node_at_def complete_or_absent_def sample_world_def child_def)
qed

text \<open>A manager in use can be opened again, and it is the same manager.\<close>

lemma ready_openable:
  assumes "file_ready m w"
  shows "openable w (cache_dir m)"
proof -
  have "node_at (nodes w) (fst (cache_loc m), ys) = Some Dir" if ys: "prefix ys (snd (cache_loc m))" for ys
  proof -
    obtain zs where "snd (cache_loc m) = ys @ zs" using ys by (elim prefixE)
    then have "cache_loc m = (fst (cache_loc m), ys @ zs)" by (simp add: prod_eq_iff)
    then show ?thesis using assms ancestor_dir by (metis file_ready_def)
  qed
  then show ?thesis using assms by (simp add: openable_def file_ready_def cache_loc_def)
qed

lemma file_init_fields:
  "file_cache_init k False False w = Inr (m, w') \<Longrightarrow> m = \<lparr>cache_key = k, lock_path = Some (path_join (path_join (cache_root w) k) ''lock''),
      cache_dir = path_join (cache_root w) k\<rparr>"
  using cache_root_run [of w] cache_root_not_Nil [of w]
  by (auto simp: file_cache_init_def bind_run Let_def bind_apply_Inr_iff return_def)

section \<open>Properties\<close>

text \<open>C19: a compilation stores its files and the group that lists them in the directory of its key; when
  the key is opened again, the group names exactly these files and every path holds the text stored.\<close>

theorem directory_group_round_trip:
  assumes "plain_name k" "openable w (path_join (cache_root w) k)" "storable f"
    and "\<And>g. g \<in> fst ` set files \<Longrightarrow> storable g \<and> g \<noteq> grp_filename f" "distinct (map fst files)"
  shows "\<exists>m w0 grp w1 p w2 w3 w4 r.
     file_cache_init k False False w = Inr (m, w0) \<and>
     put_all (file_manager m) files w0 = Inr (grp, w1) \<and> put_group (file_manager m) f grp w1 = Inr (p, w2) \<and>
     file_cache_init k False False w2 = Inr (m, w3) \<and> get_group (file_manager m) f w3 = Inr (Some r, w4) \<and>
     set r = set grp \<and> map fst grp = map fst files \<and>
     (\<forall>(g, d) \<in> set files. (g, make_path m g) \<in> set r \<and> content_at w4 (make_path m g) = Some (payload d))"
proof -
  let ?files = "\<lambda>m. map (\<lambda>(f, d). (f, make_path m f)) files"
  obtain m w0 where o: "file_cache_init k False False w = Inr (m, w0)" "cache_dir m = path_join (cache_root w) k"
      "file_ready m w0" "environ w0 = environ w" "home w0 = home w" "cache_cls_nme w0 = cache_cls_nme w"
    using open_manager [OF assms(1,2)] by blast
  have r0: "file_ready_in m (environ w) (home w) (cache_cls_nme w) w0" using o by (simp add: file_ready_in_def)
  obtain p w1 w2 where s: "put_all (file_manager m) files w0 = Inr (?files m, w1)"
      "put_group (file_manager m) f (?files m) w1 = Inr (p, w2)" "file_ready_in m (environ w) (home w) (cache_cls_nme w) w2"
      "directory.holds_group m w2 f files"
    using directory.store_group [OF r0 assms(3-5)] by blast
  have root: "cache_root w2 = cache_root w" using s(3) by (intro cache_root_cong) (simp_all add: file_ready_in_def)
  obtain m' w3 where o': "file_cache_init k False False w2 = Inr (m', w3)" "cache_dir m' = cache_dir m"
      "file_ready m' w3" "\<And>g. file_view m' w3 g = file_view m' w2 g" "environ w3 = environ w2" "home w3 = home w2" "cache_cls_nme w3 = cache_cls_nme w2"
    using open_manager [OF assms(1)] ready_openable [OF file_ready_inD [OF s(3)]] root o(2) by metis
  have m': "m' = m" using file_init_fields [OF o(1)] file_init_fields [OF o'(1)] root by simp
  have r3: "file_ready_in m (environ w) (home w) (cache_cls_nme w) w3" using o' s(3) by (simp add: file_ready_in_def m')
  have "directory.holds_group m w3 f files"
    using s(4) o'(4) unfolding directory.holds_group_def m' by simp
  then obtain r w4 where r: "get_group (file_manager m) f w3 = Inr (Some r, w4)" "set r = set (?files m)"
      "\<forall>(g, d) \<in> set files. (g, make_path m g) \<in> set r \<and> content_at w4 (make_path m g) = Some (payload d)"
    using directory.read_group [OF r3 assms(3)] assms(4) by blast
  have "map fst (?files m) = map fst files" by (simp add: case_prod_beta comp_def)
  with o(1) s(1,2) o'(1) r show ?thesis unfolding m' by blast
qed

definition sample_files :: "(string \<times> data) list" where
  "sample_files = [(''add.ttir'', Str (Plain ''module'')), (''add.json'', Str (Printed (JObj [])))]"

lemma sample_names:
  "plain_name ''k''" "storable ''add.json''" "distinct (map fst sample_files)"
  "list_all (\<lambda>g. storable g \<and> g \<noteq> grp_filename ''add.json'') (map fst sample_files)"
  by code_simp+

lemma sample_names_in:
  "g \<in> fst ` set sample_files \<Longrightarrow> storable g \<and> g \<noteq> grp_filename ''add.json''"
  using sample_names(4) by (auto simp: list_all_iff)

theorem directory_group_round_trip_witness:
  "\<exists>m w0 grp w1. file_cache_init ''k'' False False (sample_world ''/root'' ()) = Inr (m, w0) \<and>
     put_all (file_manager m) sample_files w0 = Inr (grp, w1)"
proof -
  note run = directory_group_round_trip [where w = "sample_world ''/root'' ()",
      OF sample_names(1) sample_openable sample_names(2) sample_names_in sample_names(3)]
  show ?thesis using run by blast
qed

text \<open>C20: through the Redis backend, with a key format that separates the names and a server that keeps what
  it is told, the files and the group that were stored are found again and are written to the local
  directory with the texts stored.\<close>

theorem redis_group_round_trip:
  assumes "redis_laws mget rset" "separates fmt k" "file_ready m w" "storable f"
    and "\<And>g. g \<in> fst ` set files \<Longrightarrow> storable g \<and> g \<noteq> grp_filename f" "distinct (map fst files)"
    and "c = remote_manager \<lparr>backend = \<lparr>backend_get = redis_get mget fmt k, backend_put = redis_put rset fmt k\<rparr>,
          override_flag = False, dump_flag = False, file_cache_manager = m\<rparr>"
  shows "\<exists>grp w1 p w2 w3 r.
     put_all c files w = Inr (grp, w1) \<and> put_group c f grp w1 = Inr (p, w2) \<and>
     get_group c f w2 = Inr (Some r, w3) \<and> set r = set grp \<and> map fst grp = map fst files \<and>
     (\<forall>(g, d) \<in> set files. (g, make_path m g) \<in> set r \<and> content_at w3 (make_path m g) = Some (payload d))"
proof -
  have c: "c = remote_manager (without_flags (redis_object mget rset fmt k) m)"
    by (simp add: assms(7) without_flags_def redis_object_def)
  let ?grp = "map (\<lambda>(f, d). (f, make_path m f)) files"
  have ready: "redis.local_ready mget rset fmt k m w" using assms(1-3) by (simp add: redis.local_ready_def redis_ok_def)
  obtain p w1 w2 where s: "put_all c files w = Inr (?grp, w1)" "put_group c f ?grp w1 = Inr (p, w2)"
      "redis.local_ready mget rset fmt k m w2" "redis.managed.holds_group mget fmt k w2 f files"
    using redis.managed.store_group [OF ready assms(4-6)] unfolding c by blast
  obtain r w3 where "get_group c f w2 = Inr (Some r, w3)" "set r = set ?grp"
      "\<forall>(g, d) \<in> set files. (g, make_path m g) \<in> set r \<and> content_at w3 (make_path m g) = Some (payload d)"
    using redis.managed.read_group [OF s(3) assms(4) _ s(4)] assms(5) unfolding c by blast
  moreover have "map fst ?grp = map fst files" by (simp add: case_prod_beta comp_def)
  ultimately show ?thesis using s(1,2) by blast
qed

lemma sample_redis: "redis_laws (\<lambda>r ks. map r ks) (\<lambda>r k d. r(k \<mapsto> d))"
  by (simp add: redis_laws_def)

lemma sample_ready: "\<exists>m w. file_ready m (w :: 'r world)"
  using open_manager [where w = "sample_world [] (undefined :: 'r)", OF sample_names(1) sample_openable] by blast

theorem redis_group_round_trip_witness:
  "\<exists>m (w :: (string \<Rightarrow> data option) world) c grp w1. put_all c sample_files w = Inr (grp, w1) \<and>
     c = remote_manager \<lparr>backend = \<lparr>backend_get = redis_get (\<lambda>r ks. map r ks) ''triton:{key}:{filename}'' ''k'',
          backend_put = redis_put (\<lambda>r k d. r(k \<mapsto> d)) ''triton:{key}:{filename}'' ''k''\<rparr>,
        override_flag = False, dump_flag = False, file_cache_manager = m\<rparr>"
proof -
  obtain m and w :: "(string \<Rightarrow> data option) world" where "file_ready m w" using sample_ready by blast
  from redis_group_round_trip [OF sample_redis default_separates this sample_names(2) sample_names_in sample_names(3) refl]
  show ?thesis by blast
qed

end
