(* ===== verification/Cache_Concurrent.thy ===== *)
theory Cache_Concurrent
  imports Cache_Properties
begin

text \<open>
  Several processes that run \<open>FileCacheManager.put\<close> in one cache directory, interleaved at the calls
  to the operating system and interrupted at any of them.  \<open>put\<close> writes into a temporary directory of
  its own and renames, so that no process ever sees a part of a file; and no interleaving makes a call
  of a writer fail.
\<close>

declare split_paired_All [simp del] split_paired_Ex [simp del]

section \<open>A writer, call by call\<close>

record writer =
  target :: string
  contents :: file_text
  temp :: string

datatype stage = Start | Made | Opened | Written | Replaced | Removed | Finished | Raised | Crashed

text \<open>The calls of \<open>put\<close> in their order; \<open>os.removedirs\<close> is the removal of the temporary directory and
  the pruning of its ancestors.\<close>

fun call :: "location \<Rightarrow> writer \<Rightarrow> stage \<Rightarrow> tree \<Rightarrow> (stage \<times> tree) result" where
  "call l w Start t = bind_r (make_dirs (child l (temp w)) t) (\<lambda>t. Inr (Made, t))"
| "call l w Made t = bind_r (open_write (child (child l (temp w)) (target w)) t) (\<lambda>t. Inr (Opened, t))"
| "call l w Opened t = Inr (Written, close_write (child (child l (temp w)) (target w)) (contents w) t)"
| "call l w Written t =
     bind_r (replace (child (child l (temp w)) (target w)) (child l (target w)) t) (\<lambda>t. Inr (Replaced, t))"
| "call l w Replaced t = bind_r (remove_dir (child l (temp w)) t) (\<lambda>t. Inr (Removed, t))"
| "call l w Removed t = Inr (Finished, prune (length (snd (child l (temp w)))) l t)"
| "call l w s t = Inr (s, t)"

text \<open>The first calls of one writer that is left alone.\<close>

fun calls :: "location \<Rightarrow> writer \<Rightarrow> nat \<Rightarrow> stage \<times> tree \<Rightarrow> (stage \<times> tree) result" where
  "calls l w 0 st = Inr st"
| "calls l w (Suc n) st = bind_r (call l w (fst st) (snd st)) (calls l w n)"

definition writer_of :: "'r world \<Rightarrow> data \<Rightarrow> string \<Rightarrow> writer" where
  "writer_of w d f = \<lparr>target = f, contents = payload d, temp = temp_name w (uuid_next w)\<rparr>"

section \<open>Interleavings\<close>

text \<open>One step: a writer makes its next call, its call fails, or its process is interrupted.\<close>

inductive put_step :: "location \<Rightarrow> writer list \<Rightarrow> tree \<times> stage list \<Rightarrow> tree \<times> stage list \<Rightarrow> bool"
  for l ws where
    advance: "i < length ws \<Longrightarrow> ss ! i \<notin> {Finished, Raised, Crashed} \<Longrightarrow> call l (ws ! i) (ss ! i) t = Inr (s, t') \<Longrightarrow>
      put_step l ws (t, ss) (t', ss[i := s])"
  | fail: "i < length ws \<Longrightarrow> ss ! i \<notin> {Finished, Raised, Crashed} \<Longrightarrow> call l (ws ! i) (ss ! i) t = Inl e \<Longrightarrow>
      put_step l ws (t, ss) (t, ss[i := Raised])"
  | interrupt: "i < length ws \<Longrightarrow> ss ! i \<notin> {Finished, Raised, Crashed} \<Longrightarrow> put_step l ws (t, ss) (t, ss[i := Crashed])"

definition start :: "tree \<Rightarrow> writer list \<Rightarrow> tree \<times> stage list" where
  "start t ws = (t, replicate (length ws) Start)"

definition reaches :: "location \<Rightarrow> writer list \<Rightarrow> tree \<times> stage list \<Rightarrow> tree \<times> stage list \<Rightarrow> bool" where
  "reaches l ws = (put_step l ws)\<^sup>*\<^sup>*"

text \<open>
  What the start relies on: the directory exists, usable names hold complete files, and every writer
  has a temporary name of its own that is not in use.
\<close>

definition writers_ready :: "location \<Rightarrow> writer list \<Rightarrow> tree \<Rightarrow> bool" where
  "writers_ready l ws t \<longleftrightarrow>
     wf_tree t \<and> node_at t l = Some Dir \<and> distinct (map temp ws) \<and>
     (\<forall>f. storable f \<longrightarrow> complete_or_absent (node_at t (child l f))) \<and>
     (\<forall>w \<in> set ws. storable (target w) \<and> \<not> storable (temp w) \<and> node_at t (child l (temp w)) = None)"

section \<open>The invariant\<close>

definition only_child :: "tree \<Rightarrow> location \<Rightarrow> string \<Rightarrow> node option \<Rightarrow> bool" where
  "only_child t d f n \<longleftrightarrow> node_at t d = Some Dir \<and> (\<forall>g. node_at t (child d g) = (if g = f then n else None))"

text \<open>The temporary directory of a writer at each stage.\<close>

fun temp_ok :: "location \<Rightarrow> writer \<Rightarrow> stage \<Rightarrow> tree \<Rightarrow> bool" where
  "temp_ok l w Start t = (node_at t (child l (temp w)) = None)"
| "temp_ok l w Made t = only_child t (child l (temp w)) (target w) None"
| "temp_ok l w Opened t = only_child t (child l (temp w)) (target w) (Some (File Partial))"
| "temp_ok l w Written t = only_child t (child l (temp w)) (target w) (Some (File (Complete (contents w))))"
| "temp_ok l w Replaced t = only_child t (child l (temp w)) (target w) None"
| "temp_ok l w Removed t = (node_at t (child l (temp w)) = None)"
| "temp_ok l w Finished t = (node_at t (child l (temp w)) = None)"
| "temp_ok l w Raised t = False"
| "temp_ok l w Crashed t = True"

text \<open>After the renaming the target exists.\<close>

definition published :: "stage \<Rightarrow> bool" where
  "published s = (s \<in> {Replaced, Removed, Finished})"

definition complete :: "node option \<Rightarrow> bool" where
  "complete n = (\<exists>x. n = Some (File (Complete x)))"

definition writer_ok :: "location \<Rightarrow> writer \<Rightarrow> stage \<Rightarrow> tree \<Rightarrow> bool" where
  "writer_ok l w s t \<longleftrightarrow> temp_ok l w s t \<and> (published s \<longrightarrow> complete (node_at t (child l (target w))))"

definition dir_ok :: "location \<Rightarrow> tree \<Rightarrow> bool" where
  "dir_ok l t \<longleftrightarrow> wf_tree t \<and> node_at t l = Some Dir \<and> (\<forall>f. storable f \<longrightarrow> complete_or_absent (node_at t (child l f)))"

text \<open>The locations a writer may change, apart from its target.\<close>

definition own_temp :: "location \<Rightarrow> writer \<Rightarrow> location \<Rightarrow> bool" where
  "own_temp l w k \<longleftrightarrow> k = child l (temp w) \<or> (\<exists>g. k = child (child l (temp w)) g)"

definition call_post :: "location \<Rightarrow> writer \<Rightarrow> tree \<Rightarrow> stage \<times> tree \<Rightarrow> bool" where
  "call_post l w t st \<longleftrightarrow>
     dir_ok l (snd st) \<and> writer_ok l w (fst st) (snd st) \<and>
     (\<forall>k. \<not> own_temp l w k \<longrightarrow> k \<noteq> child l (target w) \<longrightarrow> node_at (snd st) k = node_at t k) \<and>
     node_at (snd st) (child l (target w)) \<in> {node_at t (child l (target w)), Some (File (Complete (contents w)))} \<and>
     (fst st = Replaced \<longrightarrow> node_at (snd st) (child l (target w)) = Some (File (Complete (contents w))))"

lemmas stage_defs = call_post_def dir_ok_def writer_ok_def only_child_def own_temp_def published_def complete_def

lemma no_orphans: "wf_tree t \<Longrightarrow> node_at t d = None \<Longrightarrow> node_at t (child d g) = None"
  using wf_treeD by (metis option.discI)

lemma call_start:
  assumes "dir_ok l t" "writer_ok l w Start t" "storable (target w)" "\<not> storable (temp w)"
  shows "\<exists>st. call l w Start t = Inr st \<and> call_post l w t st"
proof -
  let ?d = "child l (temp w)"
  have d: "node_at t ?d = None" "wf_tree t" "node_at t l = Some Dir" using assms by (simp_all add: stage_defs)
  have mk: "make_dirs ?d t = Inr (set_node ?d Dir t)" by (rule make_child [OF d(2,3,1)])
  have "call_post l w t (Made, set_node ?d Dir t)"
    using assms no_orphans [OF d(2,1)] make_dirs_wf [OF mk d(2)] by (auto simp: stage_defs node_at_set)
  then show ?thesis using mk by simp
qed

lemma call_made:
  assumes "dir_ok l t" "writer_ok l w Made t" "storable (target w)" "\<not> storable (temp w)"
  shows "\<exists>st. call l w Made t = Inr st \<and> call_post l w t st"
proof -
  let ?s = "child (child l (temp w)) (target w)"
  have op: "open_write ?s t = Inr (set_node ?s (File Partial) t)" using assms(2) by (simp add: stage_defs open_write_def)
  have "call_post l w t (Opened, set_node ?s (File Partial) t)"
    using assms open_write_wf [OF op] by (auto simp: stage_defs node_at_set)
  then show ?thesis using op by simp
qed

lemma call_opened:
  assumes "dir_ok l t" "writer_ok l w Opened t" "storable (target w)" "\<not> storable (temp w)"
  shows "\<exists>st. call l w Opened t = Inr st \<and> call_post l w t st"
proof -
  let ?s = "child (child l (temp w)) (target w)"
  have "wf_tree (set_node ?s (File (Complete (contents w))) t)"
    using assms(1,2) by (intro set_file_wf) (simp_all add: stage_defs)
  then have "call_post l w t (Written, close_write ?s (contents w) t)"
    using assms by (auto simp: stage_defs node_at_set close_write_def)
  then show ?thesis by simp
qed

lemma call_written:
  assumes "dir_ok l t" "writer_ok l w Written t" "storable (target w)" "\<not> storable (temp w)"
  shows "\<exists>st. call l w Written t = Inr st \<and> call_post l w t st"
proof -
  let ?s = "child (child l (temp w)) (target w)" and ?k = "child l (target w)"
  let ?t = "set_node ?k (File (Complete (contents w))) (remove_node ?s t)"
  have "complete_or_absent (node_at t ?k)" using assms(1,3) by (simp add: dir_ok_def)
  then have nd: "node_at t ?k \<noteq> Some Dir" by (auto simp: complete_or_absent_def)
  have "temp w \<noteq> target w" using assms(3,4) by metis
  then have rp: "replace ?s ?k t = Inr ?t"
    using assms(1,2) nd by (simp add: stage_defs replace_def)
  have "call_post l w t (Replaced, ?t)"
    using assms replace_wf [OF rp] \<open>temp w \<noteq> target w\<close>
    by (auto simp: stage_defs node_at_set node_at_remove complete_or_absent_def)
  then show ?thesis using rp by simp
qed

lemma empty_dir: "only_child t d f None \<Longrightarrow> is_empty_dir t d"
  unfolding is_empty_dir_iff only_child_def by (metis child_parent)

lemma call_replaced:
  assumes "dir_ok l t" "writer_ok l w Replaced t" "storable (target w)" "\<not> storable (temp w)"
  shows "\<exists>st. call l w Replaced t = Inr st \<and> call_post l w t st"
proof -
  let ?d = "child l (temp w)"
  have oc: "only_child t ?d (target w) None" using assms(2) by (simp add: writer_ok_def)
  then have rm: "remove_dir ?d t = Inr (remove_node ?d t)"
    using empty_dir [OF oc] by (simp add: remove_dir_def only_child_def)
  have "temp w \<noteq> target w" using assms(3,4) by metis
  then have "call_post l w t (Removed, remove_node ?d t)"
    using assms remove_dir_wf [OF rm] by (auto simp: stage_defs node_at_remove)
  then show ?thesis using rm by simp
qed

text \<open>The directory holds the target, so the pruning stops at once.\<close>

lemma call_removed:
  assumes "dir_ok l t" "writer_ok l w Removed t" "storable (target w)" "\<not> storable (temp w)"
  shows "\<exists>st. call l w Removed t = Inr st \<and> call_post l w t st"
proof -
  have "node_at t (child l (target w)) \<noteq> None" using assms(2) by (auto simp: writer_ok_def published_def complete_def)
  then have "\<not> is_empty_dir t l" unfolding is_empty_dir_iff by (metis child_simps(1,2))
  then have "prune n l t = t" for n by (cases n) (simp_all add: remove_dir_def)
  then show ?thesis using assms by (auto simp: stage_defs)
qed

lemma call_ok:
  assumes "dir_ok l t" "writer_ok l w s t" "storable (target w)" "\<not> storable (temp w)" "s \<notin> {Finished, Raised, Crashed}"
  shows "\<exists>st. call l w s t = Inr st \<and> call_post l w t st"
proof (cases s)
  case Start then show ?thesis using call_start assms by blast
next
  case Made then show ?thesis using call_made assms by blast
next
  case Opened then show ?thesis using call_opened assms by blast
next
  case Written then show ?thesis using call_written assms by blast
next
  case Replaced then show ?thesis using call_replaced assms by blast
next
  case Removed then show ?thesis using call_removed assms by blast
qed (use assms(5) in simp_all)

text \<open>A call of one writer leaves the others where they are.\<close>

lemma only_child_frame:
  "(\<And>k. k = d \<or> (\<exists>g. k = child d g) \<Longrightarrow> node_at t' k = node_at t k) \<Longrightarrow> only_child t' d f n = only_child t d f n"
  by (simp add: only_child_def)

lemma other_writer_ok:
  assumes "call_post l w t st" "writer_ok l v s t" "temp v \<noteq> temp w" "storable (target w)" "storable (target v)"
    "\<not> storable (temp v)" "\<not> storable (temp w)"
  shows "writer_ok l v s (snd st)"
proof -
  have n: "temp v \<noteq> target w" "target v \<noteq> temp w" using assms(4-7) by metis+
  have frame: "node_at (snd st) k = node_at t k" if "\<not> own_temp l w k" "k \<noteq> child l (target w)" for k
    using assms(1) that by (simp add: call_post_def)
  have "node_at (snd st) k = node_at t k" if "own_temp l v k" for k
    using that n(1) assms(3) by (intro frame) (auto simp: own_temp_def)
  then have "temp_ok l v s (snd st) = temp_ok l v s t"
    using only_child_frame [of "child l (temp v)" "snd st" t] by (cases s) (auto simp: own_temp_def)
  moreover have "complete (node_at (snd st) (child l (target v)))" if c: "complete (node_at t (child l (target v)))"
  proof (cases "target v = target w")
    case True
    then show ?thesis using assms(1) c by (auto simp: call_post_def complete_def)
  next
    case False
    then show ?thesis using c frame [of "child l (target v)"] n(2) by (auto simp: own_temp_def)
  qed
  ultimately show ?thesis using assms(2) by (simp add: writer_ok_def)
qed

section \<open>The invariant holds in every interleaving\<close>

text \<open>What a name may stand for: what it stood for at the start, or the text of one of its writers.\<close>

definition published_text :: "location \<Rightarrow> writer list \<Rightarrow> tree \<Rightarrow> tree \<Rightarrow> string \<Rightarrow> bool" where
  "published_text l ws t0 t f \<longleftrightarrow>
     node_at t (child l f) = node_at t0 (child l f) \<or>
     (\<exists>w \<in> set ws. target w = f \<and> node_at t (child l f) = Some (File (Complete (contents w))))"

text \<open>A name holds the text of one of its writers.\<close>

definition written :: "location \<Rightarrow> writer list \<Rightarrow> tree \<Rightarrow> string \<Rightarrow> bool" where
  "written l ws t f \<longleftrightarrow> (\<exists>w \<in> set ws. target w = f \<and> node_at t (child l f) = Some (File (Complete (contents w))))"

definition put_inv :: "location \<Rightarrow> writer list \<Rightarrow> tree \<Rightarrow> tree \<times> stage list \<Rightarrow> bool" where
  "put_inv l ws t0 c \<longleftrightarrow>
     dir_ok l (fst c) \<and> length (snd c) = length ws \<and>
     (\<forall>i < length ws. writer_ok l (ws ! i) (snd c ! i) (fst c)) \<and>
     (\<forall>i < length ws. published (snd c ! i) \<longrightarrow> written l ws (fst c) (target (ws ! i))) \<and>
     (\<forall>f. storable f \<longrightarrow> published_text l ws t0 (fst c) f)"

lemma put_inv_start: "writers_ready l ws t \<Longrightarrow> put_inv l ws t (start t ws)"
  by (auto simp: put_inv_def start_def writers_ready_def dir_ok_def writer_ok_def published_text_def published_def)

lemma ready_writer:
  assumes "writers_ready l ws t" "i < length ws"
  shows "storable (target (ws ! i))" "\<not> storable (temp (ws ! i))"
    "j < length ws \<Longrightarrow> j \<noteq> i \<Longrightarrow> temp (ws ! j) \<noteq> temp (ws ! i)"
  using assms by (auto simp: writers_ready_def distinct_conv_nth)

text \<open>A name keeps the text of one of its writers, whichever writer goes on; and the renaming puts one there.\<close>

lemma written_kept:
  assumes "call_post l w t st" "w \<in> set ws" "storable f" "\<not> storable (temp w)" "written l ws t f"
  shows "written l ws (snd st) f"
proof (cases "f = target w")
  case True
  then show ?thesis using assms(1,2,5) by (auto simp: call_post_def written_def)
next
  case False
  moreover have "f \<noteq> temp w" using assms(3,4) by metis
  ultimately have "node_at (snd st) (child l f) = node_at t (child l f)"
    using assms(1) by (auto simp: call_post_def own_temp_def)
  then show ?thesis using assms(5) by (simp add: written_def)
qed

lemma published_step:
  assumes "call l w s t = Inr st" "call_post l w t st" "published (fst st)" "w \<in> set ws" "s \<notin> {Finished, Raised, Crashed}"
  shows "published s \<or> written l ws (snd st) (target w)"
proof (cases "fst st = Replaced")
  case True
  then show ?thesis using assms(2,4) by (auto simp: call_post_def written_def)
next
  case False
  then show ?thesis using assms(1,3,5) by (cases s) (auto simp: published_def bind_r_eq_Inr_iff)
qed

lemma put_inv_advance:
  assumes r: "writers_ready l ws t0" and v: "put_inv l ws t0 (t, ss)" and i: "i < length ws"
    and a: "ss ! i \<notin> {Finished, Raised, Crashed}"
  shows "\<exists>s t'. call l (ws ! i) (ss ! i) t = Inr (s, t') \<and> put_inv l ws t0 (t', ss[i := s])"
proof -
  let ?w = "ws ! i"
  have d: "dir_ok l t" "length ss = length ws" "\<And>j. j < length ws \<Longrightarrow> writer_ok l (ws ! j) (ss ! j) t"
    "\<And>f. storable f \<Longrightarrow> published_text l ws t0 t f"
    "\<And>j. j < length ws \<Longrightarrow> published (ss ! j) \<Longrightarrow> written l ws t (target (ws ! j))"
    using v by (simp_all add: put_inv_def)
  obtain s t' where c: "call l ?w (ss ! i) t = Inr (s, t')" and p: "call_post l ?w t (s, t')"
    using call_ok [OF d(1) d(3) [OF i] ready_writer(1,2) [OF r i] a] by auto
  have "writer_ok l (ws ! j) (ss[i := s] ! j) t'" if j: "j < length ws" for j
  proof (cases "j = i")
    case True
    then show ?thesis using p i d(2) by (simp add: call_post_def)
  next
    case False
    have "writer_ok l (ws ! j) (ss ! j) (snd (s, t'))"
      by (rule other_writer_ok [OF p d(3) [OF j] ready_writer(3) [OF r i j False]])
        (simp_all add: ready_writer [OF r] i j)
    then show ?thesis using False by simp
  qed
  moreover have "published_text l ws t0 t' f" if f: "storable f" for f
  proof (cases "f = target ?w")
    case True
    then show ?thesis
      using p d(4) [OF f] nth_mem [OF i] by (auto simp: call_post_def published_text_def)
  next
    case False
    moreover have "f \<noteq> temp ?w" using f ready_writer(2) [OF r i] by metis
    ultimately have "node_at t' (child l f) = node_at t (child l f)"
      using p by (auto simp: call_post_def own_temp_def)
    then show ?thesis using d(4) [OF f] by (simp add: published_text_def)
  qed
  moreover have "written l ws t' (target (ws ! j))" if j: "j < length ws" "published (ss[i := s] ! j)" for j
  proof -
    have kept: "written l ws t' (target (ws ! j))" if "published (ss ! j)"
      using written_kept [OF p nth_mem [OF i] ready_writer(1) [OF r j(1)] ready_writer(2) [OF r i] d(5) [OF j(1) that]] by simp
    show ?thesis
    proof (cases "j = i")
      case True
      then have "published (fst (s, t'))" using j d(2) by simp
      from published_step [OF c p this nth_mem [OF i] a] show ?thesis using kept True by auto
    qed (use j kept in simp)
  qed
  ultimately show ?thesis using c p d(2) by (auto simp: put_inv_def call_post_def)
qed

lemma put_inv_step:
  assumes "put_step l ws c c'" "writers_ready l ws t0" "put_inv l ws t0 c"
  shows "put_inv l ws t0 c'"
  using assms(1)
proof (cases rule: put_step.cases)
  case (advance i ss t s t')
  then show ?thesis using put_inv_advance [OF assms(2), of t ss i] assms(3) by auto
next
  case (fail i ss t e)
  then show ?thesis using put_inv_advance [OF assms(2), of t ss i] assms(3) by auto
next
  case (interrupt i ss t)
  have "writer_ok l w Crashed t" "\<not> published Crashed" for w by (simp_all add: writer_ok_def published_def)
  then show ?thesis using interrupt assms(3) by (auto simp: put_inv_def nth_list_update)
qed

lemma put_inv_reaches:
  assumes "writers_ready l ws t" "reaches l ws (start t ws) c"
  shows "put_inv l ws t c"
  using assms(2) unfolding reaches_def
  by (induction rule: rtranclp_induct) (auto intro: put_inv_start assms(1) put_inv_step)

section \<open>Every step makes progress\<close>

fun weight :: "stage \<Rightarrow> nat" where
  "weight Start = 6" | "weight Made = 5" | "weight Opened = 4" | "weight Written = 3" | "weight Replaced = 2"
| "weight Removed = 1" | "weight _ = 0"

definition total_weight :: "stage list \<Rightarrow> nat" where
  "total_weight ss = sum_list (map weight ss)"

lemma call_weight:
  "call l w s t = Inr (s', t') \<Longrightarrow> s \<notin> {Finished, Raised, Crashed} \<Longrightarrow> weight s' < weight s"
  by (cases s) (auto simp: bind_r_eq_Inr_iff)

lemma active_weight: "s \<noteq> Finished \<Longrightarrow> s \<noteq> Raised \<Longrightarrow> s \<noteq> Crashed \<Longrightarrow> 0 < weight s"
  by (cases s) auto

lemma total_weight_update:
  assumes "i < length ss" "weight s < weight (ss ! i)"
  shows "total_weight (ss[i := s]) < total_weight ss"
proof -
  have "weight (ss ! i) \<le> total_weight ss"
    unfolding total_weight_def using assms(1) by (intro member_le_sum_list) simp_all
  then show ?thesis using assms by (simp add: total_weight_def map_update sum_list_update)
qed

lemma put_step_weight:
  assumes "put_step l ws c c'" "length (snd c) = length ws"
  shows "length (snd c') = length ws \<and> total_weight (snd c') < total_weight (snd c)"
  using assms
  by (cases rule: put_step.cases) (auto intro!: total_weight_update active_weight dest: call_weight)

section \<open>Properties\<close>

text \<open>C21: whatever the interleaving of several \<open>put\<close> calls in one directory, and wherever their processes
  are interrupted, a reader finds under every usable name what was there before or the whole text of
  one of the calls that write that name.\<close>

theorem readers_see_whole_files:
  assumes "writers_ready l ws t" "reaches l ws (start t ws) (t', ss)" "storable f"
  shows "node_at t' (child l f) = node_at t (child l f) \<or>
     (\<exists>w \<in> set ws. target w = f \<and> node_at t' (child l f) = Some (File (Complete (contents w))))"
  using put_inv_reaches [OF assms(1,2)] assms(3) by (simp add: put_inv_def published_text_def)

text \<open>C22: no call of \<open>put\<close> fails because of the other processes; a writer that has not finished can go
  on; once a writer has made its renaming, the name it writes holds the whole text of one of the writers of that name, also when
  other writers are interrupted; and a writer that has finished has left no temporary directory.\<close>

theorem writers_never_fail:
  assumes "writers_ready l ws t" "reaches l ws (start t ws) (t', ss)"
  shows "Raised \<notin> set ss \<and>
     (\<forall>i < length ws. ss ! i \<notin> {Finished, Crashed} \<longrightarrow> (\<exists>s t''. call l (ws ! i) (ss ! i) t' = Inr (s, t''))) \<and>
     (\<forall>i < length ws. ss ! i \<in> {Replaced, Removed, Finished} \<longrightarrow>
        (\<exists>w \<in> set ws. target w = target (ws ! i) \<and>
           node_at t' (child l (target (ws ! i))) = Some (File (Complete (contents w))))) \<and>
     (\<forall>i < length ws. ss ! i = Finished \<longrightarrow> node_at t' (child l (temp (ws ! i))) = None)"
proof -
  have v: "put_inv l ws t (t', ss)" by (rule put_inv_reaches [OF assms])
  then have w: "writer_ok l (ws ! i) (ss ! i) t'"
    and p: "published (ss ! i) \<Longrightarrow> written l ws t' (target (ws ! i))" if "i < length ws" for i
    using that by (simp_all add: put_inv_def)
  have len: "length ss = length ws" using v by (simp add: put_inv_def)
  have nr: "ss ! i \<noteq> Raised" if "i < length ws" for i using w [OF that] by (auto simp: writer_ok_def)
  then have "Raised \<notin> set ss" using len by (auto simp: in_set_conv_nth)
  moreover have "\<exists>s t''. call l (ws ! i) (ss ! i) t' = Inr (s, t'')"
    if "i < length ws" "ss ! i \<notin> {Finished, Crashed}" for i
    using put_inv_advance [OF assms(1) v that(1)] nr that by blast
  moreover have "node_at t' (child l (temp (ws ! i))) = None" if "i < length ws" "ss ! i = Finished" for i
    using w [OF that(1)] that(2) by (simp add: writer_ok_def)
  ultimately show ?thesis using p by (simp add: published_def written_def)
qed

text \<open>Every interleaving comes to an end: no more than six calls per writer are made.\<close>

lemma puts_terminate:
  assumes "(put_step l ws ^^ n) (start t ws) c"
  shows "n \<le> 6 * length ws"
proof -
  have "length (snd c) = length ws \<and> total_weight (snd c) + n \<le> 6 * length ws"
    using assms
  proof (induction n arbitrary: c)
    case 0
    then show ?case by (auto simp: start_def total_weight_def sum_list_replicate)
  next
    case (Suc n)
    then obtain c' where c': "(put_step l ws ^^ n) (start t ws) c'" "put_step l ws c' c" by auto
    then show ?case using Suc.IH [OF c'(1)] put_step_weight [OF c'(2)] by simp
  qed
  then show ?thesis by simp
qed

text \<open>The calls of \<open>put\<close> in the interleaved model are those of the whole function.\<close>

lemma put_is_calls:
  assumes "file_ready m w" "storable f"
  shows "(case file_put m d f w of Inl e \<Rightarrow> Inl e | Inr (p, w') \<Rightarrow> Inr (nodes w')) =
    bind_r (calls (cache_loc m) (writer_of w d f) 6 (Start, nodes w)) (\<lambda>(s, t). Inr t)"
proof -
  let ?tmp = "temp_name w (uuid_next w)"
  have m: "cache_dir m \<noteq> []" "lock_path m \<noteq> None" and t: "plain_name ?tmp" and f: "plain_name f"
    using assms by (simp_all add: file_ready_def storable_def)
  have loc: "locate (path_join (cache_dir m) ?tmp) = child (cache_loc m) ?tmp" "locate (make_path m f) = child (cache_loc m) f"
    "locate (path_join (path_join (cache_dir m) ?tmp) f) = child (child (cache_loc m) ?tmp) f"
    using locate_join [OF t m(1)] locate_join [OF f m(1)] locate_join [OF f join_not_Nil [OF t]]
    by (simp_all add: make_path_def cache_loc_def)
  have b: "bind (on_tree g) h w = (case g (nodes w) of Inl e \<Rightarrow> Inl e | Inr t \<Rightarrow> h () (w\<lparr>nodes := t\<rparr>))" for g h and w :: "'a world"
    by (simp add: bind_def on_tree_def split: sum.split)
  have six: "(6::nat) = Suc (Suc (Suc (Suc (Suc (Suc 0)))))" by simp
  show ?thesis
    using m loc
    by (simp add: file_put_def bind_run [of get_s] bind_run [of uuid4] world_runs basic_runs b Let_def writer_of_def temp_name_def
        six remove_dirs_def bind_r_def split: sum.split)
qed

lemma calls_finish: "calls l w 6 (Start, t) = Inr (s, t') \<Longrightarrow> s = Finished"
  by (auto simp: eval_nat_numeral bind_r_eq_Inr_iff)

text \<open>C23: \<open>put\<close> of a usable name, in a process that is left alone with a cache directory that exists and holds complete files under
  usable names, and with identifiers not used before, returns the path of the name; afterwards the name holds exactly the text given, whatever it held before, and every other location of the file system
  is as it was: the temporary directory is gone, and the cache directory and those above it are not pruned.  In
  the interleaved model the same call runs from the start to the end and leaves the same tree.\<close>

theorem put_alone_writes_one_file:
  assumes "file_ready m w" "storable f"
  shows "\<exists>w'. file_put m d f w = Inr (make_path m f, w') \<and> locate (make_path m f) = child (cache_loc m) f \<and>
    (\<forall>k. node_at (nodes w') k = (if k = child (cache_loc m) f then Some (File (Complete (payload d))) else node_at (nodes w) k)) \<and>
    calls (cache_loc m) (writer_of w d f) 6 (Start, nodes w) = Inr (Finished, nodes w')"
proof -
  obtain w' where w': "file_put m d f w = Inr (make_path m f, w')"
    "\<And>k. node_at (nodes w') k = (if k = child (cache_loc m) f then Some (File (Complete (payload d))) else node_at (nodes w) k)"
    using file_put_run [OF assms, of d] by auto
  then have "bind_r (calls (cache_loc m) (writer_of w d f) 6 (Start, nodes w)) (\<lambda>(s, t). Inr t) = Inr (nodes w')"
    using put_is_calls [OF assms, of d] by simp
  then have "calls (cache_loc m) (writer_of w d f) 6 (Start, nodes w) = Inr (Finished, nodes w')"
    by (auto simp: bind_r_eq_Inr_iff dest: calls_finish)
  moreover have "locate (make_path m f) = child (cache_loc m) f"
    using assms by (intro make_path_child) (simp_all add: file_ready_def)
  ultimately show ?thesis using w' by blast
qed

theorem put_alone_writes_one_file_witness:
  "\<exists>m (w :: unit world) w'. file_put m (Str (Plain ''one'')) ''add.ttir'' w = Inr (make_path m ''add.ttir'', w') \<and>
     node_at (nodes w') (child (cache_loc m) ''add.ttir'') = Some (File (Complete (Plain ''one'')))"
proof -
  have "storable ''add.ttir''" by code_simp
  moreover obtain m and w :: "unit world" where "file_ready m w" using sample_ready by blast
  ultimately obtain w' where r: "file_put m (Str (Plain ''one'')) ''add.ttir'' w = Inr (make_path m ''add.ttir'', w')"
    "\<forall>k. node_at (nodes w') k = (if k = child (cache_loc m) ''add.ttir''
       then Some (File (Complete (payload (Str (Plain ''one''))))) else node_at (nodes w) k)"
    using put_alone_writes_one_file by blast
  from r(2) have "node_at (nodes w') (child (cache_loc m) ''add.ttir'') = Some (File (Complete (Plain ''one'')))" by simp
  with r(1) show ?thesis by blast
qed

section \<open>A concrete race\<close>

definition race :: "writer list" where
  "race = [\<lparr>target = ''add.ttir'', contents = Plain ''one'', temp = ''tmp.pid_7_a''\<rparr>,
     \<lparr>target = ''add.ttir'', contents = Plain ''two'', temp = ''tmp.pid_8_b''\<rparr>]"

lemma race_ready: "writers_ready (True, [''c'']) race [((True, [''c'']), Dir)]"
proof -
  have "storable ''add.ttir''" "\<not> storable ''tmp.pid_7_a''" "\<not> storable ''tmp.pid_8_b''" by code_simp+
  moreover have "wf_tree [((True, [''c'']), Dir)]"
    by (auto simp: wf_tree_def node_at_def parent_def)
  ultimately show ?thesis
    by (simp add: writers_ready_def race_def node_at_def child_def complete_or_absent_def)
qed

text \<open>A schedule names the writer that makes each call.\<close>

definition next_call :: "location \<Rightarrow> writer list \<Rightarrow> nat \<Rightarrow> tree \<times> stage list \<Rightarrow> tree \<times> stage list" where
  "next_call l ws i c =
     (if i < length ws \<and> snd c ! i \<notin> {Finished, Raised, Crashed} then
        case call l (ws ! i) (snd c ! i) (fst c) of
          Inl e \<Rightarrow> (fst c, (snd c)[i := Raised])
        | Inr (s, t) \<Rightarrow> (t, (snd c)[i := s])
      else c)"

lemma next_call_steps: "reaches l ws c (next_call l ws i c)"
  unfolding reaches_def next_call_def
  by (cases c) (auto split: sum.split intro!: r_into_rtranclp intro: put_step.intros)

lemma schedule_reaches: "reaches l ws c (fold (next_call l ws) is c)"
proof (induction "is" arbitrary: c)
  case (Cons i "is")
  from next_call_steps [of l ws c i] Cons.IH [of "next_call l ws i c"] show ?case
    unfolding reaches_def by (simp add: rtranclp_trans)
qed (simp add: reaches_def)

definition race_end :: "tree \<times> stage list" where
  "race_end = fold (next_call (True, [''c'']) race) [0, 1, 1, 0, 1, 0, 1, 0, 1, 0, 1, 0] (start [((True, [''c'']), Dir)] race)"

lemma race_end_value:
  "snd race_end = [Finished, Finished]"
  "node_at (fst race_end) (child (True, [''c'']) ''add.ttir'') = Some (File (Complete (Plain ''one'')))"
  by code_simp+

lemma race_reached: "reaches (True, [''c'']) race (start [((True, [''c'']), Dir)] race) (fst race_end, snd race_end)"
  unfolding race_end_def prod.collapse by (rule schedule_reaches)

theorem readers_see_whole_files_witness:
  "node_at (fst race_end) (child (True, [''c'']) ''add.ttir'') \<noteq> Some (File Partial)"
proof -
  have "storable ''add.ttir''" by code_simp
  from readers_see_whole_files [OF race_ready race_reached this] show ?thesis
    by (auto simp: node_at_def child_def)
qed

theorem writers_never_fail_witness:
  "Raised \<notin> set (snd race_end) \<and>
   (\<exists>w \<in> set race. node_at (fst race_end) (child (True, [''c'']) ''add.ttir'') = Some (File (Complete (contents w))))"
proof -
  note all = writers_never_fail [OF race_ready race_reached]
  have "0 < length race" "snd race_end ! 0 \<in> {Replaced, Removed, Finished}" by (simp_all add: race_def race_end_value(1))
  then have "\<exists>w \<in> set race. target w = target (race ! 0) \<and>
      node_at (fst race_end) (child (True, [''c'']) (target (race ! 0))) = Some (File (Complete (contents w)))"
    using all by blast
  moreover have "target (race ! 0) = ''add.ttir''" by (simp add: race_def)
  ultimately show ?thesis using all by metis
qed

end
