(* ===== verification/Compile.thy ===== *)
theory Compile
  imports Cache_Properties
begin

text \<open>
  The driver of a compilation, \<open>compile\<close> of \<open>python/triton/compiler/compiler.py\<close>: the key, the cache
  lookup, the stages of the backend with the override and dump directories, the retry on the CPU, the
  metadata and the group written back, and the kernel object made from the cached files.  Backends,
  IR modules, the digest and the parsing of IR files are parameters.  Printed messages and timings are
  left out.
\<close>

section \<open>Targets, backends and sources\<close>

record target =
  tbackend :: string
  arch :: json
  warp_size :: int

text \<open>What a stage does: the next module and the updated metadata, a request to fall back to the CPU, or
  another exception.\<close>

datatype 'm stage_outcome = Next 'm "json dict" | Fallback | Fails py_error

record ('m, 'o) backend_object =
  parse_options :: "json dict \<Rightarrow> 'o result"
  backend_hash :: string
  options_hash :: "'o \<Rightarrow> string"
  options_dict :: "'o \<Rightarrow> json dict"
  stages :: "'o \<Rightarrow> ('m \<Rightarrow> json dict \<Rightarrow> 'm stage_outcome) dict"
  pack_metadata :: "json dict \<Rightarrow> json list result"
  binary_ext :: string

record ('m, 'o) source =
  src_ext :: string
  src_name :: string
  src_hash :: string
  src_options :: "json dict result"
  make_ir :: "'o \<Rightarrow> 'm result"

text \<open>The argument of \<open>compile\<close>: a kernel, or the path of an IR file.\<close>

datatype ('m, 'o) src_arg = ASTSource "('m, 'o) source" | IRPath string

text \<open>The entries of \<open>backends\<close>: whether the backend supports a target, and its constructor.\<close>

record ('m, 'o) backend_class =
  supports_target :: "target \<Rightarrow> bool"
  make_compiler :: "target \<Rightarrow> ('m, 'o) backend_object"

text \<open>
  The rest of the program: \<open>triton_key\<close> and the environment variables that invalidate the cache, their
  printed form, the digest, the managers, \<open>IRSource\<close>, the text of a module, \<open>parse\<close> of an overriding file
  and \<open>create_location_snapshot\<close>, and the two readers of files.
\<close>

record ('s, 'm, 'o) compile_env =
  backends :: "('m, 'o) backend_class dict"
  triton_key :: string
  env_vars :: "string dict"
  print_env :: "string dict \<Rightarrow> string"
  sha256 :: "string \<Rightarrow> string"
  getenv_op :: "string \<Rightarrow> ('s, string option) M"
  cache_manager_op :: "string \<Rightarrow> ('s, 's cache_manager) M"
  override_manager_op :: "string \<Rightarrow> ('s, 's cache_manager) M"
  dump_manager_op :: "string \<Rightarrow> ('s, 's cache_manager) M"
  load_ir :: "string \<Rightarrow> ('s, ('m, 'o) source) M"
  module_data :: "'m \<Rightarrow> data"
  parse_op :: "string \<Rightarrow> string \<Rightarrow> ('s, 'm) M"
  snapshot :: "'m \<Rightarrow> string option \<Rightarrow> 'm"
  read_op :: "string \<Rightarrow> ('s, content) M"
  json_op :: "string \<Rightarrow> ('s, json) M"

text \<open>The state: that of the cache, the attribute \<open>_fallback_attempted\<close> of \<open>compile\<close>, the active target and
  the dictionary of backend instances.\<close>

type_synonym target_key = "string \<times> json \<times> int"

record ('s, 'm, 'o) compile_state =
  cache_state :: 's
  fallback_attempted :: bool
  active_target :: target
  make_backend_cache :: "(target_key \<times> ('m, 'o) backend_object) list"

definition in_cache :: "('s, 'a) M \<Rightarrow> (('s, 'm, 'o) compile_state, 'a) M" where
  "in_cache f = (\<lambda>s. case f (cache_state s) of Inl e \<Rightarrow> Inl e | Inr (x, c) \<Rightarrow> Inr (x, s\<lparr>cache_state := c\<rparr>))"

definition flag_set :: "('s, 'm, 'o) compile_env \<Rightarrow> string \<Rightarrow> (('s, 'm, 'o) compile_state, bool) M" where
  "flag_set env v = bind (in_cache (getenv_op env v)) (\<lambda>x. return (x = Some ''1''))"

section \<open>make_backend\<close>

definition make_backend :: "('s, 'm, 'o) compile_env \<Rightarrow> target \<Rightarrow> (('s, 'm, 'o) compile_state, ('m, 'o) backend_object) M" where
  "make_backend env tg =
     (let cache_key = (tbackend tg, arch tg, warp_size tg) in
      bind get_s (\<lambda>s.
      case map_of (make_backend_cache s) cache_key of
        Some cached \<Rightarrow> return cached
      | None \<Rightarrow>
          bind (if tbackend tg = ''cpu'' then
                  bind (flag_set env ''TRITON_USE_SHARED_BACKEND'') (\<lambda>shared.
                  case map_of (backends env) (if shared then ''triton_shared'' else ''cpu'') of
                    None \<Rightarrow> raise KeyError
                  | Some cls \<Rightarrow> return (make_compiler cls tg))
                else
                  (case [cls \<leftarrow> map snd (backends env). supports_target cls tg] of
                     [cls] \<Rightarrow> return (make_compiler cls tg)
                   | _ \<Rightarrow> raise RuntimeError)) (\<lambda>bk.
          bind get_s (\<lambda>s.
          bind (put_s (s\<lparr>make_backend_cache := AList.update cache_key bk (make_backend_cache s)\<rparr>)) (\<lambda>_.
          return bk)))))"

section \<open>The kernel object\<close>

record compiled_kernel =
  kernel_metadata :: "json dict"
  packed_metadata :: "json list"
  kernel_hash :: string
  asm :: "content dict"
  kernel :: content

definition ends_with :: "string \<Rightarrow> string \<Rightarrow> bool" where
  "ends_with suf s = (length suf \<le> length s \<and> drop (length s - length suf) s = suf)"

text \<open>\<open>Path(p).suffix[1:]\<close>: what follows the last dot of the last component, if the dot is neither its first
  nor its last character.\<close>

definition path_suffix :: "string \<Rightarrow> string" where
  "path_suffix p =
     (let name = last ([] # [c \<leftarrow> split_path p. c \<noteq> [] \<and> c \<noteq> ''.'']);
          ext = rev (takeWhile (\<lambda>c. c \<noteq> CHR ''.'') (rev name));
          stem = take (length name - Suc (length ext)) name
      in if CHR ''.'' \<in> set name \<and> stem \<noteq> [] \<and> ext \<noteq> [] then ext else [])"

fun read_asm :: "('s, 'm, 'o) compile_env \<Rightarrow> string list \<Rightarrow> content dict \<Rightarrow> (('s, 'm, 'o) compile_state, content dict) M" where
  "read_asm env [] a = return a"
| "read_asm env (p # ps) a =
     bind (in_cache (read_op env p)) (\<lambda>c. read_asm env ps (AList.update (path_suffix p) c a))"

text \<open>The target in the metadata: \<open>GPUTarget(t['backend'], t['arch'], t['warp_size'])\<close>.\<close>

fun json_target :: "json \<Rightarrow> target result" where
  "json_target (JObj t) =
     (case (map_of t ''backend'', map_of t ''arch'', map_of t ''warp_size'') of
        (Some (JStr b), Some a, Some (JNum w)) \<Rightarrow> Inr \<lparr>tbackend = b, arch = a, warp_size = w\<rparr>
      | _ \<Rightarrow> Inl KeyError)"
| "json_target _ = Inl TypeError"

definition json_paths :: "string dict \<Rightarrow> string list" where
  "json_paths g = map snd (filter (\<lambda>(c, p). ends_with ''.json'' c) g)"

definition asm_paths :: "string dict \<Rightarrow> string list" where
  "asm_paths g = map snd (filter (\<lambda>(c, p). \<not> ends_with ''.json'' c) g)"

definition kernel_of_metadata ::
  "('s, 'm, 'o) compile_env \<Rightarrow> string dict \<Rightarrow> string \<Rightarrow> json dict \<Rightarrow> (('s, 'm, 'o) compile_state, compiled_kernel) M" where
  "kernel_of_metadata env metadata_group hash metadata =
     bind (check (map_of metadata ''cluster_dims'' \<noteq> None) KeyError) (\<lambda>_.
     bind (lift_r (case map_of metadata ''target'' of None \<Rightarrow> Inl KeyError | Some t \<Rightarrow> json_target t)) (\<lambda>tg.
     bind (make_backend env tg) (\<lambda>bk.
     bind (lift_r (pack_metadata bk metadata)) (\<lambda>packed.
     bind (check (map_of metadata ''name'' \<noteq> None) AttributeError) (\<lambda>_.
     bind (read_asm env (asm_paths metadata_group) []) (\<lambda>a.
     bind (lift_r (case map_of a (binary_ext bk) of None \<Rightarrow> Inl KeyError | Some k \<Rightarrow> Inr k)) (\<lambda>k.
     return \<lparr>kernel_metadata = metadata, packed_metadata = packed, kernel_hash = hash, asm = a, kernel = k\<rparr>)))))))"

definition compiled_kernel_init ::
  "('s, 'm, 'o) compile_env \<Rightarrow> string dict \<Rightarrow> string \<Rightarrow> (('s, 'm, 'o) compile_state, compiled_kernel) M" where
  "compiled_kernel_init env metadata_group hash =
     bind (lift_r (case json_paths metadata_group of [] \<Rightarrow> Inl OtherException | p # _ \<Rightarrow> Inr p)) (\<lambda>metadata_path.
     bind (in_cache (json_op env metadata_path)) (\<lambda>j.
     bind (lift_r (json_items j)) (\<lambda>metadata. kernel_of_metadata env metadata_group hash metadata)))"

section \<open>compile\<close>

definition json_of_target :: "target \<Rightarrow> json" where
  "json_of_target tg = JObj [(''backend'', JStr (tbackend tg)), (''arch'', arch tg), (''warp_size'', JNum (warp_size tg))]"

definition merge_dict :: "'v dict \<Rightarrow> 'v dict \<Rightarrow> 'v dict" where
  "merge_dict a b = fold (\<lambda>(k, v). AList.update k v) b a"

definition initial_metadata :: "string \<Rightarrow> target \<Rightarrow> json dict \<Rightarrow> string dict \<Rightarrow> json dict" where
  "initial_metadata hash tg opts vars =
     merge_dict (merge_dict [(''hash'', JStr hash), (''target'', json_of_target tg)] opts) (map (\<lambda>(k, v). (k, JStr v)) vars)"

text \<open>The loop over the stages; \<open>None\<close> is the request to fall back.\<close>

fun run_stages ::
  "('s, 'm, 'o) compile_env \<Rightarrow> 's cache_manager \<Rightarrow> 's cache_manager option \<Rightarrow> 's cache_manager option \<Rightarrow> string option \<Rightarrow>
     string \<Rightarrow> ('m \<Rightarrow> json dict \<Rightarrow> 'm stage_outcome) dict \<Rightarrow> 'm \<Rightarrow> json dict \<Rightarrow> string dict \<Rightarrow>
     (('s, 'm, 'o) compile_state, (json dict \<times> string dict) option) M" where
  "run_stages env fn_cache fn_override fn_dump use_ir_loc file_name [] md metadata metadata_group =
     return (Some (metadata, metadata_group))"
| "run_stages env fn_cache fn_override fn_dump use_ir_loc file_name ((ext, compile_ir) # rest) md metadata metadata_group =
     (case compile_ir md metadata of
        Fails e \<Rightarrow> raise e
      | Fallback \<Rightarrow> return None
      | Next next_mod metadata \<Rightarrow>
          let ir_filename = file_name @ ''.'' @ ext in
          bind (case fn_override of
                  None \<Rightarrow> return next_mod
                | Some om \<Rightarrow>
                    bind (in_cache (get_file om ir_filename)) (\<lambda>full_name.
                    case full_name of None \<Rightarrow> return next_mod | Some n \<Rightarrow> in_cache (parse_op env n ext))) (\<lambda>next_mod.
          bind (in_cache (put fn_cache (module_data env next_mod) ir_filename)) (\<lambda>p.
          let metadata_group = AList.update ir_filename p metadata_group in
          bind (case fn_dump of
                  None \<Rightarrow> return ()
                | Some dm \<Rightarrow> bind (in_cache (put dm (module_data env next_mod) ir_filename)) (\<lambda>_. return ())) (\<lambda>_.
          bind (if use_ir_loc = Some ext then
                  bind (in_cache (get_file fn_cache ir_filename)) (\<lambda>n. return (snapshot env next_mod n))
                else return next_mod) (\<lambda>next_mod.
          run_stages env fn_cache fn_override fn_dump use_ir_loc file_name rest next_mod metadata metadata_group)))))"

fun index_in :: "string \<Rightarrow> string list \<Rightarrow> nat result" where
  "index_in x [] = Inl ValueError"
| "index_in x (y # ys) = (if x = y then Inr 0 else bind_r (index_in x ys) (\<lambda>n. Inr (Suc n)))"

text \<open>The digest that names the cache entry.\<close>

definition compile_key ::
  "('s, 'm, 'o) compile_env \<Rightarrow> ('m, 'o) backend_object \<Rightarrow> ('m, 'o) source \<Rightarrow> 'o \<Rightarrow> string" where
  "compile_key env bk src opts =
     sha256 env (triton_key env @ ''-'' @ src_hash src @ ''-'' @ backend_hash bk @ ''-'' @ options_hash bk opts @ ''-'' @
       print_env env (env_vars env))"

text \<open>A compilation that is not in the cache: the kernel, or a request to fall back.\<close>

definition build ::
  "('s, 'm, 'o) compile_env \<Rightarrow> bool \<Rightarrow> target \<Rightarrow> ('m, 'o) backend_object \<Rightarrow> ('m, 'o) source \<Rightarrow> 'o \<Rightarrow> string \<Rightarrow> 's cache_manager \<Rightarrow>
     's cache_manager option \<Rightarrow> 's cache_manager option \<Rightarrow> string \<Rightarrow> string dict \<Rightarrow>
     (('s, 'm, 'o) compile_state, compiled_kernel option) M" where
  "build env ir_source tg bk src opts hash fn_cache fn_override fn_dump file_name metadata_group =
     (let metadata = initial_metadata hash tg (options_dict bk opts) (env_vars env);
          metadata_filename = file_name @ ''.json'' in
      bind (lift_r (index_in (src_ext src) (map fst (stages bk opts)))) (\<lambda>i.
      let first_stage = (if ir_source then Suc i else i) in
      bind (lift_r (make_ir src opts)) (\<lambda>md.
      bind (in_cache (getenv_op env ''USE_IR_LOC'')) (\<lambda>use_ir_loc.
      bind (run_stages env fn_cache fn_override fn_dump use_ir_loc file_name (drop first_stage (stages bk opts)) md
              metadata metadata_group) (\<lambda>r.
      case r of
        None \<Rightarrow> return None
      | Some (metadata, metadata_group) \<Rightarrow>
          bind (in_cache (put fn_cache (Str (Printed (JObj metadata))) metadata_filename)) (\<lambda>p.
          let metadata_group = AList.update metadata_filename p metadata_group in
          bind (in_cache (put_group fn_cache metadata_filename metadata_group)) (\<lambda>_.
          bind (compiled_kernel_init env metadata_group hash) (\<lambda>k.
          return (Some k)))))))))"

definition optional_manager :: "bool \<Rightarrow> ('s, 's cache_manager) M \<Rightarrow> (('s, 'm, 'o) compile_state, 's cache_manager option) M" where
  "optional_manager enabled mgr = (if enabled then bind (in_cache mgr) (\<lambda>m. return (Some m)) else return None)"

definition compile_step ::
  "('s, 'm, 'o) compile_env \<Rightarrow> ('m, 'o) src_arg \<Rightarrow> target option \<Rightarrow> json dict \<Rightarrow>
     (('s, 'm, 'o) compile_state, compiled_kernel option) M" where
  "compile_step env src tg options =
     bind get_s (\<lambda>s.
     let tg = (case tg of None \<Rightarrow> active_target s | Some t \<Rightarrow> t) in
     bind (make_backend env tg) (\<lambda>bk.
     let ir_source = (case src of ASTSource _ \<Rightarrow> False | IRPath _ \<Rightarrow> True) in
     bind (case src of ASTSource x \<Rightarrow> return x | IRPath p \<Rightarrow> in_cache (load_ir env p)) (\<lambda>src.
     bind (lift_r (src_options src)) (\<lambda>extra_options.
     bind (lift_r (parse_options bk (merge_dict options extra_options))) (\<lambda>opts.
     let hash = compile_key env bk src opts in
     bind (in_cache (cache_manager_op env hash)) (\<lambda>fn_cache.
     bind (flag_set env ''TRITON_KERNEL_OVERRIDE'') (\<lambda>enable_override.
     bind (flag_set env ''TRITON_KERNEL_DUMP'') (\<lambda>enable_ir_dump.
     bind (optional_manager enable_override (override_manager_op env (src_hash src))) (\<lambda>fn_override.
     bind (optional_manager enable_ir_dump (dump_manager_op env (src_hash src))) (\<lambda>fn_dump.
     let file_name = take 150 (src_name src);
         metadata_filename = file_name @ ''.json'' in
     bind (in_cache (get_group fn_cache metadata_filename)) (\<lambda>g.
     let metadata_group = (case g of None \<Rightarrow> [] | Some x \<Rightarrow> x) in
     bind (flag_set env ''TRITON_ALWAYS_COMPILE'') (\<lambda>always_compile.
     case map_of metadata_group metadata_filename of
       Some metadata_path \<Rightarrow>
         if \<not> always_compile then
           bind (in_cache (json_op env metadata_path)) (\<lambda>_.
           bind (compiled_kernel_init env metadata_group hash) (\<lambda>k. return (Some k)))
         else build env ir_source tg bk src opts hash fn_cache fn_override fn_dump file_name metadata_group
     | None \<Rightarrow> build env ir_source tg bk src opts hash fn_cache fn_override fn_dump file_name metadata_group))))))))))))"

text \<open>
  The retry.  \<open>cpu_driver\<close> is what \<open>set_active_to_cpu\<close> makes of the active target, and fails when there is
  no CPU backend; the number bounds the depth of the recursion, of which two levels are used.
\<close>

definition cpu_target :: target where
  "cpu_target = \<lparr>tbackend = ''cpu'', arch = JStr ''cpu'', warp_size = 1\<rparr>"

definition set_active_to_cpu :: "('s, 'm, 'o) compile_env \<Rightarrow> (('s, 'm, 'o) compile_state, unit) M" where
  "set_active_to_cpu env =
     bind (check (map_of (backends env) ''cpu'' \<noteq> None) RuntimeError) (\<lambda>_.
     bind (flag_set env ''TRITON_USE_SHARED_BACKEND'') (\<lambda>shared.
     bind (check (\<not> shared \<or> map_of (backends env) ''triton_shared'' \<noteq> None) KeyError) (\<lambda>_.
     bind get_s (\<lambda>s. put_s (s\<lparr>active_target := cpu_target\<rparr>)))))"

fun compile_depth ::
  "nat \<Rightarrow> ('s, 'm, 'o) compile_env \<Rightarrow> ('m, 'o) src_arg \<Rightarrow> target option \<Rightarrow> json dict \<Rightarrow>
     (('s, 'm, 'o) compile_state, compiled_kernel) M" where
  "compile_depth 0 env src tg options = raise RecursionError"
| "compile_depth (Suc n) env src tg options =
     bind (compile_step env src tg options) (\<lambda>r.
     case r of
       Some k \<Rightarrow> return k
     | None \<Rightarrow>
         bind get_s (\<lambda>s.
         if \<not> fallback_attempted s then
           bind (put_s (s\<lparr>fallback_attempted := True\<rparr>)) (\<lambda>_.
           bind (set_active_to_cpu env) (\<lambda>_.
           compile_depth n env src (Some cpu_target) options))
         else raise RuntimeError))"

definition compile :: "('s, 'm, 'o) compile_env \<Rightarrow> ('m, 'o) src_arg \<Rightarrow> target option \<Rightarrow> json dict \<Rightarrow>
     (('s, 'm, 'o) compile_state, compiled_kernel) M" where
  "compile = compile_depth 2"

end
