(* ===== verification/Compile_Properties.thy ===== *)
theory Compile_Properties
  imports Compile
begin

text \<open>
  A compilation that built a kernel leaves it in the cache: the next compilation with the same key
  finds it and runs no part of the compiler.  The proofs follow the two runs call by call.
\<close>

declare split_paired_All [simp del] split_paired_Ex [simp del]

section \<open>Runs over the local cache\<close>

text \<open>The parts of the environment that this library models.\<close>

definition local_env :: "('r world, 'm, 'o) compile_env \<Rightarrow> (string \<Rightarrow> string \<Rightarrow> 'r manager_class) \<Rightarrow> bool" where
  "local_env env load_class \<longleftrightarrow>
     getenv_op env = getenv \<and> cache_manager_op env = get_cache_manager load_class \<and>
     read_op env = read_file \<and> json_op env = json_load"

lemma in_cache_Inr:
  "in_cache f s = Inr (x, s') \<longleftrightarrow> (\<exists>c. f (cache_state s) = Inr (x, c) \<and> s' = s\<lparr>cache_state := c\<rparr>)"
  by (auto simp: in_cache_def split: sum.splits)

lemma in_cache_same [run_simps]: "f (cache_state s) = Inr (x, cache_state s) \<Longrightarrow> in_cache f s = Inr (x, s)"
  by (simp add: in_cache_def)

lemma flag_set_run [run_simps]:
  "local_env env load_class \<Longrightarrow> flag_set env v s = Inr (environ (cache_state s) v = Some ''1'', s)"
  by (simp add: flag_set_def local_env_def run_simps)

lemma read_unchanged: "read_file p w = Inr (c, w') \<Longrightarrow> w' = w" "json_load p w = Inr (j, w') \<Longrightarrow> w' = w"
  by (auto simp: read_file_def json_load_def bind_def return_def raise_def
      split: option.splits node.splits sum.splits content.splits file_text.splits)

subsection \<open>Backends\<close>

text \<open>An instance that was made is found again, and no instance is replaced.\<close>

definition knows :: "('s, 'm, 'o) compile_state \<Rightarrow> target \<Rightarrow> ('m, 'o) backend_object \<Rightarrow> bool" where
  "knows s tg bk \<longleftrightarrow> map_of (make_backend_cache s) (tbackend tg, arch tg, warp_size tg) = Some bk"

definition extends :: "('s, 'm, 'o) compile_state \<Rightarrow> ('s, 'm, 'o) compile_state \<Rightarrow> bool" where
  "extends s s' \<longleftrightarrow>
     (\<exists>b. s' = s\<lparr>make_backend_cache := b\<rparr> \<and> (\<forall>k v. map_of (make_backend_cache s) k = Some v \<longrightarrow> map_of b k = Some v))"

lemma extends_refl: "extends s s"
  unfolding extends_def by (rule exI [of _ "make_backend_cache s"]) simp

lemma extends_knows: "extends s s' \<Longrightarrow> knows s tg bk \<Longrightarrow> knows s' tg bk"
  by (auto simp: extends_def knows_def)

lemma extends_cache: "extends s s' \<Longrightarrow> cache_state s' = cache_state s \<and> fallback_attempted s' = fallback_attempted s \<and> active_target s' = active_target s"
  by (auto simp: extends_def)

lemma knows_run [run_simps]: "knows s tg bk \<Longrightarrow> make_backend env tg s = Inr (bk, s)"
  by (simp add: make_backend_def knows_def run_simps Let_def)

lemma make_backend_run:
  assumes "local_env env load_class" "make_backend env tg s = Inr (bk, s')"
  shows "knows s' tg bk \<and> extends s s'"
proof (cases "map_of (make_backend_cache s) (tbackend tg, arch tg, warp_size tg)")
  case (Some bk')
  then show ?thesis using assms(2) knows_run [of s tg bk' env] extends_refl [of s] by (simp add: knows_def)
next
  case None
  then have "s' = s\<lparr>make_backend_cache := AList.update (tbackend tg, arch tg, warp_size tg) bk (make_backend_cache s)\<rparr>"
    using assms(2)
    by (auto simp: make_backend_def Let_def bind_apply_Inr_iff basic_runs flag_set_run [OF assms(1)]
        split: if_splits option.splits list.splits)
  then show ?thesis
    using None unfolding extends_def
    by (auto simp: knows_def update_conv' intro!: exI [of _ "AList.update (tbackend tg, arch tg, warp_size tg) bk (make_backend_cache s)"])
qed

subsection \<open>The kernel object\<close>

lemma read_asm_run:
  assumes "local_env env load_class"
  shows "read_asm env ps a s = Inr (r, s') \<Longrightarrow>
    s' = s \<and> (\<forall>s2. cache_state s2 = cache_state s \<longrightarrow> read_asm env ps a s2 = Inr (r, s2))"
proof (induction ps arbitrary: a)
  case Nil
  then show ?case by (auto simp: basic_runs)
next
  case (Cons p ps)
  then obtain c where c: "in_cache (read_op env p) s = Inr (c, s)" "read_asm env ps (AList.update (path_suffix p) c a) s = Inr (r, s')"
    using assms read_unchanged(1) by (fastforce simp: bind_apply_Inr_iff in_cache_Inr local_env_def)
  then have "in_cache (read_op env p) s2 = Inr (c, s2)" if "cache_state s2 = cache_state s" for s2
    using that assms read_unchanged(1) by (fastforce simp: in_cache_Inr local_env_def)
  with Cons.IH [OF c(2)] show ?case by (metis bind_run read_asm.simps(2))
qed

lemma json_op_same:
  assumes "local_env env load_class" "in_cache (json_op env p) s = Inr (j, s')"
  shows "s' = s"
  using assms by (auto simp: in_cache_Inr local_env_def dest!: read_unchanged(2))

lemma json_op_moved:
  assumes "local_env env load_class" "in_cache (json_op env p) s = Inr (j, s)" "cache_state s2 = cache_state s"
  shows "in_cache (json_op env p) s2 = Inr (j, s2)"
proof -
  obtain c where c: "json_load p (cache_state s) = Inr (j, c)" using assms(1,2) by (auto simp: in_cache_Inr local_env_def)
  then have "c = cache_state s" by (rule read_unchanged(2))
  with c assms(1,3) show ?thesis by (simp add: in_cache_def local_env_def)
qed

text \<open>Making the object from the same files a second time gives the same object.\<close>

lemma kernel_init_again:
  assumes e: "local_env env load_class" and k: "compiled_kernel_init env g hash s = Inr (k, s')"
  shows "extends s s' \<and> compiled_kernel_init env g hash s' = Inr (k, s')"
proof -
  obtain p j md where p: "(case json_paths g of [] \<Rightarrow> Inl OtherException | p # _ \<Rightarrow> Inr p) = Inr p"
    and j: "in_cache (json_op env p) s = Inr (j, s)" "json_items j = Inr md" "kernel_of_metadata env g hash md s = Inr (k, s')"
    using k json_op_same [OF e] unfolding compiled_kernel_init_def run_Inr by blast
  obtain t tg bk pm sa a kk where t: "map_of md ''cluster_dims'' \<noteq> None" "map_of md ''target'' = Some t" "json_target t = Inr tg"
      "map_of md ''name'' \<noteq> None"
    and bk: "make_backend env tg s = Inr (bk, sa)"
    and a: "read_asm env (asm_paths g) [] sa = Inr (a, s')"
    and kk: "map_of a (binary_ext bk) = Some kk" "k = \<lparr>kernel_metadata = md, packed_metadata = pm, kernel_hash = hash, asm = a, kernel = kk\<rparr>"
    and pm: "pack_metadata bk md = Inr pm"
    using j(3) by (auto simp: kernel_of_metadata_def run_Inr split: option.splits)
  have sa: "sa = s'" using read_asm_run [OF e a] by simp
  have x: "knows s' tg bk" "extends s s'" using make_backend_run [OF e bk] by (simp_all add: sa)
  have "in_cache (json_op env p) s' = Inr (j, s')"
    using json_op_moved [OF e j(1)] extends_cache [OF x(2)] by blast
  moreover have "kernel_of_metadata env g hash md s' = Inr (k, s')"
    using t kk pm knows_run [OF x(1), of env] a unfolding sa by (simp add: kernel_of_metadata_def run_simps)
  ultimately show ?thesis
    using x(2) p j(2) by (simp add: compiled_kernel_init_def run_simps)
qed

section \<open>What a build stores\<close>

definition paths_in :: "file_cache \<Rightarrow> string list \<Rightarrow> string dict" where
  "paths_in m ns = map (\<lambda>n. (n, make_path m n)) ns"

lemma paths_fst: "map fst (paths_in m ns) = ns"
  by (simp add: paths_in_def comp_def)

definition all_stored :: "file_cache \<Rightarrow> 'r world \<Rightarrow> string list \<Rightarrow> bool" where
  "all_stored m w ns \<longleftrightarrow> (\<forall>n \<in> set ns. file_view m w n \<noteq> None)"

lemma update_new: "k \<notin> fst ` set d \<Longrightarrow> AList.update k v d = d @ [(k, v)]"
  by (induction d) auto

lemma paths_in_snoc: "n \<notin> set ns \<Longrightarrow> AList.update n (make_path m n) (paths_in m ns) = paths_in m (ns @ [n])"
  by (simp add: paths_in_def update_new image_image)

definition stage_file :: "string \<Rightarrow> string \<Rightarrow> string" where
  "stage_file file_name ext = file_name @ ''.'' @ ext"

lemma stage_file_inj: "(stage_file n a = stage_file n b) = (a = b)"
  by (simp add: stage_file_def)

lemma put_stored:
  assumes "file_ready_in m e h cn (cache_state s)" "storable f" "all_stored m (cache_state s) ns"
  shows "\<exists>w. in_cache (put (file_manager m) d f) s = Inr (make_path m f, s\<lparr>cache_state := w\<rparr>) \<and>
    file_ready_in m e h cn w \<and> all_stored m w (ns @ [f]) \<and> file_view m w f = Some (payload d)"
proof -
  obtain w where "file_put m d f (cache_state s) = Inr (make_path m f, w)" "file_ready_in m e h cn w"
      "file_view m w = (file_view m (cache_state s))(f \<mapsto> payload d)"
    using file_put_in [OF assms(1,2)] by blast
  then show ?thesis using assms(3) by (auto simp: in_cache_def file_manager_def all_stored_def)
qed

lemma stages_stored:
  assumes "run_stages env (file_manager m) None None None file_name stgs md metadata (paths_in m ns) s = Inr (Some (metadata', grp), s')"
    and "file_ready_in m e h cn (cache_state s)" "all_stored m (cache_state s) ns" "distinct (map fst stgs)"
    and "\<And>ext. ext \<in> fst ` set stgs \<Longrightarrow> storable (stage_file file_name ext) \<and> stage_file file_name ext \<notin> set ns"
  shows "\<exists>w. s' = s\<lparr>cache_state := w\<rparr> \<and> file_ready_in m e h cn w \<and>
    grp = paths_in m (ns @ map (stage_file file_name) (map fst stgs)) \<and>
    all_stored m w (ns @ map (stage_file file_name) (map fst stgs))"
  using assms
proof (induction stgs arbitrary: md metadata s ns)
  case Nil
  then show ?case by (auto simp: run_Inr intro!: exI [of _ "cache_state s"])
next
  case (Cons st stgs)
  obtain ext compile_ir where st: "st = (ext, compile_ir)" by (cases st)
  let ?f = "stage_file file_name ext"
  have f: "storable ?f" "?f \<notin> set ns" using Cons.prems(5) [of ext] by (simp_all add: st)
  obtain next_mod metadata1 where n: "compile_ir md metadata = Next next_mod metadata1"
    using Cons.prems(1) by (cases "compile_ir md metadata") (simp_all add: st run_Inr)
  obtain w where w: "in_cache (put (file_manager m) (module_data env next_mod) ?f) s = Inr (make_path m ?f, s\<lparr>cache_state := w\<rparr>)"
      "file_ready_in m e h cn w" "all_stored m w (ns @ [?f])"
    using put_stored [OF Cons.prems(2) f(1) Cons.prems(3)] by blast
  have "run_stages env (file_manager m) None None None file_name stgs next_mod metadata1 (paths_in m (ns @ [?f]))
      (s\<lparr>cache_state := w\<rparr>) = Inr (Some (metadata', grp), s')"
    using Cons.prems(1) w(1) f(2) unfolding stage_file_def by (simp add: st n Let_def bind_run paths_in_snoc)
  from Cons.IH [OF this] obtain w' where w': "s' = s\<lparr>cache_state := w\<rparr>\<lparr>cache_state := w'\<rparr>" "file_ready_in m e h cn w'"
      "grp = paths_in m ((ns @ [?f]) @ map (stage_file file_name) (map fst stgs))"
      "all_stored m w' ((ns @ [?f]) @ map (stage_file file_name) (map fst stgs))"
    using w(2,3) Cons.prems(4,5) by (auto simp: st stage_file_inj)
  then show ?case by (intro exI [of _ w']) (simp add: st)
qed

text \<open>The names a compilation uses.\<close>

definition kernel_files :: "string \<Rightarrow> string list \<Rightarrow> string list" where
  "kernel_files file_name exts = map (stage_file file_name) exts @ [stage_file file_name ''json'']"

definition names_ok :: "string \<Rightarrow> string list \<Rightarrow> bool" where
  "names_ok file_name exts \<longleftrightarrow>
     distinct exts \<and> ''json'' \<notin> set exts \<and> list_all (\<lambda>n. storable n \<and> n \<noteq> grp_filename (stage_file file_name ''json'')) (kernel_files file_name exts)"

text \<open>The group of the entry, as it will be read back.\<close>

definition entry_ready :: "file_cache \<Rightarrow> 'r world \<Rightarrow> string \<Rightarrow> string list \<Rightarrow> bool" where
  "entry_ready m w file_name ns \<longleftrightarrow>
     file_view m w (grp_filename (stage_file file_name ''json'')) = Some (Printed (group_contents (paths_in m ns))) \<and>
     all_stored m w ns \<and> (\<forall>n \<in> set ns. storable n)"

lemma entry_group:
  assumes "file_ready m w" "storable (stage_file file_name ''json'')" "entry_ready m w file_name ns"
  shows "get_group (file_manager m) (stage_file file_name ''json'') w = Inr (Some (paths_in m ns), w)"
proof -
  have "all_stored m w ns \<Longrightarrow> [(n, make_path m n). n \<leftarrow> ns, file_view m w n \<noteq> None] = paths_in m ns" for ns
    by (induction ns) (auto simp: all_stored_def paths_in_def)
  then have "[(n, make_path m n). n \<leftarrow> ns, file_view m w n \<noteq> None] = paths_in m ns"
    using assms(3) by (simp add: entry_ready_def)
  then show ?thesis
    using file_get_group_run [OF assms(1,2), of ns] assms(3)
    by (auto simp: file_manager_def entry_ready_def file_describes_def paths_in_def)
qed

lemma build_stores:
  assumes e: "local_env env load_class"
    and b: "build env ir_source tg bk src opts hash (file_manager m) None None file_name [] s = Inr (Some k, s')"
    and r: "file_ready_in m e h cn (cache_state s)" and loc: "e ''USE_IR_LOC'' = None"
    and exts: "exts = map fst (stages bk opts)" "names_ok file_name exts"
  shows "\<exists>w ns j. file_ready_in m e h cn w \<and> entry_ready m w file_name ns \<and> stage_file file_name ''json'' \<in> set ns \<and>
    file_view m w (stage_file file_name ''json'') = Some (Printed j) \<and>
    extends (s\<lparr>cache_state := w\<rparr>) s' \<and> compiled_kernel_init env (paths_in m ns) hash s' = Inr (k, s')"
proof -
  let ?json = "stage_file file_name ''json''"
  obtain i md where i: "index_in (src_ext src) (map fst (stages bk opts)) = Inr i" "make_ir src opts = Inr md"
    using b by (auto simp: build_def run_Inr Let_def)
  define stgs where "stgs = drop (if ir_source then Suc i else i) (stages bk opts)"
  have loc_run: "in_cache (getenv_op env ''USE_IR_LOC'') s = Inr (None, s)"
    using e r loc by (simp add: in_cache_def local_env_def world_runs file_ready_in_def)
  obtain metadata grp s1 where run: "run_stages env (file_manager m) None None None file_name stgs md
      (initial_metadata hash tg (options_dict bk opts) (env_vars env)) (paths_in m []) s = Inr (Some (metadata, grp), s1)"
    and rest: "bind (in_cache (put (file_manager m) (Str (Printed (JObj metadata))) ?json)) (\<lambda>p.
        bind (in_cache (put_group (file_manager m) ?json (AList.update ?json p grp))) (\<lambda>_.
        bind (compiled_kernel_init env (AList.update ?json p grp) hash) (\<lambda>k. return (Some k)))) s1 = Inr (Some k, s')"
    using b i loc_run
    by (auto simp: build_def Let_def run_Inr paths_in_def stgs_def stage_file_def split: option.splits)
  let ?names = "map (stage_file file_name) (map fst stgs)"
  have sub: "set (map fst stgs) \<subseteq> set exts" unfolding stgs_def exts(1) by (auto dest: in_set_dropD)
  have dist: "distinct (map fst stgs)"
    using exts unfolding stgs_def drop_map [symmetric] by (simp add: names_ok_def)
  have names: "storable (stage_file file_name x)" "stage_file file_name x \<noteq> grp_filename ?json"
    if "x \<in> set (map fst stgs) \<or> x = ''json''" for x
    using that sub exts(2) by (auto simp: names_ok_def kernel_files_def list_all_iff)
  obtain w1 where w1: "s1 = s\<lparr>cache_state := w1\<rparr>" "file_ready_in m e h cn w1" "grp = paths_in m ?names" "all_stored m w1 ?names"
    using stages_stored [OF run r _ dist] names by (auto simp: all_stored_def)
  let ?ns = "?names @ [?json]"
  have "?json \<notin> set ?names" using sub exts(2) by (auto simp: names_ok_def stage_file_inj)
  then have grp: "AList.update ?json (make_path m ?json) grp = paths_in m ?ns" unfolding w1(3) by (rule paths_in_snoc)
  obtain w2 where w2: "in_cache (put (file_manager m) (Str (Printed (JObj metadata))) ?json) s1 =
        Inr (make_path m ?json, s1\<lparr>cache_state := w2\<rparr>)" "file_ready_in m e h cn w2" "all_stored m w2 ?ns" "file_view m w2 ?json = Some (Printed (JObj metadata))"
    using put_stored [of m e h cn s1 ?json ?names "Str (Printed (JObj metadata))"] w1 names(1) [of "''json''"] by auto
  have mem: "p = make_path m n" if "(n, p) \<in> set (paths_in m ?ns)" for n p using that by (auto simp: paths_in_def)
  obtain p w3 t where w3: "put_group (file_manager m) ?json (paths_in m ?ns) w2 = Inr (p, w3)" "file_ready_in m e h cn w3"
      "file_view m w3 = (file_view m w2)(grp_filename ?json \<mapsto> t)" "file_describes m t (map fst (paths_in m ?ns))"
    using directory.put_group_spec [OF w2(2) names(1) mem] by blast
  have t: "t = Printed (group_contents (paths_in m ?ns))"
    using w3(4) unfolding paths_fst file_describes_def paths_in_def [symmetric] .
  have "entry_ready m w3 file_name ?ns"
    using w2(3) names by (auto simp: entry_ready_def w3(3) t all_stored_def)
  moreover have "in_cache (put_group (file_manager m) ?json (paths_in m ?ns)) (s1\<lparr>cache_state := w2\<rparr>) =
      Inr (p, s\<lparr>cache_state := w3\<rparr>)"
    using w3(1) w1(1) by (simp add: in_cache_def)
  then have "compiled_kernel_init env (paths_in m ?ns) hash (s\<lparr>cache_state := w3\<rparr>) = Inr (k, s')"
    using rest w2(1) by (simp add: bind_run grp run_Inr)
  note kernel_init_again [OF e this]
  moreover have "file_view m w3 ?json = Some (Printed (JObj metadata))"
    using w2(4) names(2) [of "''json''"] by (simp add: w3(3))
  ultimately show ?thesis using w3(2) by (intro exI [of _ w3] exI [of _ ?ns] exI [of _ "JObj metadata"]) simp
qed

section \<open>Opening an entry\<close>

lemma manager_run:
  assumes "environ w ''TRITON_CACHE_MANAGER'' = None" "cache_cls_nme w = ''DEFAULT''" "base64_key key = Inr d"
    and "file_cache_init d False False w = Inr (m, w')"
  shows "get_cache_manager load_class key w = Inr (file_manager m, w')"
  using assms by (simp add: get_cache_manager_def manager_of_def run_simps)

lemma make_dirs_there: "wf_tree t \<Longrightarrow> node_at t l = Some Dir \<Longrightarrow> make_dirs l t = Inr t"
  using make_dirs_from_there [of t "fst l" "[]" "snd l"] by (simp add: make_dirs_def)

text \<open>Opening an entry that is in use changes nothing.\<close>

lemma reopen:
  assumes "file_cache_init d False False w0 = Inr (m, w1)" "file_ready m w" "cache_root w = cache_root w0"
  shows "file_cache_init d False False w = Inr (m, w)"
proof -
  let ?dir = "path_join (cache_root w) d"
  have m: "m = \<lparr>cache_key = d, lock_path = Some (path_join ?dir ''lock''), cache_dir = ?dir\<rparr>"
    using file_init_fields [OF assms(1)] assms(3) by simp
  then have "make_dirs (locate ?dir) (nodes w) = Inr (nodes w)"
    using assms(2) by (intro make_dirs_there) (simp_all add: file_ready_def cache_loc_def)
  then show ?thesis
    using m cache_root_run [of w] cache_root_not_Nil [of w] by (simp add: file_cache_init_def run_simps Let_def)
qed

lemma no_group_run:
  assumes "file_ready m w" "storable f" "file_view m w (grp_filename f) = None"
  shows "get_group (file_manager m) f w = Inr (None, w)"
  using file_exists_run(2) [OF assms(1) storable_grp [OF assms(2)]] assms(3)
  by (simp add: file_manager_def file_get_group_def run_simps)

definition quiet :: "'r world \<Rightarrow> bool" where
  "quiet w \<longleftrightarrow> cache_cls_nme w = ''DEFAULT'' \<and>
     list_all (\<lambda>v. environ w v = None)
       [''TRITON_CACHE_MANAGER'', ''TRITON_KERNEL_OVERRIDE'', ''TRITON_KERNEL_DUMP'', ''TRITON_ALWAYS_COMPILE'', ''USE_IR_LOC'']"

text \<open>The part of \<open>compile\<close> before the lookup.\<close>

lemma lookup_run:
  assumes e: "local_env env load_class" and q: "quiet (cache_state s)" and bk: "knows s tg bk"
    and o: "src_options src = Inr extra" "parse_options bk (merge_dict options extra) = Inr opts"
    and d: "base64_key (compile_key env bk src opts) = Inr d" "file_cache_init d False False (cache_state s) = Inr (m, w)"
    and w: "environ w = environ (cache_state s)"
    and g: "get_group (file_manager m) (stage_file (take 150 (src_name src)) ''json'') w = Inr (g, w)"
  shows "compile_step env (ASTSource src) (Some tg) options s =
    (let s1 = s\<lparr>cache_state := w\<rparr>; file_name = take 150 (src_name src); hash = compile_key env bk src opts;
         metadata_group = (case g of None \<Rightarrow> [] | Some x \<Rightarrow> x)
     in case map_of metadata_group (stage_file file_name ''json'') of
          Some p \<Rightarrow> bind (in_cache (json_op env p)) (\<lambda>_.
            bind (compiled_kernel_init env metadata_group hash) (\<lambda>k. return (Some k))) s1
        | None \<Rightarrow> build env False tg bk src opts hash (file_manager m) None None file_name metadata_group s1)"
proof -
  let ?s = "s\<lparr>cache_state := w\<rparr>"
  have "get_cache_manager load_class (compile_key env bk src opts) (cache_state s) = Inr (file_manager m, w)"
    using manager_run [OF _ _ d] q by (simp add: quiet_def)
  then have open_run: "in_cache (cache_manager_op env (compile_key env bk src opts)) s = Inr (file_manager m, ?s)"
    using e by (simp add: in_cache_def local_env_def)
  have flags: "flag_set env ''TRITON_KERNEL_OVERRIDE'' ?s = Inr (False, ?s)" "flag_set env ''TRITON_KERNEL_DUMP'' ?s = Inr (False, ?s)"
    "flag_set env ''TRITON_ALWAYS_COMPILE'' ?s = Inr (False, ?s)"
    using q w flag_set_run [OF e, of _ ?s] by (simp_all add: quiet_def)
  have lookup: "in_cache (get_group (file_manager m) (stage_file (take 150 (src_name src)) ''json'')) ?s = Inr (g, ?s)"
    using g by (simp add: in_cache_def)
  show ?thesis
    using knows_run [OF bk, of env] o open_run flags lookup
    by (simp add: compile_step_def run_simps Let_def optional_manager_def stage_file_def split: option.split)
qed

section \<open>The retry on the CPU\<close>

text \<open>Nothing in a compilation resets the flag that records the retry.\<close>

definition keeps_flag :: "(('s, 'm, 'o) compile_state, 'a) M \<Rightarrow> bool" where
  "keeps_flag f \<longleftrightarrow> (\<forall>s x s'. f s = Inr (x, s') \<longrightarrow> fallback_attempted s' = fallback_attempted s)"

named_theorems keeps_flag_rules \<open>computations that keep the flag\<close>

lemma keeps_flag_basic [keeps_flag_rules]:
  "keeps_flag (return x)" "keeps_flag (raise e)" "keeps_flag (lift_r r)" "keeps_flag (check c e)" "keeps_flag get_s"
  by (simp_all add: keeps_flag_def run_Inr)

lemma keeps_flag_bind [keeps_flag_rules]: "keeps_flag f \<Longrightarrow> (\<And>x. keeps_flag (g x)) \<Longrightarrow> keeps_flag (bind f g)"
  by (auto simp: keeps_flag_def run_Inr)

lemma keeps_flag_get [keeps_flag_rules]:
  "(\<And>s. fallback_attempted (upd s) = fallback_attempted s) \<Longrightarrow> (\<And>s. keeps_flag (g s)) \<Longrightarrow>
    keeps_flag (bind get_s (\<lambda>s. bind (put_s (upd s)) (\<lambda>_. g s)))"
  by (auto simp: keeps_flag_def run_Inr)

lemma keeps_flag_in_cache [keeps_flag_rules]: "keeps_flag (in_cache f)"
  by (auto simp: keeps_flag_def in_cache_Inr)

lemma keeps_flag_branch [keeps_flag_rules]:
  "(c \<Longrightarrow> keeps_flag f) \<Longrightarrow> (\<not> c \<Longrightarrow> keeps_flag g) \<Longrightarrow> keeps_flag (if c then f else g)"
  "keeps_flag f \<Longrightarrow> (\<And>y. keeps_flag (h y)) \<Longrightarrow> keeps_flag (case x of None \<Rightarrow> f | Some y \<Rightarrow> h y)"
  "(\<And>a b. keeps_flag (h2 a b)) \<Longrightarrow> keeps_flag (case p of (a, b) \<Rightarrow> h2 a b)"
  by (simp_all split: option.split prod.split)

lemma keeps_flag_set [keeps_flag_rules]: "keeps_flag (flag_set env v)"
  unfolding flag_set_def by (intro keeps_flag_rules)

lemma keeps_flag_make_backend [keeps_flag_rules]: "keeps_flag (make_backend env tg)"
proof -
  have pick: "keeps_flag (case xs of [cls] \<Rightarrow> return (make_compiler cls tg) | _ \<Rightarrow> raise RuntimeError)"
    for xs :: "('m, 'o) backend_class list"
    by (auto intro: keeps_flag_rules split: list.split)
  show ?thesis unfolding make_backend_def Let_def by (intro keeps_flag_rules pick) simp_all
qed

lemma keeps_flag_read_asm [keeps_flag_rules]: "keeps_flag (read_asm env ps a)"
  by (induction ps arbitrary: a) (auto intro: keeps_flag_rules)

lemma keeps_flag_kernel [keeps_flag_rules]: "keeps_flag (compiled_kernel_init env g hash)"
  unfolding compiled_kernel_init_def kernel_of_metadata_def by (intro keeps_flag_rules)

lemma keeps_flag_stages [keeps_flag_rules]:
  "keeps_flag (run_stages env c om dm loc n stgs md metadata g)"
proof (induction stgs arbitrary: md metadata g)
  case (Cons st stgs)
  then show ?case
    by (cases st; cases "(snd st) md metadata") (auto simp: Let_def intro!: keeps_flag_rules)
qed (auto intro: keeps_flag_rules)

lemma keeps_flag_build [keeps_flag_rules]: "keeps_flag (build env ir tg bk src opts hash c om dm n g)"
  unfolding build_def Let_def by (intro keeps_flag_rules)

lemma keeps_flag_step: "keeps_flag (compile_step env src tg options)"
proof -
  have "keeps_flag (case src of ASTSource x \<Rightarrow> return x | IRPath p \<Rightarrow> in_cache (load_ir env p))"
    by (cases src) (auto intro: keeps_flag_rules)
  then show ?thesis unfolding compile_step_def Let_def optional_manager_def by (intro keeps_flag_rules)
qed

section \<open>Properties\<close>

text \<open>C26: the retry on the CPU happens at most once: \<open>compile\<close> calls itself to a depth of two, and a compilation
  that asks for the retry a second time raises \<open>RuntimeError\<close>.\<close>

theorem compile_retries_once:
  "compile_depth (Suc (Suc n)) env src tg options = compile env src tg options \<and>
   (fallback_attempted s \<and> compile_step env src tg options s = Inr (None, s') \<longrightarrow>
      compile env src tg options s = Inl RuntimeError)"
proof -
  have flagged: "compile_depth (Suc a) env src t options s = compile_depth (Suc b) env src t options s"
    if "fallback_attempted s" for a b t s
  proof (cases "compile_step env src t options s")
    case (Inr p)
    then show ?thesis
      using keeps_flag_step [of env src t options] that
      by (cases p; cases "fst p") (auto simp: bind_run basic_runs keeps_flag_def)
  qed (simp add: bind_run_error)
  have cpu: "keeps_flag (set_active_to_cpu env)"
    unfolding set_active_to_cpu_def keeps_flag_def
    by (auto simp: run_Inr flag_set_def in_cache_Inr)
  have "compile_depth (Suc (Suc n)) env src tg options s = compile env src tg options s" for s
  proof (cases "compile_step env src tg options s")
    case (Inr p)
    obtain r s1 where p: "p = (r, s1)" by (cases p)
    let ?s2 = "s1\<lparr>fallback_attempted := True\<rparr>"
    have "bind (set_active_to_cpu env) (\<lambda>_. compile_depth (Suc n) env src (Some cpu_target) options) ?s2 =
        bind (set_active_to_cpu env) (\<lambda>_. compile_depth (Suc 0) env src (Some cpu_target) options) ?s2"
    proof (cases "set_active_to_cpu env ?s2")
      case (Inr q)
      then have "fallback_attempted (snd q)" using cpu by (cases q) (auto simp: keeps_flag_def)
      then show ?thesis using Inr flagged [of "snd q" n _ 0] by (cases q) (simp add: bind_run)
    qed (simp add: bind_run_error)
    then show ?thesis
      using Inr by (cases r) (simp_all add: compile_def numeral_2_eq_2 p bind_run basic_runs)
  qed (simp add: compile_def numeral_2_eq_2 bind_run_error)
  moreover have "compile env src tg options s = Inl RuntimeError"
    if "fallback_attempted s" "compile_step env src tg options s = Inr (None, s')"
    using that keeps_flag_step [of env src tg options]
    by (auto simp: compile_def numeral_2_eq_2 bind_run basic_runs keeps_flag_def)
  ultimately show ?thesis by blast
qed

text \<open>C25: a compilation of a kernel that ran the compiler leaves it in the cache: the same request, made again, returns the same
  kernel from the cache without generating or lowering any IR, and changes nothing.  This is the program as it runs by
  default: \<open>TRITON_ALWAYS_COMPILE\<close>, which asks for recompilation, the override and dump directories, \<open>USE_IR_LOC\<close> and
  \<open>TRITON_CACHE_MANAGER\<close> are not set, the cache is the directory on disk.  The target names a backend that has been made, the
  cache directory of the request can be opened and does not hold the group of the kernel yet, and the digest and
  the names of the stages make usable file names.\<close>

theorem second_compile_hits:
  assumes e: "local_env env load_class" and q: "quiet (cache_state s)" and bk: "knows s tg bk"
    and o: "src_options src = Inr extra" "parse_options bk (merge_dict options extra) = Inr opts"
    and d: "base64_key (compile_key env bk src opts) = Inr d" "plain_name d"
    and dir: "openable (cache_state s) (path_join (cache_root (cache_state s)) d)"
    and names: "names_ok (take 150 (src_name src)) (map fst (stages bk opts))"
    and miss: "node_at (nodes (cache_state s)) (child (locate (path_join (cache_root (cache_state s)) d))
      (grp_filename (take 150 (src_name src) @ ''.json''))) = None"
    and run: "compile_step env (ASTSource src) (Some tg) options s = Inr (Some k, s')"
  shows "compile env (ASTSource src) (Some tg) options s = Inr (k, s') \<and>
    compile env (ASTSource (src\<lparr>make_ir := f\<rparr>)) (Some tg) options s' = Inr (k, s')"
proof -
  let ?w = "cache_state s" and ?n = "take 150 (src_name src)" and ?hash = "compile_key env bk src opts"
  let ?json = "stage_file ?n ''json''"
  obtain m w0 where m: "file_cache_init d False False ?w = Inr (m, w0)" "cache_dir m = path_join (cache_root ?w) d" "file_ready m w0"
      "\<And>f. file_view m w0 f = file_view m ?w f" "environ w0 = environ ?w" "home w0 = home ?w" "cache_cls_nme w0 = cache_cls_nme ?w"
    using open_manager [OF d(2) dir] by blast
  have json: "storable ?json" using names by (simp add: names_ok_def kernel_files_def)
  have "file_view m ?w (grp_filename ?json) = None"
    using miss by (simp add: file_view_def cache_loc_def m(2) stage_file_def)
  then have "file_view m w0 (grp_filename ?json) = None" by (simp only: m(4))
  note g = no_group_run [OF m(3) json this]
  have "build env False tg bk src opts ?hash (file_manager m) None None ?n [] (s\<lparr>cache_state := w0\<rparr>) = Inr (Some k, s')"
    using run lookup_run [OF e q bk o d(1) m(1) m(5) g] by simp
  moreover have "file_ready_in m (environ ?w) (home ?w) (cache_cls_nme ?w) (cache_state (s\<lparr>cache_state := w0\<rparr>))"
    using m by (simp add: file_ready_in_def)
  moreover have "environ ?w ''USE_IR_LOC'' = None" using q by (simp add: quiet_def)
  ultimately obtain w ns j where w: "file_ready_in m (environ ?w) (home ?w) (cache_cls_nme ?w) w" "entry_ready m w ?n ns" "?json \<in> set ns"
      "extends (s\<lparr>cache_state := w0\<rparr>\<lparr>cache_state := w\<rparr>) s'" "compiled_kernel_init env (paths_in m ns) ?hash s' = Inr (k, s')"
      "file_view m w ?json = Some (Printed j)"
    using build_stores [OF e _ _ _ refl names] by blast
  have s': "cache_state s' = w" "knows s' tg bk"
    using extends_cache [OF w(4)] extends_knows [OF w(4)] bk by (simp_all add: knows_def)
  have "cache_root w = cache_root ?w" using w(1) by (intro cache_root_cong) (simp_all add: file_ready_in_def)
  then have again: "file_cache_init d False False (cache_state s') = Inr (m, w)"
    using reopen [OF m(1)] file_ready_inD [OF w(1)] by (simp add: s'(1))
  have q': "quiet (cache_state s')" using q w(1) by (simp add: quiet_def s'(1) file_ready_in_def)
  have group: "get_group (file_manager m) ?json w = Inr (Some (paths_in m ns), w)"
    by (rule entry_group [OF file_ready_inD [OF w(1)] json w(2)])
  have found: "map_of (paths_in m ns) ?json = Some (make_path m ?json)"
    using w(3) by (simp add: paths_in_def map_of_map_restrict)
  let ?src = "src\<lparr>make_ir := f\<rparr>"
  have "compile_step env (ASTSource ?src) (Some tg) options s' = Inr (Some k, s')"
  proof -
    have "in_cache (json_op env (make_path m ?json)) s' = Inr (j, s')"
      using json_load_run [OF file_ready_inD [OF w(1)] json w(6)] e by (simp add: in_cache_def local_env_def s'(1))
    moreover have "compile_key env bk ?src opts = ?hash" by (simp add: compile_key_def)
    ultimately show ?thesis
      using lookup_run [OF e q' s'(2), of ?src extra options opts d m "cache_state s'" "Some (paths_in m ns)"] o d(1) again group found w(5)
      unfolding s'(1) [symmetric] by (simp add: run_simps Let_def)
  qed
  then show ?thesis using run by (simp add: compile_def numeral_2_eq_2 bind_run basic_runs)
qed

section \<open>A concrete compilation\<close>

definition sample_backend :: "(string, unit) backend_object" where
  "sample_backend = \<lparr>parse_options = (\<lambda>_. Inr ()), backend_hash = ''b'', options_hash = (\<lambda>_. ''o''),
     options_dict = (\<lambda>_. [(''cluster_dims'', JList []), (''name'', JStr ''add'')]),
     stages = (\<lambda>_. [(''ttir'', \<lambda>md meta. Next (''opt '' @ md) meta), (''bin'', \<lambda>md meta. Next (''asm '' @ md) meta)]),
     pack_metadata = (\<lambda>md. case map_of md ''name'' of None \<Rightarrow> Inl AttributeError | Some n \<Rightarrow> Inr [n]), binary_ext = ''bin''\<rparr>"

definition sample_env :: "(unit world, string, unit) compile_env" where
  "sample_env = \<lparr>backends = [(''cpu'', \<lparr>supports_target = (\<lambda>_. True), make_compiler = (\<lambda>_. sample_backend)\<rparr>)],
     triton_key = ''3'', env_vars = [], print_env = (\<lambda>_. ''[]''), sha256 = (\<lambda>_. ''00ff10''), getenv_op = getenv,
     cache_manager_op = get_cache_manager (\<lambda>_ _ _ _ _. raise KeyError),
     override_manager_op = get_override_manager (\<lambda>_ _ _ _ _. raise KeyError),
     dump_manager_op = get_dump_manager (\<lambda>_ _ _ _ _. raise KeyError),
     load_ir = (\<lambda>_. raise OSError), module_data = (\<lambda>md. Str (Plain md)), parse_op = (\<lambda>_ _. raise OSError),
     snapshot = (\<lambda>md _. md), read_op = read_file, json_op = json_load\<rparr>"

definition sample_source :: "(string, unit) source" where
  "sample_source = \<lparr>src_ext = ''ttir'', src_name = ''add'', src_hash = ''h'', src_options = Inr [], make_ir = (\<lambda>_. Inr ''ir'')\<rparr>"

definition sample_compile_state :: "(unit world, string, unit) compile_state" where
  "sample_compile_state = \<lparr>cache_state = sample_world ''/root'' (), fallback_attempted = False, active_target = cpu_target,
     make_backend_cache = [((''cpu'', JStr ''cpu'', 1), sample_backend)]\<rparr>"

lemma sample_compile_run:
  "case compile_step sample_env (ASTSource sample_source) (Some cpu_target) [] sample_compile_state of
     Inr (Some k, s) \<Rightarrow> kernel k = Complete (Plain ''asm opt ir'') | _ \<Rightarrow> False"
  by code_simp

lemma sample_compile_env:
  "local_env sample_env (\<lambda>_ _ _ _ _. raise KeyError)" "knows sample_compile_state cpu_target sample_backend"
  by (simp_all add: local_env_def sample_env_def knows_def sample_compile_state_def cpu_target_def)

lemma sample_compile_facts:
  "quiet (cache_state sample_compile_state)"
  "src_options sample_source = Inr []" "parse_options sample_backend (merge_dict [] []) = Inr ()"
  "base64_key (compile_key sample_env sample_backend sample_source ()) = Inr ''AP8Q''" "plain_name ''AP8Q''"
  "names_ok (take 150 (src_name sample_source)) (map fst (stages sample_backend ()))"
  "node_at (nodes (cache_state sample_compile_state)) (child (locate (path_join (cache_root (cache_state sample_compile_state)) ''AP8Q''))
     (grp_filename (take 150 (src_name sample_source) @ ''.json''))) = None"
  by code_simp+

theorem second_compile_hits_witness:
  "\<exists>k s. compile sample_env (ASTSource sample_source) (Some cpu_target) [] sample_compile_state = Inr (k, s) \<and>
     compile sample_env (ASTSource (sample_source\<lparr>make_ir := \<lambda>_. Inl AssertionError\<rparr>)) (Some cpu_target) [] s = Inr (k, s) \<and>
     kernel k = Complete (Plain ''asm opt ir'')"
proof -
  obtain k s where run: "compile_step sample_env (ASTSource sample_source) (Some cpu_target) [] sample_compile_state = Inr (Some k, s)"
      "kernel k = Complete (Plain ''asm opt ir'')"
    using sample_compile_run by (auto split: sum.splits option.splits)
  have "openable (cache_state sample_compile_state) d" for d
    by (simp add: sample_compile_state_def sample_openable)
  from second_compile_hits [OF sample_compile_env(1) sample_compile_facts(1) sample_compile_env(2) sample_compile_facts(2-5)
      this sample_compile_facts(6,7) run(1)] run(2)
  show ?thesis by blast
qed

text \<open>A backend that cannot lower the kernel.\<close>

definition stuck_backend :: "(string, unit) backend_object" where
  "stuck_backend = sample_backend\<lparr>stages := \<lambda>_. [(''ttir'', \<lambda>md meta. Fallback)]\<rparr>"

definition stuck_state :: "(unit world, string, unit) compile_state" where
  "stuck_state = sample_compile_state\<lparr>fallback_attempted := True, make_backend_cache := [((''cpu'', JStr ''cpu'', 1), stuck_backend)]\<rparr>"

lemma stuck_run:
  "case compile_step sample_env (ASTSource sample_source) (Some cpu_target) [] stuck_state of Inr (None, s) \<Rightarrow> True | _ \<Rightarrow> False"
  by code_simp

theorem compile_retries_once_witness:
  "compile sample_env (ASTSource sample_source) (Some cpu_target) [] stuck_state = Inl RuntimeError"
proof -
  obtain s where "compile_step sample_env (ASTSource sample_source) (Some cpu_target) [] stuck_state = Inr (None, s)"
    using stuck_run by (auto split: sum.splits option.splits)
  with compile_retries_once [of 0 sample_env "ASTSource sample_source" "Some cpu_target" "[]" stuck_state s]
  show ?thesis by (simp add: stuck_state_def)
qed

end
