(* ===== verification/Jit.thy ===== *)
theory Jit
  imports Cache "HOL-Library.Countable" "HOL-Library.Sublist"
begin

text \<open>
  The launch of a kernel, \<open>JITFunction.run\<close> of \<open>python/triton/runtime/jit.py\<close>: binding the arguments,
  the specialization key, the dictionary of compiled kernels, and the single-entry fast path that
  compares a fingerprint of the arguments instead of computing the key; with the compile-time
  properties of \<open>python/triton/backends/compiler.py\<close>.  The compiler, the parsing of backend options and
  Python's \<open>str\<close> are parameters.
\<close>

section \<open>Arguments\<close>

text \<open>
  The Python values a kernel is called with.  A float is a number or one of the values that compare in
  a special way; a tensor is its \<open>dtype\<close>, printed, and its address.
\<close>

datatype jit_float = Finite rat | NegZero | Infinite bool | NaN

datatype pyarg =
    ANone | ABool bool | AInt int | AFloat jit_float | AStr string | ATensor string nat | ATma nat

instance jit_float :: countable by countable_datatype

instance pyarg :: countable by countable_datatype

fun py_type :: "pyarg \<Rightarrow> string" where
  "py_type ANone = ''NoneType''"
| "py_type (ABool b) = ''bool''"
| "py_type (AInt i) = ''int''"
| "py_type (AFloat f) = ''float''"
| "py_type (AStr s) = ''str''"
| "py_type (ATensor d p) = ''Tensor''"
| "py_type (ATma i) = ''TmaDescriptor''"

text \<open>Python's equality: numbers of different types compare by value, \<open>-0.0 == 0.0\<close>, and a NaN equals nothing.\<close>

fun number_value :: "pyarg \<Rightarrow> jit_float option" where
  "number_value (ABool b) = Some (Finite (of_bool b))"
| "number_value (AInt i) = Some (Finite (of_int i))"
| "number_value (AFloat NegZero) = Some (Finite 0)"
| "number_value (AFloat NaN) = None"
| "number_value (AFloat f) = Some f"
| "number_value _ = None"

fun is_nan :: "pyarg \<Rightarrow> bool" where
  "is_nan (AFloat NaN) = True"
| "is_nan _ = False"

definition py_eq :: "pyarg \<Rightarrow> pyarg \<Rightarrow> bool" where
  "py_eq a b =
     (if is_nan a \<or> is_nan b then False
      else if number_value a \<noteq> None \<and> number_value b \<noteq> None then number_value a = number_value b
      else a = b)"

fun truthy :: "pyarg \<Rightarrow> bool" where
  "truthy ANone = False"
| "truthy (ABool b) = b"
| "truthy (AInt i) = (i \<noteq> 0)"
| "truthy (AFloat f) = (f \<noteq> Finite 0 \<and> f \<noteq> NegZero)"
| "truthy (AStr s) = (s \<noteq> [])"
| "truthy _ = True"

section \<open>Parameters\<close>

record kernel_param =
  num :: nat
  pname :: string
  annotation :: string
  do_not_specialize :: bool
  do_not_specialize_on_alignment :: bool
  default :: "pyarg option"

text \<open>The rest of a string after the first occurrence of another.\<close>

fun after_first :: "string \<Rightarrow> string \<Rightarrow> string option" where
  "after_first pat [] = (if pat = [] then Some [] else None)"
| "after_first pat (c # cs) =
     (if take (length pat) (c # cs) = pat then Some (drop (length pat) (c # cs)) else after_first pat cs)"

definition contains :: "string \<Rightarrow> string \<Rightarrow> bool" where
  "contains s pat = (after_first pat s \<noteq> None)"

definition annotation_type :: "kernel_param \<Rightarrow> string" where
  "annotation_type p =
     (case after_first ''uint'' (annotation p) of
        Some (c # w) \<Rightarrow> CHR ''u'' # c # w
      | _ \<Rightarrow>
        (case after_first ''int'' (annotation p) of
           Some (c # w) \<Rightarrow> CHR ''i'' # c # w
         | _ \<Rightarrow> if annotation p = ''bool'' then ''u1'' else []))"

definition is_constexpr :: "kernel_param \<Rightarrow> bool" where
  "is_constexpr p = contains (annotation p) ''constexpr''"

definition param_is_const :: "kernel_param \<Rightarrow> bool" where
  "param_is_const p = (contains (annotation p) ''const'' \<and> \<not> is_constexpr p)"

section \<open>Types and properties of arguments\<close>

definition type_canonicalisation_dict :: "(string \<times> string) list" where
  "type_canonicalisation_dict =
     (let d = [(''bool'', ''i1''), (''float8e4nv'', ''fp8e4nv''), (''float8e5'', ''fp8e5''), (''float8e4b15'', ''fp8e4b15''),
               (''float8_e4m3fn'', ''fp8e4nv''), (''float8e4b8'', ''fp8e4b8''), (''float8_e4m3fnuz'', ''fp8e4b8''),
               (''float8_e5m2'', ''fp8e5''), (''float8e5b16'', ''fp8e5b16''), (''float8_e5m2fnuz'', ''fp8e5b16''),
               (''float16'', ''fp16''), (''bfloat16'', ''bf16''), (''float32'', ''fp32''), (''float64'', ''fp64''),
               (''int8'', ''i8''), (''int16'', ''i16''), (''int32'', ''i32''), (''int64'', ''i64''),
               (''uint8'', ''u8''), (''uint16'', ''u16''), (''uint32'', ''u32''), (''uint64'', ''u64'')]
      in d @ map (\<lambda>(k, v). (v, v)) d)"

definition last_component :: "string \<Rightarrow> string" where
  "last_component s = rev (takeWhile (\<lambda>c. c \<noteq> CHR ''.'') (rev s))"

fun mangle_type :: "pyarg \<Rightarrow> bool \<Rightarrow> string result" where
  "mangle_type ANone const = Inr ''none''"
| "mangle_type (ABool b) const = Inr ''i1''"
| "mangle_type (AInt i) const =
     Inr (if - (2 ^ 31) \<le> i \<and> i \<le> 2 ^ 31 - 1 then ''i32''
          else if 2 ^ 63 \<le> i \<and> i \<le> 2 ^ 64 - 1 then ''u64''
          else ''i64'')"
| "mangle_type (AFloat f) const = Inr ''fp32''"
| "mangle_type (ATma i) const = Inr ''nvTmaDesc''"
| "mangle_type (ATensor d p) const =
     (case map_of type_canonicalisation_dict (last_component d) of
        None \<Rightarrow> Inl KeyError
      | Some t \<Rightarrow> Inr ((if const then ''*k'' else ''*'') @ t))"
| "mangle_type (AStr s) const = Inl AttributeError"

fun is_divisible_by_16 :: "pyarg \<Rightarrow> bool" where
  "is_divisible_by_16 (ATensor d p) = (p mod 16 = 0)"
| "is_divisible_by_16 (ABool b) = (\<not> b)"
| "is_divisible_by_16 (AInt i) = (i mod 16 = 0)"
| "is_divisible_by_16 ANone = True"
| "is_divisible_by_16 _ = False"

definition is_equal_to_1 :: "pyarg \<Rightarrow> bool" where
  "is_equal_to_1 a = (a = AInt 1)"

definition get_property_key :: "pyarg \<Rightarrow> bool \<Rightarrow> char" where
  "get_property_key v align =
     (if align \<and> is_divisible_by_16 v then CHR ''D''
      else if is_equal_to_1 v then CHR ''1''
      else CHR ''N'')"

text \<open>\<open>AttrsDescriptor\<close>: the two lists of parameter numbers.\<close>

record attrs_descriptor =
  divisibility_16 :: "nat list"
  equal_to_1 :: "nat list"

definition attrs_descriptor_init :: "kernel_param list \<Rightarrow> pyarg list \<Rightarrow> attrs_descriptor" where
  "attrs_descriptor_init ps vals =
     \<lparr>divisibility_16 = map (num \<circ> fst) (filter (\<lambda>(p, v). is_divisible_by_16 v \<and> \<not> do_not_specialize p \<and>
        \<not> do_not_specialize_on_alignment p) (zip ps vals)),
      equal_to_1 = map (num \<circ> fst) (filter (\<lambda>(p, v). is_equal_to_1 v \<and> \<not> do_not_specialize p) (zip ps vals))\<rparr>"

section \<open>Binding\<close>

text \<open>What the generated \<open>dynamic_func\<close> does with its arguments: the value of each parameter, in order, and
  the keyword arguments that are not parameters.\<close>

fun bind_params :: "kernel_param list \<Rightarrow> pyarg list \<Rightarrow> pyarg dict \<Rightarrow> pyarg list result" where
  "bind_params [] args kwargs = (if args = [] then Inr [] else Inl TypeError)"
| "bind_params (p # ps) (a # args) kwargs =
     (if map_of kwargs (pname p) \<noteq> None then Inl TypeError
      else bind_r (bind_params ps args kwargs) (\<lambda>vs. Inr (a # vs)))"
| "bind_params (p # ps) [] kwargs =
     (case map_of kwargs (pname p) of
        Some v \<Rightarrow> bind_r (bind_params ps [] kwargs) (\<lambda>vs. Inr (v # vs))
      | None \<Rightarrow>
          (case default p of
             Some v \<Rightarrow> bind_r (bind_params ps [] kwargs) (\<lambda>vs. Inr (v # vs))
           | None \<Rightarrow> Inl TypeError))"

definition excess :: "kernel_param list \<Rightarrow> pyarg dict \<Rightarrow> pyarg dict" where
  "excess ps kwargs = filter (\<lambda>(k, v). k \<notin> pname ` set ps) kwargs"

fun sig_types :: "kernel_param list \<Rightarrow> pyarg list \<Rightarrow> string list result" where
  "sig_types (p # ps) (v # vs) =
     (if is_constexpr p then sig_types ps vs
      else bind_r (if annotation_type p \<noteq> [] then Inr (annotation_type p) else mangle_type v (param_is_const p)) (\<lambda>t.
           bind_r (sig_types ps vs) (\<lambda>ts. Inr (t # ts))))"
| "sig_types _ _ = Inr []"

fun specialisations :: "kernel_param list \<Rightarrow> pyarg list \<Rightarrow> string" where
  "specialisations (p # ps) (v # vs) =
     (if is_constexpr p \<or> do_not_specialize p then specialisations ps vs
      else get_property_key v (\<not> do_not_specialize_on_alignment p) # specialisations ps vs)"
| "specialisations _ _ = []"

definition constexpr_vals :: "kernel_param list \<Rightarrow> pyarg list \<Rightarrow> pyarg list" where
  "constexpr_vals ps vals = map snd (filter (\<lambda>(p, v). is_constexpr p) (zip ps vals))"

definition non_constexpr_vals :: "kernel_param list \<Rightarrow> pyarg list \<Rightarrow> pyarg list" where
  "non_constexpr_vals ps vals = map snd (filter (\<lambda>(p, v). \<not> is_constexpr p) (zip ps vals))"

text \<open>The key: the types and the specialisations joined, and the printed rest.\<close>

definition dispatch_key ::
  "(pyarg list \<times> pyarg dict \<Rightarrow> string) \<Rightarrow> kernel_param list \<Rightarrow> pyarg list \<Rightarrow> pyarg dict \<Rightarrow> string result" where
  "dispatch_key py_str ps vals ex =
     bind_r (sig_types ps vals) (\<lambda>ts. Inr (concat ts @ specialisations ps vals @ py_str (constexpr_vals ps vals, ex)))"

text \<open>\<open>_normalize_args\<close>; \<open>None\<close> stands for the sentinel and for the answer \<open>(None, None)\<close>.\<close>

fun param_index :: "kernel_param list \<Rightarrow> string \<Rightarrow> nat option" where
  "param_index [] x = None"
| "param_index (p # ps) x = (if pname p = x then Some 0 else map_option Suc (param_index ps x))"

fun merge_kwargs ::
  "kernel_param list \<Rightarrow> nat \<Rightarrow> pyarg dict \<Rightarrow> pyarg option list \<Rightarrow> pyarg dict \<Rightarrow> (pyarg option list \<times> pyarg dict) option" where
  "merge_kwargs ps n_args [] full opt_kwargs = Some (full, opt_kwargs)"
| "merge_kwargs ps n_args ((name, v) # kwargs) full opt_kwargs =
     (case param_index ps name of
        None \<Rightarrow> merge_kwargs ps n_args kwargs full (opt_kwargs @ [(name, v)])
      | Some idx \<Rightarrow>
          if idx < n_args then None
          else merge_kwargs ps n_args kwargs (full[idx := Some v]) opt_kwargs)"

fun fill_defaults :: "kernel_param list \<Rightarrow> pyarg option list \<Rightarrow> pyarg list option" where
  "fill_defaults (p # ps) (v # full) =
     (case v of
        Some x \<Rightarrow> map_option ((#) x) (fill_defaults ps full)
      | None \<Rightarrow> (case default p of None \<Rightarrow> None | Some x \<Rightarrow> map_option ((#) x) (fill_defaults ps full)))"
| "fill_defaults _ _ = Some []"

definition normalize_args :: "kernel_param list \<Rightarrow> pyarg list \<Rightarrow> pyarg dict \<Rightarrow> (pyarg list \<times> pyarg dict) option" where
  "normalize_args ps args kwargs =
     (if length args > length ps then None
      else
        case merge_kwargs ps (length args) kwargs (map Some args @ replicate (length ps - length args) None) [] of
          None \<Rightarrow> None
        | Some (full, opt_kwargs) \<Rightarrow> map_option (\<lambda>vals. (vals, opt_kwargs)) (fill_defaults ps full))"

section \<open>The fast path\<close>

datatype finger = FTensor string bool | FTyped string pyarg | FPlain pyarg

fun finger_arg :: "pyarg \<Rightarrow> finger" where
  "finger_arg (ATensor d p) = FTensor d (p mod 16 = 0)"
| "finger_arg a = FTyped (py_type a) a"

fun finger_opt :: "pyarg \<Rightarrow> finger" where
  "finger_opt (ATensor d p) = FTensor d (p mod 16 = 0)"
| "finger_opt a = FPlain a"

fun insert_item :: "string \<times> 'v \<Rightarrow> 'v dict \<Rightarrow> 'v dict" where
  "insert_item x [] = [x]"
| "insert_item x (y # ys) = (if string_le (fst x) (fst y) then x # y # ys else y # insert_item x ys)"

definition sort_items :: "'v dict \<Rightarrow> 'v dict" where
  "sort_items xs = foldr insert_item xs []"

type_synonym fingerprint_t = "finger list \<times> (string \<times> finger) list"

definition fingerprint :: "pyarg list \<Rightarrow> pyarg dict \<Rightarrow> fingerprint_t" where
  "fingerprint full opt_kwargs = (map finger_arg full, map (\<lambda>(k, v). (k, finger_opt v)) (sort_items opt_kwargs))"

text \<open>Equality of the tuples, with Python's equality of their elements.\<close>

fun finger_eq :: "finger \<Rightarrow> finger \<Rightarrow> bool" where
  "finger_eq (FTensor d a) (FTensor d' a') = (d = d' \<and> a = a')"
| "finger_eq (FTyped t v) (FTyped t' v') = (t = t' \<and> py_eq v v')"
| "finger_eq (FPlain v) (FPlain v') = py_eq v v'"
| "finger_eq _ _ = False"

definition fingerprint_eq :: "fingerprint_t \<Rightarrow> fingerprint_t \<Rightarrow> bool" where
  "fingerprint_eq f g \<longleftrightarrow>
     list_all2 finger_eq (fst f) (fst g) \<and> list_all2 (\<lambda>(k, v) (k', v'). k = k' \<and> finger_eq v v') (snd f) (snd g)"

section \<open>run\<close>

text \<open>What the compiler is asked for.\<close>

record 'o request =
  req_signature :: "string dict"
  req_constants :: "pyarg dict"
  req_attrs :: attrs_descriptor
  req_options :: 'o

text \<open>The parameters of the model: \<open>str\<close> of a tuple, \<open>backend.parse_options\<close> and the keywords it looks at, the names of the
  fields of an options object, and \<open>compile\<close>.\<close>

record ('o, 'k) jit_env =
  py_str :: "pyarg list \<times> pyarg dict \<Rightarrow> string"
  parse_opts :: "pyarg dict \<Rightarrow> 'o result"
  option_names :: "string list"
  option_fields :: "'o \<Rightarrow> string list"
  compile_fn :: "'o request \<Rightarrow> 'k result"
  cached_debug :: bool

definition make_request :: "kernel_param list \<Rightarrow> pyarg list \<Rightarrow> string list \<Rightarrow> 'o \<Rightarrow> 'o request" where
  "make_request ps vals ts opts =
     (let attrs = attrs_descriptor_init ps vals in
      \<lparr>req_signature = zip (map pname (filter (\<lambda>p. \<not> is_constexpr p) ps)) (map (\<lambda>t. if t = ''none'' then ''*i8'' else t) ts),
       req_constants = map (\<lambda>(p, v). (pname p, v))
         (filter (\<lambda>(p, v). is_constexpr p \<or> num p \<in> set (equal_to_1 attrs) \<or> v = ANone) (zip ps vals)),
       req_attrs = attrs, req_options = opts\<rparr>)"

text \<open>The branch of \<open>run\<close> that compiles.\<close>

definition compile_kernel ::
  "('o, 'k) jit_env \<Rightarrow> kernel_param list \<Rightarrow> pyarg list \<Rightarrow> pyarg dict \<Rightarrow> pyarg dict \<Rightarrow> 'k result" where
  "compile_kernel env ps vals kwargs ex =
     bind_r (parse_opts env kwargs) (\<lambda>opts.
     bind_r (check_r (list_all (\<lambda>k. map_of kwargs k = None) [''device_type'', ''device'', ''stream'']) AssertionError) (\<lambda>_.
     bind_r (check_r (list_all (\<lambda>(k, v). k \<in> set (option_fields env opts)) ex) KeyError) (\<lambda>_.
     bind_r (sig_types ps vals) (\<lambda>ts. compile_fn env (make_request ps vals ts opts)))))"

record 'k jit_state =
  kernels :: "(string \<times> 'k) list"
  fast_args_fp :: "fingerprint_t option"
  fast_kernel :: "'k option"

definition with_debug :: "('o, 'k) jit_env \<Rightarrow> pyarg dict \<Rightarrow> pyarg dict" where
  "with_debug env kwargs =
     AList.update ''debug''
       (case map_of kwargs ''debug'' of
          Some d \<Rightarrow> if truthy d then d else ABool (cached_debug env)
        | None \<Rightarrow> ABool (cached_debug env)) kwargs"

text \<open>The branch that binds the arguments: the dictionary of kernels is asked first, and a kernel found there is
  remembered with the fingerprint; one that is compiled is stored under its key only.\<close>

definition slow_path ::
  "('o, 'k) jit_env \<Rightarrow> kernel_param list \<Rightarrow> pyarg list \<Rightarrow> pyarg dict \<Rightarrow> fingerprint_t option \<Rightarrow> ('k jit_state, 'k \<times> pyarg list) M" where
  "slow_path env ps args kwargs fp =
     bind (lift_r (bind_params ps args kwargs)) (\<lambda>vals.
     bind (lift_r (dispatch_key (py_str env) ps vals (excess ps kwargs))) (\<lambda>key.
     bind get_s (\<lambda>s.
     case map_of (kernels s) key of
       Some k \<Rightarrow>
         bind (put_s (if fp = None then s else s\<lparr>fast_args_fp := fp, fast_kernel := Some k\<rparr>)) (\<lambda>_.
         return (k, non_constexpr_vals ps vals))
     | None \<Rightarrow>
         bind (lift_r (compile_kernel env ps vals kwargs (excess ps kwargs))) (\<lambda>k.
         bind (put_s (s\<lparr>kernels := AList.update key k (kernels s)\<rparr>)) (\<lambda>_.
         return (k, non_constexpr_vals ps vals))))))"

text \<open>The kernel to launch and the values it is launched with.\<close>

definition full_args :: "kernel_param list \<Rightarrow> pyarg list \<Rightarrow> pyarg dict \<Rightarrow> (pyarg list \<times> pyarg dict) option" where
  "full_args ps args kwargs =
     (if length args = length ps then Some (args, kwargs) else normalize_args ps args kwargs)"

definition run_kernel ::
  "('o, 'k) jit_env \<Rightarrow> kernel_param list \<Rightarrow> pyarg list \<Rightarrow> pyarg dict \<Rightarrow> ('k jit_state, 'k \<times> pyarg list) M" where
  "run_kernel env ps args kwargs0 =
     (let kwargs = with_debug env kwargs0 in
      bind get_s (\<lambda>s.
      case full_args ps args kwargs of
        None \<Rightarrow> slow_path env ps args kwargs None
      | Some (full, opt_kwargs) \<Rightarrow>
          let fp = fingerprint full opt_kwargs in
          (case (fast_args_fp s, fast_kernel s) of
             (Some g, Some k) \<Rightarrow>
               if fingerprint_eq fp g then return (k, non_constexpr_vals ps full)
               else slow_path env ps args kwargs (Some fp)
           | _ \<Rightarrow> slow_path env ps args kwargs (Some fp))))"

text \<open>The grid of a launch: up to three sizes, the missing ones being 1.\<close>

definition canonical_grid :: "int list \<Rightarrow> (int \<times> int \<times> int) result" where
  "canonical_grid grid =
     (if grid = [] then Inl IndexError
      else Inr (grid ! 0, if length grid > 1 then grid ! 1 else 1, if length grid > 2 then grid ! 2 else 1))"

end
