(* ===== verification/Jit_Keys.thy ===== *)
theory Jit_Keys
  imports Jit
begin

text \<open>
  The dispatch key of a launch.  It can be taken apart into the types, the specialisations, the
  compile-time values and the options it was made from, and two launches with the same key ask for the
  same compilation.
\<close>

section \<open>Taking a key apart\<close>

text \<open>The type codes of \<open>mangle_type\<close>.\<close>

definition codes :: "bool \<Rightarrow> string list" where
  "codes const =
     [''none'', ''i1'', ''i32'', ''u64'', ''i64'', ''fp32'', ''nvTmaDesc''] @
     map (\<lambda>(k, t). (if const then ''*k'' else ''*'') @ t) type_canonicalisation_dict"

lemma mangle_type_code: "mangle_type v const = Inr t \<Longrightarrow> t \<in> set (codes const)"
proof (cases "\<exists>d p. v = ATensor d p")
  case True
  assume "mangle_type v const = Inr t"
  then obtain d k where "map_of type_canonicalisation_dict d = Some k" "t = (if const then ''*k'' else ''*'') @ k"
    using True by (auto split: option.splits)
  then have "(\<lambda>(k, t). (if const then ''*k'' else ''*'') @ t) (d, k) \<in> (\<lambda>(k, t). (if const then ''*k'' else ''*'') @ t) ` set type_canonicalisation_dict"
    by (intro imageI) (rule map_of_SomeD)
  then show ?thesis using \<open>t = _\<close> by (simp only: codes_def set_append set_map prod.case) blast
next
  case False
  assume "mangle_type v const = Inr t"
  then have "t \<in> set [''none'', ''i1'', ''i32'', ''u64'', ''i64'', ''fp32'', ''nvTmaDesc'']"
    using False by (cases v) (auto split: if_splits)
  then show ?thesis by (simp only: codes_def set_append Un_iff) simp
qed

text \<open>Two codes are confusable if one continues the other with a character that may follow a code in a key.\<close>

definition continues :: "char \<Rightarrow> bool" where
  "continues c \<longleftrightarrow> c = CHR ''6'' \<or> c = CHR ''b''"

fun confusable :: "string \<Rightarrow> string \<Rightarrow> bool" where
  "confusable (c # cs) (d # ds) = (c = d \<and> confusable cs ds)"
| "confusable (c # cs) [] = (\<not> continues c)"
| "confusable [] (d # ds) = (\<not> continues d)"
| "confusable [] [] = False"

definition starts_clean :: "string \<Rightarrow> bool" where
  "starts_clean r \<longleftrightarrow> r \<noteq> [] \<and> \<not> continues (hd r)"

lemma codes_not_confusable_True: "list_all (\<lambda>t. list_all (\<lambda>u. \<not> confusable t u) (codes True)) (codes True)"
  by code_simp

lemma codes_not_confusable_False: "list_all (\<lambda>t. list_all (\<lambda>u. \<not> confusable t u) (codes False)) (codes False)"
  by code_simp

lemma codes_not_confusable: "t \<in> set (codes c) \<Longrightarrow> u \<in> set (codes c) \<Longrightarrow> \<not> confusable t u"
  using codes_not_confusable_True codes_not_confusable_False by (cases c) (auto simp: list_all_iff)

lemma not_confusable_append:
  "\<not> confusable t u \<Longrightarrow> t @ r = u @ q \<Longrightarrow> starts_clean r \<Longrightarrow> starts_clean q \<Longrightarrow> t = u \<and> r = q"
  by (induction t u rule: confusable.induct) (auto simp: starts_clean_def)

lemma codes_append:
  assumes "t \<in> set (codes c)" "u \<in> set (codes c)" "t @ r = u @ q" "starts_clean r" "starts_clean q"
  shows "t = u" "r = q"
  using assms not_confusable_append [of t u r q] codes_not_confusable [of t c u] by auto

lemma codes_start_clean: "t \<in> set (codes c) \<Longrightarrow> starts_clean (t @ r)"
  by (cases c) (auto simp: codes_def type_canonicalisation_dict_def starts_clean_def continues_def Let_def)

lemma annotation_start_clean: "annotation_type p \<noteq> [] \<Longrightarrow> starts_clean (annotation_type p @ r)"
  by (auto simp: annotation_type_def starts_clean_def continues_def split: option.splits list.splits if_splits)

lemma types_start_clean:
  "sig_types ps vals = Inr ts \<Longrightarrow> starts_clean r \<Longrightarrow> starts_clean (concat ts @ r)"
  by (induction ps vals arbitrary: ts rule: sig_types.induct)
    (auto simp: bind_r_eq_Inr_iff codes_start_clean annotation_start_clean dest!: mangle_type_code split: if_splits)

lemma types_decode:
  "sig_types ps vals = Inr ts \<Longrightarrow> sig_types ps vals' = Inr ts' \<Longrightarrow> length vals = length ps \<Longrightarrow> length vals' = length ps \<Longrightarrow>
     concat ts @ r = concat ts' @ r' \<Longrightarrow> starts_clean r \<Longrightarrow> starts_clean r' \<Longrightarrow> ts = ts' \<and> r = r'"
proof (induction ps arbitrary: vals vals' ts ts')
  case (Cons p ps)
  obtain v vs v' vs' where vals: "vals = v # vs" "vals' = v' # vs'"
    using Cons.prems by (cases vals; cases vals') auto
  show ?case
  proof (cases "is_constexpr p")
    case True
    then show ?thesis using Cons.prems Cons.IH [of vs ts vs' ts'] by (simp add: vals)
  next
    case False
    obtain t us t' us' where t: "ts = t # us" "ts' = t' # us'" "sig_types ps vs = Inr us" "sig_types ps vs' = Inr us'"
      and code: "annotation_type p \<noteq> [] \<and> t = t' \<or> t \<in> set (codes (param_is_const p)) \<and> t' \<in> set (codes (param_is_const p))"
      using Cons.prems(1,2) False by (auto simp: vals bind_r_eq_Inr_iff dest!: mangle_type_code split: if_splits)
    have clean: "starts_clean (concat us @ r)" "starts_clean (concat us' @ r')"
      using t Cons.prems types_start_clean by auto
    have eq: "t @ concat us @ r = t' @ concat us' @ r'" using Cons.prems(5) by (simp add: t)
    have "t = t' \<and> concat us @ r = concat us' @ r'"
      using code codes_append [OF _ _ eq clean] eq by auto
    then show ?thesis
      using Cons.IH [OF t(3,4)] Cons.prems by (simp add: t vals)
  qed
qed simp

lemma specialisations_length: 
  "length vals = length ps \<Longrightarrow> length (specialisations ps vals) = length (filter (\<lambda>p. \<not> is_constexpr p \<and> \<not> do_not_specialize p) ps)"
  by (induction ps vals rule: specialisations.induct) auto

lemma specialisations_start_clean:
  "starts_clean r \<Longrightarrow> starts_clean (specialisations ps vals @ r)"
  by (induction ps vals rule: specialisations.induct)
    (auto simp: starts_clean_def continues_def get_property_key_def)


text \<open>
  What is asked of the environment: printing puts the tuple in parentheses and loses nothing of plain values,
  and the options are read off the keyword arguments that are not parameters.
\<close>

fun printable :: "pyarg \<Rightarrow> bool" where
  "printable (ATensor d p) = False"
| "printable (ATma i) = False"
| "printable _ = True"

definition prints_apart :: "(pyarg list \<times> pyarg dict \<Rightarrow> string) \<Rightarrow> bool" where
  "prints_apart pr \<longleftrightarrow>
     (\<forall>x. \<exists>r. pr x = CHR ''('' # r) \<and>
     (\<forall>c e c' e'. list_all printable c \<and> list_all printable c' \<and> list_all (printable \<circ> snd) e \<and> list_all (printable \<circ> snd) e' \<and>
        pr (c, e) = pr (c', e') \<longrightarrow> c = c' \<and> e = e')"

lemma prints_clean: "prints_apart pr \<Longrightarrow> starts_clean (pr x)"
proof -
  assume "prints_apart pr"
  then obtain r where "pr x = CHR ''('' # r" unfolding prints_apart_def by blast
  then show ?thesis by (simp add: starts_clean_def continues_def)
qed

definition constexprs_printable :: "kernel_param list \<Rightarrow> pyarg list \<Rightarrow> pyarg dict \<Rightarrow> bool" where
  "constexprs_printable ps vals ex \<longleftrightarrow> list_all printable (constexpr_vals ps vals) \<and> list_all (printable \<circ> snd) ex"

lemma dispatch_key_parts:
  assumes "prints_apart pr" "length vals = length ps" "length vals' = length ps"
    "constexprs_printable ps vals ex" "constexprs_printable ps vals' ex'"
    "dispatch_key pr ps vals ex = Inr key" "dispatch_key pr ps vals' ex' = Inr key"
  shows "sig_types ps vals = sig_types ps vals' \<and> specialisations ps vals = specialisations ps vals' \<and>
    constexpr_vals ps vals = constexpr_vals ps vals' \<and> ex = ex'"
proof -
  obtain ts ts' where ts: "sig_types ps vals = Inr ts" "sig_types ps vals' = Inr ts'"
    and key: "concat ts @ specialisations ps vals @ pr (constexpr_vals ps vals, ex) =
      concat ts' @ specialisations ps vals' @ pr (constexpr_vals ps vals', ex')"
    using assms(6,7) by (auto simp: dispatch_key_def bind_r_eq_Inr_iff)
  have "ts = ts' \<and> specialisations ps vals @ pr (constexpr_vals ps vals, ex) =
      specialisations ps vals' @ pr (constexpr_vals ps vals', ex')"
    using types_decode [OF ts assms(2,3) key] by (simp add: specialisations_start_clean prints_clean [OF assms(1)])
  moreover from this have "specialisations ps vals = specialisations ps vals' \<and>
      pr (constexpr_vals ps vals, ex) = pr (constexpr_vals ps vals', ex')"
    using assms(2,3) by (simp add: specialisations_length)
  ultimately show ?thesis
    using assms(1,4,5) ts unfolding prints_apart_def constexprs_printable_def by metis
qed

section \<open>Equal keys, equal requests\<close>

text \<open>An annotated parameter hides that its argument is \<open>None\<close>.\<close>

definition none_visible :: "kernel_param list \<Rightarrow> pyarg list \<Rightarrow> bool" where
  "none_visible ps vals \<longleftrightarrow> list_all (\<lambda>(p, v). v = ANone \<longrightarrow> is_constexpr p \<or> annotation_type p = []) (zip ps vals)"

lemma get_property_key_attrs:
  "get_property_key v align = get_property_key v' align \<Longrightarrow>
     is_equal_to_1 v = is_equal_to_1 v' \<and> (align \<longrightarrow> is_divisible_by_16 v = is_divisible_by_16 v')"
  by (auto simp: get_property_key_def is_equal_to_1_def split: if_splits)

lemma mangle_none: "mangle_type v c = Inr ''none'' \<longleftrightarrow> v = ANone"
  by (cases v) (auto split: option.splits)

text \<open>What the two launches have in common, argument by argument.\<close>

definition similar :: "kernel_param \<Rightarrow> pyarg \<Rightarrow> pyarg \<Rightarrow> bool" where
  "similar p v v' \<longleftrightarrow>
     (if is_constexpr p then v = v'
      else (v = ANone \<longleftrightarrow> v' = ANone) \<and>
        (\<not> do_not_specialize p \<longrightarrow> is_equal_to_1 v = is_equal_to_1 v' \<and>
          (\<not> do_not_specialize_on_alignment p \<longrightarrow> is_divisible_by_16 v = is_divisible_by_16 v')))"

lemma parts_similar:
  "length vals = length ps \<Longrightarrow> length vals' = length ps \<Longrightarrow>
   sig_types ps vals = Inr ts \<Longrightarrow> sig_types ps vals' = Inr ts \<Longrightarrow> specialisations ps vals = specialisations ps vals' \<Longrightarrow>
   constexpr_vals ps vals = constexpr_vals ps vals' \<Longrightarrow> none_visible ps vals \<Longrightarrow> none_visible ps vals' \<Longrightarrow>
   list_all (\<lambda>(p, v, v'). similar p v v') (zip ps (zip vals vals'))"
proof (induction ps arbitrary: vals vals' ts)
  case (Cons p ps)
  obtain v vs v' vs' where vals: "vals = v # vs" "vals' = v' # vs'"
    using Cons.prems by (cases vals; cases vals') auto
  show ?case
  proof (cases "is_constexpr p")
    case True
    then show ?thesis
      using Cons.prems Cons.IH [of vs vs' ts] by (simp add: vals constexpr_vals_def none_visible_def similar_def)
  next
    case False
    obtain t us where t: "ts = t # us" "sig_types ps vs = Inr us" "sig_types ps vs' = Inr us"
      and code: "annotation_type p \<noteq> [] \<or> mangle_type v (param_is_const p) = Inr t \<and> mangle_type v' (param_is_const p) = Inr t"
      using Cons.prems(3,4) False by (auto simp: vals bind_r_eq_Inr_iff split: if_splits)
    have "v = ANone \<longleftrightarrow> v' = ANone"
    proof (cases "annotation_type p = []")
      case True
      then show ?thesis using code mangle_none [of v "param_is_const p"] mangle_none [of v' "param_is_const p"] by simp
    next
      case annotated: False
      then show ?thesis using Cons.prems(7,8) False by (simp add: vals none_visible_def)
    qed
    moreover have "\<not> do_not_specialize p \<Longrightarrow> is_equal_to_1 v = is_equal_to_1 v' \<and>
        (\<not> do_not_specialize_on_alignment p \<longrightarrow> is_divisible_by_16 v = is_divisible_by_16 v')"
      using Cons.prems(5) False get_property_key_attrs [of v "\<not> do_not_specialize_on_alignment p" v'] by (simp add: vals)
    moreover have "specialisations ps vs = specialisations ps vs'"
      using Cons.prems(5) by (auto simp: vals split: if_splits)
    ultimately show ?thesis
      using Cons.prems False t Cons.IH [of vs vs' us]
      by (simp add: vals constexpr_vals_def none_visible_def similar_def)
  qed
qed simp

lemma similar_attrs:
  assumes "list_all (\<lambda>(p, v, v'). similar p v v') (zip ps (zip vals vals'))" "length vals = length ps" "length vals' = length ps"
  shows "attrs_descriptor_init ps vals = attrs_descriptor_init ps vals'"
  using assms unfolding attrs_descriptor_init_def
proof (induction ps arbitrary: vals vals')
  case (Cons p ps)
  then obtain v vs v' vs' where vals: "vals = v # vs" "vals' = v' # vs'"
    by (cases vals; cases vals') auto
  have "similar p v v'" using Cons.prems by (simp add: vals)
  then have "(is_equal_to_1 v \<and> \<not> do_not_specialize p) = (is_equal_to_1 v' \<and> \<not> do_not_specialize p)"
    "(is_divisible_by_16 v \<and> \<not> do_not_specialize p \<and> \<not> do_not_specialize_on_alignment p) =
     (is_divisible_by_16 v' \<and> \<not> do_not_specialize p \<and> \<not> do_not_specialize_on_alignment p)"
    by (cases "is_constexpr p"; simp add: similar_def; blast)+
  then show ?case using Cons.prems Cons.IH [of vs vs'] by (simp add: vals)
qed simp


lemma equal_to_1_value:
  assumes "(p, v) \<in> set (zip ps vals)" "distinct (map num ps)" "num p \<in> set (equal_to_1 (attrs_descriptor_init ps vals))"
  shows "v = AInt 1"
proof -
  obtain q w where q: "(q, w) \<in> set (zip ps vals)" "is_equal_to_1 w" "num q = num p"
    using assms(3) unfolding attrs_descriptor_init_def by fastforce
  obtain i j where i: "i < length ps" "i < length vals" "p = ps ! i" "v = vals ! i"
    and j: "j < length ps" "j < length vals" "q = ps ! j" "w = vals ! j"
    using assms(1) q(1) by (auto simp: set_zip)
  have "i = j"
    using assms(2) q(3) i j by (metis distinct_conv_nth length_map nth_map)
  then show ?thesis using q(2) i j by (simp add: is_equal_to_1_def)
qed

lemma map_filter_zip_cong:
  "length xs = length ps \<Longrightarrow> length ys = length ps \<Longrightarrow>
   (\<And>p x y. (p, x) \<in> set (zip ps xs) \<Longrightarrow> (p, y) \<in> set (zip ps ys) \<Longrightarrow> (p, x, y) \<in> set (zip ps (zip xs ys)) \<Longrightarrow>
      P p x = P p y \<and> (P p x \<longrightarrow> f p x = f p y)) \<Longrightarrow>
   map (\<lambda>(p, v). f p v) (filter (\<lambda>(p, v). P p v) (zip ps xs)) = map (\<lambda>(p, v). f p v) (filter (\<lambda>(p, v). P p v) (zip ps ys))"
proof (induction ps arbitrary: xs ys)
  case (Cons p ps)
  obtain x xs' y ys' where xy: "xs = x # xs'" "ys = y # ys'" using Cons.prems(1,2) by (cases xs; cases ys) auto
  have "P p x = P p y \<and> (P p x \<longrightarrow> f p x = f p y)" by (rule Cons.prems(3)) (simp_all add: xy)
  moreover have "map (\<lambda>(p, v). f p v) (filter (\<lambda>(p, v). P p v) (zip ps xs')) = map (\<lambda>(p, v). f p v) (filter (\<lambda>(p, v). P p v) (zip ps ys'))"
    using Cons.prems by (intro Cons.IH) (simp_all add: xy)
  ultimately show ?case by (simp add: xy)
qed simp

lemma similar_request:
  assumes sim: "list_all (\<lambda>(p, v, v'). similar p v v') (zip ps (zip vals vals'))"
    and len: "length vals = length ps" "length vals' = length ps" and nums: "distinct (map num ps)"
  shows "make_request ps vals ts opts = make_request ps vals' ts opts"
proof -
  have attrs: "attrs_descriptor_init ps vals = attrs_descriptor_init ps vals'"
    using similar_attrs [OF sim len] .
  have "map (\<lambda>(p, v). (pname p, v)) (filter (\<lambda>(p, v). is_constexpr p \<or>
          num p \<in> set (equal_to_1 (attrs_descriptor_init ps vals')) \<or> v = ANone) (zip ps vals)) =
        map (\<lambda>(p, v). (pname p, v)) (filter (\<lambda>(p, v). is_constexpr p \<or>
          num p \<in> set (equal_to_1 (attrs_descriptor_init ps vals')) \<or> v = ANone) (zip ps vals'))"
  proof (rule map_filter_zip_cong [OF len])
    fix p v v'
    assume v: "(p, v) \<in> set (zip ps vals)" "(p, v') \<in> set (zip ps vals')" "(p, v, v') \<in> set (zip ps (zip vals vals'))"
    have "num p \<in> set (equal_to_1 (attrs_descriptor_init ps vals')) \<Longrightarrow> v = v'"
      using equal_to_1_value [OF v(1) nums] equal_to_1_value [OF v(2) nums] attrs by simp
    moreover have "similar p v v'" using sim v(3) by (auto simp: list_all_iff)
    ultimately show "(is_constexpr p \<or> num p \<in> set (equal_to_1 (attrs_descriptor_init ps vals')) \<or> v = ANone) =
        (is_constexpr p \<or> num p \<in> set (equal_to_1 (attrs_descriptor_init ps vals')) \<or> v' = ANone) \<and>
      (is_constexpr p \<or> num p \<in> set (equal_to_1 (attrs_descriptor_init ps vals')) \<or> v = ANone \<longrightarrow> (pname p, v) = (pname p, v'))"
      by (auto simp: similar_def split: if_splits)
  qed
  then show ?thesis by (simp add: make_request_def attrs Let_def)
qed

text \<open>
  \<open>parse_options\<close> picks the keywords that name an option, in any order.  It gets all keyword arguments of the
  launch, also those that are parameters of the kernel, so a parameter with the name of an option would be read as
  one; the key of the launch does not show this.
\<close>

definition reads_only :: "(pyarg dict \<Rightarrow> 'o result) \<Rightarrow> string list \<Rightarrow> bool" where
  "reads_only parse names \<longleftrightarrow>
     (\<forall>kwargs kwargs'. (\<forall>k \<in> set names. map_of kwargs k = map_of kwargs' k) \<longrightarrow> parse kwargs = parse kwargs')"

definition options_apart :: "('o, 'k) jit_env \<Rightarrow> kernel_param list \<Rightarrow> bool" where
  "options_apart env ps \<longleftrightarrow> list_all (\<lambda>p. pname p \<notin> set (option_names env)) ps"

text \<open>Then the options are read off the keyword arguments that are not parameters.\<close>

definition reads_options :: "('o, 'k) jit_env \<Rightarrow> kernel_param list \<Rightarrow> bool" where
  "reads_options env ps \<longleftrightarrow>
     (\<forall>kwargs kwargs'. map_of (excess ps kwargs) = map_of (excess ps kwargs') \<longrightarrow> parse_opts env kwargs = parse_opts env kwargs')"

definition params_ok :: "kernel_param list \<Rightarrow> bool" where
  "params_ok ps \<longleftrightarrow> distinct (map num ps) \<and> distinct (map pname ps) \<and>
     list_all (\<lambda>p. pname p \<notin> set [''device_type'', ''device'', ''stream'']) ps"

lemma map_of_excess: "k \<notin> pname ` set ps \<Longrightarrow> map_of (excess ps kwargs) k = map_of kwargs k"
  by (induction kwargs) (simp_all add: excess_def split: prod.split)

lemma reads_only_options:
  assumes "reads_only (parse_opts env) (option_names env)" "options_apart env ps"
  shows "reads_options env ps"
  unfolding reads_options_def
proof (intro allI impI)
  fix kwargs kwargs'
  assume eq: "map_of (excess ps kwargs) = map_of (excess ps kwargs')"
  have "map_of kwargs k = map_of kwargs' k" if "k \<in> set (option_names env)" for k
  proof -
    have "k \<notin> pname ` set ps" using assms(2) that by (auto simp: options_apart_def list_all_iff)
    then show ?thesis using fun_cong [OF eq, of k] map_of_excess [of k ps] by simp
  qed
  then show "parse_opts env kwargs = parse_opts env kwargs'"
    using assms(1) unfolding reads_only_def by blast
qed

lemma list_all_dom: "list_all (\<lambda>(k, v). P k) xs = (\<forall>k \<in> dom (map_of xs). P k)"
  by (auto simp: dom_map_of_conv_image_fst list_all_iff)

lemma compile_kernel_cong:
  fixes env :: "('o, 'k) jit_env"
  assumes "reads_options env ps" "params_ok ps" "map_of (excess ps kwargs) = map_of (excess ps kwargs')"
    "sig_types ps vals = sig_types ps vals'" "\<And>ts (opts :: 'o). make_request ps vals ts opts = make_request ps vals' ts opts"
  shows "compile_kernel env ps vals kwargs (excess ps kwargs) = compile_kernel env ps vals' kwargs' (excess ps kwargs')"
proof -
  have opts: "parse_opts env kwargs = parse_opts env kwargs'"
    by (rule assms(1) [unfolded reads_options_def, rule_format, OF assms(3)])
  have "k \<in> set [''device_type'', ''device'', ''stream''] \<Longrightarrow> map_of kwargs k = map_of kwargs' k" for k
  proof -
    assume k: "k \<in> set [''device_type'', ''device'', ''stream'']"
    have "k \<notin> pname ` set ps"
    proof
      assume "k \<in> pname ` set ps"
      then obtain p where "p \<in> set ps" "k = pname p" by (rule imageE)
      then show False using assms(2) k unfolding params_ok_def list_all_iff by metis
    qed
    then show "map_of kwargs k = map_of kwargs' k"
      using fun_cong [OF assms(3), of k] map_of_excess [of k ps kwargs] map_of_excess [of k ps kwargs'] by metis
  qed
  then have deprecated: "list_all (\<lambda>k. map_of kwargs k = None) [''device_type'', ''device'', ''stream''] =
      list_all (\<lambda>k. map_of kwargs' k = None) [''device_type'', ''device'', ''stream'']"
    by simp
  show ?thesis
    unfolding compile_kernel_def opts deprecated list_all_dom assms(3-5) by (rule refl)
qed

end
