(* ===== verification/Jit_Binding.thy ===== *)
theory Jit_Binding
  imports Jit
begin

text \<open>
  \<open>_normalize_args\<close> against the binder: merging positional arguments, keywords and defaults into one
  list gives what a call of the generated function binds, and gives up exactly where that call raises.
\<close>

section \<open>The binder\<close>

lemma bind_params_no_args: 
  "bind_params ps [] kwargs =
     (if list_all (\<lambda>p. map_of kwargs (pname p) \<noteq> None \<or> default p \<noteq> None) ps
      then Inr (map (\<lambda>p. case map_of kwargs (pname p) of Some v \<Rightarrow> v | None \<Rightarrow> the (default p)) ps)
      else Inl TypeError)"
  by (induction ps) (auto split: option.splits)

lemma bind_params_args:
  "bind_params ps args kwargs =
     (if length args \<le> length ps \<and> list_all (\<lambda>p. map_of kwargs (pname p) = None) (take (length args) ps)
      then bind_r (bind_params (drop (length args) ps) [] kwargs) (\<lambda>vs. Inr (args @ vs))
      else Inl TypeError)"
proof (induction ps args kwargs rule: bind_params.induct)
  case (2 p ps a args kwargs)
  show ?case
  proof (cases "map_of kwargs (pname p) = None")
    case True
    then show ?thesis
      using 2 by (cases "bind_params (drop (length args) ps) [] kwargs") simp_all
  qed auto
next
  case (3 p ps kwargs)
  show ?case by (cases "bind_params (p # ps) [] kwargs") simp_all
qed simp

section \<open>Merging\<close>

lemma param_index_Some:
  "param_index ps x = Some i \<Longrightarrow> i < length ps \<and> pname (ps ! i) = x"
  by (induction ps x arbitrary: i rule: param_index.induct) (auto split: if_splits)

lemma param_index_None: "param_index ps x = None \<longleftrightarrow> x \<notin> set (map pname ps)"
  by (induction ps x rule: param_index.induct) simp_all

lemma param_index_nth: "distinct (map pname ps) \<Longrightarrow> i < length ps \<Longrightarrow> param_index ps (pname (ps ! i)) = Some i"
proof (induction ps arbitrary: i)
  case (Cons p ps)
  then show ?case by (cases i) (auto simp: nth_mem)
qed simp

definition merged :: "pyarg dict \<Rightarrow> kernel_param list \<Rightarrow> pyarg option list \<Rightarrow> pyarg option list" where
  "merged kwargs ps full = map2 (\<lambda>p v. case map_of kwargs (pname p) of Some x \<Rightarrow> Some x | None \<Rightarrow> v) ps full"

lemma merged_update:
  assumes "distinct (map pname ps)" "param_index ps name = Some i" "length full = length ps" "name \<notin> fst ` set kwargs"
  shows "merged kwargs ps (full[i := Some v]) = merged ((name, v) # kwargs) ps full"
proof (rule nth_equalityI)
  fix j
  assume "j < length (merged kwargs ps (full[i := Some v]))"
  then have j: "j < length ps" using assms by (simp add: merged_def)
  have i: "i < length ps" "pname (ps ! i) = name" using param_index_Some [OF assms(2)] by simp_all
  have "map_of kwargs name = None" using assms(4) by (simp add: map_of_eq_None_iff)
  moreover have "pname (ps ! j) = name \<longleftrightarrow> j = i"
    using i j assms(1) by (metis distinct_conv_nth length_map nth_map)
  ultimately show "merged kwargs ps (full[i := Some v]) ! j = merged ((name, v) # kwargs) ps full ! j"
    using i j assms(3) by (simp add: merged_def split: option.split)
qed (use assms in \<open>simp add: merged_def\<close>)

lemma merged_other: "name \<notin> set (map pname ps) \<Longrightarrow> merged ((name, v) # kwargs) ps full = merged kwargs ps full"
  unfolding merged_def by (rule map_cong) (auto dest!: set_zip_leftD)

lemma excess_Cons: "excess ps ((name, v) # kwargs) = (if name \<in> set (map pname ps) then excess ps kwargs else (name, v) # excess ps kwargs)"
  by (simp add: excess_def)

lemma merge_kwargs_eq:
  "distinct (map pname ps) \<Longrightarrow> distinct (map fst kwargs) \<Longrightarrow> length full = length ps \<Longrightarrow>
   merge_kwargs ps n kwargs full opts =
     (if list_all (\<lambda>p. map_of kwargs (pname p) = None) (take n ps)
      then Some (merged kwargs ps full, opts @ excess ps kwargs) else None)"
proof (induction ps n kwargs full opts rule: merge_kwargs.induct)
  case (1 ps n_args full opt_kwargs)
  have "map2 (\<lambda>p v. v) ps full = full"
    using 1 by (intro nth_equalityI) simp_all
  then show ?case by (simp add: merged_def excess_def list.pred_True)
next
  case (2 ps n name v kwargs full opts)
  show ?case
  proof (cases "param_index ps name")
    case None
    then have "name \<notin> set (map pname ps)" by (simp add: param_index_None)
    moreover from this have "list_all (\<lambda>p. map_of ((name, v) # kwargs) (pname p) = None) (take n ps) =
        list_all (\<lambda>p. map_of kwargs (pname p) = None) (take n ps)"
      by (intro list_all_cong refl) (auto dest: in_set_takeD)
    ultimately show ?thesis
      using 2 None by (simp add: merged_other excess_Cons del: map_of.simps)
  next
    case (Some i)
    have i: "i < length ps" "pname (ps ! i) = name" using param_index_Some [OF Some] by simp_all
    have taken: "(\<exists>p \<in> set (take n ps). pname p = name) \<longleftrightarrow> i < n"
    proof
      assume "\<exists>p \<in> set (take n ps). pname p = name"
      then obtain j where "j < n" "j < length ps" "pname (ps ! j) = name" by (auto simp: in_set_conv_nth)
      then show "i < n" using param_index_nth [OF "2.prems"(1), of j] Some by simp
    next
      assume "i < n"
      then show "\<exists>p \<in> set (take n ps). pname p = name" using i by (intro bexI [of _ "ps ! i"]) (auto simp: in_set_conv_nth)
    qed
    have "name \<in> set (map pname ps)" using i by (metis length_map nth_map nth_mem)
    moreover have "list_all (\<lambda>p. map_of ((name, v) # kwargs) (pname p) = None) (take n ps) =
        (\<not> i < n \<and> list_all (\<lambda>p. map_of kwargs (pname p) = None) (take n ps))"
      using taken by (auto simp: list_all_iff)
    ultimately show ?thesis
      using 2 Some by (simp add: merged_update excess_Cons del: map_of.simps)
  qed
qed

section \<open>Defaults\<close>

lemma fill_defaults_eq:
  "length full = length ps \<Longrightarrow>
   fill_defaults ps full =
     (if list_all2 (\<lambda>p v. v \<noteq> None \<or> default p \<noteq> None) ps full
      then Some (map2 (\<lambda>p v. case v of Some x \<Rightarrow> x | None \<Rightarrow> the (default p)) ps full) else None)"
  by (induction ps full rule: list_induct2') (auto split: option.splits)


lemma fill_defaults_append:
  "length args \<le> length ps \<Longrightarrow>
   fill_defaults ps (map Some args @ full) = map_option ((@) args) (fill_defaults (drop (length args) ps) full)"
proof (induction args arbitrary: ps)
  case Nil
  then show ?case by (cases "fill_defaults ps full") simp_all
next
  case (Cons a args)
  then obtain p ps' where "ps = p # ps'" by (cases ps) auto
  then show ?case using Cons by (cases "fill_defaults (drop (length args) ps') full") simp_all
qed

lemma merged_positional:
  assumes "length args \<le> length ps" "list_all (\<lambda>p. map_of kwargs (pname p) = None) (take (length args) ps)"
  shows "merged kwargs ps (map Some args @ replicate (length ps - length args) None) =
    map Some args @ map (\<lambda>p. map_of kwargs (pname p)) (drop (length args) ps)"
proof (rule nth_equalityI)
  fix i
  assume "i < length (merged kwargs ps (map Some args @ replicate (length ps - length args) None))"
  then have i: "i < length ps" using assms(1) by (simp add: merged_def)
  show "merged kwargs ps (map Some args @ replicate (length ps - length args) None) ! i =
      (map Some args @ map (\<lambda>p. map_of kwargs (pname p)) (drop (length args) ps)) ! i"
  proof (cases "i < length args")
    case True
    then have "map_of kwargs (pname (ps ! i)) = None"
      using assms i by (simp add: list_all_length)
    then show ?thesis using True i by (simp add: merged_def nth_append)
  next
    case False
    then show ?thesis using i assms(1) by (simp add: merged_def nth_append split: option.split)
  qed
qed (use assms(1) in \<open>simp add: merged_def\<close>)

lemma bind_defaults:
  "fill_defaults ps (map (\<lambda>p. map_of kwargs (pname p)) ps) =
     (case bind_params ps [] kwargs of Inr vals \<Rightarrow> Some vals | Inl e \<Rightarrow> None)"
  by (induction ps) (auto split: option.splits sum.splits simp: bind_r_def)

lemma normalize_args_eq:
  assumes "distinct (map pname ps)" "distinct (map fst kwargs)"
  shows "normalize_args ps args kwargs =
    (case bind_params ps args kwargs of Inr vals \<Rightarrow> Some (vals, excess ps kwargs) | Inl e \<Rightarrow> None)"
proof (cases "length args \<le> length ps \<and> list_all (\<lambda>p. map_of kwargs (pname p) = None) (take (length args) ps)")
  case True
  then show ?thesis
    using assms bind_defaults [of "drop (length args) ps" kwargs]
    by (simp add: normalize_args_def merge_kwargs_eq merged_positional fill_defaults_append bind_params_args [of ps args]
        split: sum.splits)
next
  case False
  then show ?thesis
    using assms by (auto simp: normalize_args_def merge_kwargs_eq bind_params_args [of ps args])
qed

text \<open>C29: merging the arguments of a call into one list, the shortcut of the dispatch fast path, gives exactly
  the values the generated binder assigns to the parameters and the keyword arguments it passes on; where the
  binder raises (too many positional arguments, a parameter given twice, a required one missing), and only
  there, the shortcut declines.  Parameter names and keywords are distinct, as Python has it.\<close>

theorem normalize_args_binds:
  assumes "distinct (map pname ps)" "distinct (map fst kwargs)"
  shows "normalize_args ps args kwargs =
    (case bind_params ps args kwargs of Inr vals \<Rightarrow> Some (vals, excess ps kwargs) | Inl e \<Rightarrow> None)"
  using assms by (rule normalize_args_eq)

definition example_params :: "kernel_param list" where
  "example_params =
     [\<lparr>num = 0, pname = ''x_ptr'', annotation = [], do_not_specialize = False, do_not_specialize_on_alignment = False, default = None\<rparr>,
      \<lparr>num = 1, pname = ''n'', annotation = [], do_not_specialize = False, do_not_specialize_on_alignment = False, default = None\<rparr>,
      \<lparr>num = 2, pname = ''BLOCK'', annotation = ''tl.constexpr'', do_not_specialize = False,
       do_not_specialize_on_alignment = False, default = Some (AInt 128)\<rparr>]"

lemma normalize_args_binds_witness:
  "normalize_args example_params [ATensor ''torch.float32'' 4096] [(''n'', AInt 1000), (''num_warps'', AInt 4)] =
     Some ([ATensor ''torch.float32'' 4096, AInt 1000, AInt 128], [(''num_warps'', AInt 4)])"
  using normalize_args_binds [of example_params "[(''n'', AInt 1000), (''num_warps'', AInt 4)]" "[ATensor ''torch.float32'' 4096]"]
  by (simp add: example_params_def excess_def)

end
