(* ===== verification/Jit_Properties.thy ===== *)
theory Jit_Properties
  imports Jit_Keys Jit_Binding
begin

text \<open>
  A launch through the caches of \<open>JITFunction\<close> returns what it would without them.  The reference is the
  code of \<open>run\<close> with an empty dictionary of kernels and no fast path; the invariant says that every kernel
  the state holds is the one the compiler gives for the launch it was stored under.
\<close>

declare split_paired_All [simp del] split_paired_Ex [simp del]

section \<open>Fingerprints\<close>

lemma number_value_cases: "number_value v = Some x \<Longrightarrow> (\<exists>b. v = ABool b) \<or> (\<exists>i. v = AInt i) \<or> (\<exists>f. v = AFloat f)"
  by (cases v) simp_all

lemma py_eq_same_type:
  assumes "py_eq v v'" "py_type v = py_type v'"
  shows "v = v' \<or> (\<exists>f g. v = AFloat f \<and> v' = AFloat g)"
proof (cases "number_value v \<noteq> None \<and> number_value v' \<noteq> None")
  case True
  then obtain x where x: "number_value v = Some x" "number_value v' = Some x"
    using assms(1) by (auto simp: py_eq_def split: if_splits)
  show ?thesis
    using number_value_cases [OF x(1)] number_value_cases [OF x(2)] assms(2) x by auto
next
  case False
  then show ?thesis using assms(1) by (auto simp: py_eq_def split: if_splits)
qed

lemma py_eq_float: "py_eq (AFloat f) (AFloat g) \<Longrightarrow> f \<noteq> NegZero \<Longrightarrow> g \<noteq> NegZero \<Longrightarrow> f = g"
  by (cases f; cases g) (simp_all add: py_eq_def)

fun is_tensor :: "pyarg \<Rightarrow> bool" where
  "is_tensor (ATensor d p) = True"
| "is_tensor _ = False"

lemma finger_arg_eq:
  assumes "finger_eq (finger_arg v) (finger_arg v')"
  shows "v = v' \<or> (\<exists>f g. v = AFloat f \<and> v' = AFloat g \<and> py_eq v v') \<or>
    (\<exists>d p q. v = ATensor d p \<and> v' = ATensor d q \<and> (p mod 16 = 0) = (q mod 16 = 0))"
proof (cases "is_tensor v \<or> is_tensor v'")
  case True
  then show ?thesis using assms by (cases v; cases v') auto
next
  case False
  then have "py_type v = py_type v'" "py_eq v v'" using assms by (cases v; cases v'; simp)+
  then show ?thesis using py_eq_same_type by blast
qed

lemma finger_arg_facts:
  assumes "finger_eq (finger_arg v) (finger_arg v')"
  shows "mangle_type v c = mangle_type v' c" "get_property_key v align = get_property_key v' align"
  using finger_arg_eq [OF assms] by (auto simp: get_property_key_def is_equal_to_1_def)

text \<open>Compile-time arguments the fingerprint tells apart.\<close>

definition constexprs_plain :: "kernel_param list \<Rightarrow> pyarg list \<Rightarrow> bool" where
  "constexprs_plain ps vals \<longleftrightarrow>
     list_all (\<lambda>(p, v). is_constexpr p \<longrightarrow> v \<noteq> AFloat NegZero \<and> \<not> is_tensor v) (zip ps vals)"

lemma fingers_parts:
  "list_all2 finger_eq (map finger_arg vals) (map finger_arg vals') \<Longrightarrow> length vals = length ps \<Longrightarrow>
   constexprs_plain ps vals \<Longrightarrow> constexprs_plain ps vals' \<Longrightarrow>
   sig_types ps vals = sig_types ps vals' \<and> specialisations ps vals = specialisations ps vals' \<and>
   constexpr_vals ps vals = constexpr_vals ps vals'"
proof (induction ps arbitrary: vals vals')
  case (Cons p ps)
  then obtain v vs v' vs' where vals: "vals = v # vs" "vals' = v' # vs'"
    by (cases vals; cases vals') auto
  have eq: "finger_eq (finger_arg v) (finger_arg v')" using Cons.prems(1) by (simp add: vals)
  have "is_constexpr p \<Longrightarrow> v = v'"
    using finger_arg_eq [OF eq] Cons.prems(3,4) py_eq_float by (auto simp: vals constexprs_plain_def)
  moreover have "sig_types ps vs = sig_types ps vs' \<and> specialisations ps vs = specialisations ps vs' \<and>
      constexpr_vals ps vs = constexpr_vals ps vs'"
    using Cons.prems by (intro Cons.IH) (simp_all add: vals constexprs_plain_def)
  ultimately show ?case
    using finger_arg_facts [OF eq] by (simp add: vals constexpr_vals_def)
qed (simp add: constexpr_vals_def)

text \<open>Options of one type each, which is what the fingerprint needs to tell them apart.\<close>

definition options_typed :: "(string \<Rightarrow> string) \<Rightarrow> pyarg dict \<Rightarrow> bool" where
  "options_typed opt_type opts \<longleftrightarrow>
     list_all (\<lambda>(k, v). py_type v = opt_type k \<and> v \<noteq> AFloat NegZero \<and> \<not> is_tensor v) opts"

lemma finger_opt_eq:
  assumes "finger_eq (finger_opt v) (finger_opt v')" "py_type v = py_type v'" "v \<noteq> AFloat NegZero" "v' \<noteq> AFloat NegZero"
    "\<not> is_tensor v" "\<not> is_tensor v'"
  shows "v = v'"
proof -
  have "py_eq v v'" using assms(1,5,6) by (cases v; cases v') simp_all
  then show ?thesis using py_eq_same_type [OF _ assms(2)] py_eq_float assms(3,4) by blast
qed

lemma finger_opts_eq:
  "list_all2 (\<lambda>(k, v) (k', v'). k = k' \<and> finger_eq v v') (map (\<lambda>(k, v). (k, finger_opt v)) xs) (map (\<lambda>(k, v). (k, finger_opt v)) ys) \<Longrightarrow>
   options_typed opt_type xs \<Longrightarrow> options_typed opt_type ys \<Longrightarrow> xs = ys"
proof (induction xs arbitrary: ys)
  case (Cons x xs)
  then obtain k v k' v' ys' where xy: "x = (k, v)" "ys = (k', v') # ys'"
    by (cases x; cases ys) auto
  then show ?case
    using Cons finger_opt_eq [of v v'] by (simp add: options_typed_def)
qed simp

lemma insert_item_set: "set (insert_item x xs) = insert x (set xs)"
  by (induction xs) auto

lemma sort_items_set: "set (sort_items xs) = set xs"
  unfolding sort_items_def by (induction xs) (simp_all add: insert_item_set)

lemma insert_item_keys: "distinct (map fst (insert_item x xs)) = (fst x \<notin> fst ` set xs \<and> distinct (map fst xs))"
  by (induction xs) (auto simp: insert_item_set)

lemma sort_items_keys: "distinct (map fst (sort_items xs)) = distinct (map fst xs)"
  unfolding sort_items_def
proof (induction xs)
  case (Cons x xs)
  have "set (foldr insert_item xs []) = set xs" using sort_items_set [of xs] by (simp add: sort_items_def)
  then show ?case using Cons by (simp add: insert_item_keys)
qed simp

lemma sort_items_map_of:
  "sort_items xs = sort_items ys \<Longrightarrow> distinct (map fst xs) \<Longrightarrow> distinct (map fst ys) \<Longrightarrow> map_of xs = map_of ys"
  by (metis map_of_inject_set sort_items_set)


section \<open>Equal keys, equal kernels\<close>

text \<open>A launch the caches tell apart from others.\<close>

definition regular :: "(string \<Rightarrow> string) \<Rightarrow> kernel_param list \<Rightarrow> pyarg list \<Rightarrow> pyarg dict \<Rightarrow> bool" where
  "regular opt_type ps vals opts \<longleftrightarrow>
     none_visible ps vals \<and> constexprs_plain ps vals \<and> constexprs_printable ps vals opts \<and> options_typed opt_type opts"

definition env_ok :: "('o, 'k) jit_env \<Rightarrow> kernel_param list \<Rightarrow> bool" where
  "env_ok env ps \<longleftrightarrow> prints_apart (py_str env) \<and> reads_options env ps"

lemma env_okI:
  "prints_apart (py_str env) \<Longrightarrow> reads_only (parse_opts env) (option_names env) \<Longrightarrow> options_apart env ps \<Longrightarrow> env_ok env ps"
  by (simp add: env_ok_def reads_only_options)

lemma parts_compile:
  assumes "env_ok env ps" "params_ok ps" "map_of (excess ps kwargs) = map_of (excess ps kwargs')"
    "length vals = length ps" "length vals' = length ps" "none_visible ps vals" "none_visible ps vals'"
    "sig_types ps vals = Inr ts" "sig_types ps vals' = Inr ts" "specialisations ps vals = specialisations ps vals'"
    "constexpr_vals ps vals = constexpr_vals ps vals'"
  shows "compile_kernel env ps vals kwargs (excess ps kwargs) = compile_kernel env ps vals' kwargs' (excess ps kwargs')"
proof (rule compile_kernel_cong)
  have "list_all (\<lambda>(p, v, v'). similar p v v') (zip ps (zip vals vals'))"
    by (rule parts_similar) (use assms in simp_all)
  then show "make_request ps vals ts opts = make_request ps vals' ts opts" for ts and opts :: 'a
    using assms by (intro similar_request) (simp_all add: params_ok_def)
qed (use assms in \<open>simp_all add: env_ok_def\<close>)

lemma same_key_compile:
  assumes "env_ok env ps" "params_ok ps" "length vals = length ps" "length vals' = length ps"
    "regular opt_type ps vals (excess ps kwargs)" "regular opt_type ps vals' (excess ps kwargs')"
    "dispatch_key (py_str env) ps vals (excess ps kwargs) = Inr key"
    "dispatch_key (py_str env) ps vals' (excess ps kwargs') = Inr key"
  shows "compile_kernel env ps vals kwargs (excess ps kwargs) = compile_kernel env ps vals' kwargs' (excess ps kwargs')"
proof -
  obtain ts where "sig_types ps vals = Inr ts"
    using assms(7) by (auto simp: dispatch_key_def bind_r_eq_Inr_iff)
  then show ?thesis
    using assms dispatch_key_parts [of "py_str env" vals ps vals' "excess ps kwargs" "excess ps kwargs'" key]
    by (intro parts_compile [where ts = ts]) (simp_all add: regular_def env_ok_def)
qed

lemma same_fingerprint_compile:
  assumes env: "env_ok env ps" "params_ok ps" and len: "length vals = length ps"
    and reg: "regular opt_type ps vals (excess ps kwargs)" "regular opt_type ps vals' (excess ps kwargs')"
    and keys: "distinct (map fst kwargs)" "distinct (map fst kwargs')"
    and ts: "sig_types ps vals' = Inr ts"
    and fp: "fingerprint_eq (fingerprint vals (excess ps kwargs)) (fingerprint vals' (excess ps kwargs'))"
  shows "compile_kernel env ps vals kwargs (excess ps kwargs) = compile_kernel env ps vals' kwargs' (excess ps kwargs')"
    "sig_types ps vals = Inr ts"
proof -
  have fingers: "list_all2 finger_eq (map finger_arg vals) (map finger_arg vals')"
    and opts: "list_all2 (\<lambda>(k, v) (k', v'). k = k' \<and> finger_eq v v')
      (map (\<lambda>(k, v). (k, finger_opt v)) (sort_items (excess ps kwargs)))
      (map (\<lambda>(k, v). (k, finger_opt v)) (sort_items (excess ps kwargs')))"
    using fp by (simp_all add: fingerprint_eq_def fingerprint_def)
  have parts: "sig_types ps vals = sig_types ps vals' \<and> specialisations ps vals = specialisations ps vals' \<and>
      constexpr_vals ps vals = constexpr_vals ps vals'"
    using fingers reg len by (intro fingers_parts) (simp_all add: regular_def)
  show "sig_types ps vals = Inr ts" using parts ts by simp
  have "options_typed opt_type (sort_items (excess ps kwargs))" "options_typed opt_type (sort_items (excess ps kwargs'))"
    using reg by (simp_all add: regular_def options_typed_def list_all_iff sort_items_set)
  then have "sort_items (excess ps kwargs) = sort_items (excess ps kwargs')"
    using finger_opts_eq [OF opts] by blast
  moreover have "distinct (map fst (excess ps kwargs))" "distinct (map fst (excess ps kwargs'))"
    using keys by (simp_all add: excess_def distinct_map_filter)
  ultimately have "map_of (excess ps kwargs) = map_of (excess ps kwargs')"
    by (rule sort_items_map_of)
  moreover have "length vals' = length ps" using list_all2_lengthD [OF fingers] len by simp
  ultimately show "compile_kernel env ps vals kwargs (excess ps kwargs) = compile_kernel env ps vals' kwargs' (excess ps kwargs')"
    using parts ts len reg env by (intro parts_compile [where ts = ts]) (simp_all add: regular_def)
qed

section \<open>The invariant\<close>

definition jit_inv :: "(string \<Rightarrow> string) \<Rightarrow> ('o, 'k) jit_env \<Rightarrow> kernel_param list \<Rightarrow> 'k jit_state \<Rightarrow> bool" where
  "jit_inv opt_type env ps s \<longleftrightarrow>
     (\<forall>key k. map_of (kernels s) key = Some k \<longrightarrow>
        (\<exists>vals kwargs. length vals = length ps \<and> regular opt_type ps vals (excess ps kwargs) \<and>
           dispatch_key (py_str env) ps vals (excess ps kwargs) = Inr key \<and>
           compile_kernel env ps vals kwargs (excess ps kwargs) = Inr k)) \<and>
     (\<forall>fp k. fast_args_fp s = Some fp \<and> fast_kernel s = Some k \<longrightarrow>
        (\<exists>vals kwargs ts. length vals = length ps \<and> regular opt_type ps vals (excess ps kwargs) \<and> distinct (map fst kwargs) \<and>
           fp = fingerprint vals (excess ps kwargs) \<and> sig_types ps vals = Inr ts \<and>
           compile_kernel env ps vals kwargs (excess ps kwargs) = Inr k))"

definition new_jit_state :: "'k jit_state" where
  "new_jit_state = \<lparr>kernels = [], fast_args_fp = None, fast_kernel = None\<rparr>"

lemma new_jit_inv: "jit_inv opt_type env ps new_jit_state"
  by (simp add: jit_inv_def new_jit_state_def)

text \<open>A launch without caches.\<close>

definition launch_afresh ::
  "('o, 'k) jit_env \<Rightarrow> kernel_param list \<Rightarrow> pyarg list \<Rightarrow> pyarg dict \<Rightarrow> ('k \<times> pyarg list) result" where
  "launch_afresh env ps args kwargs =
     bind_r (bind_params ps args kwargs) (\<lambda>vals.
     bind_r (dispatch_key (py_str env) ps vals (excess ps kwargs)) (\<lambda>key.
     bind_r (compile_kernel env ps vals kwargs (excess ps kwargs)) (\<lambda>k. Inr (k, non_constexpr_vals ps vals))))"

lemma bind_params_length: "bind_params ps args kwargs = Inr vals \<Longrightarrow> length vals = length ps"
  by (induction ps args kwargs arbitrary: vals rule: bind_params.induct)
    (auto simp: bind_r_eq_Inr_iff split: if_splits option.splits)

definition regular_call :: "(string \<Rightarrow> string) \<Rightarrow> kernel_param list \<Rightarrow> pyarg list \<Rightarrow> pyarg dict \<Rightarrow> bool" where
  "regular_call opt_type ps args kwargs \<longleftrightarrow>
     (case bind_params ps args kwargs of Inl e \<Rightarrow> True | Inr vals \<Rightarrow> regular opt_type ps vals (excess ps kwargs))"


lemma update_kernels_inv:
  assumes "jit_inv opt_type env ps s" "length vals = length ps" "regular opt_type ps vals (excess ps kwargs)"
    "dispatch_key (py_str env) ps vals (excess ps kwargs) = Inr key"
    "compile_kernel env ps vals kwargs (excess ps kwargs) = Inr k"
  shows "jit_inv opt_type env ps (s\<lparr>kernels := AList.update key k (kernels s)\<rparr>)"
  using assms unfolding jit_inv_def by (auto simp: update_conv split: if_splits)

lemma remember_inv:
  assumes "jit_inv opt_type env ps s" "length vals = length ps" "regular opt_type ps vals (excess ps kwargs)"
    "distinct (map fst kwargs)" "sig_types ps vals = Inr ts"
    "compile_kernel env ps vals kwargs (excess ps kwargs) = Inr k"
  shows "jit_inv opt_type env ps (s\<lparr>fast_args_fp := Some (fingerprint vals (excess ps kwargs)), fast_kernel := Some k\<rparr>)"
  using assms unfolding jit_inv_def by simp blast

text \<open>The outcome of a launch: the right answer, and a state that keeps the invariant.\<close>

definition launches :: "(string \<Rightarrow> string) \<Rightarrow> ('o, 'k) jit_env \<Rightarrow> kernel_param list \<Rightarrow> ('k \<times> pyarg list) result \<Rightarrow>
    (py_error + ('k \<times> pyarg list) \<times> 'k jit_state) \<Rightarrow> bool" where
  "launches opt_type env ps answer outcome \<longleftrightarrow>
     (case outcome of Inl e \<Rightarrow> answer = Inl e | Inr (r, s') \<Rightarrow> answer = Inr r \<and> jit_inv opt_type env ps s')"

lemma slow_path_launches:
  assumes "env_ok env ps" "params_ok ps" "jit_inv opt_type env ps s" "regular_call opt_type ps args kwargs"
    "distinct (map fst kwargs)"
    "\<And>vals. bind_params ps args kwargs = Inr vals \<Longrightarrow> fp = None \<or> fp = Some (fingerprint vals (excess ps kwargs))"
  shows "launches opt_type env ps (launch_afresh env ps args kwargs) (slow_path env ps args kwargs fp s)"
proof (cases "bind_params ps args kwargs")
  case (Inl e)
  then show ?thesis by (simp add: slow_path_def launch_afresh_def launches_def m_defs)
next
  case vals: (Inr vals)
  show ?thesis
  proof (cases "dispatch_key (py_str env) ps vals (excess ps kwargs)")
    case (Inl e)
    then show ?thesis using vals by (simp add: slow_path_def launch_afresh_def launches_def m_defs)
  next
    case key: (Inr key)
    have len: "length vals = length ps" using bind_params_length [OF vals] .
    have reg: "regular opt_type ps vals (excess ps kwargs)" using assms(4) vals by (simp add: regular_call_def)
    show ?thesis
    proof (cases "map_of (kernels s) key")
      case None
      show ?thesis
      proof (cases "compile_kernel env ps vals kwargs (excess ps kwargs)")
        case (Inl e)
        then show ?thesis using vals key None by (simp add: slow_path_def launch_afresh_def launches_def m_defs)
      next
        case (Inr k)
        then show ?thesis
          using vals key None update_kernels_inv [OF assms(3) len reg key Inr]
          by (simp add: slow_path_def launch_afresh_def launches_def m_defs)
      qed
    next
      case (Some k)
      obtain vals' kwargs' where stored: "length vals' = length ps" "regular opt_type ps vals' (excess ps kwargs')"
        "dispatch_key (py_str env) ps vals' (excess ps kwargs') = Inr key"
        "compile_kernel env ps vals' kwargs' (excess ps kwargs') = Inr k"
        using assms(3) Some unfolding jit_inv_def by blast
      have k: "compile_kernel env ps vals kwargs (excess ps kwargs) = Inr k"
        using same_key_compile [OF assms(1,2) len stored(1) reg stored(2) key stored(3)] stored(4) by simp
      obtain ts where ts: "sig_types ps vals = Inr ts" using key by (auto simp: dispatch_key_def bind_r_eq_Inr_iff)
      show ?thesis
        using vals key Some k assms(3) remember_inv [OF assms(3) len reg assms(5) ts k] assms(6) [OF vals]
        by (auto simp: slow_path_def launch_afresh_def launches_def m_defs)
    qed
  qed
qed

lemma bind_params_all_given:
  "length args = length ps \<Longrightarrow> bind_params ps args kwargs =
     (if list_all (\<lambda>p. map_of kwargs (pname p) = None) ps then Inr args else Inl TypeError)"
  by (simp add: bind_params_args [of ps args])

lemma excess_no_params: "list_all (\<lambda>p. map_of kwargs (pname p) = None) ps \<Longrightarrow> excess ps kwargs = kwargs"
proof -
  assume "list_all (\<lambda>p. map_of kwargs (pname p) = None) ps"
  then have none: "p \<in> set ps \<Longrightarrow> pname p \<notin> fst ` set kwargs" for p
    by (simp add: list_all_iff map_of_eq_None_iff)
  have "k \<notin> pname ` set ps" if "(k, v) \<in> set kwargs" for k v
  proof
    assume "k \<in> pname ` set ps"
    then obtain p where "p \<in> set ps" "k = pname p" by (rule imageE)
    then show False using none that by force
  qed
  then show ?thesis unfolding excess_def by (intro filter_True) auto
qed

lemma set_excess: "x \<in> set (excess ps kwargs) \<longleftrightarrow> x \<in> set kwargs \<and> fst x \<notin> pname ` set ps"
  by (cases x) (simp add: excess_def)

lemma full_args_bound:
  assumes "params_ok ps" "distinct (map fst kwargs)" "bind_params ps args kwargs = Inr vals"
  shows "full_args ps args kwargs = Some (vals, excess ps kwargs)"
proof (cases "length args = length ps")
  case True
  then show ?thesis
    using assms(3) by (auto simp: full_args_def bind_params_all_given excess_no_params split: if_splits)
next
  case False
  then show ?thesis
    using assms by (simp add: full_args_def normalize_args_eq params_ok_def)
qed


lemma finger_opts_keys:
  "list_all2 (\<lambda>(k, v) (k', v'). k = k' \<and> finger_eq v v') (map (\<lambda>(k, v). (k, finger_opt v)) xs) (map (\<lambda>(k, v). (k, finger_opt v)) ys) \<Longrightarrow>
     map fst xs = map fst ys"
  by (induction xs arbitrary: ys) (auto simp: list_all2_Cons1)

lemma fingerprint_keys:
  "fingerprint_eq (fingerprint vals xs) (fingerprint vals' ys) \<Longrightarrow> fst ` set xs = fst ` set ys"
proof -
  assume "fingerprint_eq (fingerprint vals xs) (fingerprint vals' ys)"
  then have "map fst (sort_items xs) = map fst (sort_items ys)"
    by (intro finger_opts_keys) (simp add: fingerprint_eq_def fingerprint_def)
  then have "fst ` set (sort_items xs) = fst ` set (sort_items ys)" by (metis list.set_map)
  then show ?thesis by (simp add: sort_items_set)
qed

lemma matching_call_binds:
  assumes "params_ok ps" "distinct (map fst kwargs)" "full_args ps args kwargs = Some (full, opts)"
    "fingerprint_eq (fingerprint full opts) (fingerprint vals' (excess ps kwargs'))"
  shows "bind_params ps args kwargs = Inr full" "opts = excess ps kwargs"
proof -
  have "bind_params ps args kwargs = Inr full \<and> opts = excess ps kwargs"
  proof (cases "length args = length ps")
    case True
    then have full: "full = args" "opts = kwargs" using assms(3) by (simp_all add: full_args_def)
    have "fst ` set kwargs = fst ` set (excess ps kwargs')"
      using fingerprint_keys [OF assms(4)] full by simp
    then have names: "pname p \<notin> fst ` set kwargs" if "p \<in> set ps" for p
      using that set_excess [of _ ps kwargs'] by (metis imageE image_eqI)
    have "list_all (\<lambda>p. map_of kwargs (pname p) = None) ps"
      using names by (simp add: list_all_iff map_of_eq_None_iff)
    then show ?thesis using True by (simp add: full bind_params_all_given excess_no_params)
  next
    case False
    then show ?thesis
      using assms by (simp add: full_args_def normalize_args_eq params_ok_def split: sum.splits)
  qed
  then show "bind_params ps args kwargs = Inr full" "opts = excess ps kwargs" by simp_all
qed

lemma fast_path_launches:
  assumes env: "env_ok env ps" "params_ok ps" and inv: "jit_inv opt_type env ps s"
    and call: "regular_call opt_type ps args kwargs" "distinct (map fst kwargs)"
    and full: "full_args ps args kwargs = Some (full, opts)"
    and fast: "fast_args_fp s = Some g" "fast_kernel s = Some k" "fingerprint_eq (fingerprint full opts) g"
  shows "launches opt_type env ps (launch_afresh env ps args kwargs) (Inr ((k, non_constexpr_vals ps full), s))"
proof -
  obtain vals' kwargs' ts where stored: "length vals' = length ps" "regular opt_type ps vals' (excess ps kwargs')"
    "distinct (map fst kwargs')" "g = fingerprint vals' (excess ps kwargs')" "sig_types ps vals' = Inr ts"
    "compile_kernel env ps vals' kwargs' (excess ps kwargs') = Inr k"
    using inv fast(1,2) unfolding jit_inv_def by blast
  have bound: "bind_params ps args kwargs = Inr full" "opts = excess ps kwargs"
    using matching_call_binds [OF env(2) call(2) full] fast(3) stored(4) by simp_all
  have len: "length full = length ps" using bind_params_length [OF bound(1)] .
  have reg: "regular opt_type ps full (excess ps kwargs)" using call(1) bound by (simp add: regular_call_def)
  have fp: "fingerprint_eq (fingerprint full (excess ps kwargs)) (fingerprint vals' (excess ps kwargs'))"
    using fast(3) stored(4) bound(2) by simp
  note same = same_fingerprint_compile [OF env len reg stored(2) call(2) stored(3,5) fp]
  have "dispatch_key (py_str env) ps full (excess ps kwargs) =
      Inr (concat ts @ specialisations ps full @ py_str env (constexpr_vals ps full, excess ps kwargs))"
    using same(2) by (simp add: dispatch_key_def)
  then show ?thesis
    using bound same(1) stored(6) inv by (simp add: launches_def launch_afresh_def)
qed

lemma run_kernel_run:
  "run_kernel env ps args kwargs0 s =
     (let kwargs = with_debug env kwargs0 in
      case full_args ps args kwargs of
        None \<Rightarrow> slow_path env ps args kwargs None s
      | Some (full, opts) \<Rightarrow>
          let fp = fingerprint full opts in
          (case (fast_args_fp s, fast_kernel s) of
             (Some g, Some k) \<Rightarrow>
               if fingerprint_eq fp g then Inr ((k, non_constexpr_vals ps full), s)
               else slow_path env ps args kwargs (Some fp) s
           | _ \<Rightarrow> slow_path env ps args kwargs (Some fp) s))"
  by (simp add: run_kernel_def m_defs Let_def split: option.split prod.split)

lemma run_kernel_launches:
  assumes env: "env_ok env ps" "params_ok ps" and inv: "jit_inv opt_type env ps s"
    and call: "regular_call opt_type ps args (with_debug env kwargs0)" "distinct (map fst kwargs0)"
  shows "launches opt_type env ps (launch_afresh env ps args (with_debug env kwargs0)) (run_kernel env ps args kwargs0 s)"
proof -
  let ?kwargs = "with_debug env kwargs0"
  have keys: "distinct (map fst ?kwargs)" using call(2) by (simp add: with_debug_def distinct_update)
  note slow = slow_path_launches [OF env inv call(1) keys]
  show ?thesis
  proof (cases "full_args ps args ?kwargs")
    case None
    then show ?thesis using slow [of None] by (simp add: run_kernel_run)
  next
    case (Some fo)
    then obtain full opts where full: "full_args ps args ?kwargs = Some (full, opts)" by (cases fo) simp
    have fp: "launches opt_type env ps (launch_afresh env ps args ?kwargs)
        (slow_path env ps args ?kwargs (Some (fingerprint full opts)) s)"
      using full_args_bound [OF env(2) keys] full by (intro slow) auto
    show ?thesis
    proof (cases "\<exists>g k. fast_args_fp s = Some g \<and> fast_kernel s = Some k \<and> fingerprint_eq (fingerprint full opts) g")
      case True
      then obtain g k where fast: "fast_args_fp s = Some g" "fast_kernel s = Some k" "fingerprint_eq (fingerprint full opts) g"
        by blast
      then show ?thesis
        using fast_path_launches [OF env inv call(1) keys full fast] full
        by (simp add: run_kernel_run)
    next
      case False
      then show ?thesis
        using fp full by (auto simp: run_kernel_run Let_def split: option.splits)
    qed
  qed
qed


section \<open>Sequences of launches\<close>

text \<open>A program that launches the kernel again and again, going on after an exception.\<close>

fun launch_all ::
  "('o, 'k) jit_env \<Rightarrow> kernel_param list \<Rightarrow> (pyarg list \<times> pyarg dict) list \<Rightarrow> 'k jit_state \<Rightarrow> ('k \<times> pyarg list) result list" where
  "launch_all env ps [] s = []"
| "launch_all env ps ((args, kwargs) # calls) s =
     (case run_kernel env ps args kwargs s of
        Inl e \<Rightarrow> Inl e # launch_all env ps calls s
      | Inr (r, s') \<Rightarrow> Inr r # launch_all env ps calls s')"

definition regular_calls :: "(string \<Rightarrow> string) \<Rightarrow> ('o, 'k) jit_env \<Rightarrow> kernel_param list \<Rightarrow> (pyarg list \<times> pyarg dict) list \<Rightarrow> bool" where
  "regular_calls opt_type env ps calls \<longleftrightarrow>
     list_all (\<lambda>(args, kwargs). regular_call opt_type ps args (with_debug env kwargs) \<and> distinct (map fst kwargs)) calls"

lemma launch_all_afresh:
  assumes "env_ok env ps" "params_ok ps" "jit_inv opt_type env ps s" "regular_calls opt_type env ps calls"
  shows "launch_all env ps calls s = map (\<lambda>(args, kwargs). launch_afresh env ps args (with_debug env kwargs)) calls"
  using assms(3,4)
proof (induction calls arbitrary: s)
  case (Cons c calls)
  obtain args kwargs where c: "c = (args, kwargs)" by (cases c)
  have "launches opt_type env ps (launch_afresh env ps args (with_debug env kwargs)) (run_kernel env ps args kwargs s)"
    using Cons.prems by (intro run_kernel_launches assms(1,2)) (simp_all add: c regular_calls_def)
  moreover have "regular_calls opt_type env ps calls" using Cons.prems by (simp add: regular_calls_def)
  ultimately show ?case
    using Cons by (auto simp: c launches_def split: sum.splits prod.splits)
qed simp

lemma new_state_afresh:
  assumes "env_ok env ps" "params_ok ps" "regular_calls opt_type env ps [(args, kwargs)]"
  shows "launch_afresh env ps args (with_debug env kwargs) = map_sum id fst (run_kernel env ps args kwargs new_jit_state)"
  using assms run_kernel_launches [OF assms(1,2) new_jit_inv, of opt_type args kwargs]
  by (auto simp: regular_calls_def launches_def split: sum.splits prod.splits)

text \<open>C27: whatever sequence of launches came before, a launch of a kernel returns the compiled kernel and the
  arguments (or raises the exception) that it would in a program that launches it for the first time: neither
  the dictionary of compiled kernels nor the fingerprint of the last arguments ever supplies the kernel of
  another specialization.  This needs a kernel none of whose parameters has the name of a backend option or of a retired
  device keyword, and regular launches: no compile-time argument is \<open>-0.0\<close>, a tensor or a descriptor, no
  run-time parameter with a type annotation receives \<open>None\<close>, and each option is always passed with the same type and is not
  \<open>-0.0\<close>, a tensor or a descriptor.  Of the backend it needs that \<open>parse_options\<close> depends on the keywords that name options
  only, and of Python that printing tells plain values apart.\<close>

theorem launches_transparent:
  assumes "prints_apart (py_str env)" "reads_only (parse_opts env) (option_names env)" "options_apart env ps"
    and "params_ok ps" "regular_calls opt_type env ps calls"
  shows "launch_all env ps calls new_jit_state =
    map (\<lambda>(args, kwargs). map_sum id fst (run_kernel env ps args kwargs new_jit_state)) calls"
proof -
  note ok = env_okI [OF assms(1-3)]
  have "launch_afresh env ps args (with_debug env kwargs) = map_sum id fst (run_kernel env ps args kwargs new_jit_state)"
    if "(args, kwargs) \<in> set calls" for args kwargs
    using that assms(5) by (intro new_state_afresh [OF ok assms(4)]) (auto simp: regular_calls_def list_all_iff)
  then show ?thesis
    unfolding launch_all_afresh [OF ok assms(4) new_jit_inv assms(5)] by auto
qed

section \<open>The key\<close>

text \<open>C28: two regular launches, as above, of a kernel whose parameters have other names than the backend options agree, if their dispatch
  keys are equal, on the type of every run-time argument, on every specialisation character, on the compile-time values
  and on the options, although the key is their plain concatenation and one type code may begin another; so the
  compiler is asked for the same kernel and the one in the dictionary is right for both.  Launches that are not
  regular can have one key and need two kernels: an annotated parameter has the same type and the same
  specialisation for \<open>None\<close> and for 16.\<close>

theorem same_key_same_kernel:
  assumes "prints_apart (py_str env)" "reads_only (parse_opts env) (option_names env)" "options_apart env ps"
    and "params_ok ps" "length vals = length ps" "length vals' = length ps"
    and "regular opt_type ps vals (excess ps kwargs)" "regular opt_type ps vals' (excess ps kwargs')"
    and "dispatch_key (py_str env) ps vals (excess ps kwargs) = Inr key"
    and "dispatch_key (py_str env) ps vals' (excess ps kwargs') = Inr key"
  shows "sig_types ps vals = sig_types ps vals' \<and> specialisations ps vals = specialisations ps vals' \<and>
      constexpr_vals ps vals = constexpr_vals ps vals' \<and> excess ps kwargs = excess ps kwargs' \<and>
      compile_kernel env ps vals kwargs (excess ps kwargs) = compile_kernel env ps vals' kwargs' (excess ps kwargs')"
  using same_key_compile [OF env_okI [OF assms(1-3)] assms(4-10)] assms
    dispatch_key_parts [of "py_str env" vals ps vals' "excess ps kwargs" "excess ps kwargs'" key]
  by (simp add: regular_def)

text \<open>The two exceptions, for any way of printing: the key is the same and the kernel is not.\<close>

definition count_param :: kernel_param where
  "count_param = \<lparr>num = 0, pname = ''n'', annotation = ''int32'', do_not_specialize = False,
     do_not_specialize_on_alignment = False, default = None\<rparr>"

lemma annotated_none_shares_key:
  "dispatch_key pr [count_param] [ANone] [] = dispatch_key pr [count_param] [AInt 16] []"
  "sig_types [count_param] [ANone] = Inr [''i32''] \<and> sig_types [count_param] [AInt 16] = Inr [''i32'']"
  "req_constants (make_request [count_param] [ANone] [''i32''] opts) = [(''n'', ANone)]"
  "req_constants (make_request [count_param] [AInt 16] [''i32''] opts) = []"
  by (simp_all add: dispatch_key_def count_param_def is_constexpr_def contains_def annotation_type_def get_property_key_def
      constexpr_vals_def make_request_def attrs_descriptor_init_def is_equal_to_1_def)

section \<open>Signed zeros\<close>

lemma finger_eq_refl: "\<not> is_nan v \<Longrightarrow> finger_eq (finger_arg v) (finger_arg v)" "\<not> is_nan v \<Longrightarrow> finger_eq (finger_opt v) (finger_opt v)"
  by (cases v; simp add: py_eq_def)+

lemma fingerprint_zero:
  assumes "i < length args" "args ! i = AFloat (Finite 0)" "\<forall>v \<in> set args. \<not> is_nan v" "\<forall>(k, v) \<in> set opts. \<not> is_nan v"
  shows "fingerprint_eq (fingerprint (args[i := AFloat NegZero]) opts) (fingerprint args opts)"
proof -
  have "finger_eq (finger_arg (args[i := AFloat NegZero] ! j)) (finger_arg (args ! j))" if "j < length args" for j
    using that assms(2,3) nth_mem [OF that] by (cases "j = i") (simp_all add: py_eq_def finger_eq_refl)
  moreover have "\<forall>(k, v) \<in> set (sort_items opts). \<not> is_nan v" using assms(4) by (simp add: sort_items_set)
  then have "list_all2 (\<lambda>(k, v) (k', v'). k = k' \<and> finger_eq v v') (map (\<lambda>(k, v). (k, finger_opt v)) (sort_items opts))
      (map (\<lambda>(k, v). (k, finger_opt v)) (sort_items opts))"
    by (auto simp: list_all2_conv_all_nth finger_eq_refl dest: nth_mem split: prod.splits)
  ultimately show ?thesis
    by (simp add: fingerprint_eq_def fingerprint_def list_all2_conv_all_nth)
qed

lemma non_constexpr_update:
  "i < length ps \<Longrightarrow> length args = length ps \<Longrightarrow> is_constexpr (ps ! i) \<Longrightarrow>
     non_constexpr_vals ps (args[i := v]) = non_constexpr_vals ps args"
  unfolding non_constexpr_vals_def
proof (induction ps arbitrary: args i)
  case (Cons p ps)
  then obtain a as where "args = a # as" by (cases args) auto
  then show ?case using Cons by (cases i) auto
qed simp

lemma bind_given: "length args = length ps \<Longrightarrow> bind_params ps args kwargs = Inr vals \<Longrightarrow> vals = args"
  by (simp add: bind_params_all_given split: if_splits)

text \<open>A launch that compiles, made again, is found and remembered.\<close>

lemma second_launch_remembers:
  assumes "length args = length ps" "run_kernel env ps args kwargs new_jit_state = Inr ((k, vals), s)"
  shows "run_kernel env ps args kwargs s = Inr ((k, vals), s\<lparr>fast_args_fp := Some (fingerprint args (with_debug env kwargs)), fast_kernel := Some k\<rparr>)"
    "vals = non_constexpr_vals ps args"
proof -
  let ?kw = "with_debug env kwargs"
  have full: "full_args ps args ?kw = Some (args, ?kw)" using assms(1) by (simp add: full_args_def)
  have slow: "slow_path env ps args ?kw (Some (fingerprint args ?kw)) new_jit_state = Inr ((k, vals), s)"
    using assms(2) by (simp add: run_kernel_run full new_jit_state_def Let_def)
  obtain v where v: "bind_params ps args ?kw = Inr v"
    using slow by (cases "bind_params ps args ?kw") (simp_all add: slow_path_def m_defs)
  then have b: "bind_params ps args ?kw = Inr args" using bind_given [OF assms(1) v] by simp
  obtain key where key: "dispatch_key (py_str env) ps args (excess ps ?kw) = Inr key"
    using slow b by (cases "dispatch_key (py_str env) ps args (excess ps ?kw)") (simp_all add: slow_path_def m_defs)
  have c: "compile_kernel env ps args ?kw (excess ps ?kw) = Inr k \<and> s = new_jit_state\<lparr>kernels := [(key, k)]\<rparr> \<and> vals = non_constexpr_vals ps args"
    using slow by (cases "compile_kernel env ps args ?kw (excess ps ?kw)") (simp_all add: slow_path_def m_defs b key new_jit_state_def)
  then show "vals = non_constexpr_vals ps args" by simp
  show "run_kernel env ps args kwargs s = Inr ((k, vals), s\<lparr>fast_args_fp := Some (fingerprint args ?kw), fast_kernel := Some k\<rparr>)"
    using c by (simp add: run_kernel_run full new_jit_state_def slow_path_def m_defs b key Let_def)
qed

lemma zero_request_differs:
  assumes "distinct (map pname ps)" "length args = length ps" "i < length ps" "is_constexpr (ps ! i)" "args ! i = AFloat (Finite 0)"
  shows "make_request ps (args[i := AFloat NegZero]) ts opts \<noteq> make_request ps args ts opts"
proof
  let ?x = "(pname (ps ! i), AFloat NegZero)"
  have "(ps ! i, AFloat NegZero) \<in> set (zip ps (args[i := AFloat NegZero]))"
    using assms(2,3) by (auto simp: set_zip intro!: exI [of _ i])
  then have "?x \<in> set (req_constants (make_request ps (args[i := AFloat NegZero]) ts opts))"
    using assms(4) by (force simp: make_request_def Let_def)
  moreover assume "make_request ps (args[i := AFloat NegZero]) ts opts = make_request ps args ts opts"
  ultimately have "?x \<in> set (req_constants (make_request ps args ts opts))" by simp
  then obtain p where "(p, AFloat NegZero) \<in> set (zip ps args)" "pname p = pname (ps ! i)"
    by (auto simp: make_request_def Let_def)
  then obtain j where j: "j < length ps" "pname (ps ! j) = pname (ps ! i)" "args ! j = AFloat NegZero"
    by (auto simp: set_zip)
  then have "j = i" using assms(1,3) by (metis distinct_conv_nth length_map nth_map)
  then show False using j(3) assms(5) by simp
qed

text \<open>C30: a kernel compiled for a compile-time argument 0.0 is run for \<open>-0.0\<close>.  The fingerprint of the fast path compares
  with Python's equality, for which \<open>-0.0 == 0.0\<close>: after two launches with all arguments given by position, of which the first
  compiles the kernel and the second remembers it, a launch with \<open>-0.0\<close> in place of 0.0 (and no NaN among the
  arguments) returns the kernel made for 0.0 without asking the compiler, although the request for \<open>-0.0\<close> is
  another one.\<close>

theorem signed_zero_reuses_kernel:
  assumes "length args = length ps" "i < length ps" "is_constexpr (ps ! i)" "args ! i = AFloat (Finite 0)" "params_ok ps"
    and "\<forall>v \<in> set args. \<not> is_nan v" "\<forall>(n, v) \<in> set (with_debug env kwargs). \<not> is_nan v"
    and "run_kernel env ps args kwargs new_jit_state = Inr ((k, vals), s)"
  shows "launch_all env ps [(args, kwargs), (args, kwargs), (args[i := AFloat NegZero], kwargs)] new_jit_state =
      [Inr (k, vals), Inr (k, vals), Inr (k, vals)] \<and>
    (\<forall>ts opts :: 'o. make_request ps (args[i := AFloat NegZero]) ts opts \<noteq> make_request ps args ts opts)"
proof (intro conjI allI)
  fix ts and opts :: 'o
  show "make_request ps (args[i := AFloat NegZero]) ts opts \<noteq> make_request ps args ts opts"
    using assms by (intro zero_request_differs) (simp_all add: params_ok_def)
next
  let ?args = "args[i := AFloat NegZero]" and ?kw = "with_debug env kwargs"
  note second = second_launch_remembers [OF assms(1,8)]
  let ?s = "s\<lparr>fast_args_fp := Some (fingerprint args ?kw), fast_kernel := Some k\<rparr>"
  have "fingerprint_eq (fingerprint ?args ?kw) (fingerprint args ?kw)"
    using assms by (intro fingerprint_zero) simp_all
  then have "run_kernel env ps ?args kwargs ?s = Inr ((k, non_constexpr_vals ps ?args), ?s)"
    using assms(1) by (simp add: run_kernel_run full_args_def Let_def)
  then have "run_kernel env ps ?args kwargs ?s = Inr ((k, vals), ?s)"
    using second(2) assms(1-3) by (simp add: non_constexpr_update)
  then show "launch_all env ps [(args, kwargs), (args, kwargs), (?args, kwargs)] new_jit_state =
      [Inr (k, vals), Inr (k, vals), Inr (k, vals)]"
    using assms(8) second(1) by simp
qed

end
