(* ===== verification/Launcher.thy ===== *)
theory Launcher
  imports Compile Jit "HOL-Library.Multiset" "HOL-Library.FuncSet" "HOL-Library.Signed_Division"
begin

text \<open>
  The launcher of the CPU backend, \<open>triton-shared/backend/driver.py\<close>: the C++ types and the
  argument-parsing format of a signature, the signature and the compile-time values kept for a compiled
  kernel, the call that puts those values back among the arguments, and the loops of the generated
  \<open>_launch\<close> that run the programs of a grid, sequentially or shared out among the threads of a team, with the
  overflow of their 32-bit and 64-bit integers.  How OpenMP sizes a team and shares a loop among it is a parameter.
\<close>

section \<open>Types and formats\<close>

definition cpp_types :: "(string \<times> string) list" where
  "cpp_types =
     [(''i1'', ''int32_t''), (''i8'', ''int8_t''), (''i16'', ''int16_t''), (''i32'', ''int32_t''), (''i64'', ''int64_t''),
      (''u1'', ''uint32_t''), (''u8'', ''uint8_t''), (''u16'', ''uint16_t''), (''u32'', ''uint32_t''), (''u64'', ''uint64_t''),
      (''fp16'', ''float''), (''bf16'', ''float''), (''fp32'', ''float''), (''f32'', ''float''), (''fp64'', ''double'')]"

definition lookup_r :: "(string \<times> 'v) list \<Rightarrow> string \<Rightarrow> 'v result" where
  "lookup_r d k = (case map_of d k of None \<Rightarrow> Inl KeyError | Some v \<Rightarrow> Inr v)"

definition ty_to_cpp :: "string \<Rightarrow> string result" where
  "ty_to_cpp t =
     (if t = [] then Inl IndexError
      else if hd t = CHR ''*'' then Inr ''void*''
      else if t = ''constexpr'' then Inr ''PyObject*''
      else lookup_r cpp_types t)"

definition extracted_type :: "string \<Rightarrow> string result" where
  "extracted_type t =
     (if t = [] then Inl IndexError
      else if hd t = CHR ''*'' then Inr ''PyObject*''
      else if t = ''constexpr'' then Inr ''PyObject*''
      else ty_to_cpp t)"

definition formats :: "(string \<times> char) list" where
  "formats =
     [(''PyObject*'', CHR ''O''), (''constexpr'', CHR ''O''), (''float'', CHR ''f''), (''double'', CHR ''d''), (''long'', CHR ''l''),
      (''int8_t'', CHR ''b''), (''int16_t'', CHR ''h''), (''int32_t'', CHR ''i''), (''int64_t'', CHR ''l''),
      (''uint8_t'', CHR ''B''), (''uint16_t'', CHR ''H''), (''uint32_t'', CHR ''I''), (''uint64_t'', CHR ''K'')]"

definition format_of :: "string \<Rightarrow> char result" where
  "format_of t = lookup_r formats t"

text \<open>The format of \<open>PyArg_ParseTuple\<close>: the sizes of the grid, four objects, and the arguments.\<close>

definition args_format :: "(nat \<times> string) list \<Rightarrow> string result" where
  "args_format signature = map_r (\<lambda>(i, t). bind_r (extracted_type t) format_of) signature"

definition launch_format :: "(nat \<times> string) list \<Rightarrow> string result" where
  "launch_format signature = bind_r (args_format signature) (\<lambda>f. Inr (''iiiOOOO'' @ f))"

text \<open>The parameters handed to the compiled kernel, by index.\<close>

definition kernel_parameters :: "(nat \<times> string) list \<Rightarrow> nat list" where
  "kernel_parameters signature = map fst (filter (\<lambda>(i, t). t \<noteq> ''constexpr'') signature)"

section \<open>The launcher object\<close>

record launcher =
  launcher_signature :: "(nat \<times> string) list"
  constant_inserts :: "(nat \<times> pyarg) list"

text \<open>\<open>cst_key\<close>: the index of a parameter name.\<close>

definition cst_key :: "string list \<Rightarrow> string \<Rightarrow> nat result" where
  "cst_key arg_names x = index_in x arg_names"

definition index_items :: "string list \<Rightarrow> 'v dict \<Rightarrow> (nat \<times> 'v) list result" where
  "index_items arg_names items = map_r (\<lambda>(k, v). bind_r (cst_key arg_names k) (\<lambda>i. Inr (i, v))) items"

definition launcher_init :: "string list \<Rightarrow> nat list \<Rightarrow> string dict \<Rightarrow> pyarg dict \<Rightarrow> launcher result" where
  "launcher_init arg_names constexpr_indices sig consts =
     bind_r (index_items arg_names consts) (\<lambda>constants.
     bind_r (index_items arg_names sig) (\<lambda>signature0.
     let signature = sort_key fst (fold (\<lambda>(i, v). AList.update i ''constexpr'') constants signature0) in
     bind_r (launch_format signature) (\<lambda>_.
     Inr \<lparr>launcher_signature = signature,
          constant_inserts = sort_key fst (filter (\<lambda>(i, v). i \<in> set constexpr_indices) constants)\<rparr>)))"

text \<open>\<open>list.insert\<close>, and \<open>CPULauncher.__call__\<close>: the arguments handed on, behind the nine of the preamble.\<close>

definition list_insert :: "nat \<Rightarrow> 'a \<Rightarrow> 'a list \<Rightarrow> 'a list" where
  "list_insert i x xs = take i xs @ x # drop i xs"

definition launcher_call :: "launcher \<Rightarrow> pyarg list \<Rightarrow> pyarg list" where
  "launcher_call l args = fold (\<lambda>(idx, val). list_insert (idx + 9) val) (constant_inserts l) args"

section \<open>The programs of a grid\<close>

text \<open>The integers of the generated C++ are an \<open>int\<close> or an \<open>int64_t\<close>, with the wrap-around written out, and
  their division rounds towards zero.\<close>

definition int32 :: "int \<Rightarrow> int" where
  "int32 x = (x + 2 ^ 31) mod 2 ^ 32 - 2 ^ 31"

definition int64 :: "int \<Rightarrow> int" where
  "int64 x = (x + 2 ^ 63) mod 2 ^ 64 - 2 ^ 63"

text \<open>The number of programs is an \<open>int64_t\<close>; the product of two sizes in the division is an \<open>int\<close>.\<close>

definition program_count :: "int \<Rightarrow> int \<Rightarrow> int \<Rightarrow> int" where
  "program_count gridX gridY gridZ = int64 (int64 (gridX * gridY) * gridZ)"

definition grid_point :: "int \<Rightarrow> int \<Rightarrow> int \<Rightarrow> int \<times> int \<times> int" where
  "grid_point gridX gridY i =
     (int32 (i smod gridX), int32 ((i sdiv gridX) smod gridY), int32 (i sdiv int32 (gridX * gridY)))"

text \<open>The loop without threads.\<close>

definition sequential_programs :: "int \<Rightarrow> int list" where
  "sequential_programs N = [0..N - 1]"

text \<open>The loop under \<open>omp parallel for schedule(static)\<close>: OpenMP gives each iteration to one thread of the team,
  and a thread runs its iterations in order.\<close>

definition static_programs :: "(int \<Rightarrow> nat) \<Rightarrow> int \<Rightarrow> nat \<Rightarrow> int list" where
  "static_programs owner N t = filter (\<lambda>i. owner i = t) [0..N - 1]"

definition team_threads :: "int \<Rightarrow> int \<Rightarrow> int \<Rightarrow> int" where
  "team_threads num_threads omp_max_threads N =
     (let max_threads = (if num_threads > 0 then num_threads else omp_max_threads)
      in if max_threads < N then max_threads else N)"

text \<open>The programs of one thread when the first thread of the team may be left free.\<close>

definition reserve_master :: "int \<Rightarrow> int \<Rightarrow> bool" where
  "reserve_master N team_size \<longleftrightarrow>
     team_size > 1 \<and> int64 (N + team_size - 2) sdiv (team_size - 1) = int64 (N + team_size - 1) sdiv team_size"

definition worker_programs :: "int \<Rightarrow> int \<Rightarrow> int \<Rightarrow> int list" where
  "worker_programs N team_size tid =
     (let r = of_bool (reserve_master N team_size);
          workers = team_size - r;
          worker = tid - r;
          start = (if worker \<ge> 0 then int64 (N * worker) sdiv workers else 0);
          end = (if worker \<ge> 0 then int64 (N * (worker + 1)) sdiv workers else 0)
      in [start..end - 1])"

text \<open>The size of the chunks that are handed out on demand: whole rows of the grid, halved while there are fewer
  than two of them for each thread.\<close>

function chunk_size :: "int \<Rightarrow> int \<Rightarrow> int \<Rightarrow> int" where
  "chunk_size N nthreads chunk =
     (if chunk > 1 \<and> N div chunk < 2 * nthreads then chunk_size N nthreads ((chunk + 1) div 2) else chunk)"
  by auto
termination
  by (relation "measure (\<lambda>(N, nthreads, chunk). nat chunk)") auto

text \<open>The threads share the counter \<open>next\<close>.  Each fetches it and adds a chunk, in one atomic step, runs the
  programs of the chunk below \<open>N\<close>, and leaves the loop when the value it fetched is not below \<open>N\<close>.\<close>

record team =
  next_program :: int
  programs_run :: "nat \<Rightarrow> int list"
  running :: "nat set"

definition team_start :: "nat \<Rightarrow> team" where
  "team_start nthreads = \<lparr>next_program = 0, programs_run = (\<lambda>t. []), running = {0..<nthreads}\<rparr>"

definition fetch_chunk :: "int \<Rightarrow> int \<Rightarrow> nat \<Rightarrow> team \<Rightarrow> team" where
  "fetch_chunk N chunk t s =
     (let c = next_program s;
          s = s\<lparr>next_program := int64 (c + chunk)\<rparr>
      in if c < N then s\<lparr>programs_run := (programs_run s)(t := programs_run s t @ [c..min (int64 (c + chunk)) N - 1])\<rparr>
         else s\<lparr>running := running s - {t}\<rparr>)"

inductive team_steps :: "int \<Rightarrow> int \<Rightarrow> nat \<Rightarrow> team \<Rightarrow> bool" for N chunk nthreads where
  start: "team_steps N chunk nthreads (team_start nthreads)"
| fetch: "team_steps N chunk nthreads s \<Longrightarrow> t \<in> running s \<Longrightarrow> team_steps N chunk nthreads (fetch_chunk N chunk t s)"


text \<open>
  \<open>_launch\<close>: what each thread runs, in order.  How the launcher was built (with OpenMP, with the library of tuned
  kernels, with the first thread left free) selects the loop; the size of the team, at most the number of
  threads asked for, and the owners of the iterations of a static loop are OpenMP's choice.
\<close>

record launcher_build =
  openmp :: bool
  kunpeng_llm :: bool
  reserve_master_thread :: bool

definition in_team :: "int \<Rightarrow> nat \<Rightarrow> bool" where
  "in_team nthreads n \<longleftrightarrow> 0 < n \<and> int n \<le> nthreads"

inductive launched :: "launcher_build \<Rightarrow> int \<Rightarrow> int \<Rightarrow> int \<Rightarrow> int \<Rightarrow> int \<Rightarrow> int list list \<Rightarrow> bool"
  for b gridX gridY gridZ num_threads omp_max_threads where
  sequential: "N = program_count gridX gridY gridZ \<Longrightarrow> \<not> (openmp b \<and> N > 1) \<Longrightarrow>
    launched b gridX gridY gridZ num_threads omp_max_threads [sequential_programs N]"
| on_demand: "N = program_count gridX gridY gridZ \<Longrightarrow> openmp b \<Longrightarrow> N > 1 \<Longrightarrow> kunpeng_llm b \<Longrightarrow>
    nthreads = team_threads num_threads omp_max_threads N \<Longrightarrow> in_team nthreads n \<Longrightarrow>
    team_steps N (chunk_size N nthreads gridX) n s \<Longrightarrow> running s = {} \<Longrightarrow>
    launched b gridX gridY gridZ num_threads omp_max_threads (map (programs_run s) [0..<n])"
| reserved: "N = program_count gridX gridY gridZ \<Longrightarrow> openmp b \<Longrightarrow> N > 1 \<Longrightarrow> \<not> kunpeng_llm b \<Longrightarrow> reserve_master_thread b \<Longrightarrow>
    in_team (team_threads num_threads omp_max_threads N) n \<Longrightarrow>
    launched b gridX gridY gridZ num_threads omp_max_threads (map (\<lambda>t. worker_programs N (int n) (int t)) [0..<n])"
| static: "N = program_count gridX gridY gridZ \<Longrightarrow> openmp b \<Longrightarrow> N > 1 \<Longrightarrow> \<not> kunpeng_llm b \<Longrightarrow> \<not> reserve_master_thread b \<Longrightarrow>
    in_team (team_threads num_threads omp_max_threads N) n \<Longrightarrow> (\<forall>i. 0 \<le> i \<and> i < N \<longrightarrow> owner i < n) \<Longrightarrow>
    launched b gridX gridY gridZ num_threads omp_max_threads (map (static_programs owner N) [0..<n])"

end
