(* ===== verification/Cpu_Backend.thy ===== *)
theory Cpu_Backend
  imports Jit
begin

text \<open>
  The CPU backend, \<open>triton-shared/backend/compiler.py\<close>: the options of a kernel, the choice between the
  SME and the SVE transformation, the target flags the later stages pass to LLVM, and the passes that
  lower the result.  The transformations and the tools themselves are outside the model; environment
  variables, the libraries found, the architecture and its features are parameters.
\<close>

section \<open>Options\<close>

record cpu_env =
  getenv :: "string \<Rightarrow> string option"
  int_of_string :: "string \<Rightarrow> int result"
  kunpeng_llm_available :: bool
  armpl_available :: bool
  cpu_arch :: string
  cpu_features :: "string list"

definition env_flag :: "cpu_env \<Rightarrow> string \<Rightarrow> bool" where
  "env_flag env name \<longleftrightarrow> getenv env name = Some ''1''"

definition acl_opt_enabled :: "cpu_env \<Rightarrow> bool" where
  "acl_opt_enabled env \<longleftrightarrow> getenv env ''TRITON_SHARED_ENABLE_ACL_OPT'' \<noteq> Some ''0''"

definition enable_linalg_tiling_pipeline :: "cpu_env \<Rightarrow> bool" where
  "enable_linalg_tiling_pipeline env \<longleftrightarrow> env_flag env ''TRITON_SHARED_ENABLE_LINALG_TILING_PIPELINE''"

text \<open>The value of an option; values that no field is declared with are kept as they were passed.\<close>

datatype option_value =
    OptNone | OptBool bool | OptInt int | OptStr string | OptTuple "option_value list" | OptOther pyarg

fun option_of :: "pyarg \<Rightarrow> option_value" where
  "option_of ANone = OptNone"
| "option_of (ABool b) = OptBool b"
| "option_of (AInt i) = OptInt i"
| "option_of (AStr s) = OptStr s"
| "option_of a = OptOther a"

text \<open>An options object is its \<open>__dict__\<close>; the fields with their defaults, in the order of the class.\<close>

type_synonym cpu_options = "option_value dict"

definition CPUOptions_fields :: cpu_options where
  "CPUOptions_fields =
     [(''debug'', OptBool False), (''arch'', OptNone), (''num_warps'', OptInt 0), (''num_threads'', OptInt 0),
      (''num_ctas'', OptInt 0), (''num_stages'', OptInt 1), (''num_buffers_warp_spec'', OptInt 0),
      (''num_consumer_groups'', OptInt 0), (''reg_dec_producer'', OptInt 0), (''reg_inc_consumer'', OptInt 0),
      (''enable_warp_specialization'', OptBool False), (''cluster_dims'', OptTuple [OptInt 1, OptInt 1, OptInt 1]),
      (''shared'', OptBool False),
      (''allowed_dot_input_precisions'', OptTuple [OptStr ''ieee'', OptStr ''tf32'', OptStr ''tf32x3'']),
      (''supported_fp8_dtypes'', OptTuple [OptStr ''fp8e5'', OptStr ''fp8e5b16'', OptStr ''fp8e4nv'']),
      (''deprecated_fp8_dtypes'', OptTuple []), (''allow_fp8e4nv'', OptBool True), (''allow_fp8e4b15'', OptBool True),
      (''enable_fp_fusion'', OptBool True), (''max_num_imprecise_acc_default'', OptInt 0),
      (''enable_fast_math'', OptBool False), (''disable_machine_scheduler'', OptBool False), (''disable_armpl'', OptBool False),
      (''disable_kunpeng_llm'', OptBool False), (''sme_matmul_k_tile'', OptInt 32),
      (''enable_sme_streaming_autovec'', OptBool False), (''enable_opt_o3'', OptBool False),
      (''enable_fexpa_exp2'', OptBool False), (''sanitize_overflow'', OptBool True), (''vec_lib'', OptStr ''libsleef'')]"

text \<open>\<open>parse_options\<close>: the fields given by the caller, and over them the ones read from the environment.\<close>

definition environment_options :: "cpu_env \<Rightarrow> cpu_options result" where
  "environment_options env =
     bind_r (int_of_string env (case getenv env ''TRITON_SHARED_SME_MATMUL_K_TILE'' of None \<Rightarrow> ''32'' | Some v \<Rightarrow> v)) (\<lambda>k_tile.
     Inr [(''disable_machine_scheduler'', OptBool (env_flag env ''TRITON_SHARED_DISABLE_MACHINE_SCHEDULER'')),
          (''enable_fast_math'', OptBool (env_flag env ''TRITON_SHARED_ENABLE_FASTMATH'')),
          (''disable_armpl'', OptBool (env_flag env ''TRITON_SHARED_DISABLE_ARMPL'')),
          (''disable_kunpeng_llm'',
             OptBool (env_flag env ''TRITON_SHARED_DISABLE_KUNPENG_LLM'' \<or> \<not> kunpeng_llm_available env)),
          (''sme_matmul_k_tile'', OptInt k_tile),
          (''enable_sme_streaming_autovec'', OptBool (env_flag env ''TRITON_SHARED_ENABLE_SME_STREAMING_AUTOVEC'')),
          (''enable_opt_o3'', OptBool (env_flag env ''TRITON_SHARED_ENABLE_OPT_O3''))])"

definition parse_options :: "cpu_env \<Rightarrow> option_value \<Rightarrow> option_value dict \<Rightarrow> cpu_options result" where
  "parse_options env arch opts =
     bind_r (environment_options env) (\<lambda>from_env.
     Inr (map (\<lambda>(k, d).
        (k, case map_of from_env k of
              Some v \<Rightarrow> v
            | None \<Rightarrow> (case map_of opts k of
                Some v \<Rightarrow> v
              | None \<Rightarrow> if k = ''arch'' then arch else d))) CPUOptions_fields))"

definition option_on :: "cpu_options \<Rightarrow> string \<Rightarrow> bool" where
  "option_on opts k \<longleftrightarrow> map_of opts k = Some (OptBool True)"

text \<open>
  Python's \<open>str\<close> and \<open>repr\<close> of an option: \<open>str\<close> of a string is the string itself, its \<open>repr\<close>, which is used in
  tuples, is quoted.  The quoting of special characters and the printing of other objects are parameters.
\<close>

record py_printer =
  quoted :: "string \<Rightarrow> string"
  printed_other :: "pyarg \<Rightarrow> string"

fun nat_digits :: "nat \<Rightarrow> string" where
  "nat_digits n = (if n < 10 then [''0123456789'' ! n] else nat_digits (n div 10) @ [''0123456789'' ! (n mod 10)])"

declare nat_digits.simps [simp del]

definition decimal_int :: "int \<Rightarrow> string" where
  "decimal_int i = (if i < 0 then CHR ''-'' # nat_digits (nat (- i)) else nat_digits (nat i))"

fun join_with :: "string \<Rightarrow> string list \<Rightarrow> string" where
  "join_with sep [] = []"
| "join_with sep [x] = x"
| "join_with sep (x # y # ys) = x @ sep @ join_with sep (y # ys)"

fun py_repr :: "py_printer \<Rightarrow> option_value \<Rightarrow> string" where
  "py_repr pr OptNone = ''None''"
| "py_repr pr (OptBool b) = (if b then ''True'' else ''False'')"
| "py_repr pr (OptInt i) = decimal_int i"
| "py_repr pr (OptStr s) = quoted pr s"
| "py_repr pr (OptTuple xs) =
     ''('' @ join_with '', '' (map (py_repr pr) xs) @ (if length xs = 1 then '','' else []) @ '')''"
| "py_repr pr (OptOther a) = printed_other pr a"

definition py_format :: "py_printer \<Rightarrow> option_value \<Rightarrow> string" where
  "py_format pr v = (case v of OptStr s \<Rightarrow> s | _ \<Rightarrow> py_repr pr v)"

text \<open>The string that is hashed into the key of the compiled kernel.\<close>

definition options_key :: "py_printer \<Rightarrow> cpu_options \<Rightarrow> string" where
  "options_key pr opts = join_with ''_'' (map (\<lambda>(name, v). name @ ''-'' @ py_format pr v) opts)"

text \<open>The backend as the launch path sees it: \<open>parse_options\<close> gets all keyword arguments and looks at the fields.\<close>

definition cpu_jit_env ::
  "cpu_env \<Rightarrow> option_value \<Rightarrow> (pyarg list \<times> pyarg dict \<Rightarrow> string) \<Rightarrow> (cpu_options request \<Rightarrow> 'k result) \<Rightarrow> bool \<Rightarrow> (cpu_options, 'k) jit_env" where
  "cpu_jit_env env arch pr compile debug =
     \<lparr>py_str = pr, parse_opts = (\<lambda>kwargs. parse_options env arch (map (\<lambda>(k, v). (k, option_of v)) kwargs)),
      option_names = map fst CPUOptions_fields, option_fields = map fst, compile_fn = compile, cached_debug = debug\<rparr>"

section \<open>The transformation of a kernel\<close>

datatype transformation = SME | SVE

text \<open>The backend object keeps whether the last kernel took the SME transformation.  \<open>_optimize_ttsharedir\<close>
  sets it and chooses; \<open>None\<close> leaves the module as it is.\<close>

record cpu_backend =
  used_sme :: bool

definition optimize_ttsharedir :: "cpu_env \<Rightarrow> bool \<Rightarrow> cpu_backend \<Rightarrow> transformation option \<times> cpu_backend" where
  "optimize_ttsharedir env has_matmul b =
     (let b = b\<lparr>used_sme := False\<rparr> in
      if env_flag env ''TRITON_SHARED_FORCE_SME_PIPELINE'' then (Some SME, b\<lparr>used_sme := True\<rparr>)
      else if env_flag env ''TRITON_SHARED_FORCE_SVE_PIPELINE'' then (Some SVE, b)
      else if cpu_arch env \<noteq> ''aarch64'' then (None, b)
      else if ''sme'' \<in> set (cpu_features env) \<and> has_matmul then (Some SME, b\<lparr>used_sme := True\<rparr>)
      else if ''sve'' \<in> set (cpu_features env) then (Some SVE, b)
      else (None, b))"

section \<open>Target flags\<close>

definition sme_pipeline_used :: "cpu_env \<Rightarrow> cpu_backend \<Rightarrow> bool" where
  "sme_pipeline_used env b \<longleftrightarrow>
     env_flag env ''TRITON_SHARED_FORCE_SME_PIPELINE'' \<or>
     cpu_arch env = ''aarch64'' \<and> ''sme'' \<in> set (cpu_features env) \<and> used_sme b"

definition with_bf16 :: "cpu_env \<Rightarrow> string \<Rightarrow> string" where
  "with_bf16 env features = (if ''bf16'' \<in> set (cpu_features env) then features @ '',+bf16'' else features)"

definition sme_flags :: "cpu_env \<Rightarrow> string list" where
  "sme_flags env = [''-mtriple=aarch64-linux-gnu'',
     ''-mattr='' @ with_bf16 env ''+sme,+dotprod,+v9a,+v8.5a,+v8.4a,+v8.3a,+v8.2a,+v8.1a,+sve,+sve2'']"

definition sve_flags :: "cpu_env \<Rightarrow> string list" where
  "sve_flags env = [''-mtriple=aarch64-linux-gnu'',
     ''-mattr='' @ with_bf16 env ''+sve,+dotprod,+v8.5a,+v8.4a,+v8.3a,+v8.2a,+v8.1a,+spe'']"

definition llvm_target_flags :: "cpu_env \<Rightarrow> cpu_backend \<Rightarrow> string list" where
  "llvm_target_flags env b =
     (if sme_pipeline_used env b then sme_flags env
      else if env_flag env ''TRITON_SHARED_FORCE_SVE_PIPELINE'' \<or> cpu_arch env = ''aarch64'' \<and> ''sve'' \<in> set (cpu_features env)
      then sve_flags env
      else [])"

text \<open>The options of the IR optimizer and of the code generator.\<close>

definition opt_flags :: "cpu_env \<Rightarrow> cpu_options \<Rightarrow> cpu_backend \<Rightarrow> string list" where
  "opt_flags env opts b =
     ''-S'' # llvm_target_flags env b @
     (if option_on opts ''enable_sme_streaming_autovec'' \<and> sme_pipeline_used env b
      then [''-enable-scalable-autovec-in-streaming-mode''] else []) @
     [if option_on opts ''enable_opt_o3'' then ''-passes=default<O3>''
      else ''-passes=function(loop-mssa(loop-rotate,loop-idiom),instcombine<max-iterations=1;no-verify-fixpoint>,sroa),simplifycfg,dse,loop-vectorize'']"

definition llc_flags :: "cpu_env \<Rightarrow> cpu_options \<Rightarrow> cpu_backend \<Rightarrow> string list" where
  "llc_flags env opts b =
     (let flags = llvm_target_flags env b in
      [''-filetype=obj'', ''-O3''] @ (if option_on opts ''enable_fast_math'' then [''-fp-contract=fast''] else []) @
      (if flags = [] then []
       else flags @ [''-disable-interleaved-load-combine=true''] @
         (if option_on opts ''disable_machine_scheduler'' then [''-enable-misched=false'', ''-enable-post-misched=false''] else [])))"

text \<open>The command that turns the Triton module into the shared form.\<close>

definition to_linalg_flag :: "cpu_env \<Rightarrow> cpu_options \<Rightarrow> string" where
  "to_linalg_flag env opts =
     (let to_linalg_opts =
        (if \<not> option_on opts ''disable_armpl'' \<and> armpl_available env then [''enable-armpl=true''] else []) @
        (if \<not> option_on opts ''disable_kunpeng_llm'' then [''enable-kunpeng-llm=true''] else [])
      in ''--triton-to-linalg-experimental'' @ (if to_linalg_opts = [] then [] else ''='' @ join_with '' '' to_linalg_opts))"

section \<open>Lowering passes\<close>

datatype lowering_pass =
    transform_interpreter | test_transform_dialect_erase_schedule | hoist_static_allocs | convert_math_to_libm
  | convert_vector_to_llvm | convert_to_llvm | mark_nontemporal_loads | promote_i1_to_i8 | canonicalizer | strip_debug_info
  | llvm_legalize_float8_types | convert_linalg_to_affine_loops | empty_tensor_to_alloc_tensor | one_shot_bufferize
  | lower_affine | convert_linalg_to_loops | expand_strided_metadata | convert_scf_to_cf

definition transform_passes :: "lowering_pass list" where
  "transform_passes =
     [transform_interpreter, test_transform_dialect_erase_schedule, hoist_static_allocs, convert_math_to_libm,
      convert_vector_to_llvm, convert_to_llvm, mark_nontemporal_loads, promote_i1_to_i8, canonicalizer, strip_debug_info,
      llvm_legalize_float8_types]"

text \<open>With a dump directory the passes run in seven managers, and the module is written out between them.\<close>

definition dumped_passes :: "lowering_pass list list" where
  "dumped_passes =
     [[transform_interpreter], [test_transform_dialect_erase_schedule], [hoist_static_allocs],
      [convert_math_to_libm, convert_vector_to_llvm, convert_to_llvm, mark_nontemporal_loads, promote_i1_to_i8],
      [canonicalizer], [strip_debug_info], [llvm_legalize_float8_types]]"

definition plain_passes :: "lowering_pass list" where
  "plain_passes =
     [convert_linalg_to_affine_loops, empty_tensor_to_alloc_tensor, one_shot_bufferize, lower_affine, convert_linalg_to_loops,
      expand_strided_metadata, convert_scf_to_cf, convert_math_to_libm, convert_vector_to_llvm, convert_to_llvm,
      mark_nontemporal_loads, promote_i1_to_i8, strip_debug_info]"

text \<open>The passes run, manager by manager; the last manager is empty when the passes were dumped one by one.\<close>

definition lowering_managers :: "cpu_env \<Rightarrow> bool \<Rightarrow> lowering_pass list list" where
  "lowering_managers env dump =
     (if env_flag env ''TRITON_SHARED_FORCE_SME_PIPELINE'' \<or> env_flag env ''TRITON_SHARED_FORCE_SVE_PIPELINE'' \<or>
         cpu_arch env = ''aarch64'' \<and> ({''sme'', ''sve''} \<inter> set (cpu_features env) \<noteq> {})
      then (if dump then dumped_passes @ [[]] else [transform_passes])
      else [plain_passes])"

end
