(* ===== verification/Cpu_Backend_Properties.thy ===== *)
theory Cpu_Backend_Properties
  imports Cpu_Backend Jit_Properties
begin

text \<open>
  The later stages of the CPU backend are told the machine the transformation chose, whatever kernel the
  backend object compiled before; the string hashed into the cache key tells options apart; and the launch path
  of \<open>Jit_Properties\<close> on this backend.
\<close>

section \<open>Transformation and flags\<close>

lemma target_flags_cases:
  "optimize_ttsharedir env has_matmul b = (t, b') \<Longrightarrow>
     sme_pipeline_used env b' = (t = Some SME) \<and>
     llvm_target_flags env b' = (case t of None \<Rightarrow> [] | Some SME \<Rightarrow> sme_flags env | Some SVE \<Rightarrow> sve_flags env)"
  by (auto simp: optimize_ttsharedir_def llvm_target_flags_def sme_pipeline_used_def Let_def split: if_splits)

text \<open>The flags of a command line that select the machine.\<close>

definition is_target_flag :: "string \<Rightarrow> bool" where
  "is_target_flag f \<longleftrightarrow> prefix ''-mtriple'' f \<or> prefix ''-mattr'' f"

lemma target_flags_kept:
  "filter is_target_flag (sme_flags env) = sme_flags env" "filter is_target_flag (sve_flags env) = sve_flags env"
  by (simp_all add: sme_flags_def sve_flags_def is_target_flag_def)

text \<open>C33: after the transformation of a kernel the command lines of the optimizer and of the code generator both select the
  machine of that transformation, by exactly the SME target flags when the kernel took the SME transformation, exactly the SVE
  flags when it took the SVE transformation, and by none when it was left alone, independently of which
  transformation the backend object used for the kernel before; the optimizer is told to vectorise streaming code exactly
  for SME kernels compiled with the option for it; and the code generator avoids combined interleaved loads
  exactly for transformed kernels.\<close>

theorem flags_follow_transformation:
  assumes "optimize_ttsharedir env has_matmul b = (t, b')"
  defines "target \<equiv> (case t of None \<Rightarrow> [] | Some SME \<Rightarrow> sme_flags env | Some SVE \<Rightarrow> sve_flags env)"
  shows "filter is_target_flag (opt_flags env opts b') = target \<and> filter is_target_flag (llc_flags env opts b') = target \<and>
    (''-enable-scalable-autovec-in-streaming-mode'' \<in> set (opt_flags env opts b') \<longleftrightarrow>
       option_on opts ''enable_sme_streaming_autovec'' \<and> t = Some SME) \<and>
    (''-disable-interleaved-load-combine=true'' \<in> set (llc_flags env opts b') \<longleftrightarrow> t \<noteq> None)"
proof -
  have f: "llvm_target_flags env b' = target" "sme_pipeline_used env b' = (t = Some SME)"
    using target_flags_cases [OF assms(1)] by (simp_all add: target_def)
  have kept: "filter is_target_flag target = target" by (auto simp: target_def target_flags_kept split: option.split transformation.split)
  have "filter is_target_flag (opt_flags env opts b') = target"
    by (simp add: opt_flags_def f kept is_target_flag_def)
  moreover have "filter is_target_flag (llc_flags env opts b') = target"
    by (simp add: llc_flags_def f kept Let_def is_target_flag_def)
  moreover have "''-enable-scalable-autovec-in-streaming-mode'' \<notin> set target" "''-disable-interleaved-load-combine=true'' \<notin> set target"
    by (auto simp: target_def sme_flags_def sve_flags_def split: option.splits transformation.splits)
  moreover have "target = [] \<longleftrightarrow> t = None"
    by (auto simp: target_def sme_flags_def sve_flags_def split: option.split transformation.split)
  ultimately show ?thesis by (simp add: opt_flags_def llc_flags_def f Let_def)
qed

definition example_machine :: cpu_env where
  "example_machine = \<lparr>getenv = (\<lambda>_. None), int_of_string = (\<lambda>s. if s = ''32'' then Inr 32 else Inl ValueError),
     kunpeng_llm_available = False, armpl_available = True, cpu_arch = ''aarch64'', cpu_features = [''sve'', ''sme'', ''bf16'']\<rparr>"

lemma flags_follow_transformation_witness:
  "filter is_target_flag (opt_flags example_machine [] \<lparr>used_sme = False\<rparr>) = sve_flags example_machine"
  using flags_follow_transformation [of example_machine False "\<lparr>used_sme = True\<rparr>" "Some SVE" "\<lparr>used_sme = False\<rparr>" "[]"]
  by (simp add: optimize_ttsharedir_def example_machine_def env_flag_def)

text \<open>Dumping the module between the passes does not change which passes run.\<close>

lemma dumped_passes_same: "concat (lowering_managers env True) = concat (lowering_managers env False)"
  unfolding lowering_managers_def by (auto simp: dumped_passes_def transform_passes_def)

section \<open>Printed numbers\<close>

lemma digit_inj: "m < 10 \<Longrightarrow> n < 10 \<Longrightarrow> ''0123456789'' ! m = ''0123456789'' ! n \<Longrightarrow> m = n"
  by (rule iffD1 [OF nth_eq_iff_index_eq]) simp_all

lemma decimal_digits: "set (nat_digits n) \<subseteq> set ''0123456789''"
proof -
  define ds where "ds = ''0123456789''"
  have "length ds = 10" by (simp add: ds_def)
  have "set (nat_digits n) \<subseteq> set ds"
  proof (induction n rule: nat_digits.induct)
    case (1 n)
    have "nat_digits n = (if n < 10 then [ds ! n] else nat_digits (n div 10) @ [ds ! (n mod 10)])"
      unfolding ds_def by (rule nat_digits.simps)
    moreover have "ds ! (n mod 10) \<in> set ds" "n < 10 \<Longrightarrow> ds ! n \<in> set ds" using \<open>length ds = 10\<close> by simp_all
    ultimately show ?case using 1 by auto
  qed
  then show ?thesis by (simp only: ds_def)
qed

lemma decimal_not_Nil: "nat_digits n \<noteq> []"
  by (subst nat_digits.simps) simp

lemma decimal_inj: "nat_digits m = nat_digits n \<Longrightarrow> m = n"
proof (induction m arbitrary: n rule: nat_digits.induct)
  case (1 m)
  have last: "last (nat_digits k) = ''0123456789'' ! (k mod 10)" for k by (subst nat_digits.simps) simp
  then have "m mod 10 = n mod 10" using "1.prems" digit_inj [of "m mod 10" "n mod 10"] by (metis mod_less_divisor zero_less_numeral)
  moreover have butlast: "butlast (nat_digits k) = (if k < 10 then [] else nat_digits (k div 10))" for k
    by (subst nat_digits.simps) simp
  have "m div 10 = n div 10"
  proof (cases "m < 10")
    case True
    then have "n < 10" using butlast [of m] butlast [of n] "1.prems" decimal_not_Nil by (metis (full_types))
    then show ?thesis using True by simp
  next
    case False
    then have "\<not> n < 10" using butlast [of m] butlast [of n] "1.prems" decimal_not_Nil by (metis (full_types))
    then show ?thesis using "1.IH" False butlast [of m] butlast [of n] "1.prems" by simp
  qed
  ultimately show ?case by (metis div_mult_mod_eq)
qed

lemma decimal_no_minus: "CHR ''-'' \<notin> set (nat_digits n)"
  using decimal_digits [of n] by auto

lemma minus_decimal: "CHR ''-'' # x \<noteq> nat_digits n" "nat_digits n \<noteq> CHR ''-'' # x"
  using decimal_no_minus [of n] by (metis list.set_intros(1))+

lemma decimal_int_inj: "decimal_int i = decimal_int j \<Longrightarrow> i = j"
  by (auto simp: decimal_int_def minus_decimal split: if_splits dest!: decimal_inj)

definition number_char :: "char \<Rightarrow> bool" where
  "number_char c \<longleftrightarrow> c \<in> set ''-0123456789''"

lemma decimal_int_chars: "list_all number_char (decimal_int i)" "decimal_int i \<noteq> []"
proof -
  show "list_all number_char (decimal_int i)"
    using decimal_digits by (fastforce simp: decimal_int_def number_char_def list_all_iff)
  show "decimal_int i \<noteq> []" by (simp add: decimal_int_def decimal_not_Nil)
qed

section \<open>Printed options\<close>

text \<open>A plain string is printed between quotes as it is.\<close>

definition plain_char :: "char \<Rightarrow> bool" where
  "plain_char c \<longleftrightarrow> c \<in> set ''abcdefghijklmnopqrstuvwxyzABCDEFGHIJKLMNOPQRSTUVWXYZ0123456789.-+''"

definition prints_strings :: "py_printer \<Rightarrow> bool" where
  "prints_strings pr \<longleftrightarrow> (\<forall>s. list_all plain_char s \<longrightarrow> quoted pr s = [CHR 0x27] @ s @ [CHR 0x27])"

fun element_ok :: "option_value \<Rightarrow> bool" where
  "element_ok OptNone = True"
| "element_ok (OptBool b) = True"
| "element_ok (OptInt i) = True"
| "element_ok (OptStr s) = list_all plain_char s"
| "element_ok _ = False"

text \<open>A value of the declared type of a field, given by its default.  A field that is a string or \<open>None\<close> may also
  get a number (the architecture of the CPU target is one), and its strings are names: plain, beginning with a
  letter, and not \<open>None\<close>.\<close>

definition name_ok :: "string \<Rightarrow> bool" where
  "name_ok s \<longleftrightarrow> s \<noteq> [] \<and> list_all plain_char s \<and> \<not> number_char (hd s) \<and> s \<noteq> ''None''"

fun named_value :: "option_value \<Rightarrow> bool" where
  "named_value OptNone = True"
| "named_value (OptInt i) = True"
| "named_value (OptStr s) = name_ok s"
| "named_value _ = False"

fun declared :: "option_value \<Rightarrow> option_value \<Rightarrow> bool" where
  "declared (OptBool d) v = (case v of OptBool b \<Rightarrow> True | _ \<Rightarrow> False)"
| "declared (OptInt d) v = (case v of OptInt i \<Rightarrow> True | _ \<Rightarrow> False)"
| "declared (OptTuple d) v = (case v of OptTuple xs \<Rightarrow> list_all element_ok xs | _ \<Rightarrow> False)"
| "declared d v = named_value v"

lemma chars:
  "plain_char c \<Longrightarrow> c \<noteq> CHR '','' \<and> c \<noteq> CHR 0x27 \<and> c \<noteq> CHR ''_'' \<and> c \<noteq> CHR '')'' \<and> c \<noteq> CHR '' ''"
  "number_char c \<Longrightarrow> c \<noteq> CHR '','' \<and> c \<noteq> CHR 0x27 \<and> c \<noteq> CHR ''_'' \<and> c \<noteq> CHR '')'' \<and> c \<noteq> CHR '' '' \<and> c \<noteq> CHR ''N'' \<and> c \<noteq> CHR ''T'' \<and> c \<noteq> CHR ''F''"
  by (auto simp: plain_char_def number_char_def)

section \<open>Printing tells declared values apart\<close>

lemma decimal_int_start: "\<not> number_char c \<Longrightarrow> decimal_int i \<noteq> c # s" "\<not> number_char c \<Longrightarrow> c # s \<noteq> decimal_int i"
  using decimal_int_chars(1) [of i] by (metis list.pred_inject(2))+

lemma number_not_none:
  "decimal_int i \<noteq> ''None''" "decimal_int i \<noteq> ''True''" "decimal_int i \<noteq> ''False''" "decimal_int i \<noteq> CHR 0x27 # s"
  "''None'' \<noteq> decimal_int i" "''True'' \<noteq> decimal_int i" "''False'' \<noteq> decimal_int i" "CHR 0x27 # s \<noteq> decimal_int i"
  by (rule decimal_int_start, simp add: number_char_def)+

lemma number_not_name: "name_ok s \<Longrightarrow> decimal_int i \<noteq> s" "name_ok s \<Longrightarrow> s \<noteq> decimal_int i"
  using decimal_int_start by (cases s; simp add: name_ok_def)+

lemma decimal_int_eq: "decimal_int i = decimal_int j \<longleftrightarrow> i = j"
  using decimal_int_inj by blast

lemma quoted_plain: "prints_strings pr \<Longrightarrow> list_all plain_char s \<Longrightarrow> quoted pr s = CHR 0x27 # s @ [CHR 0x27]"
  by (simp add: prints_strings_def)

text \<open>The elements of a tuple.\<close>

lemma element_repr_inj:
  assumes "prints_strings pr" "element_ok x" "element_ok y" "py_repr pr x = py_repr pr y"
  shows "x = y"
  using assms(2-4) by (cases x; cases y) (simp_all add: quoted_plain [OF assms(1)] number_not_none decimal_int_eq split: if_splits)

lemma element_repr_chars:
  assumes "prints_strings pr" "element_ok x"
  shows "CHR '','' \<notin> set (py_repr pr x)" "CHR ''_'' \<notin> set (py_repr pr x)" "CHR '')'' \<notin> set (py_repr pr x)" "py_repr pr x \<noteq> []"
proof -
  have "list_all (\<lambda>c. c \<noteq> CHR '','' \<and> c \<noteq> CHR ''_'' \<and> c \<noteq> CHR '')'') (py_repr pr x) \<and> py_repr pr x \<noteq> []"
  proof (cases x)
    case (OptInt i)
    then show ?thesis using decimal_int_chars [of i] chars(2) by (auto simp: list_all_iff)
  next
    case (OptStr s)
    then show ?thesis using assms(2) chars(1) by (auto simp: quoted_plain [OF assms(1)] list_all_iff)
  qed (use assms(2) in auto)
  then show "CHR '','' \<notin> set (py_repr pr x)" "CHR ''_'' \<notin> set (py_repr pr x)" "CHR '')'' \<notin> set (py_repr pr x)" "py_repr pr x \<noteq> []"
    by (auto simp: list_all_iff)
qed

lemma split_at:
  "c \<notin> set v \<Longrightarrow> c \<notin> set w \<Longrightarrow> v @ c # r = w @ c # q \<Longrightarrow> v = w \<and> r = q"
proof (induction v arbitrary: w)
  case Nil
  then show ?case by (cases w) auto
next
  case (Cons d v)
  then show ?case by (cases w) auto
qed

lemma join_elements_inj:
  assumes "prints_strings pr"
  shows "list_all element_ok xs \<Longrightarrow> list_all element_ok ys \<Longrightarrow>
    join_with '', '' (map (py_repr pr) xs) = join_with '', '' (map (py_repr pr) ys) \<Longrightarrow> xs = ys"
proof (induction xs arbitrary: ys)
  case Nil
  show ?case
  proof (cases ys)
    case (Cons y ys')
    then show ?thesis using Nil element_repr_chars(4) [OF assms, of y] by (cases ys') auto
  qed simp
next
  case (Cons x xs)
  note cx = element_repr_chars [OF assms, of x]
  have first: "join_with '', '' (map (py_repr pr) (z # zs)) = py_repr pr z @ (if zs = [] then [] else CHR '','' # CHR '' '' # join_with '', '' (map (py_repr pr) zs))"
    for z zs by (cases zs) simp_all
  obtain y ys' where ys: "ys = y # ys'"
    using Cons.prems(1,3) cx(4) by (cases ys) (auto simp: first simp del: list.map(2) join_with.simps(3))
  note cy = element_repr_chars [OF assms, of y]
  have ok: "element_ok x" "list_all element_ok xs" "element_ok y" "list_all element_ok ys'" using Cons.prems(1,2) ys by simp_all
  have eq: "py_repr pr x @ (if xs = [] then [] else CHR '','' # CHR '' '' # join_with '', '' (map (py_repr pr) xs)) =
      py_repr pr y @ (if ys' = [] then [] else CHR '','' # CHR '' '' # join_with '', '' (map (py_repr pr) ys'))"
    using Cons.prems(3) unfolding ys first .
  have same: "xs = [] \<longleftrightarrow> ys' = []"
  proof (rule ccontr)
    assume "\<not> (xs = [] \<longleftrightarrow> ys' = [])"
    then show False using arg_cong [OF eq, of set] cx(1) cy(1) ok by (auto split: if_splits)
  qed
  show ?case
  proof (cases "xs = []")
    case True
    then show ?thesis using eq same ok element_repr_inj [OF assms] by (simp add: ys)
  next
    case False
    then have "py_repr pr x = py_repr pr y \<and> CHR '' '' # join_with '', '' (map (py_repr pr) xs) = CHR '' '' # join_with '', '' (map (py_repr pr) ys')"
      using eq same cx(1) cy(1) ok by (intro split_at [of "CHR '',''"]) simp_all
    then show ?thesis using Cons.IH ok element_repr_inj [OF assms] by (simp add: ys)
  qed
qed

lemma tuple_repr_inj:
  assumes "prints_strings pr" "list_all element_ok xs" "list_all element_ok ys" "py_repr pr (OptTuple xs) = py_repr pr (OptTuple ys)"
  shows "xs = ys"
proof (cases "(length xs = 1) = (length ys = 1)")
  case True
  then have "join_with '', '' (map (py_repr pr) xs) = join_with '', '' (map (py_repr pr) ys)" using assms(4) by (auto split: if_splits)
  then show ?thesis by (rule join_elements_inj [OF assms(1-3)])
next
  case False
  have one: False if l: "length us = 1" "length vs \<noteq> 1" and ok: "list_all element_ok us" "list_all element_ok vs"
    and eq: "py_repr pr (OptTuple us) = py_repr pr (OptTuple vs)" for us vs
  proof -
    obtain u where u: "us = [u]" using l(1) by (auto simp: length_Suc_conv)
    have e: "py_repr pr u @ '','' = join_with '', '' (map (py_repr pr) vs)" using eq l by (simp add: u)
    have nc: "CHR '','' \<notin> set (py_repr pr u)" using element_repr_chars [OF assms(1)] ok(1) by (simp add: u)
    show False
    proof (cases vs)
      case Nil
      then show ?thesis using e by simp
    next
      case (Cons v ws)
      then obtain w ws' where ws: "ws = w # ws'" using l(2) by (cases ws) auto
      have "CHR '','' \<notin> set (py_repr pr v)" using element_repr_chars [OF assms(1)] ok(2) by (simp add: Cons)
      moreover have "py_repr pr u @ CHR '','' # [] = py_repr pr v @ CHR '','' # CHR '' '' # join_with '', '' (map (py_repr pr) ws)"
        using e by (simp add: Cons ws)
      ultimately show ?thesis using split_at [OF nc] by blast
    qed
  qed
  show ?thesis using False one [of xs ys] one [of ys xs] assms(2-4) by auto
qed

lemma join_chars: "c \<in> set (join_with sep xs) \<Longrightarrow> c \<in> set sep \<or> (\<exists>x \<in> set xs. c \<in> set x)"
  by (induction sep xs rule: join_with.induct) auto

lemma tuple_no_underscore:
  assumes "prints_strings pr" "list_all element_ok xs"
  shows "CHR ''_'' \<notin> set (py_repr pr (OptTuple xs))"
  using assms element_repr_chars(2) [OF assms(1)] by (auto simp: list_all_iff dest!: join_chars)

text \<open>Two values of a declared type that are printed alike are equal, and no underscore is printed.\<close>

lemma named_value_cases: "named_value v \<Longrightarrow> v = OptNone \<or> (\<exists>i. v = OptInt i) \<or> (\<exists>s. v = OptStr s \<and> name_ok s)"
  by (cases v) simp_all

lemma none_not_name: "name_ok s \<Longrightarrow> s \<noteq> ''None''" "name_ok s \<Longrightarrow> ''None'' \<noteq> s"
  by (auto simp: name_ok_def)

lemma declared_format_inj:
  assumes pr: "prints_strings pr" and d: "declared d v" "declared d w" and eq: "py_format pr v = py_format pr w"
  shows "v = w"
proof -
  have format: "py_format pr OptNone = ''None''" "py_format pr (OptInt i) = decimal_int i" "py_format pr (OptStr s) = s" for i s
    by (simp_all add: py_format_def)
  have named: "v = w" if "named_value v" "named_value w"
  proof (cases v; cases w)
    fix s t assume "v = OptStr s" "w = OptStr t"
    then show ?thesis using eq format by simp
  next
    fix s i assume "v = OptStr s" "w = OptInt i"
    then show ?thesis using eq format that(1) number_not_name(1) [of s i] by simp
  next
    fix s i assume "v = OptInt i" "w = OptStr s"
    then show ?thesis using eq format that(2) number_not_name(1) [of s i] by simp
  next
    fix s assume "v = OptStr s" "w = OptNone"
    then show ?thesis using eq format that(1) by (simp add: name_ok_def)
  next
    fix s assume "v = OptNone" "w = OptStr s"
    then show ?thesis using eq format that(2) by (simp add: name_ok_def)
  next
    fix i j assume "v = OptInt i" "w = OptInt j"
    then show ?thesis using eq format decimal_int_eq by simp
  next
    fix i assume "v = OptInt i" "w = OptNone"
    then show ?thesis using eq format number_not_none(1) [of i] by simp
  next
    fix i assume "v = OptNone" "w = OptInt i"
    then show ?thesis using eq format number_not_none(1) [of i] by simp
  qed (use that in simp_all)
  show ?thesis
  proof (cases d)
    case (OptTuple e)
    then obtain xs ys where "v = OptTuple xs" "list_all element_ok xs" "w = OptTuple ys" "list_all element_ok ys"
      using d by (auto split: option_value.splits)
    then show ?thesis using tuple_repr_inj [OF pr, of xs ys] eq by (simp add: py_format_def)
  next
    case (OptBool e)
    then show ?thesis using d eq by (auto simp: py_format_def split: option_value.splits if_splits)
  next
    case (OptInt e)
    then show ?thesis using d eq by (auto simp: py_format_def decimal_int_eq split: option_value.splits)
  qed (use d named in auto)
qed

lemma underscore_special: "\<not> number_char CHR ''_''" "\<not> plain_char CHR ''_''"
  using chars by blast+

lemma declared_no_underscore:
  assumes pr: "prints_strings pr" and d: "declared d v"
  shows "CHR ''_'' \<notin> set (py_format pr v)"
proof -
  have num: "CHR ''_'' \<notin> set (decimal_int i)" for i
    using decimal_int_chars(1) [of i] underscore_special(1) by (metis list_all_iff)
  have name: "CHR ''_'' \<notin> set s" if "name_ok s" for s
    using that underscore_special(2) by (auto simp only: name_ok_def list_all_iff)
  have format: "py_format pr OptNone = ''None''" "py_format pr (OptInt i) = decimal_int i" "py_format pr (OptStr s) = s"
    "py_format pr (OptBool b) = (if b then ''True'' else ''False'')" "py_format pr (OptTuple xs) = py_repr pr (OptTuple xs)" for i s b xs
    by (simp_all add: py_format_def)
  have named: ?thesis if "named_value v"
    using that num name by (cases v) (simp_all add: format)
  show ?thesis
  proof (cases d)
    case (OptTuple e)
    then obtain xs where "v = OptTuple xs" "list_all element_ok xs" using d by (auto split: option_value.splits)
    then show ?thesis using tuple_no_underscore [OF pr] by (simp add: format del: py_repr.simps)
  next
    case (OptBool e)
    then obtain b where "v = OptBool b" using d by (auto split: option_value.splits)
    then show ?thesis by (simp add: format)
  next
    case (OptInt e)
    then obtain i where "v = OptInt i" using d by (auto split: option_value.splits)
    then show ?thesis using num by (simp add: format)
  qed (use d named in auto)
qed

section \<open>The key of the options\<close>

text \<open>Keyword arguments and an architecture of the declared types.\<close>

definition typed_keywords :: "option_value dict \<Rightarrow> bool" where
  "typed_keywords opts \<longleftrightarrow>
     list_all (\<lambda>(k, d). case map_of opts k of None \<Rightarrow> True | Some v \<Rightarrow> declared d v) CPUOptions_fields"

lemma options_key_Cons:
  "options_key pr ((k, v) # o1 # os) = k @ ''-'' @ py_format pr v @ CHR ''_'' # options_key pr (o1 # os)"
  by (simp add: options_key_def)

lemma options_key_inj:
  assumes pr: "prints_strings pr"
  shows "map fst xs = map fst ds \<Longrightarrow> map fst ys = map fst ds \<Longrightarrow>
    list_all2 (\<lambda>(k, d) (k', v). declared d v) ds xs \<Longrightarrow> list_all2 (\<lambda>(k, d) (k', v). declared d v) ds ys \<Longrightarrow>
    options_key pr xs = options_key pr ys \<Longrightarrow> xs = ys"
proof (induction ds arbitrary: xs ys)
  case (Cons d0 ds)
  obtain k d where d0: "d0 = (k, d)" by (cases d0)
  obtain v xs' where xs: "xs = (k, v) # xs'" "declared d v" using Cons.prems(1,3) by (cases xs) (auto simp: d0)
  obtain w ys' where ys: "ys = (k, w) # ys'" "declared d w" using Cons.prems(2,4) by (cases ys) (auto simp: d0)
  note same = declared_format_inj [OF pr xs(2) ys(2)]
  show ?case
  proof (cases ds)
    case Nil
    then have "xs' = []" "ys' = []" using Cons.prems(1,2) by (simp_all add: xs ys)
    then show ?thesis using Cons.prems(5) same by (simp add: xs ys options_key_def)
  next
    case (Cons d1 ds')
    then obtain x1 xs1 y1 ys1 where y1: "xs' = x1 # xs1" "ys' = y1 # ys1"
      using Cons.prems(1,2) by (cases xs'; cases ys') (auto simp: xs ys)
    have "py_format pr v @ CHR ''_'' # options_key pr xs' = py_format pr w @ CHR ''_'' # options_key pr ys'"
      using Cons.prems(5) unfolding xs(1) ys(1) y1 options_key_Cons by simp
    then have "py_format pr v = py_format pr w \<and> options_key pr xs' = options_key pr ys'"
      by (rule split_at [OF declared_no_underscore [OF pr xs(2)] declared_no_underscore [OF pr ys(2)]])
    then show ?thesis
      using Cons.IH [of xs' ys'] Cons.prems same by (simp add: d0 xs ys)
  qed
qed simp

lemma parse_options_fields: "parse_options env arch opts = Inr os \<Longrightarrow> map fst os = map fst CPUOptions_fields"
  by (auto simp: parse_options_def bind_r_eq_Inr_iff comp_def case_prod_unfold)

text \<open>The fields that are read from the environment, and their types.\<close>

lemma environment_declared:
  "environment_options env = Inr e \<Longrightarrow> (k, d) \<in> set CPUOptions_fields \<Longrightarrow> map_of e k = Some v \<Longrightarrow> declared d v"
  by (auto simp: environment_options_def bind_r_eq_Inr_iff CPUOptions_fields_def split: if_splits)

lemma default_declared: "(k, d) \<in> set CPUOptions_fields \<Longrightarrow> declared d d"
  by (auto simp: CPUOptions_fields_def plain_char_def name_ok_def number_char_def)

lemma arch_declared: "(''arch'', d) \<in> set CPUOptions_fields \<Longrightarrow> named_value arch \<Longrightarrow> declared d arch"
  by (auto simp: CPUOptions_fields_def)

definition option_value_of :: "cpu_options \<Rightarrow> option_value \<Rightarrow> option_value dict \<Rightarrow> string \<Rightarrow> option_value \<Rightarrow> option_value" where
  "option_value_of e arch opts k d =
     (case map_of e k of
        Some v \<Rightarrow> v
      | None \<Rightarrow> (case map_of opts k of Some v \<Rightarrow> v | None \<Rightarrow> if k = ''arch'' then arch else d))"

lemma parse_options_values:
  "parse_options env arch opts = Inr os \<longleftrightarrow>
     (\<exists>e. environment_options env = Inr e \<and> os = map (\<lambda>(k, d). (k, option_value_of e arch opts k d)) CPUOptions_fields)"
  by (auto simp: parse_options_def option_value_of_def bind_r_eq_Inr_iff)

lemma option_value_declared:
  assumes "named_value arch" "typed_keywords opts" "environment_options env = Inr e" "(k, d) \<in> set CPUOptions_fields"
  shows "declared d (option_value_of e arch opts k d)"
proof (cases "map_of e k")
  case None
  have "declared d v" if "map_of opts k = Some v" for v
    using assms(2,4) that unfolding typed_keywords_def list_all_iff by fastforce
  then show ?thesis
    using None assms(1,4) default_declared arch_declared by (auto simp: option_value_of_def split: option.split)
next
  case (Some v)
  then show ?thesis using environment_declared [OF assms(3,4) Some] by (simp add: option_value_of_def)
qed

lemma list_all2_map_pairs: "(\<And>k d. (k, d) \<in> set xs \<Longrightarrow> P d (f k d)) \<Longrightarrow>
    list_all2 (\<lambda>(k, d) (k', v). P d v) xs (map (\<lambda>(k, d). (k, f k d)) xs)"
  by (induction xs) auto

lemma parse_options_declared:
  assumes "named_value arch" "typed_keywords opts" "parse_options env arch opts = Inr os"
  shows "list_all2 (\<lambda>(k, d) (k', v). declared d v) CPUOptions_fields os"
proof -
  obtain e where e: "environment_options env = Inr e" "os = map (\<lambda>(k, d). (k, option_value_of e arch opts k d)) CPUOptions_fields"
    using assms(3) unfolding parse_options_values by blast
  then show ?thesis using list_all2_map_pairs option_value_declared [OF assms(1,2) e(1)] by blast
qed

text \<open>C34: two options objects that differ in any field, also in one that only the environment sets, are printed into
  different strings for the cache key, so neither kernel is taken for the other because of its options, as long as the
  values have the types the fields are declared with: booleans, whole numbers, tuples of numbers and plain
  strings, and for the architecture and the vector library a number, \<open>None\<close> or a plain name other than \<open>None\<close>; plain strings are
  made of letters, digits and the characters dot, minus and plus.  Of Python it needs that such a string is printed
  inside a tuple as it is, between quotes.\<close>

theorem options_keys_distinct:
  assumes "prints_strings pr" "named_value arch" "typed_keywords opts" "named_value arch'" "typed_keywords opts'"
    and "parse_options env arch opts = Inr os" "parse_options env' arch' opts' = Inr os'" "os \<noteq> os'"
  shows "options_key pr os \<noteq> options_key pr os'"
  using options_key_inj [OF assms(1), of os CPUOptions_fields os'] assms(8)
    parse_options_fields [OF assms(6)] parse_options_fields [OF assms(7)]
    parse_options_declared [OF assms(2,3,6)] parse_options_declared [OF assms(4,5,7)] by blast

definition example_printer :: py_printer where
  "example_printer = \<lparr>quoted = (\<lambda>s. [CHR 0x27] @ s @ [CHR 0x27]), printed_other = (\<lambda>_. [])\<rparr>"

definition fast_math_machine :: cpu_env where
  "fast_math_machine = example_machine
     \<lparr>getenv := (\<lambda>name. if name = ''TRITON_SHARED_ENABLE_FASTMATH'' then Some ''1'' else None)\<rparr>"

lemma fast_math_field: "(''enable_fast_math'', OptBool False) \<in> set CPUOptions_fields"
  by (simp add: CPUOptions_fields_def)

lemma options_keys_distinct_witness:
  "\<exists>os os'. parse_options example_machine (OptInt 0) [(''num_stages'', OptInt 4)] = Inr os \<and>
     parse_options fast_math_machine (OptInt 0) [(''num_stages'', OptInt 4)] = Inr os' \<and>
     options_key example_printer os \<noteq> options_key example_printer os'"
proof -
  let ?opts = "[(''num_stages'', OptInt 4)]"
  have env: "environment_options example_machine = Inr e \<Longrightarrow> map_of e ''enable_fast_math'' = Some (OptBool False)"
    "environment_options fast_math_machine = Inr e \<Longrightarrow> map_of e ''enable_fast_math'' = Some (OptBool True)" for e
    by (auto simp: environment_options_def fast_math_machine_def example_machine_def env_flag_def bind_r_eq_Inr_iff split: if_splits)
  have "\<exists>e. environment_options example_machine = Inr e" "\<exists>e. environment_options fast_math_machine = Inr e"
    by (auto simp: environment_options_def fast_math_machine_def example_machine_def)
  then obtain e e' where e: "environment_options example_machine = Inr e" "environment_options fast_math_machine = Inr e'"
    by blast
  define os where "os = map (\<lambda>(k, d). (k, option_value_of e (OptInt 0) ?opts k d)) CPUOptions_fields"
  define os' where "os' = map (\<lambda>(k, d). (k, option_value_of e' (OptInt 0) ?opts k d)) CPUOptions_fields"
  have p: "parse_options example_machine (OptInt 0) ?opts = Inr os" "parse_options fast_math_machine (OptInt 0) ?opts = Inr os'"
    unfolding parse_options_values os_def os'_def using e by blast+
  have "os \<noteq> os'"
  proof
    assume "os = os'"
    then have "option_value_of e (OptInt 0) ?opts ''enable_fast_math'' (OptBool False) =
        option_value_of e' (OptInt 0) ?opts ''enable_fast_math'' (OptBool False)"
      unfolding os_def os'_def map_eq_conv using fast_math_field by fastforce
    then show False using env(1) [OF e(1)] env(2) [OF e(2)] by (simp add: option_value_of_def)
  qed
  moreover have "typed_keywords ?opts" by (simp add: typed_keywords_def CPUOptions_fields_def)
  moreover have "prints_strings example_printer" by (simp add: prints_strings_def example_printer_def)
  ultimately have "options_key example_printer os \<noteq> options_key example_printer os'"
    using p by (intro options_keys_distinct [of example_printer "OptInt 0" ?opts "OptInt 0" ?opts]) simp_all
  then show ?thesis using p by blast
qed

text \<open>The declared types matter: the values are not checked, and 4 and the string of it are printed alike.\<close>

lemma untyped_options_share_key:
  assumes "parse_options env arch [(''num_stages'', OptInt 4)] = Inr os" "parse_options env arch [(''num_stages'', OptStr ''4'')] = Inr os'"
  shows "os \<noteq> os' \<and> options_key pr os = options_key pr os'"
proof -
  obtain e where e: "environment_options env = Inr e"
    and os: "os = map (\<lambda>(k, d). (k, option_value_of e arch [(''num_stages'', OptInt 4)] k d)) CPUOptions_fields"
      "os' = map (\<lambda>(k, d). (k, option_value_of e arch [(''num_stages'', OptStr ''4'')] k d)) CPUOptions_fields"
    using assms by (auto simp: parse_options_values)
  have none: "map_of e ''num_stages'' = None" using e by (auto simp: environment_options_def bind_r_eq_Inr_iff)
  have "(''num_stages'', OptInt 1) \<in> set CPUOptions_fields" by (simp add: CPUOptions_fields_def)
  then have "os \<noteq> os'" unfolding os map_eq_conv using none by (force simp: option_value_of_def)
  moreover have "py_format pr (option_value_of e arch [(''num_stages'', OptInt 4)] k d) =
      py_format pr (option_value_of e arch [(''num_stages'', OptStr ''4'')] k d)" for k d
    by (simp add: option_value_of_def py_format_def decimal_int_def nat_digits.simps split: option.split)
  then have "options_key pr os = options_key pr os'"
    unfolding options_key_def os by (intro arg_cong [of _ _ "join_with ''_''"]) (simp add: case_prod_unfold comp_def)
  ultimately show ?thesis ..
qed

section \<open>Launches on this backend\<close>

text \<open>\<open>parse_options\<close> looks at the keywords that name a field, and at no others.\<close>

lemma map_of_map_value: "map_of (map (\<lambda>(k, v). (k, f v)) xs) k = map_option f (map_of xs k)"
  by (induction xs) auto

lemma parse_options_cong:
  assumes "\<forall>k \<in> set (map fst CPUOptions_fields). map_of opts k = map_of opts' k"
  shows "parse_options env arch opts = parse_options env arch opts'"
proof -
  have "map (\<lambda>(k, d). (k, option_value_of e arch opts k d)) CPUOptions_fields =
      map (\<lambda>(k, d). (k, option_value_of e arch opts' k d)) CPUOptions_fields" for e
  proof (rule map_cong [OF refl])
    fix x assume "x \<in> set CPUOptions_fields"
    then have "map_of opts (fst x) = map_of opts' (fst x)" using assms by simp
    then show "(case x of (k, d) \<Rightarrow> (k, option_value_of e arch opts k d)) = (case x of (k, d) \<Rightarrow> (k, option_value_of e arch opts' k d))"
      unfolding option_value_of_def case_prod_unfold by (rule ssubst) (rule refl)
  qed
  then show ?thesis unfolding parse_options_def option_value_of_def by (simp only:)
qed

lemma cpu_reads_only: "reads_only (parse_opts (cpu_jit_env env arch pr compile debug)) (option_names (cpu_jit_env env arch pr compile debug))"
  unfolding reads_only_def
proof (intro allI impI)
  fix kwargs kwargs' :: "pyarg dict"
  assume same: "\<forall>k \<in> set (option_names (cpu_jit_env env arch pr compile debug)). map_of kwargs k = map_of kwargs' k"
  have "parse_options env arch (map (\<lambda>(k, v). (k, option_of v)) kwargs) = parse_options env arch (map (\<lambda>(k, v). (k, option_of v)) kwargs')"
    by (intro parse_options_cong) (use same in \<open>simp add: map_of_map_value cpu_jit_env_def\<close>)
  then show "parse_opts (cpu_jit_env env arch pr compile debug) kwargs = parse_opts (cpu_jit_env env arch pr compile debug) kwargs'"
    by (simp add: cpu_jit_env_def)
qed

text \<open>An environment: the CPU backend, printing through an enumeration of the values, and a compiler that returns its request.\<close>

definition example_print :: "pyarg list \<times> pyarg dict \<Rightarrow> string" where
  "example_print x = CHR ''('' # replicate (to_nat x) CHR '' ''"

definition example_env :: "(cpu_options, cpu_options request) jit_env" where
  "example_env = cpu_jit_env example_machine (OptInt 0) example_print Inr False"

lemma example_prints_apart: "prints_apart (py_str example_env)"
proof -
  have "replicate m x = replicate n x \<longleftrightarrow> m = n" for m n and x :: char by (metis length_replicate)
  then show ?thesis by (simp add: prints_apart_def example_env_def cpu_jit_env_def example_print_def)
qed

lemma example_reads_only: "reads_only (parse_opts example_env) (option_names example_env)"
  unfolding example_env_def by (rule cpu_reads_only)

lemma example_options_apart: "options_apart example_env example_params"
  by (simp add: options_apart_def example_env_def cpu_jit_env_def CPUOptions_fields_def example_params_def)

lemma example_params_ok: "params_ok example_params"
  by (simp add: params_ok_def example_params_def)

lemmas example_facts = example_prints_apart example_reads_only example_options_apart example_params_ok

lemmas jit_eval = with_debug_def excess_def regular_def none_visible_def constexprs_plain_def constexprs_printable_def
  constexpr_vals_def non_constexpr_vals_def options_typed_def is_constexpr_def param_is_const_def contains_def annotation_type_def
  example_params_def dispatch_key_def get_property_key_def is_equal_to_1_def last_component_def type_canonicalisation_dict_def

lemma launches_transparent_witness:
  "launch_all example_env example_params
     [([ATensor ''torch.float32'' 4096, AInt 1000], []), ([ATensor ''torch.float32'' 4096, AInt 1000], []),
      ([ATensor ''torch.float32'' 8192], [(''n'', AInt 1000)])] new_jit_state =
   map (\<lambda>(args, kwargs). map_sum id fst (run_kernel example_env example_params args kwargs new_jit_state))
     [([ATensor ''torch.float32'' 4096, AInt 1000], []), ([ATensor ''torch.float32'' 4096, AInt 1000], []),
      ([ATensor ''torch.float32'' 8192], [(''n'', AInt 1000)])]"
  by (rule launches_transparent [OF example_facts, where opt_type = "\<lambda>_. ''bool''"])
    (simp add: regular_calls_def regular_call_def jit_eval example_env_def cpu_jit_env_def)

lemma same_key_same_kernel_witness:
  "compile_kernel example_env example_params [ATensor ''torch.float32'' 4096, AInt 1000, AInt 64] [(''BLOCK'', AInt 64)] [] =
   compile_kernel example_env example_params [ATensor ''torch.float32'' 8192, AInt 1001, AInt 64] [] []"
  using same_key_same_kernel [OF example_facts,
      of "[ATensor ''torch.float32'' 4096, AInt 1000, AInt 64]" "[ATensor ''torch.float32'' 8192, AInt 1001, AInt 64]"
        "\<lambda>_. ''bool''" "[(''BLOCK'', AInt 64)]" "[]"]
  by (simp add: jit_eval)


definition example_options :: "pyarg dict \<Rightarrow> cpu_options" where
  "example_options kwargs =
     map (\<lambda>(k, d). (k, option_value_of
       [(''disable_machine_scheduler'', OptBool False), (''enable_fast_math'', OptBool False), (''disable_armpl'', OptBool False),
        (''disable_kunpeng_llm'', OptBool True), (''sme_matmul_k_tile'', OptInt 32), (''enable_sme_streaming_autovec'', OptBool False),
        (''enable_opt_o3'', OptBool False)]
       (OptInt 0) (map (\<lambda>(k, v). (k, option_of v)) kwargs) k d)) CPUOptions_fields"

lemma example_parse: "parse_opts example_env kwargs = Inr (example_options kwargs)"
  by (simp add: example_env_def cpu_jit_env_def parse_options_values environment_options_def example_machine_def env_flag_def
      example_options_def)

lemma example_fields:
  "option_fields example_env = map fst" "map fst (example_options kwargs) = map fst CPUOptions_fields"
  "compile_fn example_env = Inr" "py_str example_env = example_print" "cached_debug example_env = False"
  by (simp_all add: example_env_def cpu_jit_env_def example_options_def comp_def case_prod_unfold)

lemma debug_field: "''debug'' \<in> set (map fst CPUOptions_fields)"
  by (simp add: CPUOptions_fields_def)

lemma example_compile:
  "compile_kernel example_env ps vals kwargs [(''debug'', v)] =
     bind_r (check_r (list_all (\<lambda>k. map_of kwargs k = None) [''device_type'', ''device'', ''stream'']) AssertionError) (\<lambda>_.
     bind_r (sig_types ps vals) (\<lambda>ts. Inr (make_request ps vals ts (example_options kwargs))))"
  using debug_field unfolding compile_kernel_def example_parse bind_r_simps example_fields by (simp add: check_r_def)

lemma signed_zero_reuses_kernel_witness:
  "\<exists>k vals. launch_all example_env example_params
     [([ATensor ''torch.float32'' 4096, AInt 1000, AFloat (Finite 0)], []), ([ATensor ''torch.float32'' 4096, AInt 1000, AFloat (Finite 0)], []),
      ([ATensor ''torch.float32'' 4096, AInt 1000, AFloat NegZero], [])] new_jit_state =
     [Inr (k, vals), Inr (k, vals), Inr (k, vals)]"
proof -
  let ?args = "[ATensor ''torch.float32'' 4096, AInt 1000, AFloat (Finite 0)]"
  obtain k vals s where run: "run_kernel example_env example_params ?args [] new_jit_state = Inr ((k, vals), s)"
    by (simp add: run_kernel_run new_jit_state_def full_args_def slow_path_def m_defs example_compile check_r_def jit_eval
        example_fields Let_def)
  have "\<forall>v \<in> set ?args. \<not> is_nan v" "\<forall>(n, v) \<in> set (with_debug example_env []). \<not> is_nan v"
    by (simp_all add: with_debug_def)
  then show ?thesis
    using signed_zero_reuses_kernel [of ?args example_params 2 example_env "[]" k vals s] example_params_ok run
    by (simp add: example_params_def is_constexpr_def contains_def) blast
qed

text \<open>
  A parameter with the name of an option.  \<open>run\<close> hands \<open>parse_options\<close> every keyword argument of the launch, but only those
  that are not parameters enter the key: a kernel launched with \<open>num_stages\<close> by keyword and then by position
  gets, the second time, the kernel that was compiled with the option \<open>num_stages\<close> set.
\<close>

definition stages_params :: "kernel_param list" where
  "stages_params = [\<lparr>num = 0, pname = ''num_stages'', annotation = ''tl.constexpr'', do_not_specialize = False,
     do_not_specialize_on_alignment = False, default = None\<rparr>]"

lemma stages_options:
  "map_of (example_options [(''num_stages'', AInt 4), (''debug'', d)]) ''num_stages'' = Some (OptInt 4)"
  "map_of (example_options [(''debug'', d)]) ''num_stages'' = Some (OptInt 1)"
  by (simp_all add: example_options_def CPUOptions_fields_def option_value_of_def)

lemma option_parameter_takes_wrong_kernel:
  "\<exists>k k'. launch_all example_env stages_params [([], [(''num_stages'', AInt 4)]), ([AInt 4], [])] new_jit_state = [Inr (k, []), Inr (k, [])] \<and>
     launch_all example_env stages_params [([AInt 4], [])] new_jit_state = [Inr (k', [])] \<and>
     map_of (req_options k) ''num_stages'' = Some (OptInt 4) \<and> map_of (req_options k') ''num_stages'' = Some (OptInt 1)"
proof -
  note eval = run_kernel_run new_jit_state_def full_args_def normalize_args_def slow_path_def m_defs example_compile check_r_def
    jit_eval stages_params_def example_fields Let_def
  let ?make = "\<lambda>kwargs. make_request stages_params [AInt 4] [] (example_options kwargs)"
  have "launch_all example_env stages_params [([], [(''num_stages'', AInt 4)]), ([AInt 4], [])] new_jit_state =
      [Inr (?make [(''num_stages'', AInt 4), (''debug'', ABool False)], []), Inr (?make [(''num_stages'', AInt 4), (''debug'', ABool False)], [])]"
    by (simp add: eval)
  moreover have "launch_all example_env stages_params [([AInt 4], [])] new_jit_state = [Inr (?make [(''debug'', ABool False)], [])]"
    by (simp add: eval)
  ultimately show ?thesis by (intro exI conjI) (auto simp: make_request_def Let_def stages_options)
qed

end
