(* ===== verification/Launcher_Properties.thy ===== *)
theory Launcher_Properties
  imports Launcher Cpu_Backend_Properties
begin

text \<open>
  The launcher hands the bound arguments of a launch to the compiled kernel in the order of the
  parameters, and each way of sharing out a grid runs every program exactly once.
\<close>

declare split_paired_All [simp del] split_paired_Ex [simp del]

section \<open>The points of a grid\<close>

lemma int32_small: "- (2 ^ 31) \<le> x \<Longrightarrow> x < 2 ^ 31 \<Longrightarrow> int32 x = x"
  by (simp add: int32_def)

lemma int64_small: "- (2 ^ 63) \<le> x \<Longrightarrow> x < 2 ^ 63 \<Longrightarrow> int64 x = x"
  by (simp add: int64_def)

lemma sdiv_nonneg: "0 \<le> a \<Longrightarrow> 0 < b \<Longrightarrow> a sdiv b = a div b" for a b :: int
  by (simp add: signed_divide_int_def sgn_if)

lemma smod_nonneg: "0 \<le> a \<Longrightarrow> 0 < b \<Longrightarrow> a smod b = a mod b" for a b :: int
  by (simp add: signed_modulo_int_def sgn_if)

text \<open>The sizes are an \<open>int\<close>, and the product of two of them has to fit in one.\<close>

definition grid_fits :: "int \<Rightarrow> int \<Rightarrow> int \<Rightarrow> bool" where
  "grid_fits gx gy gz \<longleftrightarrow> 0 < gx \<and> 0 < gy \<and> gx * gy < 2 ^ 31 \<and> 0 < gz \<and> gz < 2 ^ 31"

lemma size_bounds:
  assumes "grid_fits gx gy gz"
  shows "gx < 2 ^ 31" "gy < 2 ^ 31" "0 < gx * gy" "gx * gy * gz \<le> (2 ^ 31 - 1) * (2 ^ 31 - 1)"
proof -
  have b: "0 < gx" "0 < gy" "gx * gy < 2 ^ 31" "0 < gz" "gz < 2 ^ 31" using assms by (simp_all add: grid_fits_def)
  show "0 < gx * gy" using b by simp
  have "gx * 1 \<le> gx * gy" "1 * gy \<le> gx * gy" using b by (intro mult_left_mono mult_right_mono; simp)+
  then show "gx < 2 ^ 31" "gy < 2 ^ 31" using b(3) by linarith+
  show "gx * gy * gz \<le> (2 ^ 31 - 1) * (2 ^ 31 - 1)" using b by (intro mult_mono) auto
qed

lemma program_count_eq: "grid_fits gx gy gz \<Longrightarrow> program_count gx gy gz = gx * gy * gz"
proof -
  assume a: "grid_fits gx gy gz"
  have b: "gx * gy < 2 ^ 31" "0 < gz" using a by (simp_all add: grid_fits_def)
  have wide: "int64 p = p" if "0 \<le> p" "p \<le> (2 ^ 31 - 1) * (2 ^ 31 - 1)" for p using that by (intro int64_small) simp_all
  have "int64 (gx * gy) = gx * gy" using size_bounds(3) [OF a] b(1) wide [of "gx * gy"] by simp
  moreover have "0 \<le> gx * gy * gz" using size_bounds(3) [OF a] b(2) by simp
  then have "int64 (gx * gy * gz) = gx * gy * gz"
    using size_bounds(4) [OF a] wide [of "gx * gy * gz"] by simp
  ultimately show ?thesis by (simp add: program_count_def)
qed

lemma program_count_bounds: "grid_fits gx gy gz \<Longrightarrow> 0 < program_count gx gy gz \<and> program_count gx gy gz \<le> (2 ^ 31 - 1) * (2 ^ 31 - 1)"
  using size_bounds(3,4) [of gx gy gz] by (simp add: program_count_eq grid_fits_def)

lemma div_less_mult:
  fixes x k m :: int
  assumes "0 < k" "x < m * k"
  shows "x div k < m"
proof (rule ccontr)
  assume "\<not> x div k < m"
  then have "m * k \<le> x div k * k" using assms(1) by (intro mult_right_mono) auto
  also have "\<dots> \<le> x" using assms(1) by (simp flip: minus_mod_eq_div_mult)
  finally show False using assms(2) by simp
qed

text \<open>Then a program is computed as in unbounded arithmetic.\<close>

lemma grid_point_eq:
  assumes "grid_fits gx gy gz" "0 \<le> i" "i < program_count gx gy gz"
  shows "grid_point gx gy i = (i mod gx, (i div gx) mod gy, i div (gx * gy))"
proof -
  note b = size_bounds [OF assms(1)]
  have g: "0 < gx" "0 < gy" "gx * gy < 2 ^ 31" "gz < 2 ^ 31" using assms(1) by (simp_all add: grid_fits_def)
  have q: "0 \<le> i div gx" "0 \<le> i div (gx * gy)" using assms(2) g(1) b(3) by (simp_all add: pos_imp_zdiv_nonneg_iff)
  have z: "i div (gx * gy) < gz" using assms(1,3) b(3) by (intro div_less_mult) (simp_all add: program_count_eq mult_ac)
  have "int32 (gx * gy) = gx * gy" using b(3) g(3) by (intro int32_small) simp_all
  moreover have "int32 (i mod gx) = i mod gx"
    using pos_mod_bound [OF g(1), of i] pos_mod_sign [OF g(1), of i] b(1) by (intro int32_small) linarith+
  moreover have "int32 ((i div gx) mod gy) = (i div gx) mod gy"
    using pos_mod_bound [OF g(2), of "i div gx"] pos_mod_sign [OF g(2), of "i div gx"] b(2) by (intro int32_small) linarith+
  moreover have "int32 (i div (gx * gy)) = i div (gx * gy)" using z q(2) g(4) by (intro int32_small) linarith+
  ultimately show ?thesis
    using assms(2) g(1,2) b(3) q by (simp add: grid_point_def sdiv_nonneg smod_nonneg)
qed

lemma grid_index_bound:
  assumes "0 \<le> x" "x < gx" "0 \<le> y" "y < gy" "0 \<le> z" "z < gz" "grid_fits gx gy gz"
  shows "0 \<le> x + gx * (y + gy * z) \<and> x + gx * (y + gy * z) < program_count gx gy gz"
proof -
  have "gy * (z + 1) \<le> gy * gz" using assms by (intro mult_left_mono) auto
  then have "y + gy * z + 1 \<le> gy * gz" using assms by (simp add: algebra_simps)
  then have "gx * (y + gy * z + 1) \<le> gx * (gy * gz)" using assms by (intro mult_left_mono) auto
  then show ?thesis using assms by (simp add: program_count_eq [OF assms(7)] algebra_simps)
qed

lemma grid_point_coords:
  assumes "0 \<le> x" "x < gx" "0 \<le> y" "y < gy" "0 \<le> z" "z < gz" "grid_fits gx gy gz"
  shows "grid_point gx gy (x + gx * (y + gy * z)) = (x, y, z)"
proof -
  have "(x + gx * (y + gy * z)) div (gx * gy) = (x + gx * (y + gy * z)) div gx div gy"
    using assms by (simp add: zdiv_zmult2_eq grid_fits_def)
  then show ?thesis using assms grid_index_bound [OF assms] by (simp add: grid_point_eq [OF assms(7)])
qed

lemma grid_point_inverse:
  assumes "grid_fits gx gy gz" "0 \<le> i" "i < program_count gx gy gz" "grid_point gx gy i = (x, y, z)"
  shows "i = x + gx * (y + gy * z)"
proof -
  have "z = i div gx div gy" "x = i mod gx" "y = i div gx mod gy"
    using assms(1,4) by (simp_all add: grid_point_eq [OF assms(1-3)] grid_fits_def zdiv_zmult2_eq)
  then show ?thesis by (simp add: algebra_simps flip: distrib_left)
qed

lemma grid_point_bij:
  assumes grid: "grid_fits gx gy gz"
  shows "bij_betw (grid_point gx gy) {0..<program_count gx gy gz} ({0..<gx} \<times> {0..<gy} \<times> {0..<gz})"
proof (rule bij_betwI [where g = "\<lambda>(x, y, z). x + gx * (y + gy * z)"])
  have g: "0 < gx" "0 < gy" "0 < gx * gy" using grid by (simp_all add: grid_fits_def)
  show "grid_point gx gy \<in> {0..<program_count gx gy gz} \<rightarrow> {0..<gx} \<times> {0..<gy} \<times> {0..<gz}"
    using g by (auto simp: grid_point_eq [OF grid] program_count_eq [OF grid] pos_imp_zdiv_nonneg_iff mult_ac intro!: div_less_mult)
  show "(\<lambda>(x, y, z). x + gx * (y + gy * z)) \<in> {0..<gx} \<times> {0..<gy} \<times> {0..<gz} \<rightarrow> {0..<program_count gx gy gz}"
    using grid_index_bound [OF _ _ _ _ _ _ grid] by auto
  show "(\<lambda>(x, y, z). x + gx * (y + gy * z)) (grid_point gx gy i) = i" if "i \<in> {0..<program_count gx gy gz}" for i
    using grid_point_inverse [OF grid, of i] that by (cases "grid_point gx gy i") simp
qed (use grid in \<open>auto simp: grid_point_coords\<close>)

text \<open>A schedule that lists the programs \<open>0, \<dots>, N - 1\<close> in some order runs each point of the grid once.\<close>

definition runs_each_once :: "int \<Rightarrow> int \<Rightarrow> int \<Rightarrow> int list \<Rightarrow> bool" where
  "runs_each_once gx gy gz programs \<longleftrightarrow>
     distinct (map (grid_point gx gy) programs) \<and>
     set (map (grid_point gx gy) programs) = {0..<gx} \<times> {0..<gy} \<times> {0..<gz}"

lemma permutation_runs_each_once:
  assumes "grid_fits gx gy gz" "mset programs = mset [0..program_count gx gy gz - 1]"
  shows "runs_each_once gx gy gz programs"
proof -
  have "set programs = set [0..program_count gx gy gz - 1]" by (rule mset_eq_setD [OF assms(2)])
  then have set: "set programs = {0..<program_count gx gy gz}"
    using atLeastLessThanPlusOne_atLeastAtMost_int [of 0 "program_count gx gy gz - 1"] by (simp only: set_upto) simp
  have dist: "distinct programs" using mset_eq_imp_distinct_iff [OF assms(2)] by simp
  show ?thesis
    using grid_point_bij [OF assms(1)] dist unfolding runs_each_once_def distinct_map bij_betw_def set set_map by (intro conjI) simp_all
qed

section \<open>Shares of the threads\<close>

lemma concat_intervals:
  fixes f :: "nat \<Rightarrow> int"
  assumes "\<And>k. f k \<le> f (Suc k)"
  shows "concat (map (\<lambda>k. [f k..f (Suc k) - 1]) [0..<n]) = [f 0..f n - 1] \<and> f 0 \<le> f n"
proof (induction n)
  case (Suc n)
  have "[f 0..f n - 1] @ [f n..f (Suc n) - 1] = [f 0..f (Suc n) - 1]"
  proof (cases "f n < f (Suc n)")
    case True
    then show ?thesis using Suc upto_split1 [of "f 0" "f n" "f (Suc n) - 1"] by simp
  next
    case False
    then show ?thesis using assms [of n] by simp
  qed
  then show ?case using Suc assms [of n] by simp
qed simp

lemma shares_mono: "0 \<le> N \<Longrightarrow> 0 < W \<Longrightarrow> (N * int k) div W \<le> (N * int (Suc k)) div W" for N W :: int
  by (intro zdiv_mono1 mult_left_mono) auto

text \<open>While the number of programs times the number of threads fits in 64 bits nothing wraps.\<close>

lemma share_fits:
  assumes "0 < N" "0 < T" "N * T < 2 ^ 63"
  shows "N + T - 1 < 2 ^ 63" "0 \<le> w \<Longrightarrow> w \<le> T \<Longrightarrow> int64 (N * w) = N * w"
proof -
  have "0 \<le> (N - 1) * (T - 1)" using assms by simp
  then show "N + T - 1 < 2 ^ 63" using assms(3) by (simp add: algebra_simps)
  assume w: "0 \<le> w" "w \<le> T"
  have "N * w \<le> N * T" using w assms by (intro mult_left_mono) auto
  moreover have "0 \<le> N * w" using w assms by simp
  ultimately show "int64 (N * w) = N * w" using assms(3) by (intro int64_small) linarith+
qed

lemma reserve_master_eq:
  assumes "0 < N" "0 < T" "N * T < 2 ^ 63"
  shows "reserve_master N T \<longleftrightarrow> 1 < T \<and> (N + T - 2) div (T - 1) = (N + T - 1) div T"
proof (cases "1 < T")
  case True
  have "int64 (N + T - 2) = N + T - 2" "int64 (N + T - 1) = N + T - 1"
    using share_fits(1) [OF assms] assms(1,2) by (intro int64_small; simp)+
  then show ?thesis using True assms by (simp add: reserve_master_def sdiv_nonneg)
qed (simp add: reserve_master_def)

lemma worker_programs_eq:
  assumes "0 < N" "0 < T" "N * T < 2 ^ 63" "0 \<le> tid" "tid < T"
  shows "worker_programs N T tid =
    (if \<not> reserve_master N T then [(N * tid) div T..(N * (tid + 1)) div T - 1]
     else if tid = 0 then []
     else [(N * (tid - 1)) div (T - 1)..(N * tid) div (T - 1) - 1])"
proof (cases "reserve_master N T")
  case False
  then show ?thesis
    using share_fits(2) [OF assms(1-3), of tid] share_fits(2) [OF assms(1-3), of "tid + 1"] assms
    by (simp add: worker_programs_def Let_def sdiv_nonneg)
next
  case True
  then have "1 < T" by (simp add: reserve_master_def)
  then show ?thesis
    using share_fits(2) [OF assms(1-3), of "tid - 1"] share_fits(2) [OF assms(1-3), of tid] assms True
    by (cases "tid = 0") (simp_all add: worker_programs_def Let_def sdiv_nonneg)
qed

lemma worker_programs_cover:
  assumes "0 < N" "0 < T" "N * T < 2 ^ 63"
  shows "concat (map (\<lambda>t. worker_programs N T (int t)) [0..<nat T]) = [0..N - 1]"
proof (cases "reserve_master N T")
  case False
  then have share: "map (\<lambda>t. worker_programs N T (int t)) [0..<nat T] =
      map (\<lambda>t. [(N * int t) div T..(N * int (Suc t)) div T - 1]) [0..<nat T]"
    using assms by (intro map_cong) (simp_all add: worker_programs_eq algebra_simps)
  show ?thesis
    using concat_intervals [of "\<lambda>k. (N * int k) div T" "nat T"] shares_mono [of N T] assms unfolding share by simp
next
  case True
  then have T: "1 < T" by (simp add: reserve_master_def)
  have master: "worker_programs N T 0 = []"
    using True by (simp add: worker_programs_def)
  have share: "map (\<lambda>t. worker_programs N T (int (Suc t))) [0..<nat (T - 1)] =
      map (\<lambda>t. [(N * int t) div (T - 1)..(N * int (Suc t)) div (T - 1) - 1]) [0..<nat (T - 1)]"
    using True assms by (intro map_cong) (simp_all add: worker_programs_eq algebra_simps)
  have "concat (map (\<lambda>t. worker_programs N T (int (Suc t))) [0..<nat (T - 1)]) = [0..N - 1]"
    using concat_intervals [of "\<lambda>k. (N * int k) div (T - 1)" "nat (T - 1)"] shares_mono [of N "T - 1"] assms T unfolding share by simp
  moreover have "[0..<nat T] = 0 # map Suc [0..<nat (T - 1)]"
    using T by (simp add: map_Suc_upt upt_conv_Cons nat_diff_distrib flip: Suc_nat_eq_nat_zadd1)
  ultimately show ?thesis using master by (simp add: comp_def)
qed

lemma share_bound:
  fixes N W w :: int
  assumes "0 \<le> N" "0 < W"
  shows "(N * (w + 1)) div W - (N * w) div W \<le> (N + W - 1) div W"
proof -
  have "N * (w + 1) = ((N * w) mod W + N) + (N * w) div W * W"
    using div_mult_mod_eq [of "N * w" W] by (simp add: algebra_simps)
  then have "(N * (w + 1)) div W = ((N * w) mod W + N) div W + (N * w) div W"
    using assms by (simp only: div_mult_self1)
  also have "((N * w) mod W + N) div W \<le> (N + W - 1) div W"
    using assms pos_mod_bound [of W "N * w"] by (intro zdiv_mono1) auto
  finally show ?thesis by simp
qed

lemma worker_programs_length:
  assumes "0 < N" "0 < T" "N * T < 2 ^ 63" "0 \<le> tid" "tid < T"
  shows "int (length (worker_programs N T tid)) \<le> (N + T - 1) div T"
proof -
  have pos: "0 \<le> (N + T - 1) div T" using assms by (simp add: pos_imp_zdiv_nonneg_iff)
  show ?thesis
  proof (cases "reserve_master N T")
    case False
    then show ?thesis using share_bound [of N T tid] pos assms by (simp add: worker_programs_eq [OF assms])
  next
    case True
    then have "1 < T" "(N + T - 2) div (T - 1) = (N + T - 1) div T" by (simp_all add: reserve_master_eq [OF assms(1-3)])
    then show ?thesis
      using True share_bound [of N "T - 1" "tid - 1"] pos assms by (simp add: worker_programs_eq [OF assms])
  qed
qed

text \<open>The static loop gives each program to one thread.\<close>

lemma static_programs_cover:
  assumes "\<forall>i. 0 \<le> i \<and> i < N \<longrightarrow> owner i < n"
  shows "mset (concat (map (static_programs owner N) [0..<n])) = mset [0..N - 1]"
proof -
  have "mset (concat (map (\<lambda>t. filter (\<lambda>i. owner i = t) xs) [0..<n])) = mset xs" if "\<forall>i \<in> set xs. owner i < n" for xs
    using that
  proof (induction xs)
    case Nil
    have "concat (map (\<lambda>t. []) [0..<n]) = ([] :: int list)" by simp
    then show ?case by simp
  next
    case (Cons x xs)
    have "mset (concat (map (\<lambda>t. filter (\<lambda>i. owner i = t) (x # xs)) [0..<m])) =
        mset (concat (map (\<lambda>t. filter (\<lambda>i. owner i = t) xs) [0..<m])) + (if owner x < m then {#x#} else {#})" for m
      by (induction m) auto
    then show ?case using Cons by simp
  qed
  then show ?thesis using assms unfolding static_programs_def by simp
qed

section \<open>Chunks on demand\<close>

definition team_programs :: "nat \<Rightarrow> team \<Rightarrow> int list" where
  "team_programs nthreads s = concat (map (programs_run s) [0..<nthreads])"

lemma mset_concat_update:
  "t < n \<Longrightarrow> mset (concat (map (f(t := f t @ xs)) [0..<n])) = mset (concat (map f [0..<n])) + mset xs"
proof (induction n)
  case (Suc n)
  show ?case
  proof (cases "t = n")
    case True
    have "map (f(t := f t @ xs)) [0..<n] = map f [0..<n]" using True by (intro map_cong) auto
    then show ?thesis by (simp only: upt_Suc_append [OF le0] map_append concat_append) (simp add: True)
  next
    case False
    then show ?thesis using Suc by simp
  qed
qed simp

lemma interval_append: "0 \<le> a \<Longrightarrow> a \<le> b \<Longrightarrow> [0..a - 1] @ [a..b - 1] = [0..b - 1]" for a b :: int
  using upto_split1 [of 0 a "b - 1"] by (cases "a = b") auto

text \<open>
  Every program below the counter has been run once, and a thread leaves only when none is left; the counter
  exceeds the number of programs by at most a chunk for the last one handed out and one for each thread that left.
\<close>

definition team_inv :: "int \<Rightarrow> int \<Rightarrow> nat \<Rightarrow> team \<Rightarrow> bool" where
  "team_inv N chunk nthreads s \<longleftrightarrow>
     0 \<le> next_program s \<and> next_program s \<le> N + chunk * (1 + int (nthreads - card (running s))) \<and>
     running s \<subseteq> {0..<nthreads} \<and>
     mset (team_programs nthreads s) = mset [0..min (next_program s) N - 1] \<and>
     (running s \<noteq> {0..<nthreads} \<longrightarrow> N \<le> next_program s)"

definition counter_fits :: "int \<Rightarrow> int \<Rightarrow> nat \<Rightarrow> bool" where
  "counter_fits N chunk nthreads \<longleftrightarrow> 0 < chunk \<and> 0 < N \<and> N + chunk * (1 + int nthreads) < 2 ^ 63"

lemma running_card:
  assumes "team_inv N chunk nthreads s" "t \<in> running s"
  shows "0 < card (running s)" "card (running s) \<le> nthreads" "card (running s - {t}) = card (running s) - 1"
proof -
  have "running s \<subseteq> {0..<nthreads}" using assms(1) by (simp add: team_inv_def)
  then have "finite (running s)" "card (running s) \<le> nthreads"
    using card_mono [of "{0..<nthreads}" "running s"] by (auto intro: finite_subset)
  then show "0 < card (running s)" "card (running s) \<le> nthreads" "card (running s - {t}) = card (running s) - 1"
    using assms(2) by (auto simp: card_gt_0_iff)
qed

lemma counter_no_wrap:
  assumes inv: "team_inv N chunk nthreads s" and fits: "counter_fits N chunk nthreads" and t: "t \<in> running s"
  shows "int64 (next_program s + chunk) = next_program s + chunk"
proof -
  note c = running_card [OF inv t]
  have "1 + int (nthreads - card (running s)) \<le> int nthreads" using c by simp
  then have "chunk * (1 + int (nthreads - card (running s))) \<le> chunk * int nthreads"
    using fits by (intro mult_left_mono) (simp_all add: counter_fits_def)
  then show ?thesis
    using inv fits by (intro int64_small) (simp_all add: team_inv_def counter_fits_def algebra_simps)
qed

lemma fetch_chunk_inv:
  assumes inv: "team_inv N chunk nthreads s" and fits: "counter_fits N chunk nthreads" and t: "t \<in> running s"
  shows "team_inv N chunk nthreads (fetch_chunk N chunk t s)"
proof (cases "next_program s < N")
  case False
  note c = running_card [OF inv t]
  have "int (nthreads - card (running s - {t})) = 1 + int (nthreads - card (running s))" using c by simp
  then have "next_program s + chunk \<le> N + chunk * (1 + int (nthreads - card (running s - {t})))"
    using inv by (simp add: team_inv_def algebra_simps)
  then show ?thesis
    using inv t False fits counter_no_wrap [OF inv fits t]
    by (auto simp: team_inv_def fetch_chunk_def team_programs_def min_def Let_def counter_fits_def split: if_splits)
next
  case True
  have n: "0 \<le> next_program s" "t < nthreads" "0 < chunk" using inv t fits by (auto simp: team_inv_def counter_fits_def)
  let ?c = "next_program s" and ?e = "min (next_program s + chunk) N"
  have "mset (team_programs nthreads (fetch_chunk N chunk t s)) = mset (team_programs nthreads s) + mset [?c..?e - 1]"
    using True mset_concat_update [OF n(2), of "programs_run s" "[?c..?e - 1]"]
    by (simp add: fetch_chunk_def team_programs_def Let_def counter_no_wrap [OF inv fits t])
  also have "\<dots> = mset ([0..?c - 1] @ [?c..?e - 1])"
    using inv True by (simp add: team_inv_def)
  also have "\<dots> = mset [0..?e - 1]"
    using True n by (subst interval_append) auto
  finally have ran: "mset (team_programs nthreads (fetch_chunk N chunk t s)) = mset [0..?e - 1]" .
  have "chunk * 1 \<le> chunk * (1 + int (nthreads - card (running s)))" using n by (intro mult_left_mono) auto
  then show ?thesis
    using inv True n ran by (auto simp: team_inv_def fetch_chunk_def Let_def counter_no_wrap [OF inv fits t])
qed

lemma team_steps_inv: "team_steps N chunk nthreads s \<Longrightarrow> counter_fits N chunk nthreads \<Longrightarrow> team_inv N chunk nthreads s"
proof (induction rule: team_steps.induct)
  case start
  have "concat (map (\<lambda>t. []) [0..<nthreads]) = ([] :: int list)" by simp
  then show ?case using start by (simp add: team_inv_def team_start_def team_programs_def counter_fits_def)
qed (simp add: fetch_chunk_inv)

lemma team_done:
  assumes "team_steps N chunk nthreads s" "counter_fits N chunk nthreads" "0 < nthreads" "running s = {}"
  shows "mset (team_programs nthreads s) = mset [0..N - 1]"
  using team_steps_inv [OF assms(1,2)] assms(3,4) by (auto simp: team_inv_def min_def)

lemma chunk_size_bounds: "0 < chunk \<Longrightarrow> 0 < chunk_size N nthreads chunk \<and> chunk_size N nthreads chunk \<le> chunk"
proof (induction N nthreads chunk rule: chunk_size.induct)
  case (1 N nthreads chunk)
  have "(chunk + 1) div 2 \<le> chunk" "0 < (chunk + 1) div 2" using 1(2) by linarith+
  then show ?case
    using 1 unfolding chunk_size.simps [of N nthreads chunk] by (simp del: chunk_size.simps) linarith
qed

text \<open>A step brings the end nearer.\<close>

definition team_measure :: "int \<Rightarrow> team \<Rightarrow> nat" where
  "team_measure N s = nat (N - next_program s) + card (running s)"

lemma fetch_chunk_decreases:
  assumes "team_inv N chunk nthreads s" "counter_fits N chunk nthreads" "t \<in> running s"
  shows "team_measure N (fetch_chunk N chunk t s) < team_measure N s"
proof (cases "next_program s < N")
  case True
  then show ?thesis using assms(2) counter_no_wrap [OF assms] by (simp add: team_measure_def fetch_chunk_def Let_def counter_fits_def)
next
  case False
  then show ?thesis
    using running_card [OF assms(1,3)] assms(2) counter_no_wrap [OF assms]
    by (simp add: team_measure_def fetch_chunk_def Let_def counter_fits_def)
qed

section \<open>Arguments in their places\<close>

lemma insert_constexprs:
  assumes "length pre = 9" "m \<le> length vals"
  shows "fold (\<lambda>(idx, val). list_insert (idx + 9) val) (map (\<lambda>i. (i, vals ! i)) (filter c [0..<m]))
      (pre @ map ((!) vals) (filter (\<lambda>i. \<not> c i) [0..<length vals])) =
    pre @ take m vals @ map ((!) vals) (filter (\<lambda>i. \<not> c i) [m..<length vals])"
  using assms(2)
proof (induction m)
  case (Suc m)
  have rest: "[m..<length vals] = m # [Suc m..<length vals]" using Suc.prems by (simp add: upt_conv_Cons)
  have "list_insert (m + 9) v (pre @ take m vals @ ys) = pre @ take m vals @ v # ys" for v ys
    using assms(1) Suc.prems by (simp add: list_insert_def)
  then show ?case
    using Suc rest by (simp add: take_Suc_conv_app_nth)
qed simp

lemma filter_zip_nth:
  "length xs = length ps \<Longrightarrow>
     map f (filter P (zip ps xs)) = map (\<lambda>i. f (ps ! i, xs ! i)) (filter (\<lambda>i. P (ps ! i, xs ! i)) [0..<length ps])"
proof -
  assume "length xs = length ps"
  then have "zip ps xs = map (\<lambda>i. (ps ! i, xs ! i)) [0..<length ps]"
    by (intro nth_equalityI) simp_all
  then show ?thesis by (simp add: filter_map comp_def)
qed

lemma index_in_nth: "distinct xs \<Longrightarrow> i < length xs \<Longrightarrow> index_in (xs ! i) xs = Inr i"
proof (induction xs arbitrary: i)
  case (Cons x xs)
  then show ?case by (cases i) (auto simp: nth_mem)
qed simp

lemma index_items_nth:
  assumes "distinct names" "set is \<subseteq> {0..<length names}"
  shows "index_items names (map (\<lambda>i. (names ! i, f i)) is) = Inr (map (\<lambda>i. (i, f i)) is)"
  using assms(2) by (induction "is") (simp_all add: index_items_def cst_key_def index_in_nth [OF assms(1)])

lemma sort_key_indices: "sort_key fst (map (\<lambda>i. (i, f i)) (filter P [0..<n])) = map (\<lambda>i. (i, f i)) (filter P [0..<n])" for n :: nat
  by (rule sort_key_id_if_sorted) (simp add: comp_def sorted_wrt_filter)

text \<open>The constants of a request, by index.\<close>

definition constant_at :: "kernel_param list \<Rightarrow> pyarg list \<Rightarrow> nat \<Rightarrow> bool" where
  "constant_at ps vals i \<longleftrightarrow>
     is_constexpr (ps ! i) \<or> num (ps ! i) \<in> set (equal_to_1 (attrs_descriptor_init ps vals)) \<or> vals ! i = ANone"

lemma request_constants:
  assumes "distinct (map pname ps)" "length vals = length ps"
  shows "index_items (map pname ps) (req_constants (make_request ps vals ts opts)) =
    Inr (map (\<lambda>i. (i, vals ! i)) (filter (constant_at ps vals) [0..<length ps]))"
proof -
  have "req_constants (make_request ps vals ts opts) =
      map (\<lambda>i. (map pname ps ! i, vals ! i)) (filter (constant_at ps vals) [0..<length ps])"
    using assms(2) by (simp add: make_request_def Let_def filter_zip_nth constant_at_def [abs_def] cong: map_cong)
  then show ?thesis using assms(1) by (simp only:) (rule index_items_nth; auto)
qed

lemma sig_types_length: "sig_types ps vals = Inr ts \<Longrightarrow> length vals = length ps \<Longrightarrow> length ts = length (filter (\<lambda>p. \<not> is_constexpr p) ps)"
  by (induction ps vals arbitrary: ts rule: sig_types.induct) (auto simp: bind_r_eq_Inr_iff split: if_splits)

lemma request_signature:
  assumes "distinct (map pname ps)" "length ts = length (filter (\<lambda>p. \<not> is_constexpr p) ps)"
  obtains sig where "index_items (map pname ps) (req_signature (make_request ps vals ts opts)) = Inr sig"
    "map fst sig = filter (\<lambda>i. \<not> is_constexpr (ps ! i)) [0..<length ps]"
proof -
  let ?is = "filter (\<lambda>i. \<not> is_constexpr (ps ! i)) [0..<length ps]"
  define us where "us = map (\<lambda>t. if t = ''none'' then ''*i8'' else t) ts"
  have ps: "filter (\<lambda>p. \<not> is_constexpr p) ps = map ((!) ps) ?is"
  proof -
    have "filter (\<lambda>p. \<not> is_constexpr p) ps = filter (\<lambda>p. \<not> is_constexpr p) (map ((!) ps) [0..<length ps])"
      by (simp only: map_nth)
    then show ?thesis by (simp only: filter_map comp_def)
  qed
  have len: "length us = length ?is" by (simp only: us_def length_map assms(2) ps)
  have "req_signature (make_request ps vals ts opts) = zip (map pname (map ((!) ps) ?is)) us"
    by (simp only: make_request_def Let_def request.simps ps us_def)
  also have "\<dots> = map (\<lambda>(i, u). (pname (ps ! i), u)) (zip ?is us)"
    using len by (intro nth_equalityI) auto
  finally have sig: "req_signature (make_request ps vals ts opts) = map (\<lambda>(i, u). (pname (ps ! i), u)) (zip ?is us)" .
  have "index_items (map pname ps) (map (\<lambda>(i, u). (pname (ps ! i), u)) ius) = Inr ius"
    if "fst ` set ius \<subseteq> {0..<length ps}" for ius :: "(nat \<times> string) list"
    using that
  proof (induction ius)
    case (Cons iu ius)
    then show ?case
      using index_in_nth [OF assms(1), of "fst iu"] by (cases iu) (simp add: index_items_def cst_key_def)
  qed (simp add: index_items_def)
  moreover have "fst ` set (zip ?is us) \<subseteq> {0..<length ps}"
    by (auto dest: set_zip_leftD)
  ultimately show thesis
    using sig len by (intro that [of "zip ?is us"]) simp_all
qed


lemma update_constexpr_keys:
  "fst ` set (fold (\<lambda>(i, v). AList.update i t) cs sig) = fst ` set cs \<union> fst ` set sig"
  by (induction cs arbitrary: sig) (auto simp: update_conv' split: if_splits simp flip: dom_map_of_conv_image_fst)

lemma update_constexpr_distinct:
  "distinct (map fst sig) \<Longrightarrow> distinct (map fst (fold (\<lambda>(i, v). AList.update i t) cs sig))"
  by (induction cs arbitrary: sig) (auto simp: distinct_update)

lemma sorted_keys: "distinct (map fst xs) \<Longrightarrow> fst ` set xs = {0..<n} \<Longrightarrow> map fst (sort_key fst xs) = [0..<n]" for n :: nat
proof -
  assume "distinct (map fst xs)" "fst ` set xs = {0..<n}"
  moreover have "mset (map fst (sort_key fst xs)) = mset (map fst xs)" by (simp only: mset_map mset_sort)
  ultimately have "distinct (map fst (sort_key fst xs))" "set (map fst (sort_key fst xs)) = set [0..<n]"
    using mset_eq_imp_distinct_iff by (blast, simp)
  then show ?thesis by (intro sorted_distinct_set_unique) simp_all
qed

definition constexpr_indices :: "kernel_param list \<Rightarrow> nat list" where
  "constexpr_indices ps = filter (\<lambda>i. is_constexpr (ps ! i)) [0..<length ps]"

lemma launcher_of_request:
  assumes "distinct (map pname ps)" "length vals = length ps" "sig_types ps vals = Inr ts"
    and init: "launcher_init (map pname ps) (constexpr_indices ps) (req_signature (make_request ps vals ts opts))
      (req_constants (make_request ps vals ts opts)) = Inr l"
  shows "constant_inserts l = map (\<lambda>i. (i, vals ! i)) (filter (\<lambda>i. is_constexpr (ps ! i)) [0..<length ps])"
    "map fst (launcher_signature l) = [0..<length ps]"
proof -
  let ?cs = "map (\<lambda>i. (i, vals ! i)) (filter (constant_at ps vals) [0..<length ps])"
  obtain sig where sig: "index_items (map pname ps) (req_signature (make_request ps vals ts opts)) = Inr sig"
    "map fst sig = filter (\<lambda>i. \<not> is_constexpr (ps ! i)) [0..<length ps]"
    using request_signature [OF assms(1) sig_types_length [OF assms(3,2)]] .
  let ?sig = "fold (\<lambda>(i, v). AList.update i ''constexpr'') ?cs sig"
  have l: "l = \<lparr>launcher_signature = sort_key fst ?sig,
      constant_inserts = sort_key fst (filter (\<lambda>(i, v). i \<in> set (constexpr_indices ps)) ?cs)\<rparr>"
    using init by (auto simp: launcher_init_def request_constants [OF assms(1,2)] sig(1) bind_r_eq_Inr_iff Let_def)
  have "filter (\<lambda>(i, v). i \<in> set (constexpr_indices ps)) ?cs =
      map (\<lambda>i. (i, vals ! i)) (filter (\<lambda>i. is_constexpr (ps ! i)) [0..<length ps])"
    by (simp add: filter_map comp_def constexpr_indices_def constant_at_def cong: conj_cong filter_cong)
      (metis (no_types, lifting) atLeastLessThan_iff set_upt zero_le filter_cong)
  then show "constant_inserts l = map (\<lambda>i. (i, vals ! i)) (filter (\<lambda>i. is_constexpr (ps ! i)) [0..<length ps])"
    by (simp add: l sort_key_indices)
  have "fst ` set ?sig = {0..<length ps}"
  proof -
    have "fst ` set sig = set (filter (\<lambda>i. \<not> is_constexpr (ps ! i)) [0..<length ps])"
      using sig(2) by (metis list.set_map)
    then show ?thesis unfolding update_constexpr_keys by (auto simp: image_image constant_at_def)
  qed
  moreover have "distinct (map fst ?sig)"
    by (rule update_constexpr_distinct) (simp add: sig(2))
  ultimately show "map fst (launcher_signature l) = [0..<length ps]"
    by (simp add: l sorted_keys)
qed


section \<open>Properties\<close>

text \<open>C31: the launcher object that is built for a compiled kernel gives back to its call the compile-time values
  the dispatch left out: called with nine launch arguments and the run-time values of a launch, it hands on the
  nine and then the value of every parameter, in parameter order; and its signature, from which the argument
  format is generated, has one entry per parameter in the same order.  Arguments specialised to 1 or to
  \<open>None\<close> are constants of the kernel but are not inserted twice.\<close>

theorem launcher_restores_arguments:
  assumes "params_ok ps" "length vals = length ps" "sig_types ps vals = Inr ts" "length preamble = 9"
    "launcher_init (map pname ps) (constexpr_indices ps) (req_signature (make_request ps vals ts opts))
      (req_constants (make_request ps vals ts opts)) = Inr l"
  shows "launcher_call l (preamble @ non_constexpr_vals ps vals) = preamble @ vals \<and>
    map fst (launcher_signature l) = [0..<length ps]"
proof -
  have names: "distinct (map pname ps)" using assms(1) by (simp add: params_ok_def)
  note l = launcher_of_request [OF names assms(2,3,5)]
  have "non_constexpr_vals ps vals = map ((!) vals) (filter (\<lambda>i. \<not> is_constexpr (ps ! i)) [0..<length vals])"
    using assms(2) by (simp add: non_constexpr_vals_def filter_zip_nth)
  then show ?thesis
    using insert_constexprs [OF assms(4) order_refl, of vals "\<lambda>i. is_constexpr (ps ! i)"] l assms(2)
    by (simp add: launcher_call_def)
qed

lemma launcher_restores_arguments_witness:
  "launcher_call \<lparr>launcher_signature = [(0, ''*fp32''), (1, ''constexpr''), (2, ''constexpr'')], constant_inserts = [(2, AInt 64)]\<rparr>
     (replicate 9 ANone @ non_constexpr_vals example_params [ATensor ''torch.float32'' 4096, AInt 1, AInt 64]) =
   replicate 9 ANone @ [ATensor ''torch.float32'' 4096, AInt 1, AInt 64]"
proof -
  have "sig_types example_params [ATensor ''torch.float32'' 4096, AInt 1, AInt 64] = Inr [''*fp32'', ''i32'']"
    by (simp add: jit_eval)
  moreover have "launcher_init (map pname example_params) (constexpr_indices example_params)
     (req_signature (make_request example_params [ATensor ''torch.float32'' 4096, AInt 1, AInt 64] [''*fp32'', ''i32''] ()))
     (req_constants (make_request example_params [ATensor ''torch.float32'' 4096, AInt 1, AInt 64] [''*fp32'', ''i32''] ())) =
   Inr \<lparr>launcher_signature = [(0, ''*fp32''), (1, ''constexpr''), (2, ''constexpr'')], constant_inserts = [(2, AInt 64)]\<rparr>"
    by (simp add: launcher_init_def make_request_def attrs_descriptor_init_def jit_eval constexpr_indices_def
        index_items_def cst_key_def Let_def launch_format_def args_format_def extracted_type_def format_of_def lookup_r_def
        formats_def upt_rec)
  ultimately show ?thesis
    using launcher_restores_arguments [OF example_params_ok, of "[ATensor ''torch.float32'' 4096, AInt 1, AInt 64]"
        "[''*fp32'', ''i32'']" "replicate 9 ANone" "()"]
    by (simp add: example_params_def)
qed

text \<open>C32: each way the generated launcher runs a grid executes every program of the grid exactly once: the
  sequential loop; the static loop of OpenMP, to whichever thread of the team an iteration is given; the shares
  of a team with or without the first thread left free; and chunks of whole rows fetched from a shared counter,
  in whatever order the threads fetch them, once all have left.  The team may be smaller than asked for.  The sizes and the
  numbers of threads are of type \<open>int\<close>, the sizes are positive and the product of the first two fits in an \<open>int\<close>, in which the launcher
  computes it, and the number of programs times the number of threads fits in an \<open>int64_t\<close>; of OpenMP it needs that a static loop gives
  each iteration to one thread of the team.\<close>

theorem programs_run_once:
  assumes "grid_fits gx gy gz" "num_threads < 2 ^ 31" "omp_max_threads < 2 ^ 31"
    and "program_count gx gy gz * team_threads num_threads omp_max_threads (program_count gx gy gz) < 2 ^ 63"
    and "launched b gx gy gz num_threads omp_max_threads programs"
  shows "runs_each_once gx gy gz (concat programs)"
proof -
  note once = permutation_runs_each_once [OF assms(1)]
  define N where "N = program_count gx gy gz"
  define T where "T = team_threads num_threads omp_max_threads N"
  note pos = program_count_bounds [OF assms(1), folded N_def]
  have T: "N * T < 2 ^ 63" using assms(4) by (simp add: N_def T_def)
  have "T < 2 ^ 31" using assms(2,3) by (simp add: T_def team_threads_def Let_def)
  show ?thesis
    using assms(5)
  proof cases
    case sequential
    then show ?thesis by (intro once) (simp add: sequential_programs_def)
  next
    case (on_demand M nthreads n s)
    let ?chunk = "chunk_size N T gx"
    have gx: "0 < gx" "gx < 2 ^ 31" using size_bounds(1) [OF assms(1)] assms(1) by (simp_all add: grid_fits_def)
    have n: "0 < n" "int n \<le> T" using on_demand by (simp_all add: in_team_def T_def N_def)
    have "?chunk * (1 + int n) \<le> (2 ^ 31 - 1) * 2 ^ 31"
      using chunk_size_bounds [OF gx(1), of N T] gx n \<open>T < 2 ^ 31\<close> by (intro mult_mono) linarith+
    then have "counter_fits N ?chunk n" using pos chunk_size_bounds [OF gx(1), of N T] by (simp add: counter_fits_def)
    then show ?thesis
      using team_done [of N ?chunk n s] on_demand n by (intro once) (simp add: N_def T_def team_programs_def)
  next
    case (reserved M n)
    then have n: "0 < n" "int n \<le> T" by (simp_all add: in_team_def T_def N_def)
    have "N * int n \<le> N * T" using pos n by (intro mult_left_mono) auto
    then have "N * int n < 2 ^ 63" using T by linarith
    then have "concat (map (\<lambda>t. worker_programs N (int n) (int t)) [0..<n]) = [0..N - 1]"
      using worker_programs_cover [of N "int n"] pos n by simp
    then show ?thesis using reserved by (intro once) (simp add: N_def)
  next
    case (static M n owner)
    then show ?thesis using static_programs_cover [of N owner n] by (intro once) (simp add: N_def)
  qed
qed

text \<open>Two threads share six programs of two rows.\<close>

definition example_team :: team where
  "example_team = fetch_chunk 6 1 1 (fetch_chunk 6 1 0 (fetch_chunk 6 1 1 (fetch_chunk 6 1 0 (fetch_chunk 6 1 0
     (fetch_chunk 6 1 1 (fetch_chunk 6 1 1 (fetch_chunk 6 1 0 (team_start 2))))))))"

definition example_build :: "bool \<Rightarrow> bool \<Rightarrow> launcher_build" where
  "example_build k r = \<lparr>openmp = True, kunpeng_llm = k, reserve_master_thread = r\<rparr>"

lemma programs_run_once_witness:
  "runs_each_once 3 2 1 (concat (map (\<lambda>t. worker_programs 6 4 (int t)) [0..<4])) \<and>
   runs_each_once 3 2 1 (concat (map (static_programs (\<lambda>i. nat (i div 2)) 6) [0..<3])) \<and>
   runs_each_once 3 2 1 (concat (map (programs_run example_team) [0..<2]))"
proof -
  have N: "program_count 3 2 1 = 6" by (simp add: program_count_def int64_def)
  have chunk: "chunk_size 6 2 3 = 1" by (simp add: chunk_size.simps)
  have steps: "team_steps 6 1 2 example_team"
    unfolding example_team_def
    by (intro team_steps.intros) (simp_all add: team_start_def fetch_chunk_def int64_def)
  have "running example_team = {}"
    by (auto simp: example_team_def team_start_def fetch_chunk_def int64_def)
  then have "launched (example_build True False) 3 2 1 2 8 (map (programs_run example_team) [0..<2])"
    using steps chunk by (intro launched.on_demand [where N = 6 and nthreads = 2]) (simp_all add: N example_build_def team_threads_def in_team_def)
  moreover have "launched (example_build False True) 3 2 1 4 8 (map (\<lambda>t. worker_programs 6 (int 4) (int t)) [0..<4])"
    by (intro launched.reserved) (simp_all add: N example_build_def team_threads_def in_team_def)
  moreover have "launched (example_build False False) 3 2 1 4 8 (map (static_programs (\<lambda>i. nat (i div 2)) 6) [0..<3])"
    by (intro launched.static) (auto simp: N example_build_def team_threads_def in_team_def nat_less_iff)
  moreover have "grid_fits 3 2 1" by (simp add: grid_fits_def)
  ultimately show ?thesis
    using programs_run_once [of 3 2 1 2 8 "example_build True False" "map (programs_run example_team) [0..<2]"]
      programs_run_once [of 3 2 1 4 8 "example_build False True" "map (\<lambda>t. worker_programs 6 (int 4) (int t)) [0..<4]"]
      programs_run_once [of 3 2 1 4 8 "example_build False False" "map (static_programs (\<lambda>i. nat (i div 2)) 6) [0..<3]"]
    by (simp add: N team_threads_def)
qed

text \<open>Leaving the first thread of a team free does not lengthen the launch: no thread runs more than
  \<open>\<lceil>N / T\<rceil>\<close> programs, the share of a team of \<open>T\<close> threads that all work.\<close>

theorem reserve_master_keeps_shares:
  assumes "0 < N" "0 < T" "N * T < 2 ^ 63" "0 \<le> tid" "tid < T"
  shows "int (length (worker_programs N T tid)) \<le> (N + T - 1) div T"
  using assms by (rule worker_programs_length)

lemma reserve_master_keeps_shares_witness: "int (length (worker_programs 6 4 2)) \<le> 2 \<and> reserve_master 6 4"
  using reserve_master_keeps_shares [of 6 4 2] by (simp add: reserve_master_def int64_def)

end
