(* ===== verification/Interpreter_Reduce.thy ===== *)
theory Interpreter_Reduce
  imports Tensor_Value
begin

text \<open>
  Reductions and scans of the interpreter, the classes \<open>ReduceOps\<close> and \<open>ScanOps\<close> of
  \<open>python/triton/runtime/interpreter.py\<close>, for a combine function that has no numpy shortcut: one loop over
  all elements of the input in memory order that updates the output array in place.  A tuple of input
  tensors is a block of tuples.  The axis is the Python integer the program passed, so that indexing and
  slicing with a negative one is what Python makes of it, and one below minus the rank is an exception of the
  loop.
\<close>

section \<open>Python's indexing\<close>

definition slice_bound :: "int \<Rightarrow> 'a list \<Rightarrow> nat" where
  "slice_bound a xs = nat (if a < 0 then int (length xs) + a else a)"

definition slice_to :: "int \<Rightarrow> 'a list \<Rightarrow> 'a list" where
  "slice_to a xs = take (slice_bound a xs) xs"

definition slice_from :: "int \<Rightarrow> 'a list \<Rightarrow> 'a list" where
  "slice_from a xs = drop (slice_bound a xs) xs"

definition item_at :: "'a list \<Rightarrow> int \<Rightarrow> 'a result" where
  "item_at xs a =
     (if - int (length xs) \<le> a \<and> a < int (length xs) then Inr (xs ! nat (if a < 0 then int (length xs) + a else a))
      else Inl IndexError)"

text \<open>The axis as numpy takes it; its \<open>AxisError\<close> is a \<open>ValueError\<close>.\<close>

definition numpy_axis :: "nat \<Rightarrow> int \<Rightarrow> nat result" where
  "numpy_axis n a = (if - int n \<le> a \<and> a < int n then Inr (nat (if a < 0 then int n + a else a)) else Inl ValueError)"

text \<open>A loop whose body may raise.\<close>

fun fold_r :: "('x \<Rightarrow> 's \<Rightarrow> 's result) \<Rightarrow> 'x list \<Rightarrow> 's \<Rightarrow> 's result" where
  "fold_r f [] s = Inr s"
| "fold_r f (x # xs) s = bind_r (f x s) (fold_r f xs)"

section \<open>Reduction\<close>

definition check_axis :: "nat list \<Rightarrow> int option \<Rightarrow> unit result" where
  "check_axis shape axis =
     check_r (case axis of None \<Rightarrow> True | Some a \<Rightarrow> a < int (length shape)) ValueError"

text \<open>\<open>unravel\<close>: without an axis the input is flattened.\<close>

definition unravel :: "'a tval \<Rightarrow> int option \<Rightarrow> 'a tval \<times> int" where
  "unravel input axis =
     (case axis of Some a \<Rightarrow> (input, a) | None \<Rightarrow> (reshape_val [tnumel input] input, 0))"

definition drop_axis :: "int \<Rightarrow> nat list \<Rightarrow> nat list" where
  "drop_axis axis xs = slice_to axis xs @ slice_from (axis + 1) xs"

definition reduce_step ::
  "('a \<Rightarrow> 'a \<Rightarrow> 'a) \<Rightarrow> int \<Rightarrow> 'a tval \<Rightarrow> nat \<Rightarrow> (nat list \<Rightarrow> 'a) \<Rightarrow> (nat list \<Rightarrow> 'a) result" where
  "reduce_step combine axis input i output =
     (let input_index = unravel_index (tshape input) i;
          output_index = drop_axis axis input_index;
          x = elem_at input input_index
      in bind_r (item_at input_index axis) (\<lambda>k.
         Inr (if k = 0 then output(output_index := x)
              else output(output_index := combine (output output_index) x))))"

definition reduce_loop :: "('a \<Rightarrow> 'a \<Rightarrow> 'a) \<Rightarrow> 'a \<Rightarrow> int \<Rightarrow> 'a tval \<Rightarrow> 'a tval result" where
  "reduce_loop combine zero axis input =
     bind_r (fold_r (reduce_step combine axis input) [0..<tnumel input] (\<lambda>_. zero)) (\<lambda>output.
     Inr \<lparr>tshape = drop_axis axis (tshape input), elem_at = output\<rparr>)"

definition generic_reduce :: "('a \<Rightarrow> 'a \<Rightarrow> 'a) \<Rightarrow> 'a \<Rightarrow> int option \<Rightarrow> bool \<Rightarrow> 'a tval \<Rightarrow> 'a tval result" where
  "generic_reduce combine zero original_axis keep_dims input0 =
     bind_r (check_axis (tshape input0) original_axis) (\<lambda>_.
     let (input, axis) = unravel input0 original_axis in
     bind_r (reduce_loop combine zero axis input) (\<lambda>data.
     if keep_dims then
       (if original_axis \<noteq> None
        then bind_r (numpy_axis (length (tshape data) + 1) axis) (\<lambda>k. Inr (expand_dims_val k data))
        else Inr ((expand_dims_val 0 ^^ length (tshape input)) data))
     else Inr data))"

section \<open>Scan\<close>

definition scan_step ::
  "('a \<Rightarrow> 'a \<Rightarrow> 'a) \<Rightarrow> int \<Rightarrow> 'a tval \<Rightarrow> nat \<Rightarrow> (nat list \<Rightarrow> 'a) \<Rightarrow> (nat list \<Rightarrow> 'a) result" where
  "scan_step combine axis input i output =
     (let index = unravel_index (tshape input) i;
          data = elem_at input index
      in bind_r (item_at index axis) (\<lambda>k0.
         Inr (if k0 = 0 then output(index := data)
              else
                let prev_index = map (\<lambda>k. if int k = axis then index ! k - 1 else index ! k) [0..<length index]
                in output(index := combine (output prev_index) data))))"

definition scan_loop :: "('a \<Rightarrow> 'a \<Rightarrow> 'a) \<Rightarrow> 'a \<Rightarrow> int \<Rightarrow> 'a tval \<Rightarrow> 'a tval result" where
  "scan_loop combine zero axis input =
     bind_r (fold_r (scan_step combine axis input) [0..<tnumel input] (\<lambda>_. zero)) (\<lambda>output.
     Inr \<lparr>tshape = tshape input, elem_at = output\<rparr>)"

text \<open>\<open>np.flip\<close> along an axis.\<close>

definition flip_axis :: "int \<Rightarrow> 'a tval \<Rightarrow> 'a tval result" where
  "flip_axis axis t =
     bind_r (numpy_axis (length (tshape t)) axis) (\<lambda>k.
     Inr (t\<lparr>elem_at := (\<lambda>is. elem_at t (is[k := tshape t ! k - 1 - is ! k]))\<rparr>))"

definition generic_scan :: "('a \<Rightarrow> 'a \<Rightarrow> 'a) \<Rightarrow> 'a \<Rightarrow> int \<Rightarrow> bool \<Rightarrow> 'a tval \<Rightarrow> 'a tval result" where
  "generic_scan combine zero axis reverse input =
     bind_r (check_axis (tshape input) (Some axis)) (\<lambda>_.
     bind_r (if reverse then flip_axis axis input else Inr input) (\<lambda>new_input.
     bind_r (scan_loop combine zero axis new_input) (\<lambda>ret.
     if reverse then flip_axis axis ret else Inr ret)))"

section \<open>Loops that do not raise\<close>

definition raises_not :: "('x \<Rightarrow> 's \<Rightarrow> 's result) \<Rightarrow> 'x \<Rightarrow> 's \<Rightarrow> 's" where
  "raises_not step x s = projr (step x s)"

lemma fold_r_total:
  "(\<And>x s. x \<in> set xs \<Longrightarrow> \<exists>s'. step x s = Inr s') \<Longrightarrow> fold_r step xs s = Inr (fold (raises_not step) xs s)"
proof (induction xs arbitrary: s)
  case (Cons x xs)
  obtain s' where "step x s = Inr s'" using Cons.prems [of x s] by auto
  then show ?case using Cons by (simp add: raises_not_def)
qed simp

lemma fold_r_raises:
  "xs \<noteq> [] \<Longrightarrow> (\<And>x s. x \<in> set xs \<Longrightarrow> step x s = Inl e) \<Longrightarrow> fold_r step xs s = Inl e"
  by (cases xs) simp_all

text \<open>The position along the axis, counted from the front.\<close>

definition axis_number :: "nat \<Rightarrow> int \<Rightarrow> nat" where
  "axis_number n a = nat (if a < 0 then int n + a else a)"

definition axis_ok :: "nat \<Rightarrow> int \<Rightarrow> bool" where
  "axis_ok n a \<longleftrightarrow> - int n \<le> a \<and> a < int n"

lemma axis_nat [simp]: "axis_number n (int a) = a" "axis_ok n (int a) \<longleftrightarrow> a < n"
  by (simp_all add: axis_number_def axis_ok_def)

lemma axis_number_less: "axis_ok n a \<Longrightarrow> axis_number n a < n"
  by (auto simp: axis_ok_def axis_number_def)

lemma item_at_eq: "item_at xs a = (if axis_ok (length xs) a then Inr (xs ! axis_number (length xs) a) else Inl IndexError)"
  by (simp add: item_at_def axis_ok_def axis_number_def)

lemma numpy_axis_eq: "numpy_axis n a = (if axis_ok n a then Inr (axis_number n a) else Inl ValueError)"
  by (simp add: numpy_axis_def axis_ok_def axis_number_def)

lemma unravel_index_length: "length (unravel_index sh p) = length sh"
  by (induction sh arbitrary: p) simp_all

lemma reduce_step_total:
  "axis_ok (length (tshape t)) axis \<Longrightarrow> raises_not (reduce_step f axis t) n out =
     (let is = unravel_index (tshape t) n; os = drop_axis axis is in
      out(os := if is ! axis_number (length (tshape t)) axis = 0 then elem_at t is else f (out os) (elem_at t is)))"
  by (simp add: raises_not_def reduce_step_def item_at_eq unravel_index_length Let_def)

lemma reduce_loop_total:
  "axis_ok (length (tshape t)) axis \<Longrightarrow> reduce_loop f zero axis t =
     Inr \<lparr>tshape = drop_axis axis (tshape t), elem_at = fold (raises_not (reduce_step f axis t)) [0..<tnumel t] (\<lambda>_. zero)\<rparr>"
  unfolding reduce_loop_def
  by (subst fold_r_total) (simp_all add: reduce_step_def item_at_eq unravel_index_length Let_def)

lemma scan_step_total:
  "axis_ok (length (tshape t)) axis \<Longrightarrow> raises_not (scan_step f axis t) n out =
     (let is = unravel_index (tshape t) n in
      out(is := if is ! axis_number (length (tshape t)) axis = 0 then elem_at t is
        else f (out (map (\<lambda>k. if int k = axis then is ! k - 1 else is ! k) [0..<length is])) (elem_at t is)))"
  by (simp add: raises_not_def scan_step_def item_at_eq unravel_index_length Let_def)

lemma scan_loop_total:
  "axis_ok (length (tshape t)) axis \<Longrightarrow> scan_loop f zero axis t =
     Inr \<lparr>tshape = tshape t, elem_at = fold (raises_not (scan_step f axis t)) [0..<tnumel t] (\<lambda>_. zero)\<rparr>"
  unfolding scan_loop_def
  by (subst fold_r_total) (simp_all add: scan_step_def item_at_eq unravel_index_length Let_def)

text \<open>An axis below minus the rank raises at the first element.\<close>

lemma loops_raise:
  assumes "\<not> axis_ok (length (tshape t)) axis" "0 < tnumel t"
  shows "reduce_loop f zero axis t = Inl IndexError" "scan_loop f zero axis t = Inl IndexError"
proof -
  have "fold_r (reduce_step f axis t) [0..<tnumel t] (\<lambda>_. zero) = Inl IndexError"
    "fold_r (scan_step f axis t) [0..<tnumel t] (\<lambda>_. zero) = Inl IndexError"
    using assms by (intro fold_r_raises; simp add: reduce_step_def scan_step_def item_at_eq unravel_index_length Let_def)+
  then show "reduce_loop f zero axis t = Inl IndexError" "scan_loop f zero axis t = Inl IndexError"
    by (simp_all add: reduce_loop_def scan_loop_def)
qed

section \<open>Indices along an axis\<close>

text \<open>An axis that is not negative.\<close>

definition put_axis :: "nat \<Rightarrow> nat \<Rightarrow> nat list \<Rightarrow> nat list" where
  "put_axis a j os = take a os @ j # drop a os"

lemma drop_axis_nat: "drop_axis (int a) xs = take a xs @ drop (Suc a) xs"
proof -
  have "nat (int a + 1) = Suc a" by linarith
  then show ?thesis by (simp add: drop_axis_def slice_to_def slice_from_def slice_bound_def)
qed

lemmas drop_axis_0 = drop_axis_nat [of 0, simplified]

lemma drop_axis_Suc: "drop_axis (1 + int a) xs = take (Suc a) xs @ drop (Suc (Suc a)) xs"
  using drop_axis_nat [of "Suc a" xs] by simp

lemma valid_index_nth: "valid_index sh is \<longleftrightarrow> length is = length sh \<and> (\<forall>k < length sh. is ! k < sh ! k)"
proof (induction sh "is" rule: valid_index.induct)
  case (2 d sh i "is")
  then show ?case by (auto simp: nth_Cons split: nat.split)
qed simp_all

lemma put_drop_axis: "a < length is \<Longrightarrow> put_axis a (is ! a) (drop_axis (int a) is) = is"
  by (simp add: put_axis_def drop_axis_nat id_take_nth_drop [symmetric])

lemma drop_put_axis: "a \<le> length os \<Longrightarrow> drop_axis (int a) (put_axis a j os) = os"
  by (simp add: put_axis_def drop_axis_nat)

lemma nth_put_axis: "a \<le> length os \<Longrightarrow> put_axis a j os ! a = j"
  by (simp add: put_axis_def nth_append)

lemma valid_put_axis:
  "a < length sh \<Longrightarrow> valid_index sh (put_axis a j os) \<longleftrightarrow> j < sh ! a \<and> valid_index (drop_axis (int a) sh) os"
proof (induction a arbitrary: sh os)
  case 0
  then obtain d sh' where "sh = d # sh'" by (cases sh) auto
  then show ?case by (simp add: put_axis_def drop_axis_0)
next
  case (Suc a)
  then obtain d sh' where sh: "sh = d # sh'" by (cases sh) auto
  show ?case
  proof (cases os)
    case Nil
    then show ?thesis using Suc.prems sh by (cases sh') (auto simp: put_axis_def drop_axis_Suc)
  next
    case (Cons i os')
    then show ?thesis using Suc by (auto simp: sh put_axis_def drop_axis_nat drop_axis_Suc)
  qed
qed

lemma ravel_put_axis_less:
  "valid_index sh (put_axis a j os) \<Longrightarrow> valid_index sh (put_axis a j' os) \<Longrightarrow> a < length sh \<Longrightarrow> j < j' \<Longrightarrow>
     ravel_index sh (put_axis a j os) < ravel_index sh (put_axis a j' os)"
proof (induction a arbitrary: sh os)
  case 0
  then obtain d sh' where sh: "sh = d # sh'" by (cases sh) auto
  have "0 < prod_list sh'" using 0 valid_index_pos [of sh' os] by (simp add: sh put_axis_def)
  then show ?case using 0 by (simp add: sh put_axis_def)
next
  case (Suc a)
  then obtain d sh' where sh: "sh = d # sh'" by (cases sh) auto
  then obtain i os' where "os = i # os'" using Suc.prems by (cases os) (auto simp: put_axis_def; cases sh'; auto)
  then show ?case using Suc by (simp add: sh put_axis_def)
qed


section \<open>What the loops compute\<close>

definition along :: "'a tval \<Rightarrow> nat \<Rightarrow> nat list \<Rightarrow> nat \<Rightarrow> 'a" where
  "along t a os j = elem_at t (put_axis a j os)"

definition fold_upto :: "('a \<Rightarrow> 'a \<Rightarrow> 'a) \<Rightarrow> 'a \<Rightarrow> (nat \<Rightarrow> 'a) \<Rightarrow> nat \<Rightarrow> 'a" where
  "fold_upto f zero e k = (if k = 0 then zero else foldl f (e 0) (map e [1..<k]))"

lemma fold_upto_Suc: "fold_upto f zero e (Suc k) = (if k = 0 then e 0 else f (fold_upto f zero e k) (e k))"
  by (simp add: fold_upto_def)

lemma unravel_eq_put:
  assumes "valid_index sh (put_axis a j os)" "p < prod_list sh"
  shows "ravel_index sh (put_axis a j os) = p \<longleftrightarrow> unravel_index sh p = put_axis a j os"
  using assms by (metis ravel_unravel unravel_ravel)

lemma reduce_step_at:
  "a < length (tshape t) \<Longrightarrow> raises_not (reduce_step f (int a) t) n out os =
     (let is = unravel_index (tshape t) n in
      if drop_axis (int a) is = os then (if is ! a = 0 then elem_at t is else f (out os) (elem_at t is)) else out os)"
  by (auto simp: reduce_step_total Let_def)

text \<open>After \<open>n\<close> elements an output holds the fold over the elements of its line that were met.\<close>

lemma reduce_loop_invariant:
  assumes a: "a < length (tshape t)"
  shows "n \<le> tnumel t \<Longrightarrow> valid_index (drop_axis (int a) (tshape t)) os \<Longrightarrow> k \<le> tshape t ! a \<Longrightarrow>
    (\<forall>j < tshape t ! a. ravel_index (tshape t) (put_axis a j os) < n \<longleftrightarrow> j < k) \<Longrightarrow>
    fold (raises_not (reduce_step f (int a) t)) [0..<n] (\<lambda>_. zero) os = fold_upto f zero (along t a os) k"
proof (induction n arbitrary: os k)
  case 0
  then have "k = 0" by (cases "tshape t ! a") auto
  then show ?case by (simp add: fold_upto_def)
next
  case (Suc n)
  let ?sh = "tshape t" and ?is = "unravel_index (tshape t) n"
  have n: "n < prod_list ?sh" using Suc.prems(1) by (simp add: tnumel_def)
  have valid: "valid_index ?sh (put_axis a j os) \<longleftrightarrow> j < ?sh ! a" for j
    using Suc.prems(2) a by (simp add: valid_put_axis)
  have eq: "j < ?sh ! a \<Longrightarrow> ravel_index ?sh (put_axis a j os) = n \<longleftrightarrow> ?is = put_axis a j os" for j
    using unravel_eq_put n valid by blast
  have is_valid: "valid_index ?sh ?is" using unravel_valid [OF n] .
  have os: "a \<le> length os"
    using valid_index_length [OF Suc.prems(2)] a by (simp add: drop_axis_nat)
  show ?case
  proof (cases "drop_axis (int a) ?is = os")
    case True
    let ?j = "?is ! a"
    have j: "?is = put_axis a ?j os" "?j < ?sh ! a"
      using True put_drop_axis [of a ?is] is_valid a by (auto simp: valid_index_nth)
    have ravel_j: "ravel_index ?sh (put_axis a ?j os) = n" using eq [OF j(2)] j(1) by simp
    have below: "j < ?sh ! a \<Longrightarrow> ravel_index ?sh (put_axis a j os) < n \<longleftrightarrow> j < ?j" for j
      using ravel_put_axis_less [OF _ _ a, of j os ?j] ravel_put_axis_less [OF _ _ a, of ?j os j] ravel_j j(2) valid
      by (metis less_asym' linorder_neqE_nat less_irrefl)
    have "?j < k" using Suc.prems(4) j(2) ravel_j by auto
    moreover have "\<not> Suc ?j < k"
    proof
      assume "Suc ?j < k"
      then have s: "Suc ?j < ?sh ! a" using Suc.prems(3) by simp
      then have "ravel_index ?sh (put_axis a (Suc ?j) os) < Suc n" using Suc.prems(4) \<open>Suc ?j < k\<close> by blast
      then show False using ravel_put_axis_less [of "?sh" a ?j os "Suc ?j"] valid s j(2) a ravel_j by simp
    qed
    ultimately have k: "k = Suc ?j" by simp
    have IH: "fold (raises_not (reduce_step f (int a) t)) [0..<n] (\<lambda>_. zero) os = fold_upto f zero (along t a os) ?j"
      using Suc.prems below j(2) by (intro Suc.IH) auto
    have x: "elem_at t ?is = along t a os ?j" unfolding along_def by (rule arg_cong [OF j(1)])
    show ?thesis
      using True IH by (simp add: reduce_step_at [OF a, of f n _ os] Let_def k fold_upto_Suc x)
  next
    case False
    then have "?is \<noteq> put_axis a j os" for j using drop_put_axis [OF os] by metis
    then have "fold (raises_not (reduce_step f (int a) t)) [0..<n] (\<lambda>_. zero) os = fold_upto f zero (along t a os) k"
      using Suc.prems eq by (intro Suc.IH) (auto simp: less_Suc_eq)
    then show ?thesis using False by (simp add: reduce_step_at [OF a, of f n _ os] Let_def)
  qed
qed

lemma reduce_loop_spec:
  assumes "a < length (tshape t)" "\<forall>d \<in> set (tshape t). 0 < d"
  obtains r where "reduce_loop f zero (int a) t = Inr r" "tshape r = tshape (reduce_val f a t)"
    "\<forall>os. valid_index (tshape r) os \<longrightarrow> elem_at r os = elem_at (reduce_val f a t) os"
proof -
  let ?r = "\<lparr>tshape = drop_axis (int a) (tshape t), elem_at = fold (raises_not (reduce_step f (int a) t)) [0..<tnumel t] (\<lambda>_. zero)\<rparr>"
  have "elem_at ?r os = elem_at (reduce_val f a t) os" if os: "valid_index (drop_axis (int a) (tshape t)) os" for os
  proof -
    have "j < tshape t ! a \<Longrightarrow> ravel_index (tshape t) (put_axis a j os) < tnumel t" for j
      using assms(1) os ravel_index_less [of "tshape t" "put_axis a j os"] by (simp add: valid_put_axis tnumel_def)
    then have "elem_at ?r os = fold_upto f zero (along t a os) (tshape t ! a)"
      using reduce_loop_invariant [OF assms(1) order_refl os order_refl] by simp
    moreover have "0 < tshape t ! a" using assms by simp
    ultimately show ?thesis by (simp add: reduce_val_def fold_upto_def along_def [abs_def] put_axis_def)
  qed
  then show thesis
    using assms(1) by (intro that [of ?r]) (simp_all add: reduce_loop_total reduce_val_def drop_axis_nat)
qed

text \<open>Counted from the end, any axis but the last is the same as counted from the front.\<close>

lemma drop_axis_negative:
  assumes "axis_ok (length xs) axis" "axis \<noteq> - 1"
  shows "drop_axis axis xs = drop_axis (int (axis_number (length xs) axis)) xs"
proof (cases "axis < 0")
  case True
  then have "nat (int (length xs) + (axis + 1)) = Suc (nat (int (length xs) + axis))" "axis + 1 < 0"
    using assms by (simp_all add: axis_ok_def)
  then show ?thesis
    using True by (simp add: drop_axis_nat) (simp add: drop_axis_def slice_to_def slice_from_def slice_bound_def axis_number_def)
qed (simp add: axis_number_def)

lemma reduce_loop_negative:
  assumes "axis_ok (length (tshape t)) axis" "axis \<noteq> - 1"
  shows "reduce_loop f zero axis t = reduce_loop f zero (int (axis_number (length (tshape t)) axis)) t"
proof -
  have "reduce_step f axis t = reduce_step f (int (axis_number (length (tshape t)) axis)) t"
    using assms axis_number_less [OF assms(1)] drop_axis_negative [of "unravel_index (tshape t) _" axis]
    by (intro ext) (simp add: reduce_step_def item_at_eq unravel_index_length Let_def)
  then show ?thesis using drop_axis_negative [OF assms] by (simp add: reduce_loop_def)
qed

lemma drop_last_axis: "drop_axis (- 1) xs = butlast xs @ xs"
  by (simp add: drop_axis_def slice_to_def slice_from_def slice_bound_def butlast_conv_take nat_minus_as_int [symmetric] nat_diff_distrib')

section \<open>Scans\<close>

lemma prev_index_nat:
  "a < length is \<Longrightarrow> map (\<lambda>k. if int k = int a then is ! k - 1 else is ! k) [0..<length is] = is[a := is ! a - 1]"
  by (intro nth_equalityI) (simp_all add: nth_list_update)

lemma scan_step_at:
  assumes "a < length (tshape t)"
  shows "raises_not (scan_step f (int a) t) n out is =
     (let index = unravel_index (tshape t) n in
      if index = is
      then (if index ! a = 0 then elem_at t index else f (out (index[a := index ! a - 1])) (elem_at t index))
      else out is)"
proof -
  have prev: "map (\<lambda>k. if int k = int a then unravel_index (tshape t) n ! k - 1 else unravel_index (tshape t) n ! k)
      [0..<length (unravel_index (tshape t) n)] = (unravel_index (tshape t) n)[a := unravel_index (tshape t) n ! a - 1]"
    using assms by (intro prev_index_nat) (simp add: unravel_index_length)
  have ok: "axis_ok (length (tshape t)) (int a)" using assms by simp
  show ?thesis unfolding scan_step_total [OF ok] Let_def prev by auto
qed

lemma ravel_less_update:
  assumes "valid_index sh is" "a < length sh" "0 < is ! a"
  shows "ravel_index sh (is[a := is ! a - 1]) < ravel_index sh is" "valid_index sh (is[a := is ! a - 1])"
proof -
  have len: "length is = length sh" using valid_index_length [OF assms(1)] .
  have "put_axis a j (take a is @ drop (Suc a) is) = is[a := j]" for j
    using len assms(2) by (simp add: put_axis_def upd_conv_take_nth_drop)
  moreover have "is[a := is ! a] = is" by simp
  moreover show valid: "valid_index sh (is[a := is ! a - 1])"
    using assms by (auto simp: valid_index_nth nth_list_update)
  ultimately show "ravel_index sh (is[a := is ! a - 1]) < ravel_index sh is"
    using ravel_put_axis_less [of sh a "is ! a - 1" "take a is @ drop (Suc a) is" "is ! a"] assms by simp
qed

definition prefix_fold :: "('a \<Rightarrow> 'a \<Rightarrow> 'a) \<Rightarrow> 'a tval \<Rightarrow> nat \<Rightarrow> nat list \<Rightarrow> 'a" where
  "prefix_fold f t a is =
     foldl f (elem_at t (is[a := 0])) (map (\<lambda>j. elem_at t (is[a := j])) [1..<Suc (is ! a)])"

lemma prefix_fold_step:
  assumes "a < length is" "0 < is ! a"
  shows "prefix_fold f t a is = f (prefix_fold f t a (is[a := is ! a - 1])) (elem_at t is)"
proof -
  obtain k where k: "is ! a = Suc k" using assms(2) gr0_conv_Suc by blast
  then have "is[a := Suc k] = is" by (metis list_update_id)
  then show ?thesis using assms k by (simp add: prefix_fold_def)
qed

lemma scan_loop_invariant:
  assumes a: "a < length (tshape t)"
  shows "n \<le> tnumel t \<Longrightarrow> valid_index (tshape t) is \<Longrightarrow> ravel_index (tshape t) is < n \<Longrightarrow>
    fold (raises_not (scan_step f (int a) t)) [0..<n] (\<lambda>_. zero) is = prefix_fold f t a is"
proof (induction n arbitrary: "is")
  case (Suc n)
  let ?out = "fold (raises_not (scan_step f (int a) t)) [0..<n] (\<lambda>_. zero)"
  let ?index = "unravel_index (tshape t) n"
  have n: "n < prod_list (tshape t)" using Suc.prems(1) by (simp add: tnumel_def)
  have len: "length ?index = length (tshape t)" using valid_index_length [OF unravel_valid [OF n]] .
  note step = scan_step_at [OF a, of f n ?out "is"]
  show ?case
  proof (cases "?index = is")
    case False
    then have "ravel_index (tshape t) is \<noteq> n" using Suc.prems(2) by auto
    then show ?thesis using False Suc step by (simp add: Let_def)
  next
    case True
    show ?thesis
    proof (cases "is ! a = 0")
      case zero: True
      then have "is[a := 0] = is" by (metis list_update_id)
      then show ?thesis using True zero step by (simp add: Let_def prefix_fold_def)
    next
      case pos: False
      let ?prev = "is[a := is ! a - 1]"
      have "ravel_index (tshape t) is = n" using True n by auto
      then have "?out ?prev = prefix_fold f t a ?prev"
        using Suc.prems(1) ravel_less_update [OF Suc.prems(2) a] pos by (intro Suc.IH) auto
      then show ?thesis
        using True pos step prefix_fold_step [of a "is" f t] a len by (simp add: Let_def)
    qed
  qed
qed simp

lemma scan_loop_spec:
  assumes "a < length (tshape t)" "valid_index (tshape t) is"
  obtains r where "scan_loop f zero (int a) t = Inr r" "tshape r = tshape t" "elem_at r is = prefix_fold f t a is"
  using scan_loop_invariant [OF assms(1) order_refl assms(2)] ravel_index_less [OF assms(2)] assms(1)
  by (simp add: scan_loop_total tnumel_def)

definition flipped :: "nat \<Rightarrow> 'a tval \<Rightarrow> 'a tval" where
  "flipped k t = t\<lparr>elem_at := (\<lambda>is. elem_at t (is[k := tshape t ! k - 1 - is ! k]))\<rparr>"

lemma flip_axis_eq:
  "flip_axis axis t = (if axis_ok (length (tshape t)) axis then Inr (flipped (axis_number (length (tshape t)) axis) t) else Inl ValueError)"
  by (simp add: flip_axis_def numpy_axis_eq flipped_def)

lemma flipped_simps [simp]:
  "elem_at (flipped a t) is = elem_at t (is[a := tshape t ! a - 1 - is ! a])" "tshape (flipped a t) = tshape t" "tnumel (flipped a t) = tnumel t"
  by (simp_all add: flipped_def tnumel_def)

lemma flipped_index:
  assumes "valid_index sh is" "k < length sh"
  shows "valid_index sh (is[k := sh ! k - 1 - is ! k])" "is[k := sh ! k - 1 - (sh ! k - 1 - is ! k)] = is"
    "sh ! k - 1 - is ! k = 0 \<longleftrightarrow> is ! k = sh ! k - 1" "k < length is"
proof -
  have b: "k < length is" "is ! k < sh ! k" using assms by (simp_all add: valid_index_nth)
  then have "sh ! k - 1 - (sh ! k - 1 - is ! k) = is ! k" by simp
  then show "is[k := sh ! k - 1 - (sh ! k - 1 - is ! k)] = is" by simp
  show "valid_index sh (is[k := sh ! k - 1 - is ! k])" using assms b by (auto simp: valid_index_nth nth_list_update)
  show "sh ! k - 1 - is ! k = 0 \<longleftrightarrow> is ! k = sh ! k - 1" "k < length is" using b by auto
qed

lemma prefix_fold_flip:
  assumes "a < length is" "k < tshape t ! a"
  shows "prefix_fold f (flipped a t) a (is[a := k]) =
    foldl f (elem_at t (is[a := tshape t ! a - 1])) (map (\<lambda>j. elem_at t (is[a := tshape t ! a - 1 - j])) [1..<Suc k])"
  using assms by (simp add: prefix_fold_def)

section \<open>A negative axis\<close>

text \<open>No position of an index equals a negative axis, so the element before is the element itself, which the
  loop has not written yet.\<close>

lemma prev_index_negative: "axis < 0 \<Longrightarrow> map (\<lambda>k. if int k = axis then is ! k - 1 else is ! k) [0..<length is] = is"
  by (intro nth_equalityI) auto

lemma scan_loop_negative:
  assumes axis: "axis < 0" "axis_ok (length (tshape t)) axis"
  defines "k \<equiv> axis_number (length (tshape t)) axis"
  shows "n \<le> tnumel t \<Longrightarrow> valid_index (tshape t) is \<Longrightarrow>
    fold (raises_not (scan_step f axis t)) [0..<n] (\<lambda>_. zero) is =
      (if ravel_index (tshape t) is < n then (if is ! k = 0 then elem_at t is else f zero (elem_at t is)) else zero)"
proof (induction n arbitrary: "is")
  case (Suc n)
  let ?index = "unravel_index (tshape t) n" and ?out = "fold (raises_not (scan_step f axis t)) [0..<n] (\<lambda>_. zero)"
  have n: "n < prod_list (tshape t)" using Suc.prems(1) by (simp add: tnumel_def)
  have "?out ?index = zero"
    using Suc.IH [of ?index] Suc.prems(1) unravel_valid [OF n] n by simp
  then have "raises_not (scan_step f axis t) n ?out is =
      (if is = ?index then (if is ! k = 0 then elem_at t is else f zero (elem_at t is)) else ?out is)"
    unfolding scan_step_total [OF axis(2)] Let_def prev_index_negative [OF axis(1)] k_def by auto
  moreover have "is = ?index \<longleftrightarrow> ravel_index (tshape t) is = n"
    using Suc.prems(2) n by auto
  ultimately show ?case using Suc by (auto simp: less_Suc_eq)
qed simp

lemma scan_negative_spec:
  assumes "axis < 0" "axis_ok (length (tshape t)) axis" "valid_index (tshape t) is"
  obtains r where "scan_loop f zero axis t = Inr r" "tshape r = tshape t"
    "elem_at r is = (if is ! axis_number (length (tshape t)) axis = 0 then elem_at t is else f zero (elem_at t is))"
  using scan_loop_negative [OF assms(1,2) order_refl assms(3), of f zero] ravel_index_less [OF assms(3)] assms(2)
  by (simp add: scan_loop_total tnumel_def)

section \<open>Properties\<close>

text \<open>C35: the interpreter's element-by-element reduction along an axis gives, for every index of the result, the
  combination of the elements of that line from the first to the last, the meaning of \<open>reduce\<close> the library
  functions are stated over; the result has the shape without that axis.  This holds for an axis counted from the front, and for one
  counted from the end except the last: for the axis -1 the result has the shape of the input without its last dimension
  followed by the whole shape of the input.  An axis that is too large raises \<open>ValueError\<close>, one that is too small
  \<open>IndexError\<close>.  No dimension is empty, and the axis is not kept.\<close>

theorem generic_reduce_refines:
  assumes "\<forall>d \<in> set (tshape t). 0 < d"
  shows "(axis \<ge> int (length (tshape t)) \<longrightarrow> generic_reduce f zero (Some axis) False t = Inl ValueError) \<and>
    (axis < - int (length (tshape t)) \<longrightarrow> generic_reduce f zero (Some axis) False t = Inl IndexError) \<and>
    (axis = - 1 \<and> tshape t \<noteq> [] \<longrightarrow> (\<exists>r. generic_reduce f zero (Some axis) False t = Inr r \<and> tshape r = butlast (tshape t) @ tshape t)) \<and>
    (axis_ok (length (tshape t)) axis \<and> axis \<noteq> - 1 \<longrightarrow> (\<exists>r. generic_reduce f zero (Some axis) False t = Inr r \<and>
       tshape r = tshape (reduce_val f (axis_number (length (tshape t)) axis) t) \<and>
       (\<forall>os. valid_index (tshape r) os \<longrightarrow> elem_at r os = elem_at (reduce_val f (axis_number (length (tshape t)) axis) t) os)))"
proof (intro conjI impI)
  assume "axis \<ge> int (length (tshape t))"
  then show "generic_reduce f zero (Some axis) False t = Inl ValueError"
    by (simp add: generic_reduce_def check_axis_def check_r_def)
next
  assume "axis < - int (length (tshape t))"
  then have "\<not> axis_ok (length (tshape t)) axis" "axis < int (length (tshape t))" by (simp_all add: axis_ok_def)
  moreover have "0 < tnumel t" using assms by (auto simp: tnumel_def prod_list_zero_iff intro!: gr0I)
  ultimately show "generic_reduce f zero (Some axis) False t = Inl IndexError"
    using loops_raise(1) [of t axis f zero] by (simp add: generic_reduce_def check_axis_def check_r_def unravel_def)
next
  assume "axis = - 1 \<and> tshape t \<noteq> []"
  then have "axis_ok (length (tshape t)) (- 1)" "axis = - 1" by (cases "tshape t"; simp add: axis_ok_def)+
  then show "\<exists>r. generic_reduce f zero (Some axis) False t = Inr r \<and> tshape r = butlast (tshape t) @ tshape t"
    by (simp add: generic_reduce_def check_axis_def check_r_def unravel_def reduce_loop_total drop_last_axis)
next
  assume axis: "axis_ok (length (tshape t)) axis \<and> axis \<noteq> - 1"
  let ?k = "axis_number (length (tshape t)) axis"
  have k: "?k < length (tshape t)" "axis < int (length (tshape t))"
    using axis_number_less axis by (simp_all add: axis_ok_def)
  obtain r where "reduce_loop f zero (int ?k) t = Inr r" "tshape r = tshape (reduce_val f ?k t)"
    "\<forall>os. valid_index (tshape r) os \<longrightarrow> elem_at r os = elem_at (reduce_val f ?k t) os"
    by (rule reduce_loop_spec [OF k(1) assms, of f zero])
  then show "\<exists>r. generic_reduce f zero (Some axis) False t = Inr r \<and> tshape r = tshape (reduce_val f ?k t) \<and>
      (\<forall>os. valid_index (tshape r) os \<longrightarrow> elem_at r os = elem_at (reduce_val f ?k t) os)"
    using k(2) reduce_loop_negative [of t axis f zero] axis
    by (simp add: generic_reduce_def check_axis_def check_r_def unravel_def)
qed

lemma generic_reduce_refines_witness:
  "(\<exists>r. generic_reduce (+) 0 (Some 1) False (of_list [2, 3] [1, 2, 3, 4, 5, 6 :: int]) = Inr r \<and> elem_at r [1] = 15) \<and>
   (\<exists>r. generic_reduce (+) 0 (Some (- 2)) False (of_list [2, 3] [1, 2, 3, 4, 5, 6 :: int]) = Inr r \<and> elem_at r [1] = 7)"
proof -
  let ?t = "of_list [2, 3] [1, 2, 3, 4, 5, 6 :: int]"
  have pos: "\<forall>d \<in> set (tshape ?t). 0 < d" by (simp add: of_list_def)
  show ?thesis
    using generic_reduce_refines [OF pos, of 1 "(+)" 0] generic_reduce_refines [OF pos, of "-2" "(+)" 0]
    by (auto simp: reduce_val_def of_list_def upt_rec axis_ok_def axis_number_def)
qed

text \<open>C36: the interpreter's scan leaves at every index the combination of the elements of its line up to it, from
  the front or, in reverse, from the back, for an axis counted from the front.  An axis counted from the end is not
  brought into range: then every element but those at the first index of the axis (in reverse, the last) is combined with
  the initial zero of the output instead of its predecessor.  An axis that is too large raises \<open>ValueError\<close>; one that is
  too small raises \<open>IndexError\<close> in the loop or, in reverse, numpy's \<open>AxisError\<close>, a \<open>ValueError\<close>.\<close>

theorem generic_scan_prefixes:
  assumes "valid_index (tshape t) is"
  defines "n \<equiv> length (tshape t)"
  shows "(axis \<ge> int n \<longrightarrow> generic_scan f zero axis reverse t = Inl ValueError) \<and>
    (axis < - int n \<longrightarrow> generic_scan f zero axis reverse t = Inl (if reverse then ValueError else IndexError)) \<and>
    (a < n \<longrightarrow> (\<exists>r. generic_scan f zero (int a) False t = Inr r \<and>
       elem_at r is = foldl f (elem_at t (is[a := 0])) (map (\<lambda>j. elem_at t (is[a := j])) [1..<Suc (is ! a)]))) \<and>
    (a < n \<longrightarrow> (\<exists>r. generic_scan f zero (int a) True t = Inr r \<and>
       elem_at r is = foldl f (elem_at t (is[a := tshape t ! a - 1]))
         (map (\<lambda>j. elem_at t (is[a := tshape t ! a - 1 - j])) [1..<tshape t ! a - is ! a]))) \<and>
    (- int n \<le> axis \<and> axis < 0 \<longrightarrow> (\<exists>r. generic_scan f zero axis reverse t = Inr r \<and>
       elem_at r is = (if is ! axis_number n axis = (if reverse then tshape t ! axis_number n axis - 1 else 0)
         then elem_at t is else f zero (elem_at t is))))"
proof (intro conjI impI)
  assume "axis \<ge> int n"
  then show "generic_scan f zero axis reverse t = Inl ValueError"
    by (simp add: generic_scan_def check_axis_def check_r_def n_def)
next
  assume "axis < - int n"
  then have "\<not> axis_ok (length (tshape t)) axis" "axis < int (length (tshape t))" by (simp_all add: axis_ok_def n_def)
  moreover have "0 < tnumel t" using ravel_index_less [OF assms(1)] by (simp add: tnumel_def)
  ultimately show "generic_scan f zero axis reverse t = Inl (if reverse then ValueError else IndexError)"
    using loops_raise(2) [of t axis f zero] by (simp add: generic_scan_def check_axis_def check_r_def flip_axis_eq)
next
  assume a: "a < n"
  then have a: "a < length (tshape t)" by (simp add: n_def)
  show "\<exists>r. generic_scan f zero (int a) False t = Inr r \<and>
      elem_at r is = foldl f (elem_at t (is[a := 0])) (map (\<lambda>j. elem_at t (is[a := j])) [1..<Suc (is ! a)])"
    by (rule scan_loop_spec [OF a assms(1), of f zero]) (use a in \<open>simp add: generic_scan_def check_axis_def check_r_def prefix_fold_def\<close>)
next
  assume "a < n"
  then have a: "a < length (tshape t)" by (simp add: n_def)
  let ?k = "tshape t ! a - 1 - is ! a"
  note i = flipped_index [OF assms(1) a]
  have len: "a < length is" "is ! a < tshape t ! a" using a assms by (simp_all add: valid_index_nth)
  have valid: "valid_index (tshape (flipped a t)) (is[a := ?k])" using i(1) by simp
  obtain r where r: "scan_loop f zero (int a) (flipped a t) = Inr r" "tshape r = tshape t"
    "elem_at r (is[a := ?k]) = prefix_fold f (flipped a t) a (is[a := ?k])"
    by (rule scan_loop_spec [OF _ valid, of a f zero]) (use a in simp_all)
  have E: "Suc ?k = tshape t ! a - is ! a" using len by simp
  have "elem_at r (is[a := ?k]) = foldl f (elem_at t (is[a := tshape t ! a - 1]))
      (map (\<lambda>j. elem_at t (is[a := tshape t ! a - 1 - j])) [1..<tshape t ! a - is ! a])"
    unfolding r(3) E [symmetric] using len by (intro prefix_fold_flip) simp_all
  then show "\<exists>r. generic_scan f zero (int a) True t = Inr r \<and> elem_at r is = foldl f (elem_at t (is[a := tshape t ! a - 1]))
      (map (\<lambda>j. elem_at t (is[a := tshape t ! a - 1 - j])) [1..<tshape t ! a - is ! a])"
    using a r by (simp add: generic_scan_def check_axis_def check_r_def flip_axis_eq)
next
  assume "- int n \<le> axis \<and> axis < 0"
  then have axis: "axis < 0" "axis_ok (length (tshape t)) axis" by (simp_all add: axis_ok_def n_def)
  let ?k = "axis_number (length (tshape t)) axis"
  note i = flipped_index [OF assms(1) axis_number_less [OF axis(2)]]
  show "\<exists>r. generic_scan f zero axis reverse t = Inr r \<and>
       elem_at r is = (if is ! axis_number n axis = (if reverse then tshape t ! axis_number n axis - 1 else 0)
         then elem_at t is else f zero (elem_at t is))"
  proof (cases reverse)
    case False
    obtain r where "scan_loop f zero axis t = Inr r" "elem_at r is = (if is ! ?k = 0 then elem_at t is else f zero (elem_at t is))"
      by (rule scan_negative_spec [OF axis assms(1)])
    then show ?thesis using False axis by (simp add: generic_scan_def check_axis_def check_r_def n_def)
  next
    case True
    let ?is = "is[?k := tshape t ! ?k - 1 - is ! ?k]"
    obtain r where r: "scan_loop f zero axis (flipped ?k t) = Inr r" "tshape r = tshape t"
      "elem_at r ?is = (if ?is ! ?k = 0 then elem_at (flipped ?k t) ?is else f zero (elem_at (flipped ?k t) ?is))"
      by (rule scan_negative_spec [of axis "flipped ?k t" ?is f zero]) (use axis i(1) in simp_all)
    have "?is ! ?k = tshape t ! ?k - 1 - is ! ?k" using i(4) by simp
    moreover have "elem_at (flipped ?k t) ?is = elem_at t is" unfolding flipped_simps using i(2) \<open>?is ! ?k = _\<close> by (simp only: list_update_overwrite)
    ultimately have "elem_at r ?is = (if is ! ?k = tshape t ! ?k - 1 then elem_at t is else f zero (elem_at t is))"
      using r(3) i(3) by (simp only:)
    then have "elem_at (flipped ?k r) is = (if is ! ?k = tshape t ! ?k - 1 then elem_at t is else f zero (elem_at t is))"
      unfolding flipped_simps r(2) .
    moreover have "generic_scan f zero axis reverse t = Inr (flipped ?k r)"
      using True axis r(1,2) by (simp add: generic_scan_def check_axis_def check_r_def flip_axis_eq)
    ultimately show ?thesis using True unfolding n_def by simp
  qed
qed

lemma generic_scan_prefixes_witness:
  "(\<exists>r. generic_scan (+) 0 (int 0) True (of_list [3] [1, 2, 3 :: int]) = Inr r \<and> elem_at r [1] = 5) \<and>
   (\<exists>r. generic_scan (+) 0 (- 1) False (of_list [3] [1, 2, 3 :: int]) = Inr r \<and> elem_at r [1] = 2) \<and>
   generic_scan (+) 0 (- 5) False (of_list [3] [1, 2, 3 :: int]) = Inl IndexError"
  using generic_scan_prefixes [of "of_list [3] [1, 2, 3 :: int]" "[1]" "-1" "(+)" 0 False 0]
    generic_scan_prefixes [of "of_list [3] [1, 2, 3 :: int]" "[1]" "-5" "(+)" 0 False 0]
  by (auto simp: of_list_def upt_rec axis_number_def)

end
