(* ===== verification/Interpreter_Memory.thy ===== *)
theory Interpreter_Memory
  imports Tensor_Value "HOL-Library.Word"
begin

text \<open>
  Memory of the interpreter, \<open>python/triton/runtime/interpreter.py\<close>: pointer arithmetic, masked loads and
  stores, and block pointers (\<open>BlockPointerHandle\<close>), whose offsets, strides and bounds check are turned
  into one address and one mask bit per element.  Addresses are unsigned 64-bit words.  The memory maps
  the address of an element to its value; reading or writing where nothing is mapped is a fault.
\<close>

type_synonym 'v memory = "64 word \<Rightarrow> 'v option"

section \<open>Masked accesses\<close>

definition unmasked :: "64 word tval \<Rightarrow> bool tval \<Rightarrow> 64 word list" where
  "unmasked ptrs msk = map (flat_at ptrs) (filter (flat_at msk) [0..<tnumel ptrs])"

definition masked_load :: "'v memory \<Rightarrow> 64 word tval \<Rightarrow> bool tval \<Rightarrow> 'v tval \<Rightarrow> 'v tval option" where
  "masked_load mem ptrs msk other =
     (if list_all (\<lambda>a. mem a \<noteq> None) (unmasked ptrs msk)
      then Some \<lparr>tshape = tshape ptrs,
             elem_at = (\<lambda>is. if elem_at msk is then the (mem (elem_at ptrs is)) else elem_at other is)\<rparr>
      else None)"

definition store_at :: "64 word tval \<Rightarrow> 'v tval \<Rightarrow> bool tval \<Rightarrow> nat \<Rightarrow> 'v memory \<Rightarrow> 'v memory" where
  "store_at ptrs value msk p mem =
     (if flat_at msk p then mem(flat_at ptrs p := Some (flat_at value p)) else mem)"

definition masked_store :: "'v memory \<Rightarrow> 64 word tval \<Rightarrow> 'v tval \<Rightarrow> bool tval \<Rightarrow> 'v memory option" where
  "masked_store mem ptrs value msk =
     (if list_all (\<lambda>a. mem a \<noteq> None) (unmasked ptrs msk)
      then Some (fold (store_at ptrs value msk) [0..<tnumel ptrs] mem) else None)"

text \<open>\<open>create_load\<close> and \<open>create_store\<close>: every element.\<close>

definition create_load :: "'v memory \<Rightarrow> 64 word tval \<Rightarrow> 'v \<Rightarrow> 'v tval option" where
  "create_load mem ptrs zero = masked_load mem ptrs (full_val (tshape ptrs) True) (full_val (tshape ptrs) zero)"

definition create_store :: "'v memory \<Rightarrow> 64 word tval \<Rightarrow> 'v tval \<Rightarrow> 'v memory option" where
  "create_store mem ptrs value = masked_store mem ptrs value (full_val (tshape ptrs) True)"

definition create_addptr :: "nat \<Rightarrow> 64 word tval \<Rightarrow> int tval \<Rightarrow> 64 word tval" where
  "create_addptr element_bitwidth ptr offset =
     zip_val (\<lambda>p k. p + of_nat (max 1 (element_bitwidth div 8)) * word_of_int k) ptr offset"

section \<open>Block pointers\<close>

text \<open>The offsets are 32-bit integers.\<close>

record block_pointer =
  bp_base :: "64 word"
  bp_shape :: "int list"
  bp_strides :: "int list"
  bp_offsets :: "int list"
  bp_tensor_shape :: "nat list"

definition create_make_block_ptr :: "64 word \<Rightarrow> int list \<Rightarrow> int list \<Rightarrow> int list \<Rightarrow> nat list \<Rightarrow> block_pointer" where
  "create_make_block_ptr base shape strides offsets tensor_shape =
     \<lparr>bp_base = base, bp_shape = shape, bp_strides = strides, bp_offsets = offsets, bp_tensor_shape = tensor_shape\<rparr>"

definition create_advance :: "block_pointer \<Rightarrow> int list \<Rightarrow> block_pointer result" where
  "create_advance ptr offsets =
     (if length (bp_offsets ptr) \<noteq> length offsets then Inl ValueError
      else Inr (ptr\<lparr>bp_offsets := map2 (\<lambda>o1 o2. signed_take_bit 31 (o1 + o2)) (bp_offsets ptr) offsets\<rparr>))"

definition block_offset :: "block_pointer \<Rightarrow> nat \<Rightarrow> nat list \<Rightarrow> int" where
  "block_offset ptr axis is = bp_offsets ptr ! axis + int (is ! axis)"

definition materialize_step ::
  "nat \<Rightarrow> block_pointer \<Rightarrow> int list \<Rightarrow> nat \<Rightarrow> 64 word tval \<times> bool tval \<Rightarrow> 64 word tval \<times> bool tval" where
  "materialize_step n_bytes ptr boundary_check axis pm =
     (case pm of (ptrs, masks) \<Rightarrow>
      (ptrs\<lparr>elem_at := \<lambda>is. elem_at ptrs is + word_of_int (int n_bytes * block_offset ptr axis is * bp_strides ptr ! axis)\<rparr>,
       if int axis \<in> set boundary_check
       then masks\<lparr>elem_at := \<lambda>is. elem_at masks is \<and> block_offset ptr axis is < bp_shape ptr ! axis\<rparr> else masks))"

definition materialize_pointers :: "nat \<Rightarrow> block_pointer \<Rightarrow> int list \<Rightarrow> 64 word tval \<times> bool tval" where
  "materialize_pointers primitive_bitwidth ptr boundary_check =
     fold (materialize_step (primitive_bitwidth div 8) ptr boundary_check) [0..<length (bp_tensor_shape ptr)]
       (full_val (bp_tensor_shape ptr) (bp_base ptr), full_val (bp_tensor_shape ptr) True)"

datatype padding_mode = PAD_ZERO | PAD_NAN

definition create_tensor_pointer_load ::
  "nat \<Rightarrow> 'v \<Rightarrow> 'v \<Rightarrow> 'v memory \<Rightarrow> block_pointer \<Rightarrow> int list \<Rightarrow> padding_mode option \<Rightarrow> 'v tval option" where
  "create_tensor_pointer_load primitive_bitwidth zero nan mem ptr boundary_check padding =
     (case materialize_pointers primitive_bitwidth ptr boundary_check of (ptrs, masks) \<Rightarrow>
      masked_load mem ptrs masks
        (full_val (bp_tensor_shape ptr) (case padding of None \<Rightarrow> zero | Some PAD_ZERO \<Rightarrow> zero | Some PAD_NAN \<Rightarrow> nan)))"

definition create_tensor_pointer_store ::
  "nat \<Rightarrow> 'v memory \<Rightarrow> block_pointer \<Rightarrow> 'v tval \<Rightarrow> int list \<Rightarrow> 'v memory option" where
  "create_tensor_pointer_store primitive_bitwidth mem ptr value boundary_check =
     (case materialize_pointers primitive_bitwidth ptr boundary_check of (ptrs, masks) \<Rightarrow>
      masked_store mem ptrs value masks)"

section \<open>Addresses and masks\<close>

lemma materialize_fold:
  "fold (materialize_step n_bytes ptr bc) dims (ptrs, masks) =
     (ptrs\<lparr>elem_at := \<lambda>is. elem_at ptrs is +
         word_of_int (int n_bytes * sum_list (map (\<lambda>d. block_offset ptr d is * bp_strides ptr ! d) dims))\<rparr>,
      masks\<lparr>elem_at := \<lambda>is. elem_at masks is \<and>
         list_all (\<lambda>d. int d \<in> set bc \<longrightarrow> block_offset ptr d is < bp_shape ptr ! d) dims\<rparr>)"
proof (induction dims arbitrary: ptrs masks)
  case (Cons d dims)
  have split: "word_of_int (int n_bytes * (x * y + z)) = word_of_int (int n_bytes * x * y) + (word_of_int (int n_bytes * z) :: 64 word)" for x y z
    by (simp only: distrib_left of_int_add mult.assoc)
  have step: "materialize_step n_bytes ptr bc d (ptrs, masks) =
      (ptrs\<lparr>elem_at := \<lambda>is. elem_at ptrs is + word_of_int (int n_bytes * block_offset ptr d is * bp_strides ptr ! d)\<rparr>,
       if int d \<in> set bc then masks\<lparr>elem_at := \<lambda>is. elem_at masks is \<and> block_offset ptr d is < bp_shape ptr ! d\<rparr> else masks)"
    by (simp add: materialize_step_def)
  show ?case
    unfolding fold_simps comp_apply step
    by (cases "int d \<in> set bc") (simp_all add: Cons.IH split add.assoc conj_assoc del: of_int_mult of_int_add of_int_of_nat_eq)
qed simp

text \<open>The address of the element of the parent tensor with coordinates \<open>cs\<close>.\<close>

definition element_address :: "nat \<Rightarrow> block_pointer \<Rightarrow> int list \<Rightarrow> 64 word" where
  "element_address n_bytes ptr cs =
     bp_base ptr + word_of_int (int n_bytes * sum_list (map (\<lambda>d. cs ! d * bp_strides ptr ! d) [0..<length cs]))"

definition block_coords :: "block_pointer \<Rightarrow> nat list \<Rightarrow> int list" where
  "block_coords ptr is = map (\<lambda>d. block_offset ptr d is) [0..<length (bp_tensor_shape ptr)]"

definition in_tensor :: "block_pointer \<Rightarrow> int list \<Rightarrow> bool" where
  "in_tensor ptr cs \<longleftrightarrow> list_all2 (\<lambda>c n. 0 \<le> c \<and> c < n) cs (bp_shape ptr)"


lemma materialize_pointers_eq:
  "materialize_pointers bits ptr bc =
     (\<lparr>tshape = bp_tensor_shape ptr, elem_at = \<lambda>is. element_address (bits div 8) ptr (block_coords ptr is)\<rparr>,
      \<lparr>tshape = bp_tensor_shape ptr, elem_at = \<lambda>is.
         list_all (\<lambda>d. int d \<in> set bc \<longrightarrow> block_offset ptr d is < bp_shape ptr ! d) [0..<length (bp_tensor_shape ptr)]\<rparr>)"
proof -
  have "map (\<lambda>d. block_coords ptr is ! d * bp_strides ptr ! d) [0..<length (block_coords ptr is)] =
      map (\<lambda>d. block_offset ptr d is * bp_strides ptr ! d) [0..<length (bp_tensor_shape ptr)]" for "is"
    by (simp add: block_coords_def)
  then show ?thesis
    unfolding materialize_pointers_def materialize_fold full_val_def element_address_def by simp
qed

text \<open>Every dimension is checked and no coordinate is negative.\<close>

definition checked_block :: "block_pointer \<Rightarrow> int list \<Rightarrow> bool" where
  "checked_block ptr bc \<longleftrightarrow>
     length (bp_shape ptr) = length (bp_tensor_shape ptr) \<and>
     list_all (\<lambda>d. int d \<in> set bc \<and> 0 \<le> bp_offsets ptr ! d) [0..<length (bp_tensor_shape ptr)]"

lemma mask_in_tensor:
  "checked_block ptr bc \<Longrightarrow>
     elem_at (snd (materialize_pointers bits ptr bc)) is \<longleftrightarrow> in_tensor ptr (block_coords ptr is)"
  by (auto simp: materialize_pointers_eq checked_block_def in_tensor_def block_coords_def list_all2_conv_all_nth list_all_iff
      block_offset_def)

lemma unmasked_in_tensor:
  assumes "checked_block ptr bc" "materialize_pointers bits ptr bc = (ptrs, masks)" "a \<in> set (unmasked ptrs masks)"
  obtains cs where "in_tensor ptr cs" "a = element_address (bits div 8) ptr cs"
proof -
  obtain p where p: "flat_at masks p" "a = flat_at ptrs p" using assms(3) by (auto simp: unmasked_def)
  have shape: "tshape masks = tshape ptrs" using assms(2) by (auto simp: materialize_pointers_eq)
  let ?is = "unravel_index (tshape ptrs) p"
  have "in_tensor ptr (block_coords ptr ?is)"
    using mask_in_tensor [OF assms(1), of bits ?is] p(1) assms(2) shape by (simp add: flat_at_def)
  moreover have "a = element_address (bits div 8) ptr (block_coords ptr ?is)"
    using p(2) assms(2) by (auto simp: flat_at_def materialize_pointers_eq)
  ultimately show thesis using that by blast
qed

lemma store_frame:
  "a \<notin> set (map (flat_at ptrs) (filter (flat_at masks) ps)) \<Longrightarrow> fold (store_at ptrs value masks) ps mem a = mem a"
  by (induction ps arbitrary: mem) (auto simp: store_at_def split: if_splits)

section \<open>Properties\<close>

text \<open>C37: through a block pointer whose offsets are not negative, with the bounds check on every dimension, the
  interpreter reads and writes elements of the parent tensor only: if every element is mapped, a load succeeds
  and gives each element of the block that lies inside the tensor its value and the others the padding, and a
  store succeeds and changes no address but those of elements of the tensor.\<close>

theorem block_pointer_stays_inside:
  assumes "checked_block ptr bc" "\<forall>cs. in_tensor ptr cs \<longrightarrow> mem (element_address (bits div 8) ptr cs) \<noteq> None"
  shows "(\<exists>r. create_tensor_pointer_load bits zero nan mem ptr bc padding = Some r \<and>
      (\<forall>is. elem_at r is =
        (if in_tensor ptr (block_coords ptr is) then the (mem (element_address (bits div 8) ptr (block_coords ptr is)))
         else if padding = Some PAD_NAN then nan else zero))) \<and>
    (\<exists>mem'. create_tensor_pointer_store bits mem ptr vals bc = Some mem' \<and>
      (\<forall>a. mem' a \<noteq> mem a \<longrightarrow> (\<exists>cs. in_tensor ptr cs \<and> a = element_address (bits div 8) ptr cs)))"
proof -
  obtain ptrs masks where pm: "materialize_pointers bits ptr bc = (ptrs, masks)" by fastforce
  note inside = unmasked_in_tensor [OF assms(1) pm]
  have mapped: "list_all (\<lambda>a. mem a \<noteq> None) (unmasked ptrs masks)"
    unfolding list_all_iff using inside assms(2) by metis
  have elems: "elem_at masks is = in_tensor ptr (block_coords ptr is)"
    "elem_at ptrs is = element_address (bits div 8) ptr (block_coords ptr is)" for "is"
    using mask_in_tensor [OF assms(1), of bits "is"] pm by (auto simp: materialize_pointers_eq)
  have "\<exists>r. create_tensor_pointer_load bits zero nan mem ptr bc padding = Some r \<and>
      (\<forall>is. elem_at r is =
        (if in_tensor ptr (block_coords ptr is) then the (mem (element_address (bits div 8) ptr (block_coords ptr is)))
         else if padding = Some PAD_NAN then nan else zero))"
    using mapped by (simp add: create_tensor_pointer_load_def pm masked_load_def elems full_val_def
        split: option.split padding_mode.split)
  moreover
  let ?mem' = "fold (store_at ptrs vals masks) [0..<tnumel ptrs] mem"
  have "create_tensor_pointer_store bits mem ptr vals bc = Some ?mem'"
    using mapped by (simp add: create_tensor_pointer_store_def pm masked_store_def)
  moreover have "\<exists>cs. in_tensor ptr cs \<and> a = element_address (bits div 8) ptr cs" if "?mem' a \<noteq> mem a" for a
  proof -
    have "a \<in> set (unmasked ptrs masks)"
      unfolding unmasked_def using that store_frame by metis
    then show ?thesis using inside by metis
  qed
  ultimately show ?thesis by blast
qed


text \<open>A row of four 32-bit elements at address 4096, read by blocks of eight from the second element on.\<close>

definition example_block :: block_pointer where
  "example_block = create_make_block_ptr 4096 [4] [1] [1] [8]"

definition example_memory :: "int memory" where
  "example_memory a = (if a \<in> {4096, 4100, 4104, 4108} then Some (uint a div 4) else None)"

lemma example_tensor: "in_tensor example_block cs \<Longrightarrow> \<exists>c. cs = [c] \<and> c \<in> {0, 1, 2, 3}"
  by (auto simp: in_tensor_def example_block_def create_make_block_ptr_def list_all2_Cons2)

lemma block_pointer_stays_inside_witness:
  "\<exists>r. create_tensor_pointer_load 32 0 (-1) example_memory example_block [0] (Some PAD_NAN) = Some r \<and>
     elem_at r [2] = 1027 \<and> elem_at r [3] = -1"
proof -
  have checked: "checked_block example_block [0]"
    by (simp add: checked_block_def example_block_def create_make_block_ptr_def)
  have "\<forall>cs. in_tensor example_block cs \<longrightarrow> example_memory (element_address (32 div 8) example_block cs) \<noteq> None"
    using example_tensor
    by (fastforce simp: element_address_def example_block_def create_make_block_ptr_def example_memory_def)
  from block_pointer_stays_inside [OF checked this, of 0 "-1" "Some PAD_NAN"]
  obtain r where r: "create_tensor_pointer_load 32 0 (-1) example_memory example_block [0] (Some PAD_NAN) = Some r"
    "\<And>is. elem_at r is =
      (if in_tensor example_block (block_coords example_block is)
       then the (example_memory (element_address (32 div 8) example_block (block_coords example_block is))) else -1)"
    by (metis (full_types))
  have "elem_at r [2] = 1027" "elem_at r [3] = -1"
    unfolding r(2)
    by (simp_all add: in_tensor_def block_coords_def block_offset_def example_block_def create_make_block_ptr_def
        element_address_def example_memory_def)
  then show ?thesis using r(1) by blast
qed

text \<open>The mask has no lower bound: an element before the first of the tensor is not masked.\<close>

lemma negative_coordinate_unmasked:
  assumes "bp_tensor_shape ptr = [n]" "0 < n" "bp_offsets ptr = [off]" "bp_shape ptr = [m]" "off < 0" "0 \<le> m"
  shows "elem_at (snd (materialize_pointers bits ptr [0])) [0] \<and> \<not> in_tensor ptr (block_coords ptr [0])"
  using assms by (simp add: materialize_pointers_eq in_tensor_def block_coords_def block_offset_def)

text \<open>Advancing twice is advancing by the sum, also where the 32-bit offsets wrap around.\<close>

lemma advance_advance:
  assumes "length xs = length (bp_offsets ptr)" "length ys = length (bp_offsets ptr)"
  shows "bind_r (create_advance ptr xs) (\<lambda>p. create_advance p ys) = create_advance ptr (map2 (+) xs ys)"
proof -
  have wrap: "signed_take_bit 31 (signed_take_bit 31 a + b) = signed_take_bit 31 (a + b)" for a b :: int
    by (simp only: signed_take_bit_eq_iff_take_bit_eq) (metis take_bit_add take_bit_signed_take_bit order_refl)
  have "map2 (\<lambda>o1 o2. signed_take_bit 31 (o1 + o2)) (map2 (\<lambda>o1 o2. signed_take_bit 31 (o1 + o2)) (bp_offsets ptr) xs) ys =
      map2 (\<lambda>o1 o2. signed_take_bit 31 (o1 + o2)) (bp_offsets ptr) (map2 (+) xs ys)"
    using assms by (intro nth_equalityI) (simp_all add: wrap add.assoc)
  then show ?thesis using assms by (simp add: create_advance_def)
qed

end
