(* ===== verification/Interpreter_Float.thy ===== *)
theory Interpreter_Float
  imports Dtype
begin

text \<open>
  The interpreter's conversion between floating-point formats, \<open>_convert_float\<close> of
  \<open>python/triton/runtime/interpreter.py\<close>, on one bit pattern: the exponent is re-biased and clamped, the
  significand shifted and optionally rounded, subnormal numbers are normalised first, and a result below
  the range of the output is shifted into its subnormals.
\<close>

section \<open>Formats\<close>

record fp_format =
  fp_bits :: nat
  fp_mant :: nat
  fp_bias :: int

definition format_of_dtype :: "ty \<Rightarrow> fp_format result" where
  "format_of_dtype t =
     bind_r (primitive_bitwidth t) (\<lambda>w. bind_r (fp_mantissa_width t) (\<lambda>m. bind_r (exponent_bias t) (\<lambda>b.
     Inr \<lparr>fp_bits = nat w, fp_mant = nat m, fp_bias = b\<rparr>)))"

definition exponent_width :: "fp_format \<Rightarrow> nat" where
  "exponent_width f = fp_bits f - fp_mant f - 1"

definition sign_field :: "fp_format \<Rightarrow> int \<Rightarrow> int" where
  "sign_field f x = drop_bit (fp_bits f - 1) x AND 1"

definition exponent_field :: "fp_format \<Rightarrow> int \<Rightarrow> int" where
  "exponent_field f x = drop_bit (fp_mant f) x AND (2 ^ exponent_width f - 1)"

definition significand_field :: "fp_format \<Rightarrow> int \<Rightarrow> int" where
  "significand_field f x = x AND (2 ^ fp_mant f - 1)"

section \<open>Conversion\<close>

text \<open>The distance of the highest set bit of a significand from the place of the implicit one.\<close>

definition bit_position :: "nat \<Rightarrow> int \<Rightarrow> nat" where
  "bit_position m significand = fold (\<lambda>i p. if drop_bit i significand AND 1 = 1 then m - i else p) [0..<m] 0"

text \<open>Exponent and significand, with subnormal numbers normalised.\<close>

definition normalise :: "fp_format \<Rightarrow> fp_format \<Rightarrow> int \<Rightarrow> int \<times> int" where
  "normalise fi fo x =
     (let significand = significand_field fi x;
          exponent = exponent_field fi x;
          p = bit_position (fp_mant fi) significand
      in if exponent = 0
         then (if significand = 0 then fp_bias fi - fp_bias fo else 1 - int p,
               push_bit p significand AND (2 ^ fp_mant fi - 1))
         else (exponent, significand))"

text \<open>In numpy an array of negative counts shifts everything out to the left, as does a right shift by more than the
  width.\<close>

definition shift_left_one :: "int \<Rightarrow> int" where
  "shift_left_one k = (if k < 0 then 0 else 2 ^ nat k)"

text \<open>A left shift by a Python integer.  What numpy makes of a negative one depends on its version (a zero, or an
  exception) and is the parameter \<open>neg\<close>, of the value and the count.\<close>

definition shift_left :: "(int \<Rightarrow> int \<Rightarrow> int result) \<Rightarrow> int \<Rightarrow> int \<Rightarrow> int result" where
  "shift_left neg x k = (if k < 0 then neg x k else Inr (push_bit (nat k) x))"

text \<open>No format has more mantissa bits than a wider one, so the counts of the first branch are not negative.\<close>

definition convert_float :: "(int \<Rightarrow> int \<Rightarrow> int result) \<Rightarrow> fp_format \<Rightarrow> fp_format \<Rightarrow> bool \<Rightarrow> int \<Rightarrow> int result" where
  "convert_float neg fi fo rtne x =
     (let (exponent, significand) = normalise fi fo x;
          exponent_output = max 0 (min (exponent - fp_bias fi + fp_bias fo) (2 ^ exponent_width fo - 1))
      in bind_r
           (if fp_bits fi > fp_bits fo then
              (let s = drop_bit (fp_mant fi - fp_mant fo) significand AND (2 ^ fp_mant fo - 1);
                   cut_off = significand AND 2 ^ (fp_mant fi - fp_mant fo - 1)
               in Inr (take_bit (fp_bits fo) (if rtne then s + of_bool (cut_off > 0) else s)))
            else bind_r (shift_left neg significand (int (fp_mant fo) - int (fp_mant fi))) (\<lambda>s.
              Inr (s AND (2 ^ fp_mant fo - 1))))
           (\<lambda>significand_output.
         let shift = (1 - fp_bias fo) - (exponent_field fi x - fp_bias fi);
             significand_output =
               (if exponent_output = 0 \<and> exponent_field fi x \<noteq> 0
                then take_bit (fp_bits fo)
                  (drop_bit (nat shift) significand_output OR shift_left_one (int (fp_mant fo) - shift))
                else significand_output)
         in Inr (take_bit (fp_bits fo)
              (push_bit (fp_bits fo - 1) (sign_field fi x) OR push_bit (fp_mant fo) exponent_output OR significand_output))))"

section \<open>Values\<close>

definition float_value :: "fp_format \<Rightarrow> int \<Rightarrow> rat" where
  "float_value f x =
     (- 1) ^ nat (sign_field f x) *
     (if exponent_field f x = 0
      then of_int (significand_field f x) / 2 ^ fp_mant f * 2 powi (1 - fp_bias f)
      else (1 + of_int (significand_field f x) / 2 ^ fp_mant f) * 2 powi (exponent_field f x - fp_bias f))"

definition fp32_format :: fp_format where "fp32_format = \<lparr>fp_bits = 32, fp_mant = 23, fp_bias = 127\<rparr>"
definition fp16_format :: fp_format where "fp16_format = \<lparr>fp_bits = 16, fp_mant = 10, fp_bias = 15\<rparr>"
definition bf16_format :: fp_format where "bf16_format = \<lparr>fp_bits = 16, fp_mant = 7, fp_bias = 127\<rparr>"
definition fp8e5_format :: fp_format where "fp8e5_format = \<lparr>fp_bits = 8, fp_mant = 2, fp_bias = 15\<rparr>"
definition fp8e4nv_format :: fp_format where "fp8e4nv_format = \<lparr>fp_bits = 8, fp_mant = 3, fp_bias = 7\<rparr>"

lemma formats_of_dtypes:
  "format_of_dtype (Dt Fp32) = Inr fp32_format" "format_of_dtype (Dt Fp16) = Inr fp16_format"
  "format_of_dtype (Dt Bf16) = Inr bf16_format" "format_of_dtype (Dt Fp8e5) = Inr fp8e5_format"
  "format_of_dtype (Dt Fp8e4nv) = Inr fp8e4nv_format"
  by (simp_all add: format_of_dtype_def fp32_format_def fp16_format_def bf16_format_def fp8e5_format_def fp8e4nv_format_def)

end
