(* ===== verification/Interpreter_Float_Properties.thy ===== *)
theory Interpreter_Float_Properties
  imports Interpreter_Float
begin

text \<open>
  The interpreter's conversion between floating-point formats keeps values: the fields of a pattern, the
  normalisation of subnormal significands, and exactness or truncation of the result.  A pattern is read as
  a finite number throughout, as the code does: in a format with infinities and NaNs these count as the
  numbers their fields spell.
\<close>

section \<open>Fields\<close>

definition wf_format :: "fp_format \<Rightarrow> bool" where
  "wf_format f \<longleftrightarrow> 0 < exponent_width f \<and> fp_bits f = 1 + exponent_width f + fp_mant f"

definition pattern :: "fp_format \<Rightarrow> int \<Rightarrow> int \<Rightarrow> int \<Rightarrow> int" where
  "pattern f s e m = s * 2 ^ (fp_bits f - 1) + (e * 2 ^ fp_mant f + m)"

lemma field_arith:
  "sign_field f x = x div 2 ^ (fp_bits f - 1) mod 2"
  "exponent_field f x = x div 2 ^ fp_mant f mod 2 ^ exponent_width f"
  "significand_field f x = x mod 2 ^ fp_mant f"
  by (simp_all add: sign_field_def exponent_field_def significand_field_def and_one_eq drop_bit_eq_div
    flip: mask_eq_exp_minus_1 take_bit_eq_mask take_bit_eq_mod)

lemma wf_bits:
  assumes "wf_format f"
  shows "fp_bits f - Suc 0 = exponent_width f + fp_mant f"
    "(2::int) ^ (fp_bits f - Suc 0) = 2 ^ exponent_width f * 2 ^ fp_mant f"
    "(2::int) ^ fp_bits f = 2 * 2 ^ (fp_bits f - Suc 0)"
  using assms by (simp_all add: wf_format_def power_add)

lemma magnitude_bounds:
  fixes e m :: int
  assumes "wf_format f" "0 \<le> e" "e < 2 ^ exponent_width f" "0 \<le> m" "m < 2 ^ fp_mant f"
  shows "0 \<le> e * 2 ^ fp_mant f + m" "e * 2 ^ fp_mant f + m < 2 ^ (fp_bits f - Suc 0)"
proof -
  have "e * 2 ^ fp_mant f + m < (e + 1) * 2 ^ fp_mant f" using assms(5) by (simp add: algebra_simps)
  also have "\<dots> \<le> 2 ^ exponent_width f * 2 ^ fp_mant f" using assms(3) by (intro mult_right_mono) auto
  finally show "e * 2 ^ fp_mant f + m < 2 ^ (fp_bits f - Suc 0)" using wf_bits(2)[OF assms(1)] by simp
qed (use assms in simp)

lemma fields_of_pattern:
  assumes "wf_format f" "s \<in> {0, 1}" "0 \<le> e" "e < 2 ^ exponent_width f" "0 \<le> m" "m < 2 ^ fp_mant f"
  shows "sign_field f (pattern f s e m) = s" "exponent_field f (pattern f s e m) = e"
    "significand_field f (pattern f s e m) = m"
proof -
  have "pattern f s e m div 2 ^ (fp_bits f - 1) = s"
    using magnitude_bounds[OF assms(1,3-6)] by (simp add: pattern_def div_pos_pos_trivial)
  then show "sign_field f (pattern f s e m) = s" using assms(2) by (auto simp: field_arith)
  have split: "pattern f s e m = m + (s * 2 ^ exponent_width f + e) * 2 ^ fp_mant f"
    using wf_bits(2)[OF assms(1)] by (simp add: pattern_def algebra_simps)
  show "significand_field f (pattern f s e m) = m"
    using assms(5,6) by (simp add: field_arith split)
  have "pattern f s e m div 2 ^ fp_mant f = e + s * 2 ^ exponent_width f"
    unfolding split using assms(5,6) by (subst div_mult_self1) (simp_all add: div_pos_pos_trivial)
  then show "exponent_field f (pattern f s e m) = e" using assms(3,4) by (simp add: field_arith)
qed

lemma or_pattern:
  assumes "wf_format f" "s \<in> {0, 1}" "0 \<le> e" "e < 2 ^ exponent_width f" "0 \<le> m" "m < 2 ^ fp_mant f"
  shows "take_bit (fp_bits f) (push_bit (fp_bits f - 1) s OR push_bit (fp_mant f) e OR m) = pattern f s e m"
proof -
  note p = magnitude_bounds[OF assms(1,3-6)]
  have m: "take_bit (fp_mant f) m = m" using assms(5,6) by (simp add: take_bit_int_eq_self)
  have em: "push_bit (fp_mant f) e OR m = e * 2 ^ fp_mant f + m"
    using concat_bit_eq[of "fp_mant f" m e] m by (simp add: concat_bit_def or.commute push_bit_eq_mult add.commute)
  have "take_bit (fp_bits f - Suc 0) (e * 2 ^ fp_mant f + m) = e * 2 ^ fp_mant f + m"
    using p by (simp add: take_bit_int_eq_self)
  then have "push_bit (fp_bits f - 1) s OR (e * 2 ^ fp_mant f + m) = pattern f s e m"
    using concat_bit_eq[of "fp_bits f - Suc 0" "e * 2 ^ fp_mant f + m" s]
    by (simp add: concat_bit_def or.commute push_bit_eq_mult pattern_def add.commute)
  moreover have "0 \<le> pattern f s e m" "pattern f s e m < 2 ^ fp_bits f"
    using p assms(2) wf_bits(3)[OF assms(1)] by (auto simp: pattern_def)
  ultimately show ?thesis by (simp add: em or.assoc take_bit_int_eq_self)
qed

lemma pattern_of_fields:
  assumes "wf_format f" "0 \<le> x" "x < 2 ^ fp_bits f"
  shows "sign_field f x \<in> {0, 1}" "0 \<le> exponent_field f x" "exponent_field f x < 2 ^ exponent_width f"
    "0 \<le> significand_field f x" "significand_field f x < 2 ^ fp_mant f"
  by (auto simp: field_arith)

section \<open>Normalised significands\<close>

lemma bit_position_loop:
  fixes s :: int
  assumes "k \<le> m" "0 \<le> s"
  shows "let p = fold (\<lambda>i p. if drop_bit i s AND 1 = 1 then m - i else p) [0..<k] 0 in
    if take_bit k s = 0 then p = 0
    else 0 < p \<and> 2 ^ m \<le> take_bit k s * 2 ^ p \<and> take_bit k s * 2 ^ p < 2 ^ Suc m"
  using assms(1)
proof (induction k)
  case (Suc k)
  have b: "(drop_bit k s AND 1 = 1) = bit s k" by (simp add: and_one_eq bit_iff_odd_drop_bit odd_iff_mod_2_eq_one)
  show ?case
  proof (cases "bit s k")
    case True
    let ?t = "take_bit (Suc k) s"
    have t: "?t = 2 ^ k + take_bit k s" using True by (simp add: take_bit_Suc_from_most)
    have m: "(2::int) ^ k * 2 ^ (m - k) = 2 ^ m" using Suc.prems by (simp flip: power_add)
    have "2 ^ k \<le> ?t" "?t < 2 * 2 ^ k" using t take_bit_int_less_exp[of k s] by simp_all
    then have "2 ^ k * 2 ^ (m - k) \<le> ?t * 2 ^ (m - k)" "?t * 2 ^ (m - k) < 2 * 2 ^ k * 2 ^ (m - k)" "?t \<noteq> 0"
      by (simp_all add: order.strict_trans2[of 0 "2 ^ k"])
    then show ?thesis using True b m Suc.prems by (simp add: Let_def mult.assoc)
  next
    case False
    then have "take_bit (Suc k) s = take_bit k s" by (simp add: take_bit_Suc_from_most)
    then show ?thesis using False b Suc by (auto simp: Let_def split: if_splits)
  qed
qed simp

lemma bit_position_found:
  assumes "0 < s" "s < 2 ^ m"
  shows "0 < bit_position m s" "2 ^ m \<le> s * 2 ^ bit_position m s" "s * 2 ^ bit_position m s < 2 ^ Suc m"
  using bit_position_loop[of m m s] assms by (simp_all add: bit_position_def Let_def take_bit_int_eq_self)

section \<open>Exact conversions\<close>

definition output_exponent :: "fp_format \<Rightarrow> fp_format \<Rightarrow> int \<Rightarrow> int" where
  "output_exponent fi fo x = fst (normalise fi fo x) - fp_bias fi + fp_bias fo"

definition is_zero :: "fp_format \<Rightarrow> int \<Rightarrow> bool" where
  "is_zero f x \<longleftrightarrow> exponent_field f x = 0 \<and> significand_field f x = 0"

lemma normalise_significand:
  assumes "wf_format fi" "0 \<le> x" "x < 2 ^ fp_bits fi"
  shows "0 \<le> snd (normalise fi fo x)" "snd (normalise fi fo x) < 2 ^ fp_mant fi"
  using pattern_of_fields[OF assms]
  by (auto simp: normalise_def Let_def simp flip: mask_eq_exp_minus_1 take_bit_eq_mask)

lemma normalise_value:
  assumes "wf_format fi" "0 \<le> x" "x < 2 ^ fp_bits fi" "\<not> is_zero fi x"
  shows "(1 + of_int (snd (normalise fi fo x)) / 2 ^ fp_mant fi) * 2 powi (fst (normalise fi fo x) - fp_bias fi) =
    (if exponent_field fi x = 0 then of_int (significand_field fi x) / 2 ^ fp_mant fi * 2 powi (1 - fp_bias fi)
     else (1 + of_int (significand_field fi x) / 2 ^ fp_mant fi) * 2 powi (exponent_field fi x - fp_bias fi) :: rat)"
proof (cases "exponent_field fi x = 0")
  case True
  let ?S = "significand_field fi x" and ?m = "fp_mant fi"
  let ?p = "bit_position ?m ?S"
  have S: "0 < ?S" "?S < 2 ^ ?m" using True assms(4) pattern_of_fields[OF assms(1-3)] by (auto simp: is_zero_def)
  note p = bit_position_found[OF S]
  have "push_bit ?p ?S AND (2 ^ ?m - 1) = ?S * 2 ^ ?p mod 2 ^ ?m"
    by (simp add: push_bit_eq_mult flip: mask_eq_exp_minus_1 take_bit_eq_mask take_bit_eq_mod)
  also have "\<dots> = (?S * 2 ^ ?p - 2 ^ ?m) mod 2 ^ ?m" by simp
  also have "\<dots> = ?S * 2 ^ ?p - 2 ^ ?m" using p by (intro mod_pos_pos_trivial) auto
  finally have n: "normalise fi fo x = (1 - int ?p, ?S * 2 ^ ?p - 2 ^ ?m)"
    using True S by (simp add: normalise_def Let_def)
  have "(1 + of_int (?S * 2 ^ ?p - 2 ^ ?m) / 2 ^ ?m) * 2 powi (1 - int ?p - fp_bias fi) =
      of_int ?S / 2 ^ ?m * (2 ^ ?p * 2 powi (1 - int ?p - fp_bias fi) :: rat)" by (simp add: field_simps)
  also have "(2 ^ ?p * 2 powi (1 - int ?p - fp_bias fi) :: rat) = 2 powi (1 - fp_bias fi)"
    by (simp flip: power_int_of_nat power_int_add)
  finally show ?thesis using True n by simp
qed (simp add: normalise_def Let_def)

lemma div_power_bounds:
  fixes s :: int
  shows "s div 2 ^ d * 2 ^ d \<le> s" "s < (s div 2 ^ d + 1) * 2 ^ d"
proof -
  have "s div 2 ^ d * 2 ^ d + s mod 2 ^ d = s" by (rule div_mult_mod_eq)
  moreover have "0 \<le> s mod 2 ^ d" "s mod 2 ^ d < 2 ^ d" by simp_all
  ultimately show "s div 2 ^ d * 2 ^ d \<le> s" "s < (s div 2 ^ d + 1) * 2 ^ d"
    by (simp_all only: distrib_right mult_1)
qed

text \<open>Outside the subnormals of the output the result is put together from the sign, the clamped exponent and the
  shifted significand.\<close>

definition output_significand :: "fp_format \<Rightarrow> fp_format \<Rightarrow> int \<Rightarrow> int" where
  "output_significand fi fo x =
     (if fp_bits fi > fp_bits fo then snd (normalise fi fo x) div 2 ^ (fp_mant fi - fp_mant fo)
      else snd (normalise fi fo x) * 2 ^ (fp_mant fo - fp_mant fi))"

definition convertible :: "fp_format \<Rightarrow> fp_format \<Rightarrow> bool" where
  "convertible fi fo \<longleftrightarrow> wf_format fi \<and> wf_format fo \<and>
     (if fp_bits fi > fp_bits fo then fp_mant fo \<le> fp_mant fi else fp_mant fi \<le> fp_mant fo)"

lemma output_significand_range:
  assumes "convertible fi fo" "0 \<le> x" "x < 2 ^ fp_bits fi"
  shows "0 \<le> output_significand fi fo x" "output_significand fi fo x < 2 ^ fp_mant fo"
proof -
  have wf: "wf_format fi" using assms(1) by (simp add: convertible_def)
  note S = normalise_significand[OF wf assms(2,3), of fo]
  show "0 \<le> output_significand fi fo x" using S by (simp add: output_significand_def pos_imp_zdiv_nonneg_iff)
  let ?s = "snd (normalise fi fo x)" and ?d = "fp_mant fi - fp_mant fo"
  show "output_significand fi fo x < 2 ^ fp_mant fo"
  proof (cases "fp_bits fi > fp_bits fo")
    case True
    then have "(2::int) ^ fp_mant fi = 2 ^ fp_mant fo * 2 ^ (fp_mant fi - fp_mant fo)"
      using assms(1) by (simp add: convertible_def flip: power_add)
    then have "?s div 2 ^ ?d * 2 ^ ?d < 2 ^ fp_mant fo * 2 ^ ?d"
      using div_power_bounds(1)[of ?s ?d] S(2) by linarith
    then show ?thesis using True by (simp add: output_significand_def)
  next
    case False
    then have "(2::int) ^ fp_mant fo = 2 ^ fp_mant fi * 2 ^ (fp_mant fo - fp_mant fi)"
      using assms(1) by (simp add: convertible_def flip: power_add)
    then show ?thesis using False S by (simp add: output_significand_def)
  qed
qed

lemma convert_float_pattern:
  assumes "convertible fi fo" "0 \<le> x" "x < 2 ^ fp_bits fi" "fp_bits fi > fp_bits fo \<longrightarrow> \<not> rtne"
    and "is_zero fi x \<or> 0 < output_exponent fi fo x"
  shows "convert_float neg fi fo rtne x =
    Inr (pattern fo (sign_field fi x) (max 0 (min (output_exponent fi fo x) (2 ^ exponent_width fo - 1))) (output_significand fi fo x))"
proof -
  let ?X = "max 0 (min (output_exponent fi fo x) (2 ^ exponent_width fo - 1))" and ?S = "output_significand fi fo x"
  let ?s = "snd (normalise fi fo x)"
  have wf: "wf_format fi" "wf_format fo" using assms(1) by (simp_all add: convertible_def)
  note f = pattern_of_fields[OF wf(1) assms(2,3)] and S = output_significand_range[OF assms(1-3)]
  have mask: "?S AND (2 ^ fp_mant fo - 1) = ?S"
    using S by (simp add: take_bit_int_eq_self flip: mask_eq_exp_minus_1 take_bit_eq_mask)
  have "fp_mant fo < fp_bits fo" using wf(2) by (simp add: wf_format_def)
  then have "(2::int) ^ fp_mant fo \<le> 2 ^ fp_bits fo" by (intro power_increasing) auto
  then have bits: "take_bit (fp_bits fo) ?S = ?S" using S by (intro take_bit_int_eq_self) linarith+
  have X: "0 \<le> ?X" "?X < 2 ^ exponent_width fo" by auto
  have sub: "\<not> (?X = 0 \<and> exponent_field fi x \<noteq> 0)"
  proof (cases "is_zero fi x")
    case False
    have "(1::int) < 2 ^ exponent_width fo" using wf(2) by (intro one_less_power) (auto simp: wf_format_def)
    then have "0 < ?X" using assms(5) False by linarith
    then show ?thesis by linarith
  qed (simp add: is_zero_def)
  have count: "shift_left neg ?s (int (fp_mant fo) - int (fp_mant fi)) = Inr (push_bit (fp_mant fo - fp_mant fi) ?s)"
    if "\<not> fp_bits fi > fp_bits fo"
    using assms(1) that by (simp add: convertible_def shift_left_def nat_diff_distrib')
  have "convert_float neg fi fo rtne x = Inr (take_bit (fp_bits fo)
      (push_bit (fp_bits fo - 1) (sign_field fi x) OR push_bit (fp_mant fo) ?X OR ?S))"
    using assms(4) sub mask bits count
    by (cases "exponent_field fi x = 0"; cases "fp_bits fi > fp_bits fo")
      (auto simp: convert_float_def output_exponent_def output_significand_def split_beta Let_def push_bit_eq_mult drop_bit_eq_div
        simp del: take_bit_or take_bit_and)
  then show ?thesis using or_pattern[OF wf(2) f(1) X S] by simp
qed

definition in_range :: "fp_format \<Rightarrow> fp_format \<Rightarrow> int \<Rightarrow> bool" where
  "in_range fi fo x \<longleftrightarrow> 0 \<le> x \<and> x < 2 ^ fp_bits fi \<and>
     (is_zero fi x \<or> 0 < output_exponent fi fo x \<and> output_exponent fi fo x < 2 ^ exponent_width fo)"

text \<open>The values as the magnitudes of the two patterns.\<close>

lemma converted_value:
  assumes "convertible fi fo" "in_range fi fo x" "fp_bits fi > fp_bits fo \<longrightarrow> \<not> rtne" "\<not> is_zero fi x"
  shows "float_value fo (projr (convert_float neg fi fo rtne x)) = (- 1) ^ nat (sign_field fi x) *
      ((1 + of_int (output_significand fi fo x) / 2 ^ fp_mant fo) * 2 powi (fst (normalise fi fo x) - fp_bias fi))"
    and "float_value fi x = (- 1) ^ nat (sign_field fi x) *
      ((1 + of_int (snd (normalise fi fo x)) / 2 ^ fp_mant fi) * 2 powi (fst (normalise fi fo x) - fp_bias fi))"
proof -
  let ?X = "max 0 (min (output_exponent fi fo x) (2 ^ exponent_width fo - 1))"
  have x: "0 \<le> x" "x < 2 ^ fp_bits fi" and wf: "wf_format fi" "wf_format fo"
    using assms(1,2) by (simp_all add: convertible_def in_range_def)
  have X: "0 \<le> ?X" "?X < 2 ^ exponent_width fo" "?X = output_exponent fi fo x" "?X \<noteq> 0"
    using assms(2,4) by (auto simp: in_range_def)
  have conv: "projr (convert_float neg fi fo rtne x) = pattern fo (sign_field fi x) ?X (output_significand fi fo x)"
    using assms(2) by (subst convert_float_pattern[OF assms(1) x assms(3)]) (auto simp: in_range_def)
  note g = fields_of_pattern[OF wf(2) pattern_of_fields(1)[OF wf(1) x] X(1,2) output_significand_range[OF assms(1) x]]
  show "float_value fo (projr (convert_float neg fi fo rtne x)) = (- 1) ^ nat (sign_field fi x) *
      ((1 + of_int (output_significand fi fo x) / 2 ^ fp_mant fo) * 2 powi (fst (normalise fi fo x) - fp_bias fi))"
    unfolding conv float_value_def g using X(3,4) by (simp add: output_exponent_def)
  show "float_value fi x = (- 1) ^ nat (sign_field fi x) *
      ((1 + of_int (snd (normalise fi fo x)) / 2 ^ fp_mant fi) * 2 powi (fst (normalise fi fo x) - fp_bias fi))"
    by (simp add: float_value_def normalise_value[OF wf(1) x assms(4)])
qed

lemma converted_zero:
  assumes "convertible fi fo" "in_range fi fo x" "fp_bits fi > fp_bits fo \<longrightarrow> \<not> rtne" "is_zero fi x"
  shows "float_value fo (projr (convert_float neg fi fo rtne x)) = 0" "float_value fi x = 0"
proof -
  have x: "0 \<le> x" "x < 2 ^ fp_bits fi" and wf: "wf_format fi" "wf_format fo"
    using assms(1,2) by (simp_all add: convertible_def in_range_def)
  have "normalise fi fo x = (fp_bias fi - fp_bias fo, 0)"
    using assms(4) by (simp add: is_zero_def normalise_def Let_def)
  then have z: "max 0 (min (output_exponent fi fo x) (2 ^ exponent_width fo - 1)) = 0" "output_significand fi fo x = 0"
    by (simp_all add: output_exponent_def output_significand_def)
  have "projr (convert_float neg fi fo rtne x) = pattern fo (sign_field fi x) 0 0"
    using convert_float_pattern[OF assms(1) x assms(3)] assms(4) z by simp
  then show "float_value fo (projr (convert_float neg fi fo rtne x)) = 0"
    using fields_of_pattern[OF wf(2) pattern_of_fields(1)[OF wf(1) x], of 0 0] by (simp add: float_value_def)
  show "float_value fi x = 0" using assms(4) by (simp add: float_value_def is_zero_def)
qed

lemma truncated_significand:
  assumes "convertible fi fo" "\<not> fp_bits fi \<le> fp_bits fo"
  shows "(of_int (output_significand fi fo x) / 2 ^ fp_mant fo :: rat) \<le> of_int (snd (normalise fi fo x)) / 2 ^ fp_mant fi"
    and "of_int (snd (normalise fi fo x)) / 2 ^ fp_mant fi < (of_int (output_significand fi fo x) + 1) / (2 ^ fp_mant fo :: rat)"
proof -
  let ?s = "snd (normalise fi fo x)" and ?d = "fp_mant fi - fp_mant fo"
  have m: "(2::rat) ^ fp_mant fi = 2 ^ fp_mant fo * 2 ^ ?d"
    using assms by (simp add: convertible_def flip: power_add)
  have q: "output_significand fi fo x = ?s div 2 ^ ?d" using assms(2) by (simp add: output_significand_def)
  have "?s div 2 ^ ?d * 2 ^ ?d \<le> ?s" "?s < (?s div 2 ^ ?d + 1) * 2 ^ ?d" by (rule div_power_bounds)+
  then have "(of_int (?s div 2 ^ ?d * 2 ^ ?d) :: rat) \<le> of_int ?s" "(of_int ?s :: rat) < of_int ((?s div 2 ^ ?d + 1) * 2 ^ ?d)"
    by (simp_all only: of_int_le_iff of_int_less_iff)
  then show "(of_int (output_significand fi fo x) / 2 ^ fp_mant fo :: rat) \<le> of_int ?s / 2 ^ fp_mant fi"
    "of_int ?s / 2 ^ fp_mant fi < (of_int (output_significand fi fo x) + 1) / (2 ^ fp_mant fo :: rat)"
    by (simp_all add: m q field_simps)
qed

lemma converted:
  assumes "convertible fi fo" "in_range fi fo x" "fp_bits fi > fp_bits fo \<longrightarrow> \<not> rtne"
  obtains y where "convert_float neg fi fo rtne x = Inr y"
proof -
  have "0 \<le> x" "x < 2 ^ fp_bits fi" "is_zero fi x \<or> 0 < output_exponent fi fo x" using assms(2) by (auto simp: in_range_def)
  then show thesis using convert_float_pattern[OF assms(1) _ _ assms(3)] that by blast
qed

text \<open>C38: the interpreter's conversion of a floating-point number that is zero or normal in the output format is exact
  when the output is not narrower and has no fewer mantissa bits, and when the output is narrower, with no more mantissa bits, and the
  rounding mode is not to the nearest, it truncates: the magnitude does not grow, and loses less than one unit in the last place
  of the result.  A format of the same width and fewer mantissa bits is left out: there the code shifts by a negative
  count.\<close>

theorem float_conversion_exact:
  assumes "convertible fi fo" "in_range fi fo x"
  shows "if fp_bits fi \<le> fp_bits fo
    then \<exists>y. convert_float neg fi fo rtne x = Inr y \<and> float_value fo y = float_value fi x
    else \<exists>y. convert_float neg fi fo False x = Inr y \<and> \<bar>float_value fo y\<bar> \<le> \<bar>float_value fi x\<bar> \<and>
      (is_zero fi x \<or> \<bar>float_value fi x\<bar> < \<bar>float_value fo y\<bar> + 2 powi (output_exponent fi fo x - fp_bias fo - int (fp_mant fo)))"
proof (cases "is_zero fi x")
  case True
  have "\<exists>y. convert_float neg fi fo b x = Inr y \<and> float_value fo y = 0" if b: "fp_bits fi > fp_bits fo \<longrightarrow> \<not> b" for b
  proof -
    obtain y where "convert_float neg fi fo b x = Inr y" by (rule converted[OF assms b])
    then show ?thesis using converted_zero(1)[OF assms b True, of neg] by simp
  qed
  then show ?thesis using converted_zero(2)[OF assms _ True, of False] True by (cases "fp_bits fi \<le> fp_bits fo") simp_all
next
  case nz: False
  show ?thesis
  proof (cases "fp_bits fi \<le> fp_bits fo")
    case True
    then have "(2::rat) ^ fp_mant fo = 2 ^ fp_mant fi * 2 ^ (fp_mant fo - fp_mant fi)"
      using assms(1) by (simp add: convertible_def flip: power_add)
    then have "(of_int (output_significand fi fo x) / 2 ^ fp_mant fo :: rat) = of_int (snd (normalise fi fo x)) / 2 ^ fp_mant fi"
      using True by (simp add: output_significand_def)
    then have v: "float_value fo (projr (convert_float neg fi fo rtne x)) = float_value fi x"
      using True converted_value[OF assms _ nz] by simp
    obtain y where "convert_float neg fi fo rtne x = Inr y" using converted[OF assms] True by auto
    then show ?thesis using True v by simp
  next
    case False
    let ?P = "2 powi (fst (normalise fi fo x) - fp_bias fi) :: rat"
    let ?A = "1 + of_int (output_significand fi fo x) / 2 ^ fp_mant fo :: rat"
    let ?B = "1 + of_int (snd (normalise fi fo x)) / 2 ^ fp_mant fi :: rat"
    have dn: "fp_bits fi > fp_bits fo \<longrightarrow> \<not> False" by simp
    have x: "0 \<le> x" "x < 2 ^ fp_bits fi" using assms(2) by (simp_all add: in_range_def)
    have P: "0 < ?P" by simp
    have A: "0 < ?A" using output_significand_range(1)[OF assms(1) x] by (simp add: add_pos_nonneg)
    have AB: "?A \<le> ?B" "?B < ?A + 1 / 2 ^ fp_mant fo"
      using truncated_significand[OF assms(1) False] by (simp_all add: add_divide_distrib)
    have ulp: "2 powi (output_exponent fi fo x - fp_bias fo - int (fp_mant fo)) = ?P / 2 ^ fp_mant fo"
      by (simp add: output_exponent_def power_int_diff)
    have v: "\<bar>float_value fo (projr (convert_float neg fi fo False x))\<bar> = ?A * ?P" "\<bar>float_value fi x\<bar> = ?B * ?P"
      using P A AB(1) by (simp_all add: converted_value[OF assms dn nz] abs_mult)
    have "?A * ?P \<le> ?B * ?P" using AB(1) P by (intro mult_right_mono) simp_all
    moreover have "?B * ?P < (?A + 1 / 2 ^ fp_mant fo) * ?P" using AB(2) P by (intro mult_strict_right_mono)
    ultimately have "\<bar>float_value fo (projr (convert_float neg fi fo False x))\<bar> \<le> \<bar>float_value fi x\<bar> \<and>
      \<bar>float_value fi x\<bar> < \<bar>float_value fo (projr (convert_float neg fi fo False x))\<bar> +
        2 powi (output_exponent fi fo x - fp_bias fo - int (fp_mant fo))"
      unfolding v ulp by (simp add: distrib_right)
    moreover obtain y where "convert_float neg fi fo False x = Inr y" by (rule converted[OF assms dn])
    ultimately show ?thesis using False by simp
  qed
qed

lemma example_formats:
  "convertible fp8e4nv_format fp16_format \<and> in_range fp8e4nv_format fp16_format 3"
  "convertible fp32_format bf16_format \<and> in_range fp32_format bf16_format 1067316150"
  by code_simp+

definition no_shift :: "int \<Rightarrow> int \<Rightarrow> int result" where
  "no_shift x k = Inl OtherException"

theorem float_conversion_exact_witness:
  "(\<exists>y. convert_float no_shift fp8e4nv_format fp16_format True 3 = Inr y \<and> float_value fp16_format y = float_value fp8e4nv_format 3) \<and>
   (\<exists>y. convert_float no_shift fp32_format bf16_format False 1067316150 = Inr y \<and>
     \<bar>float_value bf16_format y\<bar> \<le> \<bar>float_value fp32_format 1067316150\<bar>)"
proof -
  have b: "fp_bits fp8e4nv_format \<le> fp_bits fp16_format" "\<not> fp_bits fp32_format \<le> fp_bits bf16_format"
    by code_simp+
  show ?thesis
    using float_conversion_exact[of fp8e4nv_format fp16_format 3 no_shift True]
      float_conversion_exact[of fp32_format bf16_format 1067316150 no_shift True] example_formats b by auto
qed

lemma converted_patterns:
  "convert_float no_shift fp8e4nv_format fp16_format True 3 = Inr 7680"
  "convert_float no_shift fp32_format bf16_format False 1067316150 = Inr 16285"
  by code_simp+

text \<open>Outside these hypotheses the conversion is wrong: a subnormal number of a format with the exponent bias of the
  output, and a number whose significand rounds up to the next power of two.\<close>

lemma subnormals_of_equal_bias:
  "convert_float no_shift fp8e5_format fp16_format False 1 = Inr 0" "float_value fp8e5_format 1 \<noteq> float_value fp16_format 0"
  "\<not> in_range fp8e5_format fp16_format 1"
  by code_simp+

lemma rounding_carry_lost:
  "convert_float no_shift fp32_format fp8e5_format True 0x3FFFFFFF = Inr 0x3C"
  "float_value fp8e5_format 0x3C = 1" "1999/1000 < float_value fp32_format 0x3FFFFFFF"
  by code_simp+

text \<open>Between formats of one width, to fewer mantissa bits: the result is whatever the negative shift is, an exception or,
  when it is zero, the number without its significand.\<close>

lemma negative_shift:
  "convert_float no_shift fp8e4nv_format fp8e5_format False 0x3F = Inl OtherException"
  "convert_float (\<lambda>x k. Inr 0) fp8e4nv_format fp8e5_format False 0x3F = Inr 0x3C"
  "float_value fp8e5_format 0x3C = 1" "float_value fp8e4nv_format 0x3F = 15 / 8"
  by code_simp+

end
