(* ===== verification/Spec2Isabelle.thy ===== *)
theory Spec2Isabelle
  imports Promotion Semantic_Properties Overflow Semantic_Shape Semantic_Atomic Semantic_Dot Core_Ops Standard Flip Standard_Reduce Philox Codegen_Sound
    Cache_Concurrent Compile_Properties Jit_Properties Launcher_Properties Cpu_Backend_Properties Interpreter_Reduce Interpreter_Memory
    Interpreter_Float_Properties
begin

text \<open>
  The Python part of the Triton compiler with its CPU back end, \<open>src/python/triton\<close> and
  \<open>src/triton-shared/backend\<close>: the language front end that turns a kernel into IR, the standard library of
  the language, the kernel cache, the compile driver, the launch path, the launcher and the interpreter.

  \<^bold>\<open>How the parts interact.\<close>  A launch (\<open>runtime/jit.py\<close>) binds the arguments of the call, makes a key of their
  types, specialisations and compile-time values, and looks it up in the kernels of the device.  When there is none
  it calls the compile driver (\<open>compiler/compiler.py\<close>), which looks for a group of files under the digest of the
  source and the options in the cache (\<open>runtime/cache.py\<close>), and otherwise runs the stages of a back end
  (\<open>triton-shared/backend/compiler.py\<close>).  The first stage walks the abstract syntax of the kernel
  (\<open>compiler/code_generator.py\<close>); every operator and builtin it meets is a function of \<open>language/core.py\<close> on top of
  \<open>language/semantic.py\<close>, which checks and converts the operands and calls the IR builder.  The compiled kernel is run
  by a generated launcher (\<open>triton-shared/backend/driver.py\<close>).  The interpreter (\<open>runtime/interpreter.py\<close>) executes a
  kernel on arrays instead.

  \<^bold>\<open>Conventions\<close> (theory \<open>Prelude\<close>).  A Python exception is a value of \<open>py_error\<close>; a fallible function returns
  \<open>py_error + 'a\<close>, one that also changes state is in the monad \<open>('s, 'a) py\<close>, whose state is kept when an exception
  is raised.  Python integers are \<open>int\<close>, fixed-width ones words or integers with the wrap-around written out,
  strings \<open>string\<close>, dictionaries association lists where their order is used.  Code that is not Python of the
  repository is a parameter: the IR builder's types are those its operations document, and the stages of a back end, the
  drivers, hash functions and servers are arguments.

  \<^bold>\<open>Types and conversions.\<close>
  \<^item> \<open>Dtype\<close>: \<open>dtype\<close>, \<open>pointer_type\<close>, \<open>block_type\<close> and \<open>function_type\<close> of \<open>core.py\<close>, their attributes and IR types;
    \<open>Builder\<close>: tensors, the operations of the builder as a log, and a verifier of the log; \<open>sound\<close> triples state that a
    function only appends operations that verify.
  \<^item> \<open>Semantic_Types\<close>, \<open>Promotion\<close>: \<open>integer_promote_impl\<close> and \<open>computation_type_impl\<close>; a chain of operators relies on
    the locale \<open>promotion\<close>, interpreted on the code's rule, which is shown to be a least upper bound.
  \<^item> \<open>Semantic_Cast\<close> and \<open>Semantic_Cast_Sound\<close>: \<open>to_tensor\<close>, \<open>cast\<close>, broadcasting, \<open>binary_op_type_checking_impl\<close>.
    \<open>cast\<close> and \<open>not_equal\<close> call each other; \<open>cast_depth\<close> bounds the nesting by 3, and \<open>cast_unfold\<close> shows that the
    bounded function satisfies the recursive equation of the code, so that the bound is never reached.

  \<^bold>\<open>Operations.\<close>
  \<^item> \<open>Semantic_Arith\<close>, \<open>Semantic_Arith_Sound\<close>, \<open>Overflow\<close>: arithmetic, comparison, bitwise and logical operators, with
    the overflow sanitizer.  \<open>Semantic_Memory\<close>, \<open>Semantic_Memory_Sound\<close>: loads, stores, block pointers and descriptors.
    \<open>Semantic_Shape\<close>, \<open>Semantic_Atomic\<close>, \<open>Semantic_Dot\<close>: shapes, reductions and scans; atomics; products and debugging.
    \<open>Core_Ops\<close>: the operator methods of \<open>tensor\<close> and the wrappers of \<open>core.py\<close>.
  \<^item> \<open>Semantic_Properties\<close>: on a builder state that verifies, an operation that returns leaves one that verifies and a result
    of the type the code promises.  The operands are tensors of the builder whose conversions the back end has: no
    block of \<open>fp8e4b15\<close> in arithmetic, no conversion of a scalar \<open>fp8\<close>, rounding to the nearest for scalars, a mask of \<open>int1\<close>; the
    lemmas \<open>fp8e4b15_arithmetic_unverified\<close>, \<open>scalar_rtz_cast_unverified\<close>, \<open>scalar_fp8_store_unverified\<close>
    and \<open>int_mask_load_unverified\<close> show that the code does not check this.
  \<^item> \<open>Tensor_Value\<close>, \<open>Standard\<close>, \<open>Bitonic\<close>, \<open>Flip\<close>, \<open>Standard_Reduce\<close>, \<open>Index_Math\<close>: \<open>standard.py\<close> on blocks of
    integers: \<open>sort\<close> sorts (the network is followed stage by stage), \<open>flip\<close> reverses, \<open>cdiv\<close> is ceiling division,
    \<open>swizzle2d\<close> permutes; the combine functions are instances of the locales \<open>selection\<close> and \<open>accumulation\<close>, whose laws
    make a reduction independent of its bracketing.
  \<^item> \<open>Philox\<close>: \<open>random.py\<close>; the locale \<open>philox_multipliers\<close> has the inverse of the multipliers, interpreted for both widths.

  \<^bold>\<open>Code generator.\<close>  \<open>Codegen\<close> has the visitors of \<open>CodeGenerator\<close>: \<open>gen_expr\<close> (\<open>visit_BinOp\<close>, \<open>visit_UnaryOp\<close>,
  \<open>visit_IfExp\<close>, \<open>visit_Call\<close>, \<open>visit_Constant\<close>, \<open>visit_Name\<close>), \<open>gen_assign\<close>, \<open>gen_annotate\<close>, \<open>gen_if\<close>,
  \<open>gen_while\<close>, \<open>gen_for\<close>, \<open>gen_static_for\<close> (\<open>visit_Assign\<close>, \<open>visit_AnnAssign\<close>, \<open>visit_If\<close>, \<open>visit_While\<close>,
  \<open>visit_For\<close>), which take the visitors of the bodies, tied together by \<open>gen_stmt\<close>, and \<open>gen_kernel\<close> (\<open>visit_FunctionDef\<close>).  The state is \<open>lscope\<close>, \<open>local_defs\<close> and the next free
  handle; the code is returned.  Operators and builtins are one operation each here, whose types are parameters.
  \<^item> \<open>Codegen_Semantics\<close>: an interpreter of the source over a store and a memory, an interpreter of the code over the
    values of handles, and the verification of code.  \<open>while\<close> runs with fuel in both, the same for both; the
    theorem holds for every fuel with which the source ends.
  \<^item> \<open>Codegen_Code\<close>, \<open>Codegen_Rename\<close>: verified code keeps the values defined before it; \<open>replace_all_uses_with\<close>.
    \<open>Codegen_Scopes\<close>, \<open>Codegen_Shape\<close>: inversion of the visitors; what they leave in the scopes.
  \<^item> \<open>Codegen_Agree\<close>, \<open>Codegen_Wf\<close>, \<open>Codegen_Bind\<close>, \<open>Codegen_Correct\<close>, \<open>Codegen_While\<close>, \<open>Codegen_For\<close>, \<open>Codegen_Sound\<close>:
    store and scope agree when every defined variable has the value of its entry; each construct keeps the agreement;
    hence the code of a kernel has the effect of its source.  \<open>wf_kernel\<close> are the kernels this holds for; the
    code generator miscompiles or rejects some of the others, see \<open>Codegen_Sound\<close>.

  \<^bold>\<open>Cache and compile driver.\<close>
  \<^item> \<open>File_System\<close>: paths and the calls of \<open>os\<close> on a tree of files.  \<open>Cache\<close>: the managers of \<open>cache.py\<close>.
    \<open>Cache_File\<close> states the contract of a manager as the locale \<open>kernel_cache\<close>, interpreted on \<open>FileCacheManager\<close>;
    \<open>Cache_Remote\<close> has the locale \<open>remote_backend\<close>, which gives the contract by a \<open>sublocale\<close>, interpreted on the Redis
    backend; \<open>Cache_Key\<close>: names of directories; \<open>Cache_Properties\<close>: round trips.
  \<^item> \<open>Cache_Concurrent\<close>: \<open>put\<close> as six system calls, interleaved with those of other processes by an inductive step
    relation: readers see whole files, writers do not fail and what they leave is the text of one of them, every put ends
    (\<open>puts_terminate\<close>); the six calls are \<open>file_put\<close> (\<open>put_is_calls\<close>), which alone writes the one file and nothing else.
  \<^item> \<open>Compile\<close>, \<open>Compile_Properties\<close>: \<open>compile\<close> with override and dump managers, stages, metadata and the fall-back to the
    CPU.  \<open>compile_depth\<close> is bounded by 2; it is shown that the flag of the fall-back stops
    the recursion at that depth, so the bound is never reached.

  \<^bold>\<open>Launch.\<close>
  \<^item> \<open>Jit\<close>, \<open>Jit_Keys\<close>, \<open>Jit_Binding\<close>, \<open>Jit_Properties\<close>: \<open>JITFunction.run\<close> with its two paths.  The reference is a launch
    without caches; an invariant of the state of the function gives that all launches agree with it.  The compiler,
    \<open>parse_options\<close> and Python's printing of the key are parameters, with the hypotheses \<open>prints_apart\<close> and \<open>reads_only\<close>; the
    launches are \<open>regular\<close> and no parameter has the name of an option (\<open>options_apart\<close>).  What goes wrong otherwise is
    shown: \<open>signed_zero_reuses_kernel\<close>, \<open>annotated_none_shares_key\<close> and, on the CPU back end,
    \<open>option_parameter_takes_wrong_kernel\<close>.
  \<^item> \<open>Cpu_Backend\<close>, \<open>Cpu_Backend_Properties\<close>: options, flags and pipelines of the back end.  \<open>options_key\<close> prints the
    options as Python does; it tells options of the declared types apart, and is not injective on others
    (\<open>untyped_options_share_key\<close>).  \<open>cpu_jit_env\<close> gives the launch path the options of this back end: its \<open>parse_options\<close>
    satisfies \<open>reads_only\<close>, and the properties of \<open>Jit_Properties\<close> are applied to it here.
  \<^item> \<open>Launcher\<close>, \<open>Launcher_Properties\<close>: the arguments of the launcher and its four loops over the grid, with 32-bit and
    64-bit integers that wrap.  \<open>launched\<close> relates a launch to what each thread runs; the size of the team and the owners of
    the iterations of a static OpenMP loop are any the runtime may choose.
  \<^item> \<open>Interpreter_Reduce\<close>, \<open>Interpreter_Memory\<close>, \<open>Interpreter_Float\<close>, \<open>Interpreter_Float_Properties\<close>: reductions and scans against
    their mathematical meaning, with what a negative axis gives; memory accesses of block pointers; conversion of float
    formats, where numpy's shift by a negative count is a parameter (\<open>neg\<close>).

  \<^bold>\<open>Not modelled.\<close>  Of the code generator: return statements with the branches they cause, calls of other kernels, tuples,
  subscripts, attributes, f-strings, \<open>static_assert\<close> and default values.  Of the driver: the IR parser and the loading of
  binaries.  Of the launch path: hooks, preloading, dependency hashes.  The autotuner measures time and calls user
  functions for each decision.  Elementary functions, the scaling of random floats and the elementwise
  operations of the interpreter are floating-point library calls.  Builds, subprocesses, code templates, benchmarks, the GPU
  back ends, the MLIR passes in C++ and the vendored operator library FlagGems are outside the model.
\<close>

end
